(* ===== verification/Agent_Runtime.thy ===== *)
theory Agent_Runtime
  imports Kyomi_Prelude
begin

text \<open>
  The transition planner of the durable conversation runtime, \<open>crates/agent-runtime/src/lib.rs\<close>:
  the run states, the version 1 commands and payloads, the envelope validation, the planner and
  the append-then-notify entry point. \<open>serde_json\<close> is a parameter: a \<open>wire\<close> record gives
  the serialized size of a command or payload, or the serializer's error message; JSON values are
  the type variable \<open>'j\<close>. A 64-bit float (\<open>cost\<close>) is carried as its bit pattern.
\<close>

subsection \<open>Constants and identities\<close>

definition VERSION :: "16 word" where "VERSION = 1"
definition MAX_EVENT_BYTES :: nat where "MAX_EVENT_BYTES = 64 * 1024"
definition MAX_IDENTITY_BYTES :: nat where "MAX_IDENTITY_BYTES = 128"
definition MAX_DETAIL_BYTES :: nat where "MAX_DETAIL_BYTES = 2 * 1024 * 1024"
definition MAX_REPLAY_EVENTS :: nat where "MAX_REPLAY_EVENTS = 100"
definition MAX_REPLAY_BYTES :: nat where "MAX_REPLAY_BYTES = 1024 * 1024"

lemmas protocol_limits = VERSION_def MAX_EVENT_BYTES_def MAX_IDENTITY_BYTES_def
  MAX_DETAIL_BYTES_def MAX_REPLAY_EVENTS_def MAX_REPLAY_BYTES_def

text \<open>The identity newtypes are transparent wrappers of a string.\<close>

type_synonym conversation_id = string
type_synonym run_id = string
type_synonym message_id = string
type_synonym model_call_id = string
type_synonym tool_call_id = string
type_synonym event_id = string
type_synonym idempotency_key = string
type_synonym detail_id = string

subsection \<open>Run states\<close>

datatype run_state = Queued | Running | Completed | Failed | Cancelled | Interrupted

definition is_terminal :: "run_state \<Rightarrow> bool" where
  "is_terminal s = (case s of Queued \<Rightarrow> False | Running \<Rightarrow> False | _ \<Rightarrow> True)"

fun run_state_as_str :: "run_state \<Rightarrow> string" where
  "run_state_as_str Queued = ''queued''"
| "run_state_as_str Running = ''running''"
| "run_state_as_str Completed = ''completed''"
| "run_state_as_str Failed = ''failed''"
| "run_state_as_str Cancelled = ''cancelled''"
| "run_state_as_str Interrupted = ''interrupted''"

datatype policy_error =
    UnsupportedVersion "16 word"
  | IdempotencyConflict
  | InvalidIdentity
  | InvalidSubmission
  | Terminal
  | InvalidState
  | TooLarge
  | InvalidDetail
  | Serialization string

definition run_state_from_str :: "string \<Rightarrow> policy_error + run_state" where
  "run_state_from_str v =
     (if v = ''queued'' then Inr Queued
      else if v = ''running'' then Inr Running
      else if v = ''completed'' then Inr Completed
      else if v = ''failed'' then Inr Failed
      else if v = ''cancelled'' then Inr Cancelled
      else if v = ''interrupted'' then Inr Interrupted
      else Inl InvalidState)"

lemma run_state_roundtrip [simp]: "run_state_from_str (run_state_as_str s) = Inr s"
  by (cases s) (simp_all add: run_state_from_str_def)

lemma run_state_from_str_sound: "run_state_from_str v = Inr s \<Longrightarrow> run_state_as_str s = v"
  by (auto simp: run_state_from_str_def split: if_splits)

lemma is_terminal_simps [simp]:
  "\<not> is_terminal Queued" "\<not> is_terminal Running" "is_terminal Completed"
  "is_terminal Failed" "is_terminal Cancelled" "is_terminal Interrupted"
  by (simp_all add: is_terminal_def)

lemma is_terminal_iff: "is_terminal s \<longleftrightarrow> s \<noteq> Queued \<and> s \<noteq> Running"
  by (cases s) simp_all

subsection \<open>Payloads and commands\<close>

record text_ref =
  preview :: string
  detail_of :: "detail_id option"

record token_usage =
  input_tokens :: "64 word"
  output_tokens :: "64 word"

datatype recorded_role = RoleAssistant | RoleTool

datatype transport_outcome = TransportCompleted | TransportFailed | TransportUnknown
datatype domain_outcome = DomainSucceeded | DomainRejected | DomainUnknown

datatype 'j public_payload =
    PSubmitted message_id text_ref
  | PRunState run_state
  | PModelResponse model_call_id text_ref
  | PMessageRecorded message_id recorded_role text_ref "tool_call_id option" "string option" "'j option"
  | PPlanning text_ref
  | PToolIntent tool_call_id string 'j
  | PToolStarted tool_call_id
  | PToolResult tool_call_id text_ref bool
  | PToolOutcome tool_call_id text_ref transport_outcome domain_outcome
  | PUsage model_call_id token_usage "64 word option"
  | PValidation bool text_ref
  | PApprovedAnswer message_id text_ref
  | PCancellationRequested
  | PCancelled
  | PFailed text_ref
  | PInterrupted text_ref

fun payload_text :: "'j public_payload \<Rightarrow> text_ref option" where
  "payload_text (PSubmitted _ t) = Some t"
| "payload_text (PModelResponse _ t) = Some t"
| "payload_text (PMessageRecorded _ _ t _ _ _) = Some t"
| "payload_text (PPlanning t) = Some t"
| "payload_text (PToolResult _ t _) = Some t"
| "payload_text (PToolOutcome _ t _ _) = Some t"
| "payload_text (PValidation _ t) = Some t"
| "payload_text (PApprovedAnswer _ t) = Some t"
| "payload_text (PInterrupted t) = Some t"
| "payload_text (PFailed t) = Some t"
| "payload_text _ = None"

datatype 'j restricted_payload =
    RProviderResponse model_call_id 'j 'j
  | RCandidate model_call_id string

datatype 'j payload = Public "'j public_payload" | Restricted "'j restricted_payload"

fun is_public :: "'j payload \<Rightarrow> bool" where
  "is_public (Public _) = True"
| "is_public (Restricted _) = False"

record 'j append_command =
  c_version :: "16 word"
  c_conversation :: conversation_id
  c_run :: run_id
  c_event :: event_id
  c_key :: idempotency_key
  c_payload :: "'j payload"
  c_detail :: "string option"

record 'j public_event =
  pe_version :: "16 word"
  pe_conversation :: conversation_id
  pe_run :: run_id
  pe_event :: event_id
  pe_sequence :: int
  pe_payload :: "'j public_payload"

record 'j replay_batch =
  rb_version :: "16 word"
  rb_events :: "'j public_event list"
  rb_scanned_through :: int
  rb_high_watermark :: int
  rb_has_more :: bool

record commit_receipt =
  r_event :: event_id
  r_sequence :: int
  r_duplicate :: bool

record projection =
  pj_message :: message_id
  pj_role :: string
  pj_content :: string
  pj_status :: string

record plan_result =
  next_state :: run_state
  plan_projection :: "projection option"
  tool_receipt :: "(tool_call_id \<times> bool) option"
  usage_key :: "model_call_id option"

text \<open>The serializer: the size in bytes of a command or payload as JSON, or its error.\<close>

record 'j wire =
  command_size :: "'j append_command \<Rightarrow> string + nat"
  payload_size :: "'j payload \<Rightarrow> string + nat"

subsection \<open>Envelope validation\<close>

definition check_id :: "string \<Rightarrow> policy_error + unit" where
  "check_id i = ensure (i \<noteq> [] \<and> length i \<le> MAX_IDENTITY_BYTES) InvalidIdentity"

fun check_ids :: "string list \<Rightarrow> policy_error + unit" where
  "check_ids [] = Inr ()"
| "check_ids (i # is) = and_then (check_id i) (\<lambda>_. check_ids is)"

text \<open>The identities a payload carries, in the order the code checks them.\<close>

fun public_ids :: "'j public_payload \<Rightarrow> string list" where
  "public_ids (PSubmitted m _) = [m]"
| "public_ids (PApprovedAnswer m _) = [m]"
| "public_ids (PMessageRecorded m _ _ t _ _) = m # (case t of None \<Rightarrow> [] | Some i \<Rightarrow> [i])"
| "public_ids (PModelResponse m _) = [m]"
| "public_ids (PUsage m _ _) = [m]"
| "public_ids (PToolIntent t _ _) = [t]"
| "public_ids (PToolStarted t) = [t]"
| "public_ids (PToolResult t _ _) = [t]"
| "public_ids (PToolOutcome t _ _ _) = [t]"
| "public_ids _ = []"

fun payload_ids :: "'j payload \<Rightarrow> string list" where
  "payload_ids (Public p) = public_ids p"
| "payload_ids (Restricted (RProviderResponse m _ _)) = [m]"
| "payload_ids (Restricted (RCandidate m _)) = [m]"

fun command_text :: "'j payload \<Rightarrow> text_ref option" where
  "command_text (Public p) = payload_text p"
| "command_text (Restricted _) = None"

definition text_detail :: "'j payload \<Rightarrow> detail_id option" where
  "text_detail p = Option.bind (command_text p) detail_of"

definition payload_limit :: "'j payload \<Rightarrow> nat" where
  "payload_limit p = (if is_public p then MAX_EVENT_BYTES else MAX_DETAIL_BYTES)"

definition validate :: "'j wire \<Rightarrow> 'j append_command \<Rightarrow> policy_error + unit" where
  "validate w c =
     and_then (ensure (c_version c = VERSION) (UnsupportedVersion (c_version c))) (\<lambda>_.
     and_then (check_ids [c_conversation c, c_run c, c_event c, c_key c]) (\<lambda>_.
     and_then (map_err Serialization (command_size w c)) (\<lambda>n.
     and_then (ensure (n \<le> MAX_DETAIL_BYTES + MAX_EVENT_BYTES) TooLarge) (\<lambda>_.
     and_then (map_err Serialization (payload_size w (c_payload c))) (\<lambda>m.
     and_then (ensure (m \<le> payload_limit (c_payload c)) TooLarge) (\<lambda>_.
     and_then (ensure ((text_detail (c_payload c) \<noteq> None) = (c_detail c \<noteq> None)) InvalidDetail) (\<lambda>_.
     and_then (case c_detail c of None \<Rightarrow> Inr ()
               | Some s \<Rightarrow> ensure (length s \<le> MAX_DETAIL_BYTES) TooLarge) (\<lambda>_.
     and_then (check_ids (payload_ids (c_payload c))) (\<lambda>_.
     (case text_detail (c_payload c) of None \<Rightarrow> Inr () | Some i \<Rightarrow> check_id i))))))))))"

text \<open>What a validated command satisfies, without the order of the checks.\<close>

definition valid_id :: "string \<Rightarrow> bool" where
  "valid_id i \<longleftrightarrow> i \<noteq> [] \<and> length i \<le> MAX_IDENTITY_BYTES"

definition well_formed_command :: "'j wire \<Rightarrow> 'j append_command \<Rightarrow> bool" where
  "well_formed_command w c \<longleftrightarrow>
     c_version c = VERSION
   \<and> list_all valid_id [c_conversation c, c_run c, c_event c, c_key c]
   \<and> (case command_size w c of Inl _ \<Rightarrow> False | Inr n \<Rightarrow> n \<le> MAX_DETAIL_BYTES + MAX_EVENT_BYTES)
   \<and> (case payload_size w (c_payload c) of Inl _ \<Rightarrow> False | Inr n \<Rightarrow> n \<le> payload_limit (c_payload c))
   \<and> ((text_detail (c_payload c) = None) = (c_detail c = None))
   \<and> pred_option (\<lambda>s. length s \<le> MAX_DETAIL_BYTES) (c_detail c)
   \<and> list_all valid_id (payload_ids (c_payload c))
   \<and> pred_option valid_id (text_detail (c_payload c))"

lemma check_id_ok [simp]: "check_id i = Inr u \<longleftrightarrow> valid_id i"
  by (simp add: check_id_def valid_id_def)

lemma check_ids_ok [simp]: "check_ids is = Inr u \<longleftrightarrow> list_all valid_id is"
  by (induction "is") (auto simp: and_then_eq_Inr)

lemma check_ids_error: "check_ids is = Inl e \<Longrightarrow> e = InvalidIdentity"
  by (induction "is") (auto simp: and_then_eq_Inl check_id_def)

lemma validate_ok_iff: "validate w c = Inr () \<longleftrightarrow> well_formed_command w c"
  by (auto simp: validate_def well_formed_command_def and_then_eq_Inr split: option.splits sum.splits)

subsection \<open>The planner\<close>

definition exposed_body :: "'j append_command \<Rightarrow> text_ref \<Rightarrow> string" where
  "exposed_body c t = (case c_detail c of Some d \<Rightarrow> d | None \<Rightarrow> preview t)"

definition plan_for :: "run_state \<Rightarrow> plan_result" where
  "plan_for s = \<lparr>next_state = s, plan_projection = None, tool_receipt = None, usage_key = None\<rparr>"

text \<open>The last part of \<open>plan\<close>: a public event on a live run.\<close>

fun plan_live :: "'j append_command \<Rightarrow> 'j public_payload \<Rightarrow> run_state \<Rightarrow> policy_error + plan_result" where
  "plan_live c (PRunState nxt) s =
     (if (nxt = Queued \<and> s \<noteq> Queued) \<or> nxt = Completed then Inl InvalidState
      else Inr ((plan_for s)\<lparr>next_state := nxt\<rparr>))"
| "plan_live c (PApprovedAnswer m t) s =
     Inr ((plan_for s)\<lparr>next_state := Completed,
       plan_projection := Some \<lparr>pj_message = m, pj_role = ''assistant'',
         pj_content = exposed_body c t, pj_status = ''complete''\<rparr>\<rparr>)"
| "plan_live c PCancelled s = Inr ((plan_for s)\<lparr>next_state := Cancelled\<rparr>)"
| "plan_live c (PFailed _) s = Inr ((plan_for s)\<lparr>next_state := Failed\<rparr>)"
| "plan_live c (PInterrupted _) s = Inr ((plan_for s)\<lparr>next_state := Interrupted\<rparr>)"
| "plan_live c (PToolResult t _ ok) s = Inr ((plan_for s)\<lparr>tool_receipt := Some (t, ok)\<rparr>)"
| "plan_live c (PToolOutcome t _ tr d) s =
     Inr ((plan_for s)\<lparr>tool_receipt := Some (t, tr = TransportCompleted \<and> d = DomainSucceeded)\<rparr>)"
| "plan_live c (PUsage m _ _) s = Inr ((plan_for s)\<lparr>usage_key := Some m\<rparr>)"
| "plan_live c _ s = Inr (plan_for s)"

definition plan :: "'j wire \<Rightarrow> 'j append_command \<Rightarrow> run_state option \<Rightarrow> policy_error + plan_result" where
  "plan w c current =
     and_then (validate w c) (\<lambda>_.
     case c_payload c of
       Restricted _ \<Rightarrow>
         (case current of
            None \<Rightarrow> Inl InvalidSubmission
          | Some s \<Rightarrow> if is_terminal s then Inl Terminal else Inr (plan_for s))
     | Public p \<Rightarrow>
         (case p of
            PSubmitted m t \<Rightarrow>
              (if current \<noteq> None then Inl InvalidSubmission
               else Inr ((plan_for Queued)\<lparr>plan_projection :=
                 Some \<lparr>pj_message = m, pj_role = ''user'', pj_content = exposed_body c t,
                   pj_status = ''complete''\<rparr>\<rparr>))
          | _ \<Rightarrow>
              and_then (ok_or current InvalidSubmission) (\<lambda>s.
              if is_terminal s then Inl Terminal else plan_live c p s)))"

definition is_submission :: "'j payload \<Rightarrow> bool" where
  "is_submission p = (case p of Public (PSubmitted _ _) \<Rightarrow> True | _ \<Rightarrow> False)"

text \<open>Progress of a run: queued, then running, then one of the four terminal states.\<close>

fun state_rank :: "run_state \<Rightarrow> nat" where
  "state_rank Queued = 0"
| "state_rank Running = 1"
| "state_rank _ = 2"

lemma plan_validated: "plan w c cur = Inr p \<Longrightarrow> well_formed_command w c"
  by (simp add: plan_def and_then_eq_Inr validate_ok_iff)

lemma plan_from_live:
  assumes "plan w c (Some s) = Inr p"
  shows "\<not> is_terminal s" and "\<not> is_submission (c_payload c)"
    and "(\<exists>r. c_payload c = Restricted r \<and> p = plan_for s)
       \<or> (\<exists>q. c_payload c = Public q \<and> plan_live c q s = Inr p)"
  using assms
  by (auto simp: plan_def and_then_eq_Inr is_submission_def
      split: payload.splits public_payload.splits if_splits)

lemma state_rank_bounds:
  "\<not> is_terminal s \<Longrightarrow> state_rank s \<le> 1" "is_terminal s \<Longrightarrow> state_rank s = 2"
  "state_rank s \<le> 2" "state_rank s = 0 \<longleftrightarrow> s = Queued"
  by (cases s; simp)+

lemma plan_live_rank:
  assumes "\<not> is_terminal s" and "plan_live c q s = Inr p"
  shows "state_rank s \<le> state_rank (next_state p)"
proof (cases q)
  case (PRunState nxt)
  with assms show ?thesis
    by (cases s; cases nxt) (auto simp: plan_for_def)
qed (use assms state_rank_bounds(1) [of s] in \<open>auto simp: plan_for_def\<close>)

lemma plan_live_completed:
  "plan_live c q s = Inr p \<Longrightarrow> next_state p = Completed \<Longrightarrow> s \<noteq> Completed \<Longrightarrow> \<exists>m t. q = PApprovedAnswer m t"
  by (cases q) (auto simp: plan_for_def split: if_splits)

subsection \<open>Append, then notify\<close>

datatype 'f append_outcome =
    Committed commit_receipt
  | CommittedButNotNotified commit_receipt 'f

text \<open>
  \<open>append\<close> over a persistence port and a notification port, both with a state of their own:
  the store's state \<open>'s\<close> and the notified side's state \<open>'n\<close>.
\<close>

definition append_and_notify ::
  "('j append_command \<Rightarrow> 's \<Rightarrow> ('e + commit_receipt) \<times> 's)
   \<Rightarrow> (conversation_id \<Rightarrow> commit_receipt \<Rightarrow> 'n \<Rightarrow> ('f + unit) \<times> 'n)
   \<Rightarrow> 'j append_command \<Rightarrow> 's \<times> 'n \<Rightarrow> ('e + 'f append_outcome) \<times> 's \<times> 'n" where
  "append_and_notify commit notify c sn =
     (case sn of (s, n) \<Rightarrow>
       (case commit c s of
          (Inl e, s') \<Rightarrow> (Inl e, s', n)
        | (Inr r, s') \<Rightarrow>
            if r_duplicate r then (Inr (Committed r), s', n)
            else (case notify (c_conversation c) r n of
                (Inl e, n') \<Rightarrow> (Inr (CommittedButNotNotified r e), s', n')
              | (Inr _, n') \<Rightarrow> (Inr (Committed r), s', n'))))"

text \<open>The state after a sequence of commits, each in its own environment, whatever their results.\<close>

fun commit_all :: "('v \<Rightarrow> 'c \<Rightarrow> 's \<Rightarrow> 'r \<times> 's) \<Rightarrow> ('v \<times> 'c) list \<Rightarrow> 's \<Rightarrow> 's" where
  "commit_all commit [] s = s"
| "commit_all commit ((v, c) # cs) s = commit_all commit cs (snd (commit v c s))"

text \<open>
  The contract of \<open>AtomicPersistence\<close>: an acknowledged command stays acknowledged whatever is
  committed or fails later, and committing it again either fails or returns the first receipt as
  a duplicate, without a change. A commit runs in an environment (\<open>'v\<close>: the principal, the clock,
  fresh randomness) that may differ from call to call; a commit that reports an error may still
  have been applied (the acknowledgement was lost).
\<close>

locale durable_journal =
  fixes commit :: "'v \<Rightarrow> 'j append_command \<Rightarrow> 's \<Rightarrow> ('e + commit_receipt) \<times> 's"
    and acknowledged :: "'s \<Rightarrow> 'j append_command \<Rightarrow> (event_id \<times> int) option"
    and inv :: "'s \<Rightarrow> bool"
  assumes commit_step_inv: "inv s \<Longrightarrow> inv (snd (commit v c s))"
    and commit_acknowledges: "inv s \<Longrightarrow> commit v c s = (Inr r, s') \<Longrightarrow>
      acknowledged s' c = Some (r_event r, r_sequence r)"
    and commit_step_stable: "inv s \<Longrightarrow> acknowledged s d = Some k \<Longrightarrow>
      acknowledged (snd (commit v c s)) d = Some k"
    and commit_retry: "inv s \<Longrightarrow> acknowledged s c = Some (ev, q) \<Longrightarrow> commit v c s = (Inr r, s') \<Longrightarrow>
      r = \<lparr>r_event = ev, r_sequence = q, r_duplicate = True\<rparr> \<and> s' = s"
begin

lemma commit_all_stable:
  "inv s \<Longrightarrow> acknowledged s d = Some k \<Longrightarrow>
     inv (commit_all commit cs s) \<and> acknowledged (commit_all commit cs s) d = Some k"
  by (induction cs arbitrary: s) (auto simp: commit_step_inv commit_step_stable)

text \<open>A retry after any other commits returns the first receipt.\<close>

lemma retry_returns_receipt:
  assumes "inv s" "commit v c s = (Inr r, s')" "commit v' c (commit_all commit cs s') = (Inr r', t)"
  shows "r' = r\<lparr>r_duplicate := True\<rparr> \<and> t = commit_all commit cs s'"
proof -
  have "inv s'" using commit_step_inv [OF assms(1), of v c] assms(2) by simp
  from commit_all_stable [OF this commit_acknowledges [OF assms(1,2)], of cs]
  have "inv (commit_all commit cs s')"
    "acknowledged (commit_all commit cs s') c = Some (r_event r, r_sequence r)" by auto
  from commit_retry [OF this assms(3)] show ?thesis by simp
qed

text \<open>An acknowledged command is never notified again.\<close>

lemma acknowledged_not_notified:
  assumes "inv s" "acknowledged s c = Some k"
  shows "snd (snd (append_and_notify (commit v) notify c (s, n))) = n"
proof (cases "commit v c s")
  case (Pair r s')
  show ?thesis
  proof (cases r)
    case (Inr rc)
    with commit_retry [OF assms(1), of c "fst k" "snd k" v rc s'] assms(2) Pair
    have "r_duplicate rc" by simp
    with Pair Inr show ?thesis by (simp add: append_and_notify_def)
  qed (simp add: Pair append_and_notify_def)
qed

end

subsection \<open>Histories of one run\<close>

text \<open>
  The commands of one run, planned one after the other from the state the accepted ones left;
  a refused command changes nothing. The result is the last state and the accepted commands.
\<close>

fun run_history :: "'j wire \<Rightarrow> run_state option \<Rightarrow> 'j append_command list \<Rightarrow>
    run_state option \<times> 'j append_command list" where
  "run_history w cur [] = (cur, [])"
| "run_history w cur (c # cs) =
     (case plan w c cur of
        Inl _ \<Rightarrow> run_history w cur cs
      | Inr p \<Rightarrow> (case run_history w (Some (next_state p)) cs of (t, acc) \<Rightarrow> (t, c # acc)))"

lemma plan_from_none:
  "plan w c None = Inr p \<longleftrightarrow> well_formed_command w c \<and> (\<exists>m t. c_payload c = Public (PSubmitted m t)
     \<and> p = (plan_for Queued)\<lparr>plan_projection := Some \<lparr>pj_message = m, pj_role = ''user'',
         pj_content = exposed_body c t, pj_status = ''complete''\<rparr>\<rparr>)"
  by (auto simp: plan_def and_then_eq_Inr validate_ok_iff
      split: payload.splits public_payload.splits)

lemma plan_terminal: "is_terminal s \<Longrightarrow> \<exists>e. plan w c (Some s) = Inl e"
  by (cases "plan w c (Some s)") (auto dest: plan_from_live(1))

lemma run_history_terminal: "is_terminal s \<Longrightarrow> run_history w (Some s) cs = (Some s, [])"
proof (induction cs)
  case (Cons c cs)
  with plan_terminal [of s w c] show ?case by auto
qed simp

lemma plan_completed:
  assumes "plan w c (Some s) = Inr p" and "next_state p = Completed"
  shows "\<exists>m t. c_payload c = Public (PApprovedAnswer m t)"
proof -
  note live = plan_from_live [OF assms(1)]
  then have "s \<noteq> Completed" by auto
  with live(1,3) plan_live_completed [OF _ assms(2), of c _ s] assms(2) show ?thesis
    by (fastforce simp: plan_for_def)
qed

lemma plan_approved:
  assumes "plan w c (Some s) = Inr p" and "c_payload c = Public (PApprovedAnswer m t)"
  shows "next_state p = Completed"
  using plan_from_live(3) [OF assms(1)] assms(2) by auto

lemma run_history_live:
  assumes "run_history w (Some s) cs = (t, acc)" and "\<not> is_terminal s"
  shows "(\<exists>s'. t = Some s' \<and> state_rank s \<le> state_rank s') \<and> list_all (\<lambda>c. \<not> is_submission (c_payload c)) acc
    \<and> (t = Some Completed \<longleftrightarrow> acc \<noteq> [] \<and> (\<exists>m x. c_payload (last acc) = Public (PApprovedAnswer m x)))"
  using assms
proof (induction cs arbitrary: s t acc)
  case (Cons c cs)
  show ?case
  proof (cases "plan w c (Some s)")
    case (Inr p)
    obtain t' acc' where h: "run_history w (Some (next_state p)) cs = (t', acc')" by fastforce
    from Cons.prems(1) Inr h have eq: "t = t'" "acc = c # acc'" by auto
    note live = plan_from_live [OF Inr]
    have rank: "state_rank s \<le> state_rank (next_state p)"
      using live(3) plan_live_rank [OF Cons.prems(2)] by (auto simp: plan_for_def)
    show ?thesis
    proof (cases "is_terminal (next_state p)")
      case True
      with h have "t' = Some (next_state p)" "acc' = []" by (auto simp: run_history_terminal)
      with eq rank live(2) plan_completed [OF Inr] plan_approved [OF Inr] show ?thesis by auto
    next
      case False
      then have "\<not> (\<exists>m x. c_payload c = Public (PApprovedAnswer m x))"
        using plan_approved [OF Inr] by auto
      with Cons.IH [OF h False] eq rank live(2) show ?thesis
        by (cases "acc' = []") (auto intro: order_trans)
    qed
  next
    case (Inl e)
    with Cons show ?thesis by simp
  qed
qed (auto simp: is_terminal_iff)

subsection \<open>Properties\<close>

text \<open>C25: In every history of a run that starts without a stored run, the first accepted command is
  its submission and no other submission is accepted; the run is completed exactly when the last
  accepted command is an approved answer, whatever the commands and their order.\<close>

theorem run_history_shape:
  assumes "run_history w None cs = (Some s, acc)"
  shows "acc \<noteq> [] \<and> is_submission (c_payload (hd acc))
    \<and> list_all (\<lambda>c. \<not> is_submission (c_payload c)) (tl acc)
    \<and> list_all (well_formed_command w) (take 1 acc)
    \<and> (s = Completed \<longleftrightarrow> (\<exists>m x. c_payload (last acc) = Public (PApprovedAnswer m x)))"
  using assms
proof (induction cs)
  case (Cons c cs)
  show ?case
  proof (cases "plan w c None")
    case (Inr p)
    then obtain m t where sub: "c_payload c = Public (PSubmitted m t)" "next_state p = Queued"
      "well_formed_command w c" by (auto simp: plan_from_none plan_for_def)
    obtain t' acc' where h: "run_history w (Some Queued) cs = (t', acc')" by fastforce
    from Cons.prems Inr sub h have eq: "Some s = t'" "acc = c # acc'" by auto
    from run_history_live [OF h] have
      "list_all (\<lambda>c. \<not> is_submission (c_payload c)) acc'"
      "t' = Some Completed \<longleftrightarrow> acc' \<noteq> [] \<and> (\<exists>m x. c_payload (last acc') = Public (PApprovedAnswer m x))"
      by auto
    with eq sub show ?thesis by (auto simp: is_submission_def)
  qed (use Cons in simp)
qed simp

definition sample_wire :: "nat wire" where
  "sample_wire = \<lparr>command_size = (\<lambda>_. Inr 10), payload_size = (\<lambda>_. Inr 5)\<rparr>"

definition sample_command :: "nat payload \<Rightarrow> nat append_command" where
  "sample_command p = \<lparr>c_version = 1, c_conversation = ''c'', c_run = ''r'', c_event = ''e'',
     c_key = ''k'', c_payload = p, c_detail = None\<rparr>"

abbreviation "sample_text \<equiv> \<lparr>preview = ''hi'', detail_of = None\<rparr>"

lemmas sample_eval = sample_wire_def sample_command_def plan_def validate_def check_id_def
  text_detail_def payload_limit_def protocol_limits plan_for_def exposed_body_def

theorem run_history_shape_witness:
  "\<exists>acc. run_history sample_wire None (map sample_command
      [Public PCancelled, Public (PSubmitted ''u'' sample_text), Public (PApprovedAnswer ''a'' sample_text),
       Public PCancelled]) = (Some Completed, acc) \<and> is_submission (c_payload (hd acc))"
proof -
  let ?cs = "map sample_command
      [Public PCancelled, Public (PSubmitted ''u'' sample_text), Public (PApprovedAnswer ''a'' sample_text),
       Public PCancelled]"
  have h: "run_history sample_wire None ?cs = (Some Completed, snd (run_history sample_wire None ?cs))"
    by (simp add: sample_eval)
  from run_history_shape [OF h] h show ?thesis by blast
qed

text \<open>A terminal run is frozen: whatever command is planned against it is refused, with the
  envelope's own error if the command is malformed, as an invalid submission if it is a
  submission, and as an event on a terminal run otherwise; so no history changes its state.\<close>

theorem terminal_run_frozen:
  assumes "is_terminal s"
  shows "plan w c (Some s) =
      (case validate w c of Inl e \<Rightarrow> Inl e
       | Inr _ \<Rightarrow> Inl (if is_submission (c_payload c) then InvalidSubmission else Terminal))
    \<and> run_history w (Some s) cs = (Some s, [])"
  using assms
  by (auto simp: plan_def is_submission_def run_history_terminal
      split: sum.splits payload.splits public_payload.splits)

theorem terminal_run_frozen_witness:
  "plan sample_wire (sample_command (Public PCancellationRequested)) (Some Failed) = Inl Terminal"
proof -
  have "is_terminal Failed" by simp
  from terminal_run_frozen [OF this, of sample_wire "sample_command (Public PCancellationRequested)"]
  show ?thesis by (simp add: sample_eval is_submission_def)
qed

text \<open>Validation accepts exactly the well-formed envelopes: the supported version, the four
  envelope identities and every identity of the payload between 1 and 128 bytes, the serialized
  command and payload within their limits (2 MiB for restricted payloads, 64 KiB for public
  ones), and a detail body of at most 2 MiB present exactly when the payload refers to one. A
  command it refuses is refused by the planner with the same error in every run state.\<close>

theorem validation_exact:
  "(\<exists>e. validate w c = Inl e \<and> (\<forall>cur. plan w c cur = Inl e)) \<longleftrightarrow> \<not> well_formed_command w c"
proof (cases "validate w c")
  case (Inl e)
  then show ?thesis using validate_ok_iff [of w c] by (auto simp: plan_def)
next
  case (Inr u)
  then show ?thesis using validate_ok_iff [of w c] by auto
qed

end
