(* ===== verification/Run_Lifecycle.thy ===== *)
theory Run_Lifecycle
  imports Agent_Runtime
begin

text \<open>
  The lifecycle policy of a durable run, \<open>crates/agent-runtime/src/lifecycle.rs\<close>: submission
  idempotency, the claim of a queued run under a lease with a monotonic fence, heartbeats,
  cancellation, finalization, interruption and expiry. Every function is a plan over a snapshot
  read under the adapter's lock. Times are \<open>i64\<close> milliseconds; \<open>checked_add\<close> is kept.
  \<open>context_size\<close> is the serializer's size of the request context (\<open>serde_json\<close>).
\<close>

subsection \<open>Commands, leases and snapshots\<close>

record actor_identity =
  actor_id :: string
  actor_source :: string

record 'j submit_command =
  submitted :: "'j append_command"
  sc_assistant :: message_id
  request_id :: idempotency_key
  sc_context :: 'j
  sc_actor :: actor_identity
  submitted_at :: int
  new_conversation :: bool

record submission_plan =
  sp_run :: run_id
  sp_duplicate :: bool

record lease =
  l_owner :: string
  l_fence :: int
  l_expires_at :: int

record run_snapshot =
  rs_state :: run_state
  rs_lease :: "lease option"
  cancellation_requested :: bool
  rs_assistant :: message_id
  rs_fence :: int
  queued_at :: int
  started_at :: "int option"
  terminal_at :: "int option"

record lifecycle_plan =
  lp_snapshot :: run_snapshot
  lp_projection :: "projection option"
  lp_changed :: bool

datatype lifecycle_error =
    Policy policy_error
  | NotClaimable
  | ConversationBusy
  | StaleLease
  | InvalidLease

definition lc_identity :: "string \<Rightarrow> lifecycle_error + unit" where
  "lc_identity i = ensure (i \<noteq> [] \<and> length i \<le> 128) (Policy InvalidIdentity)"

subsection \<open>Submission\<close>

definition submission_text :: "'j append_command \<Rightarrow> text_ref option" where
  "submission_text c = (case c_payload c of Public (PSubmitted _ t) \<Rightarrow> Some t | _ \<Rightarrow> None)"

definition same_request :: "'j submit_command \<Rightarrow> text_ref \<Rightarrow> 'j submit_command \<Rightarrow> text_ref \<Rightarrow> bool" where
  "same_request c t s st \<longleftrightarrow>
     request_id c = request_id s
   \<and> c_conversation (submitted c) = c_conversation (submitted s)
   \<and> sc_actor c = sc_actor s
   \<and> sc_context c = sc_context s
   \<and> exposed_body (submitted c) t = exposed_body (submitted s) st
   \<and> new_conversation c = new_conversation s"

definition plan_submission ::
  "'j wire \<Rightarrow> ('j \<Rightarrow> string + nat) \<Rightarrow> 'j submit_command \<Rightarrow> 'j submit_command option
   \<Rightarrow> lifecycle_error + submission_plan" where
  "plan_submission w context_size c existing =
     and_then (map_err Policy (validate w (submitted c))) (\<lambda>_.
     and_then (lc_identity (request_id c)) (\<lambda>_.
     and_then (lc_identity (sc_assistant c)) (\<lambda>_.
     and_then (lc_identity (actor_id (sc_actor c))) (\<lambda>_.
     and_then (lc_identity (actor_source (sc_actor c))) (\<lambda>_.
     and_then (ok_or (submission_text (submitted c)) (Policy InvalidSubmission)) (\<lambda>t.
     and_then (map_err (\<lambda>e. Policy (Serialization e)) (context_size (sc_context c))) (\<lambda>n.
     if n > MAX_DETAIL_BYTES then Inl (Policy TooLarge)
     else case existing of
       Some s \<Rightarrow>
         and_then (ok_or (submission_text (submitted s)) (Policy InvalidSubmission)) (\<lambda>st.
         if same_request c t s st
         then Inr \<lparr>sp_run = c_run (submitted s), sp_duplicate = True\<rparr>
         else Inl (Policy IdempotencyConflict))
     | None \<Rightarrow> Inr \<lparr>sp_run = c_run (submitted c), sp_duplicate = False\<rparr>)))))))"

subsection \<open>Claims and leases\<close>

definition expiry :: "int \<Rightarrow> int \<Rightarrow> lifecycle_error + int" where
  "expiry now ttl = (if ttl \<le> 0 then Inl InvalidLease else ok_or (checked_add_i64 now ttl) InvalidLease)"

definition next_fence :: "int \<Rightarrow> int option" where
  "next_fence f = (case checked_add_i64 f 1 of None \<Rightarrow> None | Some g \<Rightarrow> if g > 0 then Some g else None)"

definition plan_claim ::
  "run_snapshot \<Rightarrow> string \<Rightarrow> int \<Rightarrow> int \<Rightarrow> bool \<Rightarrow> lifecycle_error + run_snapshot" where
  "plan_claim s owner now ttl conversation_active =
     and_then (lc_identity owner) (\<lambda>_.
     and_then (expiry now ttl) (\<lambda>expires_at.
     if rs_state s \<noteq> Queued \<or> cancellation_requested s then Inl NotClaimable
     else if conversation_active then Inl ConversationBusy
     else and_then (ok_or (next_fence (rs_fence s)) InvalidLease) (\<lambda>f.
       Inr (s\<lparr>rs_state := Running, rs_fence := f,
              rs_lease := Some \<lparr>l_owner = owner, l_fence = f, l_expires_at = expires_at\<rparr>,
              started_at := Some now\<rparr>))))"

definition validate_ownership :: "run_snapshot \<Rightarrow> lease \<Rightarrow> int \<Rightarrow> lifecycle_error + unit" where
  "validate_ownership s l now =
     (if rs_state s \<noteq> Running
       \<or> \<not> (case rs_lease s of None \<Rightarrow> False
             | Some cur \<Rightarrow> l_owner cur = l_owner l \<and> l_fence cur = l_fence l
                 \<and> l_fence cur = rs_fence s \<and> l_expires_at cur > now)
      then Inl StaleLease else Inr ())"

definition plan_heartbeat :: "run_snapshot \<Rightarrow> lease \<Rightarrow> int \<Rightarrow> int \<Rightarrow> lifecycle_error + run_snapshot" where
  "plan_heartbeat s l now ttl =
     and_then (validate_ownership s l now) (\<lambda>_.
     and_then (expiry now ttl) (\<lambda>expires_at.
     Inr (s\<lparr>rs_lease := map_option
       (\<lambda>cur. cur\<lparr>l_expires_at := max (l_expires_at cur) expires_at\<rparr>) (rs_lease s)\<rparr>)))"

subsection \<open>Terminal plans\<close>

definition unchanged :: "run_snapshot \<Rightarrow> lifecycle_plan" where
  "unchanged s = \<lparr>lp_snapshot = s, lp_projection = None, lp_changed = False\<rparr>"

definition terminal_status :: "run_state \<Rightarrow> string" where
  "terminal_status st = (case st of Completed \<Rightarrow> ''complete'' | Failed \<Rightarrow> ''error''
     | _ \<Rightarrow> run_state_as_str st)"

definition terminal_plan :: "run_snapshot \<Rightarrow> run_state \<Rightarrow> int \<Rightarrow> string \<Rightarrow> lifecycle_plan" where
  "terminal_plan s st now content =
     \<lparr>lp_snapshot = s\<lparr>rs_state := st, rs_lease := None, terminal_at := Some now\<rparr>,
      lp_projection = Some \<lparr>pj_message = rs_assistant s, pj_role = ''assistant'',
        pj_content = content, pj_status = terminal_status st\<rparr>,
      lp_changed = True\<rparr>"

definition plan_cancel :: "run_snapshot \<Rightarrow> int \<Rightarrow> lifecycle_error + lifecycle_plan" where
  "plan_cancel s now =
     (if is_terminal (rs_state s) then Inr (unchanged s)
      else if rs_state s = Queued
      then Inr (terminal_plan (s\<lparr>cancellation_requested := True\<rparr>) Cancelled now ''Cancelled'')
      else Inr \<lparr>lp_snapshot = s\<lparr>cancellation_requested := True\<rparr>, lp_projection = None,
                lp_changed = (\<not> cancellation_requested s)\<rparr>)"

definition plan_finalize ::
  "run_snapshot \<Rightarrow> lease \<Rightarrow> int \<Rightarrow> run_state \<Rightarrow> string \<Rightarrow> lifecycle_error + lifecycle_plan" where
  "plan_finalize s l now st content =
     and_then (validate_ownership s l now) (\<lambda>_.
     if \<not> is_terminal st \<or> st = Interrupted then Inl (Policy InvalidState)
     else if length content > MAX_DETAIL_BYTES then Inl (Policy TooLarge)
     else if cancellation_requested s then Inr (terminal_plan s Cancelled now ''Cancelled'')
     else Inr (terminal_plan s st now content))"

definition plan_interrupt_queued :: "run_snapshot \<Rightarrow> int \<Rightarrow> string \<Rightarrow> lifecycle_error + lifecycle_plan" where
  "plan_interrupt_queued s now reason =
     (if rs_state s \<noteq> Queued then Inr (unchanged s)
      else if length reason > MAX_DETAIL_BYTES then Inl (Policy TooLarge)
      else Inr (terminal_plan s Interrupted now reason))"

definition plan_expire :: "run_snapshot \<Rightarrow> int \<Rightarrow> lifecycle_error + lifecycle_plan" where
  "plan_expire s now =
     (if rs_state s \<noteq> Running then Inr (unchanged s)
      else and_then (ok_or (rs_lease s) InvalidLease) (\<lambda>l.
        if l_expires_at l > now then Inr (unchanged s)
        else if cancellation_requested s then Inr (terminal_plan s Cancelled now ''Cancelled'')
        else Inr (terminal_plan s Interrupted now ''Interrupted'')))"

lemmas lifecycle_defs = plan_claim_def plan_heartbeat_def plan_cancel_def plan_finalize_def
  plan_interrupt_queued_def plan_expire_def expiry_def next_fence_def lc_identity_def

subsection \<open>Lifecycle histories\<close>

text \<open>
  The command records of the persistence port (\<open>ClaimCommand\<close>, \<open>HeartbeatCommand\<close>,
  \<open>CancelCommand\<close>, \<open>FinishCommand\<close>) and the two recovery plans, executed one after the
  other on a snapshot. A refused command leaves the snapshot as it was.
\<close>

datatype lifecycle_command =
    ClaimCmd string int int bool
  | HeartbeatCmd lease int int
  | CancelCmd int
  | FinishCmd lease int run_state string
  | InterruptCmd int string
  | ExpireCmd int

fun lifecycle_apply :: "run_snapshot \<Rightarrow> lifecycle_command \<Rightarrow> lifecycle_error + lifecycle_plan" where
  "lifecycle_apply s (ClaimCmd ow now ttl act) = and_then (plan_claim s ow now ttl act)
     (\<lambda>t. Inr \<lparr>lp_snapshot = t, lp_projection = None, lp_changed = True\<rparr>)"
| "lifecycle_apply s (HeartbeatCmd l now ttl) = and_then (plan_heartbeat s l now ttl)
     (\<lambda>t. Inr \<lparr>lp_snapshot = t, lp_projection = None, lp_changed = True\<rparr>)"
| "lifecycle_apply s (CancelCmd now) = plan_cancel s now"
| "lifecycle_apply s (FinishCmd l now st content) = plan_finalize s l now st content"
| "lifecycle_apply s (InterruptCmd now reason) = plan_interrupt_queued s now reason"
| "lifecycle_apply s (ExpireCmd now) = plan_expire s now"

fun lifecycle_history :: "run_snapshot \<Rightarrow> lifecycle_command list \<Rightarrow> run_snapshot \<times> projection list" where
  "lifecycle_history s [] = (s, [])"
| "lifecycle_history s (c # cs) =
     (case lifecycle_apply s c of
        Inl _ \<Rightarrow> lifecycle_history s cs
      | Inr p \<Rightarrow> (case lifecycle_history (lp_snapshot p) cs of
          (t, pjs) \<Rightarrow> (t, (case lp_projection p of None \<Rightarrow> [] | Some j \<Rightarrow> [j]) @ pjs)))"

text \<open>The steps of a run, as a relation.\<close>

inductive lifecycle_step :: "run_snapshot \<Rightarrow> lifecycle_plan \<Rightarrow> bool" where
  claim: "plan_claim s ow now ttl act = Inr t \<Longrightarrow>
     lifecycle_step s \<lparr>lp_snapshot = t, lp_projection = None, lp_changed = True\<rparr>"
| heartbeat: "plan_heartbeat s l now ttl = Inr t \<Longrightarrow>
     lifecycle_step s \<lparr>lp_snapshot = t, lp_projection = None, lp_changed = True\<rparr>"
| cancel: "plan_cancel s now = Inr p \<Longrightarrow> lifecycle_step s p"
| finish: "plan_finalize s l now st content = Inr p \<Longrightarrow> lifecycle_step s p"
| interrupt: "plan_interrupt_queued s now reason = Inr p \<Longrightarrow> lifecycle_step s p"
| expire: "plan_expire s now = Inr p \<Longrightarrow> lifecycle_step s p"

lemma lifecycle_apply_step: "lifecycle_apply s c = Inr p \<Longrightarrow> lifecycle_step s p"
  by (cases c) (auto simp: and_then_eq_Inr intro: lifecycle_step.intros)

subsection \<open>The snapshot invariant\<close>

definition snapshot_inv :: "run_snapshot \<Rightarrow> bool" where
  "snapshot_inv s \<longleftrightarrow>
     (rs_lease s \<noteq> None \<longleftrightarrow> rs_state s = Running)
   \<and> pred_option (\<lambda>l. l_fence l = rs_fence s) (rs_lease s)
   \<and> (terminal_at s \<noteq> None \<longleftrightarrow> is_terminal (rs_state s))
   \<and> (rs_state s = Queued \<longrightarrow> started_at s = None \<and> \<not> cancellation_requested s)
   \<and> (rs_state s = Running \<longrightarrow> started_at s \<noteq> None)
   \<and> 0 \<le> rs_fence s"

lemma validate_ownership_ok:
  "validate_ownership s l now = Inr u \<longleftrightarrow>
     rs_state s = Running \<and> (\<exists>cur. rs_lease s = Some cur \<and> l_owner cur = l_owner l
       \<and> l_fence cur = l_fence l \<and> l_fence cur = rs_fence s \<and> now < l_expires_at cur)"
  by (auto simp: validate_ownership_def split: option.splits)

lemma terminal_plan_simps [simp]:
  "lp_snapshot (terminal_plan s st now c) = s\<lparr>rs_state := st, rs_lease := None, terminal_at := Some now\<rparr>"
  "lp_projection (terminal_plan s st now c) = Some \<lparr>pj_message = rs_assistant s,
     pj_role = ''assistant'', pj_content = c, pj_status = terminal_status st\<rparr>"
  "lp_changed (terminal_plan s st now c)"
  by (simp_all add: terminal_plan_def)

lemma unchanged_simps [simp]:
  "lp_snapshot (unchanged s) = s" "lp_projection (unchanged s) = None" "\<not> lp_changed (unchanged s)"
  by (simp_all add: unchanged_def)

text \<open>The shape of every accepted plan: what each command can do to a snapshot.\<close>

lemma plan_claim_ok:
  "plan_claim s ow now ttl act = Inr t \<longleftrightarrow>
     valid_id ow \<and> 0 < ttl \<and> in_i64 (now + ttl) \<and> rs_state s = Queued
   \<and> \<not> cancellation_requested s \<and> \<not> act \<and> in_i64 (rs_fence s + 1) \<and> 0 < rs_fence s + 1
   \<and> t = s\<lparr>rs_state := Running, rs_fence := rs_fence s + 1,
       rs_lease := Some \<lparr>l_owner = ow, l_fence = rs_fence s + 1, l_expires_at = now + ttl\<rparr>,
       started_at := Some now\<rparr>"
  by (auto simp: plan_claim_def lc_identity_def expiry_def next_fence_def and_then_eq_Inr valid_id_def
      MAX_IDENTITY_BYTES_def checked_add_i64_def split: if_splits option.splits)

lemma plan_heartbeat_ok:
  "plan_heartbeat s l now ttl = Inr t \<longleftrightarrow>
     validate_ownership s l now = Inr () \<and> 0 < ttl \<and> in_i64 (now + ttl)
   \<and> t = s\<lparr>rs_lease := map_option
       (\<lambda>cur. cur\<lparr>l_expires_at := max (l_expires_at cur) (now + ttl)\<rparr>) (rs_lease s)\<rparr>"
  by (auto simp: plan_heartbeat_def expiry_def and_then_eq_Inr checked_add_i64_def split: if_splits)

lemma plan_finalize_ok:
  "plan_finalize s l now st content = Inr p \<longleftrightarrow>
     validate_ownership s l now = Inr () \<and> is_terminal st \<and> st \<noteq> Interrupted
   \<and> length content \<le> MAX_DETAIL_BYTES
   \<and> p = (if cancellation_requested s then terminal_plan s Cancelled now ''Cancelled''
          else terminal_plan s st now content)"
  by (auto simp: plan_finalize_def and_then_eq_Inr)

lemma plan_expire_ok:
  "plan_expire s now = Inr p \<longleftrightarrow>
     (if rs_state s \<noteq> Running then p = unchanged s
      else case rs_lease s of None \<Rightarrow> False
        | Some l \<Rightarrow> p = (if now < l_expires_at l then unchanged s
            else if cancellation_requested s then terminal_plan s Cancelled now ''Cancelled''
            else terminal_plan s Interrupted now ''Interrupted''))"
  by (cases "rs_lease s") (auto simp: plan_expire_def)

lemmas lifecycle_ok = plan_claim_ok plan_heartbeat_ok plan_finalize_ok plan_expire_ok
  plan_cancel_def plan_interrupt_queued_def

text \<open>A plan either carries a terminal projection and makes the run terminal, or does neither.\<close>

lemma lifecycle_step_terminal:
  assumes "lifecycle_step s p"
  shows "if is_terminal (rs_state s) then lp_snapshot p = s \<and> lp_projection p = None
    else (is_terminal (rs_state (lp_snapshot p)) \<longleftrightarrow> lp_projection p \<noteq> None)"
  using assms
  by cases (auto simp: lifecycle_ok validate_ownership_ok split: if_splits option.splits)

lemma lifecycle_step_inv:
  assumes "lifecycle_step s p" and "snapshot_inv s"
  shows "snapshot_inv (lp_snapshot p)"
  using assms
  by cases (auto simp: lifecycle_ok validate_ownership_ok snapshot_inv_def split: if_splits option.splits)

lemma lifecycle_step_fence:
  assumes "lifecycle_step s p"
  shows "rs_fence (lp_snapshot p) = rs_fence s
    \<or> rs_state s = Queued \<and> rs_state (lp_snapshot p) = Running
      \<and> rs_fence (lp_snapshot p) = rs_fence s + 1"
  using assms
  by cases (auto simp: lifecycle_ok split: if_splits option.splits)

lemma lifecycle_step_rank:
  assumes "lifecycle_step s p"
  shows "state_rank (rs_state s) \<le> state_rank (rs_state (lp_snapshot p))"
  using assms
  by cases (auto simp: lifecycle_ok validate_ownership_ok state_rank_bounds split: if_splits option.splits)

subsection \<open>Histories\<close>

lemma history_terminal:
  "is_terminal (rs_state s) \<Longrightarrow> lifecycle_history s cs = (s, [])"
proof (induction cs)
  case (Cons c cs)
  show ?case
  proof (cases "lifecycle_apply s c")
    case (Inr p)
    from lifecycle_step_terminal [OF lifecycle_apply_step [OF Inr]] Cons Inr show ?thesis by auto
  qed (use Cons in auto)
qed simp

text \<open>
  Induction over a history: a property of (start, end, projections) that holds for the empty
  history and for a refused command, and is carried over an accepted step.
\<close>

lemma history_induct [consumes 1, case_names Nil step]:
  assumes "lifecycle_history s cs = (t, pjs)"
    and "\<And>s. P s s []"
    and "\<And>s p t pjs. lifecycle_step s p \<Longrightarrow> P (lp_snapshot p) t pjs \<Longrightarrow>
      P s t ((case lp_projection p of None \<Rightarrow> [] | Some j \<Rightarrow> [j]) @ pjs)"
  shows "P s t pjs"
  using assms(1)
proof (induction cs arbitrary: s t pjs)
  case Nil
  then show ?case using assms(2) by simp
next
  case (Cons c cs)
  show ?case
  proof (cases "lifecycle_apply s c")
    case (Inl e)
    with Cons show ?thesis by simp
  next
    case (Inr p)
    obtain t' qs where h: "lifecycle_history (lp_snapshot p) cs = (t', qs)" by fastforce
    have "P s t' ((case lp_projection p of None \<Rightarrow> [] | Some j \<Rightarrow> [j]) @ qs)"
      by (rule assms(3) [OF lifecycle_apply_step [OF Inr] Cons.IH [OF h]])
    with Inr h Cons.prems show ?thesis by simp
  qed
qed

lemma history_inv: "lifecycle_history s cs = (t, pjs) \<Longrightarrow> snapshot_inv s \<Longrightarrow> snapshot_inv t"
  by (induction rule: history_induct) (auto intro: lifecycle_step_inv)

lemma history_rank:
  "lifecycle_history s cs = (t, pjs) \<Longrightarrow> state_rank (rs_state s) \<le> state_rank (rs_state t)"
  by (induction rule: history_induct) (auto dest: lifecycle_step_rank)

lemma lifecycle_step_assistant: "lifecycle_step s p \<Longrightarrow> rs_assistant (lp_snapshot p) = rs_assistant s"
  by (erule lifecycle_step.cases) (auto simp: lifecycle_ok split: if_splits option.splits)

lemma lifecycle_step_answer:
  "lifecycle_step s p \<Longrightarrow> lp_projection p = Some j \<Longrightarrow>
     pj_message j = rs_assistant s \<and> pj_role j = ''assistant''
   \<and> pj_status j = terminal_status (rs_state (lp_snapshot p)) \<and> is_terminal (rs_state (lp_snapshot p))"
  by (erule lifecycle_step.cases) (auto simp: lifecycle_ok split: if_splits option.splits)

lemma lifecycle_step_claim:
  assumes "lifecycle_step s p"
  shows "(rs_fence (lp_snapshot p) = rs_fence s \<and> started_at (lp_snapshot p) = started_at s
      \<or> rs_state s = Queued \<and> rs_state (lp_snapshot p) \<noteq> Queued
        \<and> rs_fence (lp_snapshot p) = rs_fence s + 1 \<and> started_at (lp_snapshot p) \<noteq> None)
    \<and> (rs_state (lp_snapshot p) = Queued \<longrightarrow> lp_snapshot p = s)"
  using assms
  by cases (auto simp: lifecycle_ok validate_ownership_ok split: if_splits option.splits)

lemma lifecycle_step_cancelling:
  assumes "lifecycle_step s p" and "cancellation_requested s" and "rs_state s = Running"
  shows "rs_state (lp_snapshot p) \<in> {Running, Cancelled} \<and> cancellation_requested (lp_snapshot p)"
  using assms
  by cases (auto simp: lifecycle_ok split: if_splits option.splits)

subsection \<open>Properties\<close>

definition sample_queued :: run_snapshot where
  "sample_queued = \<lparr>rs_state = Queued, rs_lease = None, cancellation_requested = False,
     rs_assistant = ''m1'', rs_fence = 0, queued_at = 5, started_at = None, terminal_at = None\<rparr>"

definition sample_running :: run_snapshot where
  "sample_running = sample_queued\<lparr>rs_state := Running, rs_fence := 1, started_at := Some 10,
     rs_lease := Some \<lparr>l_owner = ''w'', l_fence = 1, l_expires_at = 110\<rparr>\<rparr>"

lemmas sample_defs = sample_queued_def sample_running_def

text \<open>C1: In every history of claims, heartbeats, cancellations, finishes, interruptions and
  expiries of a live run, whatever their order and however many are retried, the assistant
  message receives exactly one terminal answer when the run ends in a terminal state and none
  before; the answer names the run's own assistant message and carries the status of that state.\<close>

theorem exactly_one_terminal_answer:
  assumes "lifecycle_history s cs = (t, pjs)" and "\<not> is_terminal (rs_state s)"
  shows "length pjs = (if is_terminal (rs_state t) then 1 else 0)
    \<and> (\<forall>j \<in> set pjs. pj_message j = rs_assistant s \<and> pj_role j = ''assistant''
        \<and> pj_status j = terminal_status (rs_state t))"
  using assms
proof (induction cs arbitrary: s t pjs)
  case (Cons c cs)
  show ?case
  proof (cases "lifecycle_apply s c")
    case (Inr p)
    note step = lifecycle_apply_step [OF Inr]
    show ?thesis
    proof (cases "lp_projection p")
      case None
      with lifecycle_step_terminal [OF step] Cons.prems(2)
      have "\<not> is_terminal (rs_state (lp_snapshot p))" by auto
      from Cons.IH [OF _ this] Cons.prems(1) Inr None lifecycle_step_assistant [OF step]
      show ?thesis by (auto split: prod.splits)
    next
      case (Some j)
      from lifecycle_step_answer [OF step Some] Some Inr Cons.prems(1) show ?thesis
        by (auto simp: history_terminal)
    qed
  qed (use Cons in auto)
qed simp

theorem exactly_one_terminal_answer_witness:
  "length (snd (lifecycle_history sample_queued
     [ClaimCmd ''w'' 10 100 False, CancelCmd 20,
      FinishCmd \<lparr>l_owner = ''w'', l_fence = 1, l_expires_at = 110\<rparr> 30 Completed ''ok'', ExpireCmd 500])) = 1"
proof -
  let ?cs = "[ClaimCmd ''w'' 10 100 False, CancelCmd 20,
      FinishCmd \<lparr>l_owner = ''w'', l_fence = 1, l_expires_at = 110\<rparr> 30 Completed ''ok'', ExpireCmd 500]"
  obtain t pjs where h: "lifecycle_history sample_queued ?cs = (t, pjs)" by fastforce
  then have "is_terminal (rs_state t)"
    by (auto simp: sample_defs lifecycle_defs validate_ownership_def checked_add_i64_def in_i64_def
        i64_min_def i64_max_def MAX_DETAIL_BYTES_def)
  with exactly_one_terminal_answer [OF h] h show ?thesis
    by (simp add: sample_defs del: lifecycle_history.simps)
qed

text \<open>A run is executed under at most one claim: starting from a queued run, every history
  leaves the fence where it was or one above it, and it is one above exactly when the run was
  started. Expired work is never claimed again.\<close>

theorem claimed_at_most_once:
  assumes "lifecycle_history s cs = (t, pjs)" and "rs_state s = Queued" and "snapshot_inv s"
  shows "rs_fence t = (if started_at t = None then rs_fence s else rs_fence s + 1)
    \<and> (rs_state t = Queued \<longrightarrow> t = s)"
proof -
  have "lifecycle_history s cs = (t, pjs) \<Longrightarrow>
      (rs_state s = Queued \<and> started_at s = None \<longrightarrow>
        rs_fence t = rs_fence s + (if started_at t = None then 0 else 1))
      \<and> (rs_state s \<noteq> Queued \<longrightarrow> rs_fence t = rs_fence s \<and> started_at t = started_at s)
      \<and> (rs_state t = Queued \<longrightarrow> t = s)" for s t pjs
  proof (induction rule: history_induct)
    case (step s p t pjs)
    from lifecycle_step_claim [OF step(1)] lifecycle_step_rank [OF step(1)] step(2) show ?case
      by (auto simp: state_rank_bounds)
  qed auto
  from this [OF assms(1)] assms(2,3) show ?thesis by (auto simp: snapshot_inv_def)
qed

theorem claimed_at_most_once_witness:
  "rs_fence (fst (lifecycle_history sample_queued
     [ClaimCmd ''w'' 10 100 False, ExpireCmd 200, ClaimCmd ''v'' 210 100 False])) \<le> 1"
proof -
  let ?cs = "[ClaimCmd ''w'' 10 100 False, ExpireCmd 200, ClaimCmd ''v'' 210 100 False]"
  obtain t pjs where h: "lifecycle_history sample_queued ?cs = (t, pjs)" by fastforce
  have "snapshot_inv sample_queued" by (simp add: sample_defs snapshot_inv_def)
  with claimed_at_most_once [OF h] h show ?thesis
    by (simp add: sample_defs del: lifecycle_history.simps)
qed

text \<open>C7: A cancellation committed before completion wins: once a running run carries the
  cancellation request, every later history leaves it running or ends it as cancelled, with the
  content \<open>Cancelled\<close>; a finish that reports success, or an expiry, cannot complete it.\<close>

theorem cancellation_wins:
  assumes "lifecycle_history s cs = (t, pjs)"
    and "rs_state s = Running" and "cancellation_requested s"
  shows "rs_state t \<in> {Running, Cancelled} \<and> (\<forall>j \<in> set pjs. pj_content j = ''Cancelled'')"
proof -
  have content: "lifecycle_step s p \<Longrightarrow> cancellation_requested s \<Longrightarrow> rs_state s = Running \<Longrightarrow>
      lp_projection p = Some j \<Longrightarrow> pj_content j = ''Cancelled''" for s p j
    by (erule lifecycle_step.cases) (auto simp: lifecycle_ok split: if_splits option.splits)
  have "lifecycle_history s cs = (t, pjs) \<Longrightarrow>
      (rs_state s = Running \<and> cancellation_requested s) \<or> (rs_state s = Cancelled) \<Longrightarrow>
      rs_state t \<in> {Running, Cancelled} \<and> (\<forall>j \<in> set pjs. pj_content j = ''Cancelled'')" for s t pjs
  proof (induction cs arbitrary: s t pjs)
    case (Cons c cs)
    show ?case
    proof (cases "rs_state s = Running \<and> is_ok (lifecycle_apply s c)")
      case False
      then consider "rs_state s = Cancelled"
        | e where "rs_state s = Running" "lifecycle_apply s c = Inl e"
        using Cons.prems(2) by (cases "lifecycle_apply s c") auto
      then show ?thesis
      proof cases
        case 1
        with Cons.prems(1) history_terminal [of s "c # cs"] show ?thesis
          by (simp del: lifecycle_history.simps)
      next
        case 2
        with Cons show ?thesis by simp
      qed
    next
      case True
      then obtain p where p: "lifecycle_apply s c = Inr p" by (auto simp: is_ok_iff)
      note step = lifecycle_apply_step [OF p]
      from True Cons.prems(2) have run: "rs_state s = Running" "cancellation_requested s" by auto
      obtain t' qs where h: "lifecycle_history (lp_snapshot p) cs = (t', qs)" by fastforce
      from Cons.IH [OF h] lifecycle_step_cancelling [OF step run(2,1)]
      have "rs_state t' \<in> {Running, Cancelled} \<and> (\<forall>j \<in> set qs. pj_content j = ''Cancelled'')" by auto
      with h p Cons.prems(1) content [OF step run(2,1)] show ?thesis by (auto split: option.splits)
    qed
  qed auto
  with assms show ?thesis by blast
qed

theorem cancellation_wins_witness:
  "rs_state (fst (lifecycle_history (sample_running\<lparr>cancellation_requested := True\<rparr>)
     [FinishCmd \<lparr>l_owner = ''w'', l_fence = 1, l_expires_at = 110\<rparr> 30 Completed ''ok''])) \<noteq> Completed"
proof -
  let ?cs = "[FinishCmd \<lparr>l_owner = ''w'', l_fence = 1, l_expires_at = 110\<rparr> 30 Completed ''ok'']"
  let ?s = "sample_running\<lparr>cancellation_requested := True\<rparr>"
  obtain t pjs where h: "lifecycle_history ?s ?cs = (t, pjs)" by fastforce
  have "rs_state ?s = Running" "cancellation_requested ?s" by (simp_all add: sample_defs)
  from cancellation_wins [OF h this] h show ?thesis by auto
qed

text \<open>At any time a running run is either owned or expired, never both: the holder of its
  lease passes the ownership check exactly while the expiry plan would leave the run unchanged,
  and from the expiry instant on (inclusive) the expiry plan ends the run.\<close>

theorem owned_or_expired:
  assumes "snapshot_inv s" and "rs_state s = Running"
  shows "((\<exists>l. validate_ownership s l now = Inr ()) \<longleftrightarrow> plan_expire s now = Inr (unchanged s))
    \<and> (\<not> (\<exists>l. validate_ownership s l now = Inr ()) \<longleftrightarrow>
      (\<exists>p. plan_expire s now = Inr p \<and> lp_changed p \<and> is_terminal (rs_state (lp_snapshot p))))"
proof -
  from assms obtain cur where cur: "rs_lease s = Some cur" "l_fence cur = rs_fence s"
    by (auto simp: snapshot_inv_def)
  have differ: "unchanged s \<noteq> terminal_plan s st n c" for st n c
    by (simp add: unchanged_def terminal_plan_def)
  have own: "(\<exists>l. validate_ownership s l now = Inr ()) \<longleftrightarrow> now < l_expires_at cur"
    using cur assms(2) by (auto simp: validate_ownership_ok)
  show ?thesis
    unfolding own using cur assms(2) differ differ [symmetric] by (auto simp: plan_expire_def)
qed

theorem owned_or_expired_witness:
  "\<not> (\<exists>l. validate_ownership sample_running l 110 = Inr ())"
proof -
  have "snapshot_inv sample_running" "rs_state sample_running = Running"
    by (simp_all add: sample_defs snapshot_inv_def)
  from owned_or_expired [OF this, of 110] show ?thesis
    by (simp add: plan_expire_def sample_defs unchanged_def terminal_plan_def)
qed

text \<open>Writers are fenced: any two leases that pass the ownership check of one snapshot, at
  whatever times, name the same owner and the same fence; a lease whose fence differs from the
  run's current fence is refused, and a renewed heartbeat keeps every token that was valid.\<close>

theorem leases_agree:
  "validate_ownership s l n = Inr () \<Longrightarrow> validate_ownership s l' n' = Inr () \<Longrightarrow>
     l_owner l = l_owner l' \<and> l_fence l = l_fence l' \<and> l_fence l = rs_fence s
   \<and> (plan_heartbeat s l n ttl = Inr t \<longrightarrow> validate_ownership t l' n' = Inr ())"
  by (auto simp: validate_ownership_ok plan_heartbeat_ok)

theorem leases_agree_witness:
  "l_fence \<lparr>l_owner = ''w'', l_fence = 1, l_expires_at = 0\<rparr> = rs_fence sample_running"
  using leases_agree [of sample_running "\<lparr>l_owner = ''w'', l_fence = 1, l_expires_at = 0\<rparr>" 20
      "\<lparr>l_owner = ''w'', l_fence = 1, l_expires_at = 7\<rparr>" 30]
  by (simp add: validate_ownership_ok sample_defs)

text \<open>Submission is idempotent: a retry that is accepted against the saved request returns the
  run of the saved request as a duplicate, and only if it names the same request, conversation,
  actor, context and body; and a request that was accepted as new is accepted as its own retry.\<close>

theorem submission_idempotent:
  assumes "plan_submission w z c None = Inr p"
  shows "p = \<lparr>sp_run = c_run (submitted c), sp_duplicate = False\<rparr>
    \<and> plan_submission w z c (Some c) = Inr \<lparr>sp_run = c_run (submitted c), sp_duplicate = True\<rparr>
    \<and> (\<forall>t st. submission_text (submitted c) = Some t \<longrightarrow> submission_text (submitted s) = Some st \<longrightarrow>
      plan_submission w z c (Some s) =
        (if same_request c t s st then Inr \<lparr>sp_run = c_run (submitted s), sp_duplicate = True\<rparr>
         else Inl (Policy IdempotencyConflict)))"
proof -
  from assms obtain tc n where checks: "validate w (submitted c) = Inr ()"
      "lc_identity (request_id c) = Inr ()" "lc_identity (sc_assistant c) = Inr ()"
      "lc_identity (actor_id (sc_actor c)) = Inr ()" "lc_identity (actor_source (sc_actor c)) = Inr ()"
      "submission_text (submitted c) = Some tc" "z (sc_context c) = Inr n" "n \<le> MAX_DETAIL_BYTES"
      "p = \<lparr>sp_run = c_run (submitted c), sp_duplicate = False\<rparr>"
    by (auto simp: plan_submission_def and_then_eq_Inr split: if_splits)
  then show ?thesis by (simp add: plan_submission_def same_request_def)
qed

definition sample_submit :: "unit submit_command" where
  "sample_submit = \<lparr>submitted = \<lparr>c_version = 1, c_conversation = ''c'', c_run = ''r'', c_event = ''e'',
      c_key = ''k'', c_payload = Public (PSubmitted ''u'' \<lparr>preview = ''hi'', detail_of = None\<rparr>),
      c_detail = None\<rparr>,
     sc_assistant = ''m1'', request_id = ''q'', sc_context = (),
     sc_actor = \<lparr>actor_id = ''a'', actor_source = ''web''\<rparr>, submitted_at = 5, new_conversation = False\<rparr>"

theorem submission_idempotent_witness:
  "plan_submission \<lparr>command_size = (\<lambda>_. Inr 10), payload_size = (\<lambda>_. Inr 5)\<rparr> (\<lambda>_. Inr 2)
     sample_submit (Some sample_submit) = Inr \<lparr>sp_run = ''r'', sp_duplicate = True\<rparr>"
proof -
  have "plan_submission \<lparr>command_size = (\<lambda>_. Inr 10), payload_size = (\<lambda>_. Inr 5)\<rparr> (\<lambda>_. Inr 2)
      sample_submit None = Inr \<lparr>sp_run = ''r'', sp_duplicate = False\<rparr>"
    by (simp add: plan_submission_def sample_submit_def validate_def check_id_def lc_identity_def
        submission_text_def text_detail_def payload_limit_def protocol_limits)
  from submission_idempotent [OF this, of sample_submit] show ?thesis by (simp add: sample_submit_def)
qed

end
