(* ===== verification/Replay_Cursor.thy ===== *)
theory Replay_Cursor
  imports Agent_Runtime
begin

text \<open>
  The bounded durable read protocol, \<open>crates/agent-runtime/src/replay.rs\<close>: cursor validation,
  the page a scan fills record by record, the client's staged acknowledgement of a page, and the
  watermark-tagged run projection. The serializer is a parameter: a \<open>read_wire\<close> gives the JSON
  size of one event, of an event list and of a page, or \<open>None\<close> when serialization fails.
\<close>

subsection \<open>Limits and identities\<close>

definition envelope_template :: string where
  \<open>envelope_template = ''{"version":65535,"conversation_id":"","run_id":"","event_id":"","sequence":-9223372036854775808,"payload":}''\<close>

definition MIN_REPLAY_BYTES :: nat where
  "MIN_REPLAY_BYTES = MAX_EVENT_BYTES + 3 * MAX_IDENTITY_BYTES * 6 + length envelope_template + 2"

record read_identity =
  connection_generation :: string
  request_generation :: "64 word"

datatype cursor_reset = CursorInvalid | CursorPruned

definition validate_cursor :: "int \<Rightarrow> int \<Rightarrow> int option \<Rightarrow> cursor_reset + unit" where
  "validate_cursor after watermark first_retained =
     (if after < 0 \<or> after > watermark then Inl CursorInvalid
      else if after < watermark
        \<and> (case first_retained of None \<Rightarrow> True | Some first \<Rightarrow> after + 1 < first)
      then Inl CursorPruned
      else Inr ())"

subsection \<open>Pages\<close>

record 'j cursor_page =
  cp_version :: "16 word"
  from_cursor :: int
  through_cursor :: int
  high_watermark :: int
  has_more :: bool
  cp_events :: "'j public_event list"

record 'j read_wire =
  event_bytes :: "'j public_event \<Rightarrow> nat option"
  events_bytes :: "'j public_event list \<Rightarrow> nat option"
  page_bytes :: "'j cursor_page \<Rightarrow> nat option"

definition new_page :: "int \<Rightarrow> int \<Rightarrow> 'j cursor_page" where
  "new_page frm hw = \<lparr>cp_version = VERSION, from_cursor = frm, through_cursor = frm,
     high_watermark = hw, has_more = frm < hw, cp_events = []\<rparr>"

definition advance_page :: "int \<Rightarrow> 'j cursor_page \<Rightarrow> 'j cursor_page" where
  "advance_page sq p = p\<lparr>through_cursor := sq, has_more := sq < high_watermark p\<rparr>"

definition scan_snapshot ::
  "'j read_wire \<Rightarrow> 'j cursor_page \<Rightarrow> int \<Rightarrow> 'j public_event option \<Rightarrow> nat
   \<Rightarrow> cursor_reset + bool \<times> 'j cursor_page" where
  "scan_snapshot w p sq visible byte_limit =
     (if sq \<le> through_cursor p \<or> sq > high_watermark p then Inl CursorPruned
      else case visible of
        None \<Rightarrow> Inr (True, advance_page sq p)
      | Some ev \<Rightarrow>
          if pe_sequence ev \<noteq> sq \<or> pe_version ev \<noteq> VERSION then Inl CursorInvalid
          else and_then (ok_or (event_bytes w ev) CursorInvalid) (\<lambda>bytes.
               and_then (ok_or (events_bytes w (cp_events p)) CursorInvalid) (\<lambda>used.
               let separator = (if cp_events p = [] then 0 else 1) in
               if used + bytes + separator > min byte_limit MAX_REPLAY_BYTES then Inr (False, p)
               else Inr (True, advance_page sq (p\<lparr>cp_events := cp_events p @ [ev]\<rparr>)))))"

definition scan ::
  "'j read_wire \<Rightarrow> 'j cursor_page \<Rightarrow> int \<Rightarrow> 'j public_event option \<Rightarrow> nat
   \<Rightarrow> cursor_reset + bool \<times> 'j cursor_page" where
  "scan w p sq visible byte_limit =
     and_then (ok_or (checked_add_i64 (through_cursor p) 1) CursorInvalid) (\<lambda>nxt.
     if sq \<noteq> nxt then Inl CursorPruned else scan_snapshot w p sq visible byte_limit)"

text \<open>What every page between a fresh one and a finished one satisfies.\<close>

definition page_inv :: "'j cursor_page \<Rightarrow> bool" where
  "page_inv p \<longleftrightarrow>
     cp_version p = VERSION
   \<and> from_cursor p \<le> through_cursor p \<and> through_cursor p \<le> high_watermark p
   \<and> has_more p = (through_cursor p < high_watermark p)
   \<and> (\<forall>e \<in> set (cp_events p). pe_version e = VERSION
        \<and> from_cursor p < pe_sequence e \<and> pe_sequence e \<le> through_cursor p)
   \<and> sorted_wrt (<) (map pe_sequence (cp_events p))"

lemma new_page_inv: "frm \<le> hw \<Longrightarrow> page_inv (new_page frm hw)"
  by (simp add: page_inv_def new_page_def)

lemma scan_snapshot_shape:
  assumes "scan_snapshot w p sq vis lim = Inr (ok, q)"
  shows "through_cursor p < sq \<and> sq \<le> high_watermark p \<and>
    (if ok then (\<exists>evs. q = advance_page sq (p\<lparr>cp_events := cp_events p @ evs\<rparr>) \<and>
        (case vis of None \<Rightarrow> evs = [] | Some e \<Rightarrow> evs = [e] \<and> pe_sequence e = sq \<and> pe_version e = VERSION))
     else q = p \<and> vis \<noteq> None)"
  using assms
  by (cases vis) (auto simp: scan_snapshot_def and_then_eq_Inr Let_def split: if_splits)

lemma scan_is_snapshot_scan: "scan w p sq vis lim = Inr r \<Longrightarrow> scan_snapshot w p sq vis lim = Inr r
    \<and> sq = through_cursor p + 1"
  by (auto simp: scan_def and_then_eq_Inr split: if_splits)

lemma advance_page_inv:
  assumes "page_inv p" "through_cursor p < sq" "sq \<le> high_watermark p"
    and "\<forall>e \<in> set evs. pe_version e = VERSION \<and> pe_sequence e = sq" and "length evs \<le> 1"
  shows "page_inv (advance_page sq (p\<lparr>cp_events := cp_events p @ evs\<rparr>))"
  using assms by (cases evs) (fastforce simp: page_inv_def advance_page_def sorted_wrt_append)+

lemma scan_snapshot_inv:
  assumes "page_inv p" "scan_snapshot w p sq vis lim = Inr (ok, q)"
  shows "page_inv q \<and> from_cursor q = from_cursor p \<and> high_watermark q = high_watermark p
    \<and> through_cursor q = (if ok then sq else through_cursor p)"
proof -
  note sh = scan_snapshot_shape [OF assms(2)]
  show ?thesis
  proof (cases ok)
    case True
    with sh obtain evs where q: "q = advance_page sq (p\<lparr>cp_events := cp_events p @ evs\<rparr>)"
      and c: "case vis of None \<Rightarrow> evs = []
        | Some e \<Rightarrow> evs = [e] \<and> pe_sequence e = sq \<and> pe_version e = VERSION" by auto
    then have evs: "\<forall>e \<in> set evs. pe_version e = VERSION \<and> pe_sequence e = sq" "length evs \<le> 1"
      by (cases vis; simp)+
    from advance_page_inv [OF assms(1) _ _ evs] sh q True show ?thesis
      by (simp add: advance_page_def)
  qed (use sh assms(1) in auto)
qed

text \<open>
  The sizes \<open>serde_json\<close> documents: a list of events is two brackets around its events with a comma
  between two, and a page of \<open>i64\<close> cursors is its events with less than 256 bytes around them.
\<close>

definition wire_sizes :: "'j read_wire \<Rightarrow> bool" where
  "wire_sizes w \<longleftrightarrow>
     events_bytes w [] = Some 2
   \<and> (\<forall>es ev n k. events_bytes w es = Some n \<longrightarrow> event_bytes w ev = Some k \<longrightarrow>
        events_bytes w (es @ [ev]) = Some (n + k + (if es = [] then 0 else 1)))
   \<and> (\<forall>p n. events_bytes w (cp_events p) = Some n \<longrightarrow> in_i64 (from_cursor p) \<longrightarrow> in_i64 (through_cursor p) \<longrightarrow>
        in_i64 (high_watermark p) \<longrightarrow> (\<exists>m. page_bytes w p = Some m \<and> m \<le> n + 256))"

text \<open>A page's events never outgrow the byte limit of a read.\<close>

definition page_fits :: "'j read_wire \<Rightarrow> 'j cursor_page \<Rightarrow> bool" where
  "page_fits w p \<longleftrightarrow> (\<exists>n. events_bytes w (cp_events p) = Some n \<and> n \<le> MAX_REPLAY_BYTES)"

lemma new_page_fits: "wire_sizes w \<Longrightarrow> page_fits w (new_page frm hw)"
  by (simp add: wire_sizes_def page_fits_def new_page_def MAX_REPLAY_BYTES_def)

lemma scan_snapshot_fits:
  assumes "wire_sizes w" "page_fits w p" "scan_snapshot w p sq vis lim = Inr (ok, q)"
  shows "page_fits w q"
proof (cases vis)
  case None
  with assms(2,3) show ?thesis by (auto simp: scan_snapshot_def page_fits_def advance_page_def split: if_splits)
next
  case (Some ev)
  with assms(3) obtain k n where sizes: "event_bytes w ev = Some k" "events_bytes w (cp_events p) = Some n"
    and q: "if n + k + (if cp_events p = [] then 0 else 1) > min lim MAX_REPLAY_BYTES then q = p
      else q = advance_page sq (p\<lparr>cp_events := cp_events p @ [ev]\<rparr>)"
    by (auto simp: scan_snapshot_def and_then_eq_Inr Let_def split: if_splits)
  have "events_bytes w (cp_events p @ [ev]) = Some (n + k + (if cp_events p = [] then 0 else 1))"
    using assms(1) sizes unfolding wire_sizes_def by blast
  with q assms(2) show ?thesis
    by (cases "n + k + (if cp_events p = [] then 0 else 1) > min lim MAX_REPLAY_BYTES")
      (simp_all add: page_fits_def advance_page_def)
qed

lemma page_fits_size:
  assumes "wire_sizes w" "page_fits w p" "in_i64 (from_cursor p)" "in_i64 (through_cursor p)" "in_i64 (high_watermark p)"
  obtains n where "page_bytes w p = Some n" "n \<le> MAX_REPLAY_BYTES + 65536"
proof -
  from assms(2) obtain n where n: "events_bytes w (cp_events p) = Some n" "n \<le> MAX_REPLAY_BYTES" by (auto simp: page_fits_def)
  with assms obtain m where "page_bytes w p = Some m" "m \<le> n + 256" unfolding wire_sizes_def by blast
  with n(2) that show thesis by fastforce
qed

text \<open>A scan of several records stops at the first record that does not fit.\<close>

fun scan_records ::
  "('j cursor_page \<Rightarrow> int \<Rightarrow> 'j public_event option \<Rightarrow> cursor_reset + bool \<times> 'j cursor_page)
   \<Rightarrow> 'j cursor_page \<Rightarrow> (int \<times> 'j public_event option) list \<Rightarrow> cursor_reset + bool \<times> 'j cursor_page" where
  "scan_records f p [] = Inr (False, p)"
| "scan_records f p ((sq, vis) # rs) =
     and_then (f p sq vis) (\<lambda>(included, q). if included then scan_records f q rs else Inr (True, q))"

lemma scan_records_inv:
  assumes "\<And>p sq vis ok q. f p sq vis = Inr (ok, q) \<Longrightarrow> \<exists>lim. scan_snapshot w p sq vis lim = Inr (ok, q)"
  shows "scan_records f p rs = Inr (stopped, q) \<Longrightarrow> page_inv p \<Longrightarrow>
     page_inv q \<and> from_cursor q = from_cursor p \<and> high_watermark q = high_watermark p
   \<and> through_cursor p \<le> through_cursor q"
proof (induction rs arbitrary: p)
  case (Cons r rs)
  obtain sq vis where r: "r = (sq, vis)" by fastforce
  from Cons.prems(1) r obtain inc q' where
    f: "f p sq vis = Inr (inc, q')" and
    rest: "(if inc then scan_records f q' rs else Inr (True, q')) = Inr (stopped, q)"
    by (auto simp: and_then_eq_Inr split: prod.splits)
  from assms [OF f] obtain lim where s: "scan_snapshot w p sq vis lim = Inr (inc, q')" by blast
  from scan_snapshot_inv [OF Cons.prems(2) s] scan_snapshot_shape [OF s] rest Cons.IH [of q']
  show ?case by (cases inc) auto
qed simp

subsection \<open>Staged acknowledgement\<close>

record read_stage_token =
  tk_identity :: read_identity
  tk_attempt :: nat
  tk_from :: int
  tk_through :: int

record read_projection_cursor =
  rp_identity :: read_identity
  rp_cursor :: int
  rp_pending :: "read_stage_token option"
  rp_attempt :: nat

definition new_cursor :: "read_identity \<Rightarrow> int \<Rightarrow> read_projection_cursor" where
  "new_cursor i c = \<lparr>rp_identity = i, rp_cursor = c, rp_pending = None, rp_attempt = 0\<rparr>"

definition checked_succ_u64 :: "nat \<Rightarrow> nat option" where
  "checked_succ_u64 n = (if n + 1 < 2 ^ 64 then Some (n + 1) else None)"

text \<open>The conditions under which \<open>stage\<close> refuses a page, in the order of the code.\<close>

definition stage_refuses ::
  "'j read_wire \<Rightarrow> read_projection_cursor \<Rightarrow> read_identity \<Rightarrow> 'j cursor_page \<Rightarrow> bool" where
  "stage_refuses w c i p \<longleftrightarrow>
     i \<noteq> rp_identity c
   \<or> cp_version p \<noteq> VERSION
   \<or> has_more p \<noteq> (through_cursor p < high_watermark p)
   \<or> list_ex (\<lambda>e. pe_version e \<noteq> VERSION \<or> pe_sequence e \<le> from_cursor p
       \<or> pe_sequence e > through_cursor p) (cp_events p)
   \<or> list_ex (\<lambda>(a, b). pe_sequence a \<ge> pe_sequence b) (zip (cp_events p) (tl (cp_events p)))
   \<or> rp_pending c \<noteq> None
   \<or> from_cursor p \<noteq> rp_cursor c
   \<or> through_cursor p < rp_cursor c
   \<or> through_cursor p > high_watermark p
   \<or> length (cp_events p) > MAX_REPLAY_EVENTS
   \<or> (case page_bytes w p of None \<Rightarrow> True | Some n \<Rightarrow> n > MAX_REPLAY_BYTES + 65536)"

definition stage ::
  "'j read_wire \<Rightarrow> read_projection_cursor \<Rightarrow> read_identity \<Rightarrow> 'j cursor_page
   \<Rightarrow> read_stage_token option \<times> read_projection_cursor" where
  "stage w c i p =
     (if stage_refuses w c i p then (None, c)
      else case checked_succ_u64 (rp_attempt c) of
        None \<Rightarrow> (None, c)
      | Some a \<Rightarrow>
          let t = \<lparr>tk_identity = i, tk_attempt = a, tk_from = from_cursor p, tk_through = through_cursor p\<rparr>
          in (Some t, c\<lparr>rp_attempt := a, rp_pending := Some t\<rparr>))"

definition applied :: "read_projection_cursor \<Rightarrow> read_stage_token \<Rightarrow> bool \<times> read_projection_cursor" where
  "applied c t =
     (if rp_pending c \<noteq> Some t \<or> tk_identity t \<noteq> rp_identity c \<or> tk_from t \<noteq> rp_cursor c
      then (False, c)
      else (True, c\<lparr>rp_cursor := tk_through t, rp_pending := None\<rparr>))"

definition application_failed ::
  "read_projection_cursor \<Rightarrow> read_stage_token \<Rightarrow> bool \<times> read_projection_cursor" where
  "application_failed c t =
     (if rp_pending c \<noteq> Some t \<or> tk_identity t \<noteq> rp_identity c then (False, c)
      else (True, c\<lparr>rp_pending := None\<rparr>))"

definition replace_cursor :: "read_projection_cursor \<Rightarrow> read_identity \<Rightarrow> int \<Rightarrow> read_projection_cursor" where
  "replace_cursor c i n = c\<lparr>rp_identity := i, rp_cursor := n, rp_pending := None\<rparr>"

text \<open>The client's moves: any interleaving of stages, acknowledgements and replacements.\<close>

inductive cursor_step :: "'j read_wire \<Rightarrow> read_projection_cursor \<Rightarrow> read_projection_cursor \<Rightarrow> bool"
  for w where
  stage: "cursor_step w c (snd (stage w c i p))"
| applied: "cursor_step w c (snd (applied c t))"
| failed: "cursor_step w c (snd (application_failed c t))"
| replace: "cursor_step w c (replace_cursor c i n)"

inductive cursor_steps :: "'j read_wire \<Rightarrow> read_projection_cursor \<Rightarrow> read_projection_cursor \<Rightarrow> bool"
  for w where
  refl: "cursor_steps w c c"
| step: "cursor_step w c c' \<Longrightarrow> cursor_steps w c' c'' \<Longrightarrow> cursor_steps w c c''"

definition cursor_inv :: "read_projection_cursor \<Rightarrow> bool" where
  "cursor_inv c \<longleftrightarrow> pred_option (\<lambda>t. tk_attempt t \<le> rp_attempt c \<and> tk_identity t = rp_identity c
     \<and> tk_from t = rp_cursor c \<and> rp_cursor c \<le> tk_through t) (rp_pending c)"

lemmas cursor_defs = stage_def applied_def application_failed_def replace_cursor_def
  checked_succ_u64_def

lemma stage_Some:
  "stage w c i p = (Some t, c') \<Longrightarrow> \<not> stage_refuses w c i p \<and> tk_attempt t = rp_attempt c + 1
     \<and> t = \<lparr>tk_identity = i, tk_attempt = rp_attempt c + 1, tk_from = from_cursor p,
         tk_through = through_cursor p\<rparr>
     \<and> c' = c\<lparr>rp_attempt := rp_attempt c + 1, rp_pending := Some t\<rparr>"
  by (auto simp: cursor_defs Let_def split: if_splits option.splits)

lemma cursor_step_inv: "cursor_step w c c' \<Longrightarrow> cursor_inv c \<Longrightarrow> cursor_inv c'"
proof (induction rule: cursor_step.induct)
  case (stage c i p)
  then show ?case
    by (cases "stage w c i p"; cases "fst (stage w c i p)")
      (auto simp: cursor_defs cursor_inv_def stage_refuses_def Let_def split: if_splits option.splits)
qed (auto simp: cursor_defs cursor_inv_def split: if_splits)

lemma cursor_step_attempt:
  "cursor_step w c c' \<Longrightarrow> rp_attempt c \<le> rp_attempt c' \<and>
     (rp_pending c' = None \<or> rp_pending c' = rp_pending c
      \<or> (\<exists>t. rp_pending c' = Some t \<and> rp_attempt c < tk_attempt t))"
proof (induction rule: cursor_step.induct)
  case (stage c i p)
  then show ?case
    by (auto simp: cursor_defs Let_def split: option.splits)
qed (auto simp: cursor_defs)

text \<open>A token that is no longer outstanding stays so: every later token has a later attempt.\<close>

definition spent :: "read_projection_cursor \<Rightarrow> read_stage_token \<Rightarrow> bool" where
  "spent c t \<longleftrightarrow> tk_attempt t \<le> rp_attempt c \<and> rp_pending c \<noteq> Some t"

lemma cursor_step_spent: "cursor_step w c c' \<Longrightarrow> spent c t \<Longrightarrow> spent c' t"
  by (frule cursor_step_attempt) (auto simp: spent_def)

lemma cursor_steps_spent: "cursor_steps w c c' \<Longrightarrow> spent c t \<Longrightarrow> spent c' t"
  by (induction rule: cursor_steps.induct) (auto dest: cursor_step_spent)

lemma cursor_steps_inv: "cursor_steps w c c' \<Longrightarrow> cursor_inv c \<Longrightarrow> cursor_inv c'"
  by (induction rule: cursor_steps.induct) (auto dest: cursor_step_inv)

subsection \<open>The run projection\<close>

record run_projection =
  rj_state :: run_state
  rj_through :: int

definition apply_projection :: "run_projection \<Rightarrow> run_state \<Rightarrow> int \<Rightarrow> bool \<times> run_projection" where
  "apply_projection r st through =
     (if through \<le> rj_through r \<or> (is_terminal (rj_state r) \<and> st \<noteq> rj_state r)
        \<or> (rj_state r = Running \<and> st = Queued)
      then (False, r)
      else (True, r\<lparr>rj_state := st, rj_through := through\<rparr>))"

fun apply_all :: "run_projection \<Rightarrow> (run_state \<times> int) list \<Rightarrow> run_projection" where
  "apply_all r [] = r"
| "apply_all r ((st, n) # us) = apply_all (snd (apply_projection r st n)) us"

subsection \<open>Properties\<close>

lemma adjacent_sorted:
  "\<not> list_ex (\<lambda>(a, b). f a \<ge> f b) (zip xs (tl xs)) \<longleftrightarrow> sorted_wrt (<) (map f xs)" for f :: "'a \<Rightarrow> int"
proof (induction xs)
  case (Cons x xs)
  then show ?case
    by (cases xs) (auto simp: not_le intro: less_trans)
qed simp

lemma sorted_wrt_length:
  assumes "sorted_wrt (<) xs" "\<forall>x \<in> set xs. a < x \<and> x \<le> b" "xs \<noteq> []"
  shows "int (length xs) \<le> b - a"
proof -
  have "distinct xs" using assms(1) by (simp add: strict_sorted_iff)
  then have "length xs = card (set xs)" by (simp add: distinct_card)
  also have "\<dots> \<le> card {a<..b}" using assms(2) by (intro card_mono) auto
  finally show ?thesis using assms(2,3) by (cases xs) auto
qed

lemma scan_records_count:
  assumes "\<And>p sq vis ok q. f p sq vis = Inr (ok, q) \<Longrightarrow> \<exists>lim. scan_snapshot w p sq vis lim = Inr (ok, q)"
  shows "scan_records f p rs = Inr (stopped, q) \<Longrightarrow> length (cp_events q) \<le> length (cp_events p) + length rs"
proof (induction rs arbitrary: p)
  case (Cons r rs)
  obtain sq vis where r: "r = (sq, vis)" by fastforce
  from Cons.prems(1) r obtain inc q' where
    f: "f p sq vis = Inr (inc, q')" and
    rest: "(if inc then scan_records f q' rs else Inr (True, q')) = Inr (stopped, q)"
    by (auto simp: and_then_eq_Inr split: prod.splits)
  from assms [OF f] obtain lim where l: "scan_snapshot w p sq vis lim = Inr (inc, q')" by blast
  from scan_snapshot_shape [OF l] have "length (cp_events q') \<le> Suc (length (cp_events p))"
    by (auto simp: advance_page_def split: if_splits option.splits)
  with rest Cons.IH [of q'] show ?case by (auto split: if_splits)
qed simp

text \<open>An idle client stages, and then acknowledges, every well-formed page that starts at its cursor.\<close>

lemma page_inv_staged:
  assumes q: "page_inv q" "from_cursor q = rp_cursor c" "length (cp_events q) \<le> MAX_REPLAY_EVENTS"
    and size: "page_bytes w q = Some n" "n \<le> MAX_REPLAY_BYTES + 65536"
    and idle: "rp_pending c = None" "rp_attempt c + 1 < 2 ^ 64"
  shows "\<exists>t c'. stage w c (rp_identity c) q = (Some t, c') \<and>
    applied c' t = (True, c'\<lparr>rp_cursor := through_cursor q, rp_pending := None\<rparr>)"
proof -
  have "\<not> list_ex (\<lambda>(a, b). pe_sequence a \<ge> pe_sequence b) (zip (cp_events q) (tl (cp_events q)))"
    using q(1) adjacent_sorted [of pe_sequence "cp_events q"] by (simp add: page_inv_def)
  then have "\<not> stage_refuses w c (rp_identity c) q"
    unfolding stage_refuses_def using q size idle
    by (simp add: page_inv_def list_ex_iff) fastforce
  then show ?thesis
    using idle q by (auto simp: cursor_defs Let_def)
qed

text \<open>Writer and reader agree: every page that a scan of at most 100 records produces from a fresh
  page, journal or snapshot, is accepted by an idle client whose cursor is where the page starts,
  provided its JSON fits the staging bound; acknowledging the token moves the cursor to the page's
  last examined record and leaves the client idle.\<close>

theorem scanned_page_is_staged:
  assumes scan: "scan_records (\<lambda>p sq vis. scan w p sq vis lim) (new_page frm hw) rs = Inr (stopped, q)
      \<or> scan_records (\<lambda>p sq vis. scan_snapshot w p sq vis lim) (new_page frm hw) rs = Inr (stopped, q)"
    and "frm \<le> hw" and "length rs \<le> MAX_REPLAY_EVENTS"
    and size: "page_bytes w q = Some n" "n \<le> MAX_REPLAY_BYTES + 65536"
    and idle: "rp_cursor c = frm" "rp_pending c = None" "rp_attempt c + 1 < 2 ^ 64"
  shows "\<exists>t c'. stage w c (rp_identity c) q = (Some t, c') \<and>
    applied c' t = (True, c'\<lparr>rp_cursor := through_cursor q, rp_pending := None\<rparr>)"
proof -
  have fresh: "page_inv (new_page frm hw :: 'a cursor_page)" "from_cursor (new_page frm hw :: 'a cursor_page) = frm"
    "cp_events (new_page frm hw :: 'a cursor_page) = []"
    using assms(2) by (simp_all add: new_page_inv) (simp_all add: new_page_def)
  have one: "scan w p sq vis lim = Inr (ok, q) \<Longrightarrow> \<exists>lim. scan_snapshot w p sq vis lim = Inr (ok, q)" for p sq vis ok q
    by (auto dest: scan_is_snapshot_scan)
  have "page_inv q \<and> from_cursor q = frm \<and> length (cp_events q) \<le> length rs"
    using scan
  proof
    assume r: "scan_records (\<lambda>p sq vis. scan w p sq vis lim) (new_page frm hw) rs = Inr (stopped, q)"
    from scan_records_inv [OF one r fresh(1)] scan_records_count [OF one r] fresh show ?thesis by auto
  next
    assume r: "scan_records (\<lambda>p sq vis. scan_snapshot w p sq vis lim) (new_page frm hw) rs = Inr (stopped, q)"
    from scan_records_inv [OF _ r fresh(1), of w] scan_records_count [OF _ r, of w] fresh show ?thesis by auto
  qed
  with assms page_inv_staged [of q c w n] show ?thesis by auto
qed

definition sample_read_wire :: "nat read_wire" where
  "sample_read_wire = \<lparr>event_bytes = (\<lambda>_. Some 90), events_bytes = (\<lambda>es. Some (2 + 91 * length es)),
     page_bytes = (\<lambda>p. Some (200 + 91 * length (cp_events p)))\<rparr>"

definition sample_event :: "int \<Rightarrow> nat public_event" where
  "sample_event n = \<lparr>pe_version = 1, pe_conversation = ''c'', pe_run = ''r'', pe_event = ''e'',
     pe_sequence = n, pe_payload = PCancellationRequested\<rparr>"

definition sample_identity :: read_identity where
  "sample_identity = \<lparr>connection_generation = ''g'', request_generation = 1\<rparr>"

theorem scanned_page_is_staged_witness:
  "\<exists>q t c'. scan_records (\<lambda>p sq vis. scan sample_read_wire p sq vis 1000) (new_page 3 6)
       [(4, Some (sample_event 4)), (5, None), (6, Some (sample_event 6))] = Inr (False, q)
     \<and> stage sample_read_wire (new_cursor sample_identity 3) sample_identity q = (Some t, c')
     \<and> rp_cursor (snd (applied c' t)) = 6"
proof -
  let ?rs = "[(4, Some (sample_event 4)), (5, None), (6, Some (sample_event 6))]"
  obtain q where q: "scan_records (\<lambda>p sq vis. scan sample_read_wire p sq vis 1000) (new_page 3 6) ?rs = Inr (False, q)"
      "through_cursor q = 6" "length (cp_events q) = 2"
    by (simp add: scan_def scan_snapshot_def sample_read_wire_def sample_event_def new_page_def
        advance_page_def VERSION_def MAX_REPLAY_BYTES_def checked_add_i64_def in_i64_def
        i64_min_def i64_max_def)
  have "\<exists>t c'. stage sample_read_wire (new_cursor sample_identity 3) sample_identity q = (Some t, c')
      \<and> applied c' t = (True, c'\<lparr>rp_cursor := through_cursor q, rp_pending := None\<rparr>)"
    using scanned_page_is_staged [where w = sample_read_wire and lim = 1000 and frm = 3 and hw = 6
        and rs = ?rs and stopped = False and q = q and n = 382 and c = "new_cursor sample_identity 3"] q
    by (simp add: new_cursor_def sample_read_wire_def MAX_REPLAY_BYTES_def MAX_REPLAY_EVENTS_def)
  with q show ?thesis by fastforce
qed

text \<open>C27: A page is applied at most once and never by a stale response: once a token has been applied,
  has failed, or was superseded, no interleaving of further stages, acknowledgements, failures
  and subscription replacements makes the client accept it again.\<close>

theorem token_applied_once:
  assumes "cursor_inv c" and "applied c t = (True, c') \<or> application_failed c t = (True, c')
      \<or> (rp_pending c = Some t \<and> c' = replace_cursor c i n)"
    and "cursor_steps w c' c''"
  shows "applied c'' t = (False, c'') \<and> application_failed c'' t = (False, c'')"
proof -
  have "spent c' t"
    using assms(1,2) by (auto simp: cursor_defs spent_def cursor_inv_def split: if_splits)
  from cursor_steps_spent [OF assms(3) this] show ?thesis
    by (auto simp: spent_def applied_def application_failed_def)
qed

theorem token_applied_once_witness:
  "\<exists>t c'. stage sample_read_wire (new_cursor sample_identity 3) sample_identity (new_page 3 3) = (Some t, c')
     \<and> applied (snd (applied c' t)) t = (False, snd (applied c' t))"
proof -
  have "\<not> stage_refuses sample_read_wire (new_cursor sample_identity 3) sample_identity (new_page 3 3)"
    by (simp add: stage_refuses_def new_cursor_def new_page_def sample_read_wire_def MAX_REPLAY_BYTES_def)
  then obtain t c' where t: "stage sample_read_wire (new_cursor sample_identity 3) sample_identity (new_page 3 3) = (Some t, c')"
    by (simp add: cursor_defs Let_def new_cursor_def)
  have inv: "cursor_inv c'"
    using cursor_step_inv [OF cursor_step.stage [of sample_read_wire "new_cursor sample_identity 3" sample_identity "new_page 3 3"]] t
    by (simp add: cursor_inv_def new_cursor_def)
  from stage_Some [OF t] inv have "applied c' t = (True, snd (applied c' t))"
    by (simp add: applied_def cursor_inv_def new_cursor_def new_page_def)
  from token_applied_once [OF inv disjI1 [OF this] cursor_steps.refl] t show ?thesis by blast
qed

datatype 'j client_op = OpStage read_identity "'j cursor_page" | OpApplied read_stage_token | OpFailed read_stage_token

text \<open>A subscription's calls, one after the other, without a replacement of the subscription.\<close>

fun client_run :: "'j read_wire \<Rightarrow> read_projection_cursor \<Rightarrow> 'j client_op list \<Rightarrow> read_projection_cursor" where
  "client_run w c [] = c"
| "client_run w c (OpStage i p # ops) = client_run w (snd (stage w c i p)) ops"
| "client_run w c (OpApplied t # ops) = client_run w (snd (applied c t)) ops"
| "client_run w c (OpFailed t # ops) = client_run w (snd (application_failed c t)) ops"

lemma client_op_grows:
  assumes "cursor_inv c"
  shows "rp_cursor (snd (stage w c i p)) = rp_cursor c" "rp_cursor c \<le> rp_cursor (snd (applied c t))"
    "rp_cursor (snd (application_failed c t)) = rp_cursor c"
    "rp_identity (snd (stage w c i p)) = rp_identity c" "rp_identity (snd (applied c t)) = rp_identity c"
    "rp_identity (snd (application_failed c t)) = rp_identity c"
  using assms by (auto simp: cursor_defs cursor_inv_def Let_def split: option.splits)

text \<open>Within one subscription the client's cursor never regresses and its identity never changes,
  whatever pages are staged, acknowledged or failed, in whatever order and however often.\<close>

theorem cursor_never_regresses:
  assumes "cursor_inv c"
  shows "rp_cursor c \<le> rp_cursor (client_run w c ops) \<and> rp_identity (client_run w c ops) = rp_identity c
    \<and> cursor_inv (client_run w c ops)"
  using assms
proof (induction w c ops rule: client_run.induct)
  case (2 w c i p ops)
  note ih = 2(1) [OF cursor_step_inv [OF cursor_step.stage 2(2)]]
  from ih client_op_grows(1,4) [OF 2(2), of w i p] show ?case by auto
next
  case (3 w c t ops)
  note ih = 3(1) [OF cursor_step_inv [OF cursor_step.applied 3(2)]]
  from ih client_op_grows(2,5) [OF 3(2), of t] show ?case by auto
next
  case (4 w c t ops)
  note ih = 4(1) [OF cursor_step_inv [OF cursor_step.failed 4(2)]]
  from ih client_op_grows(3,6) [OF 4(2), of t] show ?case by auto
qed simp

theorem cursor_never_regresses_witness:
  "3 \<le> rp_cursor (client_run sample_read_wire (new_cursor sample_identity 3) [OpStage sample_identity (new_page 3 9)])"
proof -
  have "cursor_inv (new_cursor sample_identity 3)" by (simp add: cursor_inv_def new_cursor_def)
  from cursor_never_regresses [OF this, of sample_read_wire "[OpStage sample_identity (new_page 3 9)]"]
  show ?thesis by (simp add: new_cursor_def)
qed

text \<open>A run projection settles: however snapshot and live updates race, it keeps the first
  terminal state it accepted, never goes from running back to queued, and its watermark only
  grows; an update at or below the watermark changes nothing.\<close>

theorem projection_settles:
  "rj_through r \<le> rj_through (apply_all r us)
   \<and> (is_terminal (rj_state r) \<longrightarrow> rj_state (apply_all r us) = rj_state r)
   \<and> (rj_state r \<noteq> Queued \<longrightarrow> rj_state (apply_all r us) \<noteq> Queued)
   \<and> ((\<forall>u \<in> set us. snd u \<le> rj_through r) \<longrightarrow> apply_all r us = r)"
proof -
  have step: "rj_through r \<le> rj_through (snd (apply_projection r st n))"
    "is_terminal (rj_state r) \<Longrightarrow> rj_state (snd (apply_projection r st n)) = rj_state r"
    "rj_state r \<noteq> Queued \<Longrightarrow> rj_state (snd (apply_projection r st n)) \<noteq> Queued" for r st n
    by (auto simp: apply_projection_def is_terminal_iff)
  have "rj_through r \<le> rj_through (apply_all r us)"
    by (induction r us rule: apply_all.induct) (auto intro: order_trans step(1))
  moreover have "is_terminal (rj_state r) \<longrightarrow> rj_state (apply_all r us) = rj_state r"
    by (induction r us rule: apply_all.induct) (auto simp: step(2))
  moreover have "rj_state r \<noteq> Queued \<longrightarrow> rj_state (apply_all r us) \<noteq> Queued"
    by (induction r us rule: apply_all.induct) (auto simp: step(3))
  moreover have "(\<forall>u \<in> set us. snd u \<le> rj_through r) \<longrightarrow> apply_all r us = r"
    by (induction r us rule: apply_all.induct) (auto simp: apply_projection_def)
  ultimately show ?thesis by blast
qed

theorem projection_settles_witness:
  "rj_state (apply_all \<lparr>rj_state = Cancelled, rj_through = 7\<rparr> [(Running, 9), (Completed, 12)]) = Cancelled"
proof -
  have "is_terminal (rj_state \<lparr>rj_state = Cancelled, rj_through = 7\<rparr>)" by simp
  with projection_settles [of "\<lparr>rj_state = Cancelled, rj_through = 7\<rparr>" "[(Running, 9), (Completed, 12)]"]
  show ?thesis by simp
qed

end
