(* ===== verification/Tool_Execution.thy ===== *)
theory Tool_Execution
  imports Agent_Runtime
begin

text \<open>
  Complete-response and tool orchestration, \<open>crates/agent-runtime/src/execution.rs\<close>. The event
  sink (persistence and notification) and the tool itself are parameters that pass a state: the
  sink's \<open>'s\<close>, the outside world's \<open>'t\<close> that executing a tool changes. A sink call runs in an
  environment \<open>'v\<close> of its own (clock, randomness), so an operation that calls the sink several
  times takes one environment per call. SHA-256 and the JSON encoding of a string tuple
  (\<open>sha2\<close>, \<open>serde_json\<close>) are the two fields of \<open>digest\<close>.
\<close>

datatype execution_error = Provider string | Persistence string | Uncertain string

fun execution_error_display :: "execution_error \<Rightarrow> string" where
  "execution_error_display (Provider m) = ''provider failed: '' @ m"
| "execution_error_display (Persistence m) = ''durable prerequisite failed: '' @ m"
| "execution_error_display (Uncertain m) = ''tool outcome is unknown after execution: '' @ m"

record tool_outcome =
  to_transport :: transport_outcome
  to_domain :: domain_outcome
  to_text :: string

definition succeeded :: "tool_outcome \<Rightarrow> bool" where
  "succeeded o' \<longleftrightarrow> to_transport o' = TransportCompleted \<and> to_domain o' = DomainSucceeded"

record 'j response_record =
  rr_raw :: 'j
  rr_continuation :: 'j
  rr_candidate :: string
  rr_planning :: "string list"
  rr_usage :: token_usage
  rr_cost :: "64 word option"

record sink_receipt =
  sr_receipt :: commit_receipt
  notification_error :: "string option"

record execution_context =
  ec_conversation :: conversation_id
  ec_run :: run_id

record digest =
  tuple_bytes :: "string list \<Rightarrow> string"
  sha256_hex :: "string \<Rightarrow> string"

record ('v, 'j, 's) event_sink =
  es_commit :: "'v \<Rightarrow> 'j append_command \<Rightarrow> 's \<Rightarrow> (execution_error + sink_receipt) \<times> 's"
  es_outcome :: "'v \<Rightarrow> execution_context \<Rightarrow> tool_call_id \<Rightarrow> 's \<Rightarrow> execution_error + tool_outcome option"

subsection \<open>Deterministic envelopes\<close>

definition identity :: "digest \<Rightarrow> execution_context \<Rightarrow> string \<Rightarrow> string \<Rightarrow> string" where
  "identity h x namespace key =
     sha256_hex h (tuple_bytes h [ec_conversation x, ec_run x, namespace, key])"

definition command :: "digest \<Rightarrow> execution_context \<Rightarrow> string \<Rightarrow> 'j payload \<Rightarrow> string option
    \<Rightarrow> 'j append_command" where
  "command h x key p d =
     \<lparr>c_version = VERSION, c_conversation = ec_conversation x, c_run = ec_run x,
      c_event = identity h x ''event'' key, c_key = identity h x ''event'' key,
      c_payload = p, c_detail = d\<rparr>"

definition text_of :: "digest \<Rightarrow> execution_context \<Rightarrow> string \<Rightarrow> string \<Rightarrow> nat \<Rightarrow> text_ref \<times> string option" where
  "text_of h x key body limit =
     (let long = chars_count body > limit in
      (\<lparr>preview = chars_take limit body,
        detail_of = (if long then Some (identity h x ''detail'' key) else None)\<rparr>,
       if long then Some body else None))"

subsection \<open>Ingesting a complete response\<close>

text \<open>The planning texts, from index \<open>i\<close> on, each under a key of its own.\<close>

fun ingest_planning :: "digest \<Rightarrow> ('v, 'j, 's) event_sink \<Rightarrow> (nat \<Rightarrow> 'v) \<Rightarrow> execution_context
    \<Rightarrow> string \<Rightarrow> nat \<Rightarrow> string list \<Rightarrow> 's \<Rightarrow> (execution_error + unit) \<times> 's" where
  "ingest_planning h k ev x prefix i [] = st_ok ()"
| "ingest_planning h k ev x prefix i (body # bodies) =
     (let key = prefix @ '':planning:'' @ show_nat i;
          (t, d) = text_of h x key body 200
      in st_then (es_commit k (ev (3 + i)) (command h x key (Public (PPlanning t)) d))
           (\<lambda>_. ingest_planning h k ev x prefix (Suc i) bodies))"

definition ingest :: "digest \<Rightarrow> ('v, 'j, 's) event_sink \<Rightarrow> (nat \<Rightarrow> 'v) \<Rightarrow> execution_context
    \<Rightarrow> model_call_id \<Rightarrow> 'j response_record \<Rightarrow> 's \<Rightarrow> (execution_error + unit) \<times> 's" where
  "ingest h k ev x model r =
     st_then (es_commit k (ev 0) (command h x (model @ '':response'')
       (Restricted (RProviderResponse model (rr_raw r) (rr_continuation r))) None)) (\<lambda>_.
     st_then (es_commit k (ev 1) (command h x (model @ '':candidate'')
       (Restricted (RCandidate model (rr_candidate r))) None)) (\<lambda>_.
     st_then (es_commit k (ev 2) (command h x (model @ '':usage'')
       (Public (PUsage model (rr_usage r) (rr_cost r))) None)) (\<lambda>_.
     ingest_planning h k ev x model 0 (rr_planning r))))"

text \<open>\<open>complete\<close>: the provider's answer is ingested before it is returned.\<close>

definition complete :: "digest \<Rightarrow> ('v, 'j, 's) event_sink \<Rightarrow> (nat \<Rightarrow> 'v) \<Rightarrow> execution_context
    \<Rightarrow> model_call_id \<Rightarrow> execution_error + 'a \<times> 'j response_record \<Rightarrow> 's \<Rightarrow> (execution_error + 'a) \<times> 's" where
  "complete h k ev x model answer =
     st_then (st_lift answer) (\<lambda>(a, r).
     st_then (ingest h k ev x model r) (\<lambda>_. st_ok a))"

subsection \<open>Executing a tool\<close>

definition outcome_unknown :: "tool_outcome \<Rightarrow> bool" where
  "outcome_unknown o' \<longleftrightarrow> to_transport o' = TransportUnknown \<or> to_domain o' = DomainUnknown"

definition settled :: "tool_outcome \<Rightarrow> execution_error + tool_outcome" where
  "settled o' = (if outcome_unknown o' then Inl (Uncertain (to_text o')) else Inr o')"

text \<open>A sink call inside an operation that also carries the outside world.\<close>

definition on_sink :: "('s \<Rightarrow> ('e + 'a) \<times> 's) \<Rightarrow> 's \<times> 't \<Rightarrow> ('e + 'a) \<times> 's \<times> 't" where
  "on_sink m st = (case m (fst st) of (r, s') \<Rightarrow> (r, s', snd st))"

definition on_world :: "('t \<Rightarrow> 'a \<times> 't) \<Rightarrow> 's \<times> 't \<Rightarrow> ('e + 'a) \<times> 's \<times> 't" where
  "on_world f st = (case f (snd st) of (a, t') \<Rightarrow> (Inr a, fst st, t'))"

definition start_command :: "digest \<Rightarrow> execution_context \<Rightarrow> tool_call_id \<Rightarrow> 'j append_command" where
  "start_command h x i = command h x (i @ '':start'') (Public (PToolStarted i)) None"

definition outcome_command :: "digest \<Rightarrow> execution_context \<Rightarrow> tool_call_id \<Rightarrow> tool_outcome \<Rightarrow> 'j append_command" where
  "outcome_command h x i o' =
     (let key = i @ '':outcome''; (t, d) = text_of h x key (to_text o') 8000
      in command h x key (Public (PToolOutcome i t (to_transport o') (to_domain o'))) d)"

definition tool :: "digest \<Rightarrow> ('v, 'j, 's) event_sink \<Rightarrow> (nat \<Rightarrow> 'v) \<Rightarrow> execution_context
    \<Rightarrow> ('t \<Rightarrow> tool_outcome \<times> 't) \<Rightarrow> tool_call_id \<Rightarrow> string \<Rightarrow> 'j
    \<Rightarrow> 's \<times> 't \<Rightarrow> (execution_error + tool_outcome) \<times> 's \<times> 't" where
  "tool h k ev x execute i name args st =
     (case es_outcome k (ev 0) x i (fst st) of
        Inl e \<Rightarrow> (Inl e, st)
      | Inr (Some o') \<Rightarrow> (settled o', st)
      | Inr None \<Rightarrow>
          st_then (on_sink (es_commit k (ev 1)
            (command h x (i @ '':intent'') (Public (PToolIntent i name args)) None))) (\<lambda>_.
          st_then (on_sink (es_commit k (ev 2) (start_command h x i))) (\<lambda>started.
          if r_duplicate (sr_receipt started)
          then st_err (Uncertain
            ''tool start already committed; reconcile its receipt instead of rerunning'')
          else st_then (on_world execute) (\<lambda>o'.
            st_then (on_sink (\<lambda>s. case es_commit k (ev 3) (outcome_command h x i o') s of
                (r, s') \<Rightarrow> (map_err (\<lambda>e. Uncertain (execution_error_display e)) r, s'))) (\<lambda>_.
            st_lift (settled o'))))) st)"


subsection \<open>One call at a time\<close>

text \<open>
  The same operation cut at its awaits: a worker performs one sink call or the execution itself
  per step, so the calls of several workers on one run can be interleaved. \<open>worker_run\<close> performs
  the steps of one worker without interruption, which is \<open>tool\<close>.
\<close>

datatype worker =
    Ready
  | Intending
  | Starting
  | Executing
  | Reporting tool_outcome
  | Finished "execution_error + tool_outcome"

fun worker_step :: "digest \<Rightarrow> ('v, 'j, 's) event_sink \<Rightarrow> execution_context \<Rightarrow> ('t \<Rightarrow> tool_outcome \<times> 't)
    \<Rightarrow> tool_call_id \<Rightarrow> string \<Rightarrow> 'j \<Rightarrow> 'v \<Rightarrow> worker \<times> 's \<times> 't \<Rightarrow> worker \<times> 's \<times> 't" where
  "worker_step h k x execute i name args v (Ready, s, t) =
     (case es_outcome k v x i s of
        Inl e \<Rightarrow> (Finished (Inl e), s, t)
      | Inr (Some o') \<Rightarrow> (Finished (settled o'), s, t)
      | Inr None \<Rightarrow> (Intending, s, t))"
| "worker_step h k x execute i name args v (Intending, s, t) =
     (case es_commit k v (command h x (i @ '':intent'') (Public (PToolIntent i name args)) None) s of
        (Inl e, s') \<Rightarrow> (Finished (Inl e), s', t)
      | (Inr _, s') \<Rightarrow> (Starting, s', t))"
| "worker_step h k x execute i name args v (Starting, s, t) =
     (case es_commit k v (start_command h x i) s of
        (Inl e, s') \<Rightarrow> (Finished (Inl e), s', t)
      | (Inr r, s') \<Rightarrow>
          (if r_duplicate (sr_receipt r)
           then Finished (Inl (Uncertain
             ''tool start already committed; reconcile its receipt instead of rerunning''))
           else Executing, s', t))"
| "worker_step h k x execute i name args v (Executing, s, t) =
     (case execute t of (o', t') \<Rightarrow> (Reporting o', s, t'))"
| "worker_step h k x execute i name args v (Reporting o', s, t) =
     (case es_commit k v (outcome_command h x i o') s of
        (Inl e, s') \<Rightarrow> (Finished (Inl (Uncertain (execution_error_display e))), s', t)
      | (Inr _, s') \<Rightarrow> (Finished (settled o'), s', t))"
| "worker_step h k x execute i name args v (Finished r, s, t) = (Finished r, s, t)"

fun worker_run :: "digest \<Rightarrow> ('v, 'j, 's) event_sink \<Rightarrow> execution_context \<Rightarrow> ('t \<Rightarrow> tool_outcome \<times> 't)
    \<Rightarrow> tool_call_id \<Rightarrow> string \<Rightarrow> 'j \<Rightarrow> 'v list \<Rightarrow> worker \<times> 's \<times> 't \<Rightarrow> worker \<times> 's \<times> 't" where
  "worker_run h k x execute i name args [] w = w"
| "worker_run h k x execute i name args (v # vs) w =
     worker_run h k x execute i name args vs (worker_step h k x execute i name args v w)"

text \<open>Several workers on one sink, and other commits, in any order of their steps.\<close>

record 'j invocation =
  iv_name :: string
  iv_arguments :: 'j
  iv_outcome :: tool_outcome

datatype ('v, 'j) event = Step nat 'v | OtherCommit 'v "'j append_command"

text \<open>The third component counts the executions of the tool.\<close>

fun system_step :: "digest \<Rightarrow> ('v, 'j, 's) event_sink \<Rightarrow> execution_context \<Rightarrow> tool_call_id
    \<Rightarrow> ('v, 'j) event \<Rightarrow> (worker \<times> 'j invocation) list \<times> 's \<times> nat
    \<Rightarrow> (worker \<times> 'j invocation) list \<times> 's \<times> nat" where
  "system_step h k x i (Step n v) (ws, s, t) =
     (if n < length ws
      then let (w, iv) = ws ! n;
               (w', s', t') = worker_step h k x (\<lambda>t. (iv_outcome iv, Suc t)) i (iv_name iv)
                 (iv_arguments iv) v (w, s, t)
           in (ws[n := (w', iv)], s', t')
      else (ws, s, t))"
| "system_step h k x i (OtherCommit v c) (ws, s, t) = (ws, snd (es_commit k v c s), t)"

definition system_run where
  "system_run h k x i es st = fold (system_step h k x i) es st"

definition executing :: "(worker \<times> 'j invocation) list \<Rightarrow> nat" where
  "executing ws = count_where (\<lambda>w. fst w = Executing) ws"

lemma executing_update:
  "n < length ws \<Longrightarrow> executing (ws[n := (w', iv)]) + (if fst (ws ! n) = Executing then 1 else 0)
     = executing ws + (if w' = Executing then 1 else 0)"
proof (induction ws arbitrary: n)
  case (Cons w ws)
  show ?case
  proof (cases n)
    case (Suc m)
    with Cons.IH [of m] Cons.prems show ?thesis by (auto simp: executing_def count_where_def)
  qed (auto simp: executing_def count_where_def)
qed simp

subsection \<open>The contract of a durable sink\<close>

text \<open>
  What \<open>EventSink\<close> promises: an acknowledged command stays recorded whatever else is committed,
  and committing a recorded command again never succeeds as a new one.
\<close>

locale durable_sink =
  fixes sink_commit :: "'v \<Rightarrow> 'j append_command \<Rightarrow> 's \<Rightarrow> (execution_error + sink_receipt) \<times> 's"
    and recorded :: "'s \<Rightarrow> 'j append_command \<Rightarrow> bool"
    and sink_inv :: "'s \<Rightarrow> bool"
  assumes sink_preserves: "sink_inv s \<Longrightarrow> sink_inv (snd (sink_commit v c s))"
    and sink_records: "sink_inv s \<Longrightarrow> sink_commit v c s = (Inr r, s') \<Longrightarrow> recorded s' c"
    and sink_keeps: "sink_inv s \<Longrightarrow> recorded s d \<Longrightarrow> recorded (snd (sink_commit v c s)) d"
    and sink_duplicate: "sink_inv s \<Longrightarrow> recorded s c \<Longrightarrow> sink_commit v c s = (Inr r, s') \<Longrightarrow>
      r_duplicate (sr_receipt r)"
begin

text \<open>Executions so far, and those the fence has admitted: at most \<open>b\<close>, and less while no start is recorded.\<close>

definition fenced_inv :: "nat \<Rightarrow> digest \<Rightarrow> execution_context \<Rightarrow> tool_call_id
    \<Rightarrow> (worker \<times> 'j invocation) list \<times> 's \<times> nat \<Rightarrow> bool" where
  "fenced_inv b h x i st \<longleftrightarrow> (case st of (ws, s, t) \<Rightarrow>
     sink_inv s \<and> t + executing ws + (if recorded s (start_command h x i) then 0 else 1) \<le> b)"

text \<open>A step that commits: the fence is kept if the step does not enter \<open>Executing\<close>.\<close>

lemma fenced_commit:
  assumes "fenced_inv b h x i (ws, s, t)" "es_commit k = sink_commit" "es_commit k v c s = (r, s')"
    and "executing ws' \<le> executing ws"
  shows "fenced_inv b h x i (ws', s', t)"
  using assms sink_preserves [of s v c] sink_keeps [of s "start_command h x i" v c]
  by (auto simp: fenced_inv_def split: if_splits)

lemma fenced_step:
  assumes inv: "fenced_inv b h x i (ws, s, t)" and k: "es_commit k = sink_commit"
    and n: "n < length ws" "ws ! n = (w, iv)"
    and step: "worker_step h k x (\<lambda>t. (iv_outcome iv, Suc t)) i nm args v (w, s, t) = (w', s', t')"
  shows "fenced_inv b h x i (ws[n := (w', iv)], s', t')"
proof -
  note upd = executing_update [OF n(1), of w' iv, unfolded n(2) fst_conv]
  show ?thesis
  proof (cases w)
    case Ready
    with step upd inv show ?thesis
      by (auto simp: fenced_inv_def settled_def split: sum.splits option.splits)
  next
    case Intending
    then have "executing (ws[n := (w', iv)]) \<le> executing ws"
      using step upd by (auto split: prod.splits sum.splits)
    with fenced_commit [OF inv k] step Intending show ?thesis
      by (auto split: prod.splits sum.splits)
  next
    case Starting
    obtain r s1 where c: "es_commit k v (start_command h x i) s = (r, s1)" by fastforce
    show ?thesis
    proof (cases "w' = Executing")
      case False
      then have "executing (ws[n := (w', iv)]) \<le> executing ws" using upd by auto
      from fenced_commit [OF inv k c this] step Starting c show ?thesis
        by (auto split: sum.splits)
    next
      case True
      with step Starting c obtain rc where rc: "r = Inr rc" "\<not> r_duplicate (sr_receipt rc)" "s' = s1" "t' = t"
        by (auto split: sum.splits if_splits)
      from inv have si: "sink_inv s" by (simp add: fenced_inv_def)
      from sink_duplicate [OF si, of "start_command h x i" v rc s1] c rc k
      have "\<not> recorded s (start_command h x i)" by auto
      moreover from sink_records [OF si, of v "start_command h x i" rc s1] c rc k
      have "recorded s1 (start_command h x i)" by auto
      ultimately show ?thesis
        using inv upd True Starting rc c k sink_preserves [OF si, of v "start_command h x i"]
        by (auto simp: fenced_inv_def)
    qed
  next
    case Executing
    with step upd inv show ?thesis by (auto simp: fenced_inv_def split: if_splits)
  next
    case (Reporting o')
    then have "executing (ws[n := (w', iv)]) \<le> executing ws"
      using step upd by (auto simp: settled_def split: prod.splits sum.splits)
    with fenced_commit [OF inv k] step Reporting show ?thesis
      by (auto split: prod.splits sum.splits)
  next
    case (Finished r)
    with step n(2) inv list_update_id [of ws n] show ?thesis by simp
  qed
qed

lemma fenced_run:
  assumes "fenced_inv b h x i st" and "es_commit k = sink_commit"
  shows "fenced_inv b h x i (system_run h k x i es st)"
  using assms(1)
proof (induction es arbitrary: st)
  case (Cons e es)
  obtain ws s t where st: "st = (ws, s, t)" by (cases st)
  have "fenced_inv b h x i (system_step h k x i e st)"
  proof (cases e)
    case (Step n v)
    then show ?thesis
      using Cons.prems fenced_step [OF _ assms(2), of b h x i ws s t n] st
      by (auto simp: Let_def split: prod.splits)
  next
    case (OtherCommit v c)
    obtain r s1 where "es_commit k v c s = (r, s1)" by fastforce
    with fenced_commit [OF _ assms(2) this] Cons.prems st OtherCommit show ?thesis by simp
  qed
  with Cons.IH show ?case by (simp add: system_run_def)
qed (simp add: system_run_def)

text \<open>However the workers interleave, the tool runs at most once.\<close>

lemma tool_at_most_once:
  assumes "sink_inv s" and "es_commit k = sink_commit" and "\<forall>w \<in> set ws. fst w = Ready"
    and "system_run h k x i es (ws, s, 0) = (ws', s', t')"
  shows "t' \<le> (if recorded s (start_command h x i) then 0 else 1)"
proof -
  have "executing ws = 0" using assms(3) by (auto simp: executing_def count_where_zero)
  with assms(1) have "fenced_inv (if recorded s (start_command h x i) then 0 else 1) h x i (ws, s, 0)"
    by (simp add: fenced_inv_def)
  from fenced_run [OF this assms(2), of es] assms(4) show ?thesis
    by (auto simp: fenced_inv_def split: if_splits)
qed

end


subsection \<open>Lemmas on the orchestration\<close>

lemma on_sink_eq_Inr [simp]:
  "on_sink m (s, t) = (Inr r, st') \<longleftrightarrow> (\<exists>s'. m s = (Inr r, s') \<and> st' = (s', t))"
  by (auto simp: on_sink_def split: prod.splits)

lemma on_sink_eq_Inl [simp]:
  "on_sink m (s, t) = (Inl e, st') \<longleftrightarrow> (\<exists>s'. m s = (Inl e, s') \<and> st' = (s', t))"
  by (auto simp: on_sink_def split: prod.splits)

lemma on_world_eq [simp]:
  "on_world f (s, t) = (r, st') \<longleftrightarrow> r = Inr (fst (f t)) \<and> st' = (s, snd (f t))"
  by (auto simp: on_world_def split: prod.splits)

lemma settled_eq [simp]:
  "settled o' = Inr p \<longleftrightarrow> p = o' \<and> \<not> outcome_unknown o'"
  "settled o' = Inl e \<longleftrightarrow> outcome_unknown o' \<and> e = Uncertain (to_text o')"
  by (auto simp: settled_def)

lemma text_of_parts:
  assumes "text_of h x key body limit = (t, d)"
  shows "d = (if chars_count body > limit then Some body else None)"
    and "preview t = chars_take limit body"
    and "detail_of t = None \<longleftrightarrow> d = None"
  using assms by (auto simp: text_of_def Let_def)

text \<open>The commands of an ingested response, in the order of their commits.\<close>

fun planning_commands :: "digest \<Rightarrow> execution_context \<Rightarrow> string \<Rightarrow> nat \<Rightarrow> string list \<Rightarrow> 'j append_command list" where
  "planning_commands h x prefix i [] = []"
| "planning_commands h x prefix i (body # bodies) =
     (let key = prefix @ '':planning:'' @ show_nat i; (t, d) = text_of h x key body 200
      in command h x key (Public (PPlanning t)) d # planning_commands h x prefix (Suc i) bodies)"

definition ingest_commands :: "digest \<Rightarrow> execution_context \<Rightarrow> model_call_id \<Rightarrow> 'j response_record
    \<Rightarrow> 'j append_command list" where
  "ingest_commands h x model r =
     [command h x (model @ '':response'') (Restricted (RProviderResponse model (rr_raw r) (rr_continuation r))) None,
      command h x (model @ '':candidate'') (Restricted (RCandidate model (rr_candidate r))) None,
      command h x (model @ '':usage'') (Public (PUsage model (rr_usage r) (rr_cost r))) None]
     @ planning_commands h x model 0 (rr_planning r)"

text \<open>Commits in order, stopping at the first error.\<close>

fun commit_in_order :: "('v, 'j, 's) event_sink \<Rightarrow> (nat \<Rightarrow> 'v) \<Rightarrow> nat \<Rightarrow> 'j append_command list \<Rightarrow> 's
    \<Rightarrow> (execution_error + unit) \<times> 's" where
  "commit_in_order k ev i [] s = (Inr (), s)"
| "commit_in_order k ev i (c # cs) s =
     (case es_commit k (ev i) c s of
        (Inl e, s') \<Rightarrow> (Inl e, s')
      | (Inr _, s') \<Rightarrow> commit_in_order k ev (Suc i) cs s')"

lemma ingest_planning_in_order:
  "ingest_planning h k ev x prefix i bodies s
     = commit_in_order k ev (3 + i) (planning_commands h x prefix i bodies) s"
proof (induction bodies arbitrary: i s)
  case (Cons body bodies)
  obtain t d where td: "text_of h x (prefix @ '':planning:'' @ show_nat i) body 200 = (t, d)" by fastforce
  with Cons.IH [of "Suc i"] show ?case
    by (auto simp: st_then_def split: prod.splits sum.splits)
qed (simp add: st_simps)

lemma ingest_in_order:
  "ingest h k ev x model r s = commit_in_order k ev 0 (ingest_commands h x model r) s"
  by (simp add: ingest_def ingest_commands_def st_then_def ingest_planning_in_order eval_nat_numeral
      split: prod.splits sum.splits)

text \<open>A run of commits that succeeds has every command recorded, in a durable sink.\<close>

context durable_sink begin

lemma in_order_keeps:
  assumes "es_commit k = sink_commit"
  shows "sink_inv s \<Longrightarrow> commit_in_order k ev i cs s = (r, s') \<Longrightarrow>
    sink_inv s' \<and> (recorded s d \<longrightarrow> recorded s' d)"
proof (induction cs arbitrary: i s)
  case (Cons c cs)
  obtain q s1 where c: "sink_commit (ev i) c s = (q, s1)" by fastforce
  from sink_preserves [OF Cons.prems(1), of "ev i" c] sink_keeps [OF Cons.prems(1), of d "ev i" c] c
  have step: "sink_inv s1" "recorded s d \<longrightarrow> recorded s1 d" by auto
  show ?case
  proof (cases q)
    case (Inr u)
    with Cons.prems(2) c assms have "commit_in_order k ev (Suc i) cs s1 = (r, s')" by simp
    from Cons.IH [OF step(1) this] step show ?thesis by blast
  qed (use Cons.prems(2) c assms step in auto)
qed simp

lemma in_order_records:
  assumes "es_commit k = sink_commit"
  shows "sink_inv s \<Longrightarrow> commit_in_order k ev i cs s = (Inr (), s') \<Longrightarrow> \<forall>c \<in> set cs. recorded s' c"
proof (induction cs arbitrary: i s)
  case (Cons c cs)
  then obtain u s1 where c: "sink_commit (ev i) c s = (Inr u, s1)"
    and rest: "commit_in_order k ev (Suc i) cs s1 = (Inr (), s')"
    using assms by (auto split: prod.splits sum.splits)
  from sink_preserves [OF Cons.prems(1), of "ev i" c] c have "sink_inv s1" by simp
  with sink_records [OF Cons.prems(1) c] in_order_keeps [OF assms this rest] Cons.IH [OF this rest]
  show ?case by simp
qed simp

text \<open>A response is returned only when all of it is durable.\<close>

lemma complete_records:
  assumes "es_commit k = sink_commit" "sink_inv s"
    and "complete h k ev x model answer s = (Inr a, s')"
  shows "\<exists>r. answer = Inr (a, r) \<and> (\<forall>c \<in> set (ingest_commands h x model r). recorded s' c)"
proof -
  from assms(3) obtain r where "answer = Inr (a, r)" "ingest h k ev x model r s = (Inr (), s')"
    by (auto simp: complete_def st_then_eq_Inr st_simps)
  with in_order_records [OF assms(1,2)] show ?thesis by (auto simp: ingest_in_order)
qed

end

subsection \<open>Properties\<close>

text \<open>The deterministic split of a long body loses nothing: the body a command built from the split
  exposes is the original, the preview is the body's first characters up to the limit, and a
  detail (identity and body together) is attached exactly when the body is longer.\<close>

theorem text_lossless:
  "case text_of h x key body limit of (t, d) \<Rightarrow>
     exposed_body (command h x key p d) t = body
   \<and> chars_count (preview t) = min limit (chars_count body)
   \<and> (\<exists>rest. body = preview t @ rest)
   \<and> (d = None \<longleftrightarrow> chars_count body \<le> limit) \<and> (detail_of t = None \<longleftrightarrow> d = None)"
proof -
  obtain t d where td: "text_of h x key body limit = (t, d)" by fastforce
  note parts = text_of_parts [OF td]
  have "exposed_body (command h x key p d) t = body"
    using parts chars_take_all [of body limit] by (simp add: exposed_body_def command_def)
  with td parts chars_take_prefix [of body limit] show ?thesis
    by (simp add: chars_take_count)
qed

definition sample_digest :: digest where
  "sample_digest = \<lparr>tuple_bytes = concat, sha256_hex = id\<rparr>"

definition sample_context :: execution_context where
  "sample_context = \<lparr>ec_conversation = ''c'', ec_run = ''r''\<rparr>"

text \<open>A sink that counts its commits and refuses to store anything beyond \<open>m\<close> of them.\<close>

definition sample_sink :: "nat \<Rightarrow> (unit, nat, nat) event_sink" where
  "sample_sink m = \<lparr>es_commit = (\<lambda>_ c n. if n < m
       then (Inr \<lparr>sr_receipt = \<lparr>r_event = c_event c, r_sequence = int n, r_duplicate = False\<rparr>,
                   notification_error = None\<rparr>, Suc n)
       else (Inl (Persistence ''full''), n)),
     es_outcome = (\<lambda>_ _ _ _. Inr None)\<rparr>"

definition sample_tool :: "nat \<Rightarrow> tool_outcome \<times> nat" where
  "sample_tool t = (\<lparr>to_transport = TransportCompleted, to_domain = DomainSucceeded, to_text = ''ok''\<rparr>, Suc t)"

lemmas sample_tool_eval = tool_def sample_sink_def sample_tool_def st_then_def on_sink_def on_world_def
  st_simps settled_def outcome_unknown_def

text \<open>A tool call that succeeds returns a known outcome, and either it is the committed receipt of an
  earlier execution (nothing is written and the tool does not run), or the intent, a start that
  was not a duplicate, one execution and its result were committed in this order.\<close>

theorem tool_success:
  assumes "tool h k ev x execute i name args (s, t) = (Inr o', s', t')"
  shows "\<not> outcome_unknown o' \<and>
    (es_outcome k (ev 0) x i s = Inr (Some o') \<and> s' = s \<and> t' = t
     \<or> es_outcome k (ev 0) x i s = Inr None \<and> execute t = (o', t') \<and>
       (\<exists>s1 s2 r1 r2 r3.
          es_commit k (ev 1) (command h x (i @ '':intent'') (Public (PToolIntent i name args)) None) s = (Inr r1, s1)
        \<and> es_commit k (ev 2) (start_command h x i) s1 = (Inr r2, s2) \<and> \<not> r_duplicate (sr_receipt r2)
        \<and> es_commit k (ev 3) (outcome_command h x i o') s2 = (Inr r3, s')))"
proof (cases "es_outcome k (ev 0) x i s")
  case (Inr saved)
  show ?thesis
  proof (cases saved)
    case None
    with Inr assms show ?thesis
      by (auto simp: tool_def st_then_eq_Inr st_simps split: if_splits prod.splits) (metis prod.collapse)+
  qed (use Inr assms in \<open>auto simp: tool_def\<close>)
qed (use assms in \<open>auto simp: tool_def\<close>)

theorem tool_success_witness:
  "snd (sample_tool 0) = 1 \<and> es_outcome (sample_sink 5) () sample_context ''t'' 0 = Inr None"
proof -
  have "tool sample_digest (sample_sink 5) (\<lambda>_. ()) sample_context sample_tool ''t'' ''query'' 7 (0, 0)
      = (Inr (fst (sample_tool 0)), 3, 1)"
    by (simp add: sample_tool_eval)
  from tool_success [OF this] show ?thesis by (auto simp: sample_tool_def sample_sink_def)
qed

text \<open>A failed tool call tells whether the tool may have run: any error but \<open>Uncertain\<close> means it was
  not executed and no result was committed, and a prerequisite that fails (the read, the intent
  or the start) is returned as it is.\<close>

theorem tool_error:
  assumes "tool h k ev x execute i name args (s, t) = (Inl e, s', t')" and "\<forall>m. e \<noteq> Uncertain m"
  shows "t' = t \<and>
    (es_outcome k (ev 0) x i s = Inl e \<and> s' = s
     \<or> es_commit k (ev 1) (command h x (i @ '':intent'') (Public (PToolIntent i name args)) None) s = (Inl e, s')
     \<or> (\<exists>r s1. es_commit k (ev 1) (command h x (i @ '':intent'') (Public (PToolIntent i name args)) None) s = (Inr r, s1)
        \<and> es_commit k (ev 2) (start_command h x i) s1 = (Inl e, s')))"
proof (cases "es_outcome k (ev 0) x i s")
  case (Inr saved)
  show ?thesis
  proof (cases saved)
    case None
    with Inr assms show ?thesis
      by (auto simp: tool_def st_then_eq_Inl st_simps split: if_splits prod.splits)
  qed (use Inr assms in \<open>auto simp: tool_def\<close>)
qed (use assms in \<open>auto simp: tool_def\<close>)

theorem tool_error_witness:
  "fst (es_commit (sample_sink 1) () (start_command sample_digest sample_context ''t'') 1) = Inl (Persistence ''full'')"
proof -
  have run: "tool sample_digest (sample_sink 1) (\<lambda>_. ()) sample_context sample_tool ''t'' ''query'' 7 (0, 0)
      = (Inl (Persistence ''full''), 1, 0)"
    by (simp add: sample_tool_eval)
  from tool_error [OF this] show ?thesis by (auto simp: sample_sink_def)
qed

text \<open>Cutting a tool call at its awaits changes nothing: running one worker's steps without
  interruption gives the call's result, sink and world; in particular five steps always finish it.\<close>

theorem tool_is_uninterrupted_worker:
  "worker_run h k x execute i name args [ev 0, ev 1, ev 2, v, ev 3] (Ready, s, t)
     = (let (r, s', t') = tool h k ev x execute i name args (s, t) in (Finished r, s', t'))"
  by (auto simp: tool_def st_then_def on_sink_def on_world_def st_simps Let_def
      split: sum.splits option.splits prod.splits)

end
