(* ===== verification/Core_Errors.thy ===== *)
theory Core_Errors
  imports Kyomi_Prelude
begin

text \<open>
  JSON values as the code's \<open>serde_json::Value\<close> presents them, and the application error of
  \<open>crates/kyomi-core/src/error.rs\<close> with its log text, its user text and its HTTP response.
  An object is the list of its members in increasing key order (\<open>serde_json\<close>'s default map is
  ordered); a number is its literal. Serialization and parsing are parameters of the theories
  that use them.
\<close>

subsection \<open>JSON values\<close>

datatype json =
    JNull
  | JBool bool
  | JNumber string
  | JString string
  | JArray "json list"
  | JObject "(string \<times> json) list"

text \<open>The byte order of keys.\<close>

fun bytes_less :: "string \<Rightarrow> string \<Rightarrow> bool" where
  "bytes_less [] [] = False"
| "bytes_less [] (_ # _) = True"
| "bytes_less (_ # _) [] = False"
| "bytes_less (a # s) (b # t) =
     (if a = b then bytes_less s t else (of_char a :: nat) < of_char b)"

fun members_insert :: "string \<Rightarrow> 'v \<Rightarrow> (string \<times> 'v) list \<Rightarrow> (string \<times> 'v) list" where
  "members_insert k v [] = [(k, v)]"
| "members_insert k v ((k', v') # ms) =
     (if k = k' then (k, v) # ms
      else if bytes_less k k' then (k, v) # (k', v') # ms
      else (k', v') # members_insert k v ms)"

fun json_get :: "string \<Rightarrow> json \<Rightarrow> json option" where
  "json_get k (JObject ms) = map_of ms k"
| "json_get k _ = None"

fun as_str :: "json \<Rightarrow> string option" where
  "as_str (JString s) = Some s"
| "as_str _ = None"

fun as_bool :: "json \<Rightarrow> bool option" where
  "as_bool (JBool b) = Some b"
| "as_bool _ = None"

fun as_array :: "json \<Rightarrow> json list option" where
  "as_array (JArray xs) = Some xs"
| "as_array _ = None"

fun as_object :: "json \<Rightarrow> (string \<times> json) list option" where
  "as_object (JObject ms) = Some ms"
| "as_object _ = None"

definition json_object :: "(string \<times> json) list \<Rightarrow> json" where
  "json_object ms = JObject (fold (\<lambda>(k, v) acc. members_insert k v acc) ms [])"

text \<open>The fold stops at the first error, like an \<open>iter().map().collect::<Result<_>>()\<close>.\<close>

fun map_ok :: "('a \<Rightarrow> 'e + 'b) \<Rightarrow> 'a list \<Rightarrow> 'e + 'b list" where
  "map_ok f [] = Inr []"
| "map_ok f (x # xs) = and_then (f x) (\<lambda>y. and_then (map_ok f xs) (\<lambda>ys. Inr (y # ys)))"

lemma map_of_members_insert: "map_of (members_insert k v ms) k' = (if k' = k then Some v else map_of ms k')"
  by (induction k v ms rule: members_insert.induct) auto

lemma json_get_insert [simp]:
  "json_get k' (JObject (members_insert k v ms)) = (if k' = k then Some v else map_of ms k')"
  by (simp add: map_of_members_insert)

text \<open>\<open>value[key].as_str()\<close>: a missing key reads as null.\<close>

definition str_at :: "string \<Rightarrow> json \<Rightarrow> string option" where
  "str_at k v = Option.bind (json_get k v) as_str"

definition text_at :: "string \<Rightarrow> json \<Rightarrow> string" where
  "text_at k v = (case str_at k v of Some s \<Rightarrow> s | None \<Rightarrow> '''')"

definition json_at :: "string \<Rightarrow> json \<Rightarrow> json" where
  "json_at k v = (case json_get k v of Some x \<Rightarrow> x | None \<Rightarrow> JNull)"

subsection \<open>The application error\<close>

text \<open>The database driver's errors the code tells apart, and any other one with its text.\<close>

datatype db_error =
    DbIo string
  | PoolTimedOut
  | PoolClosed
  | RowNotFound
  | UniqueViolation string
  | ColumnDecode string
  | OtherDbError string

datatype app_error =
    NotFound string
  | AppUnauthorized string
  | Forbidden string
  | BadRequest string
  | Conflict string
  | TooManyRequests string "64 word"
  | NotImplemented string
  | ServiceUnavailable string
  | PaymentRequired string
  | DatasourceConnection string
  | CredentialDecryptionFailed string
  | Internal string
  | Sqlx db_error
  | Migrate string
  | Redis string
  | SerdeJson string

definition PAYMENT_REQUIRED_CODE :: string where "PAYMENT_REQUIRED_CODE = ''payment_required''"

text \<open>The log text; \<open>db_text\<close> is the driver's own text of its error.\<close>

fun app_error_display :: "(db_error \<Rightarrow> string) \<Rightarrow> app_error \<Rightarrow> string" where
  "app_error_display d (NotFound m) = ''not found: '' @ m"
| "app_error_display d (AppUnauthorized m) = ''unauthorized: '' @ m"
| "app_error_display d (Forbidden m) = ''forbidden: '' @ m"
| "app_error_display d (BadRequest m) = ''bad request: '' @ m"
| "app_error_display d (Conflict m) = ''conflict: '' @ m"
| "app_error_display d (TooManyRequests m _) = ''too many requests: '' @ m"
| "app_error_display d (NotImplemented m) = ''not implemented: '' @ m"
| "app_error_display d (ServiceUnavailable m) = ''service unavailable: '' @ m"
| "app_error_display d (PaymentRequired m) = ''payment required: '' @ m"
| "app_error_display d (DatasourceConnection m) = m"
| "app_error_display d (CredentialDecryptionFailed m) = m"
| "app_error_display d (Internal m) = ''internal: '' @ m"
| "app_error_display d (Sqlx e) = d e"
| "app_error_display d (Migrate m) = m"
| "app_error_display d (Redis m) = m"
| "app_error_display d (SerdeJson m) = m"

fun is_transient :: "app_error \<Rightarrow> bool" where
  "is_transient (TooManyRequests _ _) = True"
| "is_transient (ServiceUnavailable _) = True"
| "is_transient _ = False"

fun user_message :: "app_error \<Rightarrow> string" where
  "user_message (NotFound m) = m"
| "user_message (AppUnauthorized m) = m"
| "user_message (Forbidden m) = m"
| "user_message (BadRequest m) = m"
| "user_message (Conflict m) = m"
| "user_message (TooManyRequests m _) = m"
| "user_message (NotImplemented m) = m"
| "user_message (ServiceUnavailable m) = m"
| "user_message (PaymentRequired m) = m"
| "user_message (DatasourceConnection m) = m"
| "user_message (CredentialDecryptionFailed m) = m"
| "user_message (Internal m) = m"
| "user_message _ = ''internal server error''"

subsection \<open>The HTTP response\<close>

record http_response =
  resp_status :: nat
  resp_body :: json
  resp_retry_after :: "string option"

definition detail_response :: "nat \<Rightarrow> string \<Rightarrow> http_response" where
  "detail_response st m = \<lparr>resp_status = st, resp_body = json_object [(''detail'', JString m)], resp_retry_after = None\<rparr>"

fun into_response :: "app_error \<Rightarrow> http_response" where
  "into_response (NotFound m) = detail_response 404 m"
| "into_response (AppUnauthorized m) = detail_response 401 m"
| "into_response (Forbidden m) = detail_response 403 m"
| "into_response (BadRequest m) = detail_response 400 m"
| "into_response (Conflict m) = detail_response 409 m"
| "into_response (TooManyRequests m after) =
     (detail_response 429 m)\<lparr>resp_retry_after := Some (show_nat (unat after))\<rparr>"
| "into_response (NotImplemented m) = detail_response 501 m"
| "into_response (ServiceUnavailable m) = detail_response 503 m"
| "into_response (PaymentRequired m) = \<lparr>resp_status = 402,
     resp_body = json_object [(''error'', JString PAYMENT_REQUIRED_CODE), (''message'', JString m)],
     resp_retry_after = None\<rparr>"
| "into_response (DatasourceConnection m) = detail_response 400 m"
| "into_response (CredentialDecryptionFailed m) = detail_response 500 m"
| "into_response (Internal m) = detail_response 500 ''internal server error''"
| "into_response (Sqlx _) = detail_response 500 ''internal server error''"
| "into_response (Migrate _) = detail_response 500 ''internal server error''"
| "into_response (Redis _) = detail_response 500 ''internal server error''"
| "into_response (SerdeJson _) = detail_response 500 ''internal server error''"

end
