(* ===== verification/Encryption.thy ===== *)
theory Encryption
  imports Core_Errors "HOL-Library.Sublist"
begin

text \<open>
  The encryption envelope of \<open>crates/kyomi-auth/src/encryption.rs\<close>. AES-256-GCM (\<open>aes_gcm\<close>),
  base64 (\<open>base64\<close>) and the JSON codec (\<open>serde_json\<close>) are the fields of \<open>aead\<close>; the envelope
  around them (version byte, nonce, length and version checks, error classes), the JSON field
  envelope and the compaction-summary protection are the code's own.
\<close>

record aead =
  seal :: "string \<Rightarrow> string \<Rightarrow> string \<Rightarrow> string option"
  unseal :: "string \<Rightarrow> string \<Rightarrow> string \<Rightarrow> string option"
  b64_encode :: "string \<Rightarrow> string"
  b64_decode :: "string \<Rightarrow> string + string"
  json_write :: "json \<Rightarrow> string + string"
  json_read :: "string \<Rightarrow> string + json"

text \<open>\<open>seal key nonce plaintext\<close>, \<open>unseal key nonce ciphertext\<close>; the ciphertext carries the tag.\<close>

definition NONCE_SIZE :: nat where "NONCE_SIZE = 12"
definition VERSION_AES256_GCM :: char where "VERSION_AES256_GCM = char_of (2::nat)"

subsection \<open>UTF-8 validity\<close>

text \<open>\<open>String::from_utf8\<close>: well-formed sequences of one to four bytes, without overlong forms,
  surrogates, or code points above U+10FFFF.\<close>

definition in_range :: "char \<Rightarrow> nat \<Rightarrow> nat \<Rightarrow> bool" where
  "in_range c lo hi \<longleftrightarrow> lo \<le> of_char c \<and> of_char c \<le> hi"

definition second_byte_ok :: "char \<Rightarrow> char \<Rightarrow> bool" where
  "second_byte_ok a b =
     (if (of_char a :: nat) = 224 then in_range b 160 191
      else if (of_char a :: nat) = 237 then in_range b 128 159
      else if (of_char a :: nat) = 240 then in_range b 144 191
      else if (of_char a :: nat) = 244 then in_range b 128 143
      else in_range b 128 191)"

fun valid_utf8 :: "string \<Rightarrow> bool" where
  "valid_utf8 [] = True"
| "valid_utf8 (a # s) =
     (if in_range a 0 127 then valid_utf8 s
      else if in_range a 194 223
      then (case s of b # t \<Rightarrow> second_byte_ok a b \<and> valid_utf8 t | _ \<Rightarrow> False)
      else if in_range a 224 239
      then (case s of b # c # t \<Rightarrow> second_byte_ok a b \<and> in_range c 128 191 \<and> valid_utf8 t | _ \<Rightarrow> False)
      else if in_range a 240 244
      then (case s of b # c # d # t \<Rightarrow>
          second_byte_ok a b \<and> in_range c 128 191 \<and> in_range d 128 191 \<and> valid_utf8 t | _ \<Rightarrow> False)
      else False)"

subsection \<open>Encrypt and decrypt\<close>

text \<open>A nonce is an array of twelve bytes: a 96-bit word, most significant byte first.\<close>

definition nonce_bytes :: "96 word \<Rightarrow> string" where
  "nonce_bytes w = map (\<lambda>i. char_of (unat (drop_bit (8 * (11 - i)) w) mod 256)) [0..<NONCE_SIZE]"

lemma length_nonce_bytes [simp]: "length (nonce_bytes w) = NONCE_SIZE"
  by (simp add: nonce_bytes_def)

definition hex_digit :: "nat \<Rightarrow> char" where
  "hex_digit n = (if n < 10 then char_of (48 + n) else char_of (87 + n))"

definition hex2 :: "char \<Rightarrow> string" where
  "hex2 c = [hex_digit (of_char c div 16), hex_digit (of_char c mod 16)]"

definition encrypt :: "aead \<Rightarrow> 96 word \<Rightarrow> string \<Rightarrow> string \<Rightarrow> app_error + string" where
  "encrypt a nonce plaintext key =
     and_then (ok_or (seal a key (nonce_bytes nonce) plaintext) (Internal ''encryption failed'')) (\<lambda>ct.
     Inr (b64_encode a (VERSION_AES256_GCM # nonce_bytes nonce @ ct)))"

definition decrypt :: "aead \<Rightarrow> string \<Rightarrow> string \<Rightarrow> app_error + string" where
  "decrypt a encrypted key =
     and_then (map_err (\<lambda>e. BadRequest (''bad base64: '' @ e)) (b64_decode a encrypted)) (\<lambda>d.
     if length d < 1 + NONCE_SIZE + 16 then Inl (BadRequest ''encrypted data too short'')
     else if d ! 0 \<noteq> VERSION_AES256_GCM
     then Inl (BadRequest (''unsupported encryption version: 0x'' @ hex2 (d ! 0)))
     else and_then (ok_or (unseal a key (take NONCE_SIZE (drop 1 d)) (drop (1 + NONCE_SIZE) d))
         (AppUnauthorized ''decryption failed'')) (\<lambda>plaintext.
       if valid_utf8 plaintext then Inr plaintext
       else Inl (Internal ''decrypted data is not valid text'')))"

definition encrypt_json :: "aead \<Rightarrow> 96 word \<Rightarrow> json \<Rightarrow> string \<Rightarrow> app_error + string" where
  "encrypt_json a nonce v key =
     and_then (map_err (\<lambda>e. Internal (''JSON serialization failed: '' @ e)) (json_write a v)) (\<lambda>s.
     encrypt a nonce s key)"

definition decrypt_json :: "aead \<Rightarrow> string \<Rightarrow> string \<Rightarrow> app_error + json" where
  "decrypt_json a encrypted key =
     and_then (decrypt a encrypted key) (\<lambda>s.
     map_err (\<lambda>e. Internal (''JSON deserialization failed: '' @ e)) (json_read a s))"

definition derive_key :: "aead \<Rightarrow> string \<Rightarrow> app_error + string" where
  "derive_key a encoded =
     and_then (map_err (\<lambda>e. Internal (''bad encryption key base64: '' @ e)) (b64_decode a encoded)) (\<lambda>d.
     if length d \<noteq> 32
     then Inl (Internal (''encryption key must be 32 bytes, got '' @ show_nat (length d)))
     else Inr d)"

subsection \<open>Protected JSON fields\<close>

definition ENCRYPTED_JSON_FIELD :: string where
  "ENCRYPTED_JSON_FIELD = ''__kyomi_encrypted_json_v1''"

definition protect_json_field :: "aead \<Rightarrow> 96 word \<Rightarrow> json \<Rightarrow> string \<Rightarrow> app_error + json" where
  "protect_json_field a nonce v key =
     and_then (encrypt_json a nonce v key) (\<lambda>c.
     Inr (json_object [(ENCRYPTED_JSON_FIELD, JString c)]))"

definition restore_json_field :: "aead \<Rightarrow> json \<Rightarrow> string \<Rightarrow> app_error + json" where
  "restore_json_field a v key =
     (case json_get ENCRYPTED_JSON_FIELD v of
        None \<Rightarrow> Inr v
      | Some c \<Rightarrow> and_then (ok_or (as_str c) (BadRequest ''invalid encrypted JSON envelope'')) (\<lambda>s.
          decrypt_json a s key))"

text \<open>
  \<open>pointer_mut("/agent_state/compacted_summary")\<close>: rewriting the value at a path of object keys,
  if the path leads somewhere.
\<close>

fun members_update :: "string \<Rightarrow> json \<Rightarrow> (string \<times> json) list \<Rightarrow> (string \<times> json) list" where
  "members_update k v [] = []"
| "members_update k v ((k', u) # ms) = (if k' = k then (k', v) # ms else (k', u) # members_update k v ms)"

fun json_at :: "string list \<Rightarrow> (json \<Rightarrow> app_error + json) \<Rightarrow> json \<Rightarrow> app_error + json" where
  "json_at [] f v = f v"
| "json_at (k # ks) f (JObject ms) =
     (case map_of ms k of
        None \<Rightarrow> Inr (JObject ms)
      | Some v \<Rightarrow> and_then (json_at ks f v) (\<lambda>v'.
          Inr (JObject (members_update k v' ms))))"
| "json_at (k # ks) f v = Inr v"

definition SUMMARY_PATH :: "string list" where
  "SUMMARY_PATH = [''agent_state'', ''compacted_summary'']"

definition protect_chat_config :: "aead \<Rightarrow> 96 word \<Rightarrow> json \<Rightarrow> string \<Rightarrow> app_error + json" where
  "protect_chat_config a nonce v key =
     json_at SUMMARY_PATH (\<lambda>s. if s = JNull then Inr s else protect_json_field a nonce s key) v"

definition restore_chat_config :: "aead \<Rightarrow> json \<Rightarrow> string \<Rightarrow> app_error + json" where
  "restore_chat_config a v key = json_at SUMMARY_PATH (\<lambda>s. restore_json_field a s key) v"

text \<open>
  What the code relies on of AES-GCM, base64 and the JSON codec: decoding and opening invert
  encoding and sealing, a sealed text is at least the 16 bytes of the tag, and a JSON value is
  written as UTF-8 text.
\<close>

definition aead_ok :: "aead \<Rightarrow> bool" where
  "aead_ok a \<longleftrightarrow>
     (\<forall>key nonce p c. length nonce = NONCE_SIZE \<longrightarrow> seal a key nonce p = Some c \<longrightarrow>
        16 \<le> length c \<and> unseal a key nonce c = Some p)
   \<and> (\<forall>d. b64_decode a (b64_encode a d) = Inr d)
   \<and> (\<forall>v s. json_write a v = Inr s \<longrightarrow> valid_utf8 s)"

text \<open>
  A JSON value that reads back as it was written. The codec does not promise it of every value:
  the default float parser may be off in the last digit, and values nested deeper than 128 levels
  are written and then refused. It is therefore asked of the value at hand only.
\<close>

definition reads_back :: "aead \<Rightarrow> json \<Rightarrow> bool" where
  "reads_back a v \<longleftrightarrow> (\<forall>s. json_write a v = Inr s \<longrightarrow> json_read a s = Inr v)"

text \<open>The value at a path of object keys.\<close>

fun json_lookup :: "string list \<Rightarrow> json \<Rightarrow> json option" where
  "json_lookup [] v = Some v"
| "json_lookup (k # ks) (JObject ms) = (case map_of ms k of None \<Rightarrow> None | Some v \<Rightarrow> json_lookup ks v)"
| "json_lookup (k # ks) v = None"

lemma decrypt_encrypt:
  assumes "aead_ok a" "valid_utf8 p" "encrypt a nonce p key = Inr c"
  shows "decrypt a c key = Inr p"
proof -
  from assms(3) obtain ct where ct: "seal a key (nonce_bytes nonce) p = Some ct"
      "c = b64_encode a (VERSION_AES256_GCM # nonce_bytes nonce @ ct)"
    by (auto simp: encrypt_def and_then_eq_Inr)
  with assms(1) have "16 \<le> length ct \<and> unseal a key (nonce_bytes nonce) ct = Some p"
    unfolding aead_ok_def using length_nonce_bytes by blast
  moreover have "b64_decode a c = Inr (VERSION_AES256_GCM # nonce_bytes nonce @ ct)"
    using ct(2) assms(1) by (simp add: aead_ok_def)
  ultimately show ?thesis using assms(2) length_nonce_bytes [of nonce]
    by (simp add: decrypt_def nth_append NONCE_SIZE_def)
qed

lemma decrypt_json_encrypt:
  assumes "aead_ok a" "reads_back a v" "encrypt_json a nonce v key = Inr c"
  shows "decrypt_json a c key = Inr v"
proof -
  from assms(3) obtain s where s: "json_write a v = Inr s" "encrypt a nonce s key = Inr c"
    by (auto simp: encrypt_json_def and_then_eq_Inr)
  with assms(1,2) have "valid_utf8 s" "json_read a s = Inr v" by (auto simp: aead_ok_def reads_back_def)
  with decrypt_encrypt [OF assms(1) _ s(2)] show ?thesis by (simp add: decrypt_json_def)
qed

lemma restore_protect_field:
  assumes "aead_ok a" "reads_back a v" "protect_json_field a nonce v key = Inr w"
  shows "restore_json_field a w key = Inr v"
proof -
  from assms(3) obtain c where "encrypt_json a nonce v key = Inr c"
      "w = json_object [(ENCRYPTED_JSON_FIELD, JString c)]"
    by (auto simp: protect_json_field_def and_then_eq_Inr)
  with decrypt_json_encrypt [OF assms(1,2)] show ?thesis
    by (simp add: restore_json_field_def json_object_def)
qed

text \<open>Rewriting the value at a path twice is rewriting it with the composition.\<close>

lemma members_update_map_of:
  "map_of ms k = Some v \<Longrightarrow> map_of (members_update k u ms) k = Some u
     \<and> members_update k v (members_update k u ms) = ms"
  by (induction k u ms rule: members_update.induct) auto

lemma members_update_other: "k' \<noteq> k \<Longrightarrow> map_of (members_update k u ms) k' = map_of ms k'"
  by (induction k u ms rule: members_update.induct) auto

lemma json_at_inverse:
  assumes "json_at ks f v = Inr w"
    and "\<And>x y. json_lookup ks v = Some x \<Longrightarrow> f x = Inr y \<Longrightarrow> g y = Inr x"
  shows "json_at ks g w = Inr v"
  using assms
proof (induction ks f v arbitrary: w rule: json_at.induct)
  case (2 k ks f ms)
  show ?case
  proof (cases "map_of ms k")
    case None
    with 2(2) show ?thesis by auto
  next
    case (Some v)
    with 2(2) obtain v' where v': "json_at ks f v = Inr v'" "w = JObject (members_update k v' ms)"
      by (auto simp: and_then_eq_Inr)
    have "json_at ks g v' = Inr v"
      by (rule 2(1) [OF Some v'(1)]) (auto simp: Some intro: 2(3))
    with Some v'(2) members_update_map_of [OF Some, of v'] show ?thesis by simp
  qed
qed auto

text \<open>Rewriting at a path changes the value there, if there is one, and nothing beside it.\<close>

lemma json_at_absent: "json_lookup ks v = None \<Longrightarrow> json_at ks f v = Inr v"
proof (induction ks f v rule: json_at.induct)
  case (2 k ks f ms)
  show ?case
  proof (cases "map_of ms k")
    case (Some v)
    with 2 members_update_map_of [OF Some, of v] have "json_at ks f v = Inr v" by simp
    moreover have "members_update k v ms = ms"
      using Some by (induction k v ms rule: members_update.induct) (auto split: if_splits)
    ultimately show ?thesis using Some by simp
  qed simp
qed auto

lemma json_at_same: "json_lookup ks v = Some x \<Longrightarrow> f x = Inr x \<Longrightarrow> json_at ks f v = Inr v"
proof (induction ks f v rule: json_at.induct)
  case (2 k ks f ms)
  from 2(2) obtain v where v: "map_of ms k = Some v" "json_lookup ks v = Some x"
    by (auto split: option.splits)
  have "members_update k v ms = ms"
    using v(1) by (induction k v ms rule: members_update.induct) (auto split: if_splits)
  with 2(1) [OF v(1) v(2) 2(3)] v(1) show ?case by simp
qed auto

lemma json_at_value:
  "json_at ks f v = Inr w \<Longrightarrow> json_lookup ks v = Some x \<Longrightarrow> \<exists>y. f x = Inr y \<and> json_lookup ks w = Some y"
proof (induction ks f v arbitrary: w rule: json_at.induct)
  case (2 k ks f ms)
  from 2(3) obtain v where v: "map_of ms k = Some v" "json_lookup ks v = Some x"
    by (auto split: option.splits)
  with 2(2) obtain v' where v': "json_at ks f v = Inr v'" "w = JObject (members_update k v' ms)"
    by (auto simp: and_then_eq_Inr)
  with 2(1) [OF v(1) v'(1) v(2)] members_update_map_of [OF v(1), of v'] show ?case by auto
qed auto

lemma json_at_elsewhere:
  "json_at ks f v = Inr w \<Longrightarrow> \<not> prefix js ks \<Longrightarrow> \<not> prefix ks js \<Longrightarrow> json_lookup js w = json_lookup js v"
proof (induction ks f v arbitrary: w js rule: json_at.induct)
  case (2 k ks f ms)
  show ?case
  proof (cases "map_of ms k")
    case (Some v)
    with 2(2) obtain v' where v': "json_at ks f v = Inr v'" "w = JObject (members_update k v' ms)"
      by (auto simp: and_then_eq_Inr)
    from 2(3) obtain j js' where js: "js = j # js'" by (cases js) auto
    show ?thesis
    proof (cases "j = k")
      case True
      with 2(3,4) js 2(1) [OF Some v'(1), of js'] v'(2) Some members_update_map_of [OF Some, of v']
      show ?thesis by auto
    next
      case False
      with js v'(2) members_update_other [OF False] show ?thesis by simp
    qed
  qed (use 2 in simp)
qed auto

subsection \<open>Properties\<close>

text \<open>C26: What was encrypted decrypts to itself under the same key: texts, and JSON values that the
  codec reads back as written, alone or as a protected field. A chat configuration whose
  compaction summary is absent or null is stored as it is. In any other, the summary alone is
  replaced by its encrypted field, every setting outside the summary is left readable in place,
  and restoring gives the configuration back if the codec reads the summary back.\<close>

theorem encryption_roundtrip:
  assumes "aead_ok a"
  shows "(valid_utf8 p \<and> encrypt a nonce p key = Inr c \<longrightarrow> decrypt a c key = Inr p)
    \<and> (reads_back a v \<and> encrypt_json a nonce v key = Inr c \<longrightarrow> decrypt_json a c key = Inr v)
    \<and> (reads_back a v \<and> protect_json_field a nonce v key = Inr w \<longrightarrow> restore_json_field a w key = Inr v)
    \<and> (case json_lookup SUMMARY_PATH v of
        None \<Rightarrow> protect_chat_config a nonce v key = Inr v \<and> restore_chat_config a v key = Inr v
      | Some s \<Rightarrow>
          if s = JNull
          then protect_chat_config a nonce v key = Inr v \<and> restore_chat_config a v key = Inr v
          else protect_chat_config a nonce v key = Inr w \<longrightarrow>
              (\<exists>e. encrypt_json a nonce s key = Inr e
                \<and> json_lookup SUMMARY_PATH w = Some (JObject [(ENCRYPTED_JSON_FIELD, JString e)]))
            \<and> (\<forall>ks. \<not> prefix ks SUMMARY_PATH \<and> \<not> prefix SUMMARY_PATH ks \<longrightarrow>
                json_lookup ks w = json_lookup ks v)
            \<and> (reads_back a s \<longrightarrow> restore_chat_config a w key = Inr v))"
proof -
  note defs = protect_chat_config_def restore_chat_config_def
  have absent: "protect_chat_config a nonce v key = Inr v \<and> restore_chat_config a v key = Inr v"
    if "json_lookup SUMMARY_PATH v = None"
    using that by (simp add: defs json_at_absent)
  have null: "protect_chat_config a nonce v key = Inr v \<and> restore_chat_config a v key = Inr v"
    if "json_lookup SUMMARY_PATH v = Some JNull"
    using that unfolding defs by (auto intro!: json_at_same simp: restore_json_field_def)
  have restored: "restore_chat_config a w key = Inr v"
    if "protect_chat_config a nonce v key = Inr w" "json_lookup SUMMARY_PATH v = Some s" "reads_back a s"
      "s \<noteq> JNull" for s
    using that(1) unfolding defs
    by (rule json_at_inverse) (use that(2-) restore_protect_field [OF assms] in auto)
  have field: "\<exists>e. encrypt_json a nonce s key = Inr e
      \<and> json_lookup SUMMARY_PATH w = Some (JObject [(ENCRYPTED_JSON_FIELD, JString e)])"
    if "protect_chat_config a nonce v key = Inr w" "json_lookup SUMMARY_PATH v = Some s" "s \<noteq> JNull" for s
    using json_at_value [OF that(1) [unfolded defs] that(2)] that(3)
    by (auto simp: protect_json_field_def and_then_eq_Inr json_object_def)
  have other: "json_lookup ks w = json_lookup ks v"
    if "protect_chat_config a nonce v key = Inr w" "\<not> prefix ks SUMMARY_PATH" "\<not> prefix SUMMARY_PATH ks" for ks
    using json_at_elsewhere [OF that(1) [unfolded defs] that(2,3)] .
  show ?thesis
    using decrypt_encrypt [OF assms] decrypt_json_encrypt [OF assms] restore_protect_field [OF assms]
      absent null restored field other
    by (cases "json_lookup SUMMARY_PATH v") auto
qed

text \<open>
  A concrete instance: a cipher that appends the sixteen bytes of a constant tag, and a codec of
  texts. The configuration has a model name beside the summary.
\<close>

definition sample_aead :: aead where
  "sample_aead = \<lparr>seal = (\<lambda>_ _ p. Some (p @ replicate 16 (CHR ''t''))),
     unseal = (\<lambda>_ _ c. Some (take (length c - 16) c)),
     b64_encode = id, b64_decode = Inr,
     json_write = (\<lambda>v. case v of JString s \<Rightarrow> (if valid_utf8 s then Inr s else Inl ''invalid'')
       | _ \<Rightarrow> Inl ''unsupported''),
     json_read = (\<lambda>s. Inr (JString s))\<rparr>"

lemma sample_aead_ok: "aead_ok sample_aead"
  by (auto simp: aead_ok_def sample_aead_def split: if_splits json.splits)

definition sample_config :: "json \<Rightarrow> json" where
  "sample_config s = JObject [(''model'', JString ''m''),
     (''agent_state'', JObject [(''compacted_summary'', s), (''turns'', JNumber ''3'')])]"

theorem encryption_roundtrip_witness:
  "decrypt sample_aead (VERSION_AES256_GCM # nonce_bytes 5 @ ''secret'' @ replicate 16 (CHR ''t'')) ''k'' = Inr ''secret''
   \<and> (\<exists>w. protect_chat_config sample_aead 5 (sample_config (JString ''secret'')) ''k'' = Inr w
     \<and> restore_chat_config sample_aead w ''k'' = Inr (sample_config (JString ''secret'')))"
proof -
  let ?e = "VERSION_AES256_GCM # nonce_bytes 5 @ ''secret'' @ replicate 16 (CHR ''t'')"
  let ?w = "sample_config (JObject [(ENCRYPTED_JSON_FIELD, JString ?e)])"
  have rb: "reads_back sample_aead (JString ''secret'')"
    by (auto simp: reads_back_def sample_aead_def split: if_splits)
  have u: "valid_utf8 ''secret''" by (simp add: in_range_def)
  have e: "encrypt sample_aead 5 ''secret'' ''k'' = Inr ?e"
    by (simp add: encrypt_def sample_aead_def)
  have w: "protect_chat_config sample_aead 5 (sample_config (JString ''secret'')) ''k'' = Inr ?w"
    using e u by (simp add: protect_chat_config_def SUMMARY_PATH_def sample_config_def
        protect_json_field_def encrypt_json_def json_object_def map_err_def)
      (simp add: sample_aead_def)
  have s: "json_lookup SUMMARY_PATH (sample_config (JString ''secret'')) = Some (JString ''secret'')"
    by (simp add: SUMMARY_PATH_def sample_config_def)
  show ?thesis
    using encryption_roundtrip [OF sample_aead_ok, of "''secret''" 5 "''k''" ?e "sample_config (JString ''secret'')" ?w]
      e u w s rb by auto
qed

end
