(* ===== verification/Journal_Tables.thy ===== *)
theory Journal_Tables
  imports Run_Lifecycle Replay_Cursor Tool_Execution Encryption
begin

text \<open>
  What the durable conversation store of \<open>crates/kyomi-auth/src/conversation_events.rs\<close> works on:
  the rows it reads and writes with the constraints of the migrations
  (\<open>apps/server/migrations-sqlite/00042, 00044, 00048\<close>), its error type, the transaction and the
  authorization macro.

  A table is the list of its rows in insertion order. An \<open>INSERT\<close> that violates a primary key or
  a unique index is an error of the database; the foreign keys are not modelled, because every row
  a statement refers to was read or written earlier in the same transaction. A transaction's body
  is a function from the database to an error or a result with the new database; the rollback of a
  failed body is \<open>transact\<close>. Times are microseconds since the epoch.

  What is not in the repository is a parameter: \<open>codec\<close> holds AES-GCM and base64 (in
  \<open>cx_aead\<close>), the JSON codec of the protocol types, SHA-256 with hexadecimal output and the UUID
  syntax check; \<open>env\<close> holds what one call draws from outside, numbered by the place in the code
  that draws it: clock readings, encryption nonces, fresh UUIDs, the time spent waiting for the
  lock, and the failures of \<open>begin\<close>, \<open>rollback\<close> and \<open>commit\<close>.
\<close>

subsection \<open>Rows\<close>

record session_row =
  ss_id :: string
  ss_user :: string
  ss_workspace :: string
  ss_type :: string
  ss_title :: "string option"
  ss_model :: "string option"
  ss_shared :: "bool option"
  ss_shared_at :: "int option"
  ss_created_at :: int
  ss_updated_at :: int
  ss_config :: "json option"
  ss_event_sequence :: int

record member_row =
  wu_workspace :: string
  wu_user :: string
  wu_active :: bool

record user_row =
  us_id :: string
  us_active :: bool
  us_name :: "string option"
  us_email :: "string option"

record run_row =
  rn_id :: string
  rn_session :: string
  rn_state :: string
  rn_request :: "string option"
  rn_actor :: "string option"
  rn_workspace :: "string option"
  rn_user_message :: "string option"
  rn_assistant_message :: "string option"
  rn_submission :: "string option"
  rn_fence :: int
  rn_lease_owner :: "string option"
  rn_lease_expires :: "int option"
  rn_cancel :: bool
  rn_queued_at :: "int option"
  rn_started_at :: "int option"
  rn_terminal_at :: "int option"

record event_row =
  ev_id :: string
  ev_session :: string
  ev_run :: string
  ev_sequence :: int
  ev_version :: int
  ev_key :: string
  ev_public :: bool
  ev_payload :: string
  ev_command :: string

record alias_row =
  al_session :: string
  al_key :: string
  al_alias :: string
  al_event :: string
  al_command :: string

record detail_row =
  dt_id :: string
  dt_session :: string
  dt_event :: string
  dt_public :: bool
  dt_content :: string

record read_row =
  rd_event :: string
  rd_session :: string
  rd_run :: string
  rd_sequence :: int
  rd_version :: int
  rd_payload :: string
  rd_detail_id :: "string option"
  rd_detail :: "string option"

record tool_receipt_row =
  tr_session :: string
  tr_run :: string
  tr_tool :: string
  tr_event :: string
  tr_succeeded :: bool

record usage_receipt_row =
  ur_session :: string
  ur_run :: string
  ur_model :: string
  ur_event :: string

record message_row =
  ms_id :: string
  ms_session :: string
  ms_role :: string
  ms_content :: string
  ms_status :: string
  ms_pinned :: bool
  ms_created_at :: int
  ms_metadata :: "string option"
  ms_time_tz :: "string option"
  ms_sent_by :: "string option"
  ms_source :: "string option"
  ms_tool_call :: "string option"
  ms_tool_name :: "string option"
  ms_tool_calls :: "json option"

record thinking_row =
  th_id :: string
  th_message :: string
  th_event :: string
  th_text :: string

record sync_row =
  sy_entity_type :: string
  sy_entity_id :: string
  sy_workspace :: string
  sy_action :: string
  sy_data :: "string option"
  sy_owner :: "string option"
  sy_visible :: bool

record usage_row =
  ul_user :: string
  ul_workspace :: string
  ul_session :: string
  ul_timestamp :: int
  ul_provider :: string
  ul_model :: string
  ul_input :: int
  ul_output :: int
  ul_total :: int
  ul_cost :: "64 word"
  ul_component :: string
  ul_provider_cost :: "64 word option"

record database =
  sessions :: "session_row list"
  members :: "member_row list"
  users :: "user_row list"
  runs :: "run_row list"
  events :: "event_row list"
  aliases :: "alias_row list"
  details :: "detail_row list"
  read_rows :: "read_row list"
  tool_receipts :: "tool_receipt_row list"
  usage_receipts :: "usage_receipt_row list"
  messages :: "message_row list"
  thinking_details :: "thinking_row list"
  sync_log :: "sync_row list"
  api_usage_log :: "usage_row list"

subsection \<open>Errors\<close>

datatype store_error =
    StoreUnauthorized
  | StoreConflict
  | StoreVersion int
  | InvalidReplay
  | RunMismatch
  | NoRun
  | DeliveryTimedOut
  | DeliveryFailed
  | StoreReset cursor_reset
  | LifecycleE lifecycle_error
  | MissingProjection
  | PolicyE policy_error
  | DatabaseE db_error
  | ApplicationE app_error
  | JsonE string

subsection \<open>Parameters\<close>

record codec =
  cx_aead :: aead
  cx_key :: string
  payload_write :: "json payload \<Rightarrow> string + string"
  payload_read :: "string \<Rightarrow> string + json payload"
  command_write :: "json append_command \<Rightarrow> string + string"
  submission_write :: "json submit_command \<Rightarrow> string + string"
  submission_read :: "string \<Rightarrow> string + json submit_command"
  context_size :: "json \<Rightarrow> string + nat"
  event_size :: "json public_event \<Rightarrow> string + nat"
  cx_read :: "json read_wire"
  restricted_size :: "json restricted_payload \<Rightarrow> string + nat"
  sha256 :: "string \<Rightarrow> string"
  uuid_ok :: "string \<Rightarrow> bool"
  hmac_key :: "string \<Rightarrow> string \<Rightarrow> string \<Rightarrow> string"
  rfc3339 :: "int \<Rightarrow> string"

definition codec_wire :: "codec \<Rightarrow> json wire" where
  "codec_wire x =
     \<lparr>command_size = (\<lambda>c. and_then (command_write x c) (\<lambda>s. Inr (length s))),
      payload_size = (\<lambda>p. and_then (payload_write x p) (\<lambda>s. Inr (length s)))\<rparr>"

record env =
  en_now :: "nat \<Rightarrow> int"
  en_nonce :: "nat \<Rightarrow> 96 word"
  en_uuid :: "nat \<Rightarrow> string"
  en_elapsed :: nat
  en_begin :: "db_error option"
  en_rollback :: "db_error option"
  en_commit :: "(db_error \<times> bool) option"

text \<open>\<open>ConversationStore\<close>: the authenticated actor, the resolved workspace and the scope flags.\<close>

record store =
  st_actor :: string
  st_workspace :: string
  st_lease :: "lease option"
  st_reconcile :: bool
  st_scope :: bool

definition new_store :: "string \<Rightarrow> string \<Rightarrow> store" where
  "new_store actor workspace = \<lparr>st_actor = actor, st_workspace = workspace, st_lease = None,
     st_reconcile = False, st_scope = False\<rparr>"

definition enc :: "codec \<Rightarrow> env \<Rightarrow> nat \<Rightarrow> string \<Rightarrow> store_error + string" where
  "enc x e i p = map_err ApplicationE (encrypt (cx_aead x) (en_nonce e i) p (cx_key x))"

definition dec :: "codec \<Rightarrow> string \<Rightarrow> store_error + string" where
  "dec x c = map_err ApplicationE (decrypt (cx_aead x) c (cx_key x))"

definition dec_payload :: "codec \<Rightarrow> string \<Rightarrow> store_error + json payload" where
  "dec_payload x c = and_then (dec x c) (\<lambda>s. map_err JsonE (payload_read x s))"

definition dec_submission :: "codec \<Rightarrow> string \<Rightarrow> store_error + json submit_command" where
  "dec_submission x c = and_then (dec x c) (\<lambda>s. map_err JsonE (submission_read x s))"

definition command_fingerprint :: "codec \<Rightarrow> json append_command \<Rightarrow> store_error + string" where
  "command_fingerprint x c = and_then (map_err JsonE (command_write x c)) (\<lambda>s. Inr (sha256 x s))"

definition now_millis :: "env \<Rightarrow> nat \<Rightarrow> int" where
  "now_millis e i = en_now e i div 1000"

text \<open>The elapsed time since the caller took its reference time; a 64-bit sum.\<close>

definition locked_now :: "env \<Rightarrow> int \<Rightarrow> store_error + int" where
  "locked_now e reference =
     and_then (ensure (in_i64 (int (en_elapsed e))) (LifecycleE InvalidLease)) (\<lambda>_.
     ok_or (checked_add_i64 reference (int (en_elapsed e))) (LifecycleE InvalidLease))"

subsection \<open>Statements\<close>

text \<open>\<open>fetch_one\<close>, and an \<open>INSERT\<close> under the table's keys.\<close>

definition fetch_one :: "'r option \<Rightarrow> store_error + 'r" where
  "fetch_one r = ok_or r (DatabaseE RowNotFound)"

definition insert_row :: "string \<Rightarrow> ('r \<Rightarrow> bool) \<Rightarrow> 'r \<Rightarrow> 'r list \<Rightarrow> store_error + 'r list" where
  "insert_row table clash r rs =
     (if list_ex clash rs then Inl (DatabaseE (UniqueViolation table)) else Inr (rs @ [r]))"

lemma insert_row_ok [simp, row_simps]:
  "insert_row t clash r rs = Inr rs' \<longleftrightarrow> rs' = rs @ [r] \<and> (\<forall>q \<in> set rs. \<not> clash q)"
  by (auto simp: insert_row_def list_ex_iff)

definition insert_run :: "run_row \<Rightarrow> database \<Rightarrow> store_error + database" where
  "insert_run r db =
     and_then (insert_row ''conversation_runs'' (\<lambda>q. rn_id q = rn_id r) r (runs db)) (\<lambda>rs.
     Inr (db\<lparr>runs := rs\<rparr>))"

definition insert_event :: "event_row \<Rightarrow> database \<Rightarrow> store_error + database" where
  "insert_event r db =
     and_then (insert_row ''conversation_events'' (\<lambda>q. ev_id q = ev_id r
       \<or> ev_session q = ev_session r \<and> (ev_sequence q = ev_sequence r \<or> ev_key q = ev_key r)) r (events db)) (\<lambda>rs.
     Inr (db\<lparr>events := rs\<rparr>))"

definition insert_alias :: "alias_row \<Rightarrow> database \<Rightarrow> store_error + database" where
  "insert_alias r db =
     and_then (insert_row ''conversation_event_aliases'' (\<lambda>q. al_alias q = al_alias r
       \<or> al_session q = al_session r \<and> al_key q = al_key r) r (aliases db)) (\<lambda>rs.
     Inr (db\<lparr>aliases := rs\<rparr>))"

definition insert_detail :: "detail_row \<Rightarrow> database \<Rightarrow> store_error + database" where
  "insert_detail r db =
     and_then (insert_row ''conversation_event_details'' (\<lambda>q. dt_id q = dt_id r) r (details db)) (\<lambda>rs.
     Inr (db\<lparr>details := rs\<rparr>))"

definition insert_read_row :: "read_row \<Rightarrow> database \<Rightarrow> store_error + database" where
  "insert_read_row r db =
     and_then (insert_row ''conversation_read_projection'' (\<lambda>q. rd_event q = rd_event r
       \<or> rd_session q = rd_session r \<and> rd_sequence q = rd_sequence r
       \<or> rd_detail_id r \<noteq> None \<and> rd_detail_id q = rd_detail_id r) r (read_rows db)) (\<lambda>rs.
     Inr (db\<lparr>read_rows := rs\<rparr>))"

definition insert_tool_receipt :: "tool_receipt_row \<Rightarrow> database \<Rightarrow> store_error + database" where
  "insert_tool_receipt r db =
     and_then (insert_row ''conversation_tool_receipts'' (\<lambda>q. tr_session q = tr_session r
       \<and> tr_run q = tr_run r \<and> tr_tool q = tr_tool r) r (tool_receipts db)) (\<lambda>rs.
     Inr (db\<lparr>tool_receipts := rs\<rparr>))"

definition insert_usage_receipt :: "usage_receipt_row \<Rightarrow> database \<Rightarrow> store_error + database" where
  "insert_usage_receipt r db =
     and_then (insert_row ''conversation_usage_receipts'' (\<lambda>q. ur_session q = ur_session r
       \<and> ur_run q = ur_run r \<and> ur_model q = ur_model r) r (usage_receipts db)) (\<lambda>rs.
     Inr (db\<lparr>usage_receipts := rs\<rparr>))"

definition insert_message :: "message_row \<Rightarrow> database \<Rightarrow> store_error + database" where
  "insert_message r db =
     and_then (insert_row ''chat_messages'' (\<lambda>q. ms_id q = ms_id r) r (messages db)) (\<lambda>rs.
     Inr (db\<lparr>messages := rs\<rparr>))"

lemmas insert_defs = insert_run_def insert_event_def insert_alias_def insert_detail_def
  insert_read_row_def insert_tool_receipt_def insert_usage_receipt_def insert_message_def

text \<open>An \<open>UPDATE\<close> that must affect exactly one message.\<close>

definition update_message :: "(message_row \<Rightarrow> bool) \<Rightarrow> (message_row \<Rightarrow> message_row) \<Rightarrow> database
    \<Rightarrow> store_error + database" where
  "update_message p f db =
     (if count_where p (messages db) \<noteq> 1 then Inl MissingProjection
      else Inr (db\<lparr>messages := update_where p f (messages db)\<rparr>))"

definition find_session :: "database \<Rightarrow> string \<Rightarrow> session_row option" where
  "find_session db s = find (\<lambda>r. ss_id r = s) (sessions db)"

definition find_event :: "database \<Rightarrow> string \<Rightarrow> event_row option" where
  "find_event db i = find (\<lambda>r. ev_id r = i) (events db)"

subsection \<open>Transactions\<close>

text \<open>
  A failed body is rolled back. A commit may fail with or without having been applied: the caller
  sees the error in both cases.
\<close>

definition transact :: "env \<Rightarrow> (database \<Rightarrow> store_error + 'a \<times> database) \<Rightarrow> database
    \<Rightarrow> (store_error + 'a) \<times> database" where
  "transact e body db =
     (case en_begin e of
        Some err \<Rightarrow> (Inl (DatabaseE err), db)
      | None \<Rightarrow>
          (case body db of
             Inl err \<Rightarrow> (case en_rollback e of
                 Some f \<Rightarrow> (Inl (DatabaseE f), db) | None \<Rightarrow> (Inl err, db))
           | Inr (v, db') \<Rightarrow> (case en_commit e of
                 None \<Rightarrow> (Inr v, db')
               | Some (err, kept) \<Rightarrow> (Inl (DatabaseE err), if kept then db' else db))))"

lemma transact_Inr:
  "transact e body db = (Inr v, db') \<longleftrightarrow> en_begin e = None \<and> en_commit e = None \<and> body db = Inr (v, db')"
  by (auto simp: transact_def split: option.splits sum.splits)

lemma transact_Inl:
  "transact e body db = (Inl err, db') \<Longrightarrow> db' = db \<or> (\<exists>v. body db = Inr (v, db'))"
  by (auto simp: transact_def split: option.splits sum.splits if_splits)

text \<open>Whatever the transaction reports, the database is as before or as the body left it.\<close>

lemma transact_cases:
  "snd (transact e body db) = db \<or> (\<exists>v. body db = Inr (v, snd (transact e body db)))"
  by (auto simp: transact_def split: option.splits sum.splits)

lemma transact_preserves:
  assumes "P db" and "\<And>v db'. body db = Inr (v, db') \<Longrightarrow> P db'"
  shows "P (snd (transact e body db))"
  using transact_cases [of e body db] assms by metis

subsection \<open>Authorization\<close>

definition active_member :: "database \<Rightarrow> string \<Rightarrow> string \<Rightarrow> bool" where
  "active_member db workspace user =
     list_ex (\<lambda>m. wu_workspace m = workspace \<and> wu_user m = user \<and> wu_active m
       \<and> list_ex (\<lambda>u. us_id u = wu_user m \<and> us_active u) (users db)) (members db)"

definition session_shared :: "session_row \<Rightarrow> bool" where
  "session_shared s = (ss_shared s = Some True)"

definition authorize :: "store \<Rightarrow> string \<Rightarrow> bool \<Rightarrow> database \<Rightarrow> store_error + session_row" where
  "authorize st session write db =
     and_then (ok_or (find (\<lambda>s. ss_id s = session \<and> ss_workspace s = st_workspace st) (sessions db))
       StoreUnauthorized) (\<lambda>s.
     if \<not> st_reconcile st
        \<and> (\<not> active_member db (st_workspace st) (st_actor st)
           \<or> ss_user s \<noteq> st_actor st \<and> (\<not> session_shared s \<or> (write \<and> \<not> st_scope st)))
     then Inl StoreUnauthorized else Inr s)"

text \<open>The access rule in words: an active member of the workspace who owns the session, or to
  whom it is shared and who only reads (or acts within a run's lifecycle).\<close>

definition may_access :: "store \<Rightarrow> session_row \<Rightarrow> bool \<Rightarrow> database \<Rightarrow> bool" where
  "may_access st s write db \<longleftrightarrow> st_reconcile st
     \<or> active_member db (st_workspace st) (st_actor st)
       \<and> (ss_user s = st_actor st \<or> session_shared s \<and> (write \<longrightarrow> st_scope st))"

lemma authorize_ok:
  "authorize st session write db = Inr s \<longleftrightarrow>
     find (\<lambda>s. ss_id s = session \<and> ss_workspace s = st_workspace st) (sessions db) = Some s
   \<and> may_access st s write db"
  by (auto simp: authorize_def may_access_def and_then_eq_Inr)

lemma authorize_error: "authorize st session write db = Inl e \<Longrightarrow> e = StoreUnauthorized"
  by (auto simp: authorize_def and_then_eq_Inl ok_or_def split: option.splits if_splits)

lemma authorize_session:
  assumes "authorize st session write db = Inr s"
  shows "s \<in> set (sessions db)" "ss_id s = session" "ss_workspace s = st_workspace st"
  using assms by (auto simp: authorize_ok dest: find_SomeD)

end
