(* ===== verification/Journal_Store.thy ===== *)
theory Journal_Store
  imports Journal_Tables
begin

text \<open>
  The atomic journal of \<open>crates/kyomi-auth/src/conversation_events.rs\<close>: \<open>persist_append\<close> (the
  macro every writer uses), \<open>append\<close>, \<open>replay\<close>, \<open>detail\<close>, \<open>tool_outcome\<close> and \<open>restricted\<close>.
  \<open>persist_append\<close> is cut into the lookups of an earlier commit and the writes of a new event; the
  number \<open>b\<close> is the base of the environment's draws (a loop that appends several events passes a
  different base each time).
\<close>

subsection \<open>Loading a run\<close>

text \<open>Decoding the nullable columns of a run as the non-null fields of \<open>RunRow\<close>.\<close>

record loaded_run =
  lr_state :: string
  lr_assistant :: string
  lr_submission :: string
  lr_fence :: int
  lr_lease_owner :: "string option"
  lr_lease_expires :: "int option"
  lr_cancel :: bool
  lr_queued_at :: int
  lr_started_at :: "int option"
  lr_terminal_at :: "int option"

definition decode_column :: "string \<Rightarrow> 'c option \<Rightarrow> store_error + 'c" where
  "decode_column name v = ok_or v (DatabaseE (ColumnDecode name))"

definition load_run :: "store \<Rightarrow> string \<Rightarrow> string \<Rightarrow> database \<Rightarrow> store_error + loaded_run" where
  "load_run st session run db =
     and_then (ok_or (find (\<lambda>r. rn_session r = session \<and> rn_id r = run \<and> rn_request r \<noteq> None
         \<and> rn_actor r = Some (st_actor st) \<and> rn_workspace r = Some (st_workspace st)) (runs db))
       (PolicyE InvalidSubmission)) (\<lambda>r.
     and_then (decode_column ''assistant_message_id'' (rn_assistant_message r)) (\<lambda>a.
     and_then (decode_column ''encrypted_submission'' (rn_submission r)) (\<lambda>s.
     and_then (decode_column ''queued_at'' (rn_queued_at r)) (\<lambda>q.
     Inr \<lparr>lr_state = rn_state r, lr_assistant = a, lr_submission = s, lr_fence = rn_fence r,
          lr_lease_owner = rn_lease_owner r, lr_lease_expires = rn_lease_expires r,
          lr_cancel = rn_cancel r, lr_queued_at = q, lr_started_at = rn_started_at r,
          lr_terminal_at = rn_terminal_at r\<rparr>))))"

definition lr_snapshot :: "loaded_run \<Rightarrow> store_error + run_snapshot" where
  "lr_snapshot r =
     and_then (map_err PolicyE (run_state_from_str (lr_state r))) (\<lambda>s.
     Inr \<lparr>rs_state = s,
          rs_lease = (case (lr_lease_owner r, lr_lease_expires r) of
              (Some ow, Some ex) \<Rightarrow> Some \<lparr>l_owner = ow, l_fence = lr_fence r, l_expires_at = ex\<rparr>
            | _ \<Rightarrow> None),
          cancellation_requested = lr_cancel r, rs_assistant = lr_assistant r,
          rs_fence = lr_fence r, queued_at = lr_queued_at r, started_at = lr_started_at r,
          terminal_at = lr_terminal_at r\<rparr>)"

subsection \<open>An earlier commit of the same command\<close>

definition alias_matches :: "database \<Rightarrow> json append_command \<Rightarrow> alias_row \<Rightarrow> bool" where
  "alias_matches db c a \<longleftrightarrow> al_session a = c_conversation c
     \<and> (al_key a = c_key c \<or> al_alias a = c_event c) \<and> find_event db (al_event a) \<noteq> None"

definition find_alias :: "database \<Rightarrow> json append_command \<Rightarrow> (alias_row \<times> event_row) option" where
  "find_alias db c =
     (case find (alias_matches db c) (aliases db) of
        None \<Rightarrow> None
      | Some a \<Rightarrow> map_option (\<lambda>e. (a, e)) (find_event db (al_event a)))"

definition duplicate_of :: "event_row \<Rightarrow> commit_receipt" where
  "duplicate_of e = \<lparr>r_event = ev_id e, r_sequence = ev_sequence e, r_duplicate = True\<rparr>"

definition existing_receipt :: "codec \<Rightarrow> json append_command \<Rightarrow> string \<Rightarrow> database
    \<Rightarrow> store_error + commit_receipt option" where
  "existing_receipt x c fp db =
     (case find_alias db c of
        None \<Rightarrow> Inr None
      | Some (a, e) \<Rightarrow>
          and_then (dec x (al_command a)) (\<lambda>saved.
          and_then (ensure (saved = fp) StoreConflict) (\<lambda>_.
          Inr (Some (duplicate_of e)))))"

text \<open>The usage and tool receipts: a second producer of the same call finds the first event.\<close>

fun receipt_event_id :: "database \<Rightarrow> string \<Rightarrow> string \<Rightarrow> json payload \<Rightarrow> string option" where
  "receipt_event_id db session run (Public (PUsage m _ _)) =
     map_option ur_event (find (\<lambda>r. ur_session r = session \<and> ur_run r = run \<and> ur_model r = m) (usage_receipts db))"
| "receipt_event_id db session run (Public (PToolResult t _ _)) =
     map_option tr_event (find (\<lambda>r. tr_session r = session \<and> tr_run r = run \<and> tr_tool r = t) (tool_receipts db))"
| "receipt_event_id db session run (Public (PToolOutcome t _ _ _)) =
     map_option tr_event (find (\<lambda>r. tr_session r = session \<and> tr_run r = run \<and> tr_tool r = t) (tool_receipts db))"
| "receipt_event_id db session run _ = None"

definition saved_detail :: "codec \<Rightarrow> string \<Rightarrow> json payload \<Rightarrow> database \<Rightarrow> store_error + string option" where
  "saved_detail x session p db =
     (case text_detail p of
        None \<Rightarrow> Inr None
      | Some i \<Rightarrow>
          and_then (fetch_one (find (\<lambda>d. dt_session d = session \<and> dt_id d = i) (details db))) (\<lambda>d.
          and_then (dec x (dt_content d)) (\<lambda>s. Inr (Some s))))"

definition repeated_receipt :: "codec \<Rightarrow> env \<Rightarrow> nat \<Rightarrow> json append_command \<Rightarrow> string \<Rightarrow> database
    \<Rightarrow> store_error + (commit_receipt \<times> database) option" where
  "repeated_receipt x e b c fp db =
     (case Option.bind (receipt_event_id db (c_conversation c) (c_run c) (c_payload c)) (find_event db) of
        None \<Rightarrow> Inr None
      | Some ev \<Rightarrow>
          and_then (dec_payload x (ev_payload ev)) (\<lambda>saved.
          and_then (saved_detail x (c_conversation c) saved db) (\<lambda>d.
          and_then (ensure (saved = c_payload c \<and> d = c_detail c) StoreConflict) (\<lambda>_.
          and_then (enc x e b fp) (\<lambda>ct.
          and_then (insert_alias \<lparr>al_session = c_conversation c, al_key = c_key c,
              al_alias = c_event c, al_event = ev_id ev, al_command = ct\<rparr> db) (\<lambda>db'.
          Inr (Some (duplicate_of ev, db'))))))))"

subsection \<open>Writing a new event\<close>

definition lifecycle_owned :: "database \<Rightarrow> string \<Rightarrow> string \<Rightarrow> bool" where
  "lifecycle_owned db session run =
     (case find (\<lambda>r. rn_session r = session \<and> rn_id r = run) (runs db) of
        None \<Rightarrow> False | Some r \<Rightarrow> rn_request r \<noteq> None)"

definition check_fence :: "env \<Rightarrow> nat \<Rightarrow> store \<Rightarrow> bool \<Rightarrow> json append_command \<Rightarrow> database \<Rightarrow> store_error + unit" where
  "check_fence e b st fenced c db =
     (if fenced \<and> lifecycle_owned db (c_conversation c) (c_run c)
      then and_then (load_run st (c_conversation c) (c_run c) db) (\<lambda>r.
        and_then (ok_or (st_lease st) (LifecycleE StaleLease)) (\<lambda>l.
        and_then (lr_snapshot r) (\<lambda>s.
        map_err LifecycleE (validate_ownership s l (now_millis e b)))))
      else Inr ())"

definition current_state :: "database \<Rightarrow> string \<Rightarrow> string \<Rightarrow> store_error + run_state option" where
  "current_state db session run =
     (case find (\<lambda>r. rn_session r = session \<and> rn_id r = run) (runs db) of
        None \<Rightarrow> Inr None
      | Some r \<Rightarrow> and_then (map_err PolicyE (run_state_from_str (rn_state r))) (\<lambda>s. Inr (Some s)))"

definition fresh_run :: "string \<Rightarrow> string \<Rightarrow> run_state \<Rightarrow> run_row" where
  "fresh_run run session s = \<lparr>rn_id = run, rn_session = session, rn_state = run_state_as_str s,
     rn_request = None, rn_actor = None, rn_workspace = None, rn_user_message = None,
     rn_assistant_message = None, rn_submission = None, rn_fence = 0, rn_lease_owner = None,
     rn_lease_expires = None, rn_cancel = False, rn_queued_at = None, rn_started_at = None,
     rn_terminal_at = None\<rparr>"

definition active_clash :: "run_row list \<Rightarrow> bool" where
  "active_clash rs \<longleftrightarrow> \<not> distinct (map rn_session (filter (\<lambda>r. rn_state r = ''running'' \<and> rn_request r \<noteq> None) rs))"

definition write_state :: "string \<Rightarrow> string \<Rightarrow> run_state option \<Rightarrow> run_state \<Rightarrow> database \<Rightarrow> store_error + database" where
  "write_state session run current nxt db =
     (case current of
        None \<Rightarrow> insert_run (fresh_run run session nxt) db
      | Some _ \<Rightarrow>
          (let rs = update_where (\<lambda>r. rn_session r = session \<and> rn_id r = run)
                (\<lambda>r. r\<lparr>rn_state := run_state_as_str nxt\<rparr>) (runs db)
           in if active_clash rs then Inl (DatabaseE (UniqueViolation ''conversation_runs_active''))
              else Inr (db\<lparr>runs := rs\<rparr>)))"

definition write_event :: "codec \<Rightarrow> env \<Rightarrow> nat \<Rightarrow> json append_command \<Rightarrow> string \<Rightarrow> int \<Rightarrow> database
    \<Rightarrow> store_error + database" where
  "write_event x e b c fp sq db =
     and_then (map_err JsonE (payload_write x (c_payload c))) (\<lambda>p.
     and_then (enc x e (b + 1) p) (\<lambda>cp.
     and_then (enc x e (b + 2) fp) (\<lambda>cc.
     and_then (insert_event \<lparr>ev_id = c_event c, ev_session = c_conversation c, ev_run = c_run c,
        ev_sequence = sq, ev_version = int (unat (c_version c)), ev_key = c_key c,
        ev_public = is_public (c_payload c), ev_payload = cp, ev_command = cc\<rparr> db) (\<lambda>db1.
     and_then (enc x e (b + 3) fp) (\<lambda>ca.
     insert_alias \<lparr>al_session = c_conversation c, al_key = c_key c, al_alias = c_event c,
        al_event = c_event c, al_command = ca\<rparr> db1)))))"

definition write_detail :: "codec \<Rightarrow> env \<Rightarrow> nat \<Rightarrow> json append_command \<Rightarrow> database \<Rightarrow> store_error + database" where
  "write_detail x e b c db =
     (case (c_payload c, c_detail c) of
        (Public p, Some body) \<Rightarrow>
          and_then (ok_or (text_detail (Public p)) (PolicyE InvalidDetail)) (\<lambda>i.
          and_then (enc x e (b + 4) body) (\<lambda>ct.
          insert_detail \<lparr>dt_id = i, dt_session = c_conversation c, dt_event = c_event c,
            dt_public = True, dt_content = ct\<rparr> db))
      | _ \<Rightarrow> Inr db)"

definition write_read_row :: "codec \<Rightarrow> env \<Rightarrow> nat \<Rightarrow> json append_command \<Rightarrow> int \<Rightarrow> database \<Rightarrow> store_error + database" where
  "write_read_row x e b c sq db =
     (if is_public (c_payload c)
      then and_then (case c_detail c of None \<Rightarrow> Inr None
             | Some body \<Rightarrow> and_then (enc x e (b + 5) body) (\<lambda>ct. Inr (Some ct))) (\<lambda>d.
        and_then (map_err JsonE (payload_write x (c_payload c))) (\<lambda>p.
        and_then (enc x e (b + 6) p) (\<lambda>cp.
        insert_read_row \<lparr>rd_event = c_event c, rd_session = c_conversation c, rd_run = c_run c,
          rd_sequence = sq, rd_version = int (unat (c_version c)), rd_payload = cp,
          rd_detail_id = text_detail (c_payload c), rd_detail = d\<rparr> db)))
      else Inr db)"

text \<open>\<open>projection_time\<close>: a message created now, but after every message of the session.\<close>

definition projection_time :: "env \<Rightarrow> nat \<Rightarrow> string \<Rightarrow> database \<Rightarrow> int" where
  "projection_time e b session db =
     (let times = map ms_created_at (filter (\<lambda>m. ms_session m = session) (messages db))
      in max (en_now e b) (if times = [] then en_now e (b + 1) else Max (set times) + 1))"

definition in_progress_answer :: "string \<Rightarrow> string \<Rightarrow> message_row \<Rightarrow> bool" where
  "in_progress_answer message session m \<longleftrightarrow> ms_id m = message \<and> ms_session m = session
     \<and> ms_role m = ''assistant'' \<and> ms_status m = ''in_progress''"

definition plain_message :: "string \<Rightarrow> string \<Rightarrow> string \<Rightarrow> string \<Rightarrow> string \<Rightarrow> int \<Rightarrow> message_row" where
  "plain_message i session role content st at = \<lparr>ms_id = i, ms_session = session, ms_role = role,
     ms_content = content, ms_status = st, ms_pinned = False, ms_created_at = at,
     ms_metadata = None, ms_time_tz = None, ms_sent_by = None, ms_source = None,
     ms_tool_call = None, ms_tool_name = None, ms_tool_calls = None\<rparr>"

definition write_projection :: "codec \<Rightarrow> env \<Rightarrow> nat \<Rightarrow> bool \<Rightarrow> string \<Rightarrow> projection option \<Rightarrow> database
    \<Rightarrow> store_error + database" where
  "write_projection x e b owned session pj db =
     (case pj of
        None \<Rightarrow> Inr db
      | Some j \<Rightarrow>
          and_then (enc x e (b + 7) (pj_content j)) (\<lambda>ct.
          if owned \<and> pj_role j = ''assistant''
          then update_message (in_progress_answer (pj_message j) session)
            (\<lambda>m. m\<lparr>ms_content := ct, ms_status := pj_status j,
               ms_created_at := projection_time e (b + 1) session db\<rparr>) db
          else insert_message (plain_message (pj_message j) session (pj_role j) ct (pj_status j)
            (en_now e (b + 3))) db))"

definition write_tool_receipt :: "string \<Rightarrow> string \<Rightarrow> string \<Rightarrow> (string \<times> bool) option \<Rightarrow> database
    \<Rightarrow> store_error + database" where
  "write_tool_receipt session run event r db =
     (case r of
        None \<Rightarrow> Inr db
      | Some (t, ok) \<Rightarrow> insert_tool_receipt \<lparr>tr_session = session, tr_run = run, tr_tool = t,
          tr_event = event, tr_succeeded = ok\<rparr> db)"

definition write_usage_receipt :: "string \<Rightarrow> string \<Rightarrow> string \<Rightarrow> string option \<Rightarrow> database
    \<Rightarrow> store_error + database" where
  "write_usage_receipt session run event r db =
     (case r of
        None \<Rightarrow> Inr db
      | Some m \<Rightarrow> insert_usage_receipt \<lparr>ur_session = session, ur_run = run, ur_model = m,
          ur_event = event\<rparr> db)"

definition write_sequence :: "env \<Rightarrow> nat \<Rightarrow> string \<Rightarrow> int \<Rightarrow> database \<Rightarrow> database" where
  "write_sequence e b session sq db =
     db\<lparr>sessions := update_where (\<lambda>s. ss_id s = session)
       (\<lambda>s. s\<lparr>ss_event_sequence := sq, ss_updated_at := en_now e (b + 4)\<rparr>) (sessions db)\<rparr>"

definition append_fresh :: "codec \<Rightarrow> env \<Rightarrow> nat \<Rightarrow> store \<Rightarrow> bool \<Rightarrow> json append_command \<Rightarrow> string
    \<Rightarrow> session_row \<Rightarrow> database \<Rightarrow> store_error + commit_receipt \<times> database" where
  "append_fresh x e b st fenced c fp access db =
     (let session = c_conversation c; owned = lifecycle_owned db session (c_run c) in
     and_then (check_fence e b st fenced c db) (\<lambda>_.
     and_then (current_state db session (c_run c)) (\<lambda>current.
     and_then (map_err PolicyE (plan (codec_wire x) c current)) (\<lambda>p.
     and_then (ok_or (checked_add_i64 (ss_event_sequence access) 1) (PolicyE TooLarge)) (\<lambda>sq.
     and_then (write_state session (c_run c) current (next_state p) db) (\<lambda>db1.
     and_then (write_event x e b c fp sq db1) (\<lambda>db2.
     and_then (write_detail x e b c db2) (\<lambda>db3.
     and_then (write_read_row x e b c sq db3) (\<lambda>db4.
     and_then (write_projection x e b owned session (plan_projection p) db4) (\<lambda>db5.
     and_then (write_tool_receipt session (c_run c) (c_event c) (tool_receipt p) db5) (\<lambda>db6.
     and_then (write_usage_receipt session (c_run c) (c_event c) (usage_key p) db6) (\<lambda>db7.
     Inr (\<lparr>r_event = c_event c, r_sequence = sq, r_duplicate = False\<rparr>,
          write_sequence e b session sq db7)))))))))))))"

definition persist_append :: "codec \<Rightarrow> env \<Rightarrow> nat \<Rightarrow> store \<Rightarrow> bool \<Rightarrow> json append_command \<Rightarrow> string
    \<Rightarrow> database \<Rightarrow> store_error + commit_receipt \<times> database" where
  "persist_append x e b st fenced c fp db =
     and_then (authorize st (c_conversation c) True db) (\<lambda>access.
     and_then (existing_receipt x c fp db) (\<lambda>found.
     case found of
       Some r \<Rightarrow> Inr (r, db)
     | None \<Rightarrow>
         and_then (repeated_receipt x e b c fp db) (\<lambda>repeated.
         case repeated of
           Some rdb \<Rightarrow> Inr rdb
         | None \<Rightarrow> append_fresh x e b st fenced c fp access db)))"

definition store_append :: "codec \<Rightarrow> env \<Rightarrow> store \<Rightarrow> json append_command \<Rightarrow> database
    \<Rightarrow> (store_error + commit_receipt) \<times> database" where
  "store_append x e st c db =
     (case and_then (map_err PolicyE (validate (codec_wire x) c)) (\<lambda>_. command_fingerprint x c) of
        Inl err \<Rightarrow> (Inl err, db)
      | Inr fp \<Rightarrow> transact e (persist_append x e 0 st True c fp) db)"

subsection \<open>What each write touches\<close>

text \<open>The part of the database the journal's invariants speak about.\<close>

definition journal_core :: "database \<Rightarrow> session_row list \<times> event_row list \<times> alias_row list" where
  "journal_core db = (sessions db, events db, aliases db)"

lemma core_eq: "journal_core db' = journal_core db \<longleftrightarrow>
    sessions db' = sessions db \<and> events db' = events db \<and> aliases db' = aliases db"
  by (simp add: journal_core_def)

lemma write_state_core: "write_state s r cur n db = Inr db' \<Longrightarrow> journal_core db' = journal_core db"
  by (auto simp: write_state_def insert_run_def and_then_eq_Inr core_eq Let_def split: option.splits if_splits)

lemma write_detail_core: "write_detail x e b c db = Inr db' \<Longrightarrow> journal_core db' = journal_core db"
  by (auto simp: write_detail_def insert_detail_def and_then_eq_Inr core_eq split: payload.splits option.splits)

lemma write_read_row_core: "write_read_row x e b c sq db = Inr db' \<Longrightarrow> journal_core db' = journal_core db"
  by (auto simp: write_read_row_def insert_read_row_def and_then_eq_Inr core_eq split: if_splits)

lemma update_message_core: "update_message p f db = Inr db' \<Longrightarrow> journal_core db' = journal_core db"
  by (auto simp: update_message_def core_eq split: if_splits)

lemma write_projection_core: "write_projection x e b ow s pj db = Inr db' \<Longrightarrow> journal_core db' = journal_core db"
  by (auto simp: write_projection_def insert_message_def and_then_eq_Inr core_eq update_message_def
      split: option.splits if_splits)

lemma write_tool_receipt_core: "write_tool_receipt s r v t db = Inr db' \<Longrightarrow> journal_core db' = journal_core db"
  by (auto simp: write_tool_receipt_def insert_tool_receipt_def and_then_eq_Inr core_eq split: option.splits)

lemma write_usage_receipt_core: "write_usage_receipt s r v t db = Inr db' \<Longrightarrow> journal_core db' = journal_core db"
  by (auto simp: write_usage_receipt_def insert_usage_receipt_def and_then_eq_Inr core_eq split: option.splits)

lemmas write_core = write_state_core write_detail_core write_read_row_core write_projection_core
  write_tool_receipt_core write_usage_receipt_core

lemma write_event_ok:
  assumes "write_event x e b c fp sq db = Inr db'"
  shows "\<exists>ev al. events db' = events db @ [ev] \<and> aliases db' = aliases db @ [al] \<and> sessions db' = sessions db
    \<and> ev_id ev = c_event c \<and> ev_session ev = c_conversation c \<and> ev_run ev = c_run c \<and> ev_sequence ev = sq
    \<and> ev_key ev = c_key c \<and> ev_public ev = is_public (c_payload c) \<and> ev_version ev = int (unat (c_version c))
    \<and> (\<exists>p. payload_write x (c_payload c) = Inr p \<and> enc x e (b + 1) p = Inr (ev_payload ev))
    \<and> al_session al = c_conversation c \<and> al_key al = c_key c \<and> al_alias al = c_event c
    \<and> al_event al = c_event c \<and> enc x e (b + 3) fp = Inr (al_command al)
    \<and> find_event db (c_event c) = None"
  using assms
  by (auto simp: write_event_def insert_event_def insert_alias_def and_then_eq_Inr find_event_def
      find_None_iff_ball)

lemma append_fresh_ok:
  assumes "append_fresh x e b st fenced c fp access db = Inr (r, db')"
  shows "\<exists>ev al cur p. events db' = events db @ [ev] \<and> aliases db' = aliases db @ [al]
    \<and> ev_id ev = c_event c \<and> ev_session ev = c_conversation c \<and> ev_run ev = c_run c
    \<and> ev_sequence ev = ss_event_sequence access + 1
    \<and> ev_key ev = c_key c \<and> ev_public ev = is_public (c_payload c) \<and> ev_version ev = int (unat (c_version c))
    \<and> (\<exists>w. payload_write x (c_payload c) = Inr w \<and> enc x e (b + 1) w = Inr (ev_payload ev))
    \<and> al_session al = c_conversation c \<and> al_key al = c_key c \<and> al_alias al = c_event c
    \<and> al_event al = c_event c \<and> enc x e (b + 3) fp = Inr (al_command al)
    \<and> find_event db (c_event c) = None
    \<and> current_state db (c_conversation c) (c_run c) = Inr cur \<and> plan (codec_wire x) c cur = Inr p
    \<and> in_i64 (ss_event_sequence access + 1)
    \<and> sessions db' = update_where (\<lambda>s. ss_id s = c_conversation c)
        (\<lambda>s. s\<lparr>ss_event_sequence := ss_event_sequence access + 1, ss_updated_at := en_now e (b + 4)\<rparr>) (sessions db)
    \<and> r = \<lparr>r_event = c_event c, r_sequence = ss_event_sequence access + 1, r_duplicate = False\<rparr>"
proof -
  from assms obtain cur p db1 db2 db3 db4 db5 db6 db7 where steps:
      "current_state db (c_conversation c) (c_run c) = Inr cur" "plan (codec_wire x) c cur = Inr p"
      "in_i64 (ss_event_sequence access + 1)"
      "write_state (c_conversation c) (c_run c) cur (next_state p) db = Inr db1"
      "write_event x e b c fp (ss_event_sequence access + 1) db1 = Inr db2"
      "write_detail x e b c db2 = Inr db3"
      "write_read_row x e b c (ss_event_sequence access + 1) db3 = Inr db4"
      "write_projection x e b (lifecycle_owned db (c_conversation c) (c_run c)) (c_conversation c)
         (plan_projection p) db4 = Inr db5"
      "write_tool_receipt (c_conversation c) (c_run c) (c_event c) (tool_receipt p) db5 = Inr db6"
      "write_usage_receipt (c_conversation c) (c_run c) (c_event c) (usage_key p) db6 = Inr db7"
      "r = \<lparr>r_event = c_event c, r_sequence = ss_event_sequence access + 1, r_duplicate = False\<rparr>"
      "db' = write_sequence e b (c_conversation c) (ss_event_sequence access + 1) db7"
    by (auto simp: append_fresh_def and_then_eq_Inr Let_def)
  from write_event_ok [OF steps(5)] obtain ev al where ev: "events db2 = events db1 @ [ev]"
      "aliases db2 = aliases db1 @ [al]" "sessions db2 = sessions db1"
      "ev_id ev = c_event c" "ev_session ev = c_conversation c" "ev_run ev = c_run c"
      "ev_sequence ev = ss_event_sequence access + 1" "ev_key ev = c_key c"
      "ev_public ev = is_public (c_payload c)" "ev_version ev = int (unat (c_version c))"
      "\<exists>w. payload_write x (c_payload c) = Inr w \<and> enc x e (b + 1) w = Inr (ev_payload ev)"
      "al_session al = c_conversation c" "al_key al = c_key c" "al_alias al = c_event c"
      "al_event al = c_event c" "enc x e (b + 3) fp = Inr (al_command al)"
      "find_event db1 (c_event c) = None" by blast
  from write_core(1) [OF steps(4)] write_core(2) [OF steps(6)] write_core(3) [OF steps(7)]
    write_core(4) [OF steps(8)] write_core(5) [OF steps(9)] write_core(6) [OF steps(10)]
  have core: "sessions db1 = sessions db" "events db1 = events db" "aliases db1 = aliases db"
      "sessions db7 = sessions db2" "events db7 = events db2" "aliases db7 = aliases db2"
    by (simp_all add: core_eq)
  have "events db' = events db @ [ev] \<and> aliases db' = aliases db @ [al]
    \<and> sessions db' = update_where (\<lambda>s. ss_id s = c_conversation c)
        (\<lambda>s. s\<lparr>ss_event_sequence := ss_event_sequence access + 1, ss_updated_at := en_now e (b + 4)\<rparr>) (sessions db)"
    using core ev(1-3) steps(12) by (simp add: write_sequence_def)
  moreover have "find_event db (c_event c) = None" using ev(17) core by (simp add: find_event_def)
  ultimately show ?thesis using ev(4-16) steps(1-3,11) by blast
qed

subsection \<open>The journal's invariant\<close>

text \<open>
  Sessions are keyed by their identity; the sequences of a session's events are 1, 2, ... up to
  its counter; every alias leads to a stored event; every event belongs to a session.
\<close>

definition session_events :: "database \<Rightarrow> string \<Rightarrow> event_row list" where
  "session_events db s = filter (\<lambda>v. ev_session v = s) (events db)"

definition journal_inv :: "database \<Rightarrow> bool" where
  "journal_inv db \<longleftrightarrow> distinct (map ss_id (sessions db))
     \<and> (\<forall>s \<in> set (sessions db). 0 \<le> ss_event_sequence s
         \<and> map ev_sequence (session_events db (ss_id s)) = [1..ss_event_sequence s])
     \<and> (\<forall>a \<in> set (aliases db). find_event db (al_event a) \<noteq> None)
     \<and> ev_session ` set (events db) \<subseteq> ss_id ` set (sessions db)"

text \<open>Events and aliases are only added.\<close>

definition journal_grows :: "database \<Rightarrow> database \<Rightarrow> bool" where
  "journal_grows db db' \<longleftrightarrow> (\<exists>es as. events db' = events db @ es \<and> aliases db' = aliases db @ as)"

lemma journal_grows_refl [simp, intro]: "journal_grows db db"
  by (simp add: journal_grows_def)

lemma journal_grows_trans [trans]:
  "journal_grows a b \<Longrightarrow> journal_grows b c \<Longrightarrow> journal_grows a c"
  by (auto simp: journal_grows_def)

lemma core_grows: "journal_core db' = journal_core db \<Longrightarrow> journal_grows db db'"
  by (simp add: core_eq journal_grows_def)

lemma core_inv: "journal_core db' = journal_core db \<Longrightarrow> journal_inv db' = journal_inv db"
  by (simp add: core_eq journal_inv_def session_events_def find_event_def)

lemma grows_find_event: "journal_grows db db' \<Longrightarrow> find_event db i = Some v \<Longrightarrow> find_event db' i = Some v"
  by (auto simp: journal_grows_def find_event_def find_append)

lemma find_event_SomeD: "find_event db i = Some v \<Longrightarrow> v \<in> set (events db) \<and> ev_id v = i"
  by (auto simp: find_event_def dest: find_SomeD)

lemma insert_alias_eq: "insert_alias r db = Inr db' \<Longrightarrow> db' = db\<lparr>aliases := aliases db @ [r]\<rparr>"
  by (auto simp: insert_alias_def and_then_eq_Inr)

lemma repeated_receipt_ok:
  assumes "repeated_receipt x e b c fp db = Inr (Some (r, db'))"
  shows "\<exists>v ct. find_event db (ev_id v) = Some v \<and> r = duplicate_of v \<and> enc x e b fp = Inr ct
    \<and> db' = db\<lparr>aliases := aliases db @ [\<lparr>al_session = c_conversation c, al_key = c_key c,
        al_alias = c_event c, al_event = ev_id v, al_command = ct\<rparr>]\<rparr>
    \<and> dec_payload x (ev_payload v) = Inr (c_payload c)
    \<and> saved_detail x (c_conversation c) (c_payload c) db = Inr (c_detail c)"
proof -
  from assms obtain v where v: "Option.bind (receipt_event_id db (c_conversation c) (c_run c) (c_payload c)) (find_event db) = Some v"
    by (auto simp: repeated_receipt_def split: option.splits)
  then have "find_event db (ev_id v) = Some v"
    using find_event_SomeD by (fastforce simp: bind_eq_Some_conv)
  moreover have "dec_payload x (ev_payload v) = Inr (c_payload c)
      \<and> saved_detail x (c_conversation c) (c_payload c) db = Inr (c_detail c)
      \<and> (\<exists>ct. enc x e b fp = Inr ct \<and> insert_alias \<lparr>al_session = c_conversation c, al_key = c_key c,
        al_alias = c_event c, al_event = ev_id v, al_command = ct\<rparr> db = Inr db') \<and> r = duplicate_of v"
    using assms unfolding repeated_receipt_def v option.case
    apply (simp only: and_then_eq_Inr ensure_eq_Inr)
    apply (elim exE conjE)
    by (simp only: sum.inject option.inject prod.inject simp_thms)
  ultimately show ?thesis using insert_alias_eq by blast
qed

lemma persist_append_cases:
  assumes "persist_append x e b st fenced c fp db = Inr (r, db')"
  obtains (existing) s where "authorize st (c_conversation c) True db = Inr s"
      "existing_receipt x c fp db = Inr (Some r)" "db' = db"
  | (repeated) s where "authorize st (c_conversation c) True db = Inr s"
      "existing_receipt x c fp db = Inr None" "repeated_receipt x e b c fp db = Inr (Some (r, db'))"
  | (fresh) s where "authorize st (c_conversation c) True db = Inr s"
      "existing_receipt x c fp db = Inr None" "repeated_receipt x e b c fp db = Inr None"
      "append_fresh x e b st fenced c fp s db = Inr (r, db')"
proof -
  from assms obtain s found where s: "authorize st (c_conversation c) True db = Inr s"
      "existing_receipt x c fp db = Inr found"
    and rest: "(case found of Some r \<Rightarrow> Inr (r, db)
     | None \<Rightarrow> and_then (repeated_receipt x e b c fp db) (\<lambda>repeated.
         case repeated of Some rdb \<Rightarrow> Inr rdb
         | None \<Rightarrow> append_fresh x e b st fenced c fp s db)) = Inr (r, db')"
    unfolding persist_append_def and_then_eq_Inr by (elim exE conjE)
  show thesis
  proof (cases found)
    case None
    with rest obtain rep where rep: "repeated_receipt x e b c fp db = Inr rep"
        "(case rep of Some rdb \<Rightarrow> Inr rdb | None \<Rightarrow> append_fresh x e b st fenced c fp s db) = Inr (r, db')"
      by (auto simp only: option.case and_then_eq_Inr)
    show thesis
    proof (cases rep)
      case (Some rdb)
      with rep have "repeated_receipt x e b c fp db = Inr (Some (r, db'))" by simp
      with s None show thesis by (intro repeated) simp_all
    next
      case rn: None
      with rep s None show thesis by (intro fresh) simp_all
    qed
  next
    case (Some a)
    with rest have "a = r" "db' = db" by simp_all
    with s Some show thesis by (intro existing) simp_all
  qed
qed

lemma persist_append_grows:
  assumes "persist_append x e b st fenced c fp db = Inr (r, db')"
  shows "journal_grows db db'"
  using assms
proof (cases rule: persist_append_cases)
  case (repeated s)
  from repeated_receipt_ok [OF repeated(3)] show ?thesis by (auto simp: journal_grows_def)
next
  case (fresh s)
  from append_fresh_ok [OF fresh(4)] show ?thesis by (auto simp: journal_grows_def)
qed auto

lemma find_session_unique:
  "distinct (map ss_id ss) \<Longrightarrow> s \<in> set ss \<Longrightarrow> t \<in> set ss \<Longrightarrow> ss_id s = ss_id t \<Longrightarrow> s = t"
  by (metis distinct_map inj_onD)

lemma persist_append_inv:
  assumes app: "persist_append x e b st fenced c fp db = Inr (r, db')" and inv: "journal_inv db"
  shows "journal_inv db'"
  using app
proof (cases rule: persist_append_cases)
  case (existing s)
  with inv show ?thesis by simp
next
  case (repeated s)
  from repeated_receipt_ok [OF repeated(3)] inv show ?thesis
    by (elim exE conjE) (simp add: journal_inv_def session_events_def find_event_def)
next
  case (fresh s)
  from append_fresh_ok [OF fresh(4)] obtain v al where v: "events db' = events db @ [v]"
      "aliases db' = aliases db @ [al]" "ev_id v = c_event c" "ev_session v = c_conversation c"
      "ev_sequence v = ss_event_sequence s + 1" "al_event al = c_event c"
      "sessions db' = update_where (\<lambda>s. ss_id s = c_conversation c)
        (\<lambda>q. q\<lparr>ss_event_sequence := ss_event_sequence s + 1, ss_updated_at := en_now e (b + 4)\<rparr>) (sessions db)"
    by blast
  from authorize_session [OF fresh(1)] have s: "s \<in> set (sessions db)" "ss_id s = c_conversation c" by auto
  have ids: "map ss_id (sessions db') = map ss_id (sessions db)"
    unfolding v(7) by (rule map_update_where) simp
  have seqs: "0 \<le> ss_event_sequence t \<and> map ev_sequence (session_events db' (ss_id t)) = [1..ss_event_sequence t]"
    if "t \<in> set (sessions db')" for t
  proof -
    from that v(7) obtain q where q: "q \<in> set (sessions db)" "ss_id t = ss_id q"
        "ss_event_sequence t = (if ss_id q = c_conversation c then ss_event_sequence s + 1 else ss_event_sequence q)"
      unfolding v(7) set_update_where by (metis (no_types, lifting) session_row.select_convs(1,12) session_row.surjective session_row.update_convs(10,12))
    have old: "0 \<le> ss_event_sequence q \<and> map ev_sequence (session_events db (ss_id q)) = [1..ss_event_sequence q]"
      using inv q(1) by (simp add: journal_inv_def)
    show ?thesis
    proof (cases "ss_id q = c_conversation c")
      case True
      with find_session_unique [of "sessions db" q s] inv q(1) s have "q = s" by (simp add: journal_inv_def)
      with old q(2,3) v(1,4,5) True upto_rec2 [of 1 "ss_event_sequence s + 1"] show ?thesis
        by (simp add: session_events_def)
    next
      case False
      with old q v(1,4) show ?thesis by (simp add: session_events_def)
    qed
  qed
  have "find_event db' (al_event a) \<noteq> None" if "a \<in> set (aliases db')" for a
    using that v(1-3,6) inv
    by (auto simp: journal_inv_def find_event_def find_append split: option.splits)
  moreover have "ev_session ` set (events db') \<subseteq> ss_id ` set (sessions db')"
  proof -
    have "ss_id ` set (sessions db') = ss_id ` set (sessions db)"
      using arg_cong [OF ids, of set] by simp
    moreover have "c_conversation c \<in> ss_id ` set (sessions db)" using imageI [OF s(1), of ss_id] s(2) by simp
    ultimately show ?thesis using inv v(1,4) by (simp add: journal_inv_def image_subset_iff)
  qed
  ultimately show ?thesis using seqs ids inv by (simp add: journal_inv_def)
qed

subsection \<open>Acknowledged commands\<close>

definition acknowledged_by :: "codec \<Rightarrow> database \<Rightarrow> json append_command \<Rightarrow> (event_id \<times> int) option" where
  "acknowledged_by x db c =
     (case command_fingerprint x c of
        Inl _ \<Rightarrow> None
      | Inr fp \<Rightarrow> (case existing_receipt x c fp db of
            Inr (Some r) \<Rightarrow> Some (r_event r, r_sequence r) | _ \<Rightarrow> None))"

lemma alias_matches_grows:
  assumes "journal_inv db" "journal_grows db db'" "a \<in> set (aliases db)"
  shows "alias_matches db' c a = alias_matches db c a"
  using assms grows_find_event [OF assms(2), of "al_event a"]
  by (cases "find_event db (al_event a)") (auto simp: alias_matches_def journal_inv_def)

lemma find_cong: "(\<And>x. x \<in> set xs \<Longrightarrow> P x = Q x) \<Longrightarrow> find P xs = find Q xs"
  by (induction xs) auto

lemma find_alias_grows:
  assumes inv: "journal_inv db" and grow: "journal_grows db db'" and found: "find_alias db c = Some ae"
  shows "find_alias db' c = Some ae"
proof -
  from found obtain a v where a: "find (alias_matches db c) (aliases db) = Some a"
      "find_event db (al_event a) = Some v" "ae = (a, v)"
    by (auto simp: find_alias_def split: option.splits)
  from grow obtain as where as: "aliases db' = aliases db @ as" by (auto simp: journal_grows_def)
  have "find (alias_matches db' c) (aliases db) = Some a"
    using a(1) find_cong [of "aliases db" "alias_matches db' c" "alias_matches db c"]
      alias_matches_grows [OF inv grow] by simp
  with as grows_find_event [OF grow a(2)] a(3) show ?thesis by (simp add: find_alias_def find_append)
qed

lemma existing_receipt_grows:
  assumes "journal_inv db" "journal_grows db db'" "existing_receipt x c fp db = Inr (Some r)"
  shows "existing_receipt x c fp db' = Inr (Some r)"
  using assms(3) find_alias_grows [OF assms(1,2), of c]
  by (auto simp: existing_receipt_def split: option.splits prod.splits)

lemma acknowledged_grows:
  assumes "journal_inv db" "journal_grows db db'" "acknowledged_by x db c = Some k"
  shows "acknowledged_by x db' c = Some k"
  using assms(3) existing_receipt_grows [OF assms(1,2)]
  by (auto simp: acknowledged_by_def split: sum.splits option.splits)

text \<open>What the store relies on of its codec: the cipher opens what it sealed, and digests are text.\<close>

definition codec_ok :: "codec \<Rightarrow> bool" where
  "codec_ok x \<longleftrightarrow> aead_ok (cx_aead x) \<and> (\<forall>s. valid_utf8 (sha256 x s))
     \<and> (\<forall>p s. payload_write x p = Inr s \<longrightarrow> valid_utf8 s \<and> payload_read x s = Inr p)
     \<and> (\<forall>c s. submission_write x c = Inr s \<longrightarrow> valid_utf8 s \<and> submission_read x s = Inr c)"

lemma dec_enc: "codec_ok x \<Longrightarrow> valid_utf8 p \<Longrightarrow> enc x e i p = Inr c \<Longrightarrow> dec x c = Inr p"
  using decrypt_encrypt [of "cx_aead x" p "en_nonce e i" "cx_key x" c]
  by (auto simp: enc_def dec_def codec_ok_def)

lemma fingerprint_utf8: "codec_ok x \<Longrightarrow> command_fingerprint x c = Inr fp \<Longrightarrow> valid_utf8 fp"
  by (auto simp: command_fingerprint_def codec_ok_def and_then_eq_Inr)

text \<open>A new alias at the end of the table is what a lookup finds if nothing was found before.\<close>

lemma existing_receipt_new:
  assumes none: "existing_receipt x c fp db = Inr None" and inv: "journal_inv db"
    and grow: "journal_grows db db'" "aliases db' = aliases db @ [a]"
    and a: "al_session a = c_conversation c" "al_key a = c_key c" "find_event db' (al_event a) = Some v"
    and d: "dec x (al_command a) = Inr fp"
  shows "existing_receipt x c fp db' = Inr (Some (duplicate_of v))"
proof -
  from none have "find_alias db c = None"
    by (auto simp: existing_receipt_def and_then_eq_Inr split: option.splits prod.splits if_splits)
  then have "find (alias_matches db c) (aliases db) = None"
    by (auto simp: find_alias_def alias_matches_def split: option.splits dest!: find_SomeD)
  then have "find (alias_matches db' c) (aliases db) = None"
    using find_cong [of "aliases db" "alias_matches db' c" "alias_matches db c"]
      alias_matches_grows [OF inv grow(1)] by simp
  moreover have "alias_matches db' c a" using a by (simp add: alias_matches_def)
  ultimately have "find_alias db' c = Some (a, v)"
    using grow(2) a(3) by (simp add: find_alias_def find_append)
  with d show ?thesis by (simp add: existing_receipt_def)
qed

lemma persist_append_acknowledges:
  assumes app: "persist_append x e b st fenced c fp db = Inr (r, db')" and inv: "journal_inv db"
    and x: "codec_ok x" and fp: "valid_utf8 fp"
  shows "\<exists>r'. existing_receipt x c fp db' = Inr (Some r') \<and> r_event r' = r_event r \<and> r_sequence r' = r_sequence r"
  using app
proof (cases rule: persist_append_cases)
  case (repeated s)
  from repeated_receipt_ok [OF repeated(3)] obtain v ct where v: "find_event db (ev_id v) = Some v"
      "r = duplicate_of v" "enc x e b fp = Inr ct"
      "aliases db' = aliases db @ [\<lparr>al_session = c_conversation c, al_key = c_key c,
        al_alias = c_event c, al_event = ev_id v, al_command = ct\<rparr>]" by auto
  note grow = persist_append_grows [OF app]
  from existing_receipt_new [OF repeated(2) inv grow v(4), of v] grows_find_event [OF grow v(1)]
    dec_enc [OF x fp v(3)] v(2) show ?thesis by simp
next
  case (fresh s)
  note grow = persist_append_grows [OF app]
  from append_fresh_ok [OF fresh(4)] obtain v a where v: "events db' = events db @ [v]"
      "aliases db' = aliases db @ [a]" "ev_id v = c_event c" "ev_sequence v = ss_event_sequence s + 1"
      "al_session a = c_conversation c" "al_key a = c_key c" "al_event a = c_event c"
      "enc x e (b + 3) fp = Inr (al_command a)" "find_event db (c_event c) = None"
      "r = \<lparr>r_event = c_event c, r_sequence = ss_event_sequence s + 1, r_duplicate = False\<rparr>" by blast
  have "find_event db' (al_event a) = Some v"
    using v(1,3,7,9) by (simp add: find_event_def find_append)
  from existing_receipt_new [OF fresh(2) inv grow v(2,5,6) this dec_enc [OF x fp v(8)]] v(3,4,10)
  show ?thesis by (simp add: duplicate_of_def)
qed auto

subsection \<open>The store as a durable journal\<close>

text \<open>
  A process holds its codec (keys and encoders) and the database; a call comes with the
  environment it draws from and the principal it acts for.
\<close>

definition store_commit :: "env \<times> store \<Rightarrow> json append_command \<Rightarrow> codec \<times> database
    \<Rightarrow> (store_error + commit_receipt) \<times> codec \<times> database" where
  "store_commit v c s =
     (case store_append (fst s) (fst v) (snd v) c (snd s) of (r, db') \<Rightarrow> (r, fst s, db'))"

lemma store_commit_eq: "store_commit v c s = (fst (store_append (fst s) (fst v) (snd v) c (snd s)), fst s,
    snd (store_append (fst s) (fst v) (snd v) c (snd s)))"
  by (simp add: store_commit_def split_beta)

definition store_acknowledged :: "codec \<times> database \<Rightarrow> json append_command \<Rightarrow> (event_id \<times> int) option" where
  "store_acknowledged s c = acknowledged_by (fst s) (snd s) c"

definition store_inv :: "codec \<times> database \<Rightarrow> bool" where
  "store_inv s \<longleftrightarrow> codec_ok (fst s) \<and> journal_inv (snd s)"

lemma append_body:
  assumes "store_append x e st c db = (r, db')"
  shows "db' = db \<or> (\<exists>fp q. command_fingerprint x c = Inr fp \<and> persist_append x e 0 st True c fp db = Inr (q, db'))"
proof (cases "and_then (map_err PolicyE (validate (codec_wire x) c)) (\<lambda>_. command_fingerprint x c)")
  case (Inr fp)
  then have "command_fingerprint x c = Inr fp" by (auto simp: and_then_eq_Inr)
  moreover from assms Inr have "transact e (persist_append x e 0 st True c fp) db = (r, db')"
    by (simp add: store_append_def)
  ultimately show ?thesis using transact_cases [of e "persist_append x e 0 st True c fp" db] by auto
qed (use assms in \<open>auto simp: store_append_def\<close>)

lemma append_ok:
  assumes "store_append x e st c db = (Inr r, db')"
  obtains fp where "command_fingerprint x c = Inr fp" "validate (codec_wire x) c = Inr ()"
    "persist_append x e 0 st True c fp db = Inr (r, db')"
proof (cases "and_then (map_err PolicyE (validate (codec_wire x) c)) (\<lambda>_. command_fingerprint x c)")
  case (Inr fp)
  with assms have "transact e (persist_append x e 0 st True c fp) db = (Inr r, db')"
    by (simp add: store_append_def)
  with Inr that show thesis by (auto simp: and_then_eq_Inr transact_Inr)
qed (use assms in \<open>auto simp: store_append_def\<close>)

lemma append_grows: "store_append x e st c db = (r, db') \<Longrightarrow> journal_grows db db'"
  using append_body persist_append_grows by fastforce

lemma append_inv: "store_append x e st c db = (r, db') \<Longrightarrow> journal_inv db \<Longrightarrow> journal_inv db'"
  using append_body persist_append_inv by fastforce

lemma append_acknowledges:
  assumes "store_append x e st c db = (Inr r, db')" "journal_inv db" "codec_ok x"
  shows "acknowledged_by x db' c = Some (r_event r, r_sequence r)"
proof -
  from assms(1) obtain fp where fp: "command_fingerprint x c = Inr fp"
      "persist_append x e 0 st True c fp db = Inr (r, db')" by (rule append_ok)
  from persist_append_acknowledges [OF fp(2) assms(2,3) fingerprint_utf8 [OF assms(3) fp(1)]] fp(1)
  show ?thesis by (auto simp: acknowledged_by_def)
qed

lemma existing_duplicate: "existing_receipt x c fp db = Inr (Some r) \<Longrightarrow> r_duplicate r"
  by (auto simp: existing_receipt_def and_then_eq_Inr duplicate_of_def split: option.splits prod.splits)

lemma acknowledged_existing:
  assumes "acknowledged_by x db c = Some (v, q)"
  obtains fp r where "command_fingerprint x c = Inr fp" "existing_receipt x c fp db = Inr (Some r)"
    "r = \<lparr>r_event = v, r_sequence = q, r_duplicate = True\<rparr>"
proof -
  from assms obtain fp r where r: "command_fingerprint x c = Inr fp"
      "existing_receipt x c fp db = Inr (Some r)" "r_event r = v" "r_sequence r = q"
    by (auto simp: acknowledged_by_def split: sum.splits option.splits)
  moreover have "r = \<lparr>r_event = v, r_sequence = q, r_duplicate = True\<rparr>"
    using r(3,4) existing_duplicate [OF r(2)] by (cases r) simp
  ultimately show thesis using that by blast
qed

lemma persist_append_existing:
  assumes "existing_receipt x c fp db = Inr (Some r)" "persist_append x e b st f c fp db = Inr (q, db')"
  shows "q = r" "db' = db"
  using assms by (auto simp: persist_append_def and_then_eq_Inr)

lemma append_retry:
  assumes "acknowledged_by x db c = Some (v, q)" "store_append x e st c db = (Inr r, db')"
  shows "r = \<lparr>r_event = v, r_sequence = q, r_duplicate = True\<rparr>" "db' = db"
proof -
  from assms(1) obtain fp r0 where fp: "command_fingerprint x c = Inr fp"
      "existing_receipt x c fp db = Inr (Some r0)"
      "r0 = \<lparr>r_event = v, r_sequence = q, r_duplicate = True\<rparr>"
    by (rule acknowledged_existing)
  from assms(2) fp(1) have "persist_append x e 0 st True c fp db = Inr (r, db')"
    by (auto elim: append_ok)
  from persist_append_existing [OF fp(2) this] fp(3)
  show "r = \<lparr>r_event = v, r_sequence = q, r_duplicate = True\<rparr>" "db' = db" by auto
qed

interpretation journal: durable_journal store_commit store_acknowledged store_inv
proof
  fix s :: "codec \<times> database" and v :: "env \<times> store" and c d :: "json append_command"
    and r s' k ev q
  obtain r0 db' where run: "store_append (fst s) (fst v) (snd v) c (snd s) = (r0, db')" by fastforce
  show "store_inv (snd (store_commit v c s))" if "store_inv s"
    using that append_inv [OF run] run by (simp add: store_commit_def store_inv_def)
  show "store_acknowledged s' c = Some (r_event r, r_sequence r)"
    if "store_inv s" "store_commit v c s = (Inr r, s')"
    using that append_acknowledges [of "fst s" "fst v" "snd v" c "snd s"] run
    by (auto simp: store_commit_def store_inv_def store_acknowledged_def)
  show "store_acknowledged (snd (store_commit v c s)) d = Some k"
    if "store_inv s" "store_acknowledged s d = Some k"
    using that acknowledged_grows [OF _ append_grows [OF run], of "fst s" d k] run
    by (simp add: store_commit_def store_inv_def store_acknowledged_def)
  show "r = \<lparr>r_event = ev, r_sequence = q, r_duplicate = True\<rparr> \<and> s' = s"
    if "store_inv s" "store_acknowledged s c = Some (ev, q)" "store_commit v c s = (Inr r, s')"
    using that append_retry [of "fst s" "snd s" c ev q "fst v" "snd v"] run
    by (cases s) (auto simp: store_commit_def store_acknowledged_def)
qed

subsection \<open>A sample store\<close>

definition sample_submission :: "json append_command" where
  "sample_submission = \<lparr>c_version = 1, c_conversation = ''c'', c_run = ''r'', c_event = ''e'', c_key = ''k'',
     c_payload = Public (PSubmitted ''u'' \<lparr>preview = ''hi'', detail_of = None\<rparr>), c_detail = None\<rparr>"

definition sample_codec :: codec where
  "sample_codec = \<lparr>cx_aead = sample_aead, cx_key = ''key'',
     payload_write = (\<lambda>p. if p = c_payload sample_submission then Inr ''p'' else Inl ''unsupported''),
     payload_read = (\<lambda>_. Inr (c_payload sample_submission)),
     command_write = (\<lambda>_. Inr ''cmd''),
     submission_write = (\<lambda>_. Inl ''unsupported''), submission_read = (\<lambda>_. Inl ''unsupported''),
     context_size = (\<lambda>_. Inr 2), event_size = (\<lambda>_. Inr 80),
     cx_read = \<lparr>event_bytes = (\<lambda>_. Some 80), events_bytes = (\<lambda>es. Some (if es = [] then 2 else 1 + 81 * length es)),
       page_bytes = (\<lambda>p. Some (200 + 81 * length (cp_events p)))\<rparr>,
     restricted_size = (\<lambda>_. Inr 40),
     sha256 = (\<lambda>_. ''digest''), uuid_ok = (\<lambda>_. True), hmac_key = (\<lambda>_ _ _. ''hmac''),
     rfc3339 = (\<lambda>_. ''1970'')\<rparr>"

definition sample_env :: env where
  "sample_env = \<lparr>en_now = (\<lambda>_. 1000), en_nonce = (\<lambda>_. 5), en_uuid = (\<lambda>_. ''u1''), en_elapsed = 0,
     en_begin = None, en_rollback = None, en_commit = None\<rparr>"

definition sample_session :: session_row where
  "sample_session = \<lparr>ss_id = ''c'', ss_user = ''a'', ss_workspace = ''w'', ss_type = ''chat'',
     ss_title = None, ss_model = None, ss_shared = None, ss_shared_at = None, ss_created_at = 0,
     ss_updated_at = 0, ss_config = None, ss_event_sequence = 0\<rparr>"

definition sample_database :: database where
  "sample_database = \<lparr>sessions = [sample_session],
     members = [\<lparr>wu_workspace = ''w'', wu_user = ''a'', wu_active = True\<rparr>],
     users = [\<lparr>us_id = ''a'', us_active = True, us_name = None, us_email = None\<rparr>],
     runs = [], events = [], aliases = [], details = [], read_rows = [], tool_receipts = [],
     usage_receipts = [], messages = [], thinking_details = [], sync_log = [], api_usage_log = []\<rparr>"

lemma sample_codec_ok: "codec_ok sample_codec"
  using sample_aead_ok by (auto simp: codec_ok_def sample_codec_def in_range_def split: if_splits)

lemma sample_database_inv: "journal_inv sample_database"
  by (simp add: journal_inv_def sample_database_def sample_session_def session_events_def)

lemmas sample_store_eval = sample_codec_def sample_env_def sample_database_def sample_session_def
  sample_submission_def sample_aead_def enc_def dec_def encrypt_def decrypt_def authorize_def active_member_def
  persist_append_def existing_receipt_def find_alias_def append_fresh_def check_fence_def
  lifecycle_owned_def current_state_def write_state_def insert_defs insert_row_def
  write_event_def write_detail_def write_read_row_def write_projection_def write_tool_receipt_def
  write_usage_receipt_def write_sequence_def codec_wire_def command_fingerprint_def

lemmas sample_append_eval = store_append_def transact_def sample_store_eval new_store_def session_shared_def
  validate_def check_id_def text_detail_def payload_limit_def protocol_limits
  repeated_receipt_def fresh_run_def plan_def plan_for_def exposed_body_def checked_add_i64_def
  in_i64_def i64_min_def i64_max_def plain_message_def Let_def

lemma sample_append:
  "fst (store_append sample_codec sample_env (new_store ''a'' ''w'') sample_submission sample_database)
     = Inr \<lparr>r_event = ''e'', r_sequence = 1, r_duplicate = False\<rparr>"
  by (simp add: sample_append_eval)

lemma sample_retry:
  "fst (store_append sample_codec sample_env (new_store ''a'' ''w'') sample_submission
     (snd (store_append sample_codec sample_env (new_store ''a'' ''w'') sample_submission sample_database)))
     = Inr \<lparr>r_event = ''e'', r_sequence = 1, r_duplicate = True\<rparr>"
  by (simp add: sample_append_eval alias_matches_def find_event_def in_range_def nonce_bytes_def
      NONCE_SIZE_def upt_rec duplicate_of_def)

subsection \<open>Properties\<close>

text \<open>C3: Appending is idempotent across any history: if a commit was acknowledged, then after any other
  commits (by any principals, succeeding, failing, or losing their acknowledgement) a retry of the
  same command that succeeds returns the receipt of the first commit, marked as a duplicate, and
  changes nothing; and it is not notified again.\<close>

theorem append_idempotent:
  assumes "store_inv s" and "store_commit v c s = (Inr r, s')"
    and "store_commit w c (commit_all store_commit cs s') = (Inr r', t)"
  shows "r' = r\<lparr>r_duplicate := True\<rparr> \<and> t = commit_all store_commit cs s'
    \<and> snd (snd (append_and_notify (store_commit w) notify c (commit_all store_commit cs s', n))) = n"
proof -
  have inv: "store_inv s'" using journal.commit_step_inv [OF assms(1), of v c] assms(2) by simp
  from journal.commit_all_stable [OF this journal.commit_acknowledges [OF assms(1,2)], of cs]
  have "store_inv (commit_all store_commit cs s')"
    "store_acknowledged (commit_all store_commit cs s') c = Some (r_event r, r_sequence r)" by auto
  note quiet = journal.acknowledged_not_notified [OF this, of w notify n]
  from journal.retry_returns_receipt [OF assms] quiet show ?thesis by (intro conjI) simp_all
qed

theorem append_idempotent_witness:
  "\<exists>t. store_commit (sample_env, new_store ''a'' ''w'') sample_submission
     (snd (store_commit (sample_env, new_store ''a'' ''w'') sample_submission (sample_codec, sample_database)))
     = (Inr \<lparr>r_event = ''e'', r_sequence = 1, r_duplicate = True\<rparr>, t)"
proof -
  let ?v = "(sample_env, new_store ''a'' ''w'')"
  define s' where "s' = snd (store_commit ?v sample_submission (sample_codec, sample_database))"
  have s': "store_commit ?v sample_submission (sample_codec, sample_database)
      = (Inr \<lparr>r_event = ''e'', r_sequence = 1, r_duplicate = False\<rparr>, s')"
    using sample_append by (simp add: store_commit_eq s'_def)
  define t where "t = snd (store_commit ?v sample_submission s')"
  have t: "store_commit ?v sample_submission s' = (Inr \<lparr>r_event = ''e'', r_sequence = 1, r_duplicate = True\<rparr>, t)"
    using sample_retry by (simp add: store_commit_eq s'_def t_def)
  have "store_inv (sample_codec, sample_database)"
    by (simp add: store_inv_def sample_codec_ok sample_database_inv)
  from append_idempotent [OF this s', of ?v "[]"] s' t show ?thesis by simp
qed

text \<open>The journal is append-only and gap-free: after any history of commits (by any principals,
  succeeding or failing) the events stored before are still there in their order, and the
  sequences of every conversation are 1, 2, 3, ... up to its counter, so a cursor that has seen
  sequence n misses nothing below it.\<close>

theorem journal_gap_free:
  assumes "store_inv s"
  shows "journal_grows (snd s) (snd (commit_all store_commit cs s))
    \<and> (\<forall>q \<in> set (sessions (snd (commit_all store_commit cs s))).
        map ev_sequence (session_events (snd (commit_all store_commit cs s)) (ss_id q)) = [1..ss_event_sequence q])"
proof -
  have "store_inv s \<Longrightarrow> journal_grows (snd s) (snd (commit_all store_commit cs s))
      \<and> store_inv (commit_all store_commit cs s)" for s
  proof (induction cs arbitrary: s)
    case (Cons vc cs)
    obtain v c where vc: "vc = (v, c)" by fastforce
    have "journal_grows (snd s) (snd (snd (store_commit v c s)))"
      using append_grows [of "fst s" "fst v" "snd v" c "snd s"]
      by (simp add: store_commit_def split: prod.splits)
    with Cons.IH [OF journal.commit_step_inv [OF Cons.prems, of v c]] vc show ?case
      by (auto intro: journal_grows_trans)
  qed simp
  with assms show ?thesis by (auto simp: store_inv_def journal_inv_def)
qed

theorem journal_gap_free_witness:
  "journal_grows sample_database (snd (commit_all store_commit
     [((sample_env, new_store ''a'' ''w''), sample_submission)] (sample_codec, sample_database)))"
proof -
  have "store_inv (sample_codec, sample_database)"
    by (simp add: store_inv_def sample_codec_ok sample_database_inv)
  from journal_gap_free [OF this, of "[((sample_env, new_store ''a'' ''w''), sample_submission)]"]
  show ?thesis by simp
qed

text \<open>C8: No append without authorization: a principal who is not an active member of the workspace,
  or who neither owns the session nor acts on a shared one within a run's lifecycle, gets an error
  and the database is unchanged, whatever the command and whatever fails around it.\<close>

theorem append_guarded:
  assumes "store_append x e st c db = (r, db')"
    and "\<forall>s \<in> set (sessions db). ss_id s = c_conversation c \<longrightarrow> ss_workspace s = st_workspace st \<longrightarrow>
      \<not> may_access st s True db"
  shows "db' = db \<and> \<not> is_ok r"
proof -
  have refused: "authorize st (c_conversation c) True db \<noteq> Inr s" for s
    using assms(2) authorize_session [of st "c_conversation c" True db s] by (auto simp: authorize_ok)
  then have body: "persist_append x e 0 st True c fp db \<noteq> Inr q" for fp q
    by (auto simp: persist_append_def and_then_eq_Inr)
  with append_body [OF assms(1)] have "db' = db" by blast
  moreover have "r \<noteq> Inr q" for q
    using assms(1) body by (auto elim: append_ok)
  ultimately show ?thesis by (auto simp: is_ok_iff)
qed

theorem append_guarded_witness:
  "snd (store_append sample_codec sample_env (new_store ''b'' ''w'') sample_submission sample_database) = sample_database"
proof -
  have "\<forall>s \<in> set (sessions sample_database). ss_id s = c_conversation sample_submission \<longrightarrow>
      ss_workspace s = st_workspace (new_store ''b'' ''w'') \<longrightarrow>
      \<not> may_access (new_store ''b'' ''w'') s True sample_database"
    by (simp add: sample_database_def sample_session_def may_access_def new_store_def active_member_def)
  from append_guarded [OF surjective_pairing this] show ?thesis by blast
qed

end
