(* ===== verification/Journal_Read.thy ===== *)
theory Journal_Read
  imports Journal_Store
begin

text \<open>
  The reads of the durable journal: \<open>replay\<close>, \<open>detail\<close>, \<open>tool_outcome\<close> and \<open>restricted\<close> of
  \<open>crates/kyomi-auth/src/conversation_events.rs\<close>, and the snapshot and catch-up reads of
  \<open>conversation_events/read.rs\<close>. A read runs in the same transaction and behind the same
  authorization as a write; its body returns the database unchanged.
\<close>

subsection \<open>Replay\<close>

text \<open>\<open>ORDER BY sequence LIMIT n\<close>\<close>

definition events_after :: "database \<Rightarrow> string \<Rightarrow> int \<Rightarrow> event_row list" where
  "events_after db session after =
     sort_key ev_sequence (filter (\<lambda>v. ev_session v = session \<and> ev_sequence v > after) (events db))"

definition event_of_row :: "string \<Rightarrow> event_row \<Rightarrow> json public_payload \<Rightarrow> json public_event" where
  "event_of_row conversation v p = \<lparr>pe_version = VERSION, pe_conversation = conversation,
     pe_run = ev_run v, pe_event = ev_id v, pe_sequence = ev_sequence v, pe_payload = p\<rparr>"

definition public_of :: "json payload \<Rightarrow> store_error + json public_payload" where
  "public_of p = (case p of Public q \<Rightarrow> Inr q | Restricted _ \<Rightarrow> Inl StoreUnauthorized)"

fun replay_rows :: "codec \<Rightarrow> string \<Rightarrow> nat \<Rightarrow> json replay_batch \<Rightarrow> event_row list
    \<Rightarrow> store_error + json replay_batch" where
  "replay_rows x conversation bytes b [] = Inr b"
| "replay_rows x conversation bytes b (v # vs) =
     (if ev_version v \<noteq> int (unat VERSION) then Inl (StoreVersion (ev_version v))
      else if ev_public v
      then and_then (dec_payload x (ev_payload v)) (\<lambda>p.
           and_then (public_of p) (\<lambda>q.
           and_then (map_err JsonE (event_size x (event_of_row conversation v q))) (\<lambda>size.
           if bytes + size > MAX_REPLAY_BYTES then Inr b
           else replay_rows x conversation (bytes + size)
             (b\<lparr>rb_events := rb_events b @ [event_of_row conversation v q],
                rb_scanned_through := ev_sequence v\<rparr>) vs)))
      else replay_rows x conversation bytes (b\<lparr>rb_scanned_through := ev_sequence v\<rparr>) vs)"

definition replay_body :: "codec \<Rightarrow> store \<Rightarrow> string \<Rightarrow> int \<Rightarrow> nat \<Rightarrow> database
    \<Rightarrow> store_error + json replay_batch \<times> database" where
  "replay_body x st conversation after limit db =
     and_then (authorize st conversation False db) (\<lambda>access.
     and_then (ensure (after \<le> ss_event_sequence access) InvalidReplay) (\<lambda>_.
     and_then (replay_rows x conversation 0
         \<lparr>rb_version = VERSION, rb_events = [], rb_scanned_through = after,
          rb_high_watermark = ss_event_sequence access, rb_has_more = False\<rparr>
         (take limit (events_after db conversation after))) (\<lambda>b.
     Inr (b\<lparr>rb_has_more := rb_scanned_through b < rb_high_watermark b\<rparr>, db))))"

definition replay :: "codec \<Rightarrow> env \<Rightarrow> store \<Rightarrow> string \<Rightarrow> int \<Rightarrow> nat \<Rightarrow> database
    \<Rightarrow> (store_error + json replay_batch) \<times> database" where
  "replay x e st conversation after limit db =
     (if after < 0 \<or> limit = 0 \<or> limit > MAX_REPLAY_EVENTS then (Inl InvalidReplay, db)
      else transact e (replay_body x st conversation after limit) db)"

subsection \<open>Details and tool outcomes\<close>

definition dec_option :: "codec \<Rightarrow> string option \<Rightarrow> store_error + string option" where
  "dec_option x c = (case c of None \<Rightarrow> Inr None | Some s \<Rightarrow> and_then (dec x s) (\<lambda>p. Inr (Some p)))"

definition find_detail :: "database \<Rightarrow> string \<Rightarrow> string \<Rightarrow> string option" where
  "find_detail db session i =
     map_option dt_content (find (\<lambda>d. dt_session d = session \<and> dt_id d = i \<and> dt_public d) (details db))"

definition detail :: "codec \<Rightarrow> env \<Rightarrow> store \<Rightarrow> string \<Rightarrow> string \<Rightarrow> database
    \<Rightarrow> (store_error + string option) \<times> database" where
  "detail x e st conversation i =
     transact e (\<lambda>db.
       and_then (authorize st conversation False db) (\<lambda>_.
       and_then (dec_option x (find_detail db conversation i)) (\<lambda>r. Inr (r, db))))"

definition stored_outcome :: "codec \<Rightarrow> string \<Rightarrow> string \<Rightarrow> string \<Rightarrow> database \<Rightarrow> store_error + tool_outcome option" where
  "stored_outcome x conversation run t db =
     (case Option.bind (find (\<lambda>r. tr_session r = conversation \<and> tr_run r = run \<and> tr_tool r = t) (tool_receipts db))
         (\<lambda>r. find_event db (tr_event r)) of
        None \<Rightarrow> Inr None
      | Some v \<Rightarrow>
          and_then (dec_payload x (ev_payload v)) (\<lambda>p.
          case p of
            Public (PToolOutcome _ text tr dm) \<Rightarrow>
              and_then (case detail_of text of
                  None \<Rightarrow> Inr (preview text)
                | Some i \<Rightarrow> and_then (fetch_one (find_detail db conversation i)) (dec x)) (\<lambda>body.
              Inr (Some \<lparr>to_transport = tr, to_domain = dm, to_text = body\<rparr>))
          | _ \<Rightarrow> Inl (PolicyE InvalidState)))"

definition tool_outcome_of :: "codec \<Rightarrow> env \<Rightarrow> store \<Rightarrow> string \<Rightarrow> string \<Rightarrow> string \<Rightarrow> database
    \<Rightarrow> (store_error + tool_outcome option) \<times> database" where
  "tool_outcome_of x e st conversation run t =
     transact e (\<lambda>db.
       and_then (authorize st conversation False db) (\<lambda>_.
       and_then (stored_outcome x conversation run t db) (\<lambda>r. Inr (r, db))))"

subsection \<open>Restricted recovery records\<close>

record restricted_record =
  rr_event :: string
  rr_sequence :: int
  rr_payload :: "json restricted_payload"

definition restricted_of :: "json payload \<Rightarrow> store_error + json restricted_payload" where
  "restricted_of p = (case p of Restricted q \<Rightarrow> Inr q | Public _ \<Rightarrow> Inl StoreUnauthorized)"

fun restricted_rows :: "codec \<Rightarrow> nat \<Rightarrow> event_row list \<Rightarrow> store_error + restricted_record list" where
  "restricted_rows x bytes [] = Inr []"
| "restricted_rows x bytes (v # vs) =
     (if ev_version v \<noteq> int (unat VERSION) then Inl (StoreVersion (ev_version v))
      else and_then (dec_payload x (ev_payload v)) (\<lambda>p.
        and_then (restricted_of p) (\<lambda>q.
        and_then (map_err JsonE (restricted_size x q)) (\<lambda>size.
        if bytes + size > MAX_REPLAY_BYTES then Inr []
        else and_then (restricted_rows x (bytes + size) vs) (\<lambda>rs.
          Inr (\<lparr>rr_event = ev_id v, rr_sequence = ev_sequence v, rr_payload = q\<rparr> # rs))))))"

definition restricted :: "codec \<Rightarrow> env \<Rightarrow> store \<Rightarrow> string \<Rightarrow> int \<Rightarrow> nat \<Rightarrow> database
    \<Rightarrow> (store_error + restricted_record list) \<times> database" where
  "restricted x e st conversation after limit db =
     (if after < 0 \<or> limit = 0 \<or> limit > MAX_REPLAY_EVENTS then (Inl InvalidReplay, db)
      else transact e (\<lambda>db.
        and_then (authorize st conversation True db) (\<lambda>_.
        and_then (restricted_rows x 0
          (take limit (filter (\<lambda>v. \<not> ev_public v) (events_after db conversation after)))) (\<lambda>rs.
        Inr (rs, db)))) db)"

subsection \<open>Snapshot and catch-up reads\<close>

record read_run =
  ru_run :: string
  ru_state :: run_state
  ru_assistant :: "string option"
  ru_cancel :: bool

record conversation_snapshot =
  cs_version :: "16 word"
  cs_conversation :: string
  cs_through :: int
  cs_run :: "read_run option"
  cs_page :: "json cursor_page"

definition read_limits :: "nat \<Rightarrow> nat \<Rightarrow> store_error + unit" where
  "read_limits limit bytes =
     (if limit = 0 \<or> limit > MAX_REPLAY_EVENTS \<or> \<not> (MIN_REPLAY_BYTES \<le> bytes \<and> bytes \<le> MAX_REPLAY_BYTES)
      then Inl InvalidReplay else Inr ())"

text \<open>
  \<open>ORDER BY (SELECT MIN(sequence) ...) DESC, run_id DESC LIMIT 1\<close>: the run whose first public
  event is latest; a run without one comes last (SQLite's order of \<open>NULL\<close>).
\<close>

definition first_public :: "database \<Rightarrow> string \<Rightarrow> string \<Rightarrow> int option" where
  "first_public db session run =
     (case map rd_sequence (filter (\<lambda>r. rd_session r = session \<and> rd_run r = run) (read_rows db)) of
        [] \<Rightarrow> None | q # qs \<Rightarrow> Some (Min (set (q # qs))))"

fun option_less :: "int option \<Rightarrow> int option \<Rightarrow> bool" where
  "option_less _ None = False"
| "option_less None (Some _) = True"
| "option_less (Some a) (Some b) = (a < b)"

definition run_later :: "database \<Rightarrow> string \<Rightarrow> run_row \<Rightarrow> run_row \<Rightarrow> bool" where
  "run_later db session a b \<longleftrightarrow>
     (let ka = first_public db session (rn_id a); kb = first_public db session (rn_id b)
      in option_less kb ka \<or> ka = kb \<and> bytes_less (rn_id b) (rn_id a))"

fun latest_run :: "database \<Rightarrow> string \<Rightarrow> run_row list \<Rightarrow> run_row option" where
  "latest_run db session [] = None"
| "latest_run db session (r # rs) =
     (case latest_run db session rs of
        None \<Rightarrow> Some r | Some q \<Rightarrow> Some (if run_later db session q r then q else r))"

definition select_run :: "string \<Rightarrow> string option \<Rightarrow> database \<Rightarrow> store_error + read_run" where
  "select_run conversation run db =
     (case latest_run db conversation
         (filter (\<lambda>r. rn_session r = conversation \<and> (run = None \<or> run = Some (rn_id r))) (runs db)) of
        Some r \<Rightarrow> and_then (map_err PolicyE (run_state_from_str (rn_state r))) (\<lambda>s.
          Inr \<lparr>ru_run = rn_id r, ru_state = s, ru_assistant = rn_assistant_message r, ru_cancel = rn_cancel r\<rparr>)
      | None \<Rightarrow> Inl (if count_where (\<lambda>r. rn_session r = conversation) (runs db) = 0 then NoRun else RunMismatch))"

text \<open>The columns of a page's query; a row that will not be shown carries no ciphertext.\<close>

record page_row =
  pg_event :: string
  pg_run :: string
  pg_sequence :: int
  pg_version :: int
  pg_public :: bool
  pg_payload :: string

definition run_selected :: "string option \<Rightarrow> string \<Rightarrow> bool" where
  "run_selected run r \<longleftrightarrow> run = None \<or> run = Some r"

definition page_rows :: "bool \<Rightarrow> string \<Rightarrow> string option \<Rightarrow> int \<Rightarrow> int \<Rightarrow> nat \<Rightarrow> database \<Rightarrow> page_row list" where
  "page_rows snapshot conversation run after watermark limit db =
     take limit (sort_key pg_sequence
       (filter (\<lambda>r. pg_sequence r > after \<and> pg_sequence r \<le> watermark)
         (if snapshot
          then map (\<lambda>r. \<lparr>pg_event = rd_event r, pg_run = rd_run r, pg_sequence = rd_sequence r,
              pg_version = rd_version r, pg_public = True,
              pg_payload = (if run_selected run (rd_run r) then rd_payload r else [])\<rparr>)
            (filter (\<lambda>r. rd_session r = conversation) (read_rows db))
          else map (\<lambda>v. \<lparr>pg_event = ev_id v, pg_run = ev_run v, pg_sequence = ev_sequence v,
              pg_version = ev_version v, pg_public = ev_public v,
              pg_payload = (if ev_public v \<and> run_selected run (ev_run v) then ev_payload v else [])\<rparr>)
            (filter (\<lambda>v. ev_session v = conversation) (events db)))))"

definition visible_event :: "codec \<Rightarrow> string \<Rightarrow> string option \<Rightarrow> page_row \<Rightarrow> store_error + json public_event option" where
  "visible_event x conversation run r =
     (if pg_public r \<and> run_selected run (pg_run r)
      then and_then (dec_payload x (pg_payload r)) (\<lambda>p.
           and_then (public_of p) (\<lambda>q.
           Inr (Some \<lparr>pe_version = VERSION, pe_conversation = conversation, pe_run = pg_run r,
             pe_event = pg_event r, pe_sequence = pg_sequence r, pe_payload = q\<rparr>)))
      else Inr None)"

fun scan_rows :: "codec \<Rightarrow> bool \<Rightarrow> string \<Rightarrow> string option \<Rightarrow> nat \<Rightarrow> json cursor_page \<Rightarrow> page_row list
    \<Rightarrow> store_error + bool \<times> json cursor_page" where
  "scan_rows x snapshot conversation run bytes p [] = Inr (False, p)"
| "scan_rows x snapshot conversation run bytes p (r # rs) =
     (if pg_version r \<noteq> int (unat VERSION) then Inl (StoreVersion (pg_version r))
      else and_then (visible_event x conversation run r) (\<lambda>vis.
        and_then (map_err StoreReset ((if snapshot then scan_snapshot else scan)
          (cx_read x) p (pg_sequence r) vis bytes)) (\<lambda>(included, p').
        if included then scan_rows x snapshot conversation run bytes p' rs else Inr (True, p'))))"

definition read_page :: "codec \<Rightarrow> bool \<Rightarrow> string \<Rightarrow> string option \<Rightarrow> int \<Rightarrow> int \<Rightarrow> nat \<Rightarrow> nat \<Rightarrow> database
    \<Rightarrow> store_error + json cursor_page" where
  "read_page x snapshot conversation run after watermark limit bytes db =
     (let rows = page_rows snapshot conversation run after watermark limit db in
     and_then (scan_rows x snapshot conversation run bytes (new_page after watermark) rows) (\<lambda>(stopped, p).
     let page = (if snapshot \<and> length rows < limit \<and> \<not> stopped
                 then p\<lparr>through_cursor := watermark, has_more := False\<rparr> else p) in
     if \<not> snapshot \<and> rows = [] \<and> after < watermark then Inl (StoreReset CursorPruned)
     else if stopped \<and> through_cursor page = after then Inl InvalidReplay
     else Inr page))"

definition authorize_read :: "env \<Rightarrow> store \<Rightarrow> string \<Rightarrow> database \<Rightarrow> (store_error + unit) \<times> database" where
  "authorize_read e st conversation =
     transact e (\<lambda>db. and_then (authorize st conversation False db) (\<lambda>_. Inr ((), db)))"

text \<open>The delivery itself (a transport future) is the argument \<open>sent\<close>.\<close>

definition deliver_authorized :: "env \<Rightarrow> store \<Rightarrow> string \<Rightarrow> (store_error + 'a) \<Rightarrow> database
    \<Rightarrow> (store_error + 'a) \<times> database" where
  "deliver_authorized e st conversation sent =
     transact e (\<lambda>db. and_then (authorize st conversation False db) (\<lambda>_.
       and_then sent (\<lambda>v. Inr (v, db))))"

definition snapshot :: "codec \<Rightarrow> env \<Rightarrow> store \<Rightarrow> string \<Rightarrow> string option \<Rightarrow> nat \<Rightarrow> nat \<Rightarrow> database
    \<Rightarrow> (store_error + conversation_snapshot) \<times> database" where
  "snapshot x e st conversation run limit bytes db =
     (case read_limits limit bytes of
        Inl err \<Rightarrow> (Inl err, db)
      | Inr _ \<Rightarrow> transact e (\<lambda>db.
          and_then (authorize st conversation False db) (\<lambda>access.
          and_then (select_run conversation run db) (\<lambda>selected.
          and_then (read_page x True conversation run 0 (ss_event_sequence access) limit bytes db) (\<lambda>page.
          Inr (\<lparr>cs_version = VERSION, cs_conversation = conversation,
            cs_through = ss_event_sequence access, cs_run = Some selected, cs_page = page\<rparr>, db))))) db)"

definition first_event :: "database \<Rightarrow> string \<Rightarrow> int option" where
  "first_event db session =
     (case map ev_sequence (filter (\<lambda>v. ev_session v = session) (events db)) of
        [] \<Rightarrow> None | q # qs \<Rightarrow> Some (Min (set (q # qs))))"

text \<open>The watermark of a catch-up, if the cursor is valid for it.\<close>

definition check_cursor :: "string \<Rightarrow> int \<Rightarrow> int option \<Rightarrow> session_row \<Rightarrow> database \<Rightarrow> store_error + int" where
  "check_cursor conversation after through access db =
     (let watermark = (case through of None \<Rightarrow> ss_event_sequence access | Some t \<Rightarrow> t) in
     and_then (ensure (\<not> (watermark < 0 \<or> watermark > ss_event_sequence access \<or> after > watermark))
       (StoreReset CursorInvalid)) (\<lambda>_.
     and_then (case through of
         None \<Rightarrow> map_err StoreReset (validate_cursor after watermark (first_event db conversation))
       | Some _ \<Rightarrow> ensure (\<not> after < 0) (StoreReset CursorInvalid)) (\<lambda>_.
     Inr watermark)))"

definition check_run :: "string \<Rightarrow> string option \<Rightarrow> database \<Rightarrow> store_error + unit" where
  "check_run conversation run db =
     (if run = None then Inr () else and_then (select_run conversation run db) (\<lambda>_. Inr ()))"

definition read_replay_body :: "codec \<Rightarrow> store \<Rightarrow> string \<Rightarrow> string option \<Rightarrow> int \<Rightarrow> int option
    \<Rightarrow> nat \<Rightarrow> nat \<Rightarrow> database \<Rightarrow> store_error + json cursor_page \<times> database" where
  "read_replay_body x st conversation run after through limit bytes db =
     and_then (authorize st conversation False db) (\<lambda>access.
     and_then (check_run conversation run db) (\<lambda>_.
     and_then (check_cursor conversation after through access db) (\<lambda>watermark.
     and_then (read_page x (through \<noteq> None) conversation run after watermark limit bytes db) (\<lambda>page.
     Inr (page, db)))))"

definition read_replay :: "codec \<Rightarrow> env \<Rightarrow> store \<Rightarrow> string \<Rightarrow> string option \<Rightarrow> int \<Rightarrow> int option
    \<Rightarrow> nat \<Rightarrow> nat \<Rightarrow> database \<Rightarrow> (store_error + json cursor_page) \<times> database" where
  "read_replay x e st conversation run after through limit bytes db =
     (case read_limits limit bytes of
        Inl err \<Rightarrow> (Inl err, db)
      | Inr _ \<Rightarrow> transact e (read_replay_body x st conversation run after through limit bytes) db)"

definition read_detail :: "codec \<Rightarrow> env \<Rightarrow> store \<Rightarrow> string \<Rightarrow> string option \<Rightarrow> string \<Rightarrow> database
    \<Rightarrow> (store_error + string option) \<times> database" where
  "read_detail x e st conversation run i =
     transact e (\<lambda>db.
       and_then (authorize st conversation False db) (\<lambda>_.
       and_then (check_run conversation run db) (\<lambda>_.
       case find (\<lambda>r. rd_session r = conversation \<and> rd_detail_id r = Some i \<and> run_selected run (rd_run r))
           (read_rows db) of
         None \<Rightarrow> Inr (None, db)
       | Some r \<Rightarrow> and_then (decode_column ''encrypted_detail'' (rd_detail r)) (\<lambda>c.
           and_then (dec x c) (\<lambda>s. Inr (Some s, db))))))"

subsection \<open>What a replay returns\<close>

text \<open>A returned event is the decoded form of a stored row.\<close>

definition shown :: "codec \<Rightarrow> string \<Rightarrow> json public_event \<Rightarrow> event_row \<Rightarrow> bool" where
  "shown x conversation ev v \<longleftrightarrow>
     (\<exists>q. dec_payload x (ev_payload v) = Inr (Public q) \<and> ev = event_of_row conversation v q)"

lemma shown_sequence: "shown x conversation ev v \<Longrightarrow> pe_sequence ev = ev_sequence v"
  by (auto simp: shown_def event_of_row_def)

lemma public_of_ok [simp]: "public_of p = Inr q \<longleftrightarrow> p = Public q"
  by (cases p) (auto simp: public_of_def)

lemma replay_rows_ok:
  assumes "replay_rows x conversation bytes b vs = Inr b'"
  shows "\<exists>n \<le> length vs. \<exists>new. rb_events b' = rb_events b @ new
      \<and> list_all2 (shown x conversation) new (filter ev_public (take n vs))
      \<and> rb_scanned_through b' = (if n = 0 then rb_scanned_through b else ev_sequence (vs ! (n - 1)))
      \<and> rb_version b' = rb_version b \<and> rb_high_watermark b' = rb_high_watermark b"
  using assms
proof (induction x conversation bytes b vs rule: replay_rows.induct)
  case (1 x conversation bytes b)
  then show ?case by auto
next
  case (2 x conversation bytes b v vs)
  from 2(3) have v: "ev_version v = int (unat VERSION)" by (auto split: if_splits)
  show ?case
  proof (cases "ev_public v")
    case False
    let ?b = "b\<lparr>rb_scanned_through := ev_sequence v\<rparr>"
    from 2(3) v False have r: "replay_rows x conversation bytes ?b vs = Inr b'" by simp
    from 2(2) [OF _ False r] v obtain n new where n: "n \<le> length vs" "rb_events b' = rb_events b @ new"
        "list_all2 (shown x conversation) new (filter ev_public (take n vs))"
        "rb_scanned_through b' = (if n = 0 then ev_sequence v else ev_sequence (vs ! (n - 1)))"
        "rb_version b' = rb_version b" "rb_high_watermark b' = rb_high_watermark b" by auto
    then show ?thesis using False by (intro exI [of _ "Suc n"]) (auto simp: nth_Cons')
  next
    case True
    from 2(3) v True obtain q size where q: "dec_payload x (ev_payload v) = Inr (Public q)"
        "event_size x (event_of_row conversation v q) = Inr size"
        "(if bytes + size > MAX_REPLAY_BYTES then Inr b
           else replay_rows x conversation (bytes + size)
             (b\<lparr>rb_events := rb_events b @ [event_of_row conversation v q],
                rb_scanned_through := ev_sequence v\<rparr>) vs) = Inr b'"
      by (auto simp: and_then_eq_Inr)
    show ?thesis
    proof (cases "bytes + size > MAX_REPLAY_BYTES")
      case stop: True
      with q(3) have "b' = b" by simp
      then show ?thesis by (intro exI [of _ 0]) simp
    next
      case False
      let ?b = "b\<lparr>rb_events := rb_events b @ [event_of_row conversation v q],
                rb_scanned_through := ev_sequence v\<rparr>"
      from q(3) False have r: "replay_rows x conversation (bytes + size) ?b vs = Inr b'" by simp
      from 2(1) [of size q] r False True v q obtain n new where n: "n \<le> length vs"
          "rb_events b' = rb_events b @ event_of_row conversation v q # new"
          "list_all2 (shown x conversation) new (filter ev_public (take n vs))"
          "rb_scanned_through b' = (if n = 0 then ev_sequence v else ev_sequence (vs ! (n - 1)))"
          "rb_version b' = rb_version b" "rb_high_watermark b' = rb_high_watermark b" by auto
      moreover have "shown x conversation (event_of_row conversation v q) v"
        using q(1) by (simp add: shown_def event_of_row_def)
      ultimately show ?thesis using True
        by (intro exI [of _ "Suc n"] exI [of _ "event_of_row conversation v q # new"] conjI)
          (auto simp: nth_Cons')
    qed
  qed
qed

lemma take_filter_sorted:
  fixes f :: "'a \<Rightarrow> int"
  assumes "sorted_wrt (<) (map f vs)" "n \<le> length vs" "0 < n"
  shows "filter (\<lambda>v. P v \<and> f v \<le> f (vs ! (n - 1))) vs = filter P (take n vs)"
  using assms
proof (induction vs arbitrary: n)
  case (Cons v vs)
  show ?case
  proof (cases "n = 1")
    case True
    then have "\<forall>w \<in> set vs. \<not> f w \<le> f v" using Cons.prems(1) by auto
    with True show ?thesis by (auto simp: filter_empty_conv)
  next
    case False
    with Cons.prems obtain m where m: "n = Suc m" "0 < m" "m \<le> length vs" by (cases n) auto
    then have "(v # vs) ! (n - 1) = vs ! (m - 1)" by (simp add: nth_Cons')
    moreover have "vs ! (m - 1) \<in> set vs" using m by simp
    then have "f v \<le> f (vs ! (m - 1))" using Cons.prems(1) by auto
    ultimately show ?thesis using Cons.IH [of m] Cons.prems(1) m by auto
  qed
qed simp

lemma events_after_sorted:
  assumes inv: "journal_inv db" and s: "s \<in> set (sessions db)"
  shows "sorted_wrt (<) (map ev_sequence (events_after db (ss_id s) after))"
    and "events_after db (ss_id s) after = filter (\<lambda>v. ev_sequence v > after) (session_events db (ss_id s))"
proof -
  let ?vs = "session_events db (ss_id s)"
  from inv s have "map ev_sequence ?vs = [1..ss_event_sequence s]" by (simp add: journal_inv_def)
  then have strict: "sorted_wrt (<) (map ev_sequence ?vs)" by simp
  have sub: "sorted_wrt (<) (map ev_sequence (filter P ?vs))" for P
    using strict by (simp add: sorted_wrt_map sorted_wrt_filter)
  have eq: "filter (\<lambda>v. ev_session v = ss_id s \<and> ev_sequence v > after) (events db)
      = filter (\<lambda>v. ev_sequence v > after) ?vs"
    by (simp add: session_events_def conj_commute)
  have sorted: "sorted (map ev_sequence (filter (\<lambda>v. ev_sequence v > after) ?vs))"
    using sub strict_sorted_imp_sorted by blast
  then show e: "events_after db (ss_id s) after = filter (\<lambda>v. ev_sequence v > after) ?vs"
    unfolding events_after_def eq by (rule sort_key_id_if_sorted)
  show "sorted_wrt (<) (map ev_sequence (events_after db (ss_id s) after))"
    unfolding e by (rule sub)
qed

lemma replay_ok:
  assumes "replay x e st conversation after limit db = (Inr b, db')"
  obtains s b0 where "authorize st conversation False db = Inr s" "0 \<le> after" "after \<le> ss_event_sequence s"
    "limit \<le> MAX_REPLAY_EVENTS" "db' = db"
    "replay_rows x conversation 0
         \<lparr>rb_version = VERSION, rb_events = [], rb_scanned_through = after,
          rb_high_watermark = ss_event_sequence s, rb_has_more = False\<rparr>
         (take limit (events_after db conversation after)) = Inr b0"
    "b = b0\<lparr>rb_has_more := rb_scanned_through b0 < rb_high_watermark b0\<rparr>"
proof -
  from assms have g: "0 \<le> after" "limit \<le> MAX_REPLAY_EVENTS"
      "transact e (replay_body x st conversation after limit) db = (Inr b, db')"
    by (auto simp: replay_def split: if_splits)
  from g(3) have "replay_body x st conversation after limit db = Inr (b, db')" by (simp add: transact_Inr)
  then show thesis using that g(1,2) unfolding replay_body_def and_then_eq_Inr ensure_eq_Inr
    by (elim exE conjE) simp
qed

subsection \<open>Pages of the catch-up read\<close>

lemma scan_rows_inv:
  assumes "scan_rows x snap conversation run bytes p rs = Inr (stopped, q)" and "page_inv p"
  shows "page_inv q \<and> from_cursor q = from_cursor p \<and> high_watermark q = high_watermark p
    \<and> through_cursor p \<le> through_cursor q \<and> length (cp_events q) \<le> length (cp_events p) + length rs
    \<and> (\<forall>ev \<in> set (cp_events q). ev \<in> set (cp_events p) \<or>
        (\<exists>r \<in> set rs. visible_event x conversation run r = Inr (Some ev)))"
  using assms
proof (induction rs arbitrary: p)
  case (Cons r rs)
  from Cons.prems(1) obtain vis inc p' where
      vis: "visible_event x conversation run r = Inr vis" and
      sc: "(if snap then scan_snapshot else scan) (cx_read x) p (pg_sequence r) vis bytes = Inr (inc, p')" and
      rest: "(if inc then scan_rows x snap conversation run bytes p' rs else Inr (True, p')) = Inr (stopped, q)"
    by (fastforce simp: and_then_eq_Inr split: if_splits prod.splits)
  from sc have s: "scan_snapshot (cx_read x) p (pg_sequence r) vis bytes = Inr (inc, p')"
    by (auto split: if_splits dest: scan_is_snapshot_scan)
  note inv = scan_snapshot_inv [OF Cons.prems(2) s] and shape = scan_snapshot_shape [OF s]
  have p': "through_cursor p \<le> through_cursor p'" using inv shape by (auto split: if_splits)
  have ev: "length (cp_events p') \<le> Suc (length (cp_events p))"
    "\<forall>ev \<in> set (cp_events p'). ev \<in> set (cp_events p) \<or> vis = Some ev"
    using shape by (auto simp: advance_page_def split: if_splits option.splits)
  show ?case
  proof (cases inc)
    case True
    with rest have "scan_rows x snap conversation run bytes p' rs = Inr (stopped, q)" by simp
    note ih = Cons.IH [OF this conjunct1 [OF inv]]
    have "ev \<in> set (cp_events p) \<or> (\<exists>r' \<in> set (r # rs). visible_event x conversation run r' = Inr (Some ev))"
      if "ev \<in> set (cp_events q)" for ev
      using that ih ev(2) vis by auto
    moreover have "length (cp_events q) \<le> length (cp_events p) + length (r # rs)" using ih ev(1) by auto
    ultimately show ?thesis using ih inv p' by auto
  next
    case False
    with rest have "q = p'" by simp
    then show ?thesis using inv p' ev vis by auto
  qed
qed simp

lemma scan_rows_fits:
  assumes "wire_sizes (cx_read x)" "scan_rows x snap conversation run bytes p rs = Inr (stopped, q)" "page_fits (cx_read x) p"
  shows "page_fits (cx_read x) q"
  using assms(2,3)
proof (induction rs arbitrary: p)
  case (Cons r rs)
  from Cons.prems(1) obtain vis inc p' where
      sc: "(if snap then scan_snapshot else scan) (cx_read x) p (pg_sequence r) vis bytes = Inr (inc, p')" and
      rest: "(if inc then scan_rows x snap conversation run bytes p' rs else Inr (True, p')) = Inr (stopped, q)"
    by (fastforce simp: and_then_eq_Inr split: if_splits prod.splits)
  from sc have "scan_snapshot (cx_read x) p (pg_sequence r) vis bytes = Inr (inc, p')"
    by (auto split: if_splits dest: scan_is_snapshot_scan)
  from scan_snapshot_fits [OF assms(1) Cons.prems(2) this] rest Cons.IH [of p'] show ?case by (auto split: if_splits)
qed simp

text \<open>A page shows only decoded public rows of the conversation, of the selected run if there is one.\<close>

definition disclosed :: "codec \<Rightarrow> database \<Rightarrow> string \<Rightarrow> string option \<Rightarrow> json public_event \<Rightarrow> bool" where
  "disclosed x db conversation run ev \<longleftrightarrow> pe_conversation ev = conversation \<and> run_selected run (pe_run ev)
     \<and> ((\<exists>v \<in> set (events db). ev_session v = conversation \<and> ev_public v \<and> ev_run v = pe_run ev
            \<and> ev_id v = pe_event ev \<and> ev_sequence v = pe_sequence ev
            \<and> dec_payload x (ev_payload v) = Inr (Public (pe_payload ev)))
        \<or> (\<exists>r \<in> set (read_rows db). rd_session r = conversation \<and> rd_run r = pe_run ev
            \<and> rd_event r = pe_event ev \<and> rd_sequence r = pe_sequence ev
            \<and> dec_payload x (rd_payload r) = Inr (Public (pe_payload ev))))"

lemma visible_disclosed:
  assumes "r \<in> set (page_rows snap conversation run after wm limit db)"
    and "visible_event x conversation run r = Inr (Some ev)"
  shows "disclosed x db conversation run ev"
proof -
  from assms(2) have vis: "pg_public r" "run_selected run (pg_run r)"
      "dec_payload x (pg_payload r) = Inr (Public (pe_payload ev))"
      "pe_conversation ev = conversation" "pe_run ev = pg_run r" "pe_event ev = pg_event r"
      "pe_sequence ev = pg_sequence r"
    by (auto simp: visible_event_def and_then_eq_Inr split: if_splits)
  show ?thesis
  proof (cases snap)
    case True
    with assms(1) obtain d where "d \<in> set (read_rows db)" "rd_session d = conversation"
        "r = \<lparr>pg_event = rd_event d, pg_run = rd_run d, pg_sequence = rd_sequence d,
              pg_version = rd_version d, pg_public = True,
              pg_payload = (if run_selected run (rd_run d) then rd_payload d else [])\<rparr>"
      by (auto simp: page_rows_def dest!: in_set_takeD)
    with vis show ?thesis unfolding disclosed_def by (intro conjI disjI2 bexI [of _ d]) simp_all
  next
    case False
    with assms(1) obtain v where "v \<in> set (events db)" "ev_session v = conversation"
        "r = \<lparr>pg_event = ev_id v, pg_run = ev_run v, pg_sequence = ev_sequence v,
              pg_version = ev_version v, pg_public = ev_public v,
              pg_payload = (if ev_public v \<and> run_selected run (ev_run v) then ev_payload v else [])\<rparr>"
      by (auto simp: page_rows_def dest!: in_set_takeD)
    with vis show ?thesis unfolding disclosed_def by (intro conjI disjI1 bexI [of _ v]) simp_all
  qed
qed

lemma page_rows_length: "length (page_rows snap conversation run after wm limit db) \<le> limit"
  by (simp add: page_rows_def)

lemma read_page_scanned:
  assumes "read_page x snap conversation run after wm limit bytes db = Inr page"
  obtains stopped p where
    "scan_rows x snap conversation run bytes (new_page after wm) (page_rows snap conversation run after wm limit db) = Inr (stopped, p)"
    "page = p \<or> page = p\<lparr>through_cursor := wm, has_more := False\<rparr>"
proof -
  let ?rows = "page_rows snap conversation run after wm limit db"
  from assms obtain sp where sp: "scan_rows x snap conversation run bytes (new_page after wm) ?rows = Inr sp"
    and rest: "(case sp of (stopped, p) \<Rightarrow>
     let page = (if snap \<and> length ?rows < limit \<and> \<not> stopped
                 then p\<lparr>through_cursor := wm, has_more := False\<rparr> else p) in
     if \<not> snap \<and> ?rows = [] \<and> after < wm then Inl (StoreReset CursorPruned)
     else if stopped \<and> through_cursor page = after then Inl InvalidReplay
     else Inr page) = Inr page"
    unfolding read_page_def Let_def and_then_eq_Inr by (elim exE conjE)
  obtain stopped p where pr: "sp = (stopped, p)" by fastforce
  show thesis
  proof (rule that)
    show "scan_rows x snap conversation run bytes (new_page after wm) ?rows = Inr (stopped, p)" using sp pr by simp
    show "page = p \<or> page = p\<lparr>through_cursor := wm, has_more := False\<rparr>"
      using rest unfolding pr Let_def prod.case by (simp_all split: if_split_asm)
  qed
qed

lemma read_page_ok:
  assumes "read_page x snap conversation run after wm limit bytes db = Inr page" and "after \<le> wm"
  shows "page_inv page \<and> from_cursor page = after \<and> high_watermark page = wm
    \<and> length (cp_events page) \<le> limit \<and> (\<forall>ev \<in> set (cp_events page). disclosed x db conversation run ev)"
proof -
  obtain stopped p where p:
      "scan_rows x snap conversation run bytes (new_page after wm) (page_rows snap conversation run after wm limit db) = Inr (stopped, p)"
      "page = p \<or> page = p\<lparr>through_cursor := wm, has_more := False\<rparr>"
    by (rule read_page_scanned [OF assms(1)])
  have fresh: "page_inv (new_page after wm :: json cursor_page)" using assms(2) by (rule new_page_inv)
  note s = scan_rows_inv [OF p(1) fresh]
  have base: "page_inv p" "from_cursor p = after" "high_watermark p = wm" "length (cp_events p) \<le> limit"
      "\<forall>ev \<in> set (cp_events p). disclosed x db conversation run ev"
    using s page_rows_length [of snap conversation run after wm limit db] visible_disclosed
    by (auto simp: new_page_def)
  from base(1,3) have "page_inv (p\<lparr>through_cursor := wm, has_more := False\<rparr>)"
    by (auto simp: page_inv_def)
  with base p(2) show ?thesis by auto
qed

lemma read_page_fits:
  assumes "wire_sizes (cx_read x)" "read_page x snap conversation run after wm limit bytes db = Inr page"
  shows "page_fits (cx_read x) page"
proof -
  obtain stopped p where p:
      "scan_rows x snap conversation run bytes (new_page after wm) (page_rows snap conversation run after wm limit db) = Inr (stopped, p)"
      "page = p \<or> page = p\<lparr>through_cursor := wm, has_more := False\<rparr>"
    by (rule read_page_scanned [OF assms(2)])
  have "page_fits (cx_read x) p" by (rule scan_rows_fits [OF assms(1) p(1) new_page_fits [OF assms(1)]])
  with p(2) show ?thesis by (auto simp: page_fits_def)
qed

lemma check_cursor_ok:
  "check_cursor conversation after through s db = Inr wm \<Longrightarrow> 0 \<le> after \<and> after \<le> wm \<and> wm \<le> ss_event_sequence s"
  by (auto simp: check_cursor_def Let_def and_then_eq_Inr validate_cursor_def split: option.splits if_splits)

lemma read_replay_ok:
  assumes "read_replay x e st conversation run after through limit bytes db = (Inr page, db')"
  obtains s wm where "authorize st conversation False db = Inr s" "db' = db" "0 \<le> after" "after \<le> wm"
    "wm \<le> ss_event_sequence s" "limit \<le> MAX_REPLAY_EVENTS"
    "read_page x (through \<noteq> None) conversation run after wm limit bytes db = Inr page"
proof -
  from assms have lim: "read_limits limit bytes = Inr ()" and
    t: "transact e (read_replay_body x st conversation run after through limit bytes) db = (Inr page, db')"
    by (auto simp: read_replay_def split: sum.splits)
  from t have b: "read_replay_body x st conversation run after through limit bytes db = Inr (page, db')"
    by (simp add: transact_Inr)
  then obtain s wm pg where s: "authorize st conversation False db = Inr s"
      "check_cursor conversation after through s db = Inr wm"
      "read_page x (through \<noteq> None) conversation run after wm limit bytes db = Inr pg"
      "Inr (pg, db) = (Inr (page, db') :: store_error + json cursor_page \<times> database)"
    unfolding read_replay_body_def and_then_eq_Inr by (elim exE conjE) (rule that)
  have "limit \<le> MAX_REPLAY_EVENTS" using lim by (auto simp: read_limits_def split: if_splits)
  with check_cursor_ok [OF s(2)] s(1,3,4) show thesis by (intro that) auto
qed

subsection \<open>Properties\<close>

text \<open>C9: Replay is exact: a replay answers only an authorized reader and changes nothing, and its events
  are precisely the decoded public events stored for the conversation after the cursor and up to
  the point it reports as scanned, in increasing order and without a gap, at most the limit; it
  says there is more exactly when that point is below the conversation's counter.\<close>

theorem replay_exact:
  assumes "journal_inv db" and "replay x e st conversation after limit db = (Inr b, db')"
  shows "\<exists>s. authorize st conversation False db = Inr s \<and> db' = db
    \<and> list_all2 (shown x conversation) (rb_events b)
        (filter (\<lambda>v. ev_public v \<and> after < ev_sequence v \<and> ev_sequence v \<le> rb_scanned_through b)
          (session_events db conversation))
    \<and> length (rb_events b) \<le> limit \<and> sorted_wrt (<) (map pe_sequence (rb_events b))
    \<and> rb_high_watermark b = ss_event_sequence s
    \<and> rb_has_more b = (rb_scanned_through b < ss_event_sequence s)"
proof -
  from assms(2) obtain s b0 where s: "authorize st conversation False db = Inr s" "db' = db"
    and rows: "replay_rows x conversation 0
         \<lparr>rb_version = VERSION, rb_events = [], rb_scanned_through = after,
          rb_high_watermark = ss_event_sequence s, rb_has_more = False\<rparr>
         (take limit (events_after db conversation after)) = Inr b0"
    and b: "b = b0\<lparr>rb_has_more := rb_scanned_through b0 < rb_high_watermark b0\<rparr>"
    by (rule replay_ok)
  from authorize_session [OF s(1)] have sess: "s \<in> set (sessions db)" "ss_id s = conversation" by auto
  let ?all = "events_after db conversation after"
  note sorted = events_after_sorted [OF assms(1) sess(1), unfolded sess(2)]
  from replay_rows_ok [OF rows] obtain n where n: "n \<le> length (take limit ?all)"
      "list_all2 (shown x conversation) (rb_events b0) (filter ev_public (take n (take limit ?all)))"
      "rb_scanned_through b0 = (if n = 0 then after else ev_sequence (take limit ?all ! (n - 1)))"
      "rb_high_watermark b0 = ss_event_sequence s"
    by auto
  then have m: "take n (take limit ?all) = take n ?all" "n \<le> limit" "n \<le> length ?all"
    by auto
  have scanned: "rb_scanned_through b0 = (if n = 0 then after else ev_sequence (?all ! (n - 1)))"
    using n(3) m(2) by (cases n) auto
  have exact: "filter ev_public (take n ?all)
      = filter (\<lambda>v. ev_public v \<and> after < ev_sequence v \<and> ev_sequence v \<le> rb_scanned_through b0)
          (session_events db conversation)"
  proof (cases "n = 0")
    case True
    then show ?thesis using scanned by (auto simp: filter_empty_conv)
  next
    case False
    have "filter ev_public (take n ?all)
        = filter (\<lambda>v. ev_public v \<and> ev_sequence v \<le> ev_sequence (?all ! (n - 1))) ?all"
      using take_filter_sorted [OF sorted(1) m(3), of ev_public] False by simp
    also have "\<dots> = filter (\<lambda>v. ev_public v \<and> after < ev_sequence v \<and> ev_sequence v \<le> rb_scanned_through b0)
          (session_events db conversation)"
      using False scanned by (simp add: sorted(2) conj_ac cong: conj_cong)
    finally show ?thesis .
  qed
  have "length (rb_events b0) \<le> limit"
    using list_all2_lengthD [OF n(2)] m(2) length_filter_le [of ev_public "take n (take limit ?all)"] by simp
  moreover have "map pe_sequence (rb_events b0) = map ev_sequence (filter ev_public (take n ?all))"
    using n(2) unfolding m(1) by (induction rule: list_all2_induct) (simp_all add: shown_sequence)
  then have "sorted_wrt (<) (map pe_sequence (rb_events b0))"
    using sorted(1) sorted_wrt_take [of "(<)" "map ev_sequence ?all" n]
    by (simp add: sorted_wrt_map sorted_wrt_filter take_map)
  ultimately show ?thesis using s b n(2,4) exact m(1) by auto
qed

definition sample_after :: database where
  "sample_after = snd (store_append sample_codec sample_env (new_store ''a'' ''w'') sample_submission sample_database)"

lemma sample_after_inv: "journal_inv sample_after"
  unfolding sample_after_def by (rule append_inv [OF surjective_pairing sample_database_inv])

lemmas sample_read_eval = sample_after_def sample_append_eval find_event_def in_range_def nonce_bytes_def
  NONCE_SIZE_def upt_rec replay_def replay_body_def events_after_def dec_payload_def public_of_def
  event_of_row_def

lemma sample_replay:
  "\<exists>b. replay sample_codec sample_env (new_store ''a'' ''w'') ''c'' 0 10 sample_after = (Inr b, sample_after)
     \<and> length (rb_events b) = 1 \<and> rb_scanned_through b = 1"
  by (simp add: sample_read_eval)

theorem replay_exact_witness:
  "\<exists>b. replay sample_codec sample_env (new_store ''a'' ''w'') ''c'' 0 10 sample_after = (Inr b, sample_after)
     \<and> \<not> rb_has_more b \<and> length (rb_events b) = 1"
proof -
  obtain b where b: "replay sample_codec sample_env (new_store ''a'' ''w'') ''c'' 0 10 sample_after = (Inr b, sample_after)"
      "length (rb_events b) = 1" "rb_scanned_through b = 1"
    using sample_replay by blast
  from replay_exact [OF sample_after_inv b(1)] obtain s where
      s: "authorize (new_store ''a'' ''w'') ''c'' False sample_after = Inr s"
      "rb_has_more b = (rb_scanned_through b < ss_event_sequence s)" by blast
  have "ss_event_sequence s = 1" using s(1) by (auto simp: sample_read_eval)
  with s(2) b show ?thesis by auto
qed

text \<open>C10: From the journal to the client's cursor: a page the store returns for a catch-up or a snapshot
  page was read by someone authorized, leaves the database unchanged, discloses nothing but
  decoded public rows of that conversation (and of the requested run), and fits the client: a client
  that has nothing pending, whose cursor the page continues and whose attempt counter is not used up,
  accepts it, whatever was asked for; acknowledging it moves the cursor to the page's last examined
  record, never past the conversation's counter. What is assumed are the sizes of JSON lists and
  pages, and that the conversations' counters are the 64-bit integers of their column.\<close>

theorem catch_up_delivers:
  assumes "read_replay x e st conversation run after through limit bytes db = (Inr page, db')"
    and "rp_cursor c = after" "rp_pending c = None" "rp_attempt c + 1 < 2 ^ 64"
    and "wire_sizes (cx_read x)" "\<forall>s \<in> set (sessions db). in_i64 (ss_event_sequence s)"
  shows "(\<exists>s. authorize st conversation False db = Inr s \<and> through_cursor page \<le> ss_event_sequence s) \<and> db' = db
    \<and> (\<forall>ev \<in> set (cp_events page). disclosed x db conversation run ev)
    \<and> (\<exists>t c'. stage (cx_read x) c (rp_identity c) page = (Some t, c')
        \<and> applied c' t = (True, c'\<lparr>rp_cursor := through_cursor page, rp_pending := None\<rparr>))"
proof -
  from assms(1) obtain s wm where s: "authorize st conversation False db = Inr s" "db' = db" "0 \<le> after"
      "after \<le> wm" "wm \<le> ss_event_sequence s" "limit \<le> MAX_REPLAY_EVENTS"
      "read_page x (through \<noteq> None) conversation run after wm limit bytes db = Inr page"
    by (rule read_replay_ok)
  note p = read_page_ok [OF s(7,4)]
  then have range: "from_cursor page = after" "after \<le> through_cursor page" "through_cursor page \<le> wm" "high_watermark page = wm"
    by (auto simp: page_inv_def)
  have "in_i64 (ss_event_sequence s)" using assms(6) authorize_session [OF s(1)] by blast
  then have "in_i64 (from_cursor page)" "in_i64 (through_cursor page)" "in_i64 (high_watermark page)"
    using range s(3-5) by (auto simp: in_i64_def i64_min_def)
  then obtain n where size: "page_bytes (cx_read x) page = Some n" "n \<le> MAX_REPLAY_BYTES + 65536"
    by (rule page_fits_size [OF assms(5) read_page_fits [OF assms(5) s(7)]])
  have "through_cursor page \<le> ss_event_sequence s" using range(3) s(5) by simp
  moreover have "from_cursor page = rp_cursor c" "length (cp_events page) \<le> MAX_REPLAY_EVENTS"
    using p s(6) assms(2) by simp_all
  note page_inv_staged [OF conjunct1 [OF p] this size assms(3,4)]
  ultimately show ?thesis using s(1,2) p by (intro conjI) auto
qed

lemma sample_wire_sizes: "wire_sizes (cx_read sample_codec)"
  by (auto simp: wire_sizes_def sample_codec_def)

theorem catch_up_delivers_witness:
  "\<exists>page t c'. read_replay sample_codec sample_env (new_store ''a'' ''w'') ''c'' None 0 None 10 MAX_REPLAY_BYTES sample_after
       = (Inr page, sample_after)
     \<and> stage (cx_read sample_codec) (new_cursor sample_identity 0) sample_identity page = (Some t, c')
     \<and> rp_cursor (snd (applied c' t)) = 1"
proof -
  obtain page where page: "read_replay sample_codec sample_env (new_store ''a'' ''w'') ''c'' None 0 None 10
       MAX_REPLAY_BYTES sample_after = (Inr page, sample_after)" "through_cursor page = 1" "length (cp_events page) = 1"
    by (simp add: sample_read_eval read_replay_def read_replay_body_def read_limits_def check_run_def
        check_cursor_def validate_cursor_def first_event_def read_page_def page_rows_def
        visible_event_def run_selected_def scan_def scan_snapshot_def new_page_def advance_page_def
        MIN_REPLAY_BYTES_def envelope_template_def)
  have "\<forall>s \<in> set (sessions sample_after). in_i64 (ss_event_sequence s)"
    by (simp add: sample_read_eval)
  from catch_up_delivers [OF page(1) _ _ _ sample_wire_sizes this, of "new_cursor sample_identity 0"] page
  show ?thesis by (auto simp: new_cursor_def)
qed

end
