(* ===== verification/Journal_Lifecycle.thy ===== *)
theory Journal_Lifecycle
  imports Journal_Read
begin

text \<open>
  The durable run lifecycle, \<open>crates/kyomi-auth/src/conversation_events/lifecycle.rs\<close>: submission,
  claim, heartbeat, cancellation, finish, expiry and queue discovery. Each operation is one
  transaction that loads the run's row, plans with the policy of \<open>Run_Lifecycle\<close>, appends the
  journal event with \<open>persist_append\<close> and writes the planned snapshot back; a terminal plan also
  settles the tool calls whose outcome is unknown and answers the assistant message.
\<close>

subsection \<open>Events of a submission\<close>

definition lifecycle_event :: "codec \<Rightarrow> env \<Rightarrow> nat \<Rightarrow> json submit_command \<Rightarrow> json public_payload \<Rightarrow> string
    \<Rightarrow> json append_command" where
  "lifecycle_event x e i s p key =
     \<lparr>c_version = VERSION, c_conversation = c_conversation (submitted s), c_run = c_run (submitted s),
      c_event = en_uuid e i, c_key = sha256 x (c_run (submitted s) @ '':'' @ key),
      c_payload = Public p, c_detail = None\<rparr>"

record submission_receipt =
  sr_run :: string
  sr_user_message :: string
  sr_assistant :: string
  sr_duplicate :: bool

definition submission_receipt_of :: "json submit_command \<Rightarrow> bool \<Rightarrow> store_error + submission_receipt" where
  "submission_receipt_of s dup =
     (case c_payload (submitted s) of
        Public (PSubmitted m _) \<Rightarrow> Inr \<lparr>sr_run = c_run (submitted s), sr_user_message = m,
          sr_assistant = sc_assistant s, sr_duplicate = dup\<rparr>
      | _ \<Rightarrow> Inl (PolicyE InvalidSubmission))"

definition append_lifecycle :: "codec \<Rightarrow> env \<Rightarrow> nat \<Rightarrow> store \<Rightarrow> json append_command \<Rightarrow> database
    \<Rightarrow> store_error + commit_receipt \<times> database" where
  "append_lifecycle x e b st c db =
     and_then (command_fingerprint x c) (\<lambda>fp. persist_append x e b st False c fp db)"

definition scoped :: "store \<Rightarrow> store" where
  "scoped st = st\<lparr>st_reconcile := False, st_scope := True\<rparr>"

subsection \<open>Snapshots and the sync log\<close>

definition run_indexes_ok :: "run_row list \<Rightarrow> bool" where
  "run_indexes_ok rs \<longleftrightarrow> \<not> active_clash rs
     \<and> distinct (map (\<lambda>r. (rn_workspace r, rn_actor r, rn_request r)) (filter (\<lambda>r. rn_request r \<noteq> None) rs))"

definition update_run :: "string \<Rightarrow> (run_row \<Rightarrow> run_row) \<Rightarrow> database \<Rightarrow> store_error + database" where
  "update_run run f db =
     (let rs = update_where (\<lambda>r. rn_id r = run) f (runs db) in
      if run_indexes_ok rs then Inr (db\<lparr>runs := rs\<rparr>)
      else Inl (DatabaseE (UniqueViolation ''conversation_runs'')))"

definition snapshot_columns :: "run_snapshot \<Rightarrow> run_row \<Rightarrow> run_row" where
  "snapshot_columns s r = r\<lparr>rn_state := run_state_as_str (rs_state s), rn_fence := rs_fence s,
     rn_lease_owner := map_option l_owner (rs_lease s),
     rn_lease_expires := map_option l_expires_at (rs_lease s),
     rn_cancel := cancellation_requested s, rn_started_at := started_at s,
     rn_terminal_at := terminal_at s\<rparr>"

definition write_snapshot :: "string \<Rightarrow> run_snapshot \<Rightarrow> database \<Rightarrow> store_error + database" where
  "write_snapshot run s db =
     and_then (update_run run (snapshot_columns s) db) (\<lambda>db'.
     if count_where (\<lambda>r. rn_id r = run) (runs db) \<noteq> 1 then Inl MissingProjection else Inr db')"

definition display_name :: "database \<Rightarrow> string \<Rightarrow> string" where
  "display_name db user =
     (case find (\<lambda>u. us_id u = user) (users db) of
        None \<Rightarrow> ''Unknown''
      | Some u \<Rightarrow> (case us_name u of Some n \<Rightarrow> n
          | None \<Rightarrow> (case us_email u of Some m \<Rightarrow> m | None \<Rightarrow> ''Unknown'')))"

definition json_text :: "string option \<Rightarrow> json" where
  "json_text v = (case v of None \<Rightarrow> JNull | Some s \<Rightarrow> JString s)"

definition session_snapshot_json :: "codec \<Rightarrow> session_row \<Rightarrow> string \<Rightarrow> nat \<Rightarrow> nat \<Rightarrow> json" where
  "session_snapshot_json x s name count pinned = json_object
     [(''session_id'', JString (ss_id s)), (''title'', json_text (ss_title s)),
      (''model'', json_text (ss_model s)), (''session_type'', JString (ss_type s)),
      (''shared'', JBool (session_shared s)),
      (''shared_at'', json_text (map_option (rfc3339 x) (ss_shared_at s))),
      (''created_at'', JString (rfc3339 x (ss_created_at s))),
      (''updated_at'', JString (rfc3339 x (ss_updated_at s))),
      (''message_count'', JNumber (show_nat count)), (''pinned_count'', JNumber (show_nat pinned)),
      (''unread_count'', JNumber ''0''),
      (''created_by'', json_object [(''user_id'', JString (ss_user s)), (''display_name'', JString name)]),
      (''slack_channel_id'', JNull)]"

datatype sync_action = SyncInsert | SyncUpdate | SyncDelete

fun sync_action_str :: "sync_action \<Rightarrow> string" where
  "sync_action_str SyncInsert = ''insert''"
| "sync_action_str SyncUpdate = ''update''"
| "sync_action_str SyncDelete = ''delete''"

definition write_session_sync :: "codec \<Rightarrow> string \<Rightarrow> sync_action \<Rightarrow> database \<Rightarrow> store_error + database" where
  "write_session_sync x conversation action db =
     and_then (fetch_one (find (\<lambda>s. ss_id s = conversation \<and> ss_type s = ''chat'') (sessions db))) (\<lambda>s.
     let mine = filter (\<lambda>m. ms_session m = conversation) (messages db);
         data = session_snapshot_json x s (display_name db (ss_user s)) (length mine) (count_where ms_pinned mine)
     in and_then (map_err (\<lambda>er. ApplicationE (Internal (''failed to serialise sync entry data: '' @ er)))
          (json_write (cx_aead x) data)) (\<lambda>text.
     Inr (db\<lparr>sync_log := sync_log db @ [\<lparr>sy_entity_type = ''chat_session'', sy_entity_id = conversation,
       sy_workspace = ss_workspace s, sy_action = sync_action_str action, sy_data = Some text,
       sy_owner = Some (ss_user s), sy_visible = session_shared s\<rparr>]\<rparr>)))"

subsection \<open>Terminal writes\<close>

definition unknown_text :: string where
  "unknown_text = ''Action outcome unknown: execution stopped before a committed result. This action will not be retried automatically.''"

definition unknown_event :: "codec \<Rightarrow> env \<Rightarrow> nat \<Rightarrow> json submit_command \<Rightarrow> string \<Rightarrow> json append_command" where
  "unknown_event x e i s t = lifecycle_event x e i s
     (PToolOutcome t \<lparr>preview = unknown_text, detail_of = None\<rparr> TransportUnknown DomainUnknown)
     (''unknown:'' @ t)"

text \<open>A committed start without a receipt is settled as an unknown outcome, once per start.\<close>

fun settle_starts :: "codec \<Rightarrow> env \<Rightarrow> nat \<Rightarrow> store \<Rightarrow> json submit_command \<Rightarrow> string list \<Rightarrow> database
    \<Rightarrow> store_error + database" where
  "settle_starts x e b st s [] db = Inr db"
| "settle_starts x e b st s (ct # cts) db =
     and_then (dec_payload x ct) (\<lambda>p.
     case p of
       Public (PToolStarted t) \<Rightarrow>
         if find (\<lambda>r. tr_session r = c_conversation (submitted s) \<and> tr_run r = c_run (submitted s) \<and> tr_tool r = t)
              (tool_receipts db) \<noteq> None
         then settle_starts x e (b + 10) st s cts db
         else and_then (append_lifecycle x e b st (unknown_event x e b s t) db) (\<lambda>(_, db').
              settle_starts x e (b + 10) st s cts db')
     | _ \<Rightarrow> settle_starts x e (b + 10) st s cts db)"

definition public_payloads :: "json submit_command \<Rightarrow> database \<Rightarrow> string list" where
  "public_payloads s db = map ev_payload (sort_key ev_sequence
     (filter (\<lambda>v. ev_session v = c_conversation (submitted s) \<and> ev_run v = c_run (submitted s) \<and> ev_public v)
       (events db)))"

definition terminal_payload :: "run_state \<Rightarrow> string \<Rightarrow> text_ref \<Rightarrow> store_error + json public_payload" where
  "terminal_payload s message t =
     (case s of
        Completed \<Rightarrow> Inr (PApprovedAnswer message t)
      | Failed \<Rightarrow> Inr (PFailed t)
      | Interrupted \<Rightarrow> Inr (PInterrupted t)
      | Cancelled \<Rightarrow> Inr PCancelled
      | _ \<Rightarrow> Inl (PolicyE InvalidState))"

definition terminal_command :: "codec \<Rightarrow> env \<Rightarrow> nat \<Rightarrow> json submit_command \<Rightarrow> run_state \<Rightarrow> projection
    \<Rightarrow> store_error + json append_command" where
  "terminal_command x e i s st j =
     (let long = chars_count (pj_content j) > 8000;
          t = \<lparr>preview = chars_take 8000 (pj_content j),
               detail_of = (if long then Some (en_uuid e (i + 1)) else None)\<rparr> in
     and_then (terminal_payload st (pj_message j) t) (\<lambda>p.
     Inr ((lifecycle_event x e i s p ''terminal'')\<lparr>c_detail :=
       (if long \<and> st \<noteq> Cancelled then Some (pj_content j) else None)\<rparr>)))"

definition write_answer :: "codec \<Rightarrow> env \<Rightarrow> nat \<Rightarrow> string \<Rightarrow> projection \<Rightarrow> database \<Rightarrow> store_error + database" where
  "write_answer x e b conversation j db =
     and_then (enc x e b (pj_content j)) (\<lambda>ct.
     update_message (in_progress_answer (pj_message j) conversation)
       (\<lambda>m. m\<lparr>ms_content := ct, ms_status := pj_status j,
          ms_created_at := projection_time e (b + 1) conversation db\<rparr>) db)"

definition write_terminal :: "codec \<Rightarrow> env \<Rightarrow> store \<Rightarrow> json submit_command \<Rightarrow> lifecycle_plan \<Rightarrow> database
    \<Rightarrow> store_error + database" where
  "write_terminal x e st s p db =
     (case lp_projection p of
        None \<Rightarrow> Inr db
      | Some j \<Rightarrow>
          (let conversation = c_conversation (submitted s); run = c_run (submitted s);
               final = rs_state (lp_snapshot p) in
          and_then (settle_starts x e 100 st s (public_payloads s db) db) (\<lambda>db1.
          and_then (terminal_command x e 40 s final j) (\<lambda>c.
          and_then (map_err PolicyE (validate (codec_wire x) c)) (\<lambda>_.
          and_then (append_lifecycle x e 50 st c db1) (\<lambda>(_, db2).
          and_then (if final \<noteq> Completed then write_answer x e 60 conversation j db2 else Inr db2) (\<lambda>db3.
          and_then (write_snapshot run (lp_snapshot p) db3) (\<lambda>db4.
          write_session_sync x conversation SyncUpdate db4))))))))"

subsection \<open>Submission\<close>

definition fresh_session :: "string \<Rightarrow> store \<Rightarrow> int \<Rightarrow> session_row" where
  "fresh_session i st now = \<lparr>ss_id = i, ss_user = st_actor st, ss_workspace = st_workspace st,
     ss_type = ''chat'', ss_title = None, ss_model = None, ss_shared = Some False, ss_shared_at = None,
     ss_created_at = now, ss_updated_at = now, ss_config = None, ss_event_sequence = 0\<rparr>"

definition open_session :: "codec \<Rightarrow> env \<Rightarrow> store \<Rightarrow> json submit_command \<Rightarrow> database \<Rightarrow> store_error + database" where
  "open_session x e st c db =
     (let session = c_conversation (submitted c) in
      if \<not> new_conversation c then Inr db
      else if session = [] \<or> \<not> uuid_ok x session then Inl (PolicyE InvalidIdentity)
      else and_then (insert_row ''chat_sessions'' (\<lambda>s. ss_id s = session) (fresh_session session st (en_now e 0))
          (sessions db)) (\<lambda>ss. Inr (db\<lparr>sessions := ss\<rparr>)))"

definition submitted_message :: "json submit_command \<Rightarrow> string option" where
  "submitted_message c = (case c_payload (submitted c) of Public (PSubmitted m _) \<Rightarrow> Some m | _ \<Rightarrow> None)"

definition accept_submission :: "codec \<Rightarrow> env \<Rightarrow> store \<Rightarrow> json submit_command \<Rightarrow> database
    \<Rightarrow> store_error + submission_receipt \<times> database" where
  "accept_submission x e st c db =
     (let session = c_conversation (submitted c); run = c_run (submitted c); sst = scoped st in
     and_then (open_session x e st c db) (\<lambda>db0.
     and_then (authorize sst session True db0) (\<lambda>_.
     and_then (append_lifecycle x e 1 sst (submitted c) db0) (\<lambda>(_, db1).
     and_then (enc x e 20 []) (\<lambda>empty.
     and_then (insert_message (plain_message (sc_assistant c) session ''assistant'' empty ''in_progress'' (en_now e 20)) db1) (\<lambda>db2.
     and_then (map_err JsonE (submission_write x c)) (\<lambda>text.
     and_then (enc x e 21 text) (\<lambda>ct.
     and_then (update_run run (\<lambda>r. r\<lparr>rn_request := Some (request_id c), rn_actor := Some (st_actor st),
         rn_workspace := Some (st_workspace st), rn_assistant_message := Some (sc_assistant c),
         rn_submission := Some ct, rn_queued_at := Some (submitted_at c),
         rn_user_message := Some (case submitted_message c of Some m \<Rightarrow> m | None \<Rightarrow> [])\<rparr>) db2) (\<lambda>db3.
     and_then (ok_or (submitted_message c) (PolicyE InvalidSubmission)) (\<lambda>m.
     let db4 = db3\<lparr>messages := update_where (\<lambda>q. ms_id q = m)
           (\<lambda>q. q\<lparr>ms_sent_by := Some (st_actor st),
              ms_time_tz := Option.bind (json_get ''current_time_user_tz'' (sc_context c)) as_str,
              ms_source := Some (actor_source (sc_actor c))\<rparr>) (messages db3)\<rparr> in
     and_then (append_lifecycle x e 22 sst (lifecycle_event x e 22 c (PRunState Queued) ''queued'') db4) (\<lambda>(_, db5).
     and_then (write_session_sync x session (if new_conversation c then SyncInsert else SyncUpdate) db5) (\<lambda>db6.
     and_then (submission_receipt_of c False) (\<lambda>r. Inr (r, db6))))))))))))))"

definition submit_body :: "codec \<Rightarrow> env \<Rightarrow> store \<Rightarrow> json submit_command \<Rightarrow> database
    \<Rightarrow> store_error + submission_receipt \<times> database" where
  "submit_body x e st c db =
     (case find (\<lambda>r. rn_workspace r = Some (st_workspace st) \<and> rn_actor r = Some (st_actor st)
         \<and> rn_request r = Some (request_id c)) (runs db) of
        Some r \<Rightarrow>
          and_then (decode_column ''encrypted_submission'' (rn_submission r)) (\<lambda>ct.
          and_then (dec_submission x ct) (\<lambda>saved.
          and_then (authorize (scoped st) (c_conversation (submitted saved)) True db) (\<lambda>_.
          and_then (map_err LifecycleE (plan_submission (codec_wire x) (context_size x) c (Some saved))) (\<lambda>_.
          and_then (submission_receipt_of saved True) (\<lambda>rc. Inr (rc, db))))))
      | None \<Rightarrow> accept_submission x e st c db)"

definition submit :: "codec \<Rightarrow> env \<Rightarrow> store \<Rightarrow> json submit_command \<Rightarrow> database
    \<Rightarrow> (store_error + submission_receipt) \<times> database" where
  "submit x e st c db =
     (case plan_submission (codec_wire x) (context_size x) c None of
        Inl err \<Rightarrow> (Inl (LifecycleE err), db)
      | Inr _ \<Rightarrow>
          if actor_id (sc_actor c) \<noteq> st_actor st then (Inl StoreUnauthorized, db)
          else transact e (submit_body x e st c) db)"

subsection \<open>Claim\<close>

text \<open>Rust's \<open>str::trim\<close> leaves nothing: every character is Unicode white space.\<close>

fun is_blank :: "string \<Rightarrow> bool" where
  "is_blank [] = True"
| "is_blank (a # s) =
     (if (of_char a :: nat) \<in> {9, 10, 11, 12, 13, 32} then is_blank s
      else case s of
        b # t \<Rightarrow>
          if (of_char a :: nat) = 194 \<and> (of_char b :: nat) \<in> {133, 160} then is_blank t
          else (case t of
             c # u \<Rightarrow>
               if (of_char a :: nat, of_char b :: nat, of_char c :: nat) \<in> {(225, 154, 128), (226, 129, 159), (227, 128, 128)}
                  \<or> (of_char a :: nat) = 226 \<and> (of_char b :: nat) = 128
                    \<and> ((128 \<le> (of_char c :: nat) \<and> (of_char c :: nat) \<le> 138) \<or> (of_char c :: nat) \<in> {168, 169, 175})
               then is_blank u else False
           | [] \<Rightarrow> False)
      | [] \<Rightarrow> False)"

record claimed_run =
  cl_snapshot :: run_snapshot
  cl_submission :: "json submit_command"
  cl_messages :: "message_row list"
  cl_config :: "json option"
  cl_shared :: bool

fun insert_by :: "('a \<Rightarrow> 'a \<Rightarrow> bool) \<Rightarrow> 'a \<Rightarrow> 'a list \<Rightarrow> 'a list" where
  "insert_by before a [] = [a]"
| "insert_by before a (b # bs) = (if before b a then b # insert_by before a bs else a # b # bs)"

definition sort_by :: "('a \<Rightarrow> 'a \<Rightarrow> bool) \<Rightarrow> 'a list \<Rightarrow> 'a list" where
  "sort_by before rows = foldr (insert_by before) rows []"

definition message_before :: "message_row \<Rightarrow> message_row \<Rightarrow> bool" where
  "message_before a b \<longleftrightarrow> ms_created_at a < ms_created_at b
     \<or> ms_created_at a = ms_created_at b \<and> bytes_less (ms_id a) (ms_id b)"

text \<open>Runs after this one in the queue's order; their messages are not shown to this run.\<close>

definition queued_after :: "int \<Rightarrow> string \<Rightarrow> run_row \<Rightarrow> bool" where
  "queued_after queued run r \<longleftrightarrow>
     (case rn_queued_at r of None \<Rightarrow> False
      | Some q \<Rightarrow> q > queued \<or> q = queued \<and> bytes_less run (rn_id r))"

definition queued_before :: "int \<Rightarrow> string \<Rightarrow> run_row \<Rightarrow> bool" where
  "queued_before queued run r \<longleftrightarrow>
     (case rn_queued_at r of None \<Rightarrow> False
      | Some q \<Rightarrow> q < queued \<or> q = queued \<and> bytes_less (rn_id r) run)"

definition context_rows :: "string \<Rightarrow> string \<Rightarrow> int \<Rightarrow> string \<Rightarrow> database \<Rightarrow> message_row list" where
  "context_rows conversation own queued run db =
     sort_by message_before (filter (\<lambda>m. ms_session m = conversation \<and> ms_id m \<noteq> own
       \<and> \<not> list_ex (\<lambda>r. (rn_user_message r = Some (ms_id m) \<or> rn_assistant_message r = Some (ms_id m))
            \<and> rn_request r \<noteq> None \<and> queued_after queued run r) (runs db)) (messages db))"

definition restore_option :: "codec \<Rightarrow> json option \<Rightarrow> store_error + json option" where
  "restore_option x v = (case v of None \<Rightarrow> Inr None
     | Some j \<Rightarrow> and_then (map_err ApplicationE (restore_json_field (cx_aead x) j (cx_key x))) (\<lambda>k. Inr (Some k)))"

fun context_messages :: "codec \<Rightarrow> message_row list \<Rightarrow> store_error + message_row list" where
  "context_messages x [] = Inr []"
| "context_messages x (m # ms) =
     and_then (dec x (ms_content m)) (\<lambda>content.
     and_then (restore_option x (ms_tool_calls m)) (\<lambda>calls.
     and_then (context_messages x ms) (\<lambda>rest.
     Inr (if ms_role m = ''assistant'' \<and> is_blank content \<and> calls = None then rest
          else m\<lparr>ms_content := content, ms_tool_calls := calls\<rparr> # rest))))"

definition claim_body :: "codec \<Rightarrow> env \<Rightarrow> store \<Rightarrow> string \<Rightarrow> string \<Rightarrow> string \<Rightarrow> int \<Rightarrow> int \<Rightarrow> database
    \<Rightarrow> store_error + claimed_run \<times> database" where
  "claim_body x e st conversation run worker now0 ttl db =
     (let sst = scoped st in
     and_then (authorize sst conversation True db) (\<lambda>_.
     and_then (load_run st conversation run db) (\<lambda>row.
     and_then (locked_now e now0) (\<lambda>now.
     let busy = list_ex (\<lambda>r. rn_session r = conversation \<and> rn_request r \<noteq> None
           \<and> (rn_state r = ''running'' \<or> rn_state r = ''queued'' \<and> queued_before (lr_queued_at row) run r)) (runs db) in
     and_then (lr_snapshot row) (\<lambda>snap.
     and_then (map_err LifecycleE (plan_claim snap worker now ttl busy)) (\<lambda>nxt.
     and_then (dec_submission x (lr_submission row)) (\<lambda>s.
     and_then (append_lifecycle x e 1 sst (lifecycle_event x e 1 s (PRunState Running) ''started'') db) (\<lambda>(_, db1).
     and_then (write_snapshot run nxt db1) (\<lambda>db2.
     and_then (ok_or (submitted_message s) (PolicyE InvalidSubmission)) (\<lambda>m.
     and_then (update_message (\<lambda>q. ms_id q = m \<and> ms_session q = conversation \<and> ms_role q = ''user'')
         (\<lambda>q. q\<lparr>ms_created_at := projection_time e 20 conversation db2\<rparr>) db2) (\<lambda>db3.
     and_then (fetch_one (find_session db3 conversation)) (\<lambda>sess.
     and_then (context_messages x (context_rows conversation m (lr_queued_at row) run db3)) (\<lambda>msgs.
     and_then (write_session_sync x conversation SyncUpdate db3) (\<lambda>db4.
     and_then (case ss_config sess of None \<Rightarrow> Inr None
         | Some v \<Rightarrow> and_then (map_err ApplicationE (restore_chat_config (cx_aead x) v (cx_key x))) (\<lambda>c. Inr (Some c))) (\<lambda>config.
     Inr (\<lparr>cl_snapshot = nxt, cl_submission = s, cl_messages = msgs, cl_config = config,
           cl_shared = session_shared sess\<rparr>, db4))))))))))))))))"

definition claim :: "codec \<Rightarrow> env \<Rightarrow> store \<Rightarrow> string \<Rightarrow> string \<Rightarrow> string \<Rightarrow> int \<Rightarrow> int \<Rightarrow> database
    \<Rightarrow> (store_error + claimed_run) \<times> database" where
  "claim x e st conversation run worker now ttl = transact e (claim_body x e st conversation run worker now ttl)"

subsection \<open>Heartbeat, cancellation, finish and expiry\<close>

definition heartbeat_body :: "env \<Rightarrow> store \<Rightarrow> string \<Rightarrow> string \<Rightarrow> lease \<Rightarrow> int \<Rightarrow> int \<Rightarrow> database
    \<Rightarrow> store_error + run_snapshot \<times> database" where
  "heartbeat_body e st conversation run l now0 ttl db =
     and_then (authorize (scoped st) conversation True db) (\<lambda>_.
     and_then (load_run st conversation run db) (\<lambda>row.
     and_then (locked_now e now0) (\<lambda>now.
     and_then (lr_snapshot row) (\<lambda>snap.
     and_then (map_err LifecycleE (plan_heartbeat snap l now ttl)) (\<lambda>nxt.
     and_then (write_snapshot run nxt db) (\<lambda>db'. Inr (nxt, db')))))))"

definition heartbeat :: "env \<Rightarrow> store \<Rightarrow> string \<Rightarrow> string \<Rightarrow> lease \<Rightarrow> int \<Rightarrow> int \<Rightarrow> database
    \<Rightarrow> (store_error + run_snapshot) \<times> database" where
  "heartbeat e st conversation run l now ttl = transact e (heartbeat_body e st conversation run l now ttl)"

definition cancel_body :: "codec \<Rightarrow> env \<Rightarrow> store \<Rightarrow> string \<Rightarrow> string \<Rightarrow> int \<Rightarrow> database
    \<Rightarrow> store_error + lifecycle_plan \<times> database" where
  "cancel_body x e st conversation run now0 db =
     (let sst = scoped st in
     and_then (authorize sst conversation True db) (\<lambda>_.
     and_then (load_run st conversation run db) (\<lambda>row.
     and_then (locked_now e now0) (\<lambda>now.
     and_then (lr_snapshot row) (\<lambda>snap.
     and_then (map_err LifecycleE (plan_cancel snap now)) (\<lambda>p.
     and_then (dec_submission x (lr_submission row)) (\<lambda>s.
     if \<not> lp_changed p then Inr (p, db)
     else
       and_then (append_lifecycle x e 1 sst (lifecycle_event x e 1 s PCancellationRequested ''cancel_requested'') db) (\<lambda>(_, db1).
       and_then (write_terminal x e sst s p db1) (\<lambda>db2.
       and_then (write_snapshot run (lp_snapshot p) db2) (\<lambda>db3.
       and_then (if lp_projection p = None then write_session_sync x conversation SyncUpdate db3 else Inr db3) (\<lambda>db4.
       Inr (p, db4))))))))))))"

definition cancel_plan :: "codec \<Rightarrow> env \<Rightarrow> store \<Rightarrow> string \<Rightarrow> string \<Rightarrow> int \<Rightarrow> database
    \<Rightarrow> (store_error + lifecycle_plan) \<times> database" where
  "cancel_plan x e st conversation run now = transact e (cancel_body x e st conversation run now)"

definition write_metadata :: "codec \<Rightarrow> env \<Rightarrow> string \<Rightarrow> string \<Rightarrow> json option \<Rightarrow> database \<Rightarrow> store_error + database" where
  "write_metadata x e conversation message metadata db =
     (case metadata of
        None \<Rightarrow> Inr db
      | Some v \<Rightarrow>
          and_then (map_err JsonE (json_write (cx_aead x) v)) (\<lambda>text.
          and_then (enc x e 30 text) (\<lambda>ct.
          update_message (\<lambda>m. ms_id m = message \<and> ms_session m = conversation \<and> ms_role m = ''assistant'')
            (\<lambda>m. m\<lparr>ms_metadata := Some ct\<rparr>) db)))"

definition finish_body :: "codec \<Rightarrow> env \<Rightarrow> store \<Rightarrow> string \<Rightarrow> string \<Rightarrow> lease \<Rightarrow> int \<Rightarrow> run_state \<Rightarrow> string
    \<Rightarrow> json option \<Rightarrow> database \<Rightarrow> store_error + lifecycle_plan \<times> database" where
  "finish_body x e st conversation run l now0 final content metadata db =
     (let sst = scoped st in
     and_then (authorize sst conversation True db) (\<lambda>_.
     and_then (load_run st conversation run db) (\<lambda>row.
     and_then (locked_now e now0) (\<lambda>now.
     and_then (lr_snapshot row) (\<lambda>snap.
     and_then (map_err LifecycleE (plan_finalize snap l now final content)) (\<lambda>p.
     and_then (dec_submission x (lr_submission row)) (\<lambda>s.
     and_then (write_terminal x e sst s p db) (\<lambda>db1.
     and_then (write_metadata x e conversation (lr_assistant row) metadata db1) (\<lambda>db2.
     Inr (p, db2))))))))))"

definition finish_plan :: "codec \<Rightarrow> env \<Rightarrow> store \<Rightarrow> string \<Rightarrow> string \<Rightarrow> lease \<Rightarrow> int \<Rightarrow> run_state \<Rightarrow> string
    \<Rightarrow> json option \<Rightarrow> database \<Rightarrow> (store_error + lifecycle_plan) \<times> database" where
  "finish_plan x e st conversation run l now final content metadata =
     transact e (finish_body x e st conversation run l now final content metadata)"

definition still_authorized :: "store \<Rightarrow> string \<Rightarrow> database \<Rightarrow> bool" where
  "still_authorized st conversation db \<longleftrightarrow> active_member db (st_workspace st) (st_actor st)
     \<and> list_ex (\<lambda>s. ss_id s = conversation \<and> (ss_user s = st_actor st \<or> session_shared s)) (sessions db)"

definition recovery :: "store \<Rightarrow> store" where
  "recovery st = st\<lparr>st_lease := None, st_reconcile := True, st_scope := True\<rparr>"

definition expire_body :: "codec \<Rightarrow> env \<Rightarrow> store \<Rightarrow> string \<Rightarrow> string \<Rightarrow> int \<Rightarrow> database
    \<Rightarrow> store_error + run_snapshot \<times> database" where
  "expire_body x e st conversation run now0 db =
     and_then (authorize (recovery st) conversation True db) (\<lambda>_.
     and_then (load_run st conversation run db) (\<lambda>row.
     and_then (locked_now e now0) (\<lambda>now.
     and_then (lr_snapshot row) (\<lambda>snap.
     and_then (map_err LifecycleE
        (if rs_state snap = Queued \<and> \<not> still_authorized st conversation db
         then plan_interrupt_queued snap now ''Authorization revoked''
         else plan_expire snap now)) (\<lambda>p.
     and_then (dec_submission x (lr_submission row)) (\<lambda>s.
     and_then (write_terminal x e (recovery st) s p db) (\<lambda>db'.
     Inr (lp_snapshot p, db'))))))))"

definition expire :: "codec \<Rightarrow> env \<Rightarrow> store \<Rightarrow> string \<Rightarrow> string \<Rightarrow> int \<Rightarrow> database
    \<Rightarrow> (store_error + run_snapshot) \<times> database" where
  "expire x e st conversation run now = transact e (expire_body x e st conversation run now)"

subsection \<open>Queue discovery\<close>

record queued_run =
  qr_conversation :: string
  qr_run :: string
  qr_actor :: string
  qr_workspace :: string
  qr_expired :: bool

definition actor_allowed :: "database \<Rightarrow> run_row \<Rightarrow> bool" where
  "actor_allowed db r \<longleftrightarrow>
     (case (rn_actor r, rn_workspace r) of
        (Some a, Some w) \<Rightarrow> active_member db w a
          \<and> list_ex (\<lambda>s. ss_id s = rn_session r \<and> (ss_user s = a \<or> session_shared s)) (sessions db)
      | _ \<Rightarrow> False)"

definition discoverable :: "database \<Rightarrow> int \<Rightarrow> run_row \<Rightarrow> bool" where
  "discoverable db now r \<longleftrightarrow> rn_request r \<noteq> None
     \<and> (rn_state r = ''running'' \<and> (case rn_lease_expires r of None \<Rightarrow> False | Some t \<Rightarrow> t \<le> now)
        \<or> rn_state r = ''queued''
          \<and> \<not> list_ex (\<lambda>a. rn_session a = rn_session r \<and> rn_state a = ''running'' \<and> rn_request a \<noteq> None) (runs db)
          \<and> \<not> list_ex (\<lambda>a. rn_session a = rn_session r \<and> rn_state a = ''queued'' \<and> rn_request a \<noteq> None
               \<and> (case rn_queued_at r of None \<Rightarrow> False | Some q \<Rightarrow> queued_before q (rn_id r) a)) (runs db))"

definition queue_before :: "run_row \<Rightarrow> run_row \<Rightarrow> bool" where
  "queue_before a b \<longleftrightarrow>
     (let ka = (if rn_state a = ''running'' then 0 else 1 :: nat);
          kb = (if rn_state b = ''running'' then 0 else 1)
      in ka < kb \<or> ka = kb \<and> (option_less (rn_queued_at a) (rn_queued_at b)
           \<or> rn_queued_at a = rn_queued_at b \<and> bytes_less (rn_id a) (rn_id b)))"

definition queued_run_of :: "database \<Rightarrow> run_row \<Rightarrow> store_error + queued_run" where
  "queued_run_of db r =
     and_then (decode_column ''actor_id'' (rn_actor r)) (\<lambda>a.
     and_then (decode_column ''workspace_id'' (rn_workspace r)) (\<lambda>w.
     Inr \<lparr>qr_conversation = rn_session r, qr_run = rn_id r, qr_actor = a, qr_workspace = w,
          qr_expired = (rn_state r = ''running'' \<or> \<not> actor_allowed db r)\<rparr>))"

definition discover_queue :: "env \<Rightarrow> nat \<Rightarrow> database \<Rightarrow> store_error + queued_run list" where
  "discover_queue e limit db =
     (if limit = 0 \<or> limit > MAX_REPLAY_EVENTS then Inl InvalidReplay
      else map_ok (queued_run_of db)
        (take limit (sort_by queue_before (filter (discoverable db (now_millis e 0)) (runs db)))))"

end
