(* ===== verification/Fenced_Writes.thy ===== *)
theory Fenced_Writes
  imports Journal_Lifecycle
begin

text \<open>
  The writes of a run's lease holder, the rest of
  \<open>crates/kyomi-auth/src/conversation_events/lifecycle.rs\<close>: appends, execution events with their
  progress projection, complete messages, session metadata, thinking checkpoints and details, API
  usage, the lookups, and the adapter of the \<open>AtomicLifecyclePersistence\<close> interface.
\<close>

subsection \<open>Ownership\<close>

text \<open>The prefix every fenced write shares: authorization, the run's row, the lease.\<close>

definition owned_run :: "env \<Rightarrow> store \<Rightarrow> string \<Rightarrow> string \<Rightarrow> lease \<Rightarrow> int \<Rightarrow> database
    \<Rightarrow> store_error + loaded_run \<times> int" where
  "owned_run e st conversation run l now0 db =
     and_then (authorize (scoped st) conversation True db) (\<lambda>_.
     and_then (load_run st conversation run db) (\<lambda>row.
     and_then (locked_now e now0) (\<lambda>now.
     and_then (lr_snapshot row) (\<lambda>snap.
     and_then (map_err LifecycleE (validate_ownership snap l now)) (\<lambda>_. Inr (row, now))))))"

definition fenced_append :: "codec \<Rightarrow> env \<Rightarrow> store \<Rightarrow> json append_command \<Rightarrow> lease \<Rightarrow> database
    \<Rightarrow> (store_error + commit_receipt) \<times> database" where
  "fenced_append x e st c l =
     store_append x e (st\<lparr>st_lease := Some l, st_reconcile := False, st_scope := True\<rparr>) c"

subsection \<open>Execution events\<close>

definition progress_payload :: "json payload \<Rightarrow> bool" where
  "progress_payload p = (case p of
       Public (PPlanning _) \<Rightarrow> True | Public (PToolStarted _) \<Rightarrow> True
     | Public (PToolOutcome _ _ _ _) \<Rightarrow> True | _ \<Rightarrow> False)"

definition check_progress :: "json append_command \<Rightarrow> json option \<Rightarrow> store_error + unit" where
  "check_progress c progress =
     (case progress of
        None \<Rightarrow> Inr ()
      | Some v \<Rightarrow>
          if Option.bind (json_get ''event_id'' v) as_str \<noteq> Some (c_event c) \<or> \<not> progress_payload (c_payload c)
          then Inl (PolicyE InvalidIdentity)
          else if (case Option.bind (json_get ''has_full_text'' v) as_bool of None \<Rightarrow> False | Some b \<Rightarrow> b)
             \<noteq> (c_detail c \<noteq> None)
          then Inl (PolicyE InvalidDetail)
          else Inr ())"

text \<open>The metadata of the answer in progress, decoded; \<open>{}\<close> if the column is null.\<close>

definition answer_metadata :: "codec \<Rightarrow> string \<Rightarrow> string \<Rightarrow> database \<Rightarrow> store_error + json" where
  "answer_metadata x message conversation db =
     and_then (ok_or (find (in_progress_answer message conversation) (messages db)) MissingProjection) (\<lambda>m.
     case ms_metadata m of
       None \<Rightarrow> Inr (JObject [])
     | Some ct \<Rightarrow> map_err ApplicationE (decrypt_json (cx_aead x) ct (cx_key x)))"

definition push_thinking :: "json \<Rightarrow> json \<Rightarrow> store_error + json" where
  "push_thinking metadata progress =
     and_then (ok_or (as_object metadata) (PolicyE InvalidState)) (\<lambda>fields.
     and_then (ok_or (as_array (case map_of fields ''thinking_events'' of None \<Rightarrow> JArray [] | Some v \<Rightarrow> v))
       (PolicyE InvalidState)) (\<lambda>evs.
     Inr (JObject (members_insert ''thinking_events'' (JArray (evs @ [progress])) fields))))"

definition insert_thinking :: "thinking_row \<Rightarrow> database \<Rightarrow> store_error + database" where
  "insert_thinking r db =
     and_then (insert_row ''thinking_event_details'' (\<lambda>q. th_id q = th_id r
       \<or> th_message q = th_message r \<and> th_event q = th_event r) r (thinking_details db)) (\<lambda>rs.
     Inr (db\<lparr>thinking_details := rs\<rparr>))"

definition store_metadata :: "codec \<Rightarrow> env \<Rightarrow> nat \<Rightarrow> string \<Rightarrow> string \<Rightarrow> json \<Rightarrow> database \<Rightarrow> store_error + database" where
  "store_metadata x e i message conversation v db =
     and_then (map_err ApplicationE (encrypt_json (cx_aead x) (en_nonce e i) v (cx_key x))) (\<lambda>ct.
     update_message (in_progress_answer message conversation) (\<lambda>m. m\<lparr>ms_metadata := Some ct\<rparr>) db)"

definition write_progress :: "codec \<Rightarrow> env \<Rightarrow> store \<Rightarrow> loaded_run \<Rightarrow> json append_command \<Rightarrow> json \<Rightarrow> database
    \<Rightarrow> store_error + database" where
  "write_progress x e st row c progress db =
     (let conversation = c_conversation c; message = lr_assistant row in
     and_then (answer_metadata x message conversation db) (\<lambda>metadata.
     and_then (push_thinking metadata progress) (\<lambda>v.
     and_then (case c_detail c of
         None \<Rightarrow> Inr db
       | Some body \<Rightarrow> and_then (enc x e 30 body) (\<lambda>ct.
           insert_thinking \<lparr>th_id = en_uuid e 30, th_message = message, th_event = c_event c, th_text = ct\<rparr> db)) (\<lambda>db1.
     and_then (store_metadata x e 31 message conversation v db1) (\<lambda>db2.
     write_session_sync x conversation SyncUpdate db2)))))"

definition execution_body :: "codec \<Rightarrow> env \<Rightarrow> store \<Rightarrow> json append_command \<Rightarrow> lease \<Rightarrow> json option
    \<Rightarrow> database \<Rightarrow> store_error + commit_receipt \<times> database" where
  "execution_body x e st c l progress db =
     (let sst = (scoped st)\<lparr>st_lease := Some l\<rparr> in
     and_then (authorize sst (c_conversation c) True db) (\<lambda>_.
     and_then (load_run st (c_conversation c) (c_run c) db) (\<lambda>row.
     and_then (lr_snapshot row) (\<lambda>snap.
     and_then (map_err LifecycleE (validate_ownership snap l (now_millis e 0))) (\<lambda>_.
     and_then (append_lifecycle x e 1 sst c db) (\<lambda>(r, db1).
     if r_duplicate r then Inr (r, db1)
     else case progress of
         None \<Rightarrow> Inr (r, db1)
       | Some v \<Rightarrow> and_then (write_progress x e sst row c v db1) (\<lambda>db2. Inr (r, db2))))))))"

definition fenced_execution_event :: "codec \<Rightarrow> env \<Rightarrow> store \<Rightarrow> json append_command \<Rightarrow> lease \<Rightarrow> json option
    \<Rightarrow> database \<Rightarrow> (store_error + commit_receipt) \<times> database" where
  "fenced_execution_event x e st c l progress db =
     (case and_then (map_err PolicyE (validate (codec_wire x) c)) (\<lambda>_. check_progress c progress) of
        Inl err \<Rightarrow> (Inl err, db)
      | Inr _ \<Rightarrow> transact e (execution_body x e st c l progress) db)"

subsection \<open>Complete messages\<close>

record message_write =
  mw_id :: string
  mw_role :: string
  mw_content :: string
  mw_tool_call :: "string option"
  mw_name :: "string option"
  mw_tool_calls :: "json option"

definition message_command :: "codec \<Rightarrow> env \<Rightarrow> json submit_command \<Rightarrow> message_write \<Rightarrow> json append_command" where
  "message_command x e s m =
     (let long = chars_count (mw_content m) > 8000;
          t = \<lparr>preview = chars_take 8000 (mw_content m), detail_of = (if long then Some (en_uuid e 1) else None)\<rparr>;
          p = PMessageRecorded (mw_id m) (if mw_role m = ''tool'' then RoleTool else RoleAssistant) t
            (mw_tool_call m) (mw_name m) (mw_tool_calls m)
      in (lifecycle_event x e 0 s p ''message'')\<lparr>c_key := sha256 x (''message:'' @ mw_id m),
           c_detail := (if long then Some (mw_content m) else None)\<rparr>)"

definition same_message :: "codec \<Rightarrow> message_row \<Rightarrow> message_write \<Rightarrow> store_error + bool" where
  "same_message x r m =
     and_then (dec x (ms_content r)) (\<lambda>content.
     if content \<noteq> mw_content m \<or> ms_role r \<noteq> mw_role m \<or> ms_tool_call r \<noteq> mw_tool_call m
       \<or> ms_tool_name r \<noteq> mw_name m then Inr False
     else and_then (restore_option x (ms_tool_calls r)) (\<lambda>calls. Inr (calls = mw_tool_calls m)))"

definition protect_calls :: "codec \<Rightarrow> env \<Rightarrow> nat \<Rightarrow> json option \<Rightarrow> store_error + json option" where
  "protect_calls x e i v = (case v of None \<Rightarrow> Inr None
     | Some j \<Rightarrow> and_then (map_err ApplicationE (protect_json_field (cx_aead x) (en_nonce e i) j (cx_key x))) (\<lambda>k.
         Inr (Some k)))"

definition write_message :: "codec \<Rightarrow> env \<Rightarrow> string \<Rightarrow> loaded_run \<Rightarrow> message_write \<Rightarrow> database
    \<Rightarrow> store_error + database" where
  "write_message x e conversation row m db =
     and_then (enc x e 30 (mw_content m)) (\<lambda>ct.
     and_then (protect_calls x e 31 (mw_tool_calls m)) (\<lambda>calls.
     if mw_id m = lr_assistant row
     then update_message (in_progress_answer (mw_id m) conversation)
       (\<lambda>q. q\<lparr>ms_content := ct, ms_tool_call := mw_tool_call m, ms_tool_name := mw_name m, ms_tool_calls := calls\<rparr>) db
     else insert_message ((plain_message (mw_id m) conversation (mw_role m) ct ''complete'' (en_now e 30))
       \<lparr>ms_tool_call := mw_tool_call m, ms_tool_name := mw_name m, ms_tool_calls := calls\<rparr>) db))"

definition message_body :: "codec \<Rightarrow> env \<Rightarrow> store \<Rightarrow> string \<Rightarrow> string \<Rightarrow> lease \<Rightarrow> int \<Rightarrow> message_write
    \<Rightarrow> database \<Rightarrow> store_error + commit_receipt \<times> database" where
  "message_body x e st conversation run l now0 m db =
     and_then (owned_run e st conversation run l now0 db) (\<lambda>(row, _).
     and_then (ensure (mw_id m \<noteq> [] \<and> length (mw_id m) \<le> 128 \<and> mw_role m \<in> {''assistant'', ''tool''})
       (PolicyE InvalidIdentity)) (\<lambda>_.
     and_then (dec_submission x (lr_submission row)) (\<lambda>s.
     let c = message_command x e s m;
         prior = find (\<lambda>q. ms_session q = conversation \<and> ms_id q = mw_id m) (messages db) in
     and_then (map_err PolicyE (validate (codec_wire x) c)) (\<lambda>_.
     case find (\<lambda>v. ev_session v = conversation \<and> ev_key v = c_key c) (events db) of
       Some v \<Rightarrow>
         and_then (ok_or prior MissingProjection) (\<lambda>r.
         and_then (same_message x r m) (\<lambda>same.
         if same then Inr (duplicate_of v, db) else Inl StoreConflict))
     | None \<Rightarrow>
         if prior \<noteq> None \<and> mw_id m \<noteq> lr_assistant row then Inl StoreConflict
         else and_then (append_lifecycle x e 10 (scoped st) c db) (\<lambda>(r, db1).
           if r_duplicate r then Inr (r, db1)
           else and_then (write_message x e conversation row m db1) (\<lambda>db2.
             and_then (write_session_sync x conversation SyncUpdate db2) (\<lambda>db3. Inr (r, db3))))))))"

definition fenced_message :: "codec \<Rightarrow> env \<Rightarrow> store \<Rightarrow> string \<Rightarrow> string \<Rightarrow> lease \<Rightarrow> int \<Rightarrow> message_write
    \<Rightarrow> database \<Rightarrow> (store_error + commit_receipt) \<times> database" where
  "fenced_message x e st conversation run l now m = transact e (message_body x e st conversation run l now m)"

subsection \<open>Session metadata\<close>

definition metadata_body :: "codec \<Rightarrow> env \<Rightarrow> store \<Rightarrow> string \<Rightarrow> string \<Rightarrow> lease \<Rightarrow> int \<Rightarrow> json
    \<Rightarrow> database \<Rightarrow> store_error + unit \<times> database" where
  "metadata_body x e st conversation run l now0 metadata db =
     and_then (owned_run e st conversation run l now0 db) (\<lambda>_.
     and_then (fetch_one (find_session db conversation)) (\<lambda>s.
     and_then (case ss_config s of None \<Rightarrow> Inr None
         | Some v \<Rightarrow> and_then (map_err ApplicationE (restore_chat_config (cx_aead x) v (cx_key x))) (\<lambda>c. Inr (Some c))) (\<lambda>previous.
     if previous = Some metadata then Inr ((), db)
     else
       and_then (map_err ApplicationE (protect_chat_config (cx_aead x) (en_nonce e 0) metadata (cx_key x))) (\<lambda>v.
       and_then (write_session_sync x conversation SyncUpdate
         (db\<lparr>sessions := update_where (\<lambda>q. ss_id q = conversation)
            (\<lambda>q. q\<lparr>ss_config := Some v, ss_updated_at := en_now e 0\<rparr>) (sessions db)\<rparr>)) (\<lambda>db1.
       Inr ((), db1))))))"

definition fenced_session_metadata :: "codec \<Rightarrow> env \<Rightarrow> store \<Rightarrow> string \<Rightarrow> string \<Rightarrow> lease \<Rightarrow> int \<Rightarrow> json
    \<Rightarrow> database \<Rightarrow> (store_error + unit) \<times> database" where
  "fenced_session_metadata x e st conversation run l now v = transact e (metadata_body x e st conversation run l now v)"

subsection \<open>Thinking checkpoints and details\<close>

definition thinking_command :: "codec \<Rightarrow> env \<Rightarrow> json submit_command \<Rightarrow> string \<Rightarrow> string \<Rightarrow> nat \<Rightarrow> json append_command" where
  "thinking_command x e s key body count =
     (lifecycle_event x e 0 s (PPlanning \<lparr>preview = ''Thinking checkpoint ('' @ show_nat count @ '' events)'',
        detail_of = Some (en_uuid e 1)\<rparr>) ''thinking-preview'')\<lparr>c_key := key, c_detail := Some body\<rparr>"

definition checkpoint_body :: "codec \<Rightarrow> env \<Rightarrow> store \<Rightarrow> string \<Rightarrow> string \<Rightarrow> lease \<Rightarrow> int \<Rightarrow> json list
    \<Rightarrow> database \<Rightarrow> store_error + commit_receipt \<times> database" where
  "checkpoint_body x e st conversation run l now0 evs db =
     and_then (owned_run e st conversation run l now0 db) (\<lambda>(row, _).
     and_then (map_err JsonE (json_write (cx_aead x) (JArray evs))) (\<lambda>body.
     let key = hmac_key x ''kyomi:thinking-preview:v1'' (run @ '':'' @ body) (cx_key x) in
     case find (\<lambda>v. ev_session v = conversation \<and> ev_run v = run \<and> ev_key v = key) (events db) of
       Some v \<Rightarrow> Inr (duplicate_of v, db)
     | None \<Rightarrow>
         and_then (answer_metadata x (lr_assistant row) conversation db) (\<lambda>metadata.
         and_then (ok_or (as_object metadata) (PolicyE InvalidState)) (\<lambda>fields.
         let v = JObject (members_insert ''thinking_events'' (JArray evs) fields) in
         and_then (dec_submission x (lr_submission row)) (\<lambda>s.
         let c = thinking_command x e s key body (length evs) in
         and_then (map_err PolicyE (validate (codec_wire x) c)) (\<lambda>_.
         and_then (append_lifecycle x e 10 (scoped st) c db) (\<lambda>(r, db1).
         and_then (store_metadata x e 30 (lr_assistant row) conversation v db1) (\<lambda>db2.
         and_then (write_session_sync x conversation SyncUpdate db2) (\<lambda>db3. Inr (r, db3))))))))))"

definition fenced_thinking_events :: "codec \<Rightarrow> env \<Rightarrow> store \<Rightarrow> string \<Rightarrow> string \<Rightarrow> lease \<Rightarrow> int \<Rightarrow> json list
    \<Rightarrow> database \<Rightarrow> (store_error + commit_receipt) \<times> database" where
  "fenced_thinking_events x e st conversation run l now evs =
     transact e (checkpoint_body x e st conversation run l now evs)"

definition detail_command :: "codec \<Rightarrow> env \<Rightarrow> nat \<Rightarrow> json submit_command \<Rightarrow> string \<Rightarrow> string \<Rightarrow> json append_command" where
  "detail_command x e b s i body =
     (lifecycle_event x e b s (PPlanning \<lparr>preview = chars_take 200 body, detail_of = Some (en_uuid e (b + 1))\<rparr>)
        ''thinking'')\<lparr>c_key := sha256 x (''thinking:'' @ i), c_detail := Some body\<rparr>"

text \<open>The bodies in the map's iteration order; the flag tells whether one was new.\<close>

fun thinking_detail_rows :: "codec \<Rightarrow> env \<Rightarrow> nat \<Rightarrow> store \<Rightarrow> json submit_command \<Rightarrow> string
    \<Rightarrow> (string \<times> string) list \<Rightarrow> bool \<Rightarrow> database \<Rightarrow> store_error + bool \<times> database" where
  "thinking_detail_rows x e b st s message [] changed db = Inr (changed, db)"
| "thinking_detail_rows x e b st s message ((i, body) # rest) changed db =
     (case find (\<lambda>t. th_message t = message \<and> th_event t = i) (thinking_details db) of
        Some t \<Rightarrow>
          and_then (dec x (th_text t)) (\<lambda>saved.
          if saved \<noteq> body then Inl StoreConflict
          else thinking_detail_rows x e (b + 10) st s message rest changed db)
      | None \<Rightarrow>
          (let c = detail_command x e b s i body in
          and_then (map_err PolicyE (validate (codec_wire x) c)) (\<lambda>_.
          and_then (append_lifecycle x e b st c db) (\<lambda>(_, db1).
          and_then (enc x e (b + 9) body) (\<lambda>ct.
          and_then (insert_thinking \<lparr>th_id = en_uuid e (b + 2), th_message = message, th_event = i, th_text = ct\<rparr> db1) (\<lambda>db2.
          thinking_detail_rows x e (b + 10) st s message rest True db2))))))"

definition thinking_body :: "codec \<Rightarrow> env \<Rightarrow> store \<Rightarrow> string \<Rightarrow> string \<Rightarrow> lease \<Rightarrow> int \<Rightarrow> string
    \<Rightarrow> (string \<times> string) list \<Rightarrow> database \<Rightarrow> store_error + unit \<times> database" where
  "thinking_body x e st conversation run l now0 message texts db =
     and_then (owned_run e st conversation run l now0 db) (\<lambda>(row, _).
     and_then (ensure (lr_assistant row = message) StoreUnauthorized) (\<lambda>_.
     and_then (dec_submission x (lr_submission row)) (\<lambda>s.
     and_then (thinking_detail_rows x e 100 (scoped st) s message texts False db) (\<lambda>(changed, db1).
     and_then (if changed then write_session_sync x conversation SyncUpdate db1 else Inr db1) (\<lambda>db2.
     Inr ((), db2))))))"

definition fenced_thinking_details :: "codec \<Rightarrow> env \<Rightarrow> store \<Rightarrow> string \<Rightarrow> string \<Rightarrow> lease \<Rightarrow> int \<Rightarrow> string
    \<Rightarrow> (string \<times> string) list \<Rightarrow> database \<Rightarrow> (store_error + unit) \<times> database" where
  "fenced_thinking_details x e st conversation run l now message texts =
     transact e (thinking_body x e st conversation run l now message texts)"

subsection \<open>API usage\<close>

record api_usage =
  au_provider :: string
  au_model :: string
  au_input :: int
  au_output :: int
  au_total :: int
  au_cost :: "64 word"
  au_component :: string
  au_provider_cost :: "64 word option"

text \<open>\<open>from_timestamp_millis\<close> fails outside the years chrono can represent.\<close>

definition chrono_millis :: "int \<Rightarrow> store_error + int" where
  "chrono_millis ms = (if - 8334601228800000 \<le> ms \<and> ms \<le> 8210266876799999 then Inr (ms * 1000)
     else Inl (LifecycleE InvalidLease))"

definition usage_body :: "env \<Rightarrow> store \<Rightarrow> string \<Rightarrow> string \<Rightarrow> lease \<Rightarrow> int \<Rightarrow> api_usage
    \<Rightarrow> database \<Rightarrow> store_error + unit \<times> database" where
  "usage_body e st conversation run l now0 u db =
     and_then (owned_run e st conversation run l now0 db) (\<lambda>(_, now).
     and_then (chrono_millis now) (\<lambda>at.
     Inr ((), db\<lparr>api_usage_log := api_usage_log db @ [\<lparr>ul_user = st_actor st, ul_workspace = st_workspace st,
       ul_session = conversation, ul_timestamp = at, ul_provider = au_provider u, ul_model = au_model u,
       ul_input = au_input u, ul_output = au_output u, ul_total = au_total u, ul_cost = au_cost u,
       ul_component = au_component u, ul_provider_cost = au_provider_cost u\<rparr>]\<rparr>)))"

definition fenced_api_usage :: "env \<Rightarrow> store \<Rightarrow> string \<Rightarrow> string \<Rightarrow> lease \<Rightarrow> int \<Rightarrow> api_usage
    \<Rightarrow> database \<Rightarrow> (store_error + unit) \<times> database" where
  "fenced_api_usage e st conversation run l now u = transact e (usage_body e st conversation run l now u)"

subsection \<open>Lookups\<close>

definition run_queue_before :: "run_row \<Rightarrow> run_row \<Rightarrow> bool" where
  "run_queue_before a b \<longleftrightarrow> option_less (rn_queued_at a) (rn_queued_at b)
     \<or> rn_queued_at a = rn_queued_at b \<and> bytes_less (rn_id a) (rn_id b)"

definition find_active_run :: "env \<Rightarrow> store \<Rightarrow> string \<Rightarrow> database \<Rightarrow> (store_error + string option) \<times> database" where
  "find_active_run e st conversation =
     transact e (\<lambda>db. and_then (authorize (scoped st) conversation True db) (\<lambda>_.
       Inr (case sort_by run_queue_before (filter (\<lambda>r. rn_session r = conversation \<and> rn_request r \<noteq> None
           \<and> rn_state r \<in> {''queued'', ''running''} \<and> rn_actor r = Some (st_actor st)) (runs db)) of
         [] \<Rightarrow> None | r # _ \<Rightarrow> Some (rn_id r), db)))"

definition find_run_by_assistant :: "env \<Rightarrow> store \<Rightarrow> string \<Rightarrow> string \<Rightarrow> database
    \<Rightarrow> (store_error + string option) \<times> database" where
  "find_run_by_assistant e st conversation message =
     transact e (\<lambda>db. and_then (authorize (scoped st) conversation True db) (\<lambda>_.
       Inr (map_option rn_id (find (\<lambda>r. rn_session r = conversation \<and> rn_assistant_message r = Some message
         \<and> rn_request r \<noteq> None \<and> rn_actor r = Some (st_actor st)) (runs db)), db)))"

definition is_legacy_conversation :: "env \<Rightarrow> store \<Rightarrow> string \<Rightarrow> database \<Rightarrow> (store_error + bool) \<times> database" where
  "is_legacy_conversation e st conversation =
     transact e (\<lambda>db. and_then (authorize (scoped st) conversation True db) (\<lambda>_.
       and_then (fetch_one (find_session db conversation)) (\<lambda>s. Inr (ss_type s \<noteq> ''chat'', db))))"

definition conversation_for_run :: "store \<Rightarrow> string \<Rightarrow> database \<Rightarrow> store_error + string" where
  "conversation_for_run st run db =
     ok_or (map_option rn_session (find (\<lambda>r. rn_id r = run \<and> rn_actor r = Some (st_actor st)
       \<and> rn_workspace r = Some (st_workspace st)) (runs db))) StoreUnauthorized"

subsection \<open>The lifecycle interface\<close>

definition on_conversation :: "store \<Rightarrow> string \<Rightarrow> (string \<Rightarrow> database \<Rightarrow> (store_error + 'a) \<times> database)
    \<Rightarrow> database \<Rightarrow> (store_error + 'a) \<times> database" where
  "on_conversation st run f db =
     (case conversation_for_run st run db of Inl err \<Rightarrow> (Inl err, db) | Inr conversation \<Rightarrow> f conversation db)"

definition port_submit :: "codec \<Rightarrow> env \<Rightarrow> store \<Rightarrow> json submit_command \<Rightarrow> database
    \<Rightarrow> (store_error + submission_plan) \<times> database" where
  "port_submit x e st c db =
     (case submit x e st c db of
        (Inl err, db') \<Rightarrow> (Inl err, db')
      | (Inr r, db') \<Rightarrow> (Inr \<lparr>sp_run = sr_run r, sp_duplicate = Journal_Lifecycle.sr_duplicate r\<rparr>, db'))"

definition port_claim :: "codec \<Rightarrow> env \<Rightarrow> store \<Rightarrow> string \<Rightarrow> string \<Rightarrow> int \<Rightarrow> int \<Rightarrow> database
    \<Rightarrow> (store_error + run_snapshot) \<times> database" where
  "port_claim x e st run worker now ttl =
     on_conversation st run (\<lambda>conversation db.
       (case claim x e st conversation run worker now ttl db of
          (Inl err, db') \<Rightarrow> (Inl err, db') | (Inr r, db') \<Rightarrow> (Inr (cl_snapshot r), db')))"

definition port_heartbeat :: "env \<Rightarrow> store \<Rightarrow> string \<Rightarrow> lease \<Rightarrow> int \<Rightarrow> int \<Rightarrow> database
    \<Rightarrow> (store_error + run_snapshot) \<times> database" where
  "port_heartbeat e st run l now ttl =
     on_conversation st run (\<lambda>conversation. heartbeat e st conversation run l now ttl)"

definition port_cancel :: "codec \<Rightarrow> env \<Rightarrow> store \<Rightarrow> string \<Rightarrow> int \<Rightarrow> database
    \<Rightarrow> (store_error + lifecycle_plan) \<times> database" where
  "port_cancel x e st run now = on_conversation st run (\<lambda>conversation. cancel_plan x e st conversation run now)"

definition port_finish :: "codec \<Rightarrow> env \<Rightarrow> store \<Rightarrow> string \<Rightarrow> lease \<Rightarrow> int \<Rightarrow> run_state \<Rightarrow> string \<Rightarrow> database
    \<Rightarrow> (store_error + lifecycle_plan) \<times> database" where
  "port_finish x e st run l now final content =
     on_conversation st run (\<lambda>conversation. finish_plan x e st conversation run l now final content None)"

end
