(* ===== verification/Runtime_Sink.thy ===== *)
theory Runtime_Sink
  imports Fenced_Writes
begin

text \<open>
  The event sink of the agent, \<open>crates/kyomi-agent/src/runtime_adapter.rs\<close>, with the two tables it
  renders progress from (\<open>get_friendly_name\<close> and \<open>format_tool_schema\<close> of \<open>thinking.rs\<close>). A commit
  checks its scope, builds the progress event, writes it with the journal event through
  \<open>fenced_execution_event\<close>, retries at most twice when the storage is unavailable, and notifies the
  tracker only of a new event. The tracker is a parameter with a state of its own (websocket and
  in-memory timeline); its failure is reported, not raised. The sleep between attempts has no
  effect on the state and is not modelled; the attempts of one commit follow one another in one step.
\<close>

subsection \<open>Error texts\<close>

fun policy_error_display :: "policy_error \<Rightarrow> string" where
  "policy_error_display (UnsupportedVersion v) = ''unsupported protocol version '' @ show_nat (unat v)"
| "policy_error_display IdempotencyConflict = ''idempotency identity was reused for a different command''"
| "policy_error_display InvalidIdentity = ''invalid or missing identity''"
| "policy_error_display InvalidSubmission = ''run does not exist or submission already occurred''"
| "policy_error_display Terminal = ''terminal run cannot accept new events''"
| "policy_error_display InvalidState = ''invalid run transition''"
| "policy_error_display TooLarge = ''payload exceeds the protocol limit''"
| "policy_error_display InvalidDetail = ''detail body and reference must be supplied together''"
| "policy_error_display (Serialization m) = ''serialization failed: '' @ m"

fun lifecycle_error_display :: "lifecycle_error \<Rightarrow> string" where
  "lifecycle_error_display (Policy e) = policy_error_display e"
| "lifecycle_error_display NotClaimable = ''run is not claimable''"
| "lifecycle_error_display ConversationBusy = ''conversation already has an active run''"
| "lifecycle_error_display StaleLease = ''lease ownership is stale or expired''"
| "lifecycle_error_display InvalidLease = ''invalid lease duration, timestamp, or fence''"

definition show_int :: "int \<Rightarrow> string" where
  "show_int i = (if i < 0 then ''-'' @ show_nat (nat (- i)) else show_nat (nat i))"

text \<open>\<open>d\<close> is the database driver's text of its errors.\<close>

fun store_error_display :: "(db_error \<Rightarrow> string) \<Rightarrow> store_error \<Rightarrow> string" where
  "store_error_display d StoreUnauthorized = ''conversation access denied''"
| "store_error_display d StoreConflict = ''idempotency identity was reused for a different command''"
| "store_error_display d (StoreVersion v) = ''unsupported event version '' @ show_int v"
| "store_error_display d InvalidReplay = ''invalid replay cursor or limit''"
| "store_error_display d RunMismatch = ''requested run does not belong to this conversation''"
| "store_error_display d NoRun = ''conversation has no durable run''"
| "store_error_display d DeliveryTimedOut = ''durable response delivery timed out''"
| "store_error_display d DeliveryFailed = ''durable response transport failed''"
| "store_error_display d (StoreReset CursorInvalid) = ''replay requires a snapshot reset: Invalid''"
| "store_error_display d (StoreReset CursorPruned) = ''replay requires a snapshot reset: Pruned''"
| "store_error_display d (LifecycleE e) = lifecycle_error_display e"
| "store_error_display d MissingProjection = ''projection or run update affected no record''"
| "store_error_display d (PolicyE e) = policy_error_display e"
| "store_error_display d (DatabaseE e) = d e"
| "store_error_display d (ApplicationE e) = app_error_display d e"
| "store_error_display d (JsonE m) = m"

subsection \<open>Tool names and schemas\<close>

definition TOOL_FRIENDLY_NAMES :: "(string \<times> string) list" where
  "TOOL_FRIENDLY_NAMES =
    [(''browse_catalog'', ''Browsing catalog''),
     (''search_catalog'', ''Searching for tables''),
     (''list_datasources'', ''Listing datasources''),
     (''get_table_info'', ''Getting table information''),
     (''sample_table'', ''Sampling table data''),
     (''query_datasource'', ''Querying your data''),
     (''validate_sql'', ''Validating SQL''),
     (''estimate_query_cost'', ''Estimating query costs''),
     (''forecast_data'', ''Generating forecast''),
     (''get_workspace_info'', ''Getting workspace info''),
     (''search_dashboards'', ''Searching dashboards''),
     (''get_dashboard_info'', ''Getting dashboard details''),
     (''create_dashboard'', ''Creating dashboard''),
     (''modify_dashboard'', ''Updating dashboard''),
     (''delete_dashboard'', ''Deleting dashboard''),
     (''get_chartml_spec'', ''Looking up ChartML spec''),
     (''validate_chartml'', ''Validating ChartML''),
     (''update_chart'', ''Updating chart''),
     (''render_chart'', ''Rendering chart''),
     (''search_knowledge'', ''Searching knowledge base''),
     (''write_knowledge_file'', ''Writing knowledge file''),
     (''read_knowledge_file'', ''Reading knowledge file''),
     (''list_knowledge_files'', ''Browsing knowledge files''),
     (''edit_knowledge_file'', ''Editing knowledge file''),
     (''create_watch'', ''Creating watch''),
     (''preview_watch'', ''Previewing watch''),
     (''update_watch'', ''Updating watch''),
     (''update_watch_draft'', ''Drafting watch update''),
     (''search_watches'', ''Searching watches''),
     (''delete_watch'', ''Deleting watch''),
     (''get_watch_info'', ''Getting watch details''),
     (''trigger_watch'', ''Triggering watch''),
     (''browse_resources'', ''Browsing documentation''),
     (''read_resource'', ''Reading documentation''),
     (''create_analytics_site'', ''Creating analytics site''),
     (''list_analytics_sites'', ''Listing analytics sites''),
     (''update_analytics_site'', ''Updating analytics site''),
     (''delete_analytics_site'', ''Deleting analytics site'')]"

definition get_friendly_name :: "string \<Rightarrow> string" where
  "get_friendly_name t = (case map_of TOOL_FRIENDLY_NAMES t of None \<Rightarrow> ''Using tool'' | Some n \<Rightarrow> n)"

definition str_field :: "string \<Rightarrow> json \<Rightarrow> string option" where
  "str_field k v = Option.bind (json_get k v) as_str"

definition text_or :: "string option \<Rightarrow> string" where
  "text_or v = (case v of None \<Rightarrow> [] | Some s \<Rightarrow> s)"

definition with_datasource :: "string \<Rightarrow> string \<Rightarrow> json \<Rightarrow> json" where
  "with_datasource k s d = json_object ((k, JString s) #
     (case str_field ''datasource'' d of None \<Rightarrow> [] | Some n \<Rightarrow> [(''datasource'', JString n)]))"

definition format_tool_schema :: "string \<Rightarrow> json \<Rightarrow> bool \<Rightarrow> json" where
  "format_tool_schema t d is_input =
     (let schema = (\<lambda>k v. json_object [(''tool'', JString t), (k, v)]) in
      if \<not> is_input then schema ''output'' d
      else if t = ''query_datasource'' \<or> t = ''bigquery_query''
      then schema ''input'' (with_datasource ''sql''
        (text_or (Option.bind (case json_get ''sql_query'' d of None \<Rightarrow> json_get ''sql'' d | Some v \<Rightarrow> Some v) as_str)) d)
      else if t = ''search_knowledge'' \<or> t = ''search_catalog'' \<or> t = ''bigquery_search''
      then schema ''input'' (with_datasource ''query'' (text_or (str_field ''query'' d)) d)
      else if t = ''get_table_info'' \<or> t = ''bigquery_table_info''
      then schema ''input'' (with_datasource ''table_name'' (text_or (str_field ''table_name'' d)) d)
      else if t = ''validate_sql''
      then schema ''input'' (json_object [(''sql'', JString (text_or (str_field ''sql'' d))),
        (''datasource'', JString (text_or (str_field ''datasource'' d)))])
      else schema ''input'' d)"

subsection \<open>Progress events\<close>

datatype thinking_event_type = AgentStart | AgentThought | ToolExecutionStart | ToolExecutionEnd
  | AgentDecision | AgentComplete | ThinkingError

fun thinking_type_str :: "thinking_event_type \<Rightarrow> string" where
  "thinking_type_str AgentStart = ''agent_start''"
| "thinking_type_str AgentThought = ''agent_thought''"
| "thinking_type_str ToolExecutionStart = ''tool_execution_start''"
| "thinking_type_str ToolExecutionEnd = ''tool_execution_end''"
| "thinking_type_str AgentDecision = ''agent_decision''"
| "thinking_type_str AgentComplete = ''agent_complete''"
| "thinking_type_str ThinkingError = ''error''"

record thinking_event =
  te_type :: thinking_event_type
  te_timestamp :: string
  te_title :: string
  te_event :: "string option"
  te_description :: "string option"
  te_data :: "json option"
  te_duration :: "64 word option"
  te_full :: bool

text \<open>The serialized event: absent fields and a false flag are skipped.\<close>

definition thinking_json :: "thinking_event \<Rightarrow> json" where
  "thinking_json v = json_object
     ([(''event_type'', JString (thinking_type_str (te_type v))), (''timestamp'', JString (te_timestamp v)),
       (''title'', JString (te_title v))]
      @ (case te_event v of None \<Rightarrow> [] | Some i \<Rightarrow> [(''event_id'', JString i)])
      @ (case te_description v of None \<Rightarrow> [] | Some s \<Rightarrow> [(''description'', JString s)])
      @ (case te_data v of None \<Rightarrow> [] | Some d \<Rightarrow> [(''data'', d)])
      @ (case te_duration v of None \<Rightarrow> [] | Some n \<Rightarrow> [(''duration_ms'', JNumber (show_nat (unat n)))])
      @ (if te_full v then [(''has_full_text'', JBool True)] else []))"

type_synonym tool_memory = "string \<Rightarrow> (string \<times> json) option"

definition remembered :: "tool_memory \<Rightarrow> string \<Rightarrow> string \<times> json" where
  "remembered m t = (case m t of None \<Rightarrow> ([], JObject []) | Some v \<Rightarrow> v)"

definition check_mark :: string where "check_mark = [CHR 0xE2, CHR 0x9C, CHR 0x85]"
definition cross_mark :: string where "cross_mark = [CHR 0xE2, CHR 0x9D, CHR 0x8C]"

fun transport_str :: "transport_outcome \<Rightarrow> string" where
  "transport_str TransportCompleted = ''completed''"
| "transport_str TransportFailed = ''failed''"
| "transport_str TransportUnknown = ''unknown''"

fun domain_str :: "domain_outcome \<Rightarrow> string" where
  "domain_str DomainSucceeded = ''succeeded''"
| "domain_str DomainRejected = ''rejected''"
| "domain_str DomainUnknown = ''unknown''"

text \<open>The output members of a finished call replace those of its input schema.\<close>

definition merge_schema :: "json \<Rightarrow> json \<Rightarrow> json" where
  "merge_schema schema out =
     (case (as_object schema, as_object out) of
        (Some ms, Some os) \<Rightarrow> JObject (fold (\<lambda>(k, v) acc. members_insert k v acc) os ms)
      | _ \<Rightarrow> schema)"

definition progress :: "codec \<Rightarrow> string \<Rightarrow> tool_memory \<Rightarrow> json append_command \<Rightarrow> thinking_event option \<times> tool_memory" where
  "progress x now m c =
     (let started = (\<lambda>ty title desc d full. Some \<lparr>te_type = ty, te_timestamp = now, te_title = title,
         te_event = Some (c_event c), te_description = Some desc, te_data = d, te_duration = None, te_full = full\<rparr>) in
      case c_payload c of
        Restricted _ \<Rightarrow> (None, m)
      | Public p \<Rightarrow> (case p of
          PPlanning t \<Rightarrow> (started AgentThought ''Planning'' (preview t) None (detail_of t \<noteq> None), m)
        | PToolIntent i name args \<Rightarrow> (None, m(i := Some (name, args)))
        | PToolStarted i \<Rightarrow>
            (let (name, input) = remembered m i in
             (started ToolExecutionStart (get_friendly_name name) ''Working on it...''
               (Some (json_object [(''tool_name'', JString name), (''tool_call_id'', JString i),
                 (''status'', JString ''processing''), (''schema'', format_tool_schema name input True)])) False, m))
        | PToolOutcome i t tr dm \<Rightarrow>
            (let (name, input) = remembered m i;
                 output = (case json_read (cx_aead x) (exposed_body c t) of Inl _ \<Rightarrow> JObject [] | Inr v \<Rightarrow> v);
                 success = (tr = TransportCompleted \<and> dm = DomainSucceeded) in
             (started ToolExecutionEnd
               ((if success then check_mark else cross_mark) @ '' '' @ get_friendly_name name) (preview t)
               (Some (json_object [(''tool_name'', JString name), (''tool_call_id'', JString i),
                 (''status'', JString ''completed''), (''success'', JBool success),
                 (''transport'', JString (transport_str tr)), (''domain'', JString (domain_str dm)),
                 (''result'', JString (preview t)),
                 (''schema'', merge_schema (format_tool_schema name input True) (format_tool_schema name output False))]))
               (detail_of t \<noteq> None), m))
        | _ \<Rightarrow> (None, m)))"

subsection \<open>The sink\<close>

record durable_run =
  dr_conversation :: string
  dr_run :: string
  dr_lease :: lease

record runtime_sink =
  rk_codec :: codec
  rk_user :: string
  rk_workspace :: string
  rk_run :: durable_run
  rk_db_text :: "db_error \<Rightarrow> string"

text \<open>What the tracker is told about a new event; it answers with an error text or nothing.\<close>

datatype tracker_call =
    TokenUsage "32 word" "32 word" "64 word option"
  | ExecutionEvent thinking_event "string option"

record 'n sink_state =
  sk_db :: database
  sk_tools :: tool_memory
  sk_tracker :: 'n

text \<open>The environments of one commit: the journal attempts, the progress timestamp, the tracker.\<close>

record 'n sink_env =
  se_attempt :: "nat \<Rightarrow> env"
  se_now :: string
  se_tracker :: "(tracker_call \<Rightarrow> 'n \<Rightarrow> string option \<times> 'n) option"

definition rk_store :: "runtime_sink \<Rightarrow> store" where
  "rk_store k = new_store (rk_user k) (rk_workspace k)"

definition retryable :: "store_error \<Rightarrow> bool" where
  "retryable e = (case e of DatabaseE (DbIo _) \<Rightarrow> True | DatabaseE PoolTimedOut \<Rightarrow> True
     | DatabaseE PoolClosed \<Rightarrow> True | _ \<Rightarrow> False)"

text \<open>\<open>attempt\<close> counts the retries made; at most two follow the first attempt.\<close>

function commit_attempts :: "(nat \<Rightarrow> database \<Rightarrow> (store_error + commit_receipt) \<times> database) \<Rightarrow> nat
    \<Rightarrow> database \<Rightarrow> (store_error + commit_receipt) \<times> database" where
  "commit_attempts write attempt db =
     (case write attempt db of
        (Inr r, db') \<Rightarrow> (Inr r, db')
      | (Inl e, db') \<Rightarrow>
          if \<not> retryable e \<or> attempt \<ge> 2 then (Inl e, db')
          else commit_attempts write (attempt + 1) db')"
  by auto
termination by (relation "measure (\<lambda>(_, n, _). 2 - n)") auto

declare commit_attempts.simps [simp del]

definition u32_of :: "64 word \<Rightarrow> 32 word option" where
  "u32_of w = (if unat w < 2 ^ 32 then Some (ucast w) else None)"

definition notify_tracker :: "json append_command \<Rightarrow> thinking_event option
    \<Rightarrow> (tracker_call \<Rightarrow> 'n \<Rightarrow> string option \<times> 'n) \<Rightarrow> 'n \<Rightarrow> string option \<times> 'n" where
  "notify_tracker c pr tr n =
     (case c_payload c of
        Public (PUsage _ u cost) \<Rightarrow>
          (case (u32_of (input_tokens u), u32_of (output_tokens u)) of
             (Some i, Some k) \<Rightarrow> tr (TokenUsage i k cost) n
           | _ \<Rightarrow> (Some ''Committed token usage exceeds the interface range'', n))
      | _ \<Rightarrow> (case pr of None \<Rightarrow> (None, n) | Some v \<Rightarrow> tr (ExecutionEvent v (c_detail c)) n))"

definition in_scope :: "runtime_sink \<Rightarrow> string \<Rightarrow> string \<Rightarrow> bool" where
  "in_scope k conversation run \<longleftrightarrow> conversation = dr_conversation (rk_run k) \<and> run = dr_run (rk_run k)"

definition sink_commit :: "runtime_sink \<Rightarrow> 'n sink_env \<Rightarrow> json append_command \<Rightarrow> 'n sink_state
    \<Rightarrow> (execution_error + sink_receipt) \<times> 'n sink_state" where
  "sink_commit k v c s =
     (if \<not> in_scope k (c_conversation c) (c_run c) then (Inl (Persistence ''runtime scope mismatch''), s)
      else
        let (pr, tools) = progress (rk_codec k) (se_now v) (sk_tools s) c;
            write = (\<lambda>i. fenced_execution_event (rk_codec k) (se_attempt v i) (rk_store k) c
              (dr_lease (rk_run k)) (map_option thinking_json pr));
            (res, db') = commit_attempts write 0 (sk_db s);
            s' = s\<lparr>sk_db := db', sk_tools := tools\<rparr>
        in case res of
             Inl e \<Rightarrow> (Inl (Persistence (store_error_display (rk_db_text k) e)), s')
           | Inr r \<Rightarrow>
               (case (r_duplicate r, se_tracker v) of
                  (False, Some tr) \<Rightarrow>
                    (let (err, n') = notify_tracker c pr tr (sk_tracker s) in
                     (Inr \<lparr>sr_receipt = r, notification_error = err\<rparr>, s'\<lparr>sk_tracker := n'\<rparr>))
                | _ \<Rightarrow> (Inr \<lparr>sr_receipt = r, notification_error = None\<rparr>, s')))"

definition sink_outcome :: "runtime_sink \<Rightarrow> 'n sink_env \<Rightarrow> execution_context \<Rightarrow> string \<Rightarrow> 'n sink_state
    \<Rightarrow> execution_error + tool_outcome option" where
  "sink_outcome k v c t s =
     (if \<not> in_scope k (ec_conversation c) (ec_run c) then Inl (Persistence ''runtime scope mismatch'')
      else map_err (\<lambda>e. Persistence (store_error_display (rk_db_text k) e))
        (fst (tool_outcome_of (rk_codec k) (se_attempt v 0) (rk_store k) (ec_conversation c) (ec_run c) t (sk_db s))))"

definition runtime_event_sink :: "runtime_sink \<Rightarrow> ('n sink_env, json, 'n sink_state) event_sink" where
  "runtime_event_sink k = \<lparr>es_commit = sink_commit k, es_outcome = sink_outcome k\<rparr>"

end
