(* ===== verification/Journal_Effects.thy ===== *)
theory Journal_Effects
  imports Fenced_Writes
begin

text \<open>
  What every operation of the durable store does to the journal: events and aliases are only added
  and the journal's invariant is kept. One rule per combinator carries the predicate \<open>keeps\<close>
  through an operation's body.
\<close>

subsection \<open>Steps of the database\<close>

text \<open>
  A relation between the database before and after, kept through an operation's body: one rule per
  combinator of the model. \<open>p\<close> picks the new database from the body's result.
\<close>

locale db_step =
  fixes R :: "database \<Rightarrow> database \<Rightarrow> bool"
  assumes step_refl: "R db db"
    and step_trans: "R a b \<Longrightarrow> R b c \<Longrightarrow> R a c"
begin

definition keeps :: "('a \<Rightarrow> database) \<Rightarrow> database \<Rightarrow> 'e + 'a \<Rightarrow> bool" where
  "keeps p db r \<longleftrightarrow> (\<forall>v. r = Inr v \<longrightarrow> R db (p v))"

lemma keeps_Inl: "keeps p db (Inl e)"
  by (simp add: keeps_def)

lemma keeps_pair: "R db db' \<Longrightarrow> keeps snd db (Inr (v, db'))"
  by (simp add: keeps_def)

lemma keeps_db: "R db db' \<Longrightarrow> keeps id db (Inr db')"
  by (simp add: keeps_def)

lemma keeps_then_db:
  "keeps id db m \<Longrightarrow> (\<And>db1. m = Inr db1 \<Longrightarrow> keeps p db1 (f db1)) \<Longrightarrow> keeps p db (and_then m f)"
  by (auto simp: keeps_def and_then_eq_Inr intro: step_trans)

lemma keeps_then_pair:
  "keeps snd db m \<Longrightarrow> (\<And>a db1. m = Inr (a, db1) \<Longrightarrow> keeps p db1 (f (a, db1))) \<Longrightarrow> keeps p db (and_then m f)"
  by (fastforce simp: keeps_def and_then_eq_Inr intro: step_trans)

lemma keeps_then_value: "(\<And>a. m = Inr a \<Longrightarrow> keeps p db (f a)) \<Longrightarrow> keeps p db (and_then m f)"
  by (auto simp: keeps_def and_then_eq_Inr)

lemma keeps_if: "(b \<Longrightarrow> keeps p db x) \<Longrightarrow> (\<not> b \<Longrightarrow> keeps p db y) \<Longrightarrow> keeps p db (if b then x else y)"
  by simp

lemma keeps_Let: "keeps p db (f x) \<Longrightarrow> keeps p db (Let x f)"
  by simp

lemma keeps_option: "(x = None \<Longrightarrow> keeps p db a) \<Longrightarrow> (\<And>y. x = Some y \<Longrightarrow> keeps p db (f y)) \<Longrightarrow>
    keeps p db (case x of None \<Rightarrow> a | Some y \<Rightarrow> f y)"
  by (cases x) auto

lemma keeps_beta: "keeps p db (f a b) \<Longrightarrow> keeps p db (case (a, b) of (x, y) \<Rightarrow> f x y)"
  by simp

lemma keeps_prod: "(\<And>a b. z = (a, b) \<Longrightarrow> keeps p db (f a b)) \<Longrightarrow> keeps p db (case z of (x, y) \<Rightarrow> f x y)"
  by (cases z) auto

lemma keeps_started: "(\<And>t. v = Public (PToolStarted t) \<Longrightarrow> keeps p db (f t)) \<Longrightarrow> keeps p db g \<Longrightarrow>
    keeps p db (case v of Public (PToolStarted t) \<Rightarrow> f t | _ \<Rightarrow> g)"
  by (auto split: payload.splits public_payload.splits)

lemmas keeps_combinators = keeps_Inl keeps_pair keeps_db keeps_then_db keeps_then_pair keeps_then_value
  keeps_if keeps_Let keeps_option keeps_beta keeps_prod

lemma keeps_from: "R db db1 \<Longrightarrow> keeps p db1 r \<Longrightarrow> keeps p db r"
  unfolding keeps_def by (blast intro: step_trans)

lemma keeps_whole: "(\<And>db'. r = Inr db' \<Longrightarrow> R db db') \<Longrightarrow> keeps id db r"
  by (simp add: keeps_def)

lemma keeps_snd: "keeps snd db r \<Longrightarrow> r = Inr (v, db') \<Longrightarrow> R db db'"
  by (simp add: keeps_def)

lemma keeps_transact: "keeps snd db (body db) \<Longrightarrow> R db (snd (transact e body db))"
  using transact_cases [of e body db] step_refl by (auto simp: keeps_def)

end

subsection \<open>Journal steps\<close>

definition journal_step :: "database \<Rightarrow> database \<Rightarrow> bool" where
  "journal_step db db' \<longleftrightarrow> journal_grows db db' \<and> (journal_inv db \<longrightarrow> journal_inv db')"

lemma journal_step_refl [simp, intro]: "journal_step db db"
  by (simp add: journal_step_def)

lemma journal_step_trans [trans]:
  assumes "journal_step p q" "journal_step q r"
  shows "journal_step p r"
proof -
  from assms have "journal_grows p q" "journal_grows q r" unfolding journal_step_def by iprover+
  then have "journal_grows p r" by (rule journal_grows_trans)
  moreover from assms have "journal_inv p \<longrightarrow> journal_inv r" unfolding journal_step_def by iprover
  ultimately show ?thesis unfolding journal_step_def by (rule conjI)
qed

lemma journal_step_core: "journal_core db' = journal_core db \<Longrightarrow> journal_step db db'"
  unfolding journal_step_def by (simp only: core_grows core_inv [of db' db] simp_thms)

interpretation js: db_step journal_step
  by unfold_locales (auto intro: journal_step_trans)

lemma keeps_of_core: "(\<And>db'. r = Inr db' \<Longrightarrow> journal_core db' = journal_core db) \<Longrightarrow> js.keeps id db r"
  by (simp add: js.keeps_def journal_step_core)

subsection \<open>Statements\<close>

lemma keeps_append_lifecycle: "js.keeps snd db (append_lifecycle x e b st c db)"
  unfolding append_lifecycle_def
  by (rule js.keeps_then_value)
    (auto simp: js.keeps_def journal_step_def dest: persist_append_grows persist_append_inv)

lemma keeps_update_message: "js.keeps id db (update_message q f db)"
  by (rule keeps_of_core) (rule update_message_core)

lemma keeps_insert_message: "js.keeps id db (insert_message m db)"
  by (rule keeps_of_core) (auto simp: insert_message_def and_then_eq_Inr core_eq)

lemma keeps_insert_thinking: "js.keeps id db (insert_thinking r db)"
  by (rule keeps_of_core) (auto simp: insert_thinking_def and_then_eq_Inr core_eq)

lemma keeps_update_run: "js.keeps id db (update_run r f db)"
  by (rule keeps_of_core) (auto simp: update_run_def Let_def core_eq split: if_splits)

lemma keeps_write_snapshot: "js.keeps id db (write_snapshot r s db)"
  unfolding write_snapshot_def by (intro js.keeps_combinators keeps_update_run) simp

lemma keeps_write_session_sync: "js.keeps id db (write_session_sync x c a db)"
  unfolding write_session_sync_def by (intro js.keeps_combinators) (simp add: journal_step_core core_eq)

lemma keeps_write_answer: "js.keeps id db (write_answer x e b c j db)"
  unfolding write_answer_def by (intro js.keeps_combinators keeps_update_message)

lemma keeps_store_metadata: "js.keeps id db (store_metadata x e i m c v db)"
  unfolding store_metadata_def by (intro js.keeps_combinators keeps_update_message)

lemma keeps_settle_starts: "js.keeps id db (settle_starts x e b st s cts db)"
proof (induction cts arbitrary: b db)
  case (Cons ct cts)
  show ?case unfolding settle_starts.simps
    by (intro js.keeps_then_value js.keeps_started js.keeps_if js.keeps_then_pair keeps_append_lifecycle js.keeps_beta Cons)
qed (simp add: js.keeps_db)

lemmas keeps_statements = keeps_append_lifecycle keeps_update_message keeps_insert_message
  keeps_insert_thinking keeps_update_run keeps_write_snapshot keeps_write_session_sync
  keeps_write_answer keeps_store_metadata keeps_settle_starts

lemma keeps_write_terminal: "js.keeps id db (write_terminal x e st s p db)"
  unfolding write_terminal_def
  by (intro keeps_statements js.keeps_combinators) simp_all

subsection \<open>Operations\<close>

lemma keeps_open_session: "js.keeps id db (open_session x e st c db)"
proof -
  have "journal_step db (db\<lparr>sessions := ss\<rparr>)"
    if "insert_row nm (\<lambda>s. ss_id s = i) (fresh_session i st t) (sessions db) = Inr ss" for nm i t ss
  proof -
    from that have ss: "ss = sessions db @ [fresh_session i st t]" "\<forall>s \<in> set (sessions db). ss_id s \<noteq> i"
      by (auto simp: insert_row_def list_ex_iff split: if_splits)
    have "ev_session v \<noteq> i" if inv: "journal_inv db" and v: "v \<in> set (events db)" for v
    proof -
      from inv have "ev_session ` set (events db) \<subseteq> ss_id ` set (sessions db)" by (simp add: journal_inv_def)
      from subsetD [OF this imageI [OF v]] ss(2) show ?thesis by auto
    qed
    with ss show ?thesis
      by (auto simp: journal_step_def journal_grows_def journal_inv_def session_events_def find_event_def
          fresh_session_def filter_empty_conv)
  qed
  then show ?thesis
    unfolding open_session_def Let_def
    by (intro js.keeps_if js.keeps_Inl js.keeps_then_value) (auto simp: js.keeps_def)
qed

text \<open>A change outside the journal's tables before a statement is part of that statement's step.\<close>

lemma keeps_append_after: "journal_core db1 = journal_core db \<Longrightarrow> js.keeps snd db (append_lifecycle x e b st c db1)"
  by (rule js.keeps_from [OF journal_step_core keeps_append_lifecycle])

lemma keeps_accept_submission: "js.keeps snd db (accept_submission x e st c db)"
  unfolding accept_submission_def Let_def
  by (intro keeps_append_after keeps_open_session keeps_statements js.keeps_combinators) (simp_all add: core_eq)

lemma keeps_submit_body: "js.keeps snd db (submit_body x e st c db)"
  unfolding submit_body_def
  by (intro js.keeps_option keeps_accept_submission js.keeps_then_value js.keeps_pair) simp

lemma keeps_claim_body: "js.keeps snd db (claim_body x e st cv rn ow now ttl db)"
  unfolding claim_body_def Let_def
  by (intro keeps_statements js.keeps_combinators) simp_all

lemma keeps_heartbeat_body: "js.keeps snd db (heartbeat_body e st cv rn l now ttl db)"
  unfolding heartbeat_body_def Let_def
  by (intro keeps_statements js.keeps_combinators) simp_all

lemma keeps_cancel_body: "js.keeps snd db (cancel_body x e st cv rn now db)"
  unfolding cancel_body_def Let_def
  by (intro keeps_statements keeps_write_terminal js.keeps_combinators) simp_all

lemma keeps_finish_body: "js.keeps snd db (finish_body x e st cv rn l now f ct md db)"
  unfolding finish_body_def Let_def write_metadata_def
  by (intro keeps_statements keeps_write_terminal js.keeps_combinators) simp_all

lemma keeps_expire_body: "js.keeps snd db (expire_body x e st cv rn now db)"
  unfolding expire_body_def Let_def
  by (intro keeps_statements keeps_write_terminal js.keeps_combinators) simp_all

lemma keeps_message_body: "js.keeps snd db (message_body x e st cv rn l now m db)"
  unfolding message_body_def write_message_def Let_def
  by (intro keeps_statements js.keeps_combinators) simp_all

text \<open>A session's configuration is not what the invariant speaks about.\<close>

lemma journal_step_config:
  "journal_step db (db\<lparr>sessions := update_where q (\<lambda>s. s\<lparr>ss_config := v, ss_updated_at := t\<rparr>) (sessions db)\<rparr>)"
proof -
  let ?ss = "update_where q (\<lambda>s. s\<lparr>ss_config := v, ss_updated_at := t\<rparr>) (sessions db)"
  have ids: "map ss_id ?ss = map ss_id (sessions db)" by (rule map_update_where) simp
  then have "ss_id ` set ?ss = ss_id ` set (sessions db)" by (metis list.set_map)
  with ids show ?thesis
    by (auto simp: journal_step_def journal_grows_def journal_inv_def session_events_def find_event_def
        set_update_where)
qed

lemma keeps_metadata_body: "js.keeps snd db (metadata_body x e st cv rn l now md db)"
proof -
  have sync: "js.keeps id db (write_session_sync x c a
      (db\<lparr>sessions := update_where q (\<lambda>s. s\<lparr>ss_config := v, ss_updated_at := t\<rparr>) (sessions db)\<rparr>))" for c a q v t
    using keeps_write_session_sync journal_step_config journal_step_trans unfolding js.keeps_def by blast
  show ?thesis
    unfolding metadata_body_def Let_def by (intro sync js.keeps_combinators) simp_all
qed

lemma keeps_write_progress: "js.keeps id db (write_progress x e st row c v db)"
  unfolding write_progress_def Let_def
  by (intro keeps_statements js.keeps_combinators) simp_all

lemma keeps_execution_body: "js.keeps snd db (execution_body x e st c l pr db)"
  unfolding execution_body_def Let_def
  by (intro keeps_statements keeps_write_progress js.keeps_combinators) simp_all

lemma keeps_checkpoint_body: "js.keeps snd db (checkpoint_body x e st cv rn l now evs db)"
  unfolding checkpoint_body_def Let_def
  by (intro keeps_statements js.keeps_combinators) simp_all

lemma keeps_thinking_rows: "js.keeps snd db (thinking_detail_rows x e b st s m ts ch db)"
proof (induction ts arbitrary: b ch db)
  case (Cons t ts)
  show ?case
    by (cases t) (simp only: thinking_detail_rows.simps Let_def,
      intro Cons keeps_statements js.keeps_combinators)
qed (simp add: js.keeps_pair)

lemma keeps_thinking_body: "js.keeps snd db (thinking_body x e st cv rn l now m ts db)"
  unfolding thinking_body_def Let_def
  by (intro keeps_statements keeps_thinking_rows js.keeps_combinators) simp_all

lemma keeps_usage_body: "js.keeps snd db (usage_body e st cv rn l now u db)"
  unfolding usage_body_def Let_def
  by (intro keeps_statements js.keeps_combinators) (simp add: journal_step_core core_eq)

subsection \<open>Every call of the store\<close>

text \<open>The operations a process calls on the store, with the arguments of each.\<close>

datatype store_call =
    CallAppend "json append_command"
  | CallFencedAppend "json append_command" lease
  | CallSubmit "json submit_command"
  | CallClaim string string string int int
  | CallHeartbeat string string lease int int
  | CallCancel string string int
  | CallFinish string string lease int run_state string "json option"
  | CallExpire string string int
  | CallExecution "json append_command" lease "json option"
  | CallMessage string string lease int message_write
  | CallMetadata string string lease int json
  | CallCheckpoint string string lease int "json list"
  | CallDetails string string lease int string "(string \<times> string) list"
  | CallUsage string string lease int api_usage

fun store_call_effect :: "codec \<Rightarrow> env \<times> store \<times> store_call \<Rightarrow> database \<Rightarrow> database" where
  "store_call_effect x (e, st, CallAppend c) db = snd (store_append x e st c db)"
| "store_call_effect x (e, st, CallFencedAppend c l) db = snd (fenced_append x e st c l db)"
| "store_call_effect x (e, st, CallSubmit c) db = snd (submit x e st c db)"
| "store_call_effect x (e, st, CallClaim cv r w now ttl) db = snd (claim x e st cv r w now ttl db)"
| "store_call_effect x (e, st, CallHeartbeat cv r l now ttl) db = snd (heartbeat e st cv r l now ttl db)"
| "store_call_effect x (e, st, CallCancel cv r now) db = snd (cancel_plan x e st cv r now db)"
| "store_call_effect x (e, st, CallFinish cv r l now f ct md) db = snd (finish_plan x e st cv r l now f ct md db)"
| "store_call_effect x (e, st, CallExpire cv r now) db = snd (expire x e st cv r now db)"
| "store_call_effect x (e, st, CallExecution c l pr) db = snd (fenced_execution_event x e st c l pr db)"
| "store_call_effect x (e, st, CallMessage cv r l now m) db = snd (fenced_message x e st cv r l now m db)"
| "store_call_effect x (e, st, CallMetadata cv r l now v) db = snd (fenced_session_metadata x e st cv r l now v db)"
| "store_call_effect x (e, st, CallCheckpoint cv r l now evs) db = snd (fenced_thinking_events x e st cv r l now evs db)"
| "store_call_effect x (e, st, CallDetails cv r l now m ts) db = snd (fenced_thinking_details x e st cv r l now m ts db)"
| "store_call_effect x (e, st, CallUsage cv r l now u) db = snd (fenced_api_usage e st cv r l now u db)"

lemma append_step: "journal_step db (snd (store_append x e st c db))"
  using append_grows append_inv by (auto simp: journal_step_def prod_eq_iff)

lemma submit_step: "journal_step db (snd (submit x e st c db))"
  by (auto simp: submit_def js.keeps_transact keeps_submit_body split: sum.splits)

lemma execution_step: "journal_step db (snd (fenced_execution_event x e st c l pr db))"
  by (auto simp: fenced_execution_event_def js.keeps_transact keeps_execution_body split: sum.splits)

lemmas transact_steps = keeps_claim_body keeps_heartbeat_body keeps_cancel_body keeps_finish_body
  keeps_expire_body keeps_message_body keeps_metadata_body keeps_checkpoint_body keeps_thinking_body
  keeps_usage_body

lemma call_step: "journal_step db (store_call_effect x call db)"
  by (cases "(x, call, db)" rule: store_call_effect.cases)
    (simp_all add: append_step fenced_append_def submit_step execution_step claim_def heartbeat_def cancel_plan_def
      finish_plan_def expire_def fenced_message_def fenced_session_metadata_def fenced_thinking_events_def
      fenced_thinking_details_def fenced_api_usage_def js.keeps_transact transact_steps)

lemma calls_step: "journal_step db (fold (store_call_effect x) calls db)"
  by (induction calls arbitrary: db) (auto intro: journal_step_trans call_step)

text \<open>C4: Whatever calls reach the durable store, in whatever order, with whatever principals, clocks, failures
  of the database and lost acknowledgements, the journal stays well-formed: sessions keep distinct
  identities, each session's events are numbered 1, 2, ... up to its counter without a gap, every
  acknowledged key leads to a stored event, and nothing that was written is changed or removed. This covers
  appends, submissions, claims, heartbeats, cancellations, finishes, expiries and all fenced writes.\<close>

theorem journal_survives_every_call:
  assumes "journal_inv db"
  shows "journal_inv (fold (store_call_effect x) calls db)
    \<and> journal_grows db (fold (store_call_effect x) calls db)"
  using calls_step [of db x calls] assms by (simp add: journal_step_def)

theorem journal_survives_every_call_witness:
  "journal_inv (fold (store_call_effect sample_codec)
     [(sample_env, new_store ''a'' ''w'', CallAppend sample_submission),
      (sample_env, new_store ''b'' ''w'', CallExpire ''c'' ''r'' 0)] sample_database)"
  using journal_survives_every_call [OF sample_database_inv] by blast

end
