(* ===== verification/Shared_Sink.thy ===== *)
theory Shared_Sink
  imports Runtime_Sink Journal_Effects
begin

text \<open>
  The event sinks of all processes that work on one database, as one durable sink. A commit comes
  with the process that makes it (its principal, run, lease, tool memory and tracker), the
  environment it draws from, and the calls other processes made on the store since the last
  commit. The state is the database alone: \<open>recorded\<close> is the journal's acknowledgement, so the
  contract of \<open>Tool_Execution\<close> holds for the code's sink over the code's store.
\<close>

subsection \<open>What an execution event does to the journal\<close>

lemma execution_event_acknowledges:
  assumes "fenced_execution_event x e st c l pr db = (Inr r, db')" "journal_inv db" "codec_ok x"
  shows "acknowledged_by x db' c = Some (r_event r, r_sequence r)"
proof -
  from assms(1) have body: "execution_body x e st c l pr db = Inr (r, db')"
    by (auto simp: fenced_execution_event_def transact_Inr split: sum.splits)
  then obtain fp db1 sst where fp: "command_fingerprint x c = Inr fp"
      and app: "persist_append x e 1 sst False c fp db = Inr (r, db1)"
      and rest: "db' = db1 \<or> (\<exists>row v. write_progress x e sst row c v db1 = Inr db')"
    by (fastforce simp: execution_body_def append_lifecycle_def and_then_eq_Inr Let_def
        split: if_splits option.splits)
  from persist_append_acknowledges [OF app assms(2,3) fingerprint_utf8 [OF assms(3) fp]] fp
  have "acknowledged_by x db1 c = Some (r_event r, r_sequence r)" by (auto simp: acknowledged_by_def)
  moreover have "journal_step db1 db'"
    using rest keeps_write_progress [of db1 x e sst] by (auto simp: js.keeps_def)
  ultimately show ?thesis
    using acknowledged_grows [of db1 db'] persist_append_inv [OF app assms(2)] by (simp add: journal_step_def)
qed

lemma execution_event_duplicate:
  assumes "acknowledged_by x db c = Some q" "fenced_execution_event x e st c l pr db = (Inr r, db')"
  shows "r_duplicate r"
proof -
  from assms(1) obtain fp r0 where fp: "command_fingerprint x c = Inr fp"
      "existing_receipt x c fp db = Inr (Some r0)" "r_duplicate r0"
    by (cases q) (force elim: acknowledged_existing)
  from assms(2) have "execution_body x e st c l pr db = Inr (r, db')"
    by (auto simp: fenced_execution_event_def transact_Inr split: sum.splits)
  then obtain sst db1 where "persist_append x e 1 sst False c fp db = Inr (r, db1)"
    using fp(1) by (fastforce simp: execution_body_def append_lifecycle_def and_then_eq_Inr Let_def
        split: if_splits option.splits)
  from persist_append_existing [OF fp(2) this] fp(3) show ?thesis by simp
qed

text \<open>The retries: whatever one attempt keeps, all attempts keep; a success is one attempt's success.\<close>

lemma commit_attempts_preserve:
  "(\<And>i db. P db \<Longrightarrow> P (snd (w i db))) \<Longrightarrow> P db \<Longrightarrow> P (snd (commit_attempts w n db))"
proof (induction w n db rule: commit_attempts.induct)
  case (1 w n db)
  obtain r db' where w: "w n db = (r, db')" by fastforce
  with 1(2) [of db n] 1(3) have "P db'" by simp
  with w 1(1) [OF w [symmetric]] 1(2) show ?case
    by (subst commit_attempts.simps) (auto split: sum.splits)
qed

lemma commit_attempts_Inr:
  "commit_attempts w n db = (Inr r, db') \<Longrightarrow> (\<And>i db. P db \<Longrightarrow> P (snd (w i db))) \<Longrightarrow> P db \<Longrightarrow>
     \<exists>i db1. P db1 \<and> w i db1 = (Inr r, db')"
proof (induction w n db rule: commit_attempts.induct)
  case (1 w n db)
  obtain q db1 where w: "w n db = (q, db1)" by fastforce
  with 1(3) [of db n] 1(4) have "P db1" by simp
  show ?case
  proof (cases q)
    case (Inl e)
    with w 1(2) have "commit_attempts w (n + 1) db1 = (Inr r, db')" "retryable e" "\<not> n \<ge> 2"
      by (subst (asm) commit_attempts.simps, simp split: if_splits)+
    with 1(1) [OF w [symmetric] Inl] 1(3) \<open>P db1\<close> show ?thesis by simp
  next
    case (Inr u)
    with w 1(2,4) show ?thesis
      by (subst (asm) commit_attempts.simps) auto
  qed
qed

subsection \<open>One process's commit\<close>

text \<open>A successful commit is the success of one attempt, and every attempt is a journal step.\<close>

lemma sink_commit_step: "journal_step (sk_db s) (sk_db (snd (sink_commit k v c s)))"
proof (cases "in_scope k (c_conversation c) (c_run c)")
  case True
  obtain pr ts where pr: "progress (rk_codec k) (se_now v) (sk_tools s) c = (pr, ts)" by fastforce
  let ?w = "\<lambda>i. fenced_execution_event (rk_codec k) (se_attempt v i) (rk_store k) c (dr_lease (rk_run k))
    (map_option thinking_json pr)"
  obtain q db' where q: "commit_attempts ?w 0 (sk_db s) = (q, db')" by fastforce
  have "journal_step (sk_db s) (snd (commit_attempts ?w 0 (sk_db s)))"
    by (rule commit_attempts_preserve) (auto intro: journal_step_trans execution_step)
  with True pr q show ?thesis
    by (simp add: sink_commit_def Let_def split: sum.splits option.splits bool.splits prod.splits)
qed (simp add: sink_commit_def)

lemma sink_commit_Inr:
  assumes "sink_commit k v c s = (Inr r, s')"
  shows "\<exists>i pr db. journal_step (sk_db s) db
    \<and> fenced_execution_event (rk_codec k) (se_attempt v i) (rk_store k) c (dr_lease (rk_run k)) pr db
      = (Inr (sr_receipt r), sk_db s')"
proof -
  from assms have scope: "in_scope k (c_conversation c) (c_run c)"
    by (auto simp: sink_commit_def split: if_splits)
  obtain pr ts where pr: "progress (rk_codec k) (se_now v) (sk_tools s) c = (pr, ts)" by fastforce
  let ?w = "\<lambda>i. fenced_execution_event (rk_codec k) (se_attempt v i) (rk_store k) c (dr_lease (rk_run k))
    (map_option thinking_json pr)"
  obtain q db' where q: "commit_attempts ?w 0 (sk_db s) = (q, db')" by fastforce
  from assms scope pr q have "q = Inr (sr_receipt r)" "db' = sk_db s'"
    by (auto simp: sink_commit_def Let_def split: prod.splits sum.splits option.splits bool.splits)
  with q have "commit_attempts ?w 0 (sk_db s) = (Inr (sr_receipt r), sk_db s')" by simp
  from commit_attempts_Inr [OF this, of "journal_step (sk_db s)"] show ?thesis
    using journal_step_trans execution_step by blast
qed

subsection \<open>All processes on one database\<close>

record 'n process_call =
  pc_sink :: runtime_sink
  pc_env :: "'n sink_env"
  pc_tools :: tool_memory
  pc_tracker :: 'n
  pc_others :: "(env \<times> store \<times> store_call) list"

definition process_sink :: "codec \<Rightarrow> 'n process_call \<Rightarrow> runtime_sink" where
  "process_sink x v = (pc_sink v)\<lparr>rk_codec := x\<rparr>"

definition process_state :: "codec \<Rightarrow> 'n process_call \<Rightarrow> database \<Rightarrow> 'n sink_state" where
  "process_state x v db = \<lparr>sk_db = fold (store_call_effect x) (pc_others v) db, sk_tools = pc_tools v,
     sk_tracker = pc_tracker v\<rparr>"

definition shared_commit :: "codec \<Rightarrow> 'n process_call \<Rightarrow> json append_command \<Rightarrow> database
    \<Rightarrow> (execution_error + sink_receipt) \<times> database" where
  "shared_commit x v c db =
     (case sink_commit (process_sink x v) (pc_env v) c (process_state x v db) of (r, s) \<Rightarrow> (r, sk_db s))"

definition shared_outcome :: "codec \<Rightarrow> 'n process_call \<Rightarrow> execution_context \<Rightarrow> string \<Rightarrow> database
    \<Rightarrow> execution_error + tool_outcome option" where
  "shared_outcome x v c t db = sink_outcome (process_sink x v) (pc_env v) c t (process_state x v db)"

definition shared_sink :: "codec \<Rightarrow> ('n process_call, json, database) event_sink" where
  "shared_sink x = \<lparr>es_commit = shared_commit x, es_outcome = shared_outcome x\<rparr>"

definition recorded_in :: "codec \<Rightarrow> database \<Rightarrow> json append_command \<Rightarrow> bool" where
  "recorded_in x db c \<longleftrightarrow> acknowledged_by x db c \<noteq> None"

lemma shared_commit_step: "journal_step db (snd (shared_commit x v c db))"
proof -
  have "journal_step db (sk_db (process_state x v db))" by (simp add: process_state_def calls_step)
  also have "journal_step \<dots> (sk_db (snd (sink_commit (process_sink x v) (pc_env v) c (process_state x v db))))"
    by (rule sink_commit_step)
  finally show ?thesis by (simp add: shared_commit_def split_beta)
qed

lemma shared_commit_Inr:
  assumes "shared_commit x v c db = (Inr r, db')"
  obtains e st l pr db1 where "journal_step db db1"
    "fenced_execution_event x e st c l pr db1 = (Inr (sr_receipt r), db')"
proof -
  from assms obtain s where s: "sink_commit (process_sink x v) (pc_env v) c (process_state x v db) = (Inr r, s)"
      "db' = sk_db s"
    by (auto simp: shared_commit_def split: prod.splits)
  obtain i pr db1 where db1: "journal_step (sk_db (process_state x v db)) db1"
      "fenced_execution_event (rk_codec (process_sink x v)) (se_attempt (pc_env v) i) (rk_store (process_sink x v)) c
        (dr_lease (rk_run (process_sink x v))) pr db1 = (Inr (sr_receipt r), sk_db s)"
    using sink_commit_Inr [OF s(1)] by (elim exE conjE)
  have "journal_step db (sk_db (process_state x v db))" by (simp add: process_state_def calls_step)
  from journal_step_trans [OF this db1(1)] db1(2) s(2) show thesis
    by (intro that) (simp_all add: process_sink_def)
qed

lemma recorded_step: "journal_inv db \<Longrightarrow> journal_step db db' \<Longrightarrow> recorded_in x db c \<Longrightarrow> recorded_in x db' c"
  using acknowledged_grows [of db db' x c] by (auto simp: recorded_in_def journal_step_def)

interpretation shared: durable_sink "shared_commit x" "recorded_in x" "\<lambda>db. codec_ok x \<and> journal_inv db"
  for x :: codec
proof
  fix db db' :: database and v :: "'n process_call" and c d :: "json append_command" and r
  assume inv: "codec_ok x \<and> journal_inv db"
  note step = shared_commit_step [of db x v c]
  from inv step show "codec_ok x \<and> journal_inv (snd (shared_commit x v c db))"
    by (simp add: journal_step_def)
  show "recorded_in x (snd (shared_commit x v c db)) d" if "recorded_in x db d"
    using recorded_step [OF _ step that] inv by simp
  assume com: "shared_commit x v c db = (Inr r, db')"
  then obtain e st l pr db1 where ex: "journal_step db db1"
      "fenced_execution_event x e st c l pr db1 = (Inr (sr_receipt r), db')"
    by (rule shared_commit_Inr)
  from inv ex(1) have inv1: "journal_inv db1" by (simp add: journal_step_def)
  from execution_event_acknowledges [OF ex(2) inv1] inv show "recorded_in x db' c"
    by (simp add: recorded_in_def)
  show "r_duplicate (sr_receipt r)" if "recorded_in x db c"
    using recorded_step [OF _ ex(1) that] inv execution_event_duplicate [OF _ ex(2)]
    by (auto simp: recorded_in_def)
qed

subsection \<open>A sample run in progress\<close>

definition sample_lease :: lease where
  "sample_lease = \<lparr>l_owner = ''w1'', l_fence = 1, l_expires_at = 900\<rparr>"

definition sample_response :: "json response_record" where
  "sample_response = \<lparr>rr_raw = JNull, rr_continuation = JNull, rr_candidate = ''hello'', rr_planning = [],
     rr_usage = \<lparr>input_tokens = 3, output_tokens = 4\<rparr>, rr_cost = None\<rparr>"

definition provider_payload :: "json payload" where
  "provider_payload = Restricted (RProviderResponse ''m'' JNull JNull)"

definition candidate_payload :: "json payload" where
  "candidate_payload = Restricted (RCandidate ''m'' ''hello'')"

definition usage_payload :: "json payload" where
  "usage_payload = Public (PUsage ''m'' \<lparr>input_tokens = 3, output_tokens = 4\<rparr> None)"

lemmas response_payload_defs = provider_payload_def candidate_payload_def usage_payload_def

definition response_codec :: codec where
  "response_codec = sample_codec\<lparr>
     payload_write := (\<lambda>p. if p = provider_payload then Inr ''p'' else if p = candidate_payload then Inr ''c''
       else if p = usage_payload then Inr ''u'' else Inl ''unsupported''),
     payload_read := (\<lambda>t. if t = ''p'' then Inr provider_payload else if t = ''c'' then Inr candidate_payload
       else if t = ''u'' then Inr usage_payload else Inl ''unsupported'')\<rparr>"

definition running_database :: database where
  "running_database = sample_database\<lparr>runs :=
     [\<lparr>rn_id = ''r'', rn_session = ''c'', rn_state = ''running'', rn_request = Some ''q'', rn_actor = Some ''a'',
       rn_workspace = Some ''w'', rn_user_message = Some ''u'', rn_assistant_message = Some ''am'',
       rn_submission = Some ''s'', rn_fence = 1, rn_lease_owner = Some ''w1'', rn_lease_expires = Some 900,
       rn_cancel = False, rn_queued_at = Some 0, rn_started_at = Some 0, rn_terminal_at = None\<rparr>]\<rparr>"

definition sample_process :: "unit process_call" where
  "sample_process =
     \<lparr>pc_sink = \<lparr>rk_codec = response_codec, rk_user = ''a'', rk_workspace = ''w'',
        rk_run = \<lparr>dr_conversation = ''c'', dr_run = ''r'', dr_lease = sample_lease\<rparr>, rk_db_text = (\<lambda>_. ''db'')\<rparr>,
      pc_env = \<lparr>se_attempt = (\<lambda>_. sample_env), se_now = ''1970'', se_tracker = None\<rparr>,
      pc_tools = Map.empty, pc_tracker = (), pc_others = []\<rparr>"

lemma response_codec_ok: "codec_ok response_codec"
  using sample_codec_ok
  by (auto simp: codec_ok_def response_codec_def sample_codec_def in_range_def split: if_splits)

lemma running_database_inv: "journal_inv running_database"
  by (simp add: journal_inv_def running_database_def sample_database_def sample_session_def session_events_def)

lemmas response_eval = complete_def st_then_def st_simps ingest_def shared_sink_def shared_commit_def
  process_sink_def process_state_def sample_process_def sink_commit_def in_scope_def progress_def
  commit_attempts.simps fenced_execution_event_def check_progress_def execution_body_def load_run_def
  decode_column_def lr_snapshot_def validate_ownership_def append_lifecycle_def sample_lease_def
  response_codec_def response_payload_defs running_database_def sample_response_def rk_store_def scoped_def
  command_def identity_def sample_digest_def sample_context_def now_millis_def run_state_from_str_def alias_matches_def
  find_event_def active_clash_def retryable_def sample_append_eval

lemma sample_complete:
  "fst (complete sample_digest (shared_sink response_codec) (\<lambda>_. sample_process) sample_context ''m''
     (Inr (7, sample_response)) running_database) = Inr (7 :: nat)"
  by (simp add: response_eval)

subsection \<open>Properties\<close>

text \<open>C2: A tool call is executed at most once, over the real store: any number of worker processes run
  the same call, each with its own lease, principal and tool memory, their steps interleaved in any
  order with commits of other events and with any other calls on the store (claims, expiries,
  cancellations, finishes, appends), while the database fails, loses acknowledgements or is retried.
  If the start was already committed before they began, none of them executes the tool.\<close>

theorem tool_runs_at_most_once:
  assumes "codec_ok x" "journal_inv db" and "\<forall>w \<in> set ws. fst w = Ready"
    and "system_run h (shared_sink x) cx i es (ws, db, 0) = (ws', db', n)"
  shows "n \<le> (if recorded_in x db (start_command h cx i) then 0 else 1)"
  using shared.tool_at_most_once [of x db "shared_sink x" ws h cx i es] assms by (simp add: shared_sink_def)

theorem tool_runs_at_most_once_witness:
  "\<forall>(es :: (unit process_call, json) event list) iv.
     snd (snd (system_run sample_digest (shared_sink response_codec) sample_context ''t'' es
       ([(Ready, iv), (Ready, iv)], running_database, 0))) \<le> 1"
proof (intro allI)
  fix es :: "(unit process_call, json) event list" and iv :: "json invocation"
  obtain ws' db' n where "system_run sample_digest (shared_sink response_codec) sample_context ''t'' es
      ([(Ready, iv), (Ready, iv)], running_database, 0) = (ws', db', n)" by (rule prod_cases3)
  with tool_runs_at_most_once [OF response_codec_ok running_database_inv _ this]
  show "snd (snd (system_run sample_digest (shared_sink response_codec) sample_context ''t'' es
     ([(Ready, iv), (Ready, iv)], running_database, 0))) \<le> 1"
    by (auto split: if_splits)
qed

text \<open>C11: A model response that the runtime returns to its caller is durable: every command it was split
  into (the provider's blocks, the candidate, the usage and the planning texts) is acknowledged by
  the journal of the real store.\<close>

theorem completed_response_is_durable:
  assumes "codec_ok x" "journal_inv db" and "complete h (shared_sink x) ev cx model answer db = (Inr a, db')"
  shows "\<exists>r. answer = Inr (a, r) \<and> (\<forall>c \<in> set (ingest_commands h cx model r). recorded_in x db' c)"
  using shared.complete_records [of "shared_sink x" x db h ev cx model answer a db'] assms
  by (simp add: shared_sink_def)

theorem completed_response_is_durable_witness:
  "\<exists>db'. \<forall>c \<in> set (ingest_commands sample_digest sample_context ''m'' sample_response). recorded_in response_codec db' c"
proof -
  obtain a db' where run: "complete sample_digest (shared_sink response_codec) (\<lambda>_. sample_process) sample_context ''m''
     (Inr (7 :: nat, sample_response)) running_database = (a, db')" by fastforce
  with sample_complete have "a = Inr 7" by simp
  from completed_response_is_durable [OF response_codec_ok running_database_inv run [unfolded this]]
  show ?thesis by (elim exE conjE) auto
qed

end
