(* ===== verification/Sample_Runs.thy ===== *)
theory Sample_Runs
  imports Journal_Effects
begin

text \<open>
  A queued run on a small database, with a codec that knows just its payloads, for the witnesses
  of the properties of the run lifecycle.
\<close>

subsection \<open>The queued run and its codec\<close>

definition sample_submit :: "json submit_command" where
  "sample_submit = \<lparr>submitted = sample_submission, sc_assistant = ''am'', request_id = ''q'', sc_context = JNull,
     sc_actor = \<lparr>actor_id = ''a'', actor_source = ''web''\<rparr>, submitted_at = 0, new_conversation = False\<rparr>"

definition queued_payload :: "json payload" where "queued_payload = Public (PRunState Queued)"
definition started_payload :: "json payload" where "started_payload = Public (PRunState Running)"

text \<open>A codec that knows the payloads, the submission and the session snapshot of the sample.\<close>

definition sample_snapshot :: json where
  "sample_snapshot = session_snapshot_json sample_codec (sample_session\<lparr>ss_event_sequence := 1, ss_updated_at := 1000\<rparr>)
     ''Unknown'' 2 0"

definition run_codec :: codec where
  "run_codec = sample_codec\<lparr>
     cx_aead := sample_aead\<lparr>json_write := (\<lambda>v. if v = sample_snapshot then Inr ''snap'' else Inl ''unsupported''),
       json_read := (\<lambda>t. if t = ''snap'' then Inr sample_snapshot else Inl ''unsupported'')\<rparr>,
     payload_write := (\<lambda>p. if p = c_payload sample_submission then Inr ''p'' else if p = queued_payload then Inr ''q''
       else if p = started_payload then Inr ''r'' else Inl ''unsupported''),
     payload_read := (\<lambda>t. if t = ''p'' then Inr (c_payload sample_submission) else if t = ''q'' then Inr queued_payload
       else if t = ''r'' then Inr started_payload else Inl ''unsupported''),
     submission_write := (\<lambda>c. if c = sample_submit then Inr ''s'' else Inl ''unsupported''),
     submission_read := (\<lambda>t. if t = ''s'' then Inr sample_submit else Inl ''unsupported'')\<rparr>"

definition sealed :: "string \<Rightarrow> string" where
  "sealed p = VERSION_AES256_GCM # nonce_bytes 5 @ p @ replicate 16 (CHR ''t'')"

definition queued_database :: database where
  "queued_database = sample_database\<lparr>
     runs := [(fresh_run ''r'' ''c'' Queued)\<lparr>rn_request := Some ''q'', rn_actor := Some ''a'', rn_workspace := Some ''w'',
       rn_user_message := Some ''u'', rn_assistant_message := Some ''am'', rn_submission := Some (sealed ''s''),
       rn_queued_at := Some 0\<rparr>],
     messages := [plain_message ''u'' ''c'' ''user'' (sealed ''hi'') ''complete'' 10,
       plain_message ''am'' ''c'' ''assistant'' (sealed '''') ''in_progress'' 11]\<rparr>"

lemma run_codec_ok: "codec_ok run_codec"
  using sample_codec_ok
  by (auto simp: codec_ok_def run_codec_def sample_codec_def aead_ok_def sample_aead_def in_range_def
      split: if_splits)

lemma queued_database_inv: "journal_inv queued_database"
  by (simp add: journal_inv_def queued_database_def sample_database_def sample_session_def session_events_def)

lemma dec_sealed: "valid_utf8 p \<Longrightarrow> dec run_codec (sealed p) = Inr p"
  by (simp add: dec_def decrypt_def sealed_def run_codec_def sample_codec_def sample_aead_def NONCE_SIZE_def)

lemma run_codec_simps [simp]:
  "payload_write run_codec p = (if p = c_payload sample_submission then Inr ''p'' else if p = queued_payload then Inr ''q''
     else if p = started_payload then Inr ''r'' else Inl ''unsupported'')"
  "command_write run_codec c = Inr ''cmd''" "sha256 run_codec t = ''digest''"
  "submission_read run_codec ''s'' = Inr sample_submit"
  "json_write (cx_aead run_codec) v = (if v = sample_snapshot then Inr ''snap'' else Inl ''unsupported'')"
  "session_snapshot_json run_codec s n a b = session_snapshot_json sample_codec s n a b"
  by (simp_all add: run_codec_def sample_codec_def session_snapshot_json_def)

lemma enc_sealed [simp]: "enc run_codec sample_env i p = Inr (sealed p)"
  by (simp add: enc_def encrypt_def run_codec_def sample_codec_def sample_aead_def sample_env_def sealed_def)

lemma sample_env_simps [simp]:
  "en_now sample_env i = 1000" "en_uuid sample_env i = ''u1''" "en_elapsed sample_env = 0"
  "en_begin sample_env = None" "en_rollback sample_env = None" "en_commit sample_env = None"
  by (simp_all add: sample_env_def)

lemmas store_eval = authorize_def active_member_def session_shared_def new_store_def scoped_def
  load_run_def decode_column_def lr_snapshot_def locked_now_def
  run_state_from_str_def lc_identity_def dec_submission_def dec_sealed
  append_lifecycle_def command_fingerprint_def lifecycle_event_def persist_append_def
  existing_receipt_def find_alias_def alias_matches_def find_event_def repeated_receipt_def append_fresh_def
  check_fence_def lifecycle_owned_def current_state_def plan_def plan_for_def validate_def check_id_def
  text_detail_def payload_limit_def protocol_limits codec_wire_def write_state_def active_clash_def insert_defs
  write_event_def write_detail_def write_read_row_def write_projection_def write_tool_receipt_def
  write_usage_receipt_def write_sequence_def write_snapshot_def update_run_def run_indexes_ok_def
  snapshot_columns_def submitted_message_def update_message_def count_where_def fetch_one_def find_session_def
  write_session_sync_def checked_add_i64_def in_i64_def i64_min_def i64_max_def fresh_run_def plain_message_def
  exposed_body_def insert_row_def Let_def

lemmas queued_eval = queued_database_def sample_database_def sample_session_def sample_submit_def sample_submission_def
  queued_payload_def started_payload_def sample_snapshot_def display_name_def transact_def

lemma sample_claim:
  "is_ok (fst (claim run_codec sample_env (new_store ''a'' ''w'') ''c'' ''r'' ''w1'' 5 100 queued_database))"
  by (simp add: store_eval queued_eval claim_def claim_body_def plan_claim_def expiry_def next_fence_def
    context_rows_def sort_by_def message_before_def queued_after_def queued_before_def restore_option_def in_range_def numeral_2_eq_2)

end
