(* ===== verification/Store_Runs.thy ===== *)
theory Store_Runs
  imports Sample_Runs
begin

text \<open>
  What every call of the store does to the runs' rows: identities stay distinct, a run's state only
  moves forward (queued, running, one terminal state), a terminal state never changes, and fences
  never decrease. The policy of \<open>Run_Lifecycle\<close> gives the steps of one snapshot; here they are
  carried through the statements that load a row, append events and write the row back.
\<close>

subsection \<open>Rows moving forward\<close>

definition run_of :: "database \<Rightarrow> string \<Rightarrow> run_row option" where
  "run_of db run = find (\<lambda>r. rn_id r = run) (runs db)"

definition state_le :: "run_state \<Rightarrow> run_state \<Rightarrow> bool" where
  "state_le s t \<longleftrightarrow> s = t \<or> \<not> is_terminal s \<and> state_rank s \<le> state_rank t"

definition row_state_le :: "string \<Rightarrow> string \<Rightarrow> bool" where
  "row_state_le a b \<longleftrightarrow> a = b \<or> (\<exists>s t. a = run_state_as_str s \<and> b = run_state_as_str t \<and> state_le s t)"

definition row_le :: "run_row \<Rightarrow> run_row \<Rightarrow> bool" where
  "row_le r r' \<longleftrightarrow> rn_id r' = rn_id r \<and> rn_session r' = rn_session r
     \<and> rn_fence r \<le> rn_fence r' \<and> row_state_le (rn_state r) (rn_state r')"

text \<open>The stored submission of a run is a submission of that run.\<close>

definition submission_row :: "codec \<Rightarrow> run_row \<Rightarrow> bool" where
  "submission_row x r \<longleftrightarrow> (\<forall>ct. rn_submission r = Some ct \<longrightarrow>
     (\<exists>s. dec_submission x ct = Inr s \<and> c_run (submitted s) = rn_id r))"

definition run_inv :: "codec \<Rightarrow> database \<Rightarrow> bool" where
  "run_inv x db \<longleftrightarrow> distinct (map rn_id (runs db)) \<and> list_all (submission_row x) (runs db)"

definition run_step :: "codec \<Rightarrow> database \<Rightarrow> database \<Rightarrow> bool" where
  "run_step x db db' \<longleftrightarrow> (run_inv x db \<longrightarrow> run_inv x db'
     \<and> (\<forall>r \<in> set (runs db). \<exists>r' \<in> set (runs db'). row_le r r'))"

lemma state_as_str_inj: "run_state_as_str s = run_state_as_str t \<longleftrightarrow> s = t"
  by (cases s; cases t) auto

lemma state_le_refl [simp]: "state_le s s"
  by (simp add: state_le_def)

lemma state_le_trans: "state_le a b \<Longrightarrow> state_le b c \<Longrightarrow> state_le a c"
  by (auto simp: state_le_def)

lemma row_state_le_trans: "row_state_le a b \<Longrightarrow> row_state_le b c \<Longrightarrow> row_state_le a c"
  unfolding row_state_le_def using state_le_trans by (metis state_as_str_inj)

lemma row_le_refl [simp]: "row_le r r"
  by (simp add: row_le_def row_state_le_def)

lemma row_le_trans: "row_le a b \<Longrightarrow> row_le b c \<Longrightarrow> row_le a c"
  unfolding row_le_def using row_state_le_trans by fastforce

lemma run_step_refl [simp]: "run_step x db db"
  by (auto simp: run_step_def intro: row_le_refl)

lemma run_step_trans: "run_step x a b \<Longrightarrow> run_step x b c \<Longrightarrow> run_step x a c"
  unfolding run_step_def by (meson row_le_trans)

interpretation rs: db_step "run_step x" for x
  by unfold_locales (auto intro: run_step_trans)

lemma run_step_same: "runs db' = runs db \<Longrightarrow> run_step x db db'"
  by (auto simp: run_step_def run_inv_def intro: row_le_refl)

text \<open>An update of the rows of one run that moves each of them forward.\<close>

lemma run_step_update:
  assumes "runs db' = update_where p f (runs db)"
    and "\<And>r. run_inv x db \<Longrightarrow> r \<in> set (runs db) \<Longrightarrow> p r \<Longrightarrow> row_le r (f r) \<and> (submission_row x r \<longrightarrow> submission_row x (f r))"
  shows "run_step x db db'"
proof -
  have "run_inv x db' \<and> (\<forall>r \<in> set (runs db). \<exists>r' \<in> set (runs db'). row_le r r')" if inv: "run_inv x db"
  proof (intro conjI ballI)
    have ids: "map rn_id (update_where p f (runs db)) = map rn_id (runs db)"
      unfolding update_where_def map_map using assms(2) [OF inv] by (auto simp: row_le_def)
    with inv assms show "run_inv x db'"
      by (auto simp: run_inv_def list_all_iff set_update_where)
    fix r assume r: "r \<in> set (runs db)"
    then have "(if p r then f r else r) \<in> set (runs db')" using assms(1) by (auto simp: set_update_where)
    moreover have "row_le r (if p r then f r else r)" using assms(2) [OF inv r] by simp
    ultimately show "\<exists>r' \<in> set (runs db'). row_le r r'" by blast
  qed
  then show ?thesis by (simp add: run_step_def)
qed

lemma run_of_unique:
  assumes "run_inv x db" "r \<in> set (runs db)"
  shows "run_of db (rn_id r) = Some r"
proof -
  have "find (\<lambda>q. rn_id q = rn_id r) rs = Some r" if "distinct (map rn_id rs)" "r \<in> set rs" for rs
    using that by (induction rs) auto
  with assms show ?thesis by (simp add: run_inv_def run_of_def)
qed

subsection \<open>Appends\<close>

text \<open>How a public event moves the run it is about: to the planned state, or not at all.\<close>

lemma persist_append_runs:
  assumes "persist_append x e b st fenced c fp db = Inr (r, db')"
  shows "runs db' = runs db
    \<or> (\<exists>cur p. current_state db (c_conversation c) (c_run c) = Inr cur \<and> plan (codec_wire x) c cur = Inr p
        \<and> (\<exists>db1. write_state (c_conversation c) (c_run c) cur (next_state p) db = Inr db1 \<and> runs db' = runs db1))"
  using assms
proof (cases rule: persist_append_cases)
  case (repeated s)
  from repeated_receipt_ok [OF repeated(3)] show ?thesis by auto
next
  case (fresh s)
  from fresh(4) obtain cur p db1 db2 db3 db4 db5 db6 db7 sq where steps:
      "current_state db (c_conversation c) (c_run c) = Inr cur" "plan (codec_wire x) c cur = Inr p"
      "write_state (c_conversation c) (c_run c) cur (next_state p) db = Inr db1"
      "write_event x e b c fp sq db1 = Inr db2"
      "write_detail x e b c db2 = Inr db3"
      "write_read_row x e b c sq db3 = Inr db4"
      "write_projection x e b (lifecycle_owned db (c_conversation c) (c_run c)) (c_conversation c)
         (plan_projection p) db4 = Inr db5"
      "write_tool_receipt (c_conversation c) (c_run c) (c_event c) (tool_receipt p) db5 = Inr db6"
      "write_usage_receipt (c_conversation c) (c_run c) (c_event c) (usage_key p) db6 = Inr db7"
      "db' = write_sequence e b (c_conversation c) sq db7"
    by (auto simp: append_fresh_def and_then_eq_Inr Let_def)
  have "runs db2 = runs db1" using steps(4)
    by (auto simp: write_event_def insert_event_def insert_alias_def and_then_eq_Inr)
  moreover have "runs db3 = runs db2" using steps(5)
    by (auto simp: write_detail_def insert_detail_def and_then_eq_Inr split: payload.splits option.splits)
  moreover have "runs db4 = runs db3" using steps(6)
    by (auto simp: write_read_row_def insert_read_row_def and_then_eq_Inr split: if_splits)
  moreover have "runs db5 = runs db4" using steps(7)
    by (auto simp: write_projection_def insert_message_def and_then_eq_Inr update_message_def split: option.splits if_splits)
  moreover have "runs db6 = runs db5" using steps(8)
    by (auto simp: write_tool_receipt_def insert_tool_receipt_def and_then_eq_Inr split: option.splits)
  moreover have "runs db7 = runs db6" using steps(9)
    by (auto simp: write_usage_receipt_def insert_usage_receipt_def and_then_eq_Inr split: option.splits)
  ultimately have "runs db' = runs db1" using steps(10) by (simp add: write_sequence_def)
  with steps(1-3) show ?thesis by blast
qed auto

lemma current_state_row:
  assumes "current_state db s r = Inr (Some t)"
  shows "\<exists>q \<in> set (runs db). rn_session q = s \<and> rn_id q = r \<and> rn_state q = run_state_as_str t"
  using assms
  by (auto simp: current_state_def and_then_eq_Inr split: option.splits
      dest!: find_SomeD run_state_from_str_sound)

lemma persist_append_run_step:
  assumes "persist_append x e b st fenced c fp db = Inr (r, db')"
  shows "run_step x db db'"
proof (cases "runs db' = runs db")
  case False
  with persist_append_runs [OF assms] obtain cur p db1 where
      cur: "current_state db (c_conversation c) (c_run c) = Inr cur" and p: "plan (codec_wire x) c cur = Inr p"
      and w: "write_state (c_conversation c) (c_run c) cur (next_state p) db = Inr db1" "runs db' = runs db1"
    by blast
  show ?thesis
  proof (cases cur)
    case None
    with w have ins: "runs db' = runs db @ [fresh_run (c_run c) (c_conversation c) (next_state p)]"
        "\<forall>q \<in> set (runs db). rn_id q \<noteq> c_run c"
      by (auto simp: write_state_def insert_run_def and_then_eq_Inr fresh_run_def)
    then show ?thesis
      by (auto simp: run_step_def run_inv_def submission_row_def fresh_run_def intro: row_le_refl)
  next
    case (Some s)
    with w have upd: "runs db' = update_where (\<lambda>r. rn_session r = c_conversation c \<and> rn_id r = c_run c)
        (\<lambda>r. r\<lparr>rn_state := run_state_as_str (next_state p)\<rparr>) (runs db)"
      by (auto simp: write_state_def Let_def split: if_splits)
    have le: "state_le s (next_state p)"
      using plan_from_live [OF p [unfolded Some]] plan_live_rank
      by (auto simp: state_le_def plan_for_def)
    show ?thesis
    proof (rule run_step_update [OF upd])
      fix q assume inv: "run_inv x db" and q: "q \<in> set (runs db)" "rn_session q = c_conversation c \<and> rn_id q = c_run c"
      obtain q' where q': "q' \<in> set (runs db)" "rn_id q' = c_run c" "rn_state q' = run_state_as_str s"
        using current_state_row [OF cur [unfolded Some]] by blast
      have "q' = q" using run_of_unique [OF inv q(1)] run_of_unique [OF inv q'(1)] q(2) q'(2) by simp
      with q'(3) le show "row_le q (q\<lparr>rn_state := run_state_as_str (next_state p)\<rparr>)
          \<and> (submission_row x q \<longrightarrow> submission_row x (q\<lparr>rn_state := run_state_as_str (next_state p)\<rparr>))"
        by (auto simp: row_le_def row_state_le_def submission_row_def)
    qed
  qed
qed (rule run_step_same)

lemma rs_append: "rs.keeps x snd db (append_lifecycle x e b st c db)"
  unfolding append_lifecycle_def
  by (rule rs.keeps_then_value) (auto simp: rs.keeps_def dest: persist_append_run_step)

subsection \<open>One run between its load and its write\<close>

text \<open>Between the load of a run and the write of its snapshot, its row changes in its state only, and to
  nothing but \<open>t\<close>.\<close>

definition moved :: "string \<Rightarrow> run_state \<Rightarrow> database \<Rightarrow> database \<Rightarrow> bool" where
  "moved run t db db' \<longleftrightarrow> (\<forall>q \<in> set (runs db'). rn_id q = run \<longrightarrow>
     (\<exists>q0 \<in> set (runs db). q = q0 \<or> q = q0\<lparr>rn_state := run_state_as_str t\<rparr>))"

lemma moved_same: "runs db' = runs db \<Longrightarrow> moved run t db db'"
  by (auto simp: moved_def)

lemma moved_trans:
  assumes "moved run t a b" "moved run t b c"
  shows "moved run t a c"
  unfolding moved_def
proof (intro ballI impI)
  fix q assume q: "q \<in> set (runs c)" "rn_id q = run"
  with assms(2) obtain q1 where q1: "q1 \<in> set (runs b)" "q = q1 \<or> q = q1\<lparr>rn_state := run_state_as_str t\<rparr>"
    unfolding moved_def by blast
  with q(2) have "rn_id q1 = run" by auto
  with assms(1) q1(1) obtain q0 where q0: "q0 \<in> set (runs a)" "q1 = q0 \<or> q1 = q0\<lparr>rn_state := run_state_as_str t\<rparr>"
    unfolding moved_def by blast
  with q1(2) have "q = q0 \<or> q = q0\<lparr>rn_state := run_state_as_str t\<rparr>" by auto
  with q0(1) show "\<exists>q0 \<in> set (runs a). q = q0 \<or> q = q0\<lparr>rn_state := run_state_as_str t\<rparr>" by blast
qed

text \<open>The target of an event: every state it can move a live run to is \<open>t\<close> or the state it is in.\<close>

definition only_to :: "run_state \<Rightarrow> 'j payload \<Rightarrow> bool" where
  "only_to t p \<longleftrightarrow> (\<exists>q. p = Public q \<and> (\<forall>m u. q \<noteq> PSubmitted m u)
     \<and> (\<forall>c s pl. plan_live c q s = Inr pl \<longrightarrow> next_state pl = t \<or> next_state pl = s))"

lemma only_to_events [simp]:
  "only_to t (Public PCancellationRequested)" "only_to t (Public (PToolOutcome i u tr d))"
  "only_to t (Public (PRunState t))" "only_to Completed (Public (PApprovedAnswer m u))"
  "only_to Failed (Public (PFailed u))" "only_to Interrupted (Public (PInterrupted u))"
  "only_to Cancelled (Public PCancelled)"
  by (auto simp: only_to_def plan_for_def split: if_splits)

lemma persist_append_moved:
  assumes app: "persist_append x e b st fenced c fp db = Inr (r, db')" and t: "only_to t (c_payload c)"
    and inv: "run_inv x db"
  shows "moved run t db db'"
proof (cases "runs db' = runs db")
  case False
  with persist_append_runs [OF app] obtain cur p db1 where
      cur: "current_state db (c_conversation c) (c_run c) = Inr cur" and p: "plan (codec_wire x) c cur = Inr p"
      and w: "write_state (c_conversation c) (c_run c) cur (next_state p) db = Inr db1" "runs db' = runs db1"
    by blast
  from t p obtain s where s: "cur = Some s"
    by (cases cur) (auto simp: plan_def and_then_eq_Inr only_to_def ok_or_def split: public_payload.splits)
  with w have upd: "runs db' = update_where (\<lambda>r. rn_session r = c_conversation c \<and> rn_id r = c_run c)
      (\<lambda>r. r\<lparr>rn_state := run_state_as_str (next_state p)\<rparr>) (runs db)"
    by (auto simp: write_state_def Let_def split: if_splits)
  have ns: "next_state p = t \<or> next_state p = s"
  proof -
    from t obtain q where q: "c_payload c = Public q"
        "\<And>c s pl. plan_live c q s = Inr pl \<Longrightarrow> next_state pl = t \<or> next_state pl = s"
      unfolding only_to_def by metis
    with plan_from_live(3) [OF p [unfolded s]] have "plan_live c q s = Inr p" by auto
    then show ?thesis by (rule q(2))
  qed
  have same: "q\<lparr>rn_state := run_state_as_str s\<rparr> = q"
    if q: "q \<in> set (runs db)" "rn_session q = c_conversation c" "rn_id q = c_run c" for q
  proof -
    obtain q' where q': "q' \<in> set (runs db)" "rn_id q' = c_run c" "rn_state q' = run_state_as_str s"
      using current_state_row [OF cur [unfolded s]] by blast
    have "q' = q" using run_of_unique [OF inv q(1)] run_of_unique [OF inv q'(1)] q(3) q'(2) by simp
    with q'(3) show ?thesis by simp
  qed
  have "\<exists>q0 \<in> set (runs db). q = q0 \<or> q = q0\<lparr>rn_state := run_state_as_str t\<rparr>"
    if "q \<in> set (runs db')" for q
  proof -
    from that upd obtain q0 where q0: "q0 \<in> set (runs db)"
        "q = (if rn_session q0 = c_conversation c \<and> rn_id q0 = c_run c
          then q0\<lparr>rn_state := run_state_as_str (next_state p)\<rparr> else q0)"
      by (auto simp: set_update_where)
    then have "q = q0 \<or> q = q0\<lparr>rn_state := run_state_as_str t\<rparr>"
      using ns same [OF q0(1)] by (cases "next_state p = s") (simp_all split: if_splits)
    with q0(1) show ?thesis by blast
  qed
  then show ?thesis by (simp add: moved_def)
qed (rule moved_same)

lemma append_moved:
  "append_lifecycle x e b st c db = Inr (r, db') \<Longrightarrow> only_to t (c_payload c) \<Longrightarrow> run_inv x db \<Longrightarrow> moved run t db db'"
  by (auto simp: append_lifecycle_def and_then_eq_Inr intro: persist_append_moved)

lemma only_to_unknown [simp]: "only_to t (c_payload (unknown_event x e i s k))"
  by (simp add: unknown_event_def lifecycle_event_def)

lemma only_to_lifecycle [simp]: "only_to t (c_payload (lifecycle_event x e i s p k)) = only_to t (Public p)"
  by (simp add: lifecycle_event_def)

lemma only_to_terminal: "terminal_command x e i s t j = Inr c \<Longrightarrow> only_to t (c_payload c)"
  by (auto simp: terminal_command_def terminal_payload_def Let_def and_then_eq_Inr lifecycle_event_def
      split: run_state.splits)

lemma rs_assuming: "(run_inv x db \<Longrightarrow> rs.keeps x p db r) \<Longrightarrow> rs.keeps x p db r"
  by (auto simp: rs.keeps_def run_step_def)

lemma load_run_row:
  assumes "load_run st cv run db = Inr row" "lr_snapshot row = Inr snap"
  shows "\<exists>q \<in> set (runs db). rn_id q = run \<and> rn_session q = cv \<and> rn_state q = run_state_as_str (rs_state snap)
    \<and> rn_fence q = rs_fence snap \<and> rn_submission q = Some (lr_submission row)"
proof -
  from assms(1) obtain q where q: "q \<in> set (runs db)" "rn_session q = cv" "rn_id q = run"
      "rn_state q = lr_state row" "rn_fence q = lr_fence row" "rn_submission q = Some (lr_submission row)"
    by (auto simp: load_run_def and_then_eq_Inr decode_column_def ok_or_def split: option.splits dest!: find_SomeD)
  from assms(2) have "run_state_from_str (lr_state row) = Inr (rs_state snap)" "rs_fence snap = lr_fence row"
    by (auto simp: lr_snapshot_def and_then_eq_Inr)
  with q run_state_from_str_sound show ?thesis by metis
qed

text \<open>The write of a snapshot over rows that it moves forward.\<close>

definition forward :: "string \<Rightarrow> run_snapshot \<Rightarrow> database \<Rightarrow> bool" where
  "forward run n db \<longleftrightarrow> (\<forall>r \<in> set (runs db). rn_id r = run \<longrightarrow> row_le r (snapshot_columns n r))"

lemma write_snapshot_runs:
  "write_snapshot run n db = Inr db' \<Longrightarrow> runs db' = update_where (\<lambda>r. rn_id r = run) (snapshot_columns n) (runs db)"
  by (auto simp: write_snapshot_def update_run_def and_then_eq_Inr Let_def split: if_splits)

lemma rs_write_snapshot:
  assumes "forward run n db"
  shows "rs.keeps x id db (write_snapshot run n db)"
proof (rule rs.keeps_whole)
  fix db' assume "write_snapshot run n db = Inr db'"
  from write_snapshot_runs [OF this] show "run_step x db db'"
    by (rule run_step_update) (use assms in \<open>auto simp: forward_def submission_row_def snapshot_columns_def\<close>)
qed

lemma snapshot_columns_simps [simp]:
  "rn_id (snapshot_columns n r) = rn_id r" "rn_session (snapshot_columns n r) = rn_session r"
  "rn_submission (snapshot_columns n r) = rn_submission r"
  "rn_fence (snapshot_columns n r) = rs_fence n" "rn_state (snapshot_columns n r) = run_state_as_str (rs_state n)"
  "snapshot_columns n (snapshot_columns n r) = snapshot_columns n r"
  by (simp_all add: snapshot_columns_def)

lemma write_snapshot_forward:
  assumes "write_snapshot run n db = Inr db'"
  shows "forward run n db'"
  unfolding forward_def write_snapshot_runs [OF assms] set_update_where
proof (intro allI ballI impI)
  fix r assume r: "r \<in> set (update_where (\<lambda>r. rn_id r = run) (snapshot_columns n) (runs db))" "rn_id r = run"
  then obtain q where "r = (if rn_id q = run then snapshot_columns n q else q)" by (auto simp: set_update_where)
  with r(2) have "r = snapshot_columns n q" by (cases "rn_id q = run") simp_all
  then show "row_le r (snapshot_columns n r)" by simp
qed

lemma forward_same: "runs db' = runs db \<Longrightarrow> forward run n db' = forward run n db"
  by (simp add: forward_def)

lemma loaded_forward:
  assumes inv: "run_inv x db" and load: "load_run st cv run db = Inr row" "lr_snapshot row = Inr snap"
    and le: "state_le (rs_state snap) (rs_state n)" "rs_fence snap \<le> rs_fence n"
    and mv: "moved run (rs_state n) db db'"
  shows "forward run n db'"
  unfolding forward_def
proof (intro ballI impI)
  fix r assume r: "r \<in> set (runs db')" "rn_id r = run"
  with mv obtain q0 where q0: "q0 \<in> set (runs db)" "r = q0 \<or> r = q0\<lparr>rn_state := run_state_as_str (rs_state n)\<rparr>"
    by (auto simp: moved_def)
  obtain q where q: "q \<in> set (runs db)" "rn_id q = run" "rn_state q = run_state_as_str (rs_state snap)"
      "rn_fence q = rs_fence snap"
    using load_run_row [OF load] by blast
  have "rn_id q0 = run" using q0(2) r(2) by (elim disjE) simp_all
  with run_of_unique [OF inv q0(1)] run_of_unique [OF inv q(1)] q(2) have same: "q0 = q" by simp
  have r': "rn_fence r = rs_fence snap"
      "rn_state r = run_state_as_str (rs_state snap) \<or> rn_state r = run_state_as_str (rs_state n)"
    using q0(2) q(3,4) unfolding same by (elim disjE; simp)+
  then have "row_state_le (rn_state r) (run_state_as_str (rs_state n))"
    using le(1) unfolding row_state_le_def by blast
  with r'(1) le(2) show "row_le r (snapshot_columns n r)" by (simp add: row_le_def)
qed

lemma loaded_submission:
  assumes "run_inv x db" "load_run st cv run db = Inr row" "lr_snapshot row = Inr snap"
    and "dec_submission x (lr_submission row) = Inr s"
  shows "c_run (submitted s) = run"
  using load_run_row [OF assms(2,3)] assms(1,4)
  by (auto simp: run_inv_def list_all_iff submission_row_def)

subsection \<open>Statements\<close>

lemma rs_of_runs: "(\<And>db'. r = Inr db' \<Longrightarrow> runs db' = runs db) \<Longrightarrow> rs.keeps x id db r"
  by (auto simp: rs.keeps_def intro: run_step_same)

lemma update_message_runs: "update_message q f db = Inr db' \<Longrightarrow> runs db' = runs db"
  by (auto simp: update_message_def split: if_splits)

lemma write_session_sync_runs: "write_session_sync x c a db = Inr db' \<Longrightarrow> runs db' = runs db"
  by (auto simp: write_session_sync_def and_then_eq_Inr Let_def)

lemma write_answer_runs: "write_answer x e b c j db = Inr db' \<Longrightarrow> runs db' = runs db"
  by (auto simp: write_answer_def and_then_eq_Inr dest: update_message_runs)

lemma rs_update_message: "rs.keeps x id db (update_message q f db)"
  by (rule rs_of_runs) (rule update_message_runs)

lemma rs_write_session_sync: "rs.keeps x id db (write_session_sync y c a db)"
  by (rule rs_of_runs) (rule write_session_sync_runs)

lemma rs_insert_message: "rs.keeps x id db (insert_message m db)"
  by (rule rs_of_runs) (auto simp: insert_message_def and_then_eq_Inr)

lemma rs_insert_thinking: "rs.keeps x id db (insert_thinking r db)"
  by (rule rs_of_runs) (auto simp: insert_thinking_def and_then_eq_Inr)

lemma rs_write_answer: "rs.keeps x id db (write_answer y e b c j db)"
  by (rule rs_of_runs) (rule write_answer_runs)

lemma rs_store_metadata: "rs.keeps x id db (store_metadata y e i m c v db)"
  by (rule rs_of_runs) (auto simp: store_metadata_def and_then_eq_Inr dest: update_message_runs)

lemma rs_settle_starts: "rs.keeps x id db (settle_starts x e b st s cts db)"
proof (induction cts arbitrary: b db)
  case (Cons ct cts)
  show ?case unfolding settle_starts.simps
    by (intro rs.keeps_then_value rs.keeps_started rs.keeps_if rs.keeps_then_pair rs_append rs.keeps_beta Cons)
qed (simp add: rs.keeps_db)

lemmas rs_statements = rs_append rs_update_message rs_write_session_sync rs_insert_message
  rs_insert_thinking rs_write_answer rs_store_metadata rs_settle_starts

lemma settle_starts_moved:
  "settle_starts x e b st s cts db = Inr db' \<Longrightarrow> run_inv x db \<Longrightarrow> moved run t db db'"
proof (induction cts arbitrary: b db)
  case (Cons ct cts)
  from Cons.prems(1) obtain p where p: "dec_payload x ct = Inr p" by (auto simp: and_then_eq_Inr)
  have step: "moved run t db db'"
    if app: "append_lifecycle x e b st (unknown_event x e b s k) db = Inr (r, db1)"
      and rest: "settle_starts x e (b + 10) st s cts db1 = Inr db'" for k r db1
  proof -
    from rs.keeps_snd [OF rs_append app] Cons.prems(2) have "run_inv x db1" by (simp add: run_step_def)
    from append_moved [OF app _ Cons.prems(2)] Cons.IH [OF rest this] show ?thesis
      by (auto intro: moved_trans)
  qed
  with Cons p show ?case
    by (auto simp: and_then_eq_Inr split: payload.splits public_payload.splits if_splits)
qed (simp add: moved_same)

text \<open>A terminal write moves its run from the loaded row to the plan's snapshot.\<close>

lemma write_terminal_run:
  assumes inv: "run_inv x db0" and load: "load_run st cv run db0 = Inr row" "lr_snapshot row = Inr snap"
    and s: "dec_submission x (lr_submission row) = Inr s"
    and le: "state_le (rs_state snap) (rs_state (lp_snapshot p))" "rs_fence snap \<le> rs_fence (lp_snapshot p)"
    and mv: "moved run (rs_state (lp_snapshot p)) db0 db" and step: "run_step x db0 db"
    and w: "write_terminal x e sst s p db = Inr db'"
  shows "run_step x db db' \<and> forward run (lp_snapshot p) db'"
proof (cases "lp_projection p")
  case None
  with w loaded_forward [OF inv load le mv] show ?thesis by (simp add: write_terminal_def)
next
  case (Some j)
  let ?n = "lp_snapshot p"
  from w Some obtain db1 c r db2 db3 db4 where steps:
      "settle_starts x e 100 sst s (public_payloads s db) db = Inr db1"
      "terminal_command x e 40 s (rs_state ?n) j = Inr c"
      "append_lifecycle x e 50 sst c db1 = Inr (r, db2)"
      "(if rs_state ?n \<noteq> Completed then write_answer x e 60 (c_conversation (submitted s)) j db2 else Inr db2) = Inr db3"
      "write_snapshot (c_run (submitted s)) ?n db3 = Inr db4"
      "write_session_sync x (c_conversation (submitted s)) SyncUpdate db4 = Inr db'"
    by (auto simp: write_terminal_def and_then_eq_Inr Let_def)
  note run = loaded_submission [OF inv load s]
  from step inv have inv0: "run_inv x db" by (simp add: run_step_def)
  have s1: "run_step x db db1" using rs_settle_starts steps(1) by (auto simp: rs.keeps_def)
  with inv0 have inv1: "run_inv x db1" by (simp add: run_step_def)
  have s2: "run_step x db1 db2" by (rule rs.keeps_snd [OF rs_append steps(3)])
  have r3: "runs db3 = runs db2" using steps(4) write_answer_runs by (auto split: if_splits)
  have "moved run (rs_state ?n) db db2"
    using settle_starts_moved [OF steps(1) inv0] append_moved [OF steps(3) only_to_terminal [OF steps(2)] inv1]
    by (rule moved_trans)
  from moved_trans [OF mv this] have "moved run (rs_state ?n) db0 db3" using r3 by (simp add: moved_def)
  from loaded_forward [OF inv load le this] have fwd: "forward run ?n db3" .
  have s4: "run_step x db3 db4" using rs_write_snapshot [OF fwd] steps(5) run by (auto simp: rs.keeps_def)
  have r5: "runs db' = runs db4" by (rule write_session_sync_runs [OF steps(6)])
  from s1 s2 run_step_same [OF r3, of x] s4 run_step_same [OF r5, of x] have "run_step x db db'"
    by (meson run_step_trans)
  moreover from write_snapshot_forward [OF steps(5)] run forward_same [OF r5] have "forward run ?n db'" by simp
  ultimately show ?thesis by simp
qed

subsection \<open>Operations\<close>

lemma state_le_plans:
  "plan_claim s ow now ttl act = Inr t \<Longrightarrow> state_le (rs_state s) (rs_state t) \<and> rs_fence s \<le> rs_fence t"
  "plan_heartbeat s l now ttl = Inr t \<Longrightarrow> state_le (rs_state s) (rs_state t) \<and> rs_fence s \<le> rs_fence t"
  "plan_cancel s now = Inr p \<Longrightarrow> state_le (rs_state s) (rs_state (lp_snapshot p)) \<and> rs_fence s \<le> rs_fence (lp_snapshot p)"
  "plan_finalize s l now st ct = Inr p \<Longrightarrow> state_le (rs_state s) (rs_state (lp_snapshot p)) \<and> rs_fence s \<le> rs_fence (lp_snapshot p)"
  "plan_interrupt_queued s now ct = Inr p \<Longrightarrow> state_le (rs_state s) (rs_state (lp_snapshot p)) \<and> rs_fence s \<le> rs_fence (lp_snapshot p)"
  "plan_expire s now = Inr p \<Longrightarrow> state_le (rs_state s) (rs_state (lp_snapshot p)) \<and> rs_fence s \<le> rs_fence (lp_snapshot p)"
  by (auto simp: lifecycle_ok validate_ownership_ok state_le_def state_rank_bounds split: if_splits option.splits)

lemma rs_claim_body: "rs.keeps x snd db (claim_body x e st cv rn ow now0 ttl db)"
proof (rule rs_assuming)
  assume inv: "run_inv x db"
  have snapshot: "rs.keeps x id db1 (write_snapshot rn nxt db1)"
    if "load_run st cv rn db = Inr row" "lr_snapshot row = Inr snap" "map_err LifecycleE (plan_claim snap ow now ttl busy) = Inr nxt"
      and "append_lifecycle x e 1 (scoped st) (lifecycle_event x e 1 s (PRunState Running) ''started'') db = Inr (r, db1)"
    for row snap now busy nxt s r db1
  proof -
    from that(3) have p: "plan_claim snap ow now ttl busy = Inr nxt" by simp
    then have "rs_state nxt = Running" by (simp add: plan_claim_ok)
    with append_moved [OF that(4) _ inv, of Running] have "moved rn (rs_state nxt) db db1" by simp
    with state_le_plans(1) [OF p] show ?thesis
      by (intro rs_write_snapshot loaded_forward [OF inv that(1,2)]) simp_all
  qed
  show "rs.keeps x snd db (claim_body x e st cv rn ow now0 ttl db)"
    unfolding claim_body_def Let_def
    by (intro snapshot rs_statements rs.keeps_combinators) (assumption | simp)+
qed

lemma rs_heartbeat_body: "rs.keeps x snd db (heartbeat_body e st cv rn l now0 ttl db)"
proof (rule rs_assuming)
  assume inv: "run_inv x db"
  have snapshot: "rs.keeps x id db (write_snapshot rn nxt db)"
    if "load_run st cv rn db = Inr row" "lr_snapshot row = Inr snap" "map_err LifecycleE (plan_heartbeat snap l now ttl) = Inr nxt"
    for row snap now nxt
    using state_le_plans(2) [of snap l now ttl nxt] that(3)
    by (intro rs_write_snapshot loaded_forward [OF inv that(1,2)]) (simp_all add: moved_same)
  show "rs.keeps x snd db (heartbeat_body e st cv rn l now0 ttl db)"
    unfolding heartbeat_body_def
    by (intro snapshot rs_statements rs.keeps_combinators) (assumption | simp)+
qed

lemma rs_cancel_body: "rs.keeps x snd db (cancel_body x e st cv rn now0 db)"
proof (rule rs_assuming)
  assume inv: "run_inv x db"
  have terminal: "run_step x db1 db2 \<and> forward rn (lp_snapshot p) db2"
    if "load_run st cv rn db = Inr row" "lr_snapshot row = Inr snap" "map_err LifecycleE (plan_cancel snap now) = Inr p"
      and "dec_submission x (lr_submission row) = Inr s"
      and app: "append_lifecycle x e 1 (scoped st) (lifecycle_event x e 1 s' PCancellationRequested ''cancel_requested'') db = Inr (r, db1)"
      and w: "write_terminal x e sst s p db1 = Inr db2"
    for row snap now p s s' sst r db1 db2
  proof -
    from append_moved [OF app _ inv] have mv: "moved rn (rs_state (lp_snapshot p)) db db1" by simp
    from state_le_plans(3) [of snap now p] that(3) have le: "state_le (rs_state snap) (rs_state (lp_snapshot p))"
        "rs_fence snap \<le> rs_fence (lp_snapshot p)" by simp_all
    show ?thesis
      by (rule write_terminal_run [OF inv that(1,2,4) le mv rs.keeps_snd [OF rs_append app] w])
  qed
  have term_write: "rs.keeps x id db1 (write_terminal x e sst s p db1)"
    if "load_run st cv rn db = Inr row" "lr_snapshot row = Inr snap" "map_err LifecycleE (plan_cancel snap now) = Inr p"
      and "dec_submission x (lr_submission row) = Inr s"
      and "append_lifecycle x e 1 (scoped st) (lifecycle_event x e 1 s PCancellationRequested ''cancel_requested'') db = Inr (r, db1)"
    for row snap now p s sst r db1
    using terminal [OF that] by (auto simp: rs.keeps_def)
  have snapshot: "rs.keeps x id db2 (write_snapshot rn (lp_snapshot p) db2)"
    if "load_run st cv rn db = Inr row" "lr_snapshot row = Inr snap" "map_err LifecycleE (plan_cancel snap now) = Inr p"
      and "dec_submission x (lr_submission row) = Inr s"
      and "append_lifecycle x e 1 (scoped st) (lifecycle_event x e 1 s PCancellationRequested ''cancel_requested'') db = Inr (r, db1)"
      and "write_terminal x e sst s p db1 = Inr db2"
    for row snap now p s sst r db1 db2
    using terminal [OF that] by (auto intro: rs_write_snapshot)
  show "rs.keeps x snd db (cancel_body x e st cv rn now0 db)"
    unfolding cancel_body_def Let_def
    by (intro term_write snapshot rs_statements rs.keeps_combinators) (assumption | simp)+
qed

text \<open>Finish and expiry write their terminal plan directly on the loaded database.\<close>

lemma rs_terminal:
  assumes "run_inv x db" "load_run st cv rn db = Inr row" "lr_snapshot row = Inr snap"
    and "dec_submission x (lr_submission row) = Inr s"
    and "state_le (rs_state snap) (rs_state (lp_snapshot p)) \<and> rs_fence snap \<le> rs_fence (lp_snapshot p)"
  shows "rs.keeps x id db (write_terminal x e sst s p db)"
  using write_terminal_run [OF assms(1-4), of p db] assms(5) by (auto simp: rs.keeps_def moved_same)

lemma write_metadata_runs: "write_metadata x e c m md db = Inr db' \<Longrightarrow> runs db' = runs db"
  by (auto simp: write_metadata_def and_then_eq_Inr split: option.splits dest: update_message_runs)

lemma rs_finish_body: "rs.keeps x snd db (finish_body x e st cv rn l now0 f ct md db)"
proof (rule rs_assuming)
  assume inv: "run_inv x db"
  have term_write: "rs.keeps x id db (write_terminal x e sst s p db)"
    if "load_run st cv rn db = Inr row" "lr_snapshot row = Inr snap"
      "map_err LifecycleE (plan_finalize snap l now f ct) = Inr p" "dec_submission x (lr_submission row) = Inr s"
    for row snap now p s sst
    using state_le_plans(4) [of snap l now f ct p] that(3) by (intro rs_terminal [OF inv that(1,2,4)]) simp
  have md: "rs.keeps x id db1 (write_metadata x e c m md db1)" for c m db1
    by (rule rs_of_runs) (rule write_metadata_runs)
  show "rs.keeps x snd db (finish_body x e st cv rn l now0 f ct md db)"
    unfolding finish_body_def Let_def
    by (intro term_write md rs_statements rs.keeps_combinators) (assumption | simp)+
qed

lemma rs_expire_body: "rs.keeps x snd db (expire_body x e st cv rn now0 db)"
proof (rule rs_assuming)
  assume inv: "run_inv x db"
  have term_write: "rs.keeps x id db (write_terminal x e sst s p db)"
    if "load_run st cv rn db = Inr row" "lr_snapshot row = Inr snap"
      "map_err LifecycleE (if rs_state snap = Queued \<and> \<not> still_authorized st cv db
         then plan_interrupt_queued snap now ''Authorization revoked'' else plan_expire snap now) = Inr p"
      "dec_submission x (lr_submission row) = Inr s"
    for row snap now p s sst
    using state_le_plans(5) [of snap now _ p] state_le_plans(6) [of snap now p] that(3)
    by (intro rs_terminal [OF inv that(1,2,4)]) (simp split: if_splits)
  show "rs.keeps x snd db (expire_body x e st cv rn now0 db)"
    unfolding expire_body_def Let_def
    by (intro term_write rs_statements rs.keeps_combinators) (assumption | simp)+
qed

text \<open>A submission registers its own encoded command with its run.\<close>

lemma submission_stored:
  assumes "codec_ok x" "submission_write x c = Inr t" "enc x e i t = Inr ct"
  shows "dec_submission x ct = Inr c"
  using assms dec_enc [of x t e i ct] by (auto simp: dec_submission_def codec_ok_def)

lemma rs_register:
  assumes "codec_ok x" "map_err JsonE (submission_write x c) = Inr t" "enc x e i t = Inr ct"
    and f: "\<And>r. rn_id (f r) = rn_id r \<and> rn_session (f r) = rn_session r \<and> rn_fence (f r) = rn_fence r
      \<and> rn_state (f r) = rn_state r \<and> rn_submission (f r) = Some ct"
  shows "rs.keeps x id db (update_run (c_run (submitted c)) f db)"
proof (rule rs.keeps_whole)
  fix db' assume "update_run (c_run (submitted c)) f db = Inr db'"
  then have "runs db' = update_where (\<lambda>r. rn_id r = c_run (submitted c)) f (runs db)"
    by (auto simp: update_run_def Let_def split: if_splits)
  then show "run_step x db db'"
  proof (rule run_step_update)
    have "dec_submission x ct = Inr c" using submission_stored [of x c t e i ct] assms(1-3) by simp
    with f show "row_le r (f r) \<and> (submission_row x r \<longrightarrow> submission_row x (f r))"
      if "rn_id r = c_run (submitted c)" for r
      using that by (auto simp: row_le_def row_state_le_def submission_row_def)
  qed
qed

lemma rs_open_session: "rs.keeps x id db (open_session y e st c db)"
  by (rule rs_of_runs) (auto simp: open_session_def and_then_eq_Inr Let_def split: if_splits)

lemma rs_append_after: "runs db1 = runs db \<Longrightarrow> rs.keeps x snd db (append_lifecycle x e b st c db1)"
  by (rule rs.keeps_from [OF run_step_same rs_append])

lemma rs_accept_submission:
  assumes "codec_ok x"
  shows "rs.keeps x snd db (accept_submission x e st c db)"
  unfolding accept_submission_def Let_def
  by (intro rs_register [OF assms] rs_append_after rs_open_session rs_statements rs.keeps_combinators)
    (assumption | simp)+

lemma rs_submit_body: "codec_ok x \<Longrightarrow> rs.keeps x snd db (submit_body x e st c db)"
  unfolding submit_body_def
  by (intro rs.keeps_option rs_accept_submission rs.keeps_then_value rs.keeps_pair) simp_all

lemma rs_message_body: "rs.keeps x snd db (message_body x e st cv rn l now m db)"
  unfolding message_body_def write_message_def Let_def
  by (intro rs_statements rs.keeps_combinators) simp_all

lemma rs_metadata_body: "rs.keeps x snd db (metadata_body x e st cv rn l now md db)"
proof -
  have sync: "rs.keeps x id db (write_session_sync x c a (db\<lparr>sessions := ss\<rparr>))" for c a ss
    by (rule rs_of_runs) (auto dest: write_session_sync_runs)
  show ?thesis
    unfolding metadata_body_def Let_def by (intro sync rs.keeps_combinators) simp_all
qed

lemma rs_write_progress: "rs.keeps x id db (write_progress x e st row c v db)"
  unfolding write_progress_def Let_def
  by (intro rs_statements rs.keeps_combinators) simp_all

lemma rs_execution_body: "rs.keeps x snd db (execution_body x e st c l pr db)"
  unfolding execution_body_def Let_def
  by (intro rs_statements rs_write_progress rs.keeps_combinators) simp_all

lemma rs_checkpoint_body: "rs.keeps x snd db (checkpoint_body x e st cv rn l now evs db)"
  unfolding checkpoint_body_def Let_def
  by (intro rs_statements rs.keeps_combinators) simp_all

lemma rs_thinking_rows: "rs.keeps x snd db (thinking_detail_rows x e b st s m ts ch db)"
proof (induction ts arbitrary: b ch db)
  case (Cons t ts)
  show ?case
    by (cases t) (simp only: thinking_detail_rows.simps Let_def,
      intro Cons rs_statements rs.keeps_combinators)
qed (simp add: rs.keeps_pair)

lemma rs_thinking_body: "rs.keeps x snd db (thinking_body x e st cv rn l now m ts db)"
  unfolding thinking_body_def Let_def
  by (intro rs_statements rs_thinking_rows rs.keeps_combinators) simp_all

lemma rs_usage_body: "rs.keeps x snd db (usage_body e st cv rn l now u db)"
  unfolding usage_body_def Let_def
  by (intro rs_statements rs.keeps_combinators) (simp add: run_step_same)

lemma append_run_step: "run_step x db (snd (store_append x e st c db))"
proof -
  obtain r db' where run: "store_append x e st c db = (r, db')" by fastforce
  from append_body [OF this] show ?thesis unfolding run by (auto dest: persist_append_run_step)
qed

lemma submit_run_step: "codec_ok x \<Longrightarrow> run_step x db (snd (submit x e st c db))"
  by (auto simp: submit_def rs.keeps_transact rs_submit_body split: sum.splits)

lemma execution_run_step: "run_step x db (snd (fenced_execution_event x e st c l pr db))"
  by (auto simp: fenced_execution_event_def rs.keeps_transact rs_execution_body split: sum.splits)

lemmas rs_transactions = rs_claim_body rs_heartbeat_body rs_cancel_body rs_finish_body rs_expire_body
  rs_message_body rs_metadata_body rs_checkpoint_body rs_thinking_body rs_usage_body

lemma call_run_step: "codec_ok x \<Longrightarrow> run_step x db (store_call_effect x call db)"
  by (cases "(x, call, db)" rule: store_call_effect.cases)
    (simp_all add: append_run_step fenced_append_def submit_run_step execution_run_step claim_def heartbeat_def
      cancel_plan_def finish_plan_def expire_def fenced_message_def fenced_session_metadata_def
      fenced_thinking_events_def fenced_thinking_details_def fenced_api_usage_def rs.keeps_transact rs_transactions)

lemma calls_run_step: "codec_ok x \<Longrightarrow> run_step x db (fold (store_call_effect x) calls db)"
  by (induction calls arbitrary: db) (auto intro: run_step_trans call_run_step)

text \<open>What a successful claim found and left.\<close>

lemma claim_found:
  assumes "claim_body x e st cv rn ow now0 ttl db = Inr (a, db')"
  shows "\<exists>q \<in> set (runs db). rn_id q = rn \<and> rn_state q = ''queued''"
proof -
  from assms obtain row snap now busy nxt where load: "load_run st cv rn db = Inr row" "lr_snapshot row = Inr snap"
      "plan_claim snap ow now ttl busy = Inr nxt"
    by (auto simp: claim_body_def and_then_eq_Inr Let_def)
  with load_run_row [OF load(1,2)] show ?thesis by (auto simp: plan_claim_ok)
qed

lemma claim_left:
  assumes "claim_body x e st cv rn ow now0 ttl db = Inr (a, db')"
  shows "\<exists>q \<in> set (runs db'). rn_id q = rn \<and> rn_state q = ''running''"
proof -
  from assms obtain snap now busy nxt db1 db2 db3 f p where steps: "plan_claim snap ow now ttl busy = Inr nxt"
      "write_snapshot rn nxt db1 = Inr db2" "update_message p f db2 = Inr db3"
      "write_session_sync x cv SyncUpdate db3 = Inr db'"
    by (auto simp: claim_body_def and_then_eq_Inr Let_def)
  have runs: "runs db' = runs db2"
    using update_message_runs [OF steps(3)] write_session_sync_runs [OF steps(4)] by simp
  from steps(2) have "count_where (\<lambda>r. rn_id r = rn) (runs db1) = 1"
    by (auto simp: write_snapshot_def and_then_eq_Inr split: if_splits)
  then have "count_where (\<lambda>r. rn_id r = rn) (runs db1) \<noteq> 0" by simp
  then obtain q where "q \<in> set (runs db1)" "rn_id q = rn" unfolding count_where_zero by blast
  then have "snapshot_columns nxt q \<in> set (runs db2)" "rn_id (snapshot_columns nxt q) = rn"
    unfolding write_snapshot_runs [OF steps(2)] set_update_where by force+
  moreover have "rn_state (snapshot_columns nxt q) = ''running''" using steps(1) by (simp add: plan_claim_ok)
  ultimately show ?thesis using runs by metis
qed

subsection \<open>Properties\<close>

text \<open>C6: The rows of the runs follow the lifecycle whatever calls reach the store: no run is lost or
  duplicated, its state only moves forward (queued, running, one terminal state), a run that has
  ended keeps its final state forever, its fence never decreases, and the stored submission
  stays readable as the submission of this run.\<close>

theorem runs_only_advance:
  assumes "codec_ok x" "run_inv x db"
  shows "run_inv x (fold (store_call_effect x) calls db)
    \<and> (\<forall>r \<in> set (runs db). \<exists>r'. run_of (fold (store_call_effect x) calls db) (rn_id r) = Some r'
        \<and> rn_session r' = rn_session r \<and> rn_fence r \<le> rn_fence r'
        \<and> (\<forall>s. rn_state r = run_state_as_str s \<longrightarrow> (\<exists>t. rn_state r' = run_state_as_str t
             \<and> state_rank s \<le> state_rank t \<and> (is_terminal s \<longrightarrow> t = s))))"
proof -
  let ?db = "fold (store_call_effect x) calls db"
  from calls_run_step [OF assms(1), of db calls] assms(2)
  have inv: "run_inv x ?db" and rows: "\<And>r. r \<in> set (runs db) \<Longrightarrow> \<exists>r' \<in> set (runs ?db). row_le r r'"
    by (auto simp: run_step_def)
  have "\<exists>r'. run_of ?db (rn_id r) = Some r' \<and> rn_session r' = rn_session r \<and> rn_fence r \<le> rn_fence r'
      \<and> (\<forall>s. rn_state r = run_state_as_str s \<longrightarrow> (\<exists>t. rn_state r' = run_state_as_str t
           \<and> state_rank s \<le> state_rank t \<and> (is_terminal s \<longrightarrow> t = s)))" if r: "r \<in> set (runs db)" for r
  proof -
    obtain r' where r': "r' \<in> set (runs ?db)" "row_le r r'" using rows [OF r] by blast
    have "run_of ?db (rn_id r) = Some r'" using run_of_unique [OF inv r'(1)] r'(2) by (simp add: row_le_def)
    with r'(2) show ?thesis
      by (auto simp: row_le_def row_state_le_def state_as_str_inj state_le_def)
  qed
  with inv show ?thesis by blast
qed

theorem runs_only_advance_witness:
  "\<exists>r'. run_of (fold (store_call_effect sample_codec)
     [(sample_env, new_store ''a'' ''w'', CallExpire ''c'' ''r'' 0)]
     (sample_database\<lparr>runs := [fresh_run ''r'' ''c'' Completed]\<rparr>)) ''r'' = Some r' \<and> rn_state r' = ''completed''"
proof -
  have inv: "run_inv sample_codec (sample_database\<lparr>runs := [fresh_run ''r'' ''c'' Completed]\<rparr>)"
    by (simp add: run_inv_def submission_row_def fresh_run_def)
  have row: "fresh_run ''r'' ''c'' Completed \<in> set (runs (sample_database\<lparr>runs := [fresh_run ''r'' ''c'' Completed]\<rparr>))"
    by simp
  let ?calls = "[(sample_env, new_store ''a'' ''w'', CallExpire ''c'' ''r'' 0)]"
  from runs_only_advance [OF sample_codec_ok inv, of ?calls, THEN conjunct2, THEN bspec, OF row]
  obtain r' where r': "run_of (fold (store_call_effect sample_codec) ?calls
        (sample_database\<lparr>runs := [fresh_run ''r'' ''c'' Completed]\<rparr>)) ''r'' = Some r'"
      "\<forall>s. rn_state (fresh_run ''r'' ''c'' Completed) = run_state_as_str s \<longrightarrow>
        (\<exists>t. rn_state r' = run_state_as_str t \<and> state_rank s \<le> state_rank t \<and> (is_terminal s \<longrightarrow> t = s))"
    by (auto simp: fresh_run_def simp del: fold_simps)
  from r'(2) [THEN spec [of _ Completed]] have "rn_state r' = ''completed''" by (simp add: fresh_run_def)
  with r'(1) show ?thesis by blast
qed

text \<open>C5: At most one claim of a run ever succeeds, over the store itself: once a worker has claimed a run,
  no later claim of it succeeds, whatever other calls (heartbeats, expiries, retries of the
  submission) come between, and whoever asks.\<close>

theorem run_claimed_once:
  assumes "codec_ok x" "run_inv x db" and "claim x e st cv rn ow now ttl db = (Inr a, db')"
  shows "fst (claim x e' st' cv' rn ow' now' ttl' (fold (store_call_effect x) calls db')) \<noteq> Inr a'"
proof
  let ?db = "fold (store_call_effect x) calls db'"
  assume again: "fst (claim x e' st' cv' rn ow' now' ttl' ?db) = Inr a'"
  from assms(3) have body: "claim_body x e st cv rn ow now ttl db = Inr (a, db')" by (auto simp: claim_def transact_Inr)
  obtain db2 where "claim x e' st' cv' rn ow' now' ttl' ?db = (Inr a', db2)" using again by (metis prod.collapse)
  then have body': "claim_body x e' st' cv' rn ow' now' ttl' ?db = Inr (a', db2)" by (auto simp: claim_def transact_Inr)
  from rs.keeps_snd [OF rs_claim_body body] assms(2) have inv': "run_inv x db'" by (simp add: run_step_def)
  from calls_run_step [OF assms(1), of db' calls] inv' have step: "run_inv x ?db"
      "\<And>r. r \<in> set (runs db') \<Longrightarrow> \<exists>r' \<in> set (runs ?db). row_le r r'" by (auto simp: run_step_def)
  obtain q where "q \<in> set (runs db')" "rn_id q = rn" "rn_state q = ''running''" using claim_left [OF body] by blast
  with step(2) obtain q' where q': "q' \<in> set (runs ?db)" "rn_id q' = rn" "row_state_le ''running'' (rn_state q')"
    by (metis row_le_def)
  obtain p where p: "p \<in> set (runs ?db)" "rn_id p = rn" "rn_state p = ''queued''" using claim_found [OF body'] by blast
  have "q' = p" using run_of_unique [OF step(1) q'(1)] run_of_unique [OF step(1) p(1)] q'(2) p(2) by simp
  with q'(3) p(3) have "row_state_le ''running'' ''queued''" by simp
  then obtain s t where "''running'' = run_state_as_str s" "''queued'' = run_state_as_str t" "state_le s t"
    by (auto simp: row_state_le_def)
  then have "s = Running" "t = Queued"
    using state_as_str_inj [of Running s] state_as_str_inj [of Queued t] by simp_all
  with \<open>state_le s t\<close> show False by (simp add: state_le_def)
qed

lemma queued_run_inv: "run_inv run_codec queued_database"
  by (simp add: run_inv_def submission_row_def queued_database_def fresh_run_def dec_submission_def dec_sealed
      in_range_def run_codec_def [THEN arg_cong, of submission_read] sample_submit_def sample_submission_def)

theorem run_claimed_once_witness:
  "let db' = snd (claim run_codec sample_env (new_store ''a'' ''w'') ''c'' ''r'' ''w1'' 5 100 queued_database)
   in \<not> is_ok (fst (claim run_codec sample_env (new_store ''a'' ''w'') ''c'' ''r'' ''w2'' 5000 100
        (fold (store_call_effect run_codec) [(sample_env, new_store ''a'' ''w'', CallExpire ''c'' ''r'' 5000)] db')))"
proof -
  obtain q db' where run: "claim run_codec sample_env (new_store ''a'' ''w'') ''c'' ''r'' ''w1'' 5 100 queued_database = (q, db')"
    by fastforce
  with sample_claim obtain a where "q = Inr a" by (cases q) auto
  note once = run_claimed_once [OF run_codec_ok queued_run_inv run [unfolded this]]
  have "\<not> is_ok r" if "\<And>a'. r \<noteq> Inr a'" for r :: "store_error + claimed_run"
    using that by (cases r) auto
  from this [OF once] run show ?thesis by (simp only: Let_def snd_conv) blast
qed

end
