(* ===== verification/Column_Enums.thy ===== *)
theory Column_Enums
  imports Core_Errors
begin

text \<open>
  The enumerations stored in text columns: \<open>crates/kyomi-core/src/enums.rs\<close>. Each type comes with the
  text of its variants (\<open>AsRef<str>\<close>, which \<open>Display\<close> and the column encoders write), the parser
  (\<open>FromStr\<close>, which the column decoders call), and the names of its variants in the source, from which
  serde derives the JSON form by \<open>rename_all = "snake_case"\<close>. The two roles of a workspace take their
  texts from \<open>data/constants.toml\<close>.
\<close>

subsection \<open>The contract of a column type\<close>

text \<open>serde's \<open>snake_case\<close>: an underscore before every capital but the first letter, then lower case.\<close>

definition is_upper :: "char \<Rightarrow> bool" where
  "is_upper c \<longleftrightarrow> 65 \<le> (of_char c :: nat) \<and> (of_char c :: nat) \<le> 90"

definition to_lower :: "char \<Rightarrow> char" where
  "to_lower c = (if is_upper c then char_of ((of_char c :: nat) + 32) else c)"

fun snake_rest :: "string \<Rightarrow> string" where
  "snake_rest [] = []"
| "snake_rest (c # s) = (if is_upper c then CHR ''_'' # to_lower c # snake_rest s else c # snake_rest s)"

fun snake_case :: "string \<Rightarrow> string" where
  "snake_case [] = []"
| "snake_case (c # s) = to_lower c # snake_rest s"

definition unknown_variant :: "string \<Rightarrow> string \<Rightarrow> string" where
  "unknown_variant type_name s = ''unknown '' @ type_name @ '': '' @ s"

text \<open>What the decoders and the JSON clients rely on.\<close>

locale column_enum =
  fixes to_text :: "'a \<Rightarrow> string" and from_text :: "string \<Rightarrow> string + 'a" and variant :: "'a \<Rightarrow> string"
    and type_name :: string
  assumes parses: "from_text s = Inr v \<longleftrightarrow> s = to_text v"
    and rejects: "from_text s = Inl m \<Longrightarrow> m = unknown_variant type_name s"
    and wire: "to_text v = snake_case (variant v)"
begin

lemma decode_encode: "from_text (to_text v) = Inr v"
  by (simp add: parses)

lemma to_text_inject: "to_text v = to_text w \<longleftrightarrow> v = w"
  using parses [of "to_text v" v] parses [of "to_text v" w] by auto

lemma column_total: "(\<exists>v. s = to_text v \<and> from_text s = Inr v) \<or> from_text s = Inl (unknown_variant type_name s)"
  by (cases "from_text s") (auto simp: parses dest: rejects)

end

subsection \<open>The column types\<close>

datatype subscription_tier = Free | Basic | Starter | Pro | Team | Enterprise | Cloud

fun tier_str :: "subscription_tier \<Rightarrow> string" where
  "tier_str Free = ''free''"
| "tier_str Basic = ''basic''"
| "tier_str Starter = ''starter''"
| "tier_str Pro = ''pro''"
| "tier_str Team = ''team''"
| "tier_str Enterprise = ''enterprise''"
| "tier_str Cloud = ''cloud''"

fun tier_variant :: "subscription_tier \<Rightarrow> string" where
  "tier_variant Free = ''Free''"
| "tier_variant Basic = ''Basic''"
| "tier_variant Starter = ''Starter''"
| "tier_variant Pro = ''Pro''"
| "tier_variant Team = ''Team''"
| "tier_variant Enterprise = ''Enterprise''"
| "tier_variant Cloud = ''Cloud''"

definition tier_from_str :: "string \<Rightarrow> string + subscription_tier" where
  "tier_from_str s =
     (if s = ''free'' then Inr Free
      else if s = ''basic'' then Inr Basic
      else if s = ''starter'' then Inr Starter
      else if s = ''pro'' then Inr Pro
      else if s = ''team'' then Inr Team
      else if s = ''enterprise'' then Inr Enterprise
      else if s = ''cloud'' then Inr Cloud
      else Inl (unknown_variant ''SubscriptionTier'' s))"

interpretation tier_column: column_enum tier_str tier_from_str tier_variant "''SubscriptionTier''"
proof
  show "tier_from_str s = Inr v \<longleftrightarrow> s = tier_str v" for s v by (cases v) (simp_all add: tier_from_str_def)
  show "tier_from_str s = Inl m \<Longrightarrow> m = unknown_variant ''SubscriptionTier'' s" for s m by (simp add: tier_from_str_def split: if_splits)
  show "tier_str v = snake_case (tier_variant v)" for v by (cases v; hypsubst_thin; code_simp)
qed

datatype subscription_status = Trialing | SubActive | PastDue | SubCancelled

fun subscription_status_str :: "subscription_status \<Rightarrow> string" where
  "subscription_status_str Trialing = ''trialing''"
| "subscription_status_str SubActive = ''active''"
| "subscription_status_str PastDue = ''past_due''"
| "subscription_status_str SubCancelled = ''cancelled''"

fun subscription_status_variant :: "subscription_status \<Rightarrow> string" where
  "subscription_status_variant Trialing = ''Trialing''"
| "subscription_status_variant SubActive = ''Active''"
| "subscription_status_variant PastDue = ''PastDue''"
| "subscription_status_variant SubCancelled = ''Cancelled''"

definition subscription_status_from_str :: "string \<Rightarrow> string + subscription_status" where
  "subscription_status_from_str s =
     (if s = ''trialing'' then Inr Trialing
      else if s = ''active'' then Inr SubActive
      else if s = ''past_due'' then Inr PastDue
      else if s = ''cancelled'' then Inr SubCancelled
      else Inl (unknown_variant ''SubscriptionStatus'' s))"

interpretation subscription_status_column: column_enum subscription_status_str subscription_status_from_str subscription_status_variant "''SubscriptionStatus''"
proof
  show "subscription_status_from_str s = Inr v \<longleftrightarrow> s = subscription_status_str v" for s v by (cases v) (simp_all add: subscription_status_from_str_def)
  show "subscription_status_from_str s = Inl m \<Longrightarrow> m = unknown_variant ''SubscriptionStatus'' s" for s m by (simp add: subscription_status_from_str_def split: if_splits)
  show "subscription_status_str v = snake_case (subscription_status_variant v)" for v by (cases v; hypsubst_thin; code_simp)
qed

datatype workspace_status = TrialWs | ActiveWs | SuspendedWs

fun workspace_status_str :: "workspace_status \<Rightarrow> string" where
  "workspace_status_str TrialWs = ''trial''"
| "workspace_status_str ActiveWs = ''active''"
| "workspace_status_str SuspendedWs = ''suspended''"

fun workspace_status_variant :: "workspace_status \<Rightarrow> string" where
  "workspace_status_variant TrialWs = ''Trial''"
| "workspace_status_variant ActiveWs = ''Active''"
| "workspace_status_variant SuspendedWs = ''Suspended''"

definition workspace_status_from_str :: "string \<Rightarrow> string + workspace_status" where
  "workspace_status_from_str s =
     (if s = ''trial'' then Inr TrialWs
      else if s = ''active'' then Inr ActiveWs
      else if s = ''suspended'' then Inr SuspendedWs
      else Inl (unknown_variant ''WorkspaceStatus'' s))"

interpretation workspace_status_column: column_enum workspace_status_str workspace_status_from_str workspace_status_variant "''WorkspaceStatus''"
proof
  show "workspace_status_from_str s = Inr v \<longleftrightarrow> s = workspace_status_str v" for s v by (cases v) (simp_all add: workspace_status_from_str_def)
  show "workspace_status_from_str s = Inl m \<Longrightarrow> m = unknown_variant ''WorkspaceStatus'' s" for s m by (simp add: workspace_status_from_str_def split: if_splits)
  show "workspace_status_str v = snake_case (workspace_status_variant v)" for v by (cases v; hypsubst_thin; code_simp)
qed

datatype workspace_role = WorkspaceAdmin | WorkspaceUser

fun role_str :: "workspace_role \<Rightarrow> string" where
  "role_str WorkspaceAdmin = ''workspace_admin''"
| "role_str WorkspaceUser = ''workspace_user''"

fun role_variant :: "workspace_role \<Rightarrow> string" where
  "role_variant WorkspaceAdmin = ''WorkspaceAdmin''"
| "role_variant WorkspaceUser = ''WorkspaceUser''"

definition role_from_str :: "string \<Rightarrow> string + workspace_role" where
  "role_from_str s =
     (if s = ''workspace_admin'' then Inr WorkspaceAdmin
      else if s = ''workspace_user'' then Inr WorkspaceUser
      else Inl (unknown_variant ''WorkspaceRole'' s))"

interpretation role_column: column_enum role_str role_from_str role_variant "''WorkspaceRole''"
proof
  show "role_from_str s = Inr v \<longleftrightarrow> s = role_str v" for s v by (cases v) (simp_all add: role_from_str_def)
  show "role_from_str s = Inl m \<Longrightarrow> m = unknown_variant ''WorkspaceRole'' s" for s m by (simp add: role_from_str_def split: if_splits)
  show "role_str v = snake_case (role_variant v)" for v by (cases v; hypsubst_thin; code_simp)
qed

datatype watch_mode = AlertMode | ReportMode

fun watch_mode_str :: "watch_mode \<Rightarrow> string" where
  "watch_mode_str AlertMode = ''alert''"
| "watch_mode_str ReportMode = ''report''"

fun watch_mode_variant :: "watch_mode \<Rightarrow> string" where
  "watch_mode_variant AlertMode = ''Alert''"
| "watch_mode_variant ReportMode = ''Report''"

definition watch_mode_from_str :: "string \<Rightarrow> string + watch_mode" where
  "watch_mode_from_str s =
     (if s = ''alert'' then Inr AlertMode
      else if s = ''report'' then Inr ReportMode
      else Inl (unknown_variant ''WatchMode'' s))"

interpretation watch_mode_column: column_enum watch_mode_str watch_mode_from_str watch_mode_variant "''WatchMode''"
proof
  show "watch_mode_from_str s = Inr v \<longleftrightarrow> s = watch_mode_str v" for s v by (cases v) (simp_all add: watch_mode_from_str_def)
  show "watch_mode_from_str s = Inl m \<Longrightarrow> m = unknown_variant ''WatchMode'' s" for s m by (simp add: watch_mode_from_str_def split: if_splits)
  show "watch_mode_str v = snake_case (watch_mode_variant v)" for v by (cases v; hypsubst_thin; code_simp)
qed

datatype watch_execution_status = WatchRunning | WatchSuccess | WatchError | WatchNoAlert

fun watch_execution_status_str :: "watch_execution_status \<Rightarrow> string" where
  "watch_execution_status_str WatchRunning = ''running''"
| "watch_execution_status_str WatchSuccess = ''success''"
| "watch_execution_status_str WatchError = ''error''"
| "watch_execution_status_str WatchNoAlert = ''no_alert''"

fun watch_execution_status_variant :: "watch_execution_status \<Rightarrow> string" where
  "watch_execution_status_variant WatchRunning = ''Running''"
| "watch_execution_status_variant WatchSuccess = ''Success''"
| "watch_execution_status_variant WatchError = ''Error''"
| "watch_execution_status_variant WatchNoAlert = ''NoAlert''"

definition watch_execution_status_from_str :: "string \<Rightarrow> string + watch_execution_status" where
  "watch_execution_status_from_str s =
     (if s = ''running'' then Inr WatchRunning
      else if s = ''success'' then Inr WatchSuccess
      else if s = ''error'' then Inr WatchError
      else if s = ''no_alert'' then Inr WatchNoAlert
      else Inl (unknown_variant ''WatchExecutionStatus'' s))"

interpretation watch_execution_status_column: column_enum watch_execution_status_str watch_execution_status_from_str watch_execution_status_variant "''WatchExecutionStatus''"
proof
  show "watch_execution_status_from_str s = Inr v \<longleftrightarrow> s = watch_execution_status_str v" for s v by (cases v) (simp_all add: watch_execution_status_from_str_def)
  show "watch_execution_status_from_str s = Inl m \<Longrightarrow> m = unknown_variant ''WatchExecutionStatus'' s" for s m by (simp add: watch_execution_status_from_str_def split: if_splits)
  show "watch_execution_status_str v = snake_case (watch_execution_status_variant v)" for v by (cases v; hypsubst_thin; code_simp)
qed

datatype session_type = ChatSession | DashboardCopilot

fun session_type_str :: "session_type \<Rightarrow> string" where
  "session_type_str ChatSession = ''chat''"
| "session_type_str DashboardCopilot = ''dashboard_copilot''"

fun session_type_variant :: "session_type \<Rightarrow> string" where
  "session_type_variant ChatSession = ''Chat''"
| "session_type_variant DashboardCopilot = ''DashboardCopilot''"

definition session_type_from_str :: "string \<Rightarrow> string + session_type" where
  "session_type_from_str s =
     (if s = ''chat'' then Inr ChatSession
      else if s = ''dashboard_copilot'' then Inr DashboardCopilot
      else Inl (unknown_variant ''SessionType'' s))"

interpretation session_type_column: column_enum session_type_str session_type_from_str session_type_variant "''SessionType''"
proof
  show "session_type_from_str s = Inr v \<longleftrightarrow> s = session_type_str v" for s v by (cases v) (simp_all add: session_type_from_str_def)
  show "session_type_from_str s = Inl m \<Longrightarrow> m = unknown_variant ''SessionType'' s" for s m by (simp add: session_type_from_str_def split: if_splits)
  show "session_type_str v = snake_case (session_type_variant v)" for v by (cases v; hypsubst_thin; code_simp)
qed

datatype datasource_type = PostgresDs | BigqueryDs | ClickhouseDs | DatabricksDs | MysqlDs | RedshiftDs | SnowflakeDs | SqlserverDs | SynapseDs | FlaredbDs

fun datasource_type_str :: "datasource_type \<Rightarrow> string" where
  "datasource_type_str PostgresDs = ''postgres''"
| "datasource_type_str BigqueryDs = ''bigquery''"
| "datasource_type_str ClickhouseDs = ''clickhouse''"
| "datasource_type_str DatabricksDs = ''databricks''"
| "datasource_type_str MysqlDs = ''mysql''"
| "datasource_type_str RedshiftDs = ''redshift''"
| "datasource_type_str SnowflakeDs = ''snowflake''"
| "datasource_type_str SqlserverDs = ''sqlserver''"
| "datasource_type_str SynapseDs = ''synapse''"
| "datasource_type_str FlaredbDs = ''flaredb''"

fun datasource_type_variant :: "datasource_type \<Rightarrow> string" where
  "datasource_type_variant PostgresDs = ''Postgres''"
| "datasource_type_variant BigqueryDs = ''Bigquery''"
| "datasource_type_variant ClickhouseDs = ''Clickhouse''"
| "datasource_type_variant DatabricksDs = ''Databricks''"
| "datasource_type_variant MysqlDs = ''Mysql''"
| "datasource_type_variant RedshiftDs = ''Redshift''"
| "datasource_type_variant SnowflakeDs = ''Snowflake''"
| "datasource_type_variant SqlserverDs = ''Sqlserver''"
| "datasource_type_variant SynapseDs = ''Synapse''"
| "datasource_type_variant FlaredbDs = ''Flaredb''"

definition datasource_type_from_str :: "string \<Rightarrow> string + datasource_type" where
  "datasource_type_from_str s =
     (if s = ''postgres'' then Inr PostgresDs
      else if s = ''bigquery'' then Inr BigqueryDs
      else if s = ''clickhouse'' then Inr ClickhouseDs
      else if s = ''databricks'' then Inr DatabricksDs
      else if s = ''mysql'' then Inr MysqlDs
      else if s = ''redshift'' then Inr RedshiftDs
      else if s = ''snowflake'' then Inr SnowflakeDs
      else if s = ''sqlserver'' then Inr SqlserverDs
      else if s = ''synapse'' then Inr SynapseDs
      else if s = ''flaredb'' then Inr FlaredbDs
      else Inl (unknown_variant ''DatasourceType'' s))"

interpretation datasource_type_column: column_enum datasource_type_str datasource_type_from_str datasource_type_variant "''DatasourceType''"
proof
  show "datasource_type_from_str s = Inr v \<longleftrightarrow> s = datasource_type_str v" for s v by (cases v) (simp_all add: datasource_type_from_str_def)
  show "datasource_type_from_str s = Inl m \<Longrightarrow> m = unknown_variant ''DatasourceType'' s" for s m by (simp add: datasource_type_from_str_def split: if_splits)
  show "datasource_type_str v = snake_case (datasource_type_variant v)" for v by (cases v; hypsubst_thin; code_simp)
qed

datatype feedback_type = BugFeedback | FeatureFeedback | QuestionFeedback

fun feedback_type_str :: "feedback_type \<Rightarrow> string" where
  "feedback_type_str BugFeedback = ''bug''"
| "feedback_type_str FeatureFeedback = ''feature''"
| "feedback_type_str QuestionFeedback = ''question''"

fun feedback_type_variant :: "feedback_type \<Rightarrow> string" where
  "feedback_type_variant BugFeedback = ''Bug''"
| "feedback_type_variant FeatureFeedback = ''Feature''"
| "feedback_type_variant QuestionFeedback = ''Question''"

definition feedback_type_from_str :: "string \<Rightarrow> string + feedback_type" where
  "feedback_type_from_str s =
     (if s = ''bug'' then Inr BugFeedback
      else if s = ''feature'' then Inr FeatureFeedback
      else if s = ''question'' then Inr QuestionFeedback
      else Inl (unknown_variant ''FeedbackType'' s))"

interpretation feedback_type_column: column_enum feedback_type_str feedback_type_from_str feedback_type_variant "''FeedbackType''"
proof
  show "feedback_type_from_str s = Inr v \<longleftrightarrow> s = feedback_type_str v" for s v by (cases v) (simp_all add: feedback_type_from_str_def)
  show "feedback_type_from_str s = Inl m \<Longrightarrow> m = unknown_variant ''FeedbackType'' s" for s m by (simp add: feedback_type_from_str_def split: if_splits)
  show "feedback_type_str v = snake_case (feedback_type_variant v)" for v by (cases v; hypsubst_thin; code_simp)
qed

datatype feedback_status = NewFeedback | ReviewedFeedback | ResolvedFeedback | ClosedFeedback

fun feedback_status_str :: "feedback_status \<Rightarrow> string" where
  "feedback_status_str NewFeedback = ''new''"
| "feedback_status_str ReviewedFeedback = ''reviewed''"
| "feedback_status_str ResolvedFeedback = ''resolved''"
| "feedback_status_str ClosedFeedback = ''closed''"

fun feedback_status_variant :: "feedback_status \<Rightarrow> string" where
  "feedback_status_variant NewFeedback = ''New''"
| "feedback_status_variant ReviewedFeedback = ''Reviewed''"
| "feedback_status_variant ResolvedFeedback = ''Resolved''"
| "feedback_status_variant ClosedFeedback = ''Closed''"

definition feedback_status_from_str :: "string \<Rightarrow> string + feedback_status" where
  "feedback_status_from_str s =
     (if s = ''new'' then Inr NewFeedback
      else if s = ''reviewed'' then Inr ReviewedFeedback
      else if s = ''resolved'' then Inr ResolvedFeedback
      else if s = ''closed'' then Inr ClosedFeedback
      else Inl (unknown_variant ''FeedbackStatus'' s))"

interpretation feedback_status_column: column_enum feedback_status_str feedback_status_from_str feedback_status_variant "''FeedbackStatus''"
proof
  show "feedback_status_from_str s = Inr v \<longleftrightarrow> s = feedback_status_str v" for s v by (cases v) (simp_all add: feedback_status_from_str_def)
  show "feedback_status_from_str s = Inl m \<Longrightarrow> m = unknown_variant ''FeedbackStatus'' s" for s m by (simp add: feedback_status_from_str_def split: if_splits)
  show "feedback_status_str v = snake_case (feedback_status_variant v)" for v by (cases v; hypsubst_thin; code_simp)
qed

datatype invitation_status = InvitePending | InviteAccepted | InviteExpired | InviteCancelled

fun invitation_status_str :: "invitation_status \<Rightarrow> string" where
  "invitation_status_str InvitePending = ''pending''"
| "invitation_status_str InviteAccepted = ''accepted''"
| "invitation_status_str InviteExpired = ''expired''"
| "invitation_status_str InviteCancelled = ''cancelled''"

fun invitation_status_variant :: "invitation_status \<Rightarrow> string" where
  "invitation_status_variant InvitePending = ''Pending''"
| "invitation_status_variant InviteAccepted = ''Accepted''"
| "invitation_status_variant InviteExpired = ''Expired''"
| "invitation_status_variant InviteCancelled = ''Cancelled''"

definition invitation_status_from_str :: "string \<Rightarrow> string + invitation_status" where
  "invitation_status_from_str s =
     (if s = ''pending'' then Inr InvitePending
      else if s = ''accepted'' then Inr InviteAccepted
      else if s = ''expired'' then Inr InviteExpired
      else if s = ''cancelled'' then Inr InviteCancelled
      else Inl (unknown_variant ''InvitationStatus'' s))"

interpretation invitation_status_column: column_enum invitation_status_str invitation_status_from_str invitation_status_variant "''InvitationStatus''"
proof
  show "invitation_status_from_str s = Inr v \<longleftrightarrow> s = invitation_status_str v" for s v by (cases v) (simp_all add: invitation_status_from_str_def)
  show "invitation_status_from_str s = Inl m \<Longrightarrow> m = unknown_variant ''InvitationStatus'' s" for s m by (simp add: invitation_status_from_str_def split: if_splits)
  show "invitation_status_str v = snake_case (invitation_status_variant v)" for v by (cases v; hypsubst_thin; code_simp)
qed

datatype transfer_status = TransferPending | TransferAccepted | TransferDeclined | TransferCancelled

fun transfer_status_str :: "transfer_status \<Rightarrow> string" where
  "transfer_status_str TransferPending = ''pending''"
| "transfer_status_str TransferAccepted = ''accepted''"
| "transfer_status_str TransferDeclined = ''declined''"
| "transfer_status_str TransferCancelled = ''cancelled''"

fun transfer_status_variant :: "transfer_status \<Rightarrow> string" where
  "transfer_status_variant TransferPending = ''Pending''"
| "transfer_status_variant TransferAccepted = ''Accepted''"
| "transfer_status_variant TransferDeclined = ''Declined''"
| "transfer_status_variant TransferCancelled = ''Cancelled''"

definition transfer_status_from_str :: "string \<Rightarrow> string + transfer_status" where
  "transfer_status_from_str s =
     (if s = ''pending'' then Inr TransferPending
      else if s = ''accepted'' then Inr TransferAccepted
      else if s = ''declined'' then Inr TransferDeclined
      else if s = ''cancelled'' then Inr TransferCancelled
      else Inl (unknown_variant ''TransferStatus'' s))"

interpretation transfer_status_column: column_enum transfer_status_str transfer_status_from_str transfer_status_variant "''TransferStatus''"
proof
  show "transfer_status_from_str s = Inr v \<longleftrightarrow> s = transfer_status_str v" for s v by (cases v) (simp_all add: transfer_status_from_str_def)
  show "transfer_status_from_str s = Inl m \<Longrightarrow> m = unknown_variant ''TransferStatus'' s" for s m by (simp add: transfer_status_from_str_def split: if_splits)
  show "transfer_status_str v = snake_case (transfer_status_variant v)" for v by (cases v; hypsubst_thin; code_simp)
qed

datatype catalog_refresh_status = RefreshIdle | RefreshRunning | RefreshFailed

fun catalog_refresh_status_str :: "catalog_refresh_status \<Rightarrow> string" where
  "catalog_refresh_status_str RefreshIdle = ''idle''"
| "catalog_refresh_status_str RefreshRunning = ''running''"
| "catalog_refresh_status_str RefreshFailed = ''failed''"

fun catalog_refresh_status_variant :: "catalog_refresh_status \<Rightarrow> string" where
  "catalog_refresh_status_variant RefreshIdle = ''Idle''"
| "catalog_refresh_status_variant RefreshRunning = ''Running''"
| "catalog_refresh_status_variant RefreshFailed = ''Failed''"

definition catalog_refresh_status_from_str :: "string \<Rightarrow> string + catalog_refresh_status" where
  "catalog_refresh_status_from_str s =
     (if s = ''idle'' then Inr RefreshIdle
      else if s = ''running'' then Inr RefreshRunning
      else if s = ''failed'' then Inr RefreshFailed
      else Inl (unknown_variant ''CatalogRefreshStatus'' s))"

interpretation catalog_refresh_status_column: column_enum catalog_refresh_status_str catalog_refresh_status_from_str catalog_refresh_status_variant "''CatalogRefreshStatus''"
proof
  show "catalog_refresh_status_from_str s = Inr v \<longleftrightarrow> s = catalog_refresh_status_str v" for s v by (cases v) (simp_all add: catalog_refresh_status_from_str_def)
  show "catalog_refresh_status_from_str s = Inl m \<Longrightarrow> m = unknown_variant ''CatalogRefreshStatus'' s" for s m by (simp add: catalog_refresh_status_from_str_def split: if_splits)
  show "catalog_refresh_status_str v = snake_case (catalog_refresh_status_variant v)" for v by (cases v; hypsubst_thin; code_simp)
qed

datatype chat_message_role = UserRole | AssistantRole | SystemRole | ToolRole

fun chat_message_role_str :: "chat_message_role \<Rightarrow> string" where
  "chat_message_role_str UserRole = ''user''"
| "chat_message_role_str AssistantRole = ''assistant''"
| "chat_message_role_str SystemRole = ''system''"
| "chat_message_role_str ToolRole = ''tool''"

fun chat_message_role_variant :: "chat_message_role \<Rightarrow> string" where
  "chat_message_role_variant UserRole = ''User''"
| "chat_message_role_variant AssistantRole = ''Assistant''"
| "chat_message_role_variant SystemRole = ''System''"
| "chat_message_role_variant ToolRole = ''Tool''"

definition chat_message_role_from_str :: "string \<Rightarrow> string + chat_message_role" where
  "chat_message_role_from_str s =
     (if s = ''user'' then Inr UserRole
      else if s = ''assistant'' then Inr AssistantRole
      else if s = ''system'' then Inr SystemRole
      else if s = ''tool'' then Inr ToolRole
      else Inl (unknown_variant ''ChatMessageRole'' s))"

interpretation chat_message_role_column: column_enum chat_message_role_str chat_message_role_from_str chat_message_role_variant "''ChatMessageRole''"
proof
  show "chat_message_role_from_str s = Inr v \<longleftrightarrow> s = chat_message_role_str v" for s v by (cases v) (simp_all add: chat_message_role_from_str_def)
  show "chat_message_role_from_str s = Inl m \<Longrightarrow> m = unknown_variant ''ChatMessageRole'' s" for s m by (simp add: chat_message_role_from_str_def split: if_splits)
  show "chat_message_role_str v = snake_case (chat_message_role_variant v)" for v by (cases v; hypsubst_thin; code_simp)
qed

subsection \<open>All columns\<close>

text \<open>A column type keeps its promises: a text is read as a variant exactly when it is the text that the
  variant is written as, and as nothing else; every other text is refused by name; and the JSON form is
  the same text.\<close>

definition column_type_ok :: "('a \<Rightarrow> string) \<Rightarrow> (string \<Rightarrow> string + 'a) \<Rightarrow> ('a \<Rightarrow> string) \<Rightarrow> string \<Rightarrow> bool" where
  "column_type_ok to_text from_text variant type_name \<longleftrightarrow>
     (\<forall>v. from_text (to_text v) = Inr v \<and> to_text v = snake_case (variant v))
   \<and> (\<forall>s. (\<exists>v. s = to_text v \<and> from_text s = Inr v) \<or> from_text s = Inl (unknown_variant type_name s))
   \<and> (\<forall>v w. to_text v = to_text w \<longrightarrow> v = w)"

context column_enum begin

lemma type_ok: "column_type_ok to_text from_text variant type_name"
  unfolding column_type_ok_def using decode_encode wire column_total to_text_inject by blast

end

text \<open>C38: The column types are sound: for each of the fourteen enumerations, every value survives the way to
  the database and back, distinct values have distinct texts, every text in a column is either the
  text of exactly one value or refused with an error that names the type and the text, and the JSON
  form of a value is the text of the column.\<close>

theorem columns_well_typed:
  "column_type_ok tier_str tier_from_str tier_variant ''SubscriptionTier''
   \<and> column_type_ok subscription_status_str subscription_status_from_str subscription_status_variant ''SubscriptionStatus''
   \<and> column_type_ok workspace_status_str workspace_status_from_str workspace_status_variant ''WorkspaceStatus''
   \<and> column_type_ok role_str role_from_str role_variant ''WorkspaceRole''
   \<and> column_type_ok watch_mode_str watch_mode_from_str watch_mode_variant ''WatchMode''
   \<and> column_type_ok watch_execution_status_str watch_execution_status_from_str watch_execution_status_variant ''WatchExecutionStatus''
   \<and> column_type_ok session_type_str session_type_from_str session_type_variant ''SessionType''
   \<and> column_type_ok datasource_type_str datasource_type_from_str datasource_type_variant ''DatasourceType''
   \<and> column_type_ok feedback_type_str feedback_type_from_str feedback_type_variant ''FeedbackType''
   \<and> column_type_ok feedback_status_str feedback_status_from_str feedback_status_variant ''FeedbackStatus''
   \<and> column_type_ok invitation_status_str invitation_status_from_str invitation_status_variant ''InvitationStatus''
   \<and> column_type_ok transfer_status_str transfer_status_from_str transfer_status_variant ''TransferStatus''
   \<and> column_type_ok catalog_refresh_status_str catalog_refresh_status_from_str catalog_refresh_status_variant ''CatalogRefreshStatus''
   \<and> column_type_ok chat_message_role_str chat_message_role_from_str chat_message_role_variant ''ChatMessageRole''"
  by (intro conjI tier_column.type_ok subscription_status_column.type_ok workspace_status_column.type_ok role_column.type_ok watch_mode_column.type_ok watch_execution_status_column.type_ok session_type_column.type_ok datasource_type_column.type_ok feedback_type_column.type_ok feedback_status_column.type_ok invitation_status_column.type_ok transfer_status_column.type_ok catalog_refresh_status_column.type_ok chat_message_role_column.type_ok)

end
