(* ===== verification/Billing_Gate.thy ===== *)
theory Billing_Gate
  imports Column_Enums
begin

text \<open>
  Workspaces, their subscriptions and the billing gate: \<open>crates/kyomi-core/src/capability.rs\<close>,
  \<open>models/workspace.rs\<close> and \<open>crates/kyomi-auth/src/billing_gate.rs\<close>.
  Times are microseconds since the epoch; amounts of money are \<open>f64\<close> bit patterns that are only
  passed on. Of the \<open>workspaces\<close> row, the columns the modelled code reads are kept.
\<close>

subsection \<open>Data\<close>

datatype billing_lapse_reason = TrialEnded | PaymentFailed | SubscriptionEnded

record workspace_row =
  wk_id :: string
  wk_name :: "string option"
  wk_status :: workspace_status
  wk_owner :: string
  wk_tier :: subscription_tier
  wk_subscription :: subscription_status
  wk_period_end :: "int option"
  wk_trial_ends_at :: "int option"
  wk_stripe_subscription :: "string option"
  wk_user_limit :: "int option"
  wk_settings :: "json option"

subsection \<open>Tiers\<close>

definition parse_tier :: "string \<Rightarrow> subscription_tier option" where
  "parse_tier s =
     (if s = ''free'' then Some Free
      else if s = ''basic'' then Some Basic
      else if s = ''starter'' then Some Starter
      else if s = ''pro'' \<or> s = ''regular'' then Some Pro
      else if s = ''team'' then Some Team
      else if s = ''enterprise'' then Some Enterprise
      else if s = ''cloud'' then Some Cloud
      else None)"

definition get_subscription_tier :: "workspace_row \<Rightarrow> subscription_tier" where
  "get_subscription_tier w =
     (case Option.bind (wk_settings w) (\<lambda>settings.
           Option.bind (json_get ''custom_settings'' settings) (\<lambda>custom.
           Option.bind (json_get ''subscription_tier'' custom) (\<lambda>v.
           Option.bind (as_str v) parse_tier))) of
        Some tier \<Rightarrow> tier
      | None \<Rightarrow> wk_tier w)"

definition UNLIMITED_USER_LIMIT :: int where "UNLIMITED_USER_LIMIT = 999999"

definition get_user_limit :: "workspace_row \<Rightarrow> int" where
  "get_user_limit w = (case wk_user_limit w of Some n \<Rightarrow> n | None \<Rightarrow> UNLIMITED_USER_LIMIT)"

subsection \<open>The lapse of billing\<close>

definition billing_lapse_reason_of :: "workspace_row \<Rightarrow> int \<Rightarrow> billing_lapse_reason option" where
  "billing_lapse_reason_of w now =
     (case wk_subscription w of
        PastDue \<Rightarrow> Some PaymentFailed
      | SubCancelled \<Rightarrow>
          if wk_stripe_subscription w \<noteq> None
            \<and> (case wk_period_end w of None \<Rightarrow> False | Some t \<Rightarrow> t > now)
          then None else Some SubscriptionEnded
      | SubActive \<Rightarrow> None
      | Trialing \<Rightarrow>
          if wk_stripe_subscription w = None
            \<and> (case wk_trial_ends_at w of None \<Rightarrow> False | Some t \<Rightarrow> t < now)
          then Some TrialEnded else None)"

definition is_billing_lapsed :: "workspace_row \<Rightarrow> int \<Rightarrow> bool" where
  "is_billing_lapsed w now \<longleftrightarrow> billing_lapse_reason_of w now \<noteq> None"

definition billing_gate_blocks :: "workspace_row \<Rightarrow> bool \<Rightarrow> int \<Rightarrow> bool" where
  "billing_gate_blocks w self_hosted now \<longleftrightarrow> \<not> self_hosted \<and> is_billing_lapsed w now"

subsection \<open>The gate of the schedulers and sockets\<close>

datatype workspace_billing_gate = GateOpen | GateLapsed | GateUnverifiable

definition gate_blocks :: "workspace_billing_gate \<Rightarrow> bool" where
  "gate_blocks g \<longleftrightarrow> g \<noteq> GateOpen"

text \<open>\<open>load\<close> is the outcome of \<open>get_workspace\<close>.\<close>

definition check_workspace_billing_gate ::
    "app_error + workspace_row option \<Rightarrow> bool \<Rightarrow> int \<Rightarrow> workspace_billing_gate" where
  "check_workspace_billing_gate load self_hosted now =
     (if self_hosted then GateOpen
      else case load of
        Inr (Some w) \<Rightarrow> if billing_gate_blocks w self_hosted now then GateLapsed else GateOpen
      | Inr None \<Rightarrow> GateUnverifiable
      | Inl _ \<Rightarrow> GateUnverifiable)"

subsection \<open>Capabilities\<close>

record capabilities =
  cap_tier :: subscription_tier
  cap_status :: subscription_status
  cap_billing_enabled :: bool
  cap_credits_remaining :: "64 word"
  cap_credits_limit :: "64 word"
  cap_credits_exhausted :: bool
  cap_ai_chat :: bool
  cap_bigquery :: string
  cap_multi_user :: bool
  cap_user_management :: bool
  cap_dashboard_sharing :: bool
  cap_export :: bool
  cap_api_access :: bool
  cap_catalog_refresh_limit :: int
  cap_max_dashboards :: int
  cap_history_days :: int
  cap_user_limit :: int
  cap_watch :: bool
  cap_slack :: bool
  cap_mcp :: bool
  cap_pdf_export :: bool

record capability_credits =
  cr_limit_usd :: "64 word"
  cr_used_usd :: "64 word"
  cr_remaining_usd :: "64 word"
  cr_exhausted :: bool
  cr_percentage_used :: "64 word"

definition compute_capabilities_with_credits :: "workspace_row \<Rightarrow> capability_credits \<Rightarrow> capabilities" where
  "compute_capabilities_with_credits w credits = \<lparr>
     cap_tier = get_subscription_tier w, cap_status = wk_subscription w, cap_billing_enabled = True,
     cap_credits_remaining = cr_remaining_usd credits, cap_credits_limit = cr_limit_usd credits,
     cap_credits_exhausted = cr_exhausted credits, cap_ai_chat = (\<not> cr_exhausted credits),
     cap_bigquery = ''full'', cap_multi_user = True, cap_user_management = True, cap_dashboard_sharing = True,
     cap_export = True, cap_api_access = True, cap_catalog_refresh_limit = 5, cap_max_dashboards = 0,
     cap_history_days = 0, cap_user_limit = get_user_limit w, cap_watch = True, cap_slack = True,
     cap_mcp = True, cap_pdf_export = True\<rparr>"

text \<open>The bit patterns of 999999.0 and 0.0.\<close>

definition F64_999999 :: "64 word" where "F64_999999 = 0x412E847E00000000"
definition F64_ZERO :: "64 word" where "F64_ZERO = 0"

definition compute_capabilities_self_hosted :: capabilities where
  "compute_capabilities_self_hosted = \<lparr>
     cap_tier = Enterprise, cap_status = SubActive, cap_billing_enabled = False,
     cap_credits_remaining = F64_999999, cap_credits_limit = F64_999999, cap_credits_exhausted = False,
     cap_ai_chat = True, cap_bigquery = ''full'', cap_multi_user = True, cap_user_management = True,
     cap_dashboard_sharing = True, cap_export = True, cap_api_access = True, cap_catalog_refresh_limit = 0,
     cap_max_dashboards = 0, cap_history_days = 0, cap_user_limit = 999999, cap_watch = True, cap_slack = True,
     cap_mcp = True, cap_pdf_export = True\<rparr>"

definition compute_capabilities_free_tier :: capabilities where
  "compute_capabilities_free_tier = \<lparr>
     cap_tier = Free, cap_status = SubActive, cap_billing_enabled = True,
     cap_credits_remaining = F64_ZERO, cap_credits_limit = F64_ZERO, cap_credits_exhausted = True,
     cap_ai_chat = False, cap_bigquery = ''full'', cap_multi_user = False, cap_user_management = False,
     cap_dashboard_sharing = False, cap_export = True, cap_api_access = False, cap_catalog_refresh_limit = 1,
     cap_max_dashboards = 5, cap_history_days = 7, cap_user_limit = 1, cap_watch = False, cap_slack = False,
     cap_mcp = True, cap_pdf_export = False\<rparr>"

subsection \<open>Who has to pay\<close>

text \<open>The rule in words: a workspace is paid up while its subscription is active, its Stripe trial runs,
  its own trial has no end or has not ended, or its scheduled cancellation has not come.\<close>

definition paid_up :: "workspace_row \<Rightarrow> int \<Rightarrow> bool" where
  "paid_up w now \<longleftrightarrow> wk_subscription w = SubActive
   \<or> wk_subscription w = Trialing \<and> (wk_stripe_subscription w \<noteq> None \<or> (\<forall>t. wk_trial_ends_at w = Some t \<longrightarrow> now \<le> t))
   \<or> wk_subscription w = SubCancelled \<and> wk_stripe_subscription w \<noteq> None \<and> (\<exists>t. wk_period_end w = Some t \<and> now < t)"

lemma lapsed_iff: "is_billing_lapsed w now \<longleftrightarrow> \<not> paid_up w now"
  by (auto simp: is_billing_lapsed_def billing_lapse_reason_of_def paid_up_def split: subscription_status.splits option.splits)

lemma gate_blocks_iff: "billing_gate_blocks w self_hosted now \<longleftrightarrow> \<not> self_hosted \<and> \<not> paid_up w now"
  by (simp add: billing_gate_blocks_def lapsed_iff)

text \<open>C40: The billing gate fails closed and never blocks without cause: a self-hosted deployment is never
  blocked; elsewhere work goes on exactly when the workspace was loaded and is paid up, a workspace
  that could not be loaded is blocked without being called lapsed, and a paid-up workspace can
  only become lapsed at the end of its trial or period, not come back by itself.\<close>

theorem billing_gate_fails_closed:
  "(gate_blocks (check_workspace_billing_gate load self_hosted now) \<longleftrightarrow>
      \<not> self_hosted \<and> \<not> (\<exists>w. load = Inr (Some w) \<and> paid_up w now))
   \<and> (check_workspace_billing_gate load self_hosted now = GateLapsed \<longleftrightarrow>
      \<not> self_hosted \<and> (\<exists>w. load = Inr (Some w) \<and> \<not> paid_up w now))
   \<and> (\<not> paid_up w now \<and> now \<le> later \<longrightarrow> \<not> paid_up w later)
   \<and> (paid_up w now \<and> now \<le> later \<and> \<not> paid_up w later \<longrightarrow>
      (\<exists>t. (wk_trial_ends_at w = Some t \<or> wk_period_end w = Some t) \<and> now \<le> t \<and> t \<le> later))"
proof -
  have "gate_blocks (check_workspace_billing_gate load self_hosted now) \<longleftrightarrow>
      \<not> self_hosted \<and> \<not> (\<exists>w. load = Inr (Some w) \<and> paid_up w now)"
    "check_workspace_billing_gate load self_hosted now = GateLapsed \<longleftrightarrow>
      \<not> self_hosted \<and> (\<exists>w. load = Inr (Some w) \<and> \<not> paid_up w now)"
    by (auto simp: check_workspace_billing_gate_def gate_blocks_def gate_blocks_iff split: sum.splits option.splits)
  moreover have "\<not> paid_up w now \<and> now \<le> later \<longrightarrow> \<not> paid_up w later" by (auto simp: paid_up_def)
  moreover have "paid_up w now \<and> now \<le> later \<and> \<not> paid_up w later \<longrightarrow>
      (\<exists>t. (wk_trial_ends_at w = Some t \<or> wk_period_end w = Some t) \<and> now \<le> t \<and> t \<le> later)"
    by (cases "wk_subscription w") (auto simp: paid_up_def not_less)
  ultimately show ?thesis by blast
qed

theorem billing_gate_fails_closed_witness:
  "let w = \<lparr>wk_id = ''w'', wk_name = None, wk_status = ActiveWs, wk_owner = ''u'', wk_tier = Cloud,
      wk_subscription = SubCancelled, wk_period_end = Some 10, wk_trial_ends_at = None,
      wk_stripe_subscription = Some ''s'', wk_user_limit = None, wk_settings = None\<rparr>
   in paid_up w 5 \<and> \<not> paid_up w 20 \<and> \<not> paid_up w 30"
proof -
  let ?w = "\<lparr>wk_id = ''w'', wk_name = None, wk_status = ActiveWs, wk_owner = ''u'', wk_tier = Cloud,
      wk_subscription = SubCancelled, wk_period_end = Some 10, wk_trial_ends_at = None,
      wk_stripe_subscription = Some ''s'', wk_user_limit = None, wk_settings = None\<rparr> :: workspace_row"
  have "paid_up ?w 5" "\<not> paid_up ?w 20" by (simp_all add: paid_up_def)
  moreover from this(2) billing_gate_fails_closed [of _ _ _ ?w 30] have "\<not> paid_up ?w 20 \<and> 20 \<le> (30::int) \<longrightarrow> \<not> paid_up ?w 30"
    using billing_gate_fails_closed [of "Inr None" False 20 ?w 30] by blast
  ultimately show ?thesis unfolding Let_def by simp
qed

end
