(* ===== verification/Session_Tokens.thy ===== *)
theory Session_Tokens
  imports Billing_Gate
begin

text \<open>
  Refresh tokens and their rotation: \<open>crates/kyomi-auth/src/token_service.rs\<close> on the tables \<open>users\<close>
  and \<open>refresh_tokens\<close>, for both databases the code supports.

  A table is the list of its rows in insertion order; every SQL statement is an atomic step. What a
  call draws from outside is in \<open>auth_env\<close>, numbered by the place in the call that draws it: the
  database's clock, \<open>Utc::now()\<close>, the texts of fresh random bytes, and the failure of a statement. A
  failing statement changes nothing, a failing transaction is rolled back, and a commit whose
  acknowledgement is lost may have happened (\<open>ae_applied\<close>). Times are microseconds since the epoch.
  SHA-256 with hexadecimal output is the parameter \<open>sha\<close>. SQLite stores \<open>datetime('now')\<close> in whole
  seconds and compares instants in milliseconds (the rounding of its floating-point day numbers
  below that is not modelled); PostgreSQL keeps microseconds.
\<close>

subsection \<open>Rows\<close>

record account_row =
  ac_id :: string
  ac_email :: string
  ac_name :: "string option"
  ac_active :: bool
  ac_verified :: bool
  ac_metadata :: "json option"
  ac_sessions_valid_from :: "int option"
  ac_last_workspace :: "string option"
  ac_last_login :: "int option"

record membership_row =
  mb_workspace :: string
  mb_user :: string
  mb_role :: workspace_role
  mb_active :: bool
  mb_created_at :: int

record refresh_row =
  rf_id :: string
  rf_user :: string
  rf_hash :: string
  rf_expires_at :: int
  rf_active :: bool
  rf_revoked_at :: "int option"
  rf_created_at :: int
  rf_last_used :: "int option"
  rf_user_agent :: "string option"
  rf_ip :: "string option"
  rf_country :: "string option"
  rf_client :: "string option"
  rf_family :: string
  rf_replaced_at :: "int option"

record auth_db =
  accounts :: "account_row list"
  memberships :: "membership_row list"
  workspaces :: "workspace_row list"
  refresh_tokens :: "refresh_row list"

record device_info =
  dv_user_agent :: "string option"
  dv_ip :: "string option"
  dv_country :: "string option"
  dv_client :: "string option"

subsection \<open>Statements\<close>

datatype backend = Postgres | Sqlite

record auth_env =
  ae_db_now :: "nat \<Rightarrow> int"
  ae_now :: "nat \<Rightarrow> int"
  ae_random :: "nat \<Rightarrow> string"
  ae_fault :: "nat \<Rightarrow> db_error option"
  ae_applied :: bool

text \<open>\<open>NOW()\<close> and \<open>datetime('now')\<close>.\<close>

fun sql_now :: "backend \<Rightarrow> int \<Rightarrow> int" where
  "sql_now Postgres t = t"
| "sql_now Sqlite t = t div 10 ^ 6 * 10 ^ 6"

text \<open>The instant as the database compares it: a stored value is rounded to milliseconds by SQLite,
  its clock is read in milliseconds.\<close>

fun stored_instant :: "backend \<Rightarrow> int \<Rightarrow> int" where
  "stored_instant Postgres t = t"
| "stored_instant Sqlite t = (t + 500) div 1000"

fun clock_instant :: "backend \<Rightarrow> int \<Rightarrow> int" where
  "clock_instant Postgres t = t"
| "clock_instant Sqlite t = t div 1000"

definition unexpired :: "backend \<Rightarrow> int \<Rightarrow> int \<Rightarrow> bool" where
  "unexpired b expires now \<longleftrightarrow> stored_instant b expires > clock_instant b now"

definition sql :: "auth_env \<Rightarrow> nat \<Rightarrow> app_error + unit" where
  "sql e n = (case ae_fault e n of None \<Rightarrow> Inr () | Some err \<Rightarrow> Inl (Sqlx err))"

text \<open>One statement outside a transaction.\<close>

definition statement :: "auth_env \<Rightarrow> nat \<Rightarrow> (auth_db \<Rightarrow> (app_error + 'a) \<times> auth_db) \<Rightarrow> auth_db \<Rightarrow> (app_error + 'a) \<times> auth_db" where
  "statement e n f db = (case sql e n of Inl err \<Rightarrow> (Inl err, db) | Inr _ \<Rightarrow> f db)"

text \<open>\<open>begin\<close> (site \<open>n\<close>), the body, \<open>commit\<close> (site \<open>n + 1\<close>).\<close>

definition transaction :: "auth_env \<Rightarrow> nat \<Rightarrow> (auth_db \<Rightarrow> app_error + 'a \<times> auth_db) \<Rightarrow> auth_db \<Rightarrow> (app_error + 'a) \<times> auth_db" where
  "transaction e n body db =
     (case sql e n of
        Inl err \<Rightarrow> (Inl err, db)
      | Inr _ \<Rightarrow> (case body db of
          Inl err \<Rightarrow> (Inl err, db)
        | Inr (v, db') \<Rightarrow> (case sql e (n + 1) of
            Inl err \<Rightarrow> (Inl err, if ae_applied e then db' else db)
          | Inr _ \<Rightarrow> (Inr v, db'))))"

text \<open>\<open>INSERT INTO refresh_tokens\<close>: \<open>token_id\<close> is the primary key, \<open>user_id\<close> references \<open>users\<close>.\<close>

definition insert_refresh :: "refresh_row \<Rightarrow> auth_db \<Rightarrow> app_error + auth_db" where
  "insert_refresh r db =
     and_then (ensure (rf_id r \<notin> rf_id ` set (refresh_tokens db)) (Sqlx (UniqueViolation ''refresh_tokens''))) (\<lambda>_.
     and_then (ensure (rf_user r \<in> ac_id ` set (accounts db)) (Sqlx (OtherDbError ''foreign key''))) (\<lambda>_.
     Inr (db\<lparr>refresh_tokens := refresh_tokens db @ [r]\<rparr>)))"

definition update_refresh :: "(refresh_row \<Rightarrow> bool) \<Rightarrow> (refresh_row \<Rightarrow> refresh_row) \<Rightarrow> auth_db \<Rightarrow> nat \<times> auth_db" where
  "update_refresh p f db =
     (count_where p (refresh_tokens db), db\<lparr>refresh_tokens := update_where p f (refresh_tokens db)\<rparr>)"

subsection \<open>The token service\<close>

record refresh_user_data =
  ud_user :: string
  ud_email :: string
  ud_name :: "string option"
  ud_roles :: "string list"
  ud_token :: string
  ud_family :: string
  ud_client :: "string option"

datatype refresh_verify_result =
    Valid refresh_user_data
  | GracePeriod refresh_user_data
  | TheftDetected string string
  | Invalid

text \<open>Seconds, from \<open>data/constants.toml\<close>.\<close>

definition GRACE_SECONDS :: int where "GRACE_SECONDS = 30"

definition hash_refresh_token :: "(string \<Rightarrow> string) \<Rightarrow> string \<Rightarrow> string" where
  "hash_refresh_token sha raw = sha raw"

definition generate_family_id :: "auth_env \<Rightarrow> nat \<Rightarrow> string" where
  "generate_family_id e n = ''fam_'' @ ae_random e n"

text \<open>The columns a new token gets by default or from the device.\<close>

definition new_refresh :: "string \<Rightarrow> string \<Rightarrow> string \<Rightarrow> int \<Rightarrow> int \<Rightarrow> device_info \<Rightarrow> string option \<Rightarrow> string \<Rightarrow> refresh_row" where
  "new_refresh tid user hash expires created dv client family =
     \<lparr>rf_id = tid, rf_user = user, rf_hash = hash, rf_expires_at = expires, rf_active = True,
      rf_revoked_at = None, rf_created_at = created, rf_last_used = None, rf_user_agent = dv_user_agent dv,
      rf_ip = dv_ip dv, rf_country = dv_country dv, rf_client = client, rf_family = family, rf_replaced_at = None\<rparr>"

definition store_refresh_token :: "backend \<Rightarrow> auth_env \<Rightarrow> nat \<Rightarrow> string \<Rightarrow> string \<Rightarrow> int \<Rightarrow> device_info \<Rightarrow> string
    \<Rightarrow> auth_db \<Rightarrow> (app_error + string) \<times> auth_db" where
  "store_refresh_token b e n user hash expires dv family =
     (let tid = ''rt_'' @ ae_random e n in
      statement e n (\<lambda>db. case insert_refresh (new_refresh tid user hash expires (sql_now b (ae_db_now e n)) dv (dv_client dv) family) db of
         Inl err \<Rightarrow> (Inl err, db)
       | Inr db' \<Rightarrow> (Inr tid, db')))"

definition roles_of :: "json option \<Rightarrow> string list" where
  "roles_of metadata =
     (case Option.bind metadata (\<lambda>m. Option.bind (json_get ''roles'' m) (\<lambda>r.
           Option.bind (as_array r) (\<lambda>xs. those (map as_str xs)))) of
        Some roles \<Rightarrow> roles
      | None \<Rightarrow> [''user''])"

definition revoke_token_family :: "backend \<Rightarrow> auth_env \<Rightarrow> nat \<Rightarrow> string \<Rightarrow> auth_db \<Rightarrow> (app_error + nat) \<times> auth_db" where
  "revoke_token_family b e n family =
     statement e n (\<lambda>db. let (k, db') = update_refresh (\<lambda>r. rf_family r = family \<and> rf_active r)
         (\<lambda>r. r\<lparr>rf_active := False, rf_revoked_at := Some (sql_now b (ae_db_now e n))\<rparr>) db in (Inr k, db'))"

definition touch_refresh :: "backend \<Rightarrow> auth_env \<Rightarrow> nat \<Rightarrow> string \<Rightarrow> auth_db \<Rightarrow> (app_error + unit) \<times> auth_db" where
  "touch_refresh b e n tid =
     statement e n (\<lambda>db. (Inr (), snd (update_refresh (\<lambda>r. rf_id r = tid)
         (\<lambda>r. r\<lparr>rf_last_used := Some (sql_now b (ae_db_now e n))\<rparr>) db)))"

text \<open>The token and its user, as the join of the query selects them.\<close>

definition find_refresh :: "backend \<Rightarrow> string \<Rightarrow> int \<Rightarrow> auth_db \<Rightarrow> (refresh_row \<times> account_row) option" where
  "find_refresh b hash now db =
     find (\<lambda>(r, u). rf_hash r = hash \<and> rf_active r \<and> unexpired b (rf_expires_at r) now)
       (concat (map (\<lambda>r. map (\<lambda>u. (r, u)) (filter (\<lambda>u. ac_id u = rf_user r) (accounts db))) (refresh_tokens db)))"

definition user_data_of :: "refresh_row \<Rightarrow> account_row \<Rightarrow> refresh_user_data" where
  "user_data_of r u = \<lparr>ud_user = rf_user r, ud_email = ac_email u, ud_name = ac_name u,
     ud_roles = roles_of (ac_metadata u), ud_token = rf_id r, ud_family = rf_family r, ud_client = rf_client r\<rparr>"

definition verify_refresh_token :: "(string \<Rightarrow> string) \<Rightarrow> backend \<Rightarrow> auth_env \<Rightarrow> nat \<Rightarrow> string
    \<Rightarrow> auth_db \<Rightarrow> (app_error + refresh_verify_result) \<times> auth_db" where
  "verify_refresh_token sha b e n raw =
     st_then (statement e n (\<lambda>db. (Inr (find_refresh b (hash_refresh_token sha raw) (ae_db_now e n) db), db))) (\<lambda>found.
     case found of
       None \<Rightarrow> st_ok Invalid
     | Some (r, u) \<Rightarrow>
         if \<not> ac_active u then st_ok Invalid
         else (case rf_replaced_at r of
           Some replaced \<Rightarrow>
             if ae_now e n \<le> replaced + GRACE_SECONDS * 10 ^ 6
             then st_then (touch_refresh b e (n + 1) (rf_id r)) (\<lambda>_. st_ok (GracePeriod (user_data_of r u)))
             else st_then (revoke_token_family b e (n + 1) (rf_family r)) (\<lambda>_.
                  st_ok (TheftDetected (rf_family r) (rf_user r)))
         | None \<Rightarrow> st_then (touch_refresh b e (n + 1) (rf_id r)) (\<lambda>_. st_ok (Valid (user_data_of r u)))))"

definition renewable :: "backend \<Rightarrow> int \<Rightarrow> string \<Rightarrow> string \<Rightarrow> auth_db \<Rightarrow> refresh_row \<Rightarrow> bool" where
  "renewable b now tid client db r \<longleftrightarrow>
     rf_id r = tid \<and> rf_client r = Some client \<and> rf_active r \<and> rf_revoked_at r = None
   \<and> unexpired b (rf_expires_at r) now
   \<and> (case rf_replaced_at r of None \<Rightarrow> True
      | Some t \<Rightarrow> stored_instant b (t + GRACE_SECONDS * 10 ^ 6) \<ge> clock_instant b now)
   \<and> (\<exists>u \<in> set (accounts db). ac_id u = rf_user r \<and> ac_active u)"

definition renew_oauth_refresh_token :: "backend \<Rightarrow> auth_env \<Rightarrow> nat \<Rightarrow> string \<Rightarrow> string \<Rightarrow> int
    \<Rightarrow> auth_db \<Rightarrow> (app_error + bool) \<times> auth_db" where
  "renew_oauth_refresh_token b e n tid client expires =
     statement e n (\<lambda>db. let (k, db') = update_refresh (renewable b (ae_db_now e n) tid client db)
         (\<lambda>r. if rf_replaced_at r = None \<and> stored_instant b (rf_expires_at r) < stored_instant b expires
              then r\<lparr>rf_expires_at := expires\<rparr> else r) db
       in (Inr (k > 0), db'))"

definition rotate_in_tx :: "backend \<Rightarrow> auth_env \<Rightarrow> nat \<Rightarrow> string \<Rightarrow> string \<Rightarrow> string \<Rightarrow> string \<Rightarrow> int
    \<Rightarrow> device_info \<Rightarrow> auth_db \<Rightarrow> app_error + string \<times> auth_db" where
  "rotate_in_tx b e n old user family hash expires dv db =
     and_then (sql e (n + 2)) (\<lambda>_.
     and_then (sql e (n + 3)) (\<lambda>_.
     let tid = ''rt_'' @ ae_random e n;
         (replaced, db1) = update_refresh
          (\<lambda>r. rf_id r = old \<and> rf_user r = user \<and> rf_family r = family \<and> rf_active r
             \<and> unexpired b (rf_expires_at r) (ae_db_now e n))
          (\<lambda>r. r\<lparr>rf_replaced_at := Some (sql_now b (ae_db_now e n))\<rparr>) db in
     and_then (ensure (replaced \<noteq> 0) (AppUnauthorized ''Refresh token has been revoked'')) (\<lambda>_.
     and_then (sql e (n + 4)) (\<lambda>_.
     and_then (insert_refresh (new_refresh tid user hash expires (sql_now b (ae_db_now e n)) dv None family) db1) (\<lambda>db2.
     Inr (tid, db2))))))"

definition rotate_refresh_token :: "backend \<Rightarrow> auth_env \<Rightarrow> nat \<Rightarrow> string \<Rightarrow> string \<Rightarrow> string \<Rightarrow> string \<Rightarrow> int
    \<Rightarrow> device_info \<Rightarrow> auth_db \<Rightarrow> (app_error + string) \<times> auth_db" where
  "rotate_refresh_token b e n old user family hash expires dv =
     transaction e n (rotate_in_tx b e n old user family hash expires dv)"

definition revoke_refresh_token :: "backend \<Rightarrow> auth_env \<Rightarrow> nat \<Rightarrow> string \<Rightarrow> auth_db \<Rightarrow> (app_error + bool) \<times> auth_db" where
  "revoke_refresh_token b e n tid =
     statement e n (\<lambda>db. let (k, db') = update_refresh (\<lambda>r. rf_id r = tid)
         (\<lambda>r. r\<lparr>rf_active := False, rf_revoked_at := Some (sql_now b (ae_db_now e n))\<rparr>) db in (Inr (k > 0), db'))"

definition revoke_user_refresh_token :: "backend \<Rightarrow> auth_env \<Rightarrow> nat \<Rightarrow> string \<Rightarrow> string \<Rightarrow> auth_db \<Rightarrow> (app_error + bool) \<times> auth_db" where
  "revoke_user_refresh_token b e n user tid =
     st_then (statement e n (\<lambda>db. (Inr (map_option rf_family (find (\<lambda>r. rf_id r = tid \<and> rf_user r = user \<and> rf_active r)
         (refresh_tokens db))), db))) (\<lambda>found.
     case found of
       None \<Rightarrow> st_ok False
     | Some family \<Rightarrow> st_then (revoke_token_family b e (n + 1) family) (\<lambda>k. st_ok (k > 0)))"

definition store_session_in_tx :: "backend \<Rightarrow> auth_env \<Rightarrow> nat \<Rightarrow> string \<Rightarrow> string \<Rightarrow> int \<Rightarrow> device_info
    \<Rightarrow> string \<Rightarrow> int \<Rightarrow> auth_db \<Rightarrow> app_error + string \<times> auth_db" where
  "store_session_in_tx b e n user hash expires dv family issued db =
     and_then (sql e (n + 2)) (\<lambda>_.
     and_then (ok_or (find (\<lambda>u. ac_id u = user) (accounts db)) (Sqlx RowNotFound)) (\<lambda>u.
     and_then (ensure (\<not> (case ac_sessions_valid_from u of None \<Rightarrow> False | Some cutoff \<Rightarrow> issued \<le> cutoff))
       (AppUnauthorized ''Session revoked during login'')) (\<lambda>_.
     and_then (sql e (n + 3)) (\<lambda>_.
     let tid = ''rt_'' @ ae_random e n in
     and_then (insert_refresh (new_refresh tid user hash expires (sql_now b (ae_db_now e n)) dv None family) db) (\<lambda>db1.
     Inr (tid, db1))))))"

definition store_session_refresh_token :: "backend \<Rightarrow> auth_env \<Rightarrow> nat \<Rightarrow> string \<Rightarrow> string \<Rightarrow> int \<Rightarrow> device_info
    \<Rightarrow> string \<Rightarrow> int \<Rightarrow> auth_db \<Rightarrow> (app_error + string) \<times> auth_db" where
  "store_session_refresh_token b e n user hash expires dv family issued =
     transaction e n (store_session_in_tx b e n user hash expires dv family issued)"

text \<open>The next cutoff: strictly later than the last one, even if the clock went back.\<close>

definition advance_cutoff :: "int \<Rightarrow> int option \<Rightarrow> int" where
  "advance_cutoff candidate old = (case old of None \<Rightarrow> candidate
     | Some c \<Rightarrow> if c \<ge> candidate then c + 1 else candidate)"

definition revoke_sessions_in_tx :: "backend \<Rightarrow> auth_env \<Rightarrow> nat \<Rightarrow> string \<Rightarrow> auth_db \<Rightarrow> app_error + nat \<times> auth_db" where
  "revoke_sessions_in_tx b e n user db =
     and_then (sql e (n + 2)) (\<lambda>_.
     and_then (sql e (n + 3)) (\<lambda>_.
     let advanced = count_where (\<lambda>u. ac_id u = user) (accounts db);
         db1 = db\<lparr>accounts := update_where (\<lambda>u. ac_id u = user)
           (\<lambda>u. u\<lparr>ac_sessions_valid_from := Some (advance_cutoff (ae_now e n) (ac_sessions_valid_from u))\<rparr>) (accounts db)\<rparr> in
     and_then (ensure (advanced \<noteq> 0) (AppUnauthorized ''User not found'')) (\<lambda>_.
     and_then (sql e (n + 4)) (\<lambda>_.
     Inr (update_refresh (\<lambda>r. rf_user r = user \<and> rf_active r)
       (\<lambda>r. r\<lparr>rf_active := False, rf_revoked_at := Some (sql_now b (ae_db_now e n))\<rparr>) db1)))))"

definition revoke_all_user_sessions :: "backend \<Rightarrow> auth_env \<Rightarrow> nat \<Rightarrow> string \<Rightarrow> auth_db \<Rightarrow> (app_error + nat) \<times> auth_db" where
  "revoke_all_user_sessions b e n user = transaction e n (revoke_sessions_in_tx b e n user)"

definition revoke_all_user_refresh_tokens :: "backend \<Rightarrow> auth_env \<Rightarrow> nat \<Rightarrow> string \<Rightarrow> auth_db \<Rightarrow> (app_error + nat) \<times> auth_db" where
  "revoke_all_user_refresh_tokens b e n user =
     statement e n (\<lambda>db. let (k, db') = update_refresh (\<lambda>r. rf_user r = user \<and> rf_active r)
         (\<lambda>r. r\<lparr>rf_active := False, rf_revoked_at := Some (sql_now b (ae_db_now e n))\<rparr>) db in (Inr k, db'))"

subsection \<open>Steps of the database\<close>

text \<open>The atomic steps that a running system takes on the tokens: the statements and transactions of the
  functions above. \<open>verify_refresh_token\<close> and \<open>revoke_user_refresh_token\<close> read and then take one of
  them, so every interleaving of calls is a sequence of steps.\<close>

datatype token_step =
    StoreStep string string int device_info string
  | StoreSessionStep string string int device_info string int
  | TouchStep string
  | RevokeFamilyStep string
  | RevokeTokenStep string
  | RevokeSessionsStep string
  | RevokeTokensStep string
  | RotateStep string string string string int device_info
  | RenewStep string string int

definition token_step_effect :: "backend \<Rightarrow> auth_env \<times> nat \<times> token_step \<Rightarrow> auth_db \<Rightarrow> auth_db" where
  "token_step_effect b c db = (case c of (e, n, step) \<Rightarrow> (case step of
       StoreStep u h x dv f \<Rightarrow> snd (store_refresh_token b e n u h x dv f db)
     | StoreSessionStep u h x dv f i \<Rightarrow> snd (store_session_refresh_token b e n u h x dv f i db)
     | TouchStep t \<Rightarrow> snd (touch_refresh b e n t db)
     | RevokeFamilyStep f \<Rightarrow> snd (revoke_token_family b e n f db)
     | RevokeTokenStep t \<Rightarrow> snd (revoke_refresh_token b e n t db)
     | RevokeSessionsStep u \<Rightarrow> snd (revoke_all_user_sessions b e n u db)
     | RevokeTokensStep u \<Rightarrow> snd (revoke_all_user_refresh_tokens b e n u db)
     | RotateStep t u f h x dv \<Rightarrow> snd (rotate_refresh_token b e n t u f h x dv db)
     | RenewStep t c x \<Rightarrow> snd (renew_oauth_refresh_token b e n t c x db)))"

text \<open>A new login opens a family; every other step stays within the families there are.\<close>

fun opens :: "string \<Rightarrow> token_step \<Rightarrow> bool" where
  "opens f (StoreStep _ _ _ _ f') = (f = f')"
| "opens f (StoreSessionStep _ _ _ _ f' _) = (f = f')"
| "opens f _ = False"

definition family_dead :: "string \<Rightarrow> auth_db \<Rightarrow> bool" where
  "family_dead f db \<longleftrightarrow> (\<forall>r \<in> set (refresh_tokens db). rf_family r = f \<longrightarrow> \<not> rf_active r)"

definition cutoff :: "string \<Rightarrow> auth_db \<Rightarrow> int option" where
  "cutoff user db = Option.bind (find (\<lambda>u. ac_id u = user) (accounts db)) ac_sessions_valid_from"

definition cutoff_le :: "int option \<Rightarrow> int option \<Rightarrow> bool" where
  "cutoff_le a b \<longleftrightarrow> (\<forall>c. a = Some c \<longrightarrow> (\<exists>c'. b = Some c' \<and> c \<le> c'))"

lemma cutoff_le_refl [simp]: "cutoff_le a a" by (simp add: cutoff_le_def)

lemma cutoff_le_trans: "cutoff_le a b \<Longrightarrow> cutoff_le b c \<Longrightarrow> cutoff_le a c"
  unfolding cutoff_le_def by (metis order_trans)

lemma transaction_snd: "snd (transaction e n body db) = db \<or> (\<exists>v. body db = Inr (v, snd (transaction e n body db)))"
  by (auto simp: transaction_def split: sum.splits prod.splits)

lemma transaction_Inr: "transaction e n body db = (Inr v, db') \<Longrightarrow> body db = Inr (v, db')"
  by (auto simp: transaction_def split: sum.splits prod.splits)

lemma statement_snd: "snd (statement e n f db) = db \<or> snd (statement e n f db) = snd (f db)"
  by (auto simp: statement_def split: sum.splits)

lemma insert_refresh_Inr: "insert_refresh r db = Inr db' \<Longrightarrow>
    refresh_tokens db' = refresh_tokens db @ [r] \<and> accounts db' = accounts db \<and> rf_id r \<notin> rf_id ` set (refresh_tokens db)"
  by (auto simp: insert_refresh_def and_then_eq_Inr)

lemma update_refresh_simps [simp]:
  "accounts (snd (update_refresh p f db)) = accounts db"
  "refresh_tokens (snd (update_refresh p f db)) = update_where p f (refresh_tokens db)"
  "fst (update_refresh p f db) = count_where p (refresh_tokens db)"
  by (simp_all add: update_refresh_def)

lemma count_where_pos: "0 < count_where p rs \<longleftrightarrow> (\<exists>r \<in> set rs. p r)"
  by (auto simp: count_where_def filter_empty_conv)

lemma rotate_in_tx_Inr:
  assumes "rotate_in_tx b e n old user family hash expires dv db = Inr (t, db')"
  shows "t = ''rt_'' @ ae_random e n \<and> t \<notin> rf_id ` set (refresh_tokens db) \<and> accounts db' = accounts db
    \<and> (\<exists>r \<in> set (refresh_tokens db). rf_id r = old \<and> rf_user r = user \<and> rf_family r = family \<and> rf_active r
         \<and> unexpired b (rf_expires_at r) (ae_db_now e n))
    \<and> refresh_tokens db' = update_where
        (\<lambda>r. rf_id r = old \<and> rf_user r = user \<and> rf_family r = family \<and> rf_active r
           \<and> unexpired b (rf_expires_at r) (ae_db_now e n))
        (\<lambda>r. r\<lparr>rf_replaced_at := Some (sql_now b (ae_db_now e n))\<rparr>) (refresh_tokens db)
      @ [new_refresh t user hash expires (sql_now b (ae_db_now e n)) dv None family]"
proof -
  define p where "p = (\<lambda>r :: refresh_row. rf_id r = old \<and> rf_user r = user \<and> rf_family r = family \<and> rf_active r
       \<and> unexpired b (rf_expires_at r) (ae_db_now e n))"
  define f where "f = (\<lambda>r :: refresh_row. r\<lparr>rf_replaced_at := Some (sql_now b (ae_db_now e n))\<rparr>)"
  have run: "t = ''rt_'' @ ae_random e n" "count_where p (refresh_tokens db) \<noteq> 0"
      "insert_refresh (new_refresh t user hash expires (sql_now b (ae_db_now e n)) dv None family)
         (db\<lparr>refresh_tokens := update_where p f (refresh_tokens db)\<rparr>) = Inr db'"
    using assms unfolding rotate_in_tx_def Let_def update_refresh_def p_def [symmetric] f_def [symmetric]
    by (auto simp: and_then_eq_Inr)
  have "map rf_id (update_where p f (refresh_tokens db)) = map rf_id (refresh_tokens db)"
    by (rule map_update_where) (simp add: f_def)
  then have ids: "rf_id ` set (update_where p f (refresh_tokens db)) = rf_id ` set (refresh_tokens db)"
    by (metis set_map)
  note inserted = insert_refresh_Inr [OF run(3)]
  have "t \<notin> rf_id ` set (refresh_tokens db)" using inserted ids by (simp add: new_refresh_def)
  moreover have "\<exists>r \<in> set (refresh_tokens db). p r" using run(2) by (auto simp: count_where_pos)
  ultimately show ?thesis
    using run(1) inserted unfolding p_def [symmetric] f_def [symmetric]
    by (intro conjI) (simp_all add: p_def)
qed

lemma store_session_in_tx_Inr:
  assumes "store_session_in_tx b e n user hash expires dv family issued db = Inr (t, db')"
  shows "(\<forall>c. cutoff user db = Some c \<longrightarrow> c < issued) \<and> accounts db' = accounts db
    \<and> refresh_tokens db' = refresh_tokens db @ [new_refresh t user hash expires (sql_now b (ae_db_now e n)) dv None family]"
  using assms
  by (auto simp: store_session_in_tx_def and_then_eq_Inr Let_def cutoff_def not_le dest!: insert_refresh_Inr split: option.splits)

lemma revoke_sessions_in_tx_Inr:
  assumes "revoke_sessions_in_tx b e n user db = Inr (k, db')"
  shows "accounts db' = update_where (\<lambda>u. ac_id u = user)
      (\<lambda>u. u\<lparr>ac_sessions_valid_from := Some (advance_cutoff (ae_now e n) (ac_sessions_valid_from u))\<rparr>) (accounts db)
    \<and> (\<exists>u \<in> set (accounts db). ac_id u = user)
    \<and> refresh_tokens db' = update_where (\<lambda>r. rf_user r = user \<and> rf_active r)
      (\<lambda>r. r\<lparr>rf_active := False, rf_revoked_at := Some (sql_now b (ae_db_now e n))\<rparr>) (refresh_tokens db)"
  using assms
  by (auto simp: revoke_sessions_in_tx_def and_then_eq_Inr Let_def update_refresh_def count_where_pos)

lemma advance_cutoff_later: "old = Some c \<Longrightarrow> c < advance_cutoff t old" "t \<le> advance_cutoff t old"
  by (auto simp: advance_cutoff_def split: option.splits)

lemma revoked_cutoff:
  assumes "revoke_sessions_in_tx b e n user db = Inr (k, db')"
  shows "\<exists>c. cutoff user db' = Some c \<and> ae_now e n \<le> c \<and> (\<forall>old. cutoff user db = Some old \<longrightarrow> old < c)"
proof -
  note r = revoke_sessions_in_tx_Inr [OF assms]
  then obtain u where u: "find (\<lambda>u. ac_id u = user) (accounts db) = Some u"
    by (cases "find (\<lambda>u. ac_id u = user) (accounts db)") (auto simp: find_None_iff_ball)
  then have "find (\<lambda>u. ac_id u = user) (accounts db')
      = Some (u\<lparr>ac_sessions_valid_from := Some (advance_cutoff (ae_now e n) (ac_sessions_valid_from u))\<rparr>)"
    using find_SomeD [OF u] r by (simp add: find_update_where)
  with u advance_cutoff_later show ?thesis by (auto simp: cutoff_def)
qed

lemma revoked_cutoff_other:
  assumes "revoke_sessions_in_tx b e n user db = Inr (k, db')" "other \<noteq> user"
  shows "cutoff other db' = cutoff other db"
proof (cases "find (\<lambda>u. ac_id u = other) (accounts db)")
  case (Some u)
  with find_SomeD [OF Some] assms(2) revoke_sessions_in_tx_Inr [OF assms(1)] show ?thesis
    by (simp add: cutoff_def find_update_where)
next
  case None
  with revoke_sessions_in_tx_Inr [OF assms(1)] show ?thesis by (simp add: cutoff_def find_update_where)
qed

lemma sessions_cutoff_le: "cutoff_le (cutoff user db) (cutoff user (snd (revoke_all_user_sessions b e n u db)))"
  unfolding revoke_all_user_sessions_def
  using transaction_snd [of e n "revoke_sessions_in_tx b e n u" db]
proof
  assume "\<exists>v. revoke_sessions_in_tx b e n u db = Inr (v, snd (transaction e n (revoke_sessions_in_tx b e n u) db))"
  then show "cutoff_le (cutoff user db) (cutoff user (snd (transaction e n (revoke_sessions_in_tx b e n u) db)))"
    using revoked_cutoff [of b e n u db] revoked_cutoff_other [of b e n u db] 
    by (cases "user = u") (fastforce simp: cutoff_le_def)+
qed simp

subsection \<open>What no step brings back\<close>

lemma dead_same: "refresh_tokens db' = refresh_tokens db \<Longrightarrow> family_dead f db' = family_dead f db"
  by (simp add: family_dead_def)

lemma dead_update:
  assumes "family_dead f db" "\<And>r. rf_family (g r) = rf_family r" "\<And>r. rf_active (g r) \<Longrightarrow> rf_active r"
  shows "family_dead f (snd (update_refresh p g db))"
  using assms by (auto simp: family_dead_def update_where_def)

lemma dead_insert: "insert_refresh r db = Inr db' \<Longrightarrow> family_dead f db \<Longrightarrow> rf_family r \<noteq> f \<Longrightarrow> family_dead f db'"
  by (auto simp: family_dead_def dest!: insert_refresh_Inr)

lemma dead_transaction:
  "family_dead f db \<Longrightarrow> (\<And>v db'. body db = Inr (v, db') \<Longrightarrow> family_dead f db') \<Longrightarrow> family_dead f (snd (transaction e n body db))"
  using transaction_snd [of e n body db] by metis

lemma dead_statement:
  "family_dead f db \<Longrightarrow> family_dead f (snd (g db)) \<Longrightarrow> family_dead f (snd (statement e n g db))"
  using statement_snd [of e n g db] by metis

lemma dead_rotate:
  assumes "family_dead f db" "rotate_in_tx b e n old user family hash expires dv db = Inr (t, db')"
  shows "family_dead f db' \<and> family \<noteq> f"
proof -
  note r = rotate_in_tx_Inr [OF assms(2)]
  then have "family \<noteq> f" using assms(1) by (auto simp: family_dead_def)
  moreover have "family_dead f db'" using assms(1) r \<open>family \<noteq> f\<close>
    by (auto simp: family_dead_def set_update_where new_refresh_def)
  ultimately show ?thesis by blast
qed

lemma dead_revoke_sessions:
  "family_dead f db \<Longrightarrow> revoke_sessions_in_tx b e n user db = Inr (k, db') \<Longrightarrow> family_dead f db'"
  by (auto simp: family_dead_def set_update_where dest!: revoke_sessions_in_tx_Inr)

lemma dead_store_session:
  "family_dead f db \<Longrightarrow> store_session_in_tx b e n u h x dv f' i db = Inr (t, db') \<Longrightarrow> f \<noteq> f' \<Longrightarrow> family_dead f db'"
  by (auto simp: family_dead_def new_refresh_def dest!: store_session_in_tx_Inr)

lemma dead_step:
  assumes "family_dead f db" "\<not> opens f step"
  shows "family_dead f (token_step_effect b (e, n, step) db)"
proof (cases step)
  case (StoreStep u h x dv f')
  with assms show ?thesis
    by (auto simp: token_step_effect_def store_refresh_token_def Let_def new_refresh_def family_dead_def statement_def
        dest!: insert_refresh_Inr split: sum.splits)
next
  case (StoreSessionStep u h x dv f' i)
  with assms show ?thesis
    by (auto simp: token_step_effect_def store_session_refresh_token_def intro!: dead_transaction dest: dead_store_session)
next
  case (RotateStep t u f' h x dv)
  with assms show ?thesis
    by (auto simp: token_step_effect_def rotate_refresh_token_def intro!: dead_transaction dest: dead_rotate)
next
  case (RevokeSessionsStep u)
  with assms show ?thesis
    by (auto simp: token_step_effect_def revoke_all_user_sessions_def intro!: dead_transaction dest: dead_revoke_sessions)
next
  case (RenewStep t c x)
  with assms show ?thesis
    by (auto simp: token_step_effect_def renew_oauth_refresh_token_def update_refresh_def family_dead_def set_update_where
        statement_def split: sum.splits if_splits)
qed (use assms in \<open>auto simp: token_step_effect_def touch_refresh_def revoke_token_family_def revoke_refresh_token_def
      revoke_all_user_refresh_tokens_def update_refresh_def family_dead_def set_update_where
      statement_def split: sum.splits if_splits\<close>)

lemma dead_steps:
  "family_dead f db \<Longrightarrow> list_all (\<lambda>(e, n, s). \<not> opens f s) steps \<Longrightarrow> family_dead f (fold (token_step_effect b) steps db)"
proof (induction steps arbitrary: db)
  case (Cons c steps)
  obtain e n s where "c = (e, n, s)" by (cases c) auto
  with Cons show ?case by (simp add: dead_step)
qed simp

lemma accounts_step:
  "(\<And>u. step \<noteq> RevokeSessionsStep u) \<Longrightarrow> accounts (token_step_effect b (e, n, step) db) = accounts db"
proof (cases step)
  case (StoreSessionStep u h x dv f' i)
  then show ?thesis
    using transaction_snd [of e n "store_session_in_tx b e n u h x dv f' i" db]
    by (auto simp: token_step_effect_def store_session_refresh_token_def dest: store_session_in_tx_Inr)
next
  case (RotateStep t u f' h x dv)
  then show ?thesis
    using transaction_snd [of e n "rotate_in_tx b e n t u f' h x dv" db]
    by (auto simp: token_step_effect_def rotate_refresh_token_def dest: rotate_in_tx_Inr)
next
  case (StoreStep u h x dv f')
  then show ?thesis
    by (auto simp: token_step_effect_def store_refresh_token_def statement_def Let_def dest: insert_refresh_Inr split: sum.splits)
qed (auto simp: token_step_effect_def touch_refresh_def revoke_token_family_def revoke_refresh_token_def
      revoke_all_user_refresh_tokens_def renew_oauth_refresh_token_def update_refresh_def statement_def split: sum.splits)

lemma cutoff_step: "cutoff_le (cutoff user db) (cutoff user (token_step_effect b (e, n, step) db))"
proof (cases "\<exists>u. step = RevokeSessionsStep u")
  case True
  then show ?thesis by (auto simp: token_step_effect_def sessions_cutoff_le)
next
  case False
  then have "cutoff user (token_step_effect b (e, n, step) db) = cutoff user db"
    using accounts_step [of step b e n db] by (simp add: cutoff_def)
  then show ?thesis by simp
qed

lemma cutoff_steps: "cutoff_le (cutoff user db) (cutoff user (fold (token_step_effect b) steps db))"
proof (induction steps arbitrary: db)
  case (Cons c steps)
  obtain e n s where "c = (e, n, s)" by (cases c) auto
  with Cons [of "token_step_effect b c db"] cutoff_step [of user db b e n s] show ?case
    by (auto intro: cutoff_le_trans)
qed simp

subsection \<open>A dead family\<close>

lemma find_refresh_SomeD:
  assumes "find_refresh b hash now db = Some (r, u)"
  shows "r \<in> set (refresh_tokens db) \<and> u \<in> set (accounts db) \<and> ac_id u = rf_user r
    \<and> rf_hash r = hash \<and> rf_active r \<and> unexpired b (rf_expires_at r) now"
  using find_SomeD [OF assms [unfolded find_refresh_def]] by auto

text \<open>A token that is accepted names its row.\<close>

lemma verify_accepts:
  assumes "fst (verify_refresh_token sha b e n raw db) \<in> {Inr (Valid d), Inr (GracePeriod d)}"
  shows "\<exists>r u. find_refresh b (sha raw) (ae_db_now e n) db = Some (r, u) \<and> ac_active u \<and> d = user_data_of r u"
  using assms
  by (auto simp: verify_refresh_token_def hash_refresh_token_def st_then_def statement_def st_simps touch_refresh_def
      revoke_token_family_def split: sum.splits option.splits prod.splits if_splits)

lemma dead_verify:
  assumes "family_dead f db" "fst (verify_refresh_token sha b e n raw db) \<in> {Inr (Valid d), Inr (GracePeriod d)}"
  shows "ud_family d \<noteq> f"
  using verify_accepts [OF assms(2)] assms(1) find_refresh_SomeD
  by (fastforce simp: family_dead_def user_data_of_def)

lemma dead_no_rotate:
  assumes "family_dead f db" shows "fst (rotate_refresh_token b e n old user f hash expires dv db) \<noteq> Inr t"
proof
  assume "fst (rotate_refresh_token b e n old user f hash expires dv db) = Inr t"
  then obtain db' where "rotate_refresh_token b e n old user f hash expires dv db = (Inr t, db')" by (metis prod.collapse)
  from dead_rotate [OF assms transaction_Inr [OF this [unfolded rotate_refresh_token_def]]] show False by blast
qed

end
