(* ===== verification/Browser_Sessions.thy ===== *)
theory Browser_Sessions
  imports Session_Tokens
begin

text \<open>
  Access tokens and the sessions made of them: \<open>crates/kyomi-auth/src/jwt.rs\<close>, \<open>token_refresh.rs\<close>,
  \<open>session.rs\<close>, \<open>middleware.rs\<close>, the lookups of \<open>user_service.rs\<close>, the logout of
  \<open>security_service.rs\<close> and the refresh grant of \<open>apps/server/src/routes/oauth.rs\<close>.

  The JWT library (HMAC, base64 and the JSON form of the claims) is the parameter \<open>jwt_codec\<close>. A map
  of extra claims is an association list. Of a request, the two headers and the path matter; their
  values are \<open>Inl ()\<close> when they are not visible ASCII. Cookies of the response are not modelled.
\<close>

subsection \<open>Claims\<close>

datatype token_purpose = Mcp

record claims =
  cl_sub :: string
  cl_exp :: int
  cl_iat :: int
  cl_session_iat_us :: "int option"
  cl_jti :: "string option"
  cl_purpose :: "token_purpose option"
  cl_extra :: "(string \<times> json) list"

datatype jwt_error =
    ExpiredSignature
  | InvalidSignature
  | InvalidToken string
  | Base64Error string
  | JsonError string
  | MissingRequiredClaim string
  | OtherJwtError string

text \<open>\<open>jw_decode secret token seconds\<close>.\<close>

record jwt_codec =
  jw_encode :: "string \<Rightarrow> claims \<Rightarrow> string + string"
  jw_decode :: "string \<Rightarrow> string \<Rightarrow> int \<Rightarrow> jwt_error + claims"

definition ACCESS_TOKEN_MINUTES :: int where "ACCESS_TOKEN_MINUTES = 15"
definition REFRESH_TOKEN_DAYS :: int where "REFRESH_TOKEN_DAYS = 7"
definition REFRESH_TOKEN_PREFIX :: string where "REFRESH_TOKEN_PREFIX = ''rt_''"

text \<open>\<open>timestamp()\<close>: whole seconds.\<close>

definition unix_seconds :: "int \<Rightarrow> int" where "unix_seconds us = us div 10 ^ 6"

definition extra_str :: "string \<Rightarrow> (string \<times> json) list \<Rightarrow> string option" where
  "extra_str k extra = Option.bind (map_of extra k) as_str"

definition recovery_scope :: "(string \<times> json) list \<Rightarrow> bool" where
  "recovery_scope extra \<longleftrightarrow> extra_str ''scope'' extra = Some ''passkey_recovery''"

definition access_claims :: "auth_env \<Rightarrow> nat \<Rightarrow> string \<Rightarrow> int \<Rightarrow> (string \<times> json) list \<Rightarrow> token_purpose option
    \<Rightarrow> int option \<Rightarrow> claims" where
  "access_claims e n sub minutes extra purpose issued =
     (let rest = filter (\<lambda>(k, _). k \<noteq> ''purpose'' \<and> k \<noteq> ''session_iat_us'') extra; now = ae_now e n in
      \<lparr>cl_sub = sub, cl_exp = unix_seconds (now + minutes * 60 * 10 ^ 6), cl_iat = unix_seconds now,
       cl_session_iat_us = (if recovery_scope rest then None else issued),
       cl_jti = Some (ae_random e n), cl_purpose = purpose, cl_extra = rest\<rparr>)"

definition create_access_token_with_purpose :: "jwt_codec \<Rightarrow> auth_env \<Rightarrow> nat \<Rightarrow> string \<Rightarrow> string \<Rightarrow> int
    \<Rightarrow> (string \<times> json) list \<Rightarrow> token_purpose option \<Rightarrow> int option \<Rightarrow> app_error + string" where
  "create_access_token_with_purpose jc e n sub secret minutes extra purpose issued =
     map_err (\<lambda>m. Internal (''jwt encode: '' @ m)) (jw_encode jc secret (access_claims e n sub minutes extra purpose issued))"

definition session_issued :: "auth_env \<Rightarrow> nat \<Rightarrow> int option \<Rightarrow> int" where
  "session_issued e n valid_from = max (ae_now e n) ((case valid_from of None \<Rightarrow> 0 | Some c \<Rightarrow> c) + 1)"

definition create_session_access_token_str :: "jwt_codec \<Rightarrow> auth_env \<Rightarrow> nat \<Rightarrow> string \<Rightarrow> string \<Rightarrow> int
    \<Rightarrow> (string \<times> json) list \<Rightarrow> int option \<Rightarrow> app_error + string" where
  "create_session_access_token_str jc e n sub secret minutes extra valid_from =
     create_access_token_with_purpose jc e (n + 1) sub secret minutes extra None (Some (session_issued e n valid_from))"

definition create_mcp_access_token_str :: "jwt_codec \<Rightarrow> auth_env \<Rightarrow> nat \<Rightarrow> string \<Rightarrow> string \<Rightarrow> int
    \<Rightarrow> (string \<times> json) list \<Rightarrow> app_error + string" where
  "create_mcp_access_token_str jc e n sub secret minutes extra =
     create_access_token_with_purpose jc e n sub secret minutes extra (Some Mcp) None"

definition require_current_session :: "claims \<Rightarrow> int option \<Rightarrow> app_error + unit" where
  "require_current_session c valid_from =
     (if cl_purpose c \<noteq> None \<or> recovery_scope (cl_extra c) then Inr ()
      else case valid_from of
        None \<Rightarrow> Inr ()
      | Some limit \<Rightarrow>
          if (case cl_session_iat_us c of None \<Rightarrow> cl_iat c \<le> limit div 10 ^ 6 | Some issued \<Rightarrow> issued \<le> limit)
          then Inl (AppUnauthorized ''Session revoked. Please log in again.'')
          else Inr ())"

definition require_session :: "claims \<Rightarrow> app_error + unit" where
  "require_session c = (if cl_purpose c \<noteq> None then Inl (AppUnauthorized ''Token is not a browser session'') else Inr ())"

definition create_refresh_token :: "auth_env \<Rightarrow> nat \<Rightarrow> string" where
  "create_refresh_token e n = REFRESH_TOKEN_PREFIX @ ae_random e n"

fun jwt_error_message :: "jwt_error \<Rightarrow> string" where
  "jwt_error_message ExpiredSignature = ''token expired''"
| "jwt_error_message InvalidSignature = ''invalid token signature''"
| "jwt_error_message (InvalidToken m) = ''malformed token: '' @ m"
| "jwt_error_message (Base64Error m) = ''malformed token: '' @ m"
| "jwt_error_message (JsonError m) = ''malformed token payload: '' @ m"
| "jwt_error_message (MissingRequiredClaim c) = ''token missing required claim: '' @ c"
| "jwt_error_message (OtherJwtError m) = ''invalid token: '' @ m"

definition validate_token :: "jwt_codec \<Rightarrow> auth_env \<Rightarrow> nat \<Rightarrow> string \<Rightarrow> string \<Rightarrow> app_error + claims" where
  "validate_token jc e n token secret =
     map_err (\<lambda>err. AppUnauthorized (jwt_error_message err)) (jw_decode jc secret token (unix_seconds (ae_now e n)))"

subsection \<open>Lookups\<close>

definition get_user_by_id :: "auth_env \<Rightarrow> nat \<Rightarrow> string \<Rightarrow> auth_db \<Rightarrow> (app_error + account_row option) \<times> auth_db" where
  "get_user_by_id e n user = statement e n (\<lambda>db. (Inr (find (\<lambda>u. ac_id u = user) (accounts db)), db))"

definition get_workspace :: "auth_env \<Rightarrow> nat \<Rightarrow> string \<Rightarrow> auth_db \<Rightarrow> (app_error + workspace_row option) \<times> auth_db" where
  "get_workspace e n ws = statement e n (\<lambda>db. (Inr (find (\<lambda>w. wk_id w = ws) (workspaces db)), db))"

definition get_workspace_user :: "auth_env \<Rightarrow> nat \<Rightarrow> string \<Rightarrow> string \<Rightarrow> auth_db \<Rightarrow> (app_error + membership_row option) \<times> auth_db" where
  "get_workspace_user e n ws user = statement e n (\<lambda>db.
     (Inr (find (\<lambda>m. mb_workspace m = ws \<and> mb_user m = user \<and> mb_active m) (memberships db)), db))"

definition first_membership :: "auth_env \<Rightarrow> nat \<Rightarrow> string \<Rightarrow> auth_db \<Rightarrow> (app_error + membership_row option) \<times> auth_db" where
  "first_membership e n user = statement e n (\<lambda>db.
     (Inr (case sort_key mb_created_at (filter (\<lambda>m. mb_user m = user \<and> mb_active m) (memberships db)) of
             [] \<Rightarrow> None | m # _ \<Rightarrow> Some m), db))"

definition last_context :: "auth_env \<Rightarrow> nat \<Rightarrow> string \<Rightarrow> auth_db
    \<Rightarrow> (app_error + (workspace_row \<times> membership_row) option) \<times> auth_db" where
  "last_context e n user =
     st_then (get_user_by_id e n user) (\<lambda>u.
     case Option.bind u ac_last_workspace of
       None \<Rightarrow> st_ok None
     | Some ws \<Rightarrow>
         st_then (get_workspace e (n + 1) ws) (\<lambda>w.
         case w of
           None \<Rightarrow> st_ok None
         | Some w \<Rightarrow>
             st_then (get_workspace_user e (n + 2) ws user) (\<lambda>m.
             st_ok (map_option (Pair w) m))))"

definition get_user_workspace_context :: "auth_env \<Rightarrow> nat \<Rightarrow> string \<Rightarrow> auth_db
    \<Rightarrow> (app_error + (workspace_row \<times> membership_row) option) \<times> auth_db" where
  "get_user_workspace_context e n user =
     st_then (last_context e n user) (\<lambda>found.
     case found of
       Some wm \<Rightarrow> st_ok (Some wm)
     | None \<Rightarrow>
         st_then (first_membership e (n + 3) user) (\<lambda>m.
         case m of
           None \<Rightarrow> st_ok None
         | Some m \<Rightarrow>
             st_then (get_workspace e (n + 4) (mb_workspace m)) (\<lambda>w.
             st_ok (map_option (\<lambda>w. (w, m)) w))))"

definition update_account :: "string \<Rightarrow> (account_row \<Rightarrow> account_row) \<Rightarrow> auth_db \<Rightarrow> (app_error + bool) \<times> auth_db" where
  "update_account user f db =
     (Inr (count_where (\<lambda>u. ac_id u = user) (accounts db) > 0),
      db\<lparr>accounts := update_where (\<lambda>u. ac_id u = user) f (accounts db)\<rparr>)"

definition update_last_login :: "backend \<Rightarrow> auth_env \<Rightarrow> nat \<Rightarrow> string \<Rightarrow> auth_db \<Rightarrow> (app_error + bool) \<times> auth_db" where
  "update_last_login b e n user =
     statement e n (update_account user (\<lambda>u. u\<lparr>ac_last_login := Some (sql_now b (ae_db_now e n))\<rparr>))"

definition update_last_workspace :: "auth_env \<Rightarrow> nat \<Rightarrow> string \<Rightarrow> string \<Rightarrow> auth_db \<Rightarrow> (app_error + bool) \<times> auth_db" where
  "update_last_workspace e n user ws = statement e n (update_account user (\<lambda>u. u\<lparr>ac_last_workspace := Some ws\<rparr>))"

text \<open>An operation whose outcome the code ignores (\<open>let _ = ...\<close>).\<close>

definition st_ignore :: "('s \<Rightarrow> ('e + 'a) \<times> 's) \<Rightarrow> 's \<Rightarrow> ('e + unit) \<times> 's" where
  "st_ignore m s = (Inr (), snd (m s))"

subsection \<open>JSON of the claims\<close>

definition opt_json :: "string option \<Rightarrow> json" where
  "opt_json x = (case x of None \<Rightarrow> JNull | Some s \<Rightarrow> JString s)"

definition user_claims :: "string \<Rightarrow> string \<Rightarrow> string option \<Rightarrow> string list \<Rightarrow> (string \<times> json) list" where
  "user_claims user email name roles =
     [(''user_id'', JString user), (''email'', JString email), (''name'', opt_json name),
      (''roles'', JArray (map JString roles))]"

subsection \<open>Refreshing a browser session\<close>

record refreshed_tokens =
  rt_access_token :: string
  rt_raw_refresh :: string
  rt_expires_in :: int
  rt_user :: string
  rt_email :: string
  rt_name :: "string option"
  rt_roles :: "string list"

definition refresh_verified_tokens :: "jwt_codec \<Rightarrow> (string \<Rightarrow> string) \<Rightarrow> backend \<Rightarrow> auth_env \<Rightarrow> string
    \<Rightarrow> refresh_user_data \<Rightarrow> device_info \<Rightarrow> auth_db \<Rightarrow> (app_error + refreshed_tokens) \<times> auth_db" where
  "refresh_verified_tokens jc sha b e secret d dv db =
     (let (ctx, db1) = get_user_workspace_context e 10 (ud_user d) db;
          extra = user_claims (ud_user d) (ud_email d) (ud_name d) (ud_roles d)
            @ (case ctx of Inr (Some (w, m)) \<Rightarrow>
                 [(''workspace_id'', JString (wk_id w)), (''workspace_roles'', JArray [JString (role_str (mb_role m))])]
               | _ \<Rightarrow> []);
          raw = create_refresh_token e 30 in
      st_then (get_user_by_id e 20 (ud_user d)) (\<lambda>found.
      st_then (st_lift (ok_or found (AppUnauthorized ''User not found''))) (\<lambda>u.
      st_then (st_lift (create_session_access_token_str jc e 21 (ud_user d) secret ACCESS_TOKEN_MINUTES extra
          (ac_sessions_valid_from u))) (\<lambda>access.
      st_then (rotate_refresh_token b e 40 (ud_token d) (ud_user d) (ud_family d) (hash_refresh_token sha raw)
          (ae_now e 31 + REFRESH_TOKEN_DAYS * 86400 * 10 ^ 6) dv) (\<lambda>_.
      st_ok \<lparr>rt_access_token = access, rt_raw_refresh = raw, rt_expires_in = ACCESS_TOKEN_MINUTES * 60,
        rt_user = ud_user d, rt_email = ud_email d, rt_name = ud_name d, rt_roles = ud_roles d\<rparr>)))) db1)"

definition refresh_tokens_flow :: "jwt_codec \<Rightarrow> (string \<Rightarrow> string) \<Rightarrow> backend \<Rightarrow> auth_env \<Rightarrow> string \<Rightarrow> string
    \<Rightarrow> device_info \<Rightarrow> auth_db \<Rightarrow> (app_error + refreshed_tokens) \<times> auth_db" where
  "refresh_tokens_flow jc sha b e secret raw dv =
     st_then (verify_refresh_token sha b e 0 raw) (\<lambda>verdict.
     case verdict of
       TheftDetected _ _ \<Rightarrow> st_err (AppUnauthorized ''Refresh token has been revoked (possible token theft detected)'')
     | Invalid \<Rightarrow> st_err (AppUnauthorized ''Invalid or expired refresh token'')
     | Valid d \<Rightarrow>
         if ud_client d \<noteq> None then st_err (AppUnauthorized ''OAuth client refresh token cannot refresh a browser session'')
         else refresh_verified_tokens jc sha b e secret d dv
     | GracePeriod d \<Rightarrow>
         if ud_client d \<noteq> None then st_err (AppUnauthorized ''OAuth client refresh token cannot refresh a browser session'')
         else refresh_verified_tokens jc sha b e secret d dv)"

subsection \<open>Logging in and out\<close>

record authenticated_session =
  as_access_token :: string
  as_refresh_token :: string
  as_user :: account_row
  as_workspace_id :: "string option"
  as_workspace_name :: "string option"
  as_workspace_roles :: "workspace_role list"

definition session_claims :: "account_row \<Rightarrow> (workspace_row \<times> membership_row) option \<Rightarrow> (string \<times> json) list" where
  "session_claims u ctx =
     user_claims (ac_id u) (ac_email u) (ac_name u) (roles_of (ac_metadata u))
     @ (case ctx of None \<Rightarrow> []
        | Some (w, m) \<Rightarrow>
            [(''workspace_id'', JString (wk_id w)), (''workspace_name'', opt_json (wk_name w)),
             (''workspace_status'', JString (workspace_status_str (wk_status w))),
             (''workspace_roles'', JArray [JString (role_str (mb_role m))]),
             (''subscription_tier'', JString (tier_str (wk_tier w)))])"

definition create_authenticated_session :: "jwt_codec \<Rightarrow> (string \<Rightarrow> string) \<Rightarrow> backend \<Rightarrow> auth_env \<Rightarrow> string \<Rightarrow> string
    \<Rightarrow> device_info \<Rightarrow> auth_db \<Rightarrow> (app_error + authenticated_session) \<times> auth_db" where
  "create_authenticated_session jc sha b e secret user dv =
     (let raw = create_refresh_token e 20 in
      st_then (get_user_by_id e 0 user) (\<lambda>found.
      st_then (st_lift (ok_or found (AppUnauthorized ''User not found''))) (\<lambda>u.
      st_then (get_user_workspace_context e 1 (ac_id u)) (\<lambda>ctx.
      st_then (st_lift (create_session_access_token_str jc e 10 (ac_id u) secret ACCESS_TOKEN_MINUTES
          (session_claims u ctx) (ac_sessions_valid_from u))) (\<lambda>access.
      st_then (st_lift (validate_token jc e 23 access secret)) (\<lambda>c.
      st_then (st_lift (ok_or (cl_session_iat_us c) (Internal ''Missing session issuance claim''))) (\<lambda>issued.
      st_then (store_session_refresh_token b e 30 (ac_id u) (hash_refresh_token sha raw)
          (ae_now e 21 + REFRESH_TOKEN_DAYS * 86400 * 10 ^ 6) dv (generate_family_id e 22) issued) (\<lambda>_.
      st_then (st_ignore (update_last_login b e 40 (ac_id u))) (\<lambda>_.
      st_then (get_user_by_id e 41 (ac_id u)) (\<lambda>again.
      st_ok \<lparr>as_access_token = access, as_refresh_token = raw,
        as_user = (case again of None \<Rightarrow> u | Some u' \<Rightarrow> u'),
        as_workspace_id = map_option (\<lambda>(w, _). wk_id w) ctx,
        as_workspace_name = Option.bind ctx (\<lambda>(w, _). wk_name w),
        as_workspace_roles = (case ctx of None \<Rightarrow> [] | Some (_, m) \<Rightarrow> [mb_role m])\<rparr>))))))))))"

definition require_current_browser_session :: "auth_env \<Rightarrow> claims \<Rightarrow> auth_db \<Rightarrow> (app_error + unit) \<times> auth_db" where
  "require_current_browser_session e c =
     st_then (st_lift (require_session c)) (\<lambda>_.
     st_then (get_user_by_id e 0 (cl_sub c)) (\<lambda>found.
     st_then (st_lift (ok_or found (AppUnauthorized ''User not found''))) (\<lambda>u.
     st_lift (require_current_session c (ac_sessions_valid_from u)))))"

definition create_user_access_token :: "jwt_codec \<Rightarrow> auth_env \<Rightarrow> string \<Rightarrow> string \<Rightarrow> int \<Rightarrow> (string \<times> json) list
    \<Rightarrow> auth_db \<Rightarrow> (app_error + string) \<times> auth_db" where
  "create_user_access_token jc e user secret minutes extra =
     st_then (get_user_by_id e 0 user) (\<lambda>found.
     st_then (st_lift (ok_or found (AppUnauthorized ''User not found''))) (\<lambda>u.
     st_lift (create_session_access_token_str jc e 1 user secret minutes extra (ac_sessions_valid_from u))))"

definition switch_active_workspace :: "jwt_codec \<Rightarrow> (string \<Rightarrow> string) \<Rightarrow> backend \<Rightarrow> auth_env \<Rightarrow> string \<Rightarrow> string
    \<Rightarrow> string \<Rightarrow> device_info \<Rightarrow> auth_db \<Rightarrow> (app_error + authenticated_session) \<times> auth_db" where
  "switch_active_workspace jc sha b e secret user target dv =
     st_then (get_workspace_user e 50 target user) (\<lambda>found.
     st_then (st_lift (ok_or found (Forbidden ''You do not have access to this workspace''))) (\<lambda>_.
     st_then (update_last_workspace e 51 user target) (\<lambda>_.
     create_authenticated_session jc sha b e secret user dv)))"

definition logout :: "(string \<Rightarrow> string) \<Rightarrow> backend \<Rightarrow> auth_env \<Rightarrow> string option \<Rightarrow> auth_db \<Rightarrow> (app_error + unit) \<times> auth_db" where
  "logout sha b e raw db =
     (case raw of
        None \<Rightarrow> (Inr (), db)
      | Some token \<Rightarrow>
          (case verify_refresh_token sha b e 0 token db of
             (Inr (Valid d), db1) \<Rightarrow> st_ignore (revoke_token_family b e 10 (ud_family d)) db1
           | (Inr (GracePeriod d), db1) \<Rightarrow> st_ignore (revoke_token_family b e 10 (ud_family d)) db1
           | (_, db1) \<Rightarrow> (Inr (), db1)))"

subsection \<open>The refresh grant of OAuth clients\<close>

record token_response =
  tk_access_token :: string
  tk_token_type :: string
  tk_expires_in :: int
  tk_refresh_token :: "string option"
  tk_scope :: "string option"

definition bad_grant :: "string \<Rightarrow> nat \<times> string" where "bad_grant m = (400, m)"

definition client_check :: "refresh_user_data \<Rightarrow> string \<Rightarrow> (nat \<times> string) + unit" where
  "client_check d client =
     (if ud_client d = None then Inl (bad_grant ''invalid_grant: refresh token is not an OAuth client token'')
      else if ud_client d \<noteq> Some client then Inl (bad_grant ''invalid_grant: client_id mismatch'')
      else Inr ())"

text \<open>Errors of the calls become answers of the endpoint.\<close>

definition st_map_err :: "('e \<Rightarrow> 'f) \<Rightarrow> ('s \<Rightarrow> ('e + 'a) \<times> 's) \<Rightarrow> 's \<Rightarrow> ('f + 'a) \<times> 's" where
  "st_map_err g m s = (case m s of (r, s') \<Rightarrow> (map_err g r, s'))"

definition handle_refresh_token :: "jwt_codec \<Rightarrow> (string \<Rightarrow> string) \<Rightarrow> backend \<Rightarrow> auth_env \<Rightarrow> string
    \<Rightarrow> string option \<Rightarrow> string \<Rightarrow> auth_db \<Rightarrow> ((nat \<times> string) + token_response) \<times> auth_db" where
  "handle_refresh_token jc sha b e secret param client =
     st_then (st_lift (ok_or param (bad_grant ''refresh_token required''))) (\<lambda>token.
     st_then (st_map_err (\<lambda>_. bad_grant ''invalid_grant: refresh token invalid or expired'') (verify_refresh_token sha b e 0 token)) (\<lambda>verdict.
     st_then (st_lift (case verdict of
         Valid d \<Rightarrow> Inr d
       | GracePeriod d \<Rightarrow> Inr d
       | TheftDetected _ _ \<Rightarrow> Inl (bad_grant ''invalid_grant: refresh token revoked'')
       | Invalid \<Rightarrow> Inl (bad_grant ''invalid_grant: refresh token invalid or expired''))) (\<lambda>d.
     st_then (st_lift (client_check d client)) (\<lambda>_.
     st_then (st_map_err (\<lambda>_. bad_grant ''invalid_grant: user not found'') (get_user_by_id e 10 (ud_user d))) (\<lambda>found.
     st_then (st_lift (ok_or found (bad_grant ''invalid_grant: user not found''))) (\<lambda>u.
     st_then (st_lift (ensure (ac_active u) (bad_grant ''invalid_grant: user not found''))) (\<lambda>_ s.
       (let (ctx, s1) = get_user_workspace_context e 11 (ac_id u) s in
        st_then (st_lift (ok_or (case ctx of Inr (Some (w, _)) \<Rightarrow> Some (wk_id w) | _ \<Rightarrow> None)
          (bad_grant ''invalid_grant: no workspace access''))) (\<lambda>ws.
        st_then (st_lift (map_err (\<lambda>_. (500, ''internal_error'')) (create_mcp_access_token_str jc e 20 (ac_id u) secret ACCESS_TOKEN_MINUTES
          [(''user_id'', JString (ac_id u)), (''email'', JString (ac_email u)), (''name'', opt_json (ac_name u)),
           (''workspace_id'', JString ws)]))) (\<lambda>access.
        st_then (st_map_err (\<lambda>_. (500, ''internal_error'')) (renew_oauth_refresh_token b e 30 (ud_token d) client
          (ae_now e 31 + REFRESH_TOKEN_DAYS * 86400 * 10 ^ 6))) (\<lambda>renewed.
        st_then (st_lift (ensure renewed (bad_grant ''invalid_grant: refresh token invalid or expired''))) (\<lambda>_.
        st_ok \<lparr>tk_access_token = access, tk_token_type = ''Bearer'', tk_expires_in = ACCESS_TOKEN_MINUTES * 60,
          tk_refresh_token = Some token, tk_scope = Some ''mcp''\<rparr>)))) s1))))))))"

subsection \<open>The authentication of a request\<close>

record request_parts =
  rq_authorization :: "(unit + string) option"
  rq_cookie :: "(unit + string) option"
  rq_path :: string

definition ACCESS_COOKIE :: string where "ACCESS_COOKIE = ''access_token''"

text \<open>As a header's text is visible ASCII, spaces and tabs, \<open>trim()\<close> removes these two.\<close>

definition blank :: "char \<Rightarrow> bool" where "blank c \<longleftrightarrow> c = CHR '' '' \<or> c = CHR 0x09"

definition trim :: "string \<Rightarrow> string" where
  "trim s = rev (dropWhile blank (rev (dropWhile blank s)))"

definition extract_token :: "request_parts \<Rightarrow> app_error + string" where
  "extract_token rq =
     and_then (case rq_authorization rq of
         None \<Rightarrow> Inr None
       | Some (Inl _) \<Rightarrow> Inl (AppUnauthorized ''invalid auth header'')
       | Some (Inr v) \<Rightarrow> Inr (strip_prefix ''Bearer '' v)) (\<lambda>bearer.
     case bearer of
       Some t \<Rightarrow> Inr t
     | None \<Rightarrow>
         and_then (case rq_cookie rq of
             None \<Rightarrow> Inr None
           | Some (Inl _) \<Rightarrow> Inl (AppUnauthorized ''invalid cookie header'')
           | Some (Inr v) \<Rightarrow> Inr (first_some (\<lambda>c. strip_prefix (ACCESS_COOKIE @ ''='') (trim c)) (split_on (CHR '';'') v))) (\<lambda>cookie.
         ok_or cookie (AppUnauthorized ''Not authenticated'')))"

record auth_state =
  au_jwt_secret :: string
  au_is_personal :: bool
  au_self_hosted :: bool

record workspace_context =
  wc_workspace_id :: "string option"
  wc_workspace_name :: "string option"
  wc_roles :: "workspace_role list"
  wc_status :: "workspace_status option"
  wc_tier :: subscription_tier
  wc_subscription :: subscription_status
  wc_trial_ends_at :: "int option"
  wc_is_owner :: bool
  wc_billing_lapsed :: bool

definition default_context :: workspace_context where
  "default_context = \<lparr>wc_workspace_id = None, wc_workspace_name = None, wc_roles = [], wc_status = None,
     wc_tier = Free, wc_subscription = SubActive, wc_trial_ends_at = None, wc_is_owner = False,
     wc_billing_lapsed = False\<rparr>"

record auth_user =
  us_user :: string
  us_mail :: string
  us_display_name :: "string option"
  us_roles :: "string list"
  us_is_active :: bool
  us_verified :: bool
  us_workspace :: workspace_context
  us_token_exp :: "int option"
  us_token_jti :: "string option"

definition context_of :: "workspace_row \<Rightarrow> workspace_role \<Rightarrow> string \<Rightarrow> bool \<Rightarrow> bool \<Rightarrow> workspace_context" where
  "context_of w role ws owner lapsed =
     \<lparr>wc_workspace_id = Some ws, wc_workspace_name = wk_name w, wc_roles = [role], wc_status = Some (wk_status w),
      wc_tier = wk_tier w, wc_subscription = wk_subscription w, wc_trial_ends_at = wk_trial_ends_at w,
      wc_is_owner = owner, wc_billing_lapsed = lapsed\<rparr>"

definition auth_user_of :: "account_row \<Rightarrow> workspace_context \<Rightarrow> int option \<Rightarrow> string option \<Rightarrow> auth_user" where
  "auth_user_of u ctx exp jti =
     \<lparr>us_user = ac_id u, us_mail = ac_email u, us_display_name = ac_name u, us_roles = roles_of (ac_metadata u),
      us_is_active = ac_active u, us_verified = ac_verified u, us_workspace = ctx, us_token_exp = exp, us_token_jti = jti\<rparr>"

definition db_down :: "app_error \<Rightarrow> app_error" where "db_down _ = Internal ''database error''"

definition load_personal_user :: "auth_env \<Rightarrow> bool \<Rightarrow> auth_db \<Rightarrow> (app_error + auth_user) \<times> auth_db" where
  "load_personal_user e self_hosted =
     st_then (st_map_err db_down (get_user_by_id e 0 ''user-local'')) (\<lambda>found.
     st_then (st_lift (ok_or found (ServiceUnavailable ''Personal mode initializing, please retry''))) (\<lambda>u.
     st_then (st_map_err db_down (get_workspace e 1 ''workspace-local'')) (\<lambda>w.
     st_then (st_lift (ok_or w (ServiceUnavailable ''Personal mode initializing, please retry''))) (\<lambda>w.
     st_ok (auth_user_of u (context_of w WorkspaceAdmin (wk_id w) True
       (billing_gate_blocks w self_hosted (ae_now e 2))) None None)))))"

text \<open>The workspace that the token names, as the database has it now.\<close>

definition load_context :: "auth_env \<Rightarrow> bool \<Rightarrow> string \<Rightarrow> string option \<Rightarrow> auth_db \<Rightarrow> (app_error + workspace_context) \<times> auth_db" where
  "load_context e self_hosted user claimed =
     (case claimed of
        None \<Rightarrow> st_ok default_context
      | Some ws \<Rightarrow>
          st_then (st_map_err db_down (get_workspace e 2 ws)) (\<lambda>w.
          case w of
            None \<Rightarrow> st_ok default_context
          | Some w \<Rightarrow>
              st_then (st_map_err db_down (get_workspace_user e 3 ws user)) (\<lambda>m.
              case m of
                None \<Rightarrow> st_err (AppUnauthorized ''Workspace membership revoked. Please log in again.'')
              | Some m \<Rightarrow> st_ok (context_of w (mb_role m) ws (wk_owner w = user)
                  (billing_gate_blocks w self_hosted (ae_now e 4))))))"

definition claimed_user :: "claims \<Rightarrow> string" where
  "claimed_user c = (case extra_str ''user_id'' (cl_extra c) of Some u \<Rightarrow> u | None \<Rightarrow> cl_sub c)"

definition load_auth_user :: "jwt_codec \<Rightarrow> auth_env \<Rightarrow> auth_state \<Rightarrow> request_parts \<Rightarrow> auth_db \<Rightarrow> (app_error + auth_user) \<times> auth_db" where
  "load_auth_user jc e st rq =
     (if au_is_personal st then load_personal_user e (au_self_hosted st)
      else
        st_then (st_lift (extract_token rq)) (\<lambda>token.
        st_then (st_lift (validate_token jc e 0 token (au_jwt_secret st))) (\<lambda>c.
        st_then (st_lift (if rq_path rq \<noteq> ''/mcp'' \<and> rq_path rq \<noteq> ''/mcp/'' then require_session c else Inr ())) (\<lambda>_.
        st_then (st_map_err db_down (get_user_by_id e 1 (claimed_user c))) (\<lambda>found.
        st_then (st_lift (ok_or found (AppUnauthorized ''User not found''))) (\<lambda>u.
        st_then (st_lift (require_current_session c (ac_sessions_valid_from u))) (\<lambda>_.
        st_then (st_lift (ensure (ac_active u) (AppUnauthorized ''User account is inactive''))) (\<lambda>_.
        st_then (load_context e (au_self_hosted st) (claimed_user c) (extra_str ''workspace_id'' (cl_extra c))) (\<lambda>ctx.
        st_ok (auth_user_of u ctx (Some (cl_exp c)) (cl_jti c)))))))))))"

text \<open>The extractors: \<open>AuthUser\<close> with the billing gate, \<open>AuthUserAllowLapsed\<close> without.\<close>

definition auth_user_extractor :: "jwt_codec \<Rightarrow> auth_env \<Rightarrow> auth_state \<Rightarrow> request_parts \<Rightarrow> auth_db \<Rightarrow> (app_error + auth_user) \<times> auth_db" where
  "auth_user_extractor jc e st rq =
     st_then (load_auth_user jc e st rq) (\<lambda>u.
     if wc_billing_lapsed (us_workspace u) then st_err (PaymentRequired ''This workspace's billing is past due.'')
     else st_ok u)"

definition allow_lapsed_extractor :: "jwt_codec \<Rightarrow> auth_env \<Rightarrow> auth_state \<Rightarrow> request_parts \<Rightarrow> auth_db \<Rightarrow> (app_error + auth_user) \<times> auth_db" where
  "allow_lapsed_extractor = load_auth_user"

definition token_needs_refresh :: "auth_user \<Rightarrow> auth_env \<Rightarrow> nat \<Rightarrow> bool" where
  "token_needs_refresh u e n =
     (case us_token_exp u of None \<Rightarrow> False | Some exp \<Rightarrow> exp - unix_seconds (ae_now e n) < 300)"

end
