(* ===== verification/Request_Meta.thy ===== *)
theory Request_Meta
  imports Browser_Sessions
begin

text \<open>
  What requests and responses carry: the cookies of \<open>crates/kyomi-auth/src/cookies.rs\<close> and the client
  address and device of \<open>request_meta.rs\<close>.

  Request headers are a function from lower-case names to the first value, \<open>Inl ()\<close> when it is not
  visible ASCII; response headers are appended to a list. \<open>IpAddr::parse\<close> is written after the standard
  library's parser: dotted IPv4 without leading zeros, IPv6 with one \<open>::\<close> and an optional trailing IPv4
  address. Whether a text is a legal header value is the parameter \<open>header_ok\<close> of the HTTP library.
\<close>

type_synonym headers = "string \<Rightarrow> (unit + string) option"

definition header_text :: "headers \<Rightarrow> string \<Rightarrow> string option" where
  "header_text h name = (case h name of Some (Inr v) \<Rightarrow> Some v | _ \<Rightarrow> None)"

subsection \<open>Cookies\<close>

definition get_cookie_value :: "headers \<Rightarrow> string \<Rightarrow> string option" where
  "get_cookie_value h name =
     Option.bind (header_text h ''cookie'') (\<lambda>v.
       first_some (\<lambda>c. strip_prefix (name @ ''='') (trim c)) (split_on (CHR '';'') v))"

definition REFRESH_COOKIE :: string where "REFRESH_COOKIE = ''refresh_token''"
definition COOKIE_PATH :: string where "COOKIE_PATH = ''/''"
definition COOKIE_SAMESITE :: string where "COOKIE_SAMESITE = ''strict''"
definition COOKIE_SECURE :: bool where "COOKIE_SECURE = True"
definition COOKIE_HTTPONLY :: bool where "COOKIE_HTTPONLY = True"

definition cookie_text :: "string \<Rightarrow> string \<Rightarrow> string \<Rightarrow> string" where
  "cookie_text name v max_age =
     name @ ''='' @ v @ ''; Max-Age='' @ max_age @ ''; Path='' @ COOKIE_PATH @ ''; SameSite='' @ COOKIE_SAMESITE
     @ (if COOKIE_SECURE then ''; Secure'' else '''') @ (if COOKIE_HTTPONLY then ''; HttpOnly'' else '''')"

definition append_cookie :: "(string \<Rightarrow> bool) \<Rightarrow> string \<Rightarrow> (string \<times> string) list \<Rightarrow> (string \<times> string) list" where
  "append_cookie header_ok cookie hs = (if header_ok cookie then hs @ [(''set-cookie'', cookie)] else hs)"

definition set_token_cookies :: "(string \<Rightarrow> bool) \<Rightarrow> string option \<Rightarrow> string option \<Rightarrow> (string \<times> string) list \<Rightarrow> (string \<times> string) list" where
  "set_token_cookies header_ok access refresh hs =
     (let hs1 = (case access of None \<Rightarrow> hs
           | Some t \<Rightarrow> append_cookie header_ok (cookie_text ACCESS_COOKIE t (show_nat (nat (ACCESS_TOKEN_MINUTES * 60)))) hs)
      in case refresh of None \<Rightarrow> hs1
         | Some t \<Rightarrow> append_cookie header_ok (cookie_text REFRESH_COOKIE t (show_nat (nat (REFRESH_TOKEN_DAYS * 24 * 60 * 60)))) hs1)"

definition clear_token_cookies :: "(string \<Rightarrow> bool) \<Rightarrow> (string \<times> string) list \<Rightarrow> (string \<times> string) list" where
  "clear_token_cookies header_ok hs =
     append_cookie header_ok (cookie_text REFRESH_COOKIE '''' ''0'')
       (append_cookie header_ok (cookie_text ACCESS_COOKIE '''' ''0'') hs)"

definition set_recovery_session_cookie :: "(string \<Rightarrow> bool) \<Rightarrow> string \<Rightarrow> (string \<times> string) list \<Rightarrow> (string \<times> string) list" where
  "set_recovery_session_cookie header_ok token hs = append_cookie header_ok (cookie_text ''recovery_session'' token ''900'') hs"

definition clear_recovery_session_cookie :: "(string \<Rightarrow> bool) \<Rightarrow> (string \<times> string) list \<Rightarrow> (string \<times> string) list" where
  "clear_recovery_session_cookie header_ok hs = append_cookie header_ok (cookie_text ''recovery_session'' '''' ''0'') hs"

subsection \<open>Addresses\<close>

datatype ip_addr = V4 "int list" | V6 "int list"

fun read_char :: "char \<Rightarrow> string \<Rightarrow> string option" where
  "read_char c (x # s) = (if x = c then Some s else None)"
| "read_char c [] = None"

definition digit_of :: "int \<Rightarrow> char \<Rightarrow> int option" where
  "digit_of radix c =
     (let n = of_char c :: int;
          d = (if 48 \<le> n \<and> n \<le> 57 then n - 48
               else if 97 \<le> n \<and> n \<le> 122 then n - 87
               else if 65 \<le> n \<and> n \<le> 90 then n - 55 else 36)
      in if d < radix then Some d else None)"

definition read_number :: "int \<Rightarrow> nat \<Rightarrow> int \<Rightarrow> bool \<Rightarrow> string \<Rightarrow> (int \<times> string) option" where
  "read_number radix max_digits bound zero_prefix s =
     (let ds = takeWhile (\<lambda>c. digit_of radix c \<noteq> None) s;
          v = foldl (\<lambda>n c. radix * n + the (digit_of radix c)) 0 ds
      in if ds = [] \<or> max_digits < length ds \<or> \<not> zero_prefix \<and> hd ds = CHR ''0'' \<and> 1 < length ds \<or> bound < v
         then None else Some (v, drop (length ds) s))"

definition read_separated :: "char \<Rightarrow> nat \<Rightarrow> (string \<Rightarrow> ('a \<times> string) option) \<Rightarrow> string \<Rightarrow> ('a \<times> string) option" where
  "read_separated c index p s = (if 0 < index then Option.bind (read_char c s) p else p s)"

fun read_octets :: "nat \<Rightarrow> nat \<Rightarrow> string \<Rightarrow> (int list \<times> string) option" where
  "read_octets 0 i s = Some ([], s)"
| "read_octets (Suc k) i s =
     Option.bind (read_separated (CHR ''.'') i (read_number 10 3 255 False) s) (\<lambda>(v, rest).
     Option.bind (read_octets k (i + 1) rest) (\<lambda>(vs, rest'). Some (v # vs, rest')))"

definition read_ipv4 :: "string \<Rightarrow> (int list \<times> string) option" where
  "read_ipv4 s = read_octets 4 0 s"

text \<open>The groups read, whether they end in an IPv4 address, and the rest.\<close>

fun read_groups :: "nat \<Rightarrow> nat \<Rightarrow> string \<Rightarrow> int list \<times> bool \<times> string" where
  "read_groups 0 i s = ([], False, s)"
| "read_groups (Suc k) i s =
     (case (if 0 < k then read_separated (CHR '':'') i read_ipv4 s else None) of
        Some (v, rest) \<Rightarrow> ([256 * v ! 0 + v ! 1, 256 * v ! 2 + v ! 3], True, rest)
      | None \<Rightarrow>
          (case read_separated (CHR '':'') i (read_number 16 4 65535 True) s of
             Some (g, rest) \<Rightarrow> (case read_groups k (i + 1) rest of (gs, v4, rest') \<Rightarrow> (g # gs, v4, rest'))
           | None \<Rightarrow> ([], False, s)))"

definition read_ipv6 :: "string \<Rightarrow> (int list \<times> string) option" where
  "read_ipv6 s =
     (case read_groups 8 0 s of (front, v4, rest) \<Rightarrow>
        if length front = 8 then Some (front, rest)
        else if v4 then None
        else Option.bind (read_char (CHR '':'') rest) (\<lambda>r.
             Option.bind (read_char (CHR '':'') r) (\<lambda>r.
             case read_groups (8 - (length front + 1)) 0 r of (back, _, rest') \<Rightarrow>
               Some (front @ replicate (8 - length front - length back) 0 @ back, rest'))))"

definition parse_ip :: "string \<Rightarrow> ip_addr option" where
  "parse_ip s =
     (case read_ipv4 s of
        Some (v, rest) \<Rightarrow> if rest = [] then Some (V4 v) else None
      | None \<Rightarrow> (case read_ipv6 s of
          Some (g, rest) \<Rightarrow> if rest = [] then Some (V6 g) else None
        | None \<Rightarrow> None))"

definition is_loopback :: "ip_addr \<Rightarrow> bool" where
  "is_loopback ip = (case ip of V4 v \<Rightarrow> v ! 0 = 127 | V6 g \<Rightarrow> g = [0, 0, 0, 0, 0, 0, 0, 1])"

subsection \<open>The client\<close>

definition valid_ip :: "string \<Rightarrow> bool" where
  "valid_ip ip \<longleftrightarrow> ip \<noteq> [] \<and> parse_ip ip \<noteq> None"

definition extract_client_ip :: "headers \<Rightarrow> string option \<Rightarrow> string" where
  "extract_client_ip h peer =
     (case Option.bind (header_text h ''x-real-ip'') (\<lambda>v. if valid_ip (trim v) then Some (trim v) else None) of
        Some ip \<Rightarrow> ip
      | None \<Rightarrow>
          (case Option.bind (header_text h ''x-forwarded-for'') (\<lambda>v.
                  let ip = trim (hd (split_on (CHR '','') v)) in if valid_ip ip then Some ip else None) of
             Some ip \<Rightarrow> ip
           | None \<Rightarrow> (case peer of Some addr \<Rightarrow> addr | None \<Rightarrow> ''unknown'')))"

definition to_upper :: "char \<Rightarrow> char" where
  "to_upper c = (let n = of_char c :: int in if 97 \<le> n \<and> n \<le> 122 then char_of (n - 32) else c)"

definition extract_device_info :: "headers \<Rightarrow> device_info" where
  "extract_device_info h =
     \<lparr>dv_user_agent = header_text h ''user-agent'', dv_ip = Some (extract_client_ip h None),
      dv_country = (case header_text h ''cf-ipcountry'' of
          Some c \<Rightarrow> if c = ''XX'' then None else Some (map to_upper c)
        | None \<Rightarrow> None),
      dv_client = None\<rparr>"

subsection \<open>Facts\<close>

text \<open>The recorded address is a well-formed one from a header, the peer's, or the word for none; a valid
  \<open>X-Real-IP\<close> cannot be overridden by \<open>X-Forwarded-For\<close>.\<close>

lemma client_ip_cases: "valid_ip (extract_client_ip h peer) \<or> peer = Some (extract_client_ip h peer)
    \<or> peer = None \<and> extract_client_ip h peer = ''unknown''"
  by (auto simp: extract_client_ip_def Let_def bind_eq_Some_conv split: option.splits if_splits)

lemma real_ip_wins: "header_text h ''x-real-ip'' = Some v \<Longrightarrow> valid_ip (trim v) \<Longrightarrow> extract_client_ip h peer = trim v"
  by (simp add: extract_client_ip_def)

text \<open>What \<open>set_token_cookies\<close> sets under a name is what \<open>get_cookie_value\<close> reads from a request with that cookie
  alone, if it has no semicolon and does not end in a blank.\<close>

lemma first_blank: "\<not> blank x \<Longrightarrow> dropWhile blank (x # s) = x # s" by simp

lemma trim_id: "s = [] \<or> \<not> blank (hd s) \<and> \<not> blank (last s) \<Longrightarrow> trim s = s"
proof (cases "s = []")
  case False
  assume "s = [] \<or> \<not> blank (hd s) \<and> \<not> blank (last s)"
  with False have "\<not> blank (hd s)" "\<not> blank (hd (rev s))" by (simp_all add: hd_rev)
  moreover have "dropWhile blank t = t" if "t \<noteq> []" "\<not> blank (hd t)" for t using that by (cases t) simp_all
  ultimately show ?thesis using False by (simp add: trim_def)
qed (simp add: trim_def)

lemma cookie_read_back:
  assumes "header_text h ''cookie'' = Some (name @ ''='' @ v)" "CHR '';'' \<notin> set (name @ v)"
    "name \<noteq> []" "\<not> blank (hd name)" "v \<noteq> []" "\<not> blank (last v)"
  shows "get_cookie_value h name = Some v"
proof -
  have "split_on (CHR '';'') (name @ ''='' @ v) = [name @ ''='' @ v]" using assms(2) by (intro split_on_none) auto
  moreover have "trim (name @ ''='' @ v) = name @ ''='' @ v" using assms(3-6) by (intro trim_id) simp
  ultimately show ?thesis using assms(1) by (simp add: get_cookie_value_def strip_prefix_def)
qed

lemma ip_samples:
  "parse_ip ''127.0.0.01'' = None" "parse_ip ''::1'' = Some (V6 [0, 0, 0, 0, 0, 0, 0, 1])"
  "parse_ip ''::ffff:1.2.3.4'' = Some (V6 [0, 0, 0, 0, 0, 65535, 258, 772])" "parse_ip ''1::2::3'' = None"
  by code_simp+

end
