(* ===== verification/Kv_Store.thy ===== *)
theory Kv_Store
  imports Core_Errors
begin

text \<open>
  The key-value store of \<open>crates/kyomi-core/src/kv_store.rs\<close>: the trait \<open>KVStore\<close> as a record of
  operations on a state, its JSON helpers, and the in-process implementation of
  \<open>kv_store_memory.rs\<close>.

  Every method of the in-process store runs under one lock, so it is an atomic function from the
  store to a result and a store. \<open>Instant::now()\<close> is the next reading of a clock that is part of the
  state (\<open>mk_clock\<close>, in nanoseconds; \<open>mk_draws\<close> counts the readings), so that an operation that
  reads it twice sees two readings, and any time may pass between two operations. Instants are
  unbounded: the panic of \<open>Instant + Duration\<close> beyond \<open>2 ^ 63\<close> seconds is not modelled.
  The locale \<open>kv_laws\<close> states what clients rely on; it is interpreted on the in-process store.
\<close>

subsection \<open>The interface\<close>

record 's kv_ops =
  kv_set :: "string \<Rightarrow> string \<Rightarrow> 64 word option \<Rightarrow> 's \<Rightarrow> (app_error + unit) \<times> 's"
  kv_get :: "string \<Rightarrow> 's \<Rightarrow> (app_error + string option) \<times> 's"
  kv_del :: "string \<Rightarrow> 's \<Rightarrow> (app_error + unit) \<times> 's"
  kv_getdel :: "string \<Rightarrow> 's \<Rightarrow> (app_error + string option) \<times> 's"
  kv_incr :: "string \<Rightarrow> 's \<Rightarrow> (app_error + int) \<times> 's"
  kv_expire :: "string \<Rightarrow> 64 word \<Rightarrow> 's \<Rightarrow> (app_error + unit) \<times> 's"
  kv_sadd :: "string \<Rightarrow> string \<Rightarrow> 's \<Rightarrow> (app_error + unit) \<times> 's"
  kv_srem :: "string \<Rightarrow> string \<Rightarrow> 's \<Rightarrow> (app_error + unit) \<times> 's"
  kv_smembers :: "string \<Rightarrow> 's \<Rightarrow> (app_error + string set) \<times> 's"
  kv_sdel :: "string \<Rightarrow> 's \<Rightarrow> (app_error + unit) \<times> 's"

definition kv_ping :: "'s kv_ops \<Rightarrow> 's \<Rightarrow> (app_error + unit) \<times> 's" where
  "kv_ping kv =
     st_then (kv_set kv ''__ping__'' ''1'' (Some 5)) (\<lambda>_.
     st_then (kv_get kv ''__ping__'') (\<lambda>_.
     st_then (kv_del kv ''__ping__'') (\<lambda>_. st_ok ())))"

text \<open>serde_json's \<open>to_string\<close> and \<open>from_str\<close>, as far as the helpers use them.\<close>

record json_text =
  jt_enc :: "json \<Rightarrow> app_error + string"
  jt_dec :: "string \<Rightarrow> app_error + json"

definition kv_store_json :: "json_text \<Rightarrow> 's kv_ops \<Rightarrow> string \<Rightarrow> json \<Rightarrow> 64 word \<Rightarrow> 's \<Rightarrow> (app_error + unit) \<times> 's" where
  "kv_store_json jt kv key data ttl =
     st_then (st_lift (jt_enc jt data)) (\<lambda>text. kv_set kv key text (Some ttl))"

definition kv_consume_json :: "json_text \<Rightarrow> 's kv_ops \<Rightarrow> string \<Rightarrow> 's \<Rightarrow> (app_error + json option) \<times> 's" where
  "kv_consume_json jt kv key =
     st_then (kv_getdel kv key) (\<lambda>found.
     case found of
       Some text \<Rightarrow> st_then (st_lift (jt_dec jt text)) (\<lambda>v. st_ok (Some v))
     | None \<Rightarrow> st_ok None)"

definition kv_peek_json :: "json_text \<Rightarrow> 's kv_ops \<Rightarrow> string \<Rightarrow> 's \<Rightarrow> (app_error + json option) \<times> 's" where
  "kv_peek_json jt kv key =
     st_then (kv_get kv key) (\<lambda>found.
     case found of
       Some text \<Rightarrow> st_then (st_lift (jt_dec jt text)) (\<lambda>v. st_ok (Some v))
     | None \<Rightarrow> st_ok None)"

subsection \<open>The in-process store\<close>

record kv_entry =
  en_value :: string
  en_expires :: "int option"

record memory_kv =
  mk_data :: "string \<Rightarrow> kv_entry option"
  mk_sets :: "string \<Rightarrow> string set option"
  mk_clock :: "nat \<Rightarrow> int"
  mk_draws :: nat

definition instant_now :: "memory_kv \<Rightarrow> int \<times> memory_kv" where
  "instant_now m = (mk_clock m (mk_draws m), m\<lparr>mk_draws := mk_draws m + 1\<rparr>)"

definition from_secs :: "64 word \<Rightarrow> int" where "from_secs s = uint s * 10 ^ 9"

definition entry_new :: "string \<Rightarrow> 64 word option \<Rightarrow> memory_kv \<Rightarrow> kv_entry \<times> memory_kv" where
  "entry_new v ttl m =
     (case ttl of
        None \<Rightarrow> (\<lparr>en_value = v, en_expires = None\<rparr>, m)
      | Some s \<Rightarrow> let (now, m1) = instant_now m in
          (\<lparr>en_value = v, en_expires = Some (now + from_secs s)\<rparr>, m1))"

definition is_expired :: "kv_entry \<Rightarrow> memory_kv \<Rightarrow> bool \<times> memory_kv" where
  "is_expired e m =
     (case en_expires e of
        None \<Rightarrow> (False, m)
      | Some t \<Rightarrow> let (now, m1) = instant_now m in (now > t, m1))"

definition new_pool :: "(nat \<Rightarrow> int) \<Rightarrow> memory_kv" where
  "new_pool clock = \<lparr>mk_data = \<lambda>_. None, mk_sets = \<lambda>_. None, mk_clock = clock, mk_draws = 0\<rparr>"

text \<open>The background sweep visits the keys in the map's iteration order.\<close>

definition sweep_key :: "string \<Rightarrow> memory_kv \<Rightarrow> memory_kv" where
  "sweep_key k m =
     (case mk_data m k of
        None \<Rightarrow> m
      | Some e \<Rightarrow> let (gone, m1) = is_expired e m in
          if gone then m1\<lparr>mk_data := (mk_data m1)(k := None)\<rparr> else m1)"

definition sweep_expired :: "string list \<Rightarrow> memory_kv \<Rightarrow> memory_kv" where
  "sweep_expired order m = fold sweep_key order m"

definition memory_set :: "string \<Rightarrow> string \<Rightarrow> 64 word option \<Rightarrow> memory_kv \<Rightarrow> (app_error + unit) \<times> memory_kv" where
  "memory_set k v ttl m =
     (let (e, m1) = entry_new v ttl m in (Inr (), m1\<lparr>mk_data := (mk_data m1)(k \<mapsto> e)\<rparr>))"

definition memory_get :: "string \<Rightarrow> memory_kv \<Rightarrow> (app_error + string option) \<times> memory_kv" where
  "memory_get k m =
     (case mk_data m k of
        None \<Rightarrow> (Inr None, m)
      | Some e \<Rightarrow> let (gone, m1) = is_expired e m in (Inr (if gone then None else Some (en_value e)), m1))"

definition memory_del :: "string \<Rightarrow> memory_kv \<Rightarrow> (app_error + unit) \<times> memory_kv" where
  "memory_del k m = (Inr (), m\<lparr>mk_data := (mk_data m)(k := None)\<rparr>)"

definition memory_getdel :: "string \<Rightarrow> memory_kv \<Rightarrow> (app_error + string option) \<times> memory_kv" where
  "memory_getdel k m =
     (case mk_data m k of
        None \<Rightarrow> (Inr None, m)
      | Some e \<Rightarrow> let (gone, m1) = is_expired e m in
          (Inr (if gone then None else Some (en_value e)), m1\<lparr>mk_data := (mk_data m1)(k := None)\<rparr>))"

text \<open>\<open>str::parse::<i64>\<close>: an optional sign and decimal digits, within the range of \<open>i64\<close>.\<close>

definition is_digit :: "char \<Rightarrow> bool" where
  "is_digit c \<longleftrightarrow> 48 \<le> (of_char c :: nat) \<and> (of_char c :: nat) \<le> 57"

definition digits_value :: "string \<Rightarrow> int" where
  "digits_value s = foldl (\<lambda>n c. 10 * n + (of_char c - 48)) 0 s"

definition strip_sign :: "string \<Rightarrow> int \<times> string" where
  "strip_sign s =
     (if s \<noteq> [] \<and> hd s = CHR ''-'' then (- 1, tl s)
      else if s \<noteq> [] \<and> hd s = CHR ''+'' then (1, tl s)
      else (1, s))"

definition parse_i64 :: "string \<Rightarrow> int option" where
  "parse_i64 s =
     (let (sign, ds) = strip_sign s; n = sign * digits_value ds
      in if ds \<noteq> [] \<and> list_all is_digit ds \<and> in_i64 n then Some n else None)"

definition show_int :: "int \<Rightarrow> string" where
  "show_int n = (if n < 0 then CHR ''-'' # show_nat (nat (- n)) else show_nat (nat n))"

text \<open>The counter and the expiry that \<open>incr\<close> goes on from.\<close>

definition current_count :: "string \<Rightarrow> memory_kv \<Rightarrow> (int \<times> int option) \<times> memory_kv" where
  "current_count k m =
     (case mk_data m k of
        None \<Rightarrow> ((0, None), m)
      | Some e \<Rightarrow> let (gone, m1) = is_expired e m in
          ((if gone then (0, None)
            else (case parse_i64 (en_value e) of None \<Rightarrow> 0 | Some n \<Rightarrow> n, en_expires e)), m1))"

text \<open>The addition wraps in a release build. The seconds left, read from the clock, only make the
  entry whose expiry is then restored.\<close>

definition seconds_left :: "int option \<Rightarrow> memory_kv \<Rightarrow> 64 word option \<times> memory_kv" where
  "seconds_left expiry m =
     (case expiry of
        None \<Rightarrow> (None, m)
      | Some t \<Rightarrow> let (now, m1) = instant_now m in
          (Some (of_int (max 1 (max 0 (t - now) div 10 ^ 9))), m1))"

definition memory_incr :: "string \<Rightarrow> memory_kv \<Rightarrow> (app_error + int) \<times> memory_kv" where
  "memory_incr k m =
     (let ((current, expiry), m1) = current_count k m;
          n = wrap_i64 (current + 1);
          (ttl, m2) = seconds_left expiry m1;
          (e, m3) = entry_new (show_int n) ttl m2
      in (Inr n, m3\<lparr>mk_data := (mk_data m3)(k \<mapsto> e\<lparr>en_expires := expiry\<rparr>)\<rparr>))"

definition memory_expire :: "string \<Rightarrow> 64 word \<Rightarrow> memory_kv \<Rightarrow> (app_error + unit) \<times> memory_kv" where
  "memory_expire k ttl m =
     (case mk_data m k of
        None \<Rightarrow> (Inr (), m)
      | Some e \<Rightarrow> let (gone, m1) = is_expired e m in
          if gone then (Inr (), m1)
          else let (now, m2) = instant_now m1 in
            (Inr (), m2\<lparr>mk_data := (mk_data m2)(k \<mapsto> e\<lparr>en_expires := Some (now + from_secs ttl)\<rparr>)\<rparr>))"

definition memory_sadd :: "string \<Rightarrow> string \<Rightarrow> memory_kv \<Rightarrow> (app_error + unit) \<times> memory_kv" where
  "memory_sadd k x m =
     (Inr (), m\<lparr>mk_sets := (mk_sets m)(k \<mapsto> insert x (case mk_sets m k of None \<Rightarrow> {} | Some s \<Rightarrow> s))\<rparr>)"

definition memory_srem :: "string \<Rightarrow> string \<Rightarrow> memory_kv \<Rightarrow> (app_error + unit) \<times> memory_kv" where
  "memory_srem k x m =
     (case mk_sets m k of
        None \<Rightarrow> (Inr (), m)
      | Some s \<Rightarrow> let t = s - {x} in
          (Inr (), m\<lparr>mk_sets := (mk_sets m)(k := (if t = {} then None else Some t))\<rparr>))"

text \<open>The vector of the members comes in an unspecified order; it is modelled as their set.\<close>

definition memory_smembers :: "string \<Rightarrow> memory_kv \<Rightarrow> (app_error + string set) \<times> memory_kv" where
  "memory_smembers k m = (Inr (case mk_sets m k of None \<Rightarrow> {} | Some s \<Rightarrow> s), m)"

definition memory_sdel :: "string \<Rightarrow> memory_kv \<Rightarrow> (app_error + unit) \<times> memory_kv" where
  "memory_sdel k m = (Inr (), m\<lparr>mk_sets := (mk_sets m)(k := None)\<rparr>)"

definition memory_ops :: "memory_kv kv_ops" where
  "memory_ops = \<lparr>kv_set = memory_set, kv_get = memory_get, kv_del = memory_del, kv_getdel = memory_getdel,
     kv_incr = memory_incr, kv_expire = memory_expire, kv_sadd = memory_sadd, kv_srem = memory_srem,
     kv_smembers = memory_smembers, kv_sdel = memory_sdel\<rparr>"

lemma memory_ops_simps [simp]:
  "kv_set memory_ops = memory_set" "kv_get memory_ops = memory_get" "kv_del memory_ops = memory_del"
  "kv_getdel memory_ops = memory_getdel" "kv_incr memory_ops = memory_incr" "kv_expire memory_ops = memory_expire"
  "kv_sadd memory_ops = memory_sadd" "kv_srem memory_ops = memory_srem"
  "kv_smembers memory_ops = memory_smembers" "kv_sdel memory_ops = memory_sdel"
  by (simp_all add: memory_ops_def)

subsection \<open>The texts of counters\<close>

lemma digits_value_append [simp]: "digits_value (s @ [c]) = 10 * digits_value s + (of_char c - 48)"
  by (simp add: digits_value_def)

lemma digit_char [simp]: "d < 10 \<Longrightarrow> is_digit (char_of (48 + d))" for d :: nat
  by (simp add: is_digit_def)

lemma digit_value [simp]: "d < 10 \<Longrightarrow> (of_char (char_of (48 + d) :: char) :: int) = 48 + int d" for d :: nat
  by (subst of_nat_of_char [symmetric]) simp

lemma show_nat_digits: "show_nat n \<noteq> [] \<and> list_all is_digit (show_nat n) \<and> digits_value (show_nat n) = int n"
proof (induction n rule: show_nat.induct)
  case (1 n)
  show ?case
  proof (cases "n < 10")
    case True
    then show ?thesis
      by (subst (1 2 3) show_nat.simps) (simp add: digits_value_def)
  next
    case False
    with 1 have ih: "show_nat (n div 10) \<noteq> [] \<and> list_all is_digit (show_nat (n div 10))
        \<and> digits_value (show_nat (n div 10)) = int (n div 10)" by blast
    have "int n = 10 * int (n div 10) + int (n mod 10)" by presburger
    with ih False show ?thesis
      by (subst (1 2 3) show_nat.simps) simp
  qed
qed

lemma strip_digits: "list_all is_digit ds \<Longrightarrow> strip_sign ds = (1, ds)"
  by (cases ds) (auto simp: strip_sign_def is_digit_def)

lemma strip_minus: "strip_sign (CHR ''-'' # ds) = (- 1, ds)"
  by (simp add: strip_sign_def)

lemma parse_show: "in_i64 n \<Longrightarrow> parse_i64 (show_int n) = Some n"
  using show_nat_digits [of "nat n"] show_nat_digits [of "nat (- n)"]
  by (simp add: parse_i64_def show_int_def strip_digits strip_minus)

subsection \<open>What is alive\<close>

text \<open>The entries that a reader at time \<open>t\<close> sees.\<close>

definition expired_at :: "int \<Rightarrow> kv_entry \<Rightarrow> bool" where
  "expired_at t e \<longleftrightarrow> (case en_expires e of None \<Rightarrow> False | Some x \<Rightarrow> t > x)"

definition keep_at :: "int \<Rightarrow> kv_entry \<Rightarrow> kv_entry option" where
  "keep_at t e = (if expired_at t e then None else Some e)"

definition alive :: "int \<Rightarrow> memory_kv \<Rightarrow> string \<Rightarrow> kv_entry option" where
  "alive t m k = Option.bind (mk_data m k) (keep_at t)"

definition reading :: "memory_kv \<Rightarrow> int" where
  "reading m = mk_clock m (mk_draws m)"

lemma instant_now_simps [simp]:
  "instant_now m = (reading m, m\<lparr>mk_draws := mk_draws m + 1\<rparr>)"
  by (simp add: instant_now_def reading_def)

lemma is_expired_eq: "is_expired e m = (expired_at (reading m) e,
    if en_expires e = None then m else m\<lparr>mk_draws := mk_draws m + 1\<rparr>)"
  by (auto simp: is_expired_def expired_at_def split: option.splits)

lemma expired_later: "expired_at t e \<Longrightarrow> t \<le> t' \<Longrightarrow> expired_at t' e"
  by (auto simp: expired_at_def split: option.splits)

lemma alive_update [simp]: "alive t (m\<lparr>mk_draws := n\<rparr>) = alive t m"
  "alive t (m\<lparr>mk_data := (mk_data m)(k := v)\<rparr>) = (alive t m)(k := Option.bind v (keep_at t))"
  by (auto simp: alive_def fun_eq_iff)

subsection \<open>The in-process store against its specification\<close>

lemma alive_none: "alive t m k = None \<longleftrightarrow> mk_data m k = None \<or> (\<exists>e. mk_data m k = Some e \<and> expired_at t e)"
  by (auto simp: alive_def keep_at_def split: bind_splits)

lemma alive_some: "alive t m k = Some e \<longleftrightarrow> mk_data m k = Some e \<and> \<not> expired_at t e"
  by (auto simp: alive_def keep_at_def bind_eq_Some_conv)

lemma keep_forever [simp]: "keep_at t \<lparr>en_value = v, en_expires = None\<rparr> = Some \<lparr>en_value = v, en_expires = None\<rparr>"
  by (simp add: keep_at_def expired_at_def)

lemma memory_get_alive:
  "fst (memory_get k m) = Inr (map_option en_value (alive (reading m) m k))"
  "alive t (snd (memory_get k m)) = alive t m"
  by (auto simp: memory_get_def is_expired_eq alive_def keep_at_def fun_eq_iff split: option.splits)

lemma memory_set_alive:
  "fst (memory_set k v ttl m) = Inr ()"
  "alive t (snd (memory_set k v ttl m)) = (alive t m)(k := keep_at t
     \<lparr>en_value = v, en_expires = map_option (\<lambda>s. reading m + from_secs s) ttl\<rparr>)"
  by (auto simp: memory_set_def entry_new_def alive_def fun_eq_iff split: option.splits)

lemma memory_del_alive:
  "fst (memory_del k m) = Inr ()" "alive t (snd (memory_del k m)) = (alive t m)(k := None)"
  by (auto simp: memory_del_def alive_def)

lemma memory_getdel_alive:
  "fst (memory_getdel k m) = Inr (map_option en_value (alive (reading m) m k))"
  "alive t (snd (memory_getdel k m)) = (alive t m)(k := None)"
  by (auto simp: memory_getdel_def is_expired_eq alive_def keep_at_def fun_eq_iff split: option.splits)

text \<open>What an increment goes on from: the counter's number, or zero where there is none.\<close>

definition counter_of :: "kv_entry option \<Rightarrow> int" where
  "counter_of e = (case e of None \<Rightarrow> 0 | Some c \<Rightarrow> (case parse_i64 (en_value c) of None \<Rightarrow> 0 | Some n \<Rightarrow> n))"

definition expiry_of :: "kv_entry option \<Rightarrow> int option" where
  "expiry_of e = Option.bind e en_expires"

lemma current_count_alive:
  "fst (current_count k m) = (counter_of (alive (reading m) m k), expiry_of (alive (reading m) m k))"
  "alive t (snd (current_count k m)) = alive t m"
  by (auto simp: current_count_def is_expired_eq alive_def keep_at_def counter_of_def expiry_of_def fun_eq_iff
      split: option.splits)

lemma memory_incr_alive:
  "fst (memory_incr k m) = Inr (wrap_i64 (counter_of (alive (reading m) m k) + 1))"
  "alive t (snd (memory_incr k m)) = (alive t m)(k := keep_at t
     \<lparr>en_value = show_int (wrap_i64 (counter_of (alive (reading m) m k) + 1)),
      en_expires = expiry_of (alive (reading m) m k)\<rparr>)"
  using current_count_alive(1) [of k m] current_count_alive(2) [of t k m]
  by (auto simp: memory_incr_def seconds_left_def entry_new_def Let_def alive_def fun_eq_iff split: prod.splits option.splits)

text \<open>\<open>expire\<close> reads the clock once more when it has checked an expiry.\<close>

definition expire_reading :: "string \<Rightarrow> memory_kv \<Rightarrow> int" where
  "expire_reading k m =
     (if expiry_of (alive (reading m) m k) = None then reading m else mk_clock m (mk_draws m + 1))"

lemma memory_expire_alive:
  "fst (memory_expire k ttl m) = Inr ()"
  "alive t (snd (memory_expire k ttl m)) = (case alive (reading m) m k of
      None \<Rightarrow> alive t m
    | Some e \<Rightarrow> (alive t m)(k := keep_at t (e\<lparr>en_expires := Some (expire_reading k m + from_secs ttl)\<rparr>)))"
  by (auto simp: memory_expire_def is_expired_eq alive_def keep_at_def expire_reading_def expiry_of_def reading_def
      fun_eq_iff split: option.splits)

lemma sweep_key_clock [simp]: "mk_clock (sweep_key k m) = mk_clock m" "mk_draws m \<le> mk_draws (sweep_key k m)"
  by (auto simp: sweep_key_def is_expired_eq split: option.splits)

lemma sweep_clock [simp]:
  "mk_clock (sweep_expired ks m) = mk_clock m" "mk_draws m \<le> mk_draws (sweep_expired ks m)"
  unfolding sweep_expired_def
  by (induction ks arbitrary: m) (auto intro: order_trans [OF sweep_key_clock(2)])

lemma sweep_key_alive: "reading m \<le> t \<Longrightarrow> alive t (sweep_key k m) = alive t m"
  by (auto simp: sweep_key_def is_expired_eq alive_def keep_at_def fun_eq_iff dest: expired_later split: option.splits)

lemma sweep_alive:
  assumes "mono (mk_clock m)" "reading (sweep_expired ks m) \<le> t"
  shows "alive t (sweep_expired ks m) = alive t m"
  using assms
proof (induction ks arbitrary: m)
  case Nil
  then show ?case by (simp add: sweep_expired_def)
next
  case (Cons k ks)
  have step: "sweep_expired (k # ks) m = sweep_expired ks (sweep_key k m)" by (simp add: sweep_expired_def)
  have "mk_draws m \<le> mk_draws (sweep_expired ks (sweep_key k m))"
    using sweep_key_clock(2) sweep_clock(2) by (rule order_trans)
  from monoD [OF Cons.prems(1) this] Cons.prems(2) have "reading m \<le> t"
    by (simp add: reading_def step)
  with Cons.IH [of "sweep_key k m"] Cons.prems show ?case by (simp add: step sweep_key_alive)
qed

subsection \<open>The laws clients rely on\<close>

text \<open>An operation keeps a key's value when it is unchanged or gone (entries expire, and a failing
  backend may drop one), but never replaced.\<close>

definition kept :: "'v option \<Rightarrow> 'v option \<Rightarrow> bool" where
  "kept old new \<longleftrightarrow> new = old \<or> new = None"

lemma kept_simps [simp]: "kept v v" "kept v None" "kept None v \<longleftrightarrow> v = None"
  by (auto simp: kept_def)

lemma kept_trans: "kept a b \<Longrightarrow> kept b c \<Longrightarrow> kept a c"
  by (auto simp: kept_def)

lemma kept_st_then:
  assumes "kept (h s) (h (snd (m s)))" "\<And>x s'. m s = (Inr x, s') \<Longrightarrow> kept (h s') (h (snd (f x s')))"
  shows "kept (h s) (h (snd (st_then m f s)))"
proof (cases "m s")
  case (Pair r s')
  with assms show ?thesis by (cases r) (auto intro: kept_trans)
qed

locale kv_laws =
  fixes kv :: "'s kv_ops" and held :: "'s \<Rightarrow> string \<Rightarrow> string option"
  assumes set_other: "k' \<noteq> k \<Longrightarrow> kept (held s k') (held (snd (kv_set kv k v ttl s)) k')"
    and get_value: "kv_get kv k s = (Inr (Some v), s') \<Longrightarrow> held s k = Some v"
    and get_kept: "kept (held s k') (held (snd (kv_get kv k s)) k')"
    and del_kept: "kept (held s k') (held (snd (kv_del kv k s)) k')"
    and del_gone: "kv_del kv k s = (Inr (), s') \<Longrightarrow> held s' k = None"
    and getdel_kept: "kept (held s k') (held (snd (kv_getdel kv k s)) k')"
    and getdel_value: "kv_getdel kv k s = (Inr (Some v), s') \<Longrightarrow> held s k = Some v \<and> held s' k = None"
    and incr_other: "k' \<noteq> k \<Longrightarrow> kept (held s k') (held (snd (kv_incr kv k s)) k')"
    and expire_kept: "kept (held s k') (held (snd (kv_expire kv k n s)) k')"
begin

lemma store_json_other: "k' \<noteq> k \<Longrightarrow> kept (held s k') (held (snd (kv_store_json jt kv k v ttl s)) k')"
  using set_other by (auto simp: kv_store_json_def st_then_def st_simps split: sum.splits)

lemma consume_json_kept: "kept (held s k') (held (snd (kv_consume_json jt kv k s)) k')"
  using getdel_kept [of s k' k]
  by (auto simp: kv_consume_json_def st_then_def st_simps split: sum.splits prod.splits option.splits)

lemma consume_json_value:
  "kv_consume_json jt kv k s = (Inr (Some v), s') \<Longrightarrow>
    \<exists>text. held s k = Some text \<and> jt_dec jt text = Inr v \<and> held s' k = None"
  by (auto simp: kv_consume_json_def st_then_eq_Inr st_simps dest!: getdel_value split: option.splits)

lemma peek_json_kept: "kept (held s k') (held (snd (kv_peek_json jt kv k s)) k')"
  using get_kept [of s k' k]
  by (auto simp: kv_peek_json_def st_then_def st_simps split: sum.splits prod.splits option.splits)

lemma peek_json_value:
  "kv_peek_json jt kv k s = (Inr (Some v), s') \<Longrightarrow> \<exists>text. held s k = Some text \<and> jt_dec jt text = Inr v"
  by (auto simp: kv_peek_json_def st_then_eq_Inr st_simps dest!: get_value split: option.splits)

end

definition memory_held :: "memory_kv \<Rightarrow> string \<Rightarrow> string option" where
  "memory_held m k = map_option en_value (mk_data m k)"

interpretation mem: kv_laws memory_ops memory_held
  by unfold_locales
    (auto simp: memory_set_def memory_get_def memory_del_def memory_getdel_def memory_incr_def memory_expire_def
      is_expired_eq entry_new_def current_count_def seconds_left_def Let_def memory_held_def kept_def
      split: option.splits if_splits prod.splits)

subsection \<open>Property\<close>

text \<open>C30: The in-process store implements timed maps exactly. At the instant \<open>now\<close> of its clock reading,
  a read, a read-and-delete and an increment see just the entry that is alive then; afterwards a
  reader at any time \<open>t\<close> finds what the abstract operation leaves: reads change nothing, a
  written value is visible until its expiry, a deleted key is gone, an increment keeps the
  expiry and restarts a dead counter at one, \<open>expire\<close> never revives a dead key; the background
  sweep is invisible to every later reader.\<close>

theorem memory_store_refines:
  assumes "mono (mk_clock m)" "reading (sweep_expired order m) \<le> late"
  shows "let now = reading m; here = alive now m k in
      memory_get k m = (Inr (map_option en_value here), snd (memory_get k m))
    \<and> alive t (snd (memory_get k m)) = alive t m
    \<and> fst (memory_getdel k m) = Inr (map_option en_value here)
    \<and> alive t (snd (memory_getdel k m)) = (alive t m)(k := None)
    \<and> alive t (snd (memory_del k m)) = (alive t m)(k := None)
    \<and> alive t (snd (memory_set k v ttl m)) = (alive t m)(k := keep_at t
        \<lparr>en_value = v, en_expires = map_option (\<lambda>s. now + from_secs s) ttl\<rparr>)
    \<and> fst (memory_incr k m) = Inr (wrap_i64 (counter_of here + 1))
    \<and> alive t (snd (memory_incr k m)) = (alive t m)(k := keep_at t
        \<lparr>en_value = show_int (wrap_i64 (counter_of here + 1)), en_expires = expiry_of here\<rparr>)
    \<and> alive t (snd (memory_expire k n m)) = (case here of None \<Rightarrow> alive t m
        | Some e \<Rightarrow> (alive t m)(k := keep_at t (e\<lparr>en_expires := Some (expire_reading k m + from_secs n)\<rparr>)))
    \<and> alive late (sweep_expired order m) = alive late m"
  using sweep_alive [OF assms] memory_get_alive(1) [of k m]
  unfolding Let_def memory_getdel_alive memory_del_alive memory_set_alive memory_incr_alive memory_expire_alive
    memory_get_alive(2)
  by (simp add: prod_eq_iff)

theorem memory_store_refines_witness:
  "alive 99 (sweep_expired [''a'', ''b'']
     (snd (memory_set ''a'' ''x'' (Some 1) (new_pool (\<lambda>n. int n))))) = alive 99 (snd (memory_set ''a'' ''x'' (Some 1) (new_pool (\<lambda>n. int n))))"
proof -
  let ?m = "snd (memory_set ''a'' ''x'' (Some 1) (new_pool (\<lambda>n. int n)))"
  have m: "?m = \<lparr>mk_data = [''a'' \<mapsto> \<lparr>en_value = ''x'', en_expires = Some (10 ^ 9)\<rparr>], mk_sets = \<lambda>_. None,
      mk_clock = \<lambda>n. int n, mk_draws = 1\<rparr>"
    by (simp add: memory_set_def entry_new_def new_pool_def from_secs_def reading_def)
  have "mono (mk_clock ?m)" by (simp add: m mono_def)
  moreover have "reading (sweep_expired [''a'', ''b''] ?m) \<le> 99"
    by (simp add: m sweep_expired_def sweep_key_def is_expired_eq expired_at_def reading_def)
  ultimately show ?thesis by (rule memory_store_refines [unfolded Let_def, THEN conjunct2, THEN conjunct2, THEN conjunct2,
      THEN conjunct2, THEN conjunct2, THEN conjunct2, THEN conjunct2, THEN conjunct2, THEN conjunct2])
qed

end
