(* ===== verification/Rate_Limiter.thy ===== *)
theory Rate_Limiter
  imports Kv_Store
begin

text \<open>
  The fixed-window rate limiter of \<open>crates/kyomi-auth/src/rate_limiter.rs\<close> over the key-value
  store, with the capacities, windows and key templates of \<open>data/constants.toml\<close>, and the text
  substitution (\<open>str::replace\<close>) that makes the keys. A check, which increments the counter and then sets
  its expiry, is one step.
\<close>

subsection \<open>Key templates\<close>

text \<open>\<open>s.replace(pat, to)\<close> for a pattern that is not empty: left to right, matches do not overlap.\<close>

function str_replace :: "string \<Rightarrow> string \<Rightarrow> string \<Rightarrow> string" where
  "str_replace pat to [] = []"
| "str_replace pat to (c # s) =
     (if pat \<noteq> [] \<and> take (length pat) (c # s) = pat
      then to @ str_replace pat to (drop (length pat - 1) s)
      else c # str_replace pat to s)"
  by pat_completeness auto
termination by (relation "measure (\<lambda>(pat, to, s). length s)") auto

record key_prefixes =
  kp_oauth_state :: string
  kp_pending_signup :: string
  kp_pending_terms :: string
  kp_totp_setup :: string
  kp_webauthn_challenge :: string
  kp_recovery_session :: string
  kp_rate_limit_ip :: string
  kp_rate_limit_user :: string

definition KEY_PREFIXES :: key_prefixes where
  "KEY_PREFIXES = \<lparr>
     kp_oauth_state = ''oauth:{provider}:state:{state}'',
     kp_pending_signup = ''auth:pending_signup:{token}'',
     kp_pending_terms = ''auth:pending_terms:{token}'',
     kp_totp_setup = ''auth:totp_setup:{user_id}'',
     kp_webauthn_challenge = ''auth:webauthn_challenge:{challenge_id}'',
     kp_recovery_session = ''auth:recovery_session:{session_id}'',
     kp_rate_limit_ip = ''ratelimit:ip:{ip}:{endpoint}'',
     kp_rate_limit_user = ''ratelimit:user:{user_id}:{endpoint}''\<rparr>"

subsection \<open>The limiter\<close>

record rate_limit_config =
  rc_ip_capacity :: "32 word"
  rc_user_capacity :: "32 word"
  rc_window_seconds :: "64 word"

record rate_limit_constants =
  rl_login :: rate_limit_config
  rl_register :: rate_limit_config
  rl_refresh :: rate_limit_config
  rl_api_call :: rate_limit_config

definition RATE_LIMITS :: rate_limit_constants where
  "RATE_LIMITS = \<lparr>
     rl_login = \<lparr>rc_ip_capacity = 10, rc_user_capacity = 5, rc_window_seconds = 900\<rparr>,
     rl_register = \<lparr>rc_ip_capacity = 5, rc_user_capacity = 1, rc_window_seconds = 3600\<rparr>,
     rl_refresh = \<lparr>rc_ip_capacity = 30, rc_user_capacity = 20, rc_window_seconds = 300\<rparr>,
     rl_api_call = \<lparr>rc_ip_capacity = 1000, rc_user_capacity = 500, rc_window_seconds = 60\<rparr>\<rparr>"

definition UNLIMITED_REMAINING :: "32 word" where "UNLIMITED_REMAINING = - 1"

record rate_limit_result =
  rr_allowed :: bool
  rr_remaining :: "32 word"
  rr_retry_after :: "64 word"

record bucket_config =
  bc_capacity :: "32 word"
  bc_window_secs :: "64 word"

definition bucket_result :: "bucket_config \<Rightarrow> int \<Rightarrow> rate_limit_result" where
  "bucket_result cfg count =
     (let allowed = count \<le> uint (bc_capacity cfg) in
      \<lparr>rr_allowed = allowed,
       rr_remaining = of_int (max (wrap_i64 (uint (bc_capacity cfg) - count)) 0),
       rr_retry_after = (if allowed then 0 else bc_window_secs cfg)\<rparr>)"

definition check_bucket :: "'s kv_ops \<Rightarrow> string \<Rightarrow> bucket_config \<Rightarrow> 's \<Rightarrow> (app_error + rate_limit_result) \<times> 's" where
  "check_bucket kv key cfg =
     st_then (kv_incr kv key) (\<lambda>count.
     st_then (if count = 1 then kv_expire kv key (bc_window_secs cfg) else st_ok ()) (\<lambda>_.
     st_ok (bucket_result cfg count)))"

definition rate_config :: "rate_limit_constants \<Rightarrow> string \<Rightarrow> rate_limit_config option" where
  "rate_config limits endpoint =
     (if endpoint = ''login'' then Some (rl_login limits)
      else if endpoint = ''register'' then Some (rl_register limits)
      else if endpoint = ''signup'' then Some (rl_register limits)
      else if endpoint = ''refresh'' then Some (rl_refresh limits)
      else if endpoint = ''api_call'' then Some (rl_api_call limits)
      else if endpoint = ''passkey_recovery'' then Some (rl_login limits)
      else None)"

definition ip_key :: "string \<Rightarrow> string \<Rightarrow> string" where
  "ip_key ip endpoint =
     str_replace ''{endpoint}'' endpoint (str_replace ''{ip}'' ip (kp_rate_limit_ip KEY_PREFIXES))"

definition user_key :: "string \<Rightarrow> string \<Rightarrow> string" where
  "user_key uid endpoint =
     str_replace ''{endpoint}'' endpoint (str_replace ''{user_id}'' uid (kp_rate_limit_user KEY_PREFIXES))"

definition check_rate_limit :: "rate_limit_constants \<Rightarrow> 's kv_ops \<Rightarrow> string \<Rightarrow> string \<Rightarrow> string option
    \<Rightarrow> 's \<Rightarrow> (app_error + rate_limit_result) \<times> 's" where
  "check_rate_limit limits kv ip endpoint user =
     (case rate_config limits endpoint of
        None \<Rightarrow> st_ok \<lparr>rr_allowed = True, rr_remaining = UNLIMITED_REMAINING, rr_retry_after = 0\<rparr>
      | Some rc \<Rightarrow>
          st_then (check_bucket kv (ip_key ip endpoint)
              \<lparr>bc_capacity = rc_ip_capacity rc, bc_window_secs = rc_window_seconds rc\<rparr>) (\<lambda>by_ip.
          if \<not> rr_allowed by_ip then st_ok by_ip
          else case user of
            None \<Rightarrow> st_ok by_ip
          | Some uid \<Rightarrow>
              st_then (check_bucket kv (user_key uid endpoint)
                  \<lparr>bc_capacity = rc_user_capacity rc, bc_window_secs = rc_window_seconds rc\<rparr>) (\<lambda>by_user.
              if \<not> rr_allowed by_user then st_ok by_user
              else st_ok \<lparr>rr_allowed = True, rr_remaining = min (rr_remaining by_ip) (rr_remaining by_user),
                rr_retry_after = 0\<rparr>)))"

subsection \<open>Keys\<close>

lemma str_replace_colon: "pat \<noteq> [] \<Longrightarrow> CHR '':'' \<notin> set pat \<Longrightarrow>
    str_replace pat to (CHR '':'' # s) = CHR '':'' # str_replace pat to s"
  by (cases pat) auto

text \<open>A pattern without a colon never matches across one.\<close>

lemma match_before_colon:
  assumes "CHR '':'' \<notin> set pat"
  shows "take (length pat) (s @ CHR '':'' # rest) = pat \<longleftrightarrow> take (length pat) s = pat"
proof (cases "length pat \<le> length s")
  case True
  then show ?thesis by simp
next
  case False
  then have "CHR '':'' \<in> set (take (length pat) (s @ CHR '':'' # rest))"
    by (cases "length pat - length s") auto
  moreover have "take (length pat) s \<noteq> pat" using False by (metis length_take linorder_not_le min.cobounded1)
  ultimately show ?thesis using assms by metis
qed

lemma str_replace_tail:
  "pat \<noteq> [] \<Longrightarrow> CHR '':'' \<notin> set pat \<Longrightarrow>
    str_replace pat to (s @ CHR '':'' # rest) = str_replace pat to s @ CHR '':'' # str_replace pat to rest"
proof (induction pat to s rule: str_replace.induct)
  case (1 pat to)
  then show ?case by (simp add: str_replace_colon del: str_replace.simps(2))
next
  case (2 pat to c s)
  note match = match_before_colon [OF 2(4), of "c # s" rest, simplified]
  show ?case
  proof (cases "take (length pat) (c # s) = pat")
    case True
    from arg_cong [OF True, of length] have "length pat \<le> Suc (length s)" by (simp add: min_def split: if_splits)
    then have "length pat - 1 \<le> length s" by simp
    then have drop: "drop (length pat - 1) (s @ CHR '':'' # rest) = drop (length pat - 1) s @ CHR '':'' # rest" by simp
    show ?thesis using True 2(3) match drop 2(1) [OF conjI [OF 2(3) True] 2(3,4)] by simp
  next
    case False
    with 2 match show ?thesis by simp
  qed
qed

lemma str_replace_none: "CHR ''{'' \<notin> set s \<Longrightarrow> str_replace (CHR ''{'' # p) to s = s"
  by (induction s) auto

lemma ip_key_text: "ip_key ip endpoint = ''ratelimit:ip:'' @ str_replace ''{endpoint}'' endpoint ip @ '':'' @ endpoint"
proof -
  have "str_replace ''{ip}'' ip (kp_rate_limit_ip KEY_PREFIXES) = ''ratelimit:ip:'' @ ip @ '':{endpoint}''"
    by (simp add: KEY_PREFIXES_def)
  moreover have "str_replace ''{endpoint}'' endpoint (ip @ '':{endpoint}'')
      = str_replace ''{endpoint}'' endpoint ip @ '':'' @ endpoint"
    using str_replace_tail [of "''{endpoint}''" endpoint ip "''{endpoint}''"] by simp
  ultimately show ?thesis by (simp add: ip_key_def)
qed

lemma user_key_text: "user_key uid endpoint = ''ratelimit:user:'' @ str_replace ''{endpoint}'' endpoint uid @ '':'' @ endpoint"
proof -
  have "str_replace ''{user_id}'' uid (kp_rate_limit_user KEY_PREFIXES) = ''ratelimit:user:'' @ uid @ '':{endpoint}''"
    by (simp add: KEY_PREFIXES_def)
  moreover have "str_replace ''{endpoint}'' endpoint (uid @ '':{endpoint}'')
      = str_replace ''{endpoint}'' endpoint uid @ '':'' @ endpoint"
    using str_replace_tail [of "''{endpoint}''" endpoint uid "''{endpoint}''"] by simp
  ultimately show ?thesis by (simp add: user_key_def)
qed

lemma keys_differ: "ip_key ip e \<noteq> user_key uid e'"
  by (simp add: ip_key_text user_key_text)

text \<open>What follows the last colon of a key is the endpoint.\<close>

lemma last_part:
  assumes "s @ CHR '':'' # e = s' @ CHR '':'' # e'" "CHR '':'' \<notin> set e" "CHR '':'' \<notin> set e'"
  shows "e = e'"
proof -
  let ?part = "takeWhile (\<lambda>c. c \<noteq> CHR '':'')"
  have "?part (rev e @ CHR '':'' # rev s) = ?part (rev e' @ CHR '':'' # rev s')"
    using arg_cong [OF assms(1), of "\<lambda>x. ?part (rev x)"] by simp
  then have "?part (rev e) = ?part (rev e')" by (simp add: takeWhile_tail)
  moreover have "?part (rev e) = rev e" "?part (rev e') = rev e'"
    using assms(2,3) by (auto simp: takeWhile_eq_all_conv)
  ultimately show ?thesis by simp
qed

lemma limited_endpoint: "rate_config limits e = Some rc \<Longrightarrow> CHR '':'' \<notin> set e"
  by (auto simp: rate_config_def split: if_splits)

lemma ip_key_endpoint: "rate_config limits e = Some rc \<Longrightarrow> rate_config limits e' = Some rc' \<Longrightarrow>
    ip_key ip e = ip_key ip' e' \<Longrightarrow> e = e'"
  using last_part [of "str_replace ''{endpoint}'' e ip" e "str_replace ''{endpoint}'' e' ip'" e']
  by (simp add: ip_key_text limited_endpoint)

subsection \<open>One check of a bucket\<close>

lemma reading_mono: "mono (mk_clock m) \<Longrightarrow> mk_clock m' = mk_clock m \<Longrightarrow> mk_draws m \<le> mk_draws m' \<Longrightarrow>
    reading m \<le> reading m'"
  by (simp add: reading_def monoD)

text \<open>An operation only moves the clock on, and leaves the entries of all keys but \<open>k\<close>.\<close>

definition touches :: "string \<Rightarrow> memory_kv \<Rightarrow> memory_kv \<Rightarrow> bool" where
  "touches k m m' \<longleftrightarrow> mk_clock m' = mk_clock m \<and> mk_draws m \<le> mk_draws m'
     \<and> (\<forall>k'. k' \<noteq> k \<longrightarrow> mk_data m' k' = mk_data m k')"

lemma touches_trans: "touches k a b \<Longrightarrow> touches k b c \<Longrightarrow> touches k a c"
  by (simp add: touches_def)

lemma memory_touches:
  "touches k m (snd (memory_set k v ttl m))" "touches k m (snd (memory_get k m))"
  "touches k m (snd (memory_del k m))" "touches k m (snd (memory_getdel k m))"
  "touches k m (snd (memory_incr k m))" "touches k m (snd (memory_expire k n m))"
  by (auto simp: touches_def memory_set_def memory_get_def memory_del_def memory_getdel_def memory_incr_def
      memory_expire_def is_expired_eq entry_new_def current_count_def seconds_left_def Let_def
      split: option.splits if_splits prod.splits)

lemma check_bucket_touches: "touches k m (snd (check_bucket memory_ops k cfg m))"
proof -
  have "touches k m (snd (memory_expire k (bc_window_secs cfg) (snd (memory_incr k m))))"
    using memory_touches(5) memory_touches(6) by (rule touches_trans)
  then show ?thesis
    using memory_touches(5) [of k m]
    by (auto simp: check_bucket_def st_then_def st_simps split: sum.splits prod.splits) 
qed

lemma memory_incr_data:
  assumes "mk_data m k = None \<or> (\<exists>e. mk_data m k = Some e \<and> expired_at (reading m) e)"
  shows "\<exists>d \<ge> mk_draws m. memory_incr k m = (Inr 1, m\<lparr>mk_draws := d,
      mk_data := (mk_data m)(k \<mapsto> \<lparr>en_value = ''1'', en_expires = None\<rparr>)\<rparr>)"
proof -
  have one: "wrap_i64 1 = 1" "show_int 1 = ''1''" by (simp_all add: wrap_i64_def show_int_def show_nat.simps char_of_def bit_iff_odd)
  note run = memory_incr_def current_count_def is_expired_eq seconds_left_def entry_new_def one
  from assms show ?thesis
  proof
    assume "mk_data m k = None"
    then show ?thesis by (intro exI [of _ "mk_draws m"]) (simp add: run)
  next
    assume "\<exists>e. mk_data m k = Some e \<and> expired_at (reading m) e"
    then obtain e where "mk_data m k = Some e" "expired_at (reading m) e" "en_expires e \<noteq> None"
      by (auto simp: expired_at_def split: option.splits)
    then show ?thesis by (intro exI [of _ "mk_draws m + 1"]) (simp add: run)
  qed
qed

lemma bucket_first:
  assumes "mk_data m k = None \<or> (\<exists>e. mk_data m k = Some e \<and> expired_at (reading m) e)"
    and "mono (mk_clock m)"
  shows "\<exists>x m'. check_bucket memory_ops k cfg m = (Inr (bucket_result cfg 1), m')
    \<and> mk_data m' k = Some \<lparr>en_value = ''1'', en_expires = Some x\<rparr> \<and> reading m + from_secs (bc_window_secs cfg) \<le> x"
proof -
  from memory_incr_data [OF assms(1)] obtain d where d: "mk_draws m \<le> d" "memory_incr k m = (Inr 1, m\<lparr>mk_draws := d,
      mk_data := (mk_data m)(k \<mapsto> \<lparr>en_value = ''1'', en_expires = None\<rparr>)\<rparr>)" by blast
  have "reading m \<le> mk_clock m d" using d(1) assms(2) by (simp add: reading_def monoD)
  then show ?thesis
    by (simp add: check_bucket_def st_then_def d(2) memory_expire_def is_expired_eq expired_at_def st_simps reading_def)
qed

lemma bucket_next:
  assumes "mk_data m k = Some \<lparr>en_value = show_int n, en_expires = Some x\<rparr>" "reading m \<le> x"
    and "1 \<le> n" "n < i64_max"
  shows "\<exists>m'. check_bucket memory_ops k cfg m = (Inr (bucket_result cfg (n + 1)), m')
    \<and> mk_data m' k = Some \<lparr>en_value = show_int (n + 1), en_expires = Some x\<rparr>"
proof -
  have "in_i64 n" "in_i64 (n + 1)" using assms(3,4) by (auto simp: in_i64_def i64_min_def)
  then have "\<exists>m'. memory_incr k m = (Inr (n + 1), m')
      \<and> mk_data m' k = Some \<lparr>en_value = show_int (n + 1), en_expires = Some x\<rparr>"
    using assms by (simp add: memory_incr_def current_count_def is_expired_eq expired_at_def seconds_left_def
        entry_new_def parse_show wrap_i64_id Let_def)
  with assms(3) show ?thesis by (auto simp: check_bucket_def st_then_def st_simps)
qed

subsection \<open>The history of a bucket\<close>

text \<open>A history lists the checks of one key with their times and answers; \<open>hits\<close> counts what was
  allowed in an interval.\<close>

definition hits :: "(int \<times> bool) list \<Rightarrow> int \<Rightarrow> int \<Rightarrow> nat" where
  "hits h a b = length (filter (\<lambda>(t, ok). ok \<and> a \<le> t \<and> t \<le> b) h)"

definition hits_from :: "(int \<times> bool) list \<Rightarrow> int \<Rightarrow> nat" where
  "hits_from h a = length (filter (\<lambda>(t, ok). ok \<and> a \<le> t) h)"

definition admitted :: "(int \<times> bool) list \<Rightarrow> nat" where
  "admitted h = length (filter snd h)"

lemma hits_append [simp]: "hits (h @ h') a b = hits h a b + hits h' a b"
  "hits_from (h @ h') a = hits_from h a + hits_from h' a" "admitted (h @ h') = admitted h + admitted h'"
  by (simp_all add: hits_def hits_from_def admitted_def)

lemma hits_le: "hits h a b \<le> hits_from h a" "hits_from h a \<le> admitted h" "hits h a b \<le> admitted h"
  unfolding hits_def hits_from_def admitted_def by (induction h) auto

lemma hits_outside: "\<forall>(t, ok) \<in> set h. b < t \<Longrightarrow> hits h a b = 0"
  "\<forall>(t, ok) \<in> set h. t < a \<Longrightarrow> hits_from h a = 0"
  unfolding hits_def hits_from_def by (induction h) auto

lemma hits_from_mono: "a \<le> b \<Longrightarrow> hits_from h b \<le> hits_from h a"
  unfolding hits_from_def by (induction h) auto

text \<open>The current window starts at \<open>start\<close>; earlier checks are in \<open>past\<close>, those of the window in \<open>now\<close>.\<close>

definition in_window :: "int \<Rightarrow> nat \<Rightarrow> string \<Rightarrow> (int \<times> bool) list \<Rightarrow> (int \<times> bool) list \<Rightarrow> int \<Rightarrow> int \<Rightarrow> memory_kv \<Rightarrow> bool" where
  "in_window w cap k past now start x m \<longleftrightarrow>
     (\<forall>(t, ok) \<in> set past. t \<le> start) \<and> (\<forall>(t, ok) \<in> set now. start \<le> t) \<and> now \<noteq> []
   \<and> admitted now = min (length now) cap
   \<and> (\<forall>a. hits past a (a + w) \<le> 2 * cap) \<and> hits_from past (start - w) \<le> cap
   \<and> start + w \<le> x \<and> (\<forall>(t, ok) \<in> set now. t \<le> reading m)
   \<and> (mk_data m k = Some \<lparr>en_value = show_int (int (length now)), en_expires = Some x\<rparr>
      \<or> mk_data m k = None \<and> x < reading m)"

definition bucket_inv :: "int \<Rightarrow> nat \<Rightarrow> string \<Rightarrow> (int \<times> bool) list \<Rightarrow> memory_kv \<Rightarrow> bool" where
  "bucket_inv w cap k h m \<longleftrightarrow>
     h = [] \<and> mk_data m k = None \<or> (\<exists>past now start x. h = past @ now \<and> in_window w cap k past now start x m)"

lemma bucket_bound:
  assumes "bucket_inv w cap k h m"
  shows "hits h a (a + w) \<le> 2 * cap"
proof -
  consider "h = []" | past now start x where "h = past @ now" "in_window w cap k past now start x m"
    using assms unfolding bucket_inv_def by blast
  then show ?thesis
  proof cases
    case 1
    then show ?thesis by (simp add: hits_def)
  next
    case (2 past now start x)
    show ?thesis
    proof (cases "a + w < start")
      case True
      then have "hits now a (a + w) = 0" using 2(2) by (intro hits_outside) (auto simp: in_window_def)
      with 2 show ?thesis by (simp add: in_window_def)
    next
      case False
      then have "hits_from past a \<le> hits_from past (start - w)" by (intro hits_from_mono) simp
      with hits_le(1) [of past a "a + w"] hits_le(3) [of "now" a "a + w"] 2 show ?thesis
        by (auto simp: in_window_def)
    qed
  qed
qed

lemma hits_single [simp]: "admitted [(t, ok)] = (if ok then 1 else 0)" by (simp add: admitted_def)

lemma bucket_allows:
  "rr_allowed (bucket_result cfg (int n + 1)) \<longleftrightarrow> n < unat (bc_capacity cfg)"
  "rr_allowed (bucket_result cfg 1) \<longleftrightarrow> 0 < unat (bc_capacity cfg)"
  unfolding bucket_result_def Let_def rate_limit_result.simps uint_nat by linarith+

text \<open>A check continues the current window or opens a new one.\<close>

lemma window_continues:
  assumes win: "in_window (from_secs (bc_window_secs cfg)) (unat (bc_capacity cfg)) k past now start x m"
    and entry: "mk_data m k = Some \<lparr>en_value = show_int (int (length now)), en_expires = Some x\<rparr>" "reading m \<le> x"
    and small: "int (length now) < i64_max"
    and run: "check_bucket memory_ops k cfg m = (Inr r, m')" and clock: "mono (mk_clock m)"
  shows "in_window (from_secs (bc_window_secs cfg)) (unat (bc_capacity cfg)) k past
    (now @ [(reading m, rr_allowed r)]) start x m'"
proof -
  have "now \<noteq> []" and before: "\<forall>(t, ok) \<in> set now. start \<le> t \<and> t \<le> reading m" using win by (auto simp: in_window_def)
  then obtain t0 ok0 where "(t0, ok0) \<in> set now" by (cases now) auto
  with before have start: "start \<le> reading m" by fastforce
  have "1 \<le> int (length now)" using \<open>now \<noteq> []\<close> by (cases now) auto
  from bucket_next [OF entry this small, of cfg] run
  have r: "r = bucket_result cfg (int (length now) + 1)"
      "mk_data m' k = Some \<lparr>en_value = show_int (int (length now) + 1), en_expires = Some x\<rparr>" by auto
  from check_bucket_touches [of k m cfg] run have "reading m \<le> reading m'"
    using reading_mono [OF clock, of m'] by (simp add: touches_def)
  then have "\<forall>(t, ok) \<in> set (now @ [(reading m, rr_allowed r)]). start \<le> t \<and> t \<le> reading m'"
    using before start by fastforce
  moreover have "admitted (now @ [(reading m, rr_allowed r)]) = min (length now + 1) (unat (bc_capacity cfg))"
    using win by (auto simp: in_window_def r(1) bucket_allows)
  ultimately show ?thesis using win r(2) by (auto simp: in_window_def add.commute)
qed

lemma window_opens:
  assumes past: "\<forall>(t, ok) \<in> set past. t \<le> reading m"
    and bound: "\<forall>a. hits past a (a + from_secs (bc_window_secs cfg)) \<le> 2 * unat (bc_capacity cfg)"
      "hits_from past (reading m - from_secs (bc_window_secs cfg)) \<le> unat (bc_capacity cfg)"
    and gone: "mk_data m k = None \<or> (\<exists>e. mk_data m k = Some e \<and> expired_at (reading m) e)"
    and run: "check_bucket memory_ops k cfg m = (Inr r, m')" and clock: "mono (mk_clock m)"
  shows "\<exists>x. in_window (from_secs (bc_window_secs cfg)) (unat (bc_capacity cfg)) k past
    [(reading m, rr_allowed r)] (reading m) x m'"
proof -
  from bucket_first [OF gone clock, of cfg] run obtain x where r: "r = bucket_result cfg 1"
      "mk_data m' k = Some \<lparr>en_value = ''1'', en_expires = Some x\<rparr>" "reading m + from_secs (bc_window_secs cfg) \<le> x"
    by auto
  from check_bucket_touches [of k m cfg] run have "reading m \<le> reading m'"
    using reading_mono [OF clock, of m'] by (simp add: touches_def)
  moreover have "show_int 1 = ''1''" by (simp add: show_int_def show_nat.simps char_of_def bit_iff_odd)
  moreover have "admitted [(reading m, rr_allowed r)] = min 1 (unat (bc_capacity cfg))"
    unfolding r(1) hits_single bucket_allows(2) by (simp add: min_def)
  ultimately show ?thesis using past bound r by (intro exI [of _ x]) (auto simp: in_window_def)
qed

lemma bucket_check_inv:
  assumes inv: "bucket_inv (from_secs (bc_window_secs cfg)) (unat (bc_capacity cfg)) k h m"
    and small: "int (length h) < i64_max"
    and run: "check_bucket memory_ops k cfg m = (Inr r, m')" and clock: "mono (mk_clock m)"
  shows "bucket_inv (from_secs (bc_window_secs cfg)) (unat (bc_capacity cfg)) k (h @ [(reading m, rr_allowed r)]) m'"
  using inv unfolding bucket_inv_def
proof (elim disjE exE conjE)
  assume "h = []" "mk_data m k = None"
  from window_opens [of "[]" m cfg k r m', OF _ _ _ _ run clock] this
  have "\<exists>x. in_window (from_secs (bc_window_secs cfg)) (unat (bc_capacity cfg)) k []
      [(reading m, rr_allowed r)] (reading m) x m'" by (simp add: hits_def hits_from_def)
  with \<open>h = []\<close> show "h @ [(reading m, rr_allowed r)] = [] \<and> mk_data m' k = None \<or>
      (\<exists>past now start x. h @ [(reading m, rr_allowed r)] = past @ now
        \<and> in_window (from_secs (bc_window_secs cfg)) (unat (bc_capacity cfg)) k past now start x m')" by auto
next
  let ?w = "from_secs (bc_window_secs cfg)" and ?cap = "unat (bc_capacity cfg)"
  fix past now start x assume h: "h = past @ now" and win: "in_window ?w ?cap k past now start x m"
  have "\<exists>past' now' start' x'. h @ [(reading m, rr_allowed r)] = past' @ now' \<and> in_window ?w ?cap k past' now' start' x' m'"
  proof (cases "mk_data m k \<noteq> None \<and> reading m \<le> x")
    case True
    with win have "mk_data m k = Some \<lparr>en_value = show_int (int (length now)), en_expires = Some x\<rparr>"
      by (auto simp: in_window_def)
    from window_continues [OF win this _ _ run clock] True small h show ?thesis by (metis append.assoc conjunct2 le_add2 length_append of_nat_mono order_le_less_trans)
  next
    case False
    then have late: "x < reading m" and gone: "mk_data m k = None \<or> (\<exists>e. mk_data m k = Some e \<and> expired_at (reading m) e)"
      using win by (auto simp: in_window_def expired_at_def)
    have start: "start + ?w \<le> x" using win by (simp add: in_window_def)
    have "0 \<le> ?w" by (simp add: from_secs_def)
    with late start have "start \<le> reading m" by linarith
    then have all: "\<forall>(t, ok) \<in> set h. t \<le> reading m" using win h by (fastforce simp: in_window_def)
    have "hits_from past (reading m - ?w) = 0"
      using win late start by (intro hits_outside(2)) (fastforce simp: in_window_def)
    then have "hits_from h (reading m - ?w) \<le> ?cap"
      using hits_le(2) [of now "reading m - ?w"] win h by (simp add: in_window_def)
    moreover have "\<forall>a. hits h a (a + ?w) \<le> 2 * ?cap" using bucket_bound [OF inv] by blast
    ultimately show ?thesis using window_opens [OF all _ _ gone run clock] by blast
  qed
  then show "h @ [(reading m, rr_allowed r)] = [] \<and> mk_data m' k = None \<or>
      (\<exists>past now start x. h @ [(reading m, rr_allowed r)] = past @ now \<and> in_window ?w ?cap k past now start x m')" by blast
qed

text \<open>Whatever else happens to the store, as long as it only drops the bucket's entry once it is expired.\<close>

definition drops_late :: "string \<Rightarrow> memory_kv \<Rightarrow> memory_kv \<Rightarrow> bool" where
  "drops_late k m m' \<longleftrightarrow> mk_clock m' = mk_clock m \<and> mk_draws m \<le> mk_draws m'
     \<and> (mk_data m' k = mk_data m k
       \<or> mk_data m' k = None \<and> (\<exists>e. mk_data m k = Some e \<and> expired_at (reading m') e))"

lemma touches_other: "touches k m m' \<Longrightarrow> k \<noteq> k' \<Longrightarrow> drops_late k' m m'"
  by (auto simp: touches_def drops_late_def)

lemma drops_late_refl [simp]: "drops_late k m m"
  by (simp add: drops_late_def)

lemma drops_late_trans:
  assumes "mono (mk_clock a)" "drops_late k a b" "drops_late k b c"
  shows "drops_late k a c"
proof -
  have "reading b \<le> reading c" using assms by (intro reading_mono) (auto simp: drops_late_def)
  with assms show ?thesis by (auto simp: drops_late_def dest: expired_later) metis+
qed

lemma sweep_drops_late: "mono (mk_clock m) \<Longrightarrow> drops_late k m (sweep_expired ks m)"
proof (induction ks arbitrary: m)
  case Nil
  then show ?case by (simp add: sweep_expired_def)
next
  case (Cons k' ks)
  have "drops_late k m (sweep_key k' m)"
  proof -
    have "mk_clock m (mk_draws m) \<le> mk_clock m (Suc (mk_draws m))" using Cons.prems by (simp add: monoD)
    then show ?thesis
      by (auto simp: sweep_key_def is_expired_eq drops_late_def reading_def expired_at_def split: option.splits)
  qed
  moreover have "drops_late k (sweep_key k' m) (sweep_expired ks (sweep_key k' m))"
    using Cons.IH [of "sweep_key k' m"] Cons.prems by simp
  moreover have "sweep_expired (k' # ks) m = sweep_expired ks (sweep_key k' m)" by (simp add: sweep_expired_def)
  ultimately show ?case using drops_late_trans [OF Cons.prems] by simp
qed

lemma bucket_inv_kept:
  assumes "bucket_inv w cap k h m" "drops_late k m m'" "mono (mk_clock m)"
  shows "bucket_inv w cap k h m'"
proof -
  have late: "reading m \<le> reading m'" using assms by (intro reading_mono) (auto simp: drops_late_def)
  have win: "in_window w cap k past now start x m'" if "in_window w cap k past now start x m" for past now start x
    using that assms(2) late by (fastforce simp: in_window_def drops_late_def expired_at_def)
  have none: "mk_data m' k = None" if "mk_data m k = None" using that assms(2) by (auto simp: drops_late_def)
  from assms(1) show ?thesis
    unfolding bucket_inv_def
  proof (elim disjE exE conjE)
    fix past now start x assume "h = past @ now" "in_window w cap k past now start x m"
    with win [of past now start x] show "h = [] \<and> mk_data m' k = None \<or>
      (\<exists>past now start x. h = past @ now \<and> in_window w cap k past now start x m')" by iprover
  qed (simp add: none)
qed

subsection \<open>The limiter in a running system\<close>

datatype limiter_action =
    Request string string "string option"
  | Sweep "string list"
  | OtherSet string string "64 word option"
  | OtherGet string
  | OtherDel string
  | OtherGetdel string

definition limiter_step :: "rate_limit_constants \<Rightarrow> limiter_action \<Rightarrow> memory_kv
    \<Rightarrow> (string \<times> string \<times> int \<times> bool) list \<times> memory_kv" where
  "limiter_step limits act m =
     (case act of
        Request ip e user \<Rightarrow>
          (case check_rate_limit limits memory_ops ip e user m of
             (Inl _, m') \<Rightarrow> ([], m')
           | (Inr r, m') \<Rightarrow> ([(ip, e, reading m, rr_allowed r)], m'))
      | Sweep order \<Rightarrow> ([], sweep_expired order m)
      | OtherSet k v ttl \<Rightarrow> ([], snd (memory_set k v ttl m))
      | OtherGet k \<Rightarrow> ([], snd (memory_get k m))
      | OtherDel k \<Rightarrow> ([], snd (memory_del k m))
      | OtherGetdel k \<Rightarrow> ([], snd (memory_getdel k m)))"

fun run_limiter :: "rate_limit_constants \<Rightarrow> limiter_action list \<Rightarrow> memory_kv
    \<Rightarrow> (string \<times> string \<times> int \<times> bool) list \<times> memory_kv" where
  "run_limiter limits [] m = ([], m)"
| "run_limiter limits (act # acts) m =
     (let (t, m1) = limiter_step limits act m; (ts, m2) = run_limiter limits acts m1 in (t @ ts, m2))"

fun foreign :: "limiter_action \<Rightarrow> bool" where
  "foreign (OtherSet k _ _) = (take 10 k \<noteq> ''ratelimit:'')"
| "foreign (OtherGet k) = (take 10 k \<noteq> ''ratelimit:'')"
| "foreign (OtherDel k) = (take 10 k \<noteq> ''ratelimit:'')"
| "foreign (OtherGetdel k) = (take 10 k \<noteq> ''ratelimit:'')"
| "foreign _ = True"

definition granted :: "string \<Rightarrow> string \<Rightarrow> int \<Rightarrow> int \<Rightarrow> (string \<times> string \<times> int \<times> bool) list \<Rightarrow> nat" where
  "granted ip e a b trace = length (filter (\<lambda>(i, ep, t, ok). i = ip \<and> ep = e \<and> ok \<and> a \<le> t \<and> t \<le> b) trace)"

lemma granted_append [simp]: "granted ip e a b [] = 0"
  "granted ip e a b (t @ ts) = granted ip e a b t + granted ip e a b ts"
  by (simp_all add: granted_def)

lemma check_bucket_ok: "\<exists>r m'. check_bucket memory_ops k cfg m = (Inr r, m')"
proof -
  obtain n m1 where incr: "memory_incr k m = (Inr n, m1)" using memory_incr_alive(1) by (metis prod.collapse)
  moreover obtain m2 where "memory_expire k (bc_window_secs cfg) m1 = (Inr (), m2)"
    using memory_expire_alive(1) by (metis prod.collapse)
  ultimately show ?thesis by (simp add: check_bucket_def st_then_def st_simps)
qed

text \<open>A request checks the address's bucket first, and then at most one bucket of another key.\<close>

lemma request_checks:
  assumes "rate_config limits e = Some rc"
  shows "\<exists>r m1 r' m'. check_bucket memory_ops (ip_key ip e)
      \<lparr>bc_capacity = rc_ip_capacity rc, bc_window_secs = rc_window_seconds rc\<rparr> m = (Inr r, m1)
    \<and> check_rate_limit limits memory_ops ip e user m = (Inr r', m')
    \<and> (m' = m1 \<or> (\<exists>uid. touches (user_key uid e) m1 m')) \<and> (rr_allowed r' \<longrightarrow> rr_allowed r)"
proof -
  let ?cfg = "\<lparr>bc_capacity = rc_ip_capacity rc, bc_window_secs = rc_window_seconds rc\<rparr>"
  let ?ucfg = "\<lparr>bc_capacity = rc_user_capacity rc, bc_window_secs = rc_window_seconds rc\<rparr>"
  obtain r m1 where ip: "check_bucket memory_ops (ip_key ip e) ?cfg m = (Inr r, m1)" using check_bucket_ok by blast
  show ?thesis
  proof (cases "rr_allowed r \<and> user \<noteq> None")
    case False
    then show ?thesis
      using assms ip by (auto simp: check_rate_limit_def st_then_def st_simps split: option.splits)
  next
    case True
    then obtain uid where user: "user = Some uid" by blast
    obtain r2 m2 where by_user: "check_bucket memory_ops (user_key uid e) ?ucfg m1 = (Inr r2, m2)" using check_bucket_ok by blast
    have "touches (user_key uid e) m1 m2" using check_bucket_touches [of "user_key uid e" m1 ?ucfg] by_user by simp
    moreover have "\<exists>r'. check_rate_limit limits memory_ops ip e user m = (Inr r', m2)"
      using True assms ip user by_user
      by (cases "rr_allowed r2") (auto simp: check_rate_limit_def st_then_def st_simps)
    ultimately show ?thesis using ip True by blast
  qed
qed

text \<open>What one action adds to the history of the bucket of an address and endpoint.\<close>

lemma limiter_step_history:
  assumes rc: "rate_config limits e = Some rc" and clock: "mono (mk_clock m)" and own: "foreign act"
    and inv: "bucket_inv (from_secs (rc_window_seconds rc)) (unat (rc_ip_capacity rc)) (ip_key ip e) h m"
    and small: "int (length h) < i64_max" and step: "limiter_step limits act m = (ts, m')"
  shows "\<exists>h'. length h' \<le> 1 \<and> mk_clock m' = mk_clock m
    \<and> bucket_inv (from_secs (rc_window_seconds rc)) (unat (rc_ip_capacity rc)) (ip_key ip e) (h @ h') m'
    \<and> (\<forall>a b. granted ip e a b ts \<le> hits h' a b)"
proof -
  let ?w = "from_secs (rc_window_seconds rc)" and ?cap = "unat (rc_ip_capacity rc)" and ?k = "ip_key ip e"
  have quiet: ?thesis if "drops_late ?k m m'" "\<And>a b. granted ip e a b ts = 0"
    using that bucket_inv_kept [OF inv that(1) clock] by (intro exI [of _ "[]"]) (simp add: drops_late_def)
  have limiter: "take 10 ?k = ''ratelimit:''" by (simp add: ip_key_text)
  have other: ?thesis if "touches k m m'" "k \<noteq> ?k" "ts = []" for k
    using quiet [OF touches_other [OF that(1,2)]] that(3) by simp
  show ?thesis
  proof (cases act)
    case (Request ip' e' user)
    show ?thesis
    proof (cases "rate_config limits e'")
      case None
      with step rc show ?thesis
        by (intro quiet) (auto simp: Request limiter_step_def check_rate_limit_def st_simps granted_def)
    next
      case (Some rc')
      let ?cfg = "\<lparr>bc_capacity = rc_ip_capacity rc', bc_window_secs = rc_window_seconds rc'\<rparr>"
      from request_checks [OF Some, of ip' m user] obtain r m1 r' m2 where
          checks: "check_bucket memory_ops (ip_key ip' e') ?cfg m = (Inr r, m1)"
            "check_rate_limit limits memory_ops ip' e' user m = (Inr r', m2)"
            "m2 = m1 \<or> (\<exists>uid. touches (user_key uid e') m1 m2)" "rr_allowed r' \<longrightarrow> rr_allowed r" by blast
      from step checks(2) have ts: "ts = [(ip', e', reading m, rr_allowed r')]" "m' = m2"
        by (auto simp: Request limiter_step_def)
      have tb: "touches (ip_key ip' e') m m1" using check_bucket_touches [of "ip_key ip' e'" m ?cfg] checks(1) by simp
      have later: "drops_late ?k m1 m2" using checks(3) touches_other keys_differ by (metis drops_late_refl)
      have clock1: "mono (mk_clock m1)" using tb clock by (simp add: touches_def)
      show ?thesis
      proof (cases "ip_key ip' e' = ?k")
        case False
        then have "\<not> (ip' = ip \<and> e' = e)" by blast
        with drops_late_trans [OF clock touches_other [OF tb False] later] show ?thesis
          by (intro quiet) (auto simp: ts granted_def)
      next
        case True
        with ip_key_endpoint [OF Some rc] have "e' = e" by blast
        with Some rc have "rc' = rc" by simp
        with checks(1) True have run: "check_bucket memory_ops ?k
          \<lparr>bc_capacity = rc_ip_capacity rc, bc_window_secs = rc_window_seconds rc\<rparr> m = (Inr r, m1)" by simp
        from bucket_check_inv [OF _ small run clock] inv
        have "bucket_inv ?w ?cap ?k (h @ [(reading m, rr_allowed r)]) m1" by simp
        from bucket_inv_kept [OF this later clock1] tb later checks(4) show ?thesis
          by (intro exI [of _ "[(reading m, rr_allowed r)]"])
            (auto simp: ts granted_def hits_def touches_def drops_late_def)
      qed
    qed
  next
    case (Sweep ks)
    with step show ?thesis using sweep_drops_late [OF clock] by (intro quiet) (auto simp: limiter_step_def)
  next
    case (OtherSet k v ttl)
    with step own limiter show ?thesis
      by (intro other [of k]) (auto simp: limiter_step_def memory_touches)
  next
    case (OtherGet k)
    with step own limiter show ?thesis by (intro other [of k]) (auto simp: limiter_step_def memory_touches)
  next
    case (OtherDel k)
    with step own limiter show ?thesis by (intro other [of k]) (auto simp: limiter_step_def memory_touches)
  next
    case (OtherGetdel k)
    with step own limiter show ?thesis by (intro other [of k]) (auto simp: limiter_step_def memory_touches)
  qed
qed

lemma run_limiter_history:
  assumes "rate_config limits e = Some rc" "mono (mk_clock m)" "list_all foreign acts"
    and "bucket_inv (from_secs (rc_window_seconds rc)) (unat (rc_ip_capacity rc)) (ip_key ip e) h m"
    and "int (length h + length acts) < i64_max" "run_limiter limits acts m = (ts, m')"
  shows "\<exists>h'. bucket_inv (from_secs (rc_window_seconds rc)) (unat (rc_ip_capacity rc)) (ip_key ip e) (h @ h') m'
    \<and> (\<forall>a b. granted ip e a b ts \<le> hits h' a b)"
  using assms(2-)
proof (induction acts arbitrary: h m ts)
  case Nil
  then show ?case by (intro exI [of _ "[]"]) (simp add: hits_def)
next
  case (Cons act acts)
  obtain ts1 m1 ts2 where run: "limiter_step limits act m = (ts1, m1)" "run_limiter limits acts m1 = (ts2, m')" "ts = ts1 @ ts2"
    using Cons.prems(5) by (auto split: prod.splits)
  from limiter_step_history [OF assms(1) Cons.prems(1) _ Cons.prems(3) _ run(1)] Cons.prems(2,4)
  obtain h1 where h1: "length h1 \<le> 1" "mk_clock m1 = mk_clock m" "\<And>a b. granted ip e a b ts1 \<le> hits h1 a b"
      "bucket_inv (from_secs (rc_window_seconds rc)) (unat (rc_ip_capacity rc)) (ip_key ip e) (h @ h1) m1" by auto
  from Cons.IH [OF _ _ h1(4) _ run(2)] Cons.prems h1(1,2)
  obtain h2 where "bucket_inv (from_secs (rc_window_seconds rc)) (unat (rc_ip_capacity rc)) (ip_key ip e) ((h @ h1) @ h2) m'"
      "\<And>a b. granted ip e a b ts2 \<le> hits h2 a b" by auto
  with h1(3) run(3) show ?case by (intro exI [of _ "h1 @ h2"]) (auto intro: add_mono)
qed

subsection \<open>Properties\<close>

text \<open>C29: The rate limiter bounds what it lets through: from a fresh store, in whatever order requests of any
  address, endpoint and user, sweeps of expired entries and other uses of the store come, and
  however time passes, in every interval as long as the window at most twice the capacity of
  requests of one address to one endpoint are allowed (a window's worth on each side of a
  boundary).\<close>

theorem rate_limit_bounds:
  assumes "rate_config limits e = Some rc" "mono clock" "list_all foreign acts" "int (length acts) < i64_max"
  shows "granted ip e a (a + from_secs (rc_window_seconds rc)) (fst (run_limiter limits acts (new_pool clock)))
    \<le> 2 * unat (rc_ip_capacity rc)"
proof -
  obtain ts m' where run: "run_limiter limits acts (new_pool clock) = (ts, m')" by fastforce
  have "bucket_inv (from_secs (rc_window_seconds rc)) (unat (rc_ip_capacity rc)) (ip_key ip e) [] (new_pool clock)"
    by (simp add: bucket_inv_def new_pool_def)
  from run_limiter_history [OF assms(1) _ assms(3) this _ run] assms(2,4)
  obtain h where "bucket_inv (from_secs (rc_window_seconds rc)) (unat (rc_ip_capacity rc)) (ip_key ip e) h m'"
      "\<And>a b. granted ip e a b ts \<le> hits h a b" by (auto simp: new_pool_def)
  with bucket_bound show ?thesis unfolding run by (metis fst_conv order_trans)
qed

theorem rate_limit_bounds_witness:
  "granted ''1.2.3.4'' ''signup'' 0 (from_secs 3600)
     (fst (run_limiter RATE_LIMITS (replicate 20 (Request ''1.2.3.4'' ''signup'' None)) (new_pool (\<lambda>n. int n * 10 ^ 9)))) \<le> 10"
proof -
  have "mono (\<lambda>n. int n * 10 ^ 9)" by (simp add: mono_def)
  from rate_limit_bounds [of RATE_LIMITS "''signup''" "rl_register RATE_LIMITS" "\<lambda>n. int n * 10 ^ 9"
      "replicate 20 (Request ''1.2.3.4'' ''signup'' None)" "''1.2.3.4''" 0, OF _ this]
  show ?thesis by (simp add: rate_config_def RATE_LIMITS_def i64_max_def list_all_iff)
qed

text \<open>A run of checks of one bucket.\<close>

fun checks :: "bucket_config \<Rightarrow> string \<Rightarrow> nat \<Rightarrow> memory_kv \<Rightarrow> (app_error + rate_limit_result) list \<times> memory_kv" where
  "checks cfg k 0 m = ([], m)"
| "checks cfg k (Suc n) m =
     (let (r, m1) = check_bucket memory_ops k cfg m; (rs, m2) = checks cfg k n m1 in (r # rs, m2))"

lemma checks_Suc:
  "fst (checks cfg k (Suc n) m) = fst (check_bucket memory_ops k cfg m) # fst (checks cfg k n (snd (check_bucket memory_ops k cfg m)))"
  "snd (checks cfg k (Suc n) m) = snd (checks cfg k n (snd (check_bucket memory_ops k cfg m)))"
  by (simp_all add: Let_def split: prod.splits)

lemma checks_touches: "touches k m (snd (checks cfg k n m))"
proof (induction n arbitrary: m)
  case 0
  then show ?case by (simp add: touches_def)
next
  case (Suc n)
  show ?case unfolding checks_Suc using check_bucket_touches Suc by (rule touches_trans)
qed

lemma checks_from:
  assumes "mono (mk_clock m)" "mk_data m k = Some \<lparr>en_value = show_int (int j), en_expires = Some x\<rparr>" "1 \<le> j"
    and "reading (snd (checks cfg k n m)) \<le> x" "int (j + n) \<le> i64_max"
  shows "fst (checks cfg k n m) = map (\<lambda>i. Inr (bucket_result cfg (int i))) [Suc j ..< Suc j + n]"
  using assms
proof (induction n arbitrary: m j)
  case 0
  then show ?case by simp
next
  case (Suc n)
  have late: "reading m \<le> x"
    using reading_mono [OF Suc.prems(1)] checks_touches [of k m cfg "Suc n"] Suc.prems(4)
    by (meson order_trans touches_def)
  from bucket_next [OF Suc.prems(2) late, of cfg] Suc.prems(3,5) obtain m1 where
      run: "check_bucket memory_ops k cfg m = (Inr (bucket_result cfg (int (Suc j))), m1)"
        "mk_data m1 k = Some \<lparr>en_value = show_int (int (Suc j)), en_expires = Some x\<rparr>" by (auto simp: add.commute)
  have "mono (mk_clock m1)" using check_bucket_touches [of k m cfg] run(1) Suc.prems(1) by (simp add: touches_def)
  with Suc.IH [of m1 "Suc j"] Suc.prems(4,5) run
  have "fst (checks cfg k n m1) = map (\<lambda>i. Inr (bucket_result cfg (int i))) [Suc (Suc j) ..< Suc (Suc j) + n]"
    by (simp add: checks_Suc del: checks.simps upt_Suc)
  moreover have "[Suc j ..< Suc j + Suc n] = Suc j # [Suc (Suc j) ..< Suc (Suc j) + n]" by (simp add: upt_conv_Cons del: upt_Suc)
  ultimately show ?case by (simp add: run(1) checks_Suc del: checks.simps upt_Suc)
qed

text \<open>A first check that is cut off between its increment and its \<open>expire\<close> (the two are separate
  calls of the store) leaves a counter without expiry: no passing of time brings it back, and once
  the capacity is used up every later check is refused.\<close>

lemma bucket_stuck:
  assumes "mk_data m k = Some \<lparr>en_value = show_int (int n), en_expires = None\<rparr>" "1 \<le> n" "int n < i64_max"
  shows "\<exists>m'. check_bucket memory_ops k cfg m = (Inr (bucket_result cfg (int (Suc n))), m')
    \<and> mk_data m' k = Some \<lparr>en_value = show_int (int (Suc n)), en_expires = None\<rparr>"
proof -
  have "in_i64 (int n)" "in_i64 (int n + 1)" using assms(2,3) by (auto simp: in_i64_def i64_min_def)
  then have "\<exists>m'. memory_incr k m = (Inr (int n + 1), m')
      \<and> mk_data m' k = Some \<lparr>en_value = show_int (int n + 1), en_expires = None\<rparr>"
    using assms by (simp add: memory_incr_def current_count_def is_expired_eq expired_at_def seconds_left_def
        entry_new_def parse_show wrap_i64_id Let_def)
  with assms(2) show ?thesis by (auto simp: check_bucket_def st_then_def st_simps add.commute)
qed

lemma unfinished_check_locks_the_bucket:
  assumes "mk_data m k = Some \<lparr>en_value = show_int (int j), en_expires = None\<rparr>" "1 \<le> j"
    and "int (j + n) \<le> i64_max" "i < n" "unat (bc_capacity cfg) \<le> j"
  shows "\<exists>r. fst (checks cfg k n m) ! i = Inr r \<and> \<not> rr_allowed r"
  using assms
proof (induction n arbitrary: m j i)
  case (Suc n)
  from bucket_stuck [OF Suc.prems(1,2), of cfg] Suc.prems(3) obtain m1 where
      run: "check_bucket memory_ops k cfg m = (Inr (bucket_result cfg (int (Suc j))), m1)"
        "mk_data m1 k = Some \<lparr>en_value = show_int (int (Suc j)), en_expires = None\<rparr>" by auto
  show ?case
  proof (cases i)
    case 0
    have "\<not> rr_allowed (bucket_result cfg (int (Suc j)))"
      using bucket_allows(1) [of cfg j] Suc.prems(5) by (simp only: of_nat_Suc add.commute)
    with 0 show ?thesis by (simp add: checks_Suc run(1) del: checks.simps)
  next
    case (Suc i')
    with Suc.IH [OF run(2), of i'] Suc.prems show ?thesis by (simp add: checks_Suc run(1) del: checks.simps)
  qed
qed simp

lemma bucket_result_remaining:
  "int i \<le> i64_max \<Longrightarrow> unat (rr_remaining (bucket_result cfg (int i))) = unat (bc_capacity cfg) - i"
proof -
  assume "int i \<le> i64_max"
  moreover have cap: "uint (bc_capacity cfg) < 2 ^ 32" "0 \<le> uint (bc_capacity cfg)"
    using uint_lt2p [of "bc_capacity cfg"] by simp_all
  moreover have "i64_max = 9223372036854775807" "i64_min = -9223372036854775808" "(2::int) ^ 32 = 4294967296"
    by (simp_all add: i64_max_def i64_min_def)
  ultimately have "in_i64 (uint (bc_capacity cfg) - int i)" unfolding in_i64_def by linarith
  then have "rr_remaining (bucket_result cfg (int i)) = word_of_int (max (uint (bc_capacity cfg) - int i) 0)"
    by (simp add: bucket_result_def Let_def wrap_i64_id)
  moreover have "uint (word_of_int (max (uint (bc_capacity cfg) - int i) 0) :: 32 word) = max (uint (bc_capacity cfg) - int i) 0"
    using cap by (simp add: word_of_int_inverse)
  ultimately have "uint (rr_remaining (bucket_result cfg (int i))) = max (uint (bc_capacity cfg) - int i) 0" by simp
  then have "int (unat (rr_remaining (bucket_result cfg (int i)))) = max (int (unat (bc_capacity cfg)) - int i) 0"
    by (simp only: uint_nat)
  then show ?thesis by linarith
qed

lemma bucket_result_retry: "rr_retry_after (bucket_result cfg c) = (if rr_allowed (bucket_result cfg c) then 0 else bc_window_secs cfg)"
  by (simp add: bucket_result_def Let_def)

text \<open>Within one window the limiter is exact: the checks of an unused bucket that all fall into the
  window that the first one opens succeed as long as the capacity lasts and are refused from then
  on, each answer says how many are left, and a refusal says to wait for a window.\<close>

theorem bucket_exact:
  assumes "mono (mk_clock m)" "mk_data m k = None" "int n \<le> i64_max"
    and "reading (snd (checks cfg k n m)) \<le> reading m + from_secs (bc_window_secs cfg)" "i < n"
  shows "\<exists>r. fst (checks cfg k n m) ! i = Inr r
    \<and> (rr_allowed r \<longleftrightarrow> i < unat (bc_capacity cfg))
    \<and> unat (rr_remaining r) = unat (bc_capacity cfg) - Suc i
    \<and> rr_retry_after r = (if i < unat (bc_capacity cfg) then 0 else bc_window_secs cfg)"
proof -
  obtain n' where n: "n = Suc n'" using assms(5) by (cases n) auto
  from bucket_first [of m k cfg] assms(1,2) obtain x m1 where
      first: "check_bucket memory_ops k cfg m = (Inr (bucket_result cfg 1), m1)"
        "mk_data m1 k = Some \<lparr>en_value = ''1'', en_expires = Some x\<rparr>" "reading m + from_secs (bc_window_secs cfg) \<le> x"
    by auto
  have "mono (mk_clock m1)" using check_bucket_touches [of k m cfg] first(1) assms(1) by (simp add: touches_def)
  moreover have "show_int (int 1) = ''1''" by (simp add: show_int_def show_nat.simps char_of_def bit_iff_odd)
  moreover have "reading (snd (checks cfg k n' m1)) \<le> x"
    using assms(4) first(1,3) by (simp add: n checks_Suc del: checks.simps)
  ultimately have "fst (checks cfg k n' m1) = map (\<lambda>i. Inr (bucket_result cfg (int i))) [Suc 1 ..< Suc 1 + n']"
    using checks_from [of m1 k 1 x cfg n'] first(2) assms(3) by (simp add: n del: checks.simps upt_Suc)
  moreover have "[1 ..< Suc n] = 1 # [Suc 1 ..< Suc 1 + n']" by (simp add: n upt_conv_Cons del: upt_Suc)
  ultimately have "fst (checks cfg k n m) = map (\<lambda>i. Inr (bucket_result cfg (int i))) [1 ..< Suc n]"
    by (simp add: n first(1) checks_Suc del: checks.simps upt_Suc)
  then have "fst (checks cfg k n m) ! i = Inr (bucket_result cfg (int (Suc i)))" using assms(5) by (simp del: upt_Suc)
  moreover have "unat (rr_remaining (bucket_result cfg (int (Suc i)))) = unat (bc_capacity cfg) - Suc i"
    using assms(3,5) by (intro bucket_result_remaining) linarith
  moreover have allowed: "rr_allowed (bucket_result cfg (int (Suc i))) \<longleftrightarrow> i < unat (bc_capacity cfg)"
    using bucket_allows(1) [of cfg i] by (simp only: of_nat_Suc add.commute)
  moreover note bucket_result_retry [of cfg "int (Suc i)", unfolded allowed]
  ultimately show ?thesis by iprover
qed

theorem bucket_exact_witness:
  "\<exists>r. fst (checks \<lparr>bc_capacity = 5, bc_window_secs = 3600\<rparr> ''k'' 7 (new_pool (\<lambda>_. 0))) ! 5 = Inr r \<and> \<not> rr_allowed r"
proof -
  let ?m = "new_pool (\<lambda>_. 0)"
  have "mk_clock (snd (checks cfg k n ?m)) = mk_clock ?m" for cfg k n using checks_touches [of k ?m cfg n] by (simp add: touches_def)
  then have "reading (snd (checks cfg k n ?m)) = 0" for cfg k n by (simp add: reading_def new_pool_def)
  with bucket_exact [of ?m "''k''" 7 "\<lparr>bc_capacity = 5, bc_window_secs = 3600\<rparr>" 5] show ?thesis
    by (auto simp: new_pool_def mono_def i64_max_def reading_def from_secs_def)
qed

end
