(* ===== verification/One_Time_Tokens.thy ===== *)
theory One_Time_Tokens
  imports Rate_Limiter
begin

text \<open>
  The short-lived secrets of the login flows, \<open>crates/kyomi-auth/src/redis_ops.rs\<close>: OAuth states,
  pending signups and terms, WebAuthn challenges, TOTP enrolments and recovery sessions in the
  key-value store, and the purpose check of \<open>webauthn_challenge_purpose.rs\<close>. A \<open>slot\<close> names one
  such secret; the properties are about every slot at once.
\<close>

subsection \<open>Times to live\<close>

definition TTL_OAUTH_STATE :: "64 word" where "TTL_OAUTH_STATE = 300"
definition TTL_PENDING_SIGNUP :: "64 word" where "TTL_PENDING_SIGNUP = 3600"
definition TTL_TOTP_SETUP :: "64 word" where "TTL_TOTP_SETUP = 600"
definition TTL_WEBAUTHN_CHALLENGE :: "64 word" where "TTL_WEBAUTHN_CHALLENGE = 300"
definition TTL_RECOVERY_SESSION :: "64 word" where "TTL_RECOVERY_SESSION = 900"

subsection \<open>The operations\<close>

definition oauth_key :: "string \<Rightarrow> string \<Rightarrow> string" where
  "oauth_key provider state =
     str_replace ''{state}'' state (str_replace ''{provider}'' provider (kp_oauth_state KEY_PREFIXES))"

definition store_oauth_state where
  "store_oauth_state jt kv provider state data = kv_store_json jt kv (oauth_key provider state) data TTL_OAUTH_STATE"

definition verify_oauth_state where
  "verify_oauth_state jt kv provider state = kv_consume_json jt kv (oauth_key provider state)"

definition signup_key :: "string \<Rightarrow> string" where
  "signup_key token = str_replace ''{token}'' token (kp_pending_signup KEY_PREFIXES)"

definition store_pending_signup where
  "store_pending_signup jt kv token data = kv_store_json jt kv (signup_key token) data TTL_PENDING_SIGNUP"

definition get_pending_signup where
  "get_pending_signup jt kv token = kv_consume_json jt kv (signup_key token)"

definition terms_key :: "string \<Rightarrow> string" where
  "terms_key token = str_replace ''{token}'' token (kp_pending_terms KEY_PREFIXES)"

definition store_pending_terms where
  "store_pending_terms jt kv token data = kv_store_json jt kv (terms_key token) data TTL_PENDING_SIGNUP"

definition get_pending_terms where
  "get_pending_terms jt kv token = kv_consume_json jt kv (terms_key token)"

definition challenge_key :: "string \<Rightarrow> string" where
  "challenge_key cid = str_replace ''{challenge_id}'' cid (kp_webauthn_challenge KEY_PREFIXES)"

definition store_webauthn_challenge where
  "store_webauthn_challenge jt kv cid data = kv_store_json jt kv (challenge_key cid) data TTL_WEBAUTHN_CHALLENGE"

definition get_webauthn_challenge where
  "get_webauthn_challenge jt kv cid = kv_peek_json jt kv (challenge_key cid)"

definition delete_webauthn_challenge where
  "delete_webauthn_challenge kv cid = kv_del kv (challenge_key cid)"

definition totp_key :: "string \<Rightarrow> string" where
  "totp_key user = str_replace ''{user_id}'' user (kp_totp_setup KEY_PREFIXES)"

definition store_pending_totp where
  "store_pending_totp kv user secret = kv_set kv (totp_key user) secret (Some TTL_TOTP_SETUP)"

definition get_pending_totp where
  "get_pending_totp kv user = kv_getdel kv (totp_key user)"

definition recovery_key :: "string \<Rightarrow> string" where
  "recovery_key sid = str_replace ''{session_id}'' sid (kp_recovery_session KEY_PREFIXES)"

definition store_recovery_session where
  "store_recovery_session kv sid user = kv_set kv (recovery_key sid) user (Some TTL_RECOVERY_SESSION)"

definition peek_recovery_session where
  "peek_recovery_session kv sid = kv_get kv (recovery_key sid)"

definition delete_recovery_session where
  "delete_recovery_session kv sid = kv_del kv (recovery_key sid)"

definition get_recovery_session where
  "get_recovery_session kv sid = kv_getdel kv (recovery_key sid)"

lemmas token_ops = store_oauth_state_def verify_oauth_state_def store_pending_signup_def get_pending_signup_def
  store_pending_terms_def get_pending_terms_def store_webauthn_challenge_def get_webauthn_challenge_def
  delete_webauthn_challenge_def store_pending_totp_def get_pending_totp_def store_recovery_session_def
  peek_recovery_session_def delete_recovery_session_def get_recovery_session_def

subsection \<open>Purposes of WebAuthn challenges\<close>

definition PASSKEY_LOGIN :: string where "PASSKEY_LOGIN = ''passkey_login''"
definition PASSKEY_SIGNUP :: string where "PASSKEY_SIGNUP = ''passkey_signup''"
definition PASSKEY_RECOVERY :: string where "PASSKEY_RECOVERY = ''passkey_recovery''"
definition PASSKEY_ADD_DEVICE :: string where "PASSKEY_ADD_DEVICE = ''passkey_add_device''"

definition has_purpose :: "json \<Rightarrow> string list \<Rightarrow> bool" where
  "has_purpose challenge allowed =
     (case Option.bind (json_get ''purpose'' challenge) as_str of
        None \<Rightarrow> False
      | Some p \<Rightarrow> p \<in> set allowed)"

subsection \<open>Slots\<close>

datatype slot =
    OauthState string string
  | PendingSignup string
  | PendingTerms string
  | Challenge string
  | PendingTotp string
  | RecoverySession string

fun slot_key :: "slot \<Rightarrow> string" where
  "slot_key (OauthState p st) = oauth_key p st"
| "slot_key (PendingSignup t) = signup_key t"
| "slot_key (PendingTerms t) = terms_key t"
| "slot_key (Challenge c) = challenge_key c"
| "slot_key (PendingTotp u) = totp_key u"
| "slot_key (RecoverySession s) = recovery_key s"

fun slot_ttl :: "slot \<Rightarrow> 64 word" where
  "slot_ttl (OauthState _ _) = TTL_OAUTH_STATE"
| "slot_ttl (PendingSignup _) = TTL_PENDING_SIGNUP"
| "slot_ttl (PendingTerms _) = TTL_PENDING_SIGNUP"
| "slot_ttl (Challenge _) = TTL_WEBAUTHN_CHALLENGE"
| "slot_ttl (PendingTotp _) = TTL_TOTP_SETUP"
| "slot_ttl (RecoverySession _) = TTL_RECOVERY_SESSION"

text \<open>What the login flows ask of the store: a secret is stored, redeemed (read and deleted), peeked at
  or deleted; a plain string secret is a \<open>JString\<close> here.\<close>

definition plain_secret :: "(app_error + string option) \<times> 's \<Rightarrow> (app_error + json option) \<times> 's" where
  "plain_secret r = (case r of (Inl e, s) \<Rightarrow> (Inl e, s) | (Inr v, s) \<Rightarrow> (Inr (map_option JString v), s))"

datatype token_call =
    Store slot json
  | Redeem slot
  | Peek slot
  | Delete slot
  | Limit string string "string option"

fun redeem :: "json_text \<Rightarrow> 's kv_ops \<Rightarrow> slot \<Rightarrow> 's \<Rightarrow> (app_error + json option) \<times> 's" where
  "redeem jt kv (OauthState p st) s = verify_oauth_state jt kv p st s"
| "redeem jt kv (PendingSignup t) s = get_pending_signup jt kv t s"
| "redeem jt kv (PendingTerms t) s = get_pending_terms jt kv t s"
| "redeem jt kv (PendingTotp u) s = plain_secret (get_pending_totp kv u s)"
| "redeem jt kv (RecoverySession i) s = plain_secret (get_recovery_session kv i s)"
| "redeem jt kv (Challenge c) s = (Inr None, s)"

fun peek :: "json_text \<Rightarrow> 's kv_ops \<Rightarrow> slot \<Rightarrow> 's \<Rightarrow> (app_error + json option) \<times> 's" where
  "peek jt kv (Challenge c) s = get_webauthn_challenge jt kv c s"
| "peek jt kv (RecoverySession i) s = plain_secret (peek_recovery_session kv i s)"
| "peek jt kv _ s = (Inr None, s)"

fun store_secret :: "json_text \<Rightarrow> 's kv_ops \<Rightarrow> slot \<Rightarrow> json \<Rightarrow> 's \<Rightarrow> (app_error + unit) \<times> 's" where
  "store_secret jt kv (OauthState p st) v s = store_oauth_state jt kv p st v s"
| "store_secret jt kv (PendingSignup t) v s = store_pending_signup jt kv t v s"
| "store_secret jt kv (PendingTerms t) v s = store_pending_terms jt kv t v s"
| "store_secret jt kv (Challenge c) v s = store_webauthn_challenge jt kv c v s"
| "store_secret jt kv (PendingTotp u) v s =
     (case v of JString secret \<Rightarrow> store_pending_totp kv u secret s | _ \<Rightarrow> (Inr (), s))"
| "store_secret jt kv (RecoverySession i) v s =
     (case v of JString user \<Rightarrow> store_recovery_session kv i user s | _ \<Rightarrow> (Inr (), s))"

fun delete_secret :: "'s kv_ops \<Rightarrow> slot \<Rightarrow> 's \<Rightarrow> (app_error + unit) \<times> 's" where
  "delete_secret kv (Challenge c) s = delete_webauthn_challenge kv c s"
| "delete_secret kv (RecoverySession i) s = delete_recovery_session kv i s"
| "delete_secret kv _ s = (Inr (), s)"

definition token_effect :: "json_text \<Rightarrow> rate_limit_constants \<Rightarrow> 's kv_ops \<Rightarrow> token_call \<Rightarrow> 's \<Rightarrow> 's" where
  "token_effect jt limits kv call s =
     (case call of
        Store slot v \<Rightarrow> snd (store_secret jt kv slot v s)
      | Redeem slot \<Rightarrow> snd (redeem jt kv slot s)
      | Peek slot \<Rightarrow> snd (peek jt kv slot s)
      | Delete slot \<Rightarrow> snd (delete_secret kv slot s)
      | Limit ip e user \<Rightarrow> snd (check_rate_limit limits kv ip e user s))"

subsection \<open>Keys\<close>

definition plain :: "string \<Rightarrow> bool" where
  "plain s \<longleftrightarrow> CHR '':'' \<notin> set s \<and> CHR ''{'' \<notin> set s"

fun plain_slot :: "slot \<Rightarrow> bool" where
  "plain_slot (OauthState p _) = plain p"
| "plain_slot _ = True"

lemma oauth_key_text: "plain p \<Longrightarrow> oauth_key p st = ''oauth:'' @ p @ '':state:'' @ st"
proof -
  assume "plain p"
  have "str_replace ''{provider}'' p (kp_oauth_state KEY_PREFIXES) = ''oauth:'' @ p @ '':state:{state}''"
    by (simp add: KEY_PREFIXES_def)
  moreover have "str_replace ''{state}'' st (p @ '':state:{state}'') = p @ '':state:'' @ st"
    using \<open>plain p\<close> str_replace_tail [of "''{state}''" st p "''state:{state}''"]
      str_replace_none [of p "''state}''" st] by (simp add: plain_def)
  ultimately show ?thesis by (simp add: oauth_key_def)
qed

lemma key_texts:
  "signup_key t = ''auth:pending_signup:'' @ t" "terms_key t = ''auth:pending_terms:'' @ t"
  "challenge_key c = ''auth:webauthn_challenge:'' @ c" "totp_key u = ''auth:totp_setup:'' @ u"
  "recovery_key i = ''auth:recovery_session:'' @ i"
  by (simp_all add: signup_key_def terms_key_def challenge_key_def totp_key_def recovery_key_def KEY_PREFIXES_def)

lemma first_part:
  assumes "p @ CHR '':'' # s = p' @ CHR '':'' # s'" "CHR '':'' \<notin> set p" "CHR '':'' \<notin> set p'"
  shows "p = p' \<and> s = s'"
proof -
  have "takeWhile (\<lambda>c. c \<noteq> CHR '':'') (p @ CHR '':'' # s) = p" "takeWhile (\<lambda>c. c \<noteq> CHR '':'') (p' @ CHR '':'' # s') = p'"
    using assms(2,3) by (auto simp: takeWhile_tail takeWhile_eq_all_conv)
  with assms(1) have "p = p'" by simp
  with assms(1) show ?thesis by simp
qed

lemma oauth_key_inj:
  assumes "plain p" "plain p'" "oauth_key p s = oauth_key p' s'"
  shows "p = p' \<and> s = s'"
proof -
  have "p @ CHR '':'' # ''state:'' @ s = p' @ CHR '':'' # ''state:'' @ s'"
    using assms by (simp add: oauth_key_text)
  from first_part [OF this] assms(1,2) show ?thesis by (simp add: plain_def)
qed

lemma oauth_key_other: "plain p \<Longrightarrow> take 5 (oauth_key p s) = ''oauth''"
  by (simp add: oauth_key_text)

lemma other_keys:
  "take 5 (signup_key t) = ''auth:''" "take 5 (terms_key t) = ''auth:''" "take 5 (challenge_key t) = ''auth:''"
  "take 5 (totp_key t) = ''auth:''" "take 5 (recovery_key t) = ''auth:''"
  by (simp_all add: key_texts)

text \<open>The secrets never share a key, across flows or within one.\<close>

lemma slot_key_inj:
  assumes "plain_slot a" "plain_slot b" "slot_key a = slot_key b"
  shows "a = b"
proof (cases "(\<exists>p s. a = OauthState p s) \<or> (\<exists>p s. b = OauthState p s)")
  case True
  have "take 5 (slot_key c) = (case c of OauthState _ _ \<Rightarrow> ''oauth'' | _ \<Rightarrow> ''auth:'')" if "plain_slot c" for c
    using that by (cases c) (simp_all add: oauth_key_other other_keys)
  from this [OF assms(1)] this [OF assms(2)] assms(3) True obtain p s p' s' where
      "a = OauthState p s" "b = OauthState p' s'" by (cases a; cases b) auto
  with assms oauth_key_inj [of p p' s s'] show ?thesis by simp
next
  case False
  with assms(3) show ?thesis by (cases a; cases b) (auto simp: key_texts)
qed

lemma slot_key_limiter: "plain_slot a \<Longrightarrow> slot_key a \<noteq> ip_key ip e" "plain_slot a \<Longrightarrow> slot_key a \<noteq> user_key u e"
  by (cases a; simp add: oauth_key_text key_texts ip_key_text user_key_text)+

subsection \<open>What every call keeps\<close>

definition stores_into :: "slot \<Rightarrow> token_call \<Rightarrow> bool" where
  "stores_into slot call \<longleftrightarrow> (\<exists>v. call = Store slot v)"

fun call_slot :: "token_call \<Rightarrow> slot option" where
  "call_slot (Store a _) = Some a"
| "call_slot (Redeem a) = Some a"
| "call_slot (Peek a) = Some a"
| "call_slot (Delete a) = Some a"
| "call_slot (Limit _ _ _) = None"

definition plain_call :: "token_call \<Rightarrow> bool" where
  "plain_call call \<longleftrightarrow> (case call_slot call of None \<Rightarrow> True | Some a \<Rightarrow> plain_slot a)"

lemma snd_plain_secret [simp]: "snd (plain_secret r) = snd r"
  by (auto simp: plain_secret_def split: prod.splits sum.splits)

context kv_laws
begin

lemma check_bucket_other: "k' \<noteq> k \<Longrightarrow> kept (held s k') (held (snd (check_bucket kv k cfg s)) k')"
  unfolding check_bucket_def
  by (intro kept_st_then [where h = "\<lambda>s. held s k'"]) (simp_all add: incr_other expire_kept st_simps)

lemma check_rate_limit_other:
  assumes "\<And>ip e. k \<noteq> ip_key ip e" "\<And>u e. k \<noteq> user_key u e"
  shows "kept (held s k) (held (snd (check_rate_limit limits kv ip e user s)) k)"
proof (cases "rate_config limits e")
  case None
  then show ?thesis by (simp add: check_rate_limit_def st_simps)
next
  case (Some rc)
  note step = kept_st_then [where h = "\<lambda>s. held s k"]
  show ?thesis
    unfolding check_rate_limit_def Some option.case
  proof (rule step)
    fix by_ip s'
    show "kept (held s' k) (held (snd ((if \<not> rr_allowed by_ip then st_ok by_ip
          else case user of
            None \<Rightarrow> st_ok by_ip
          | Some uid \<Rightarrow>
              st_then (check_bucket kv (user_key uid e)
                  \<lparr>bc_capacity = rc_user_capacity rc, bc_window_secs = rc_window_seconds rc\<rparr>) (\<lambda>by_user.
              if \<not> rr_allowed by_user then st_ok by_user
              else st_ok \<lparr>rr_allowed = True, rr_remaining = min (rr_remaining by_ip) (rr_remaining by_user),
                rr_retry_after = 0\<rparr>)) s')) k)"
      using assms by (cases user) (auto simp: st_simps check_bucket_other intro!: step)
  qed (use assms check_bucket_other in blast)
qed

lemma token_call_kept:
  assumes "plain_slot slot" "plain_call call" "\<not> stores_into slot call"
  shows "kept (held s (slot_key slot)) (held (token_effect jt limits kv call s) (slot_key slot))"
proof -
  have differ: "slot_key slot \<noteq> slot_key a" if "call = Store a v" for a v
    using slot_key_inj [OF assms(1), of a] assms(2,3) that by (auto simp: plain_call_def stores_into_def)
  show ?thesis
  proof (cases call)
    case (Store a v)
    with differ [OF Store] set_other store_json_other show ?thesis
      by (cases a) (auto simp: token_effect_def token_ops split: json.splits)
  next
    case (Redeem a)
    then show ?thesis by (cases a) (simp_all add: token_effect_def token_ops consume_json_kept getdel_kept)
  next
    case (Peek a)
    then show ?thesis by (cases a) (simp_all add: token_effect_def token_ops peek_json_kept get_kept)
  next
    case (Delete a)
    then show ?thesis by (cases a) (simp_all add: token_effect_def token_ops del_kept)
  next
    case (Limit ip e user)
    with assms(1) show ?thesis by (simp add: token_effect_def check_rate_limit_other slot_key_limiter)
  qed
qed

lemma token_calls_gone:
  assumes "plain_slot slot" "list_all plain_call calls" "list_all (\<lambda>c. \<not> stores_into slot c) calls"
    and "held s (slot_key slot) = None"
  shows "held (fold (token_effect jt limits kv) calls s) (slot_key slot) = None"
  using assms(2-)
proof (induction calls arbitrary: s)
  case (Cons c cs)
  then have "held (token_effect jt limits kv c s) (slot_key slot) = None"
    using token_call_kept [OF assms(1), of c s jt limits] by simp
  with Cons show ?case by simp
qed simp

lemma redeem_value: "redeem jt kv slot s = (Inr (Some v), s') \<Longrightarrow>
    held s (slot_key slot) \<noteq> None \<and> held s' (slot_key slot) = None"
  by (cases slot)
    (auto simp: token_ops plain_secret_def dest!: consume_json_value getdel_value split: prod.splits sum.splits)

lemma peek_value: "peek jt kv slot s = (Inr (Some v), s') \<Longrightarrow> held s (slot_key slot) \<noteq> None"
  by (cases slot) (auto simp: token_ops plain_secret_def dest!: peek_json_value get_value split: prod.splits sum.splits)

end

subsection \<open>Properties\<close>

text \<open>What happens to the in-process store: calls of the login flows and background sweeps.\<close>

datatype store_event = Called token_call | Swept "string list"

definition store_event_effect :: "json_text \<Rightarrow> rate_limit_constants \<Rightarrow> store_event \<Rightarrow> memory_kv \<Rightarrow> memory_kv" where
  "store_event_effect jt limits ev m =
     (case ev of Called c \<Rightarrow> token_effect jt limits memory_ops c m | Swept order \<Rightarrow> sweep_expired order m)"

definition spares :: "slot \<Rightarrow> store_event \<Rightarrow> bool" where
  "spares slot ev = (case ev of Called c \<Rightarrow> plain_call c \<and> \<not> stores_into slot c | Swept _ \<Rightarrow> True)"

fun deletable :: "slot \<Rightarrow> bool" where
  "deletable (Challenge _) = True"
| "deletable (RecoverySession _) = True"
| "deletable _ = False"

lemma sweep_kept: "kept (memory_held m k) (memory_held (sweep_expired ks m) k)"
proof (induction ks arbitrary: m)
  case (Cons k' ks)
  have "kept (memory_held m k) (memory_held (sweep_key k' m) k)"
    by (auto simp: sweep_key_def is_expired_eq memory_held_def kept_def split: option.splits)
  from kept_trans [OF this Cons [of "sweep_key k' m"]] show ?case by (simp add: sweep_expired_def)
qed (simp add: sweep_expired_def)

lemma store_events_gone:
  assumes "plain_slot slot" "list_all (spares slot) evs" "memory_held m (slot_key slot) = None"
  shows "memory_held (fold (store_event_effect jt limits) evs m) (slot_key slot) = None"
  using assms(2,3)
proof (induction evs arbitrary: m)
  case (Cons ev evs)
  have "kept (memory_held m (slot_key slot)) (memory_held (store_event_effect jt limits ev m) (slot_key slot))"
    using Cons.prems(1) mem.token_call_kept [OF assms(1)] sweep_kept
    by (cases ev) (simp_all add: store_event_effect_def spares_def)
  with Cons show ?case by simp
qed simp

text \<open>C28: A short-lived secret is good for one use. Once an OAuth state, pending signup, pending terms,
  TOTP enrolment or recovery session has been redeemed, or a WebAuthn challenge or recovery session
  has been deleted, no later redemption or look at it yields a value, whatever calls of the login
  flows (of any flow, for any other secret), rate-limit checks and sweeps come between, unless
  the same secret is stored again.\<close>

theorem secrets_used_once:
  assumes "plain_slot slot" "list_all (spares slot) evs"
    and "redeem jt memory_ops slot m = (Inr (Some v), m1)
      \<or> deletable slot \<and> delete_secret memory_ops slot m = (Inr (), m1)"
  shows "let m2 = fold (store_event_effect jt limits) evs m1
    in fst (redeem jt memory_ops slot m2) \<noteq> Inr (Some w) \<and> fst (peek jt memory_ops slot m2) \<noteq> Inr (Some w)"
proof -
  have "memory_held m1 (slot_key slot) = None"
    using assms(3)
  proof
    assume "deletable slot \<and> delete_secret memory_ops slot m = (Inr (), m1)"
    then show ?thesis using mem.del_gone by (cases slot) (auto simp: token_ops)
  qed (use mem.redeem_value in blast)
  from store_events_gone [OF assms(1,2) this, of jt limits]
  have gone: "memory_held (fold (store_event_effect jt limits) evs m1) (slot_key slot) = None" .
  have first: "fst r \<noteq> Inr (Some w)" if "\<And>s'. r \<noteq> (Inr (Some w), s')" for r :: "(app_error + json option) \<times> memory_kv"
    using that [of "snd r"] by (auto simp: prod_eq_iff)
  let ?m2 = "fold (store_event_effect jt limits) evs m1"
  have "redeem jt memory_ops slot ?m2 \<noteq> (Inr (Some w), s')" "peek jt memory_ops slot ?m2 \<noteq> (Inr (Some w), s')" for s'
    using gone mem.redeem_value [of jt slot ?m2 w s'] mem.peek_value [of jt slot ?m2 w s'] by auto
  with first show ?thesis unfolding Let_def by blast
qed

definition sample_json_text :: json_text where
  "sample_json_text = \<lparr>jt_enc = \<lambda>_. Inr ''{}'', jt_dec = \<lambda>_. Inr (JObject [])\<rparr>"

theorem secrets_used_once_witness:
  "let m = snd (store_recovery_session memory_ops ''s'' ''u'' (new_pool (\<lambda>_. 0)));
       m1 = snd (get_recovery_session memory_ops ''s'' m);
       m2 = fold (store_event_effect sample_json_text RATE_LIMITS)
         [Called (Store (RecoverySession ''t'') (JString ''u'')), Swept [''x'']] m1
   in fst (redeem sample_json_text memory_ops (RecoverySession ''s'') m2) \<noteq> Inr (Some (JString ''u''))"
proof -
  let ?m = "snd (store_recovery_session memory_ops ''s'' ''u'' (new_pool (\<lambda>_. 0)))"
  have "redeem sample_json_text memory_ops (RecoverySession ''s'') ?m
      = (Inr (Some (JString ''u'')), snd (get_recovery_session memory_ops ''s'' ?m))"
    by (simp add: token_ops key_texts memory_set_def memory_getdel_def entry_new_def is_expired_eq expired_at_def
        new_pool_def reading_def from_secs_def plain_secret_def TTL_RECOVERY_SESSION_def)
  then have redeemed: "redeem sample_json_text memory_ops (RecoverySession ''s'') ?m
      = (Inr (Some (JString ''u'')), snd (get_recovery_session memory_ops ''s'' ?m)) \<or> deletable (RecoverySession ''s'')
        \<and> delete_secret memory_ops (RecoverySession ''s'') ?m = (Inr (), snd (get_recovery_session memory_ops ''s'' ?m))" ..
  have "list_all (spares (RecoverySession ''s''))
      [Called (Store (RecoverySession ''t'') (JString ''u'')), Swept [''x'']]"
    by (simp add: spares_def plain_call_def stores_into_def)
  from secrets_used_once [OF _ this redeemed, of RATE_LIMITS "JString ''u''"] show ?thesis
    unfolding Let_def by simp
qed

fun text_slot :: "slot \<Rightarrow> bool" where
  "text_slot (PendingTotp _) = True"
| "text_slot (RecoverySession _) = True"
| "text_slot _ = False"

lemma stored_secret:
  assumes "if text_slot slot then v = JString raw else jt_enc jt v = Inr raw"
  shows "store_secret jt memory_ops slot v m = memory_set (slot_key slot) raw (Some (slot_ttl slot)) m"
  using assms by (cases slot) (auto simp: token_ops kv_store_json_def)

lemma found_secret:
  assumes "if text_slot slot then v = JString raw else jt_dec jt raw = Inr v"
    and "found = (if alive (reading m) m (slot_key slot) = None then None else Some v)"
    and "\<And>e. alive (reading m) m (slot_key slot) = Some e \<Longrightarrow> en_value e = raw"
  shows "\<not> (\<exists>c. slot = Challenge c) \<Longrightarrow> fst (redeem jt memory_ops slot m) = Inr found"
    "slot = Challenge c \<Longrightarrow> fst (peek jt memory_ops slot m) = Inr found"
  using assms memory_getdel_alive(1) [of "slot_key slot" m] memory_get_alive(1) [of "slot_key slot" m]
  by (cases slot; cases "alive (reading m) m (slot_key slot)";
      force simp: token_ops kv_consume_json_def kv_peek_json_def plain_secret_def st_then_def st_simps
        split: prod.splits)+

text \<open>A stored secret can be used until it expires, and not longer: a redemption (for a challenge, a
  look) returns exactly what was stored when its clock reading is at most the time to live after
  the storing, and nothing when it is later.\<close>

theorem secret_lives_its_ttl:
  assumes "if text_slot slot then v = JString raw else jt_enc jt v = Inr raw \<and> jt_dec jt raw = Inr v"
    and "store_secret jt memory_ops slot v m = (r, m1)"
  shows "r = Inr () \<and> fst ((case slot of Challenge _ \<Rightarrow> peek | _ \<Rightarrow> redeem) jt memory_ops slot m1)
    = Inr (if reading m1 \<le> reading m + from_secs (slot_ttl slot) then Some v else None)"
proof -
  have set: "memory_set (slot_key slot) raw (Some (slot_ttl slot)) m = (r, m1)"
    using stored_secret [of slot v raw jt m] assms by (simp split: if_splits)
  have alive: "alive (reading m1) m1 (slot_key slot) = keep_at (reading m1)
      \<lparr>en_value = raw, en_expires = Some (reading m + from_secs (slot_ttl slot))\<rparr>"
    using memory_set_alive(2) [of "reading m1" "slot_key slot" raw "Some (slot_ttl slot)" m] set by simp
  note found = found_secret [where slot = slot and v = v and raw = raw and jt = jt and m = m1, OF _ refl]
  have dec: "if text_slot slot then v = JString raw else jt_dec jt raw = Inr v" using assms(1) by (simp split: if_splits)
  have same: "alive (reading m1) m1 (slot_key slot) = Some e \<Longrightarrow> en_value e = raw" for e
    by (auto simp: alive keep_at_def split: if_splits)
  have lives: "(if alive (reading m1) m1 (slot_key slot) = None then None else Some v)
      = (if reading m1 \<le> reading m + from_secs (slot_ttl slot) then Some v else None)"
    by (simp add: alive keep_at_def expired_at_def)
  have "r = Inr ()" using set memory_set_alive(1) [of "slot_key slot" raw "Some (slot_ttl slot)" m] by simp
  with found(1) [OF dec same, unfolded lives] found(2) [OF dec same, unfolded lives]
  show ?thesis by (cases slot) simp_all
qed

theorem secret_lives_its_ttl_witness:
  "fst (redeem sample_json_text memory_ops (PendingTotp ''u'')
     (snd (store_secret sample_json_text memory_ops (PendingTotp ''u'') (JString ''otp'') (new_pool (\<lambda>n. int n))))) = Inr (Some (JString ''otp''))"
proof -
  obtain r m1 where run: "store_secret sample_json_text memory_ops (PendingTotp ''u'') (JString ''otp'') (new_pool (\<lambda>n. int n)) = (r, m1)"
    by fastforce
  then have "reading m1 = 1" by (auto simp: token_ops memory_set_def entry_new_def new_pool_def reading_def)
  with secret_lives_its_ttl [OF _ run, of "''otp''"]
  have "fst (redeem sample_json_text memory_ops (PendingTotp ''u'') m1) = Inr (Some (JString ''otp''))"
    by (simp add: new_pool_def reading_def from_secs_def TTL_TOTP_SETUP_def)
  then show ?thesis unfolding run snd_conv .
qed

end
