(* ===== verification/OAuth_Server.thy ===== *)
theory OAuth_Server
  imports Request_Meta One_Time_Tokens
begin

text \<open>
  The authorization server for API clients, \<open>apps/server/src/routes/oauth.rs\<close>: registration of clients,
  the authorization request with PKCE, the consent page and its decision, the code grant and the
  dispatch of the token endpoint (the refresh grant is \<open>handle_refresh_token\<close>).

  A world is the key-value store (any state \<open>'s\<close> with its operations \<open>kv\<close>), the auth tables and the
  registered clients. Parameters are the JWT codec, SHA-256 in hexadecimal, base64url, the JSON text
  codec, the URL library (\<open>url_lib\<close>) and \<open>header_ok\<close>. An error is a status and the message of its body.
  Of a response, what depends on the request is kept: the consent page's fields with its cookie, and the
  address a browser is sent to. Every handler is one step. The log line of the token endpoint cuts the client
  id after 20 bytes and panics when that is inside a character; log lines are not modelled, so here such a
  request goes on to its answer.
\<close>

subsection \<open>The world\<close>

record client_row =
  cw_id :: string
  cw_client_id :: string
  cw_name :: string
  cw_redirect_uris :: json
  cw_scopes :: json
  cw_type :: string
  cw_active :: bool

record 's oauth_world =
  ow_kv :: 's
  ow_db :: auth_db
  ow_clients :: "client_row list"

record url =
  ur_scheme :: string
  ur_username :: string
  ur_password :: "string option"
  ur_host :: "string option"
  ur_port :: "int option"
  ur_fragment :: "string option"
  ur_text :: string

text \<open>\<open>Url::parse\<close> and \<open>query_pairs_mut().append_pair\<close>.\<close>

record url_lib =
  ul_parse :: "string \<Rightarrow> url option"
  ul_append :: "string \<Rightarrow> string \<Rightarrow> url \<Rightarrow> url"

record oauth_libs =
  ol_jwt :: jwt_codec
  ol_sha :: "string \<Rightarrow> string"
  ol_base64 :: "string \<Rightarrow> string"
  ol_json :: json_text
  ol_url :: url_lib
  ol_header_ok :: "string \<Rightarrow> bool"

record oauth_config =
  oc_secret :: string
  oc_base_url :: string
  oc_frontend_url :: string
  oc_backend :: backend

type_synonym route_error = "nat \<times> string"

definition on_kv :: "('s \<Rightarrow> ('e + 'a) \<times> 's) \<Rightarrow> 's oauth_world \<Rightarrow> ('e + 'a) \<times> 's oauth_world" where
  "on_kv m w = (case m (ow_kv w) of (r, s) \<Rightarrow> (r, w\<lparr>ow_kv := s\<rparr>))"

definition on_db :: "(auth_db \<Rightarrow> ('e + 'a) \<times> auth_db) \<Rightarrow> 's oauth_world \<Rightarrow> ('e + 'a) \<times> 's oauth_world" where
  "on_db m w = (case m (ow_db w) of (r, db) \<Rightarrow> (r, w\<lparr>ow_db := db\<rparr>))"

text \<open>The environment of a call that starts at site \<open>k\<close>.\<close>

definition env_from :: "nat \<Rightarrow> auth_env \<Rightarrow> auth_env" where
  "env_from k e = \<lparr>ae_db_now = \<lambda>n. ae_db_now e (n + k), ae_now = \<lambda>n. ae_now e (n + k),
     ae_random = \<lambda>n. ae_random e (n + k), ae_fault = \<lambda>n. ae_fault e (n + k), ae_applied = ae_applied e\<rparr>"

definition internal_oauth_error :: "app_error \<Rightarrow> route_error" where
  "internal_oauth_error _ = (500, ''Internal error'')"

subsection \<open>Redirect addresses\<close>

text \<open>\<open>char::is_control\<close> on the bytes of a text: C0, DEL and, as two bytes, C1.\<close>

fun has_control :: "string \<Rightarrow> bool" where
  "has_control [] = False"
| "has_control (c # s) = ((of_char c :: int) < 32 \<or> of_char c = (127 :: int)
     \<or> of_char c = (194 :: int) \<and> s \<noteq> [] \<and> 128 \<le> (of_char (hd s) :: int) \<and> (of_char (hd s) :: int) \<le> 159
     \<or> has_control s)"

definition trim_brackets :: "string \<Rightarrow> string" where
  "trim_brackets s = (let b = (\<lambda>c. c = CHR ''['' \<or> c = CHR '']'') in rev (dropWhile b (rev (dropWhile b s))))"

definition eq_ignore_ascii_case :: "string \<Rightarrow> string \<Rightarrow> bool" where
  "eq_ignore_ascii_case s t \<longleftrightarrow> map to_lower s = map to_lower t"

definition loopback_host :: "string \<Rightarrow> bool" where
  "loopback_host host \<longleftrightarrow> eq_ignore_ascii_case host ''localhost''
     \<or> (case parse_ip (trim_brackets host) of Some ip \<Rightarrow> is_loopback ip | None \<Rightarrow> False)"

definition valid_registration_redirect :: "url_lib \<Rightarrow> string \<Rightarrow> bool" where
  "valid_registration_redirect ul uri =
     (if 2048 < length uri \<or> has_control uri \<or> CHR '' '' \<in> set uri \<or> \<not> contains ''://'' uri then False
      else case ul_parse ul uri of
        None \<Rightarrow> False
      | Some u \<Rightarrow>
          if ur_fragment u \<noteq> None \<or> ur_username u \<noteq> [] \<or> ur_password u \<noteq> None \<or> ur_host u = None then False
          else if ur_scheme u = ''https'' then True
          else if ur_scheme u = ''http'' then (case ur_host u of Some h \<Rightarrow> loopback_host h | None \<Rightarrow> False)
          else if ur_scheme u \<in> {''file'', ''ftp'', ''javascript'', ''data'', ''about''} then False
          else ur_port u = None)"

definition validate_redirect_uri :: "url_lib \<Rightarrow> json \<Rightarrow> string \<Rightarrow> route_error + unit" where
  "validate_redirect_uri ul allowed uri =
     ensure (valid_registration_redirect ul uri
       \<and> (case as_array allowed of Some uris \<Rightarrow> list_ex (\<lambda>u. as_str u = Some uri) uris | None \<Rightarrow> False))
       (400, ''Invalid redirect_uri'')"

subsection \<open>Clients\<close>

definition lookup_active_client :: "auth_env \<Rightarrow> nat \<Rightarrow> string \<Rightarrow> 's oauth_world \<Rightarrow> (route_error + client_row) \<times> 's oauth_world" where
  "lookup_active_client e n cid w =
     (case sql e n of
        Inl _ \<Rightarrow> (Inl (500, ''internal_error''), w)
      | Inr _ \<Rightarrow> (ok_or (find (\<lambda>c. cw_client_id c = cid \<and> cw_active c) (ow_clients w)) (400, ''Unknown client_id: '' @ cid), w))"

record registration =
  rg_redirect_uris :: "string list"
  rg_client_name :: "string option"
  rg_logo_uri :: "string option"
  rg_grant_types :: "string list option"
  rg_response_types :: "string list option"

record registered =
  rd_client_id :: string
  rd_issued_at :: int
  rd_redirect_uris :: "string list"
  rd_client_name :: string
  rd_logo_uri :: string
  rd_grant_types :: "string list"
  rd_response_types :: "string list"

definition trim_end_slashes :: "string \<Rightarrow> string" where
  "trim_end_slashes s = rev (dropWhile (\<lambda>c. c = CHR ''/'') (rev s))"

text \<open>\<open>id\<close> is the primary key and \<open>client_id\<close> unique.\<close>

definition insert_client :: "client_row \<Rightarrow> 's oauth_world \<Rightarrow> (app_error + unit) \<times> 's oauth_world" where
  "insert_client c w =
     (if cw_id c \<in> cw_id ` set (ow_clients w) \<or> cw_client_id c \<in> cw_client_id ` set (ow_clients w)
      then (Inl (Sqlx (UniqueViolation ''oauth_clients'')), w)
      else (Inr (), w\<lparr>ow_clients := ow_clients w @ [c]\<rparr>))"

definition register_client :: "url_lib \<Rightarrow> oauth_config \<Rightarrow> auth_env \<Rightarrow> registration \<Rightarrow> 's oauth_world
    \<Rightarrow> (route_error + registered) \<times> 's oauth_world" where
  "register_client ul cfg e rg =
     st_then (st_lift (ensure (rg_redirect_uris rg \<noteq> []) (400, ''redirect_uris is required and must not be empty''))) (\<lambda>_.
     st_then (st_lift (ensure (length (rg_redirect_uris rg) \<le> 10 \<and> list_all (valid_registration_redirect ul) (rg_redirect_uris rg))
        (400, ''Invalid redirect_uri''))) (\<lambda>_.
     let cid = ''mcp-'' @ take 22 (ae_random e 0);
         name = (case rg_client_name rg of Some n \<Rightarrow> n | None \<Rightarrow> ''MCP Client'') in
     st_then (\<lambda>w. case sql e 2 of
         Inl _ \<Rightarrow> (Inl (500, ''Internal error''), w)
       | Inr _ \<Rightarrow> st_map_err (\<lambda>_. (500, ''Internal error'')) (insert_client
          \<lparr>cw_id = ae_random e 1, cw_client_id = cid, cw_name = name,
           cw_redirect_uris = JArray (map JString (rg_redirect_uris rg)), cw_scopes = JArray [JString ''mcp''],
           cw_type = ''public'', cw_active = True\<rparr>) w) (\<lambda>_.
     st_ok \<lparr>rd_client_id = cid, rd_issued_at = unix_seconds (ae_now e 3), rd_redirect_uris = rg_redirect_uris rg,
       rd_client_name = name,
       rd_logo_uri = (case rg_logo_uri rg of Some l \<Rightarrow> l | None \<Rightarrow> trim_end_slashes (oc_base_url cfg) @ ''/kyomi_oauth_logo.png''),
       rd_grant_types = (case rg_grant_types rg of Some g \<Rightarrow> g | None \<Rightarrow> [''authorization_code'', ''refresh_token'']),
       rd_response_types = (case rg_response_types rg of Some r \<Rightarrow> r | None \<Rightarrow> [''code''])\<rparr>)))"

subsection \<open>The authorization request\<close>

record authorize_params =
  az_client :: string
  az_redirect :: string
  az_response_type :: string
  az_state :: "string option"
  az_scope :: "string option"
  az_challenge :: "string option"
  az_method :: "string option"

definition alphanumeric :: "char \<Rightarrow> bool" where
  "alphanumeric c = (let n = of_char c :: int in 48 \<le> n \<and> n \<le> 57 \<or> 65 \<le> n \<and> n \<le> 90 \<or> 97 \<le> n \<and> n \<le> 122)"

definition urlsafe :: "char \<Rightarrow> bool" where
  "urlsafe c \<longleftrightarrow> alphanumeric c \<or> c = CHR ''-'' \<or> c = CHR ''_''"

definition validate_authorize_params :: "authorize_params \<Rightarrow> route_error + unit" where
  "validate_authorize_params p =
     and_then (ensure (az_response_type p = ''code'') (400, ''Only response_type=code is supported'')) (\<lambda>_.
     and_then (ensure (az_scope p = None \<or> az_scope p = Some ''mcp'') (400, ''Unsupported scope'')) (\<lambda>_.
     ensure (az_method p = Some ''S256'' \<and> (case az_challenge p of
          Some c \<Rightarrow> 43 \<le> length c \<and> length c \<le> 128 \<and> list_all urlsafe c | None \<Rightarrow> False))
       (400, ''PKCE S256 code_challenge required'')))"

record consent_page =
  cp_client_name :: string
  cp_account :: string
  cp_workspace :: string
  cp_callback_origin :: string
  cp_transaction :: string
  cp_csrf :: string
  cp_cookie :: string

datatype oauth_response =
    Consent consent_page
  | LoginRedirect string
  | Callback string

definition opt_text :: "string option \<Rightarrow> json" where
  "opt_text x = (case x of None \<Rightarrow> JNull | Some s \<Rightarrow> JString s)"

definition callback_origin :: "url \<Rightarrow> string" where
  "callback_origin u =
     (case ur_host u of
        Some h \<Rightarrow> ur_scheme u @ ''://'' @ h @ (case ur_port u of Some p \<Rightarrow> '':'' @ show_int p | None \<Rightarrow> '''')
      | None \<Rightarrow> ur_scheme u @ '':'')"

definition consent_cookie :: "oauth_config \<Rightarrow> string \<Rightarrow> string \<Rightarrow> string" where
  "consent_cookie cfg txn nonce =
     ''oauth_consent_'' @ txn @ ''='' @ nonce
     @ ''; Max-Age=300; Path=/api/v1/oauth/authorize; SameSite=Lax; HttpOnly''
     @ (if starts_with ''https://'' (oc_base_url cfg) then ''; Secure'' else '''')"

text \<open>Sites: the transaction, the CSRF token and the nonce of the browser.\<close>

definition render_consent :: "oauth_libs \<Rightarrow> 's kv_ops \<Rightarrow> oauth_config \<Rightarrow> auth_env \<Rightarrow> client_row \<Rightarrow> authorize_params \<Rightarrow> claims
    \<Rightarrow> 's oauth_world \<Rightarrow> (route_error + oauth_response) \<times> 's oauth_world" where
  "render_consent ol kv cfg e client p c =
     (let txn = ae_random e 0; csrf = ae_random e 1; nonce = ae_random e 2;
          ws = extra_str ''workspace_id'' (cl_extra c);
          data = json_object [(''client_id'', JString (az_client p)), (''redirect_uri'', JString (az_redirect p)),
            (''state'', opt_text (az_state p)), (''scope'', opt_text (az_scope p)), (''code_challenge'', opt_text (az_challenge p)),
            (''user_id'', JString (cl_sub c)), (''workspace_id'', opt_text ws),
            (''browser_nonce_hash'', JString (hash_refresh_token (ol_sha ol) nonce)), (''csrf'', JString csrf)] in
      st_then (st_map_err internal_oauth_error (on_kv (store_oauth_state (ol_json ol) kv ''oauth_consent'' txn data))) (\<lambda>_.
      st_then (st_lift (ok_or (ul_parse (ol_url ol) (az_redirect p)) (400, ''Invalid redirect_uri''))) (\<lambda>u.
      st_then (st_lift (ensure (ol_header_ok ol (consent_cookie cfg txn nonce)) (500, ''Internal error''))) (\<lambda>_.
      st_ok (Consent \<lparr>cp_client_name = cw_name client,
        cp_account = (case extra_str ''email'' (cl_extra c) of Some m \<Rightarrow> m | None \<Rightarrow> cl_sub c),
        cp_workspace = (case ws of Some s \<Rightarrow> s | None \<Rightarrow> ''No workspace selected''),
        cp_callback_origin = callback_origin u, cp_transaction = txn, cp_csrf = csrf,
        cp_cookie = consent_cookie cfg txn nonce\<rparr>)))))"

text \<open>A request without a session is sent to the login page, its parameters kept under a fresh state.\<close>

definition login_first :: "oauth_libs \<Rightarrow> 's kv_ops \<Rightarrow> oauth_config \<Rightarrow> auth_env \<Rightarrow> authorize_params
    \<Rightarrow> 's oauth_world \<Rightarrow> (route_error + oauth_response) \<times> 's oauth_world" where
  "login_first ol kv cfg e p =
     (let state = ae_random e 0;
          pending = json_object [(''client_id'', JString (az_client p)), (''redirect_uri'', JString (az_redirect p)),
            (''state'', opt_text (az_state p)), (''scope'', opt_text (az_scope p)),
            (''code_challenge'', opt_text (az_challenge p)), (''code_challenge_method'', opt_text (az_method p))] in
      st_then (st_map_err internal_oauth_error (on_kv (store_oauth_state (ol_json ol) kv ''oauth_pending'' state pending))) (\<lambda>_.
      st_then (st_lift (ok_or (ul_parse (ol_url ol) (trim_end_slashes (oc_frontend_url cfg) @ ''/login'')) (500, ''Invalid login URL''))) (\<lambda>u.
      st_ok (LoginRedirect (ur_text (ul_append (ol_url ol) ''oauth_continue'' state u))))))"

definition cookie_session :: "oauth_libs \<Rightarrow> oauth_config \<Rightarrow> auth_env \<Rightarrow> headers \<Rightarrow> claims option" where
  "cookie_session ol cfg e h =
     Option.bind (get_cookie_value h ACCESS_COOKIE) (\<lambda>token.
       case validate_token (ol_jwt ol) e 0 token (oc_secret cfg) of
         Inl _ \<Rightarrow> None
       | Inr c \<Rightarrow> if require_session c = Inr () then Some c else None)"

definition oauth_authorize :: "oauth_libs \<Rightarrow> 's kv_ops \<Rightarrow> oauth_config \<Rightarrow> auth_env \<Rightarrow> headers \<Rightarrow> authorize_params
    \<Rightarrow> 's oauth_world \<Rightarrow> (route_error + oauth_response) \<times> 's oauth_world" where
  "oauth_authorize ol kv cfg e h p =
     st_then (st_lift (validate_authorize_params p)) (\<lambda>_.
     st_then (lookup_active_client e 0 (az_client p)) (\<lambda>client.
     st_then (st_lift (validate_redirect_uri (ol_url ol) (cw_redirect_uris client) (az_redirect p))) (\<lambda>_.
     case cookie_session ol cfg (env_from 1 e) h of
       None \<Rightarrow> login_first ol kv cfg (env_from 20 e) p
     | Some c \<Rightarrow> (\<lambda>w. case on_db (require_current_browser_session (env_from 5 e) c) w of
           (Inr _, w1) \<Rightarrow> render_consent ol kv cfg (env_from 10 e) client p c w1
         | (Inl (AppUnauthorized _), w1) \<Rightarrow> login_first ol kv cfg (env_from 20 e) p w1
         | (Inl err, w1) \<Rightarrow> (Inl (internal_oauth_error err), w1)))))"

text \<open>The session behind a request that must have one.\<close>

definition session_error :: "app_error \<Rightarrow> route_error" where
  "session_error err = (case err of AppUnauthorized _ \<Rightarrow> (401, ''Invalid session'') | _ \<Rightarrow> internal_oauth_error err)"

definition required_session :: "oauth_libs \<Rightarrow> oauth_config \<Rightarrow> auth_env \<Rightarrow> headers
    \<Rightarrow> 's oauth_world \<Rightarrow> (route_error + claims) \<times> 's oauth_world" where
  "required_session ol cfg e h =
     st_then (st_lift (ok_or (get_cookie_value h ACCESS_COOKIE) (401, ''Not logged in''))) (\<lambda>token.
     st_then (st_lift (map_err (\<lambda>_. (401, ''Invalid session'')) (validate_token (ol_jwt ol) e 0 token (oc_secret cfg)))) (\<lambda>c.
     st_then (st_map_err session_error (on_db (require_current_browser_session (env_from 1 e) c))) (\<lambda>_. st_ok c)))"

definition oauth_authorize_continue :: "oauth_libs \<Rightarrow> 's kv_ops \<Rightarrow> oauth_config \<Rightarrow> auth_env \<Rightarrow> headers \<Rightarrow> string
    \<Rightarrow> 's oauth_world \<Rightarrow> (route_error + oauth_response) \<times> 's oauth_world" where
  "oauth_authorize_continue ol kv cfg e h state =
     st_then (required_session ol cfg e h) (\<lambda>c.
     st_then (st_map_err internal_oauth_error (on_kv (verify_oauth_state (ol_json ol) kv ''oauth_pending'' state))) (\<lambda>found.
     st_then (st_lift (ok_or found (400, ''Authorization expired''))) (\<lambda>pending.
     let p = \<lparr>az_client = text_at ''client_id'' pending, az_redirect = text_at ''redirect_uri'' pending,
              az_response_type = ''code'', az_state = str_at ''state'' pending, az_scope = str_at ''scope'' pending,
              az_challenge = str_at ''code_challenge'' pending, az_method = str_at ''code_challenge_method'' pending\<rparr> in
     st_then (st_lift (validate_authorize_params p)) (\<lambda>_.
     st_then (lookup_active_client e 8 (az_client p)) (\<lambda>client.
     st_then (st_lift (validate_redirect_uri (ol_url ol) (cw_redirect_uris client) (az_redirect p))) (\<lambda>_.
     render_consent ol kv cfg (env_from 10 e) client p c))))))"

subsection \<open>The decision\<close>

record consent_decision =
  cd_transaction :: string
  cd_csrf :: string
  cd_decision :: string

definition consent_nonce :: "headers \<Rightarrow> string \<Rightarrow> string option" where
  "consent_nonce h txn =
     (if length txn = 43 \<and> list_all urlsafe txn
      then get_cookie_value h (''oauth_consent_'' @ txn) else None)"

definition consent_matches :: "(string \<Rightarrow> string) \<Rightarrow> headers \<Rightarrow> consent_decision \<Rightarrow> claims \<Rightarrow> json \<Rightarrow> bool" where
  "consent_matches sha h form c consent \<longleftrightarrow>
     str_at ''csrf'' consent = Some (cd_csrf form) \<and> str_at ''user_id'' consent = Some (cl_sub c)
   \<and> (case consent_nonce h (cd_transaction form) of
        None \<Rightarrow> False
      | Some nonce \<Rightarrow> str_at ''browser_nonce_hash'' consent = Some (hash_refresh_token sha nonce))"

definition code_data :: "claims \<Rightarrow> json \<Rightarrow> json" where
  "code_data c consent =
     json_object [(''user_id'', JString (cl_sub c)), (''workspace_id'', json_at ''workspace_id'' consent),
       (''client_id'', JString (text_at ''client_id'' consent)), (''redirect_uri'', JString (text_at ''redirect_uri'' consent)),
       (''scope'', json_at ''scope'' consent), (''code_challenge'', json_at ''code_challenge'' consent)]"

text \<open>Everything that is checked before the answer, which is then either a denial or a fresh code. Invalid attempts
  consume the transaction too.\<close>

definition accept_consent :: "oauth_libs \<Rightarrow> 's kv_ops \<Rightarrow> oauth_config \<Rightarrow> auth_env \<Rightarrow> headers \<Rightarrow> consent_decision
    \<Rightarrow> 's oauth_world \<Rightarrow> (route_error + claims \<times> json \<times> url) \<times> 's oauth_world" where
  "accept_consent ol kv cfg e h form =
     st_then (required_session ol cfg e h) (\<lambda>c.
     st_then (st_lift (ensure (cd_decision form = ''allow'' \<or> cd_decision form = ''deny'') (400, ''Invalid decision''))) (\<lambda>_.
     st_then (st_map_err internal_oauth_error (on_kv (verify_oauth_state (ol_json ol) kv ''oauth_consent'' (cd_transaction form)))) (\<lambda>found.
     st_then (st_lift (ok_or found (400, ''Consent expired or used''))) (\<lambda>consent.
     st_then (st_lift (ensure (consent_matches (ol_sha ol) h form c consent) (403, ''Consent session mismatch''))) (\<lambda>_.
     st_then (lookup_active_client e 8 (text_at ''client_id'' consent)) (\<lambda>client.
     st_then (st_lift (validate_redirect_uri (ol_url ol) (cw_redirect_uris client) (text_at ''redirect_uri'' consent))) (\<lambda>_.
     st_then (st_lift (ok_or (ul_parse (ol_url ol) (text_at ''redirect_uri'' consent)) (400, ''Invalid redirect_uri''))) (\<lambda>u.
     st_ok (c, consent, u)))))))))"

definition oauth_consent_decision :: "oauth_libs \<Rightarrow> 's kv_ops \<Rightarrow> oauth_config \<Rightarrow> auth_env \<Rightarrow> headers \<Rightarrow> consent_decision
    \<Rightarrow> 's oauth_world \<Rightarrow> (route_error + oauth_response) \<times> 's oauth_world" where
  "oauth_consent_decision ol kv cfg e h form =
     st_then (accept_consent ol kv cfg e h form) (\<lambda>(c, consent, u).
     st_then (if cd_decision form = ''deny'' then st_ok (ul_append (ol_url ol) ''error'' ''access_denied'' u)
        else st_then (st_map_err internal_oauth_error
               (on_kv (store_oauth_state (ol_json ol) kv ''oauth_code'' (ae_random e 9) (code_data c consent)))) (\<lambda>_.
             st_ok (ul_append (ol_url ol) ''code'' (ae_random e 9) u))) (\<lambda>u.
     st_ok (Callback (ur_text (case str_at ''state'' consent of
         Some state \<Rightarrow> ul_append (ol_url ol) ''state'' state u
       | None \<Rightarrow> u)))))"

subsection \<open>The token endpoint\<close>

record token_request =
  tr_grant_type :: string
  tr_code :: "string option"
  tr_refresh_token :: "string option"
  tr_client :: string
  tr_redirect :: "string option"
  tr_verifier :: "string option"

definition verifier_char :: "char \<Rightarrow> bool" where
  "verifier_char c \<longleftrightarrow> urlsafe c \<or> c = CHR ''.'' \<or> c = CHR ''~''"

text \<open>The bytes of a hexadecimal text (SHA-256's text is one, so the two \<open>expect\<close>s cannot fail).\<close>

fun hex_bytes :: "string \<Rightarrow> string" where
  "hex_bytes (a # b # s) = char_of (case (digit_of 16 a, digit_of 16 b) of (Some x, Some y) \<Rightarrow> 16 * x + y | _ \<Rightarrow> 0) # hex_bytes s"
| "hex_bytes _ = []"

definition pkce_s256 :: "oauth_libs \<Rightarrow> string \<Rightarrow> string" where
  "pkce_s256 ol verifier = ol_base64 ol (hex_bytes (hash_refresh_token (ol_sha ol) verifier))"

definition handle_authorization_code :: "oauth_libs \<Rightarrow> 's kv_ops \<Rightarrow> oauth_config \<Rightarrow> auth_env \<Rightarrow> headers \<Rightarrow> token_request
    \<Rightarrow> 's oauth_world \<Rightarrow> (route_error + token_response) \<times> 's oauth_world" where
  "handle_authorization_code ol kv cfg e h rq =
     st_then (st_lift (ok_or (tr_code rq) (bad_grant ''code required''))) (\<lambda>code.
     st_then (st_lift (ok_or (tr_redirect rq) (bad_grant ''redirect_uri required''))) (\<lambda>redirect.
     st_then (st_lift (ok_or (tr_verifier rq) (bad_grant ''code_verifier required''))) (\<lambda>verifier.
     st_then (st_lift (ensure (43 \<le> length verifier \<and> length verifier \<le> 128 \<and> list_all verifier_char verifier)
        (bad_grant ''invalid_grant: invalid code_verifier''))) (\<lambda>_.
     st_then (st_map_err (\<lambda>_. bad_grant ''invalid_grant: code expired or invalid'')
        (on_kv (verify_oauth_state (ol_json ol) kv ''oauth_code'' code))) (\<lambda>found.
     st_then (st_lift (ok_or found (bad_grant ''invalid_grant: code expired or invalid''))) (\<lambda>data.
     st_then (st_lift (ensure (str_at ''client_id'' data = Some (tr_client rq)) (bad_grant ''invalid_grant: client_id mismatch''))) (\<lambda>_.
     st_then (st_lift (ensure (str_at ''redirect_uri'' data = Some redirect) (bad_grant ''invalid_grant: redirect_uri mismatch''))) (\<lambda>_.
     st_then (st_lift (ensure (str_at ''code_challenge'' data = Some (pkce_s256 ol verifier))
        (bad_grant ''invalid_grant: PKCE verification failed''))) (\<lambda>_.
     st_then (st_map_err (\<lambda>_. bad_grant ''invalid_grant: user not found'') (on_db (get_user_by_id e 0 (text_at ''user_id'' data)))) (\<lambda>found.
     st_then (st_lift (ok_or found (bad_grant ''invalid_grant: user not found''))) (\<lambda>u.
     st_then (st_lift (ensure (ac_active u) (bad_grant ''invalid_grant: user not found''))) (\<lambda>_.
     st_then (st_lift (map_err (\<lambda>_. (500, ''internal_error'')) (create_mcp_access_token_str (ol_jwt ol) e 1 (ac_id u) (oc_secret cfg)
        ACCESS_TOKEN_MINUTES ([(''user_id'', JString (ac_id u)), (''email'', JString (ac_email u)), (''name'', opt_json (ac_name u))]
          @ (case str_at ''workspace_id'' data of Some ws \<Rightarrow> [(''workspace_id'', JString ws)] | None \<Rightarrow> []))))) (\<lambda>access.
     let raw = create_refresh_token e 2 in
     st_then (st_map_err (\<lambda>_. (500, ''internal_error'')) (on_db (store_refresh_token (oc_backend cfg) e 5 (ac_id u)
        (hash_refresh_token (ol_sha ol) raw) (ae_now e 3 + REFRESH_TOKEN_DAYS * 86400 * 10 ^ 6)
        ((extract_device_info h)\<lparr>dv_client := Some (tr_client rq)\<rparr>) (generate_family_id e 4)))) (\<lambda>_.
     st_ok \<lparr>tk_access_token = access, tk_token_type = ''Bearer'', tk_expires_in = ACCESS_TOKEN_MINUTES * 60,
       tk_refresh_token = Some raw, tk_scope = Some ''mcp''\<rparr>))))))))))))))"

definition oauth_token :: "oauth_libs \<Rightarrow> 's kv_ops \<Rightarrow> oauth_config \<Rightarrow> auth_env \<Rightarrow> headers \<Rightarrow> token_request
    \<Rightarrow> 's oauth_world \<Rightarrow> (route_error + token_response) \<times> 's oauth_world" where
  "oauth_token ol kv cfg e h rq =
     st_then (lookup_active_client e 0 (tr_client rq)) (\<lambda>_.
     if tr_grant_type rq = ''authorization_code'' then handle_authorization_code ol kv cfg (env_from 1 e) h rq
     else if tr_grant_type rq = ''refresh_token''
     then on_db (handle_refresh_token (ol_jwt ol) (ol_sha ol) (oc_backend cfg) (env_from 1 e) (oc_secret cfg)
        (tr_refresh_token rq) (tr_client rq))
     else st_err (bad_grant (''Unsupported grant_type: '' @ tr_grant_type rq)))"

end
