(* ===== verification/Session_Guarantees.thy ===== *)
theory Session_Guarantees
  imports Browser_Sessions
begin

text \<open>
  What the session code promises together: what ends when sessions are revoked or a stolen token is
  seen, what a rotation hands over, which tokens open which doors, and that a login is followed by
  requests that are let in.
\<close>

subsection \<open>The end of a family\<close>

lemma dead_after_update:
  assumes "refresh_tokens db' = update_where p g rs" "\<And>r. \<not> rf_active (g r)" "\<And>r. rf_family (g r) = rf_family r"
    "\<forall>r \<in> set rs. rf_family r = f \<longrightarrow> rf_active r \<longrightarrow> p r"
  shows "family_dead f db'"
  using assms by (auto simp: family_dead_def update_where_def)

lemma revoked_family_dead:
  assumes "revoke_sessions_in_tx b e n user db = Inr (k, db')"
    "\<forall>r \<in> set (refresh_tokens db). rf_family r = f \<longrightarrow> rf_user r = user"
  shows "family_dead f db'"
  by (rule dead_after_update [OF revoke_sessions_in_tx_Inr [OF assms(1), THEN conjunct2, THEN conjunct2]])
    (use assms(2) in auto)

text \<open>Nothing of a dead family is accepted.\<close>

lemma dead_ends:
  assumes "family_dead f db"
  shows "(\<forall>d. fst (verify_refresh_token sha b e n raw db) \<notin> {Inr (Valid d), Inr (GracePeriod d)} \<or> ud_family d \<noteq> f)
    \<and> (\<forall>t. fst (rotate_refresh_token b e n old user f h x dv db) \<noteq> Inr t)"
  using dead_verify [OF assms, of sha b e n raw] dead_no_rotate [OF assms, of b e n old user h x dv] by blast

text \<open>A session token minted before a revocation is not later than the new cutoff.\<close>

lemma session_issued_before:
  assumes "ae_now e0 n0 \<le> c" "1 \<le> c" "\<forall>old. valid_from = Some old \<longrightarrow> old < c"
  shows "session_issued e0 n0 valid_from \<le> c"
  using assms by (auto simp: session_issued_def split: option.splits)

lemma outdated_session_refused:
  assumes "cl_purpose c = None" "\<not> recovery_scope (cl_extra c)" "cl_session_iat_us c = Some issued"
    "cutoff_le (Some issued) valid_from"
  shows "require_current_session c valid_from = Inl (AppUnauthorized ''Session revoked. Please log in again.'')"
  using assms by (auto simp: require_current_session_def cutoff_le_def)

lemma outdated_session_not_stored:
  assumes "cutoff_le (Some issued) (cutoff user db)"
  shows "fst (store_session_refresh_token b e n user h x dv f issued db) \<noteq> Inr t"
proof
  assume "fst (store_session_refresh_token b e n user h x dv f issued db) = Inr t"
  then obtain db' where "store_session_refresh_token b e n user h x dv f issued db = (Inr t, db')"
    by (metis prod.collapse)
  from store_session_in_tx_Inr [OF transaction_Inr [OF this [unfolded store_session_refresh_token_def]]] assms
  show False by (fastforce simp: cutoff_le_def)
qed

text \<open>C31: Revoking all sessions of a user is final. Let a revocation succeed and any steps of the token
  service follow that open no login under the same family name. Then no refresh token of a family of
  the user is ever accepted or rotated again; no login that was issued before the revocation can
  still store its refresh token; and every session access token issued before the revocation (by a
  clock not ahead of the revoking one) is refused, whatever the clocks do afterwards.\<close>

theorem revocation_is_final:
  assumes revoked: "revoke_all_user_sessions b e n user db = (Inr k, db1)"
    and own: "\<forall>r \<in> set (refresh_tokens db). rf_family r = f \<longrightarrow> rf_user r = user"
    and later: "list_all (\<lambda>(e, n, s). \<not> opens f s) steps" "db2 = fold (token_step_effect b) steps db1"
    and issued: "ae_now e0 n0 \<le> ae_now e n" "1 \<le> ae_now e n" "issued = session_issued e0 n0 (cutoff user db)"
  shows "(\<forall>d. fst (verify_refresh_token sha b e' n' raw db2) \<notin> {Inr (Valid d), Inr (GracePeriod d)} \<or> ud_family d \<noteq> f)
    \<and> (\<forall>t. fst (rotate_refresh_token b e' n' old user f h x dv db2) \<noteq> Inr t)
    \<and> (\<forall>t. fst (store_session_refresh_token b e' n' user h x dv fam issued db2) \<noteq> Inr t)
    \<and> (\<not> recovery_scope (cl_extra (access_claims e0 n0' sub mins extra None (Some issued))) \<longrightarrow>
       require_current_session (access_claims e0 n0' sub mins extra None (Some issued)) (cutoff user db2)
         = Inl (AppUnauthorized ''Session revoked. Please log in again.''))"
proof -
  note tx = transaction_Inr [OF revoked [unfolded revoke_all_user_sessions_def]]
  have dead: "family_dead f db2"
    unfolding later(2) by (rule dead_steps [OF revoked_family_dead [OF tx own] later(1)])
  from revoked_cutoff [OF tx] obtain c where c: "cutoff user db1 = Some c" "ae_now e n \<le> c"
      "\<forall>old. cutoff user db = Some old \<longrightarrow> old < c" by blast
  have "issued \<le> c" unfolding issued(3) by (rule session_issued_before) (use c issued(1,2) in auto)
  moreover have "cutoff_le (Some c) (cutoff user db2)"
    unfolding later(2) using cutoff_steps [of user db1 b steps] c(1) by simp
  ultimately have old: "cutoff_le (Some issued) (cutoff user db2)" by (force simp: cutoff_le_def)
  let ?c = "access_claims e0 n0' sub mins extra None (Some issued)"
  have "require_current_session ?c (cutoff user db2) = Inl (AppUnauthorized ''Session revoked. Please log in again.'')"
    if "\<not> recovery_scope (cl_extra ?c)"
    by (rule outdated_session_refused [OF _ that _ old]) (use that in \<open>simp_all add: access_claims_def Let_def\<close>)
  moreover have "\<forall>t. fst (store_session_refresh_token b e' n' user h x dv fam issued db2) \<noteq> Inr t"
    using outdated_session_not_stored [OF old] by blast
  ultimately show ?thesis using dead_ends [OF dead, of sha b e' n' raw old user h x dv] by blast
qed

subsection \<open>Theft\<close>

lemma theft_verdict:
  assumes "verify_refresh_token sha b e n raw db = (Inr (TheftDetected f u), db1)"
  shows "family_dead f db1 \<and> (\<exists>r a t. find_refresh b (sha raw) (ae_db_now e n) db = Some (r, a) \<and> rf_family r = f
    \<and> rf_user r = u \<and> ac_active a \<and> rf_replaced_at r = Some t \<and> t + GRACE_SECONDS * 10 ^ 6 < ae_now e n)"
proof -
  have dead: "family_dead g db'" if "revoke_token_family b e m g db = (Inr j, db')" for g m j db'
  proof -
    have "refresh_tokens db' = update_where (\<lambda>r. rf_family r = g \<and> rf_active r)
        (\<lambda>r. r\<lparr>rf_active := False, rf_revoked_at := Some (sql_now b (ae_db_now e m))\<rparr>) (refresh_tokens db)"
      using that by (auto simp: revoke_token_family_def statement_def update_refresh_def split: sum.splits)
    from dead_after_update [OF this] show ?thesis by simp
  qed
  from assms obtain r a t j where run: "find_refresh b (sha raw) (ae_db_now e n) db = Some (r, a)" "ac_active a"
      "rf_replaced_at r = Some t" "\<not> ae_now e n \<le> t + GRACE_SECONDS * 10 ^ 6" "rf_family r = f" "rf_user r = u"
      "revoke_token_family b e (n + 1) f db = (Inr j, db1)"
    by (auto simp: verify_refresh_token_def st_then_eq_Inr statement_def [of e n] hash_refresh_token_def st_simps
        split: sum.splits option.splits if_splits)
  from run dead [OF run(7)] show ?thesis by (auto simp: not_le)
qed

text \<open>C34: Theft detection: the verdict is given only for a token that is active and unexpired, of an
  active user, and whose stored time of replacement (on SQLite cut to the second) lies more than
  thirty seconds before the clock of the verdict; and it ends the whole family. Whatever steps
  follow, short of a login under the same family name, neither the thief nor the owner gets another
  token of the family accepted or rotated. A token of a deactivated user gives no such verdict.\<close>

theorem theft_kills_family:
  assumes seen: "verify_refresh_token sha b e n raw db = (Inr (TheftDetected f u), db1)"
    and later: "list_all (\<lambda>(e, n, s). \<not> opens f s) steps" "db2 = fold (token_step_effect b) steps db1"
  shows "(\<exists>r t. r \<in> set (refresh_tokens db) \<and> rf_hash r = sha raw \<and> rf_family r = f \<and> rf_user r = u \<and> rf_active r
      \<and> unexpired b (rf_expires_at r) (ae_db_now e n)
      \<and> rf_replaced_at r = Some t \<and> t + 30 * 10 ^ 6 < ae_now e n)
    \<and> (\<exists>a \<in> set (accounts db). ac_id a = u \<and> ac_active a)
    \<and> (\<forall>d. fst (verify_refresh_token sha b e' n' any db2) \<notin> {Inr (Valid d), Inr (GracePeriod d)} \<or> ud_family d \<noteq> f)
    \<and> (\<forall>t. fst (rotate_refresh_token b e' n' old user f h x dv db2) \<noteq> Inr t)"
proof -
  note t = theft_verdict [OF seen]
  have dead: "family_dead f db2" unfolding later(2) by (rule dead_steps [OF _ later(1)]) (use t in blast)
  from t obtain r a at where r: "find_refresh b (sha raw) (ae_db_now e n) db = Some (r, a)" "rf_family r = f"
      "rf_user r = u" "ac_active a" "rf_replaced_at r = Some at" "at + GRACE_SECONDS * 10 ^ 6 < ae_now e n" by blast
  note row = find_refresh_SomeD [OF r(1)]
  have "\<exists>r t. r \<in> set (refresh_tokens db) \<and> rf_hash r = sha raw \<and> rf_family r = f \<and> rf_user r = u \<and> rf_active r
      \<and> unexpired b (rf_expires_at r) (ae_db_now e n) \<and> rf_replaced_at r = Some t \<and> t + 30 * 10 ^ 6 < ae_now e n"
    using row r unfolding GRACE_SECONDS_def by blast
  moreover have "\<exists>a \<in> set (accounts db). ac_id a = u \<and> ac_active a" using row r(3,4) by blast
  ultimately show ?thesis
    using dead_ends [OF dead, of sha b e' n' any old user h x dv] by blast
qed

subsection \<open>Rotation\<close>

text \<open>With distinct hashes and account names, a token is found when it is active and not expired.\<close>

definition tokens_distinct :: "auth_db \<Rightarrow> bool" where
  "tokens_distinct db \<longleftrightarrow> distinct (map rf_id (refresh_tokens db)) \<and> distinct (map rf_hash (refresh_tokens db))
     \<and> distinct (map ac_id (accounts db))"

lemma distinct_same: "distinct (map g xs) \<Longrightarrow> x \<in> set xs \<Longrightarrow> y \<in> set xs \<Longrightarrow> g x = g y \<Longrightarrow> x = y"
  by (auto simp: distinct_map inj_on_def)

lemma find_refresh_found:
  assumes "distinct (map rf_hash (refresh_tokens db))" "distinct (map ac_id (accounts db))"
    "r \<in> set (refresh_tokens db)" "u \<in> set (accounts db)" "ac_id u = rf_user r" "rf_active r"
    "unexpired b (rf_expires_at r) now"
  shows "find_refresh b (rf_hash r) now db = Some (r, u)"
proof (cases "find_refresh b (rf_hash r) now db")
  case None
  then show ?thesis using assms unfolding find_refresh_def find_None_iff_ball by fastforce
next
  case (Some ru)
  obtain r' u' where ru: "ru = (r', u')" by (cases ru)
  from find_refresh_SomeD [OF Some [unfolded ru]]
  have "r' = r" using distinct_same [OF assms(1), of r' r] assms(3) by simp
  moreover have "u' = u"
    using find_refresh_SomeD [OF Some [unfolded ru]] \<open>r' = r\<close> distinct_same [OF assms(2), of u' u] assms(4,5) by simp
  ultimately show ?thesis using Some ru by simp
qed

lemma find_refresh_dead:
  assumes "distinct (map rf_hash (refresh_tokens db))" "r \<in> set (refresh_tokens db)" "\<not> rf_active r"
  shows "find_refresh b (rf_hash r) now db = None"
proof (cases "find_refresh b (rf_hash r) now db")
  case (Some ru)
  obtain r' u' where ru: "ru = (r', u')" by (cases ru)
  from find_refresh_SomeD [OF Some [unfolded ru]] distinct_same [OF assms(1), of r' r] assms(2,3) show ?thesis by auto
qed

text \<open>The verdict on a token that is found, when no statement fails.\<close>

lemma verify_found:
  assumes "find_refresh b (sha raw) (ae_db_now e n) db = Some (r, u)" "ac_active u"
    "ae_fault e n = None" "ae_fault e (n + 1) = None"
  shows "fst (verify_refresh_token sha b e n raw db) = Inr (case rf_replaced_at r of
       None \<Rightarrow> Valid (user_data_of r u)
     | Some t \<Rightarrow> if ae_now e n \<le> t + GRACE_SECONDS * 10 ^ 6 then GracePeriod (user_data_of r u)
                 else TheftDetected (rf_family r) (rf_user r))"
  using assms
  by (auto simp: verify_refresh_token_def st_then_def statement_def sql_def hash_refresh_token_def st_simps touch_refresh_def
      revoke_token_family_def Let_def split: option.splits prod.splits)

text \<open>The table after a rotation: the old row carries the time of its replacement, the new one follows.\<close>

lemma rotated_tokens:
  assumes "rotate_refresh_token b e n (rf_id r) (rf_user r) (rf_family r) hash expires dv db = (Inr t, db1)"
    "tokens_distinct db" "r \<in> set (refresh_tokens db)" "hash \<notin> rf_hash ` set (refresh_tokens db)"
  shows "rf_active r \<and> accounts db1 = accounts db \<and> tokens_distinct db1
    \<and> r\<lparr>rf_replaced_at := Some (sql_now b (ae_db_now e n))\<rparr> \<in> set (refresh_tokens db1)
    \<and> new_refresh t (rf_user r) hash expires (sql_now b (ae_db_now e n)) dv None (rf_family r) \<in> set (refresh_tokens db1)"
proof -
  define p where "p = (\<lambda>q :: refresh_row. rf_id q = rf_id r \<and> rf_user q = rf_user r \<and> rf_family q = rf_family r
     \<and> rf_active q \<and> unexpired b (rf_expires_at q) (ae_db_now e n))"
  define g where "g = (\<lambda>q :: refresh_row. q\<lparr>rf_replaced_at := Some (sql_now b (ae_db_now e n))\<rparr>)"
  define new where "new = new_refresh t (rf_user r) hash expires (sql_now b (ae_db_now e n)) dv None (rf_family r)"
  note tx = rotate_in_tx_Inr [OF transaction_Inr [OF assms(1) [unfolded rotate_refresh_token_def]],
      folded p_def g_def new_def]
  then obtain q where "q \<in> set (refresh_tokens db)" "p q" unfolding p_def by blast
  moreover have "q = r" using distinct_same [of rf_id "refresh_tokens db" q r] calculation assms(2,3)
    by (simp add: tokens_distinct_def p_def)
  ultimately have "p r" by simp
  have tables: "refresh_tokens db1 = update_where p g (refresh_tokens db) @ [new]" "accounts db1 = accounts db"
    "t \<notin> rf_id ` set (refresh_tokens db)"
    using tx by blast+
  have "map rf_id (update_where p g (refresh_tokens db)) = map rf_id (refresh_tokens db)"
    "map rf_hash (update_where p g (refresh_tokens db)) = map rf_hash (refresh_tokens db)"
    by (rule map_update_where, simp add: g_def)+
  then have "tokens_distinct db1" using assms(2,4) tables by (simp add: tokens_distinct_def new_def new_refresh_def)
  moreover have "g r \<in> set (refresh_tokens db1)" using tables(1) \<open>p r\<close> assms(3) by (auto simp: update_where_def)
  ultimately show ?thesis using tables \<open>p r\<close> unfolding new_def [symmetric] g_def [symmetric]
    by (simp add: p_def g_def)
qed

text \<open>This includes a token that had been replaced before: its grace period starts again.\<close>

lemma grace_window_restarts:
  assumes "rotate_refresh_token b e n (rf_id r) (rf_user r) (rf_family r) hash expires dv db = (Inr t, db1)"
    "tokens_distinct db" "r \<in> set (refresh_tokens db)" "hash \<notin> rf_hash ` set (refresh_tokens db)"
  shows "\<exists>r' \<in> set (refresh_tokens db1). rf_id r' = rf_id r \<and> rf_replaced_at r' = Some (sql_now b (ae_db_now e n))"
  by (rule bexI [of _ "r\<lparr>rf_replaced_at := Some (sql_now b (ae_db_now e n))\<rparr>"]) (use rotated_tokens [OF assms] in simp_all)

lemma verify_dead:
  assumes "tokens_distinct db" "r \<in> set (refresh_tokens db)" "\<not> rf_active r" "ae_fault e n = None" "sha raw = rf_hash r"
  shows "verify_refresh_token sha b e n raw db = (Inr Invalid, db)"
  using find_refresh_dead [of db r] assms
  by (simp add: verify_refresh_token_def st_then_def statement_def sql_def hash_refresh_token_def st_simps tokens_distinct_def)

text \<open>The columns that identify a token; no verdict changes them.\<close>

definition token_keys :: "refresh_row \<Rightarrow> string \<times> string \<times> string" where
  "token_keys r = (rf_id r, rf_hash r, rf_family r)"

lemma verify_keeps_keys:
  "map token_keys (refresh_tokens (snd (verify_refresh_token sha b e n raw db))) = map token_keys (refresh_tokens db)
   \<and> accounts (snd (verify_refresh_token sha b e n raw db)) = accounts db"
proof -
  have touch: "map token_keys (refresh_tokens (snd (touch_refresh b e m t d))) = map token_keys (refresh_tokens d)
      \<and> accounts (snd (touch_refresh b e m t d)) = accounts d" for m t d
    by (auto simp: touch_refresh_def statement_def map_update_where token_keys_def split: sum.splits)
  have revoke: "map token_keys (refresh_tokens (snd (revoke_token_family b e m t d))) = map token_keys (refresh_tokens d)
      \<and> accounts (snd (revoke_token_family b e m t d)) = accounts d" for m t d
    by (auto simp: revoke_token_family_def statement_def update_refresh_def map_update_where token_keys_def split: sum.splits)
  have after: "snd (st_then m (\<lambda>_. st_ok v) d) = snd (m d)"
    for m :: "auth_db \<Rightarrow> (app_error + 'a) \<times> auth_db" and v :: refresh_verify_result and d
    by (auto simp: st_then_def st_simps split: sum.splits prod.splits)
  show ?thesis
    using touch revoke
    by (auto simp: verify_refresh_token_def st_then_def [of "statement e n f" for f] statement_def [of e n] st_simps after
      split: sum.splits option.splits)
qed

lemma same_keys_distinct:
  assumes "map token_keys (refresh_tokens db') = map token_keys (refresh_tokens db)" "accounts db' = accounts db"
    "tokens_distinct db"
  shows "tokens_distinct db'"
proof -
  have "map rf_id rs = map fst (map token_keys rs)" "map rf_hash rs = map (fst \<circ> snd) (map token_keys rs)" for rs
    by (simp_all add: token_keys_def)
  then show ?thesis using assms unfolding tokens_distinct_def by metis
qed

text \<open>A rotation hands the session over. After it succeeded, the new token is accepted until it expires,
  for the same user and family. The old token is still accepted for the thirty seconds of grace after
  the rotation, so that concurrent requests of one browser do not fail; presented later, it is taken
  for stolen, and then the new token is refused as well.\<close>

theorem rotation_hands_over:
  assumes rotated: "rotate_refresh_token b e n (rf_id r) (rf_user r) (rf_family r) (sha fresh) expires dv db = (Inr t, db1)"
    and tables: "tokens_distinct db" "r \<in> set (refresh_tokens db)" "rf_hash r = sha raw"
      "u \<in> set (accounts db)" "ac_id u = rf_user r" "ac_active u"
    and unused: "sha fresh \<notin> rf_hash ` set (refresh_tokens db)"
    and calm: "ae_fault e' n' = None" "ae_fault e' (n' + 1) = None" "ae_fault e'' n'' = None"
  shows "(unexpired b expires (ae_db_now e' n') \<longrightarrow>
      (\<exists>d. fst (verify_refresh_token sha b e' n' fresh db1) = Inr (Valid d) \<and> ud_token d = t
         \<and> ud_user d = rf_user r \<and> ud_family d = rf_family r))
    \<and> (unexpired b (rf_expires_at r) (ae_db_now e' n') \<longrightarrow>
        (if ae_now e' n' \<le> sql_now b (ae_db_now e n) + 30 * 10 ^ 6
         then \<exists>d. fst (verify_refresh_token sha b e' n' raw db1) = Inr (GracePeriod d) \<and> ud_token d = rf_id r
         else fst (verify_refresh_token sha b e' n' raw db1) = Inr (TheftDetected (rf_family r) (rf_user r))
            \<and> fst (verify_refresh_token sha b e'' n'' fresh (snd (verify_refresh_token sha b e' n' raw db1))) = Inr Invalid))"
proof -
  define old where "old = r\<lparr>rf_replaced_at := Some (sql_now b (ae_db_now e n))\<rparr>"
  define new where "new = new_refresh t (rf_user r) (sha fresh) expires (sql_now b (ae_db_now e n)) dv None (rf_family r)"
  have now: "rf_active old" "accounts db1 = accounts db" "tokens_distinct db1" "old \<in> set (refresh_tokens db1)"
      "new \<in> set (refresh_tokens db1)"
    using rotated_tokens [OF rotated tables(1,2) unused] by (simp_all add: old_def new_def)
  have distinct: "distinct (map rf_hash (refresh_tokens db1))" "distinct (map ac_id (accounts db1))"
    using now(3) by (simp_all add: tokens_distinct_def)
  have "find_refresh b (sha fresh) (ae_db_now e' n') db1 = Some (new, u)" if "unexpired b expires (ae_db_now e' n')"
    using find_refresh_found [OF distinct now(5), of u b "ae_db_now e' n'"] tables now(2) that
    by (simp add: new_def new_refresh_def)
  then have accepted: "fst (verify_refresh_token sha b e' n' fresh db1) = Inr (Valid (user_data_of new u))"
    if "unexpired b expires (ae_db_now e' n')"
    using verify_found [of b sha fresh e' n' db1 new u] that tables(6) calm by (simp add: new_def new_refresh_def)
  have "find_refresh b (sha raw) (ae_db_now e' n') db1 = Some (old, u)" if "unexpired b (rf_expires_at r) (ae_db_now e' n')"
    using find_refresh_found [OF distinct now(4), of u b "ae_db_now e' n'"] tables now(1,2) that by (simp add: old_def)
  then have again: "fst (verify_refresh_token sha b e' n' raw db1) =
      Inr (if ae_now e' n' \<le> sql_now b (ae_db_now e n) + 30 * 10 ^ 6 then GracePeriod (user_data_of old u)
           else TheftDetected (rf_family r) (rf_user r))"
    if "unexpired b (rf_expires_at r) (ae_db_now e' n')"
    using verify_found [of b sha raw e' n' db1 old u] that tables(6) calm by (simp add: old_def GRACE_SECONDS_def)
  have ended: "fst (verify_refresh_token sha b e'' n'' fresh (snd (verify_refresh_token sha b e' n' raw db1))) = Inr Invalid"
    if "fst (verify_refresh_token sha b e' n' raw db1) = Inr (TheftDetected (rf_family r) (rf_user r))"
  proof -
    let ?db2 = "snd (verify_refresh_token sha b e' n' raw db1)"
    have "family_dead (rf_family r) ?db2" using theft_verdict [of sha b e' n' raw db1 _ _ ?db2] that by (metis prod.collapse)
    moreover obtain q where q: "q \<in> set (refresh_tokens ?db2)" "token_keys q = token_keys new"
      using verify_keeps_keys [of sha b e' n' raw db1] now(5) by (metis (no_types, lifting) imageE imageI set_map)
    ultimately have "\<not> rf_active q" "sha fresh = rf_hash q"
      by (auto simp: family_dead_def token_keys_def new_def new_refresh_def)
    moreover have "tokens_distinct ?db2"
      using same_keys_distinct [of ?db2 db1] verify_keeps_keys [of sha b e' n' raw db1] now(3) by simp
    ultimately show ?thesis using verify_dead [of ?db2 q e'' n'' sha fresh b] q(1) calm(3) by simp
  qed
  show ?thesis using accepted again ended by (auto simp: user_data_of_def old_def new_def new_refresh_def)
qed

subsection \<open>Requests\<close>

text \<open>Operations that only read.\<close>

definition reads :: "('s \<Rightarrow> ('e + 'a) \<times> 's) \<Rightarrow> bool" where
  "reads m \<longleftrightarrow> (\<forall>s. snd (m s) = s)"

named_theorems reads_intros

lemma reads_basic [reads_intros]: "reads (st_ok x)" "reads (st_err e)" "reads (st_lift r)"
  by (simp_all add: reads_def st_simps)

lemma reads_then [reads_intros]: "reads m \<Longrightarrow> (\<And>x. reads (f x)) \<Longrightarrow> reads (st_then m f)"
  unfolding reads_def st_then_def by (auto split: prod.splits sum.splits) (metis snd_conv)+

lemma reads_map_err [reads_intros]: "reads m \<Longrightarrow> reads (st_map_err g m)"
  by (auto simp: reads_def st_map_err_def split: prod.splits) (metis snd_conv)

lemma reads_statement: "reads (statement e n (\<lambda>db. (g db, db)))"
  by (simp add: reads_def statement_def split: sum.splits)

lemma reads_lookups [reads_intros]:
  "reads (get_user_by_id e n user)" "reads (get_workspace e n ws)" "reads (get_workspace_user e n ws user)"
  "reads (first_membership e n user)"
  unfolding get_user_by_id_def get_workspace_def get_workspace_user_def first_membership_def by (rule reads_statement)+

lemma reads_load_context: "reads (load_context e hosted user claimed)"
  unfolding load_context_def by (auto intro!: reads_intros split: option.splits)

lemma reads_load_auth_user: "reads (load_auth_user jc e st rq)"
  unfolding load_auth_user_def load_personal_user_def
  by (auto intro!: reads_intros reads_load_context)

text \<open>The lookups, inverted.\<close>

lemma lookup_Inr [simp]:
  "get_user_by_id e n user db = (Inr x, db') \<longleftrightarrow> ae_fault e n = None \<and> x = find (\<lambda>u. ac_id u = user) (accounts db) \<and> db' = db"
  "get_workspace e n ws db = (Inr w, db') \<longleftrightarrow> ae_fault e n = None \<and> w = find (\<lambda>w. wk_id w = ws) (workspaces db) \<and> db' = db"
  "get_workspace_user e n ws user db = (Inr m, db') \<longleftrightarrow> ae_fault e n = None
     \<and> m = find (\<lambda>m. mb_workspace m = ws \<and> mb_user m = user \<and> mb_active m) (memberships db) \<and> db' = db"
  by (auto simp: get_user_by_id_def get_workspace_def get_workspace_user_def statement_def sql_def split: option.splits)

lemma st_map_err_Inr [simp]: "st_map_err g m s = (Inr v, s') \<longleftrightarrow> m s = (Inr v, s')"
  by (auto simp: st_map_err_def split: prod.splits)

lemma st_basic_Inr [simp]:
  "st_ok x s = (Inr v, s') \<longleftrightarrow> v = x \<and> s' = s" "st_err e s \<noteq> (Inr v, s')" "st_lift r s = (Inr v, s') \<longleftrightarrow> r = Inr v \<and> s' = s"
  by (auto simp: st_simps)

lemma load_context_Inr:
  assumes "load_context e hosted user claimed db = (Inr ctx, db')"
  shows "wc_workspace_id ctx = None \<and> ctx = default_context
    \<or> (\<exists>ws w m. claimed = Some ws \<and> find (\<lambda>w. wk_id w = ws) (workspaces db) = Some w \<and> m \<in> set (memberships db)
        \<and> mb_workspace m = ws \<and> mb_user m = user \<and> mb_active m
        \<and> ctx = context_of w (mb_role m) ws (wk_owner w = user) (billing_gate_blocks w hosted (ae_now e 4)))"
proof (cases claimed)
  case None
  with assms show ?thesis by (auto simp: load_context_def default_context_def)
next
  case (Some ws)
  show ?thesis
  proof (cases "find (\<lambda>w. wk_id w = ws) (workspaces db)")
    case None
    with assms Some show ?thesis by (auto simp: load_context_def st_then_eq_Inr default_context_def)
  next
    case (Some w)
    with assms \<open>claimed = Some ws\<close> show ?thesis
      by (auto simp: load_context_def st_then_eq_Inr dest!: find_SomeD split: option.splits)
  qed
qed

lemma load_auth_user_Inr:
  assumes "load_auth_user jc e st rq db = (Inr au, db')" "\<not> au_is_personal st"
  obtains token c u ctx where "extract_token rq = Inr token"
    "jw_decode jc (au_jwt_secret st) token (unix_seconds (ae_now e 0)) = Inr c"
    "rq_path rq \<noteq> ''/mcp'' \<and> rq_path rq \<noteq> ''/mcp/'' \<longrightarrow> cl_purpose c = None"
    "find (\<lambda>u. ac_id u = claimed_user c) (accounts db) = Some u" "ac_active u"
    "require_current_session c (ac_sessions_valid_from u) = Inr ()"
    "load_context e (au_self_hosted st) (claimed_user c) (extra_str ''workspace_id'' (cl_extra c)) db = (Inr ctx, db)"
    "au = auth_user_of u ctx (Some (cl_exp c)) (cl_jti c)"
proof -
  from assms obtain token c u ctx db2 where run: "extract_token rq = Inr token"
      "validate_token jc e 0 token (au_jwt_secret st) = Inr c"
      "(if rq_path rq \<noteq> ''/mcp'' \<and> rq_path rq \<noteq> ''/mcp/'' then require_session c else Inr ()) = Inr ()"
      "find (\<lambda>u. ac_id u = claimed_user c) (accounts db) = Some u" "ac_active u"
      "require_current_session c (ac_sessions_valid_from u) = Inr ()"
      "load_context e (au_self_hosted st) (claimed_user c) (extra_str ''workspace_id'' (cl_extra c)) db = (Inr ctx, db2)"
      "au = auth_user_of u ctx (Some (cl_exp c)) (cl_jti c)"
    unfolding load_auth_user_def by (simp add: st_then_eq_Inr) (elim exE conjE, rule that, auto)
  have "db2 = db"
    using run(7) reads_load_context unfolding reads_def by (metis snd_conv)
  with run show thesis
    by (intro that) (auto simp: validate_token_def require_session_def split: if_splits)
qed

lemma load_auth_user_unchanged: "load_auth_user jc e st rq db = (r, db') \<Longrightarrow> db' = db"
  using reads_load_auth_user unfolding reads_def by (metis snd_conv)

text \<open>What the extractor may say of the workspace: nothing, or that of an active membership.\<close>

definition member_context :: "auth_db \<Rightarrow> bool \<Rightarrow> int \<Rightarrow> string option \<Rightarrow> string \<Rightarrow> workspace_context \<Rightarrow> bool" where
  "member_context db hosted now claimed user ctx \<longleftrightarrow>
     (case wc_workspace_id ctx of
        None \<Rightarrow> wc_roles ctx = [] \<and> \<not> wc_is_owner ctx
      | Some ws \<Rightarrow> claimed = Some ws
          \<and> (\<exists>m \<in> set (memberships db). mb_workspace m = ws \<and> mb_user m = user \<and> mb_active m \<and> wc_roles ctx = [mb_role m])
          \<and> (\<exists>w \<in> set (workspaces db). wk_id w = ws \<and> (hosted \<or> paid_up w now)
               \<and> (wc_is_owner ctx \<longleftrightarrow> wk_owner w = user)))"

lemma load_context_member:
  assumes "load_context e hosted user claimed db = (Inr ctx, db')" "\<not> wc_billing_lapsed ctx"
  shows "member_context db hosted (ae_now e 4) claimed user ctx"
  using load_context_Inr [OF assms(1)]
proof
  assume "wc_workspace_id ctx = None \<and> ctx = default_context"
  then show ?thesis by (simp add: member_context_def default_context_def)
next
  assume "\<exists>ws w m. claimed = Some ws \<and> find (\<lambda>w. wk_id w = ws) (workspaces db) = Some w
      \<and> m \<in> set (memberships db) \<and> mb_workspace m = ws \<and> mb_user m = user \<and> mb_active m
      \<and> ctx = context_of w (mb_role m) ws (wk_owner w = user) (billing_gate_blocks w hosted (ae_now e 4))"
  then obtain ws w m where found: "claimed = Some ws" "find (\<lambda>w. wk_id w = ws) (workspaces db) = Some w"
      "m \<in> set (memberships db)" "mb_workspace m = ws" "mb_user m = user" "mb_active m"
      "ctx = context_of w (mb_role m) ws (wk_owner w = user) (billing_gate_blocks w hosted (ae_now e 4))" by blast
  have "hosted \<or> paid_up w (ae_now e 4)" using assms(2) found(7) by (simp add: context_of_def gate_blocks_iff)
  with find_SomeD [OF found(2)] found show ?thesis by (auto simp: member_context_def context_of_def)
qed

text \<open>A browser session token is younger than the cutoff a revocation left: by the microsecond stamp of
  its session, or by its issuing second where it has none.\<close>

definition issued_after_cutoff :: "claims \<Rightarrow> int option \<Rightarrow> bool" where
  "issued_after_cutoff c valid_from \<longleftrightarrow> (\<forall>limit. valid_from = Some limit \<longrightarrow>
     (case cl_session_iat_us c of Some issued \<Rightarrow> limit < issued | None \<Rightarrow> limit div 10 ^ 6 < cl_iat c))"

lemma current_session_issued_after:
  "cl_purpose c = None \<Longrightarrow> \<not> recovery_scope (cl_extra c)
    \<Longrightarrow> require_current_session c valid_from = Inr () \<longleftrightarrow> issued_after_cutoff c valid_from"
  by (cases valid_from; cases "cl_session_iat_us c") (simp_all add: require_current_session_def issued_after_cutoff_def not_le)

text \<open>C33: The authentication of a request is sound. Outside personal mode, a request that the extractor lets
  in carried a token that the JWT library accepts now; the token is no API token unless the request
  is for the MCP endpoint; its user exists and is active; a browser session token was issued after
  the cutoff that the user's last revocation of all sessions left; and the workspace in the result
  is the one the token names, of which the user is an active member at this moment, with the role
  stored for that membership, and it is paid up or self-hosted. Whatever the answer, the database is
  unchanged. Tokens with a purpose, and those of the passkey recovery, have no session cutoff.\<close>

theorem authenticated_request:
  "snd (auth_user_extractor jc e st rq db) = db
   \<and> (\<not> au_is_personal st \<longrightarrow> fst (auth_user_extractor jc e st rq db) = Inr au \<longrightarrow>
     (\<exists>token c u. extract_token rq = Inr token
        \<and> jw_decode jc (au_jwt_secret st) token (unix_seconds (ae_now e 0)) = Inr c
        \<and> (rq_path rq \<notin> {''/mcp'', ''/mcp/''} \<longrightarrow> cl_purpose c = None)
        \<and> u \<in> set (accounts db) \<and> ac_id u = claimed_user c \<and> us_user au = ac_id u \<and> ac_active u
        \<and> (cl_purpose c = None \<and> \<not> recovery_scope (cl_extra c) \<longrightarrow> issued_after_cutoff c (cutoff (ac_id u) db))
        \<and> member_context db (au_self_hosted st) (ae_now e 4) (extra_str ''workspace_id'' (cl_extra c)) (ac_id u)
             (us_workspace au)))"
proof (intro conjI impI)
  show "snd (auth_user_extractor jc e st rq db) = db"
    using reads_load_auth_user [of jc e st rq] unfolding auth_user_extractor_def reads_def st_then_def
    by (auto simp: st_simps split: prod.splits sum.splits) (metis snd_conv)+
next
  assume "\<not> au_is_personal st" "fst (auth_user_extractor jc e st rq db) = Inr au"
  then have run: "load_auth_user jc e st rq db = (Inr au, db)" "\<not> wc_billing_lapsed (us_workspace au)"
    by (auto simp: auth_user_extractor_def st_then_def st_simps split: prod.splits sum.splits if_splits
        dest: load_auth_user_unchanged)
  from load_auth_user_Inr [OF run(1) \<open>\<not> au_is_personal st\<close>] obtain token c u ctx where r: "extract_token rq = Inr token"
    "jw_decode jc (au_jwt_secret st) token (unix_seconds (ae_now e 0)) = Inr c"
    "rq_path rq \<noteq> ''/mcp'' \<and> rq_path rq \<noteq> ''/mcp/'' \<longrightarrow> cl_purpose c = None"
    "find (\<lambda>u. ac_id u = claimed_user c) (accounts db) = Some u" "ac_active u"
    "require_current_session c (ac_sessions_valid_from u) = Inr ()"
    "load_context e (au_self_hosted st) (claimed_user c) (extra_str ''workspace_id'' (cl_extra c)) db = (Inr ctx, db)"
    "au = auth_user_of u ctx (Some (cl_exp c)) (cl_jti c)" by metis
  have u: "u \<in> set (accounts db)" "ac_id u = claimed_user c" using find_SomeD [OF r(4)] by simp_all
  have ctx: "us_workspace au = ctx" "us_user au = ac_id u" using r(8) by (simp_all add: auth_user_of_def)
  have "cutoff (ac_id u) db = ac_sessions_valid_from u" using r(4) u(2) by (simp add: cutoff_def)
  moreover have "member_context db (au_self_hosted st) (ae_now e 4) (extra_str ''workspace_id'' (cl_extra c)) (ac_id u) ctx"
    using load_context_member [OF r(7)] run(2) ctx(1) u(2) by simp
  ultimately show "\<exists>token c u. extract_token rq = Inr token
        \<and> jw_decode jc (au_jwt_secret st) token (unix_seconds (ae_now e 0)) = Inr c
        \<and> (rq_path rq \<notin> {''/mcp'', ''/mcp/''} \<longrightarrow> cl_purpose c = None)
        \<and> u \<in> set (accounts db) \<and> ac_id u = claimed_user c \<and> us_user au = ac_id u \<and> ac_active u
        \<and> (cl_purpose c = None \<and> \<not> recovery_scope (cl_extra c) \<longrightarrow> issued_after_cutoff c (cutoff (ac_id u) db))
        \<and> member_context db (au_self_hosted st) (ae_now e 4) (extra_str ''workspace_id'' (cl_extra c)) (ac_id u)
             (us_workspace au)"
    using r(1-3,5,6) u ctx current_session_issued_after [of c "ac_sessions_valid_from u"] by (intro exI [of _ token] exI [of _ c] exI [of _ u] conjI) simp_all
qed

text \<open>A token of the passkey recovery is no API token and has no session cutoff, so it passes every check of
  \<open>load_auth_user\<close>, also after the user revoked all sessions.\<close>

lemma recovery_token_opens_requests:
  assumes "\<not> au_is_personal st" "extract_token rq = Inr token"
    "jw_decode jc (au_jwt_secret st) token (unix_seconds (ae_now e 0)) = Inr c"
    "cl_purpose c = None" "recovery_scope (cl_extra c)" "extra_str ''workspace_id'' (cl_extra c) = None"
    "find (\<lambda>u. ac_id u = claimed_user c) (accounts db) = Some u" "ac_active u" "ae_fault e 1 = None"
  shows "fst (auth_user_extractor jc e st rq db) = Inr (auth_user_of u default_context (Some (cl_exp c)) (cl_jti c))"
proof -
  have "load_auth_user jc e st rq db = (Inr (auth_user_of u default_context (Some (cl_exp c)) (cl_jti c)), db)"
    using assms by (auto simp: load_auth_user_def st_then_eq_Inr validate_token_def require_session_def
        require_current_session_def load_context_def ensure_def)
  then show ?thesis by (simp add: auth_user_extractor_def auth_user_of_def default_context_def st_simps)
qed

subsection \<open>Kinds of tokens\<close>

lemma minted_claims:
  "create_access_token_with_purpose jc e n sub secret mins extra purpose issued = Inr t \<longleftrightarrow>
   jw_encode jc secret (access_claims e n sub mins extra purpose issued) = Inr t"
  by (simp add: create_access_token_with_purpose_def)

lemma access_claims_simps [simp]:
  "cl_sub (access_claims e n sub mins extra purpose issued) = sub"
  "cl_purpose (access_claims e n sub mins extra purpose issued) = purpose"
  "cl_exp (access_claims e n sub mins extra purpose issued) = unix_seconds (ae_now e n + mins * 60 * 10 ^ 6)"
  by (simp_all add: access_claims_def Let_def)

lemma accepted_row:
  assumes "verify_refresh_token sha b e n raw db = (Inr v, db1)" "v = Valid d \<or> v = GracePeriod d"
  shows "\<exists>r u. find_refresh b (sha raw) (ae_db_now e n) db = Some (r, u) \<and> ac_active u \<and> d = user_data_of r u"
  using verify_accepts [of sha b e n raw db d] assms by auto

lemma verdict_row:
  "verify_refresh_token sha b e n raw db = (Inr v, db1) \<Longrightarrow>
   map token_keys (refresh_tokens db1) = map token_keys (refresh_tokens db)"
  using verify_keeps_keys [of sha b e n raw db] by simp

lemma context_reads: "snd (get_user_workspace_context e n user db) = db"
proof -
  have "reads (get_user_workspace_context e n user)"
    unfolding get_user_workspace_context_def last_context_def by (auto intro!: reads_intros split: option.splits)
  then show ?thesis by (simp add: reads_def)
qed

lemma renew_keeps_keys:
  "renew_oauth_refresh_token b e n tid client x db = (r, db') \<Longrightarrow>
   map token_keys (refresh_tokens db') = map token_keys (refresh_tokens db)"
  by (auto simp: renew_oauth_refresh_token_def statement_def update_refresh_def map_update_where token_keys_def
      split: sum.splits)

lemma refreshed_session_token:
  assumes "refresh_verified_tokens jc sha b e secret d dv db = (Inr rt, db1)"
  shows "rt_user rt = ud_user d \<and> (\<exists>c. jw_encode jc secret c = Inr (rt_access_token rt) \<and> cl_purpose c = None \<and> cl_sub c = ud_user d)"
  using assms
  by (auto simp: refresh_verified_tokens_def Let_def st_then_eq_Inr create_session_access_token_str_def minted_claims
      split: prod.splits)

lemma refresh_flow_Inr:
  assumes "refresh_tokens_flow jc sha b e secret raw dv db = (Inr rt, db')"
  shows "\<exists>r \<in> set (refresh_tokens db). rf_hash r = sha raw \<and> rf_active r \<and> rf_client r = None \<and> rt_user rt = rf_user r
     \<and> (\<exists>c. jw_encode jc secret c = Inr (rt_access_token rt) \<and> cl_purpose c = None \<and> cl_sub c = rf_user r)"
proof -
  from assms obtain v db1 d where run: "verify_refresh_token sha b e 0 raw db = (Inr v, db1)" "v = Valid d \<or> v = GracePeriod d"
      "ud_client d = None" "refresh_verified_tokens jc sha b e secret d dv db1 = (Inr rt, db')"
    unfolding refresh_tokens_flow_def st_then_eq_Inr
    by (elim exE conjE) (simp split: refresh_verify_result.splits if_splits)
  from accepted_row [OF run(1,2)] obtain r u where row: "find_refresh b (sha raw) (ae_db_now e 0) db = Some (r, u)"
      "d = user_data_of r u" by blast
  from find_refresh_SomeD [OF row(1)] refreshed_session_token [OF run(4)] run(3) row(2) show ?thesis
    by (intro bexI [of _ r]) (simp_all add: user_data_of_def)
qed

lemma refresh_grant_Inr:
  assumes "handle_refresh_token jc sha b e secret param client db = (Inr tk, db')"
  obtains token v d u db1 access ws db2 where "param = Some token" "verify_refresh_token sha b e 0 token db = (Inr v, db1)"
    "v = Valid d \<or> v = GracePeriod d" "ud_client d = Some client" "ac_id (u :: account_row) = ud_user d"
    "create_mcp_access_token_str jc e 20 (ac_id u) secret ACCESS_TOKEN_MINUTES
       [(''user_id'', JString (ac_id u)), (''email'', JString (ac_email u)), (''name'', opt_json (ac_name u)),
        (''workspace_id'', JString ws)] = Inr access"
    "renew_oauth_refresh_token b e 30 (ud_token d) client (ae_now e 31 + REFRESH_TOKEN_DAYS * 86400 * 10 ^ 6) db1 = (Inr True, db')"
    "tk_access_token tk = access" "tk_refresh_token tk = Some token"
proof -
  from assms obtain token v db1 d u where run: "param = Some token" "verify_refresh_token sha b e 0 token db = (Inr v, db1)"
      "v = Valid d \<or> v = GracePeriod d" "client_check d client = Inr ()"
      "find (\<lambda>u. ac_id u = ud_user d) (accounts db1) = Some u"
    and rest: "(let (ctx, s1) = get_user_workspace_context e 11 (ac_id u) db1 in
        st_then (st_lift (ok_or (case ctx of Inr (Some (w, _)) \<Rightarrow> Some (wk_id w) | _ \<Rightarrow> None)
          (bad_grant ''invalid_grant: no workspace access''))) (\<lambda>ws.
        st_then (st_lift (map_err (\<lambda>_. (500, ''internal_error'')) (create_mcp_access_token_str jc e 20 (ac_id u) secret ACCESS_TOKEN_MINUTES
          [(''user_id'', JString (ac_id u)), (''email'', JString (ac_email u)), (''name'', opt_json (ac_name u)),
           (''workspace_id'', JString ws)]))) (\<lambda>access.
        st_then (st_map_err (\<lambda>_. (500, ''internal_error'')) (renew_oauth_refresh_token b e 30 (ud_token d) client
          (ae_now e 31 + REFRESH_TOKEN_DAYS * 86400 * 10 ^ 6))) (\<lambda>renewed.
        st_then (st_lift (ensure renewed (bad_grant ''invalid_grant: refresh token invalid or expired''))) (\<lambda>_.
        st_ok \<lparr>tk_access_token = access, tk_token_type = ''Bearer'', tk_expires_in = ACCESS_TOKEN_MINUTES * 60,
          tk_refresh_token = Some token, tk_scope = Some ''mcp''\<rparr>)))) s1) = (Inr tk, db')"
    unfolding handle_refresh_token_def st_then_eq_Inr
    by (elim exE conjE) (simp split: refresh_verify_result.splits)
  obtain ctx where "get_user_workspace_context e 11 (ac_id u) db1 = (ctx, db1)"
    using context_reads [of e 11 "ac_id u" db1] by (metis prod.collapse)
  with rest obtain ws access where grant:
    "create_mcp_access_token_str jc e 20 (ac_id u) secret ACCESS_TOKEN_MINUTES
       [(''user_id'', JString (ac_id u)), (''email'', JString (ac_email u)), (''name'', opt_json (ac_name u)),
        (''workspace_id'', JString ws)] = Inr access"
    "renew_oauth_refresh_token b e 30 (ud_token d) client (ae_now e 31 + REFRESH_TOKEN_DAYS * 86400 * 10 ^ 6) db1 = (Inr True, db')"
    "tk_access_token tk = access" "tk_refresh_token tk = Some token"
    by (auto simp: st_then_eq_Inr)
  have client: "ud_client d = Some client" using run(4) by (auto simp: client_check_def split: if_splits)
  have user: "ac_id u = ud_user d" using find_SomeD [OF run(5)] by simp
  show thesis by (rule that) (fact run(1) run(2) run(3) client user grant)+
qed

text \<open>C35: Browser sessions and API clients never exchange tokens. A browser session is refreshed only by a
  refresh token that was not issued to an OAuth client, and gets an access token without a purpose. The
  refresh grant serves an OAuth client only for a token issued to that very client, gives it an access
  token for the MCP endpoint alone, and returns the same refresh token without adding or removing one.\<close>

theorem token_kinds_separate:
  "(fst (refresh_tokens_flow jc sha b e secret raw dv db) = Inr rt \<longrightarrow>
      (\<exists>r \<in> set (refresh_tokens db). rf_hash r = sha raw \<and> rf_active r \<and> rf_client r = None \<and> rt_user rt = rf_user r
         \<and> (\<exists>c. jw_encode jc secret c = Inr (rt_access_token rt) \<and> cl_purpose c = None \<and> cl_sub c = rf_user r)))
   \<and> (fst (handle_refresh_token jc sha b e secret param client db) = Inr tk \<longrightarrow>
      (\<exists>token. param = Some token \<and> tk_refresh_token tk = Some token
         \<and> (\<exists>r \<in> set (refresh_tokens db). rf_hash r = sha token \<and> rf_active r \<and> rf_client r = Some client
              \<and> (\<exists>c. jw_encode jc secret c = Inr (tk_access_token tk) \<and> cl_purpose c = Some Mcp \<and> cl_sub c = rf_user r)))
      \<and> map token_keys (refresh_tokens (snd (handle_refresh_token jc sha b e secret param client db)))
        = map token_keys (refresh_tokens db))"
proof (intro conjI impI)
  assume "fst (refresh_tokens_flow jc sha b e secret raw dv db) = Inr rt"
  then have "refresh_tokens_flow jc sha b e secret raw dv db = (Inr rt, snd (refresh_tokens_flow jc sha b e secret raw dv db))"
    by (metis prod.collapse)
  from refresh_flow_Inr [OF this]
  show "\<exists>r \<in> set (refresh_tokens db). rf_hash r = sha raw \<and> rf_active r \<and> rf_client r = None \<and> rt_user rt = rf_user r
         \<and> (\<exists>c. jw_encode jc secret c = Inr (rt_access_token rt) \<and> cl_purpose c = None \<and> cl_sub c = rf_user r)" .
next
  let ?run = "handle_refresh_token jc sha b e secret param client db"
  assume "fst ?run = Inr tk"
  then have "?run = (Inr tk, snd ?run)" by (metis prod.collapse)
  then obtain token v d u db1 access ws where run: "param = Some token" "verify_refresh_token sha b e 0 token db = (Inr v, db1)"
    "v = Valid d \<or> v = GracePeriod d" "ud_client d = Some client" "ac_id (u :: account_row) = ud_user d"
    "create_mcp_access_token_str jc e 20 (ac_id u) secret ACCESS_TOKEN_MINUTES
       [(''user_id'', JString (ac_id u)), (''email'', JString (ac_email u)), (''name'', opt_json (ac_name u)),
        (''workspace_id'', JString ws)] = Inr access"
    "renew_oauth_refresh_token b e 30 (ud_token d) client (ae_now e 31 + REFRESH_TOKEN_DAYS * 86400 * 10 ^ 6) db1
       = (Inr True, snd ?run)"
    "tk_access_token tk = access" "tk_refresh_token tk = Some token"
    by (rule refresh_grant_Inr)
  show "map token_keys (refresh_tokens (snd ?run)) = map token_keys (refresh_tokens db)"
    using renew_keeps_keys [OF run(7)] verdict_row [OF run(2)] by simp
  from accepted_row [OF run(2,3)] obtain r a where row: "find_refresh b (sha token) (ae_db_now e 0) db = Some (r, a)"
      "d = user_data_of r a" by blast
  have "\<exists>c. jw_encode jc secret c = Inr (tk_access_token tk) \<and> cl_purpose c = Some Mcp \<and> cl_sub c = rf_user r"
    using run(5,6,8) row(2) by (auto simp: create_mcp_access_token_str_def minted_claims user_data_of_def)
  with find_refresh_SomeD [OF row(1)] run(1,4,9) row(2)
  show "\<exists>token. param = Some token \<and> tk_refresh_token tk = Some token
         \<and> (\<exists>r \<in> set (refresh_tokens db). rf_hash r = sha token \<and> rf_active r \<and> rf_client r = Some client
              \<and> (\<exists>c. jw_encode jc secret c = Inr (tk_access_token tk) \<and> cl_purpose c = Some Mcp \<and> cl_sub c = rf_user r))"
    by (auto simp: user_data_of_def)
qed

subsection \<open>A login and the requests after it\<close>

text \<open>What is relied on of the JWT library: a token decodes to the claims that were encoded, under the same
  secret and until it expires. The flattened map of extra claims must not repeat a field's name.\<close>

definition plain_claims :: "claims \<Rightarrow> bool" where
  "plain_claims c \<longleftrightarrow> distinct (map fst (cl_extra c))
     \<and> set (map fst (cl_extra c)) \<inter> {''sub'', ''exp'', ''iat'', ''session_iat_us'', ''jti'', ''purpose''} = {}"

definition jwt_ok :: "jwt_codec \<Rightarrow> bool" where
  "jwt_ok jc \<longleftrightarrow> (\<forall>secret c token now. jw_encode jc secret c = Inr token \<longrightarrow> plain_claims c \<longrightarrow> now \<le> cl_exp c \<longrightarrow>
     jw_decode jc secret token now = Inr c)"

lemma session_claims_plain:
  "distinct (map fst (session_claims u ctx))"
  "set (map fst (session_claims u ctx)) \<inter> {''sub'', ''exp'', ''iat'', ''session_iat_us'', ''jti'', ''purpose'', ''scope''} = {}"
  "extra_str ''user_id'' (session_claims u ctx) = Some (ac_id u)"
  "extra_str ''workspace_id'' (session_claims u ctx) = map_option (\<lambda>(w, _). wk_id w) ctx"
  "extra_str ''scope'' (session_claims u ctx) = None"
  by (auto simp: session_claims_def user_claims_def extra_str_def split: option.splits)

lemma session_access_claims:
  "access_claims e n sub mins (session_claims u ctx) None (Some issued) =
   \<lparr>cl_sub = sub, cl_exp = unix_seconds (ae_now e n + mins * 60 * 10 ^ 6), cl_iat = unix_seconds (ae_now e n),
    cl_session_iat_us = Some issued, cl_jti = Some (ae_random e n), cl_purpose = None, cl_extra = session_claims u ctx\<rparr>"
proof -
  have "filter (\<lambda>(k, _). k \<noteq> ''purpose'' \<and> k \<noteq> ''session_iat_us'') (session_claims u ctx) = session_claims u ctx"
    using session_claims_plain(2) [of u ctx] by (intro filter_True) (auto simp: image_iff)
  then show ?thesis by (simp add: access_claims_def Let_def recovery_scope_def session_claims_plain(5))
qed

text \<open>The workspace context of a user comes with an active membership.\<close>

lemma last_context_state: "last_context e n user db = (r, db') \<Longrightarrow> db' = db"
proof -
  have "reads (last_context e n user)" unfolding last_context_def by (auto intro!: reads_intros split: option.splits)
  then show "last_context e n user db = (r, db') \<Longrightarrow> db' = db" unfolding reads_def by (metis snd_conv)
qed

lemma Some_map_option: "Some y = map_option g x \<longleftrightarrow> (\<exists>z. x = Some z \<and> y = g z)"
  by (cases x) auto

lemma last_context_Inr:
  assumes "last_context e n user db = (Inr (Some (w, m)), db')"
  shows "(\<exists>w' \<in> set (workspaces db). wk_id w' = wk_id w)
    \<and> m \<in> set (memberships db) \<and> mb_workspace m = wk_id w \<and> mb_user m = user \<and> mb_active m"
proof -
  from assms obtain ws where ws: "find (\<lambda>w. wk_id w = ws) (workspaces db) = Some w"
      "find (\<lambda>m. mb_workspace m = ws \<and> mb_user m = user \<and> mb_active m) (memberships db) = Some m"
    unfolding last_context_def st_then_eq_Inr by (auto simp: st_then_eq_Inr Some_map_option split: option.splits)
  show ?thesis using find_SomeD [OF ws(1)] find_SomeD [OF ws(2)] by blast
qed

lemma context_state: "get_user_workspace_context e n user db = (r, db') \<Longrightarrow> db' = db"
  using context_reads [of e n user db] by simp

lemma context_member:
  assumes "get_user_workspace_context e n user db = (Inr (Some (w, m)), db')"
  shows "(\<exists>w' \<in> set (workspaces db). wk_id w' = wk_id w)
    \<and> m \<in> set (memberships db) \<and> mb_workspace m = wk_id w \<and> mb_user m = user \<and> mb_active m"
proof -
  have first: "m \<in> set (memberships db) \<and> mb_user m = user \<and> mb_active m \<and> db2 = db"
    if "first_membership e k user db = (Inr (Some m), db2)" for k m db2
  proof (cases "sort_key mb_created_at (filter (\<lambda>m. mb_user m = user \<and> mb_active m) (memberships db))")
    case (Cons m' ms)
    with that have "m' = m" "db2 = db" by (auto simp: first_membership_def statement_def split: sum.splits)
    with arg_cong [OF Cons, of set] show ?thesis by auto
  qed (use that in \<open>auto simp: first_membership_def statement_def split: sum.splits\<close>)
  from assms obtain found where last: "last_context e n user db = (Inr found, db)"
    and rest: "(case found of Some wm \<Rightarrow> st_ok (Some wm)
       | None \<Rightarrow> st_then (first_membership e (n + 3) user) (\<lambda>m. case m of None \<Rightarrow> st_ok None
           | Some m \<Rightarrow> st_then (get_workspace e (n + 4) (mb_workspace m)) (\<lambda>w. st_ok (map_option (\<lambda>w. (w, m)) w)))) db
       = (Inr (Some (w, m)), db')"
    unfolding get_user_workspace_context_def st_then_eq_Inr [of "last_context e n user"]
    using last_context_state by blast
  show ?thesis
  proof (cases found)
    case (Some wm)
    with rest have "last_context e n user db = (Inr (Some (w, m)), db)" using last by simp
    then show ?thesis by (rule last_context_Inr)
  next
    case None
    with rest obtain m' db2 where m: "first_membership e (n + 3) user db = (Inr (Some m'), db2)"
        "find (\<lambda>w. wk_id w = mb_workspace m') (workspaces db2) = Some w" "m = m'"
      by (auto simp: st_then_eq_Inr Some_map_option split: option.splits)
    with first [OF m(1)] find_SomeD [OF m(2)] show ?thesis by auto
  qed
qed

lemma login_Inr:
  assumes "create_authenticated_session jc sha b e secret user dv db = (Inr s, db')"
    "find (\<lambda>u. ac_id u = user) (accounts db) = Some u"
  obtains ctx access issued tid db2 where
    "get_user_workspace_context e 1 user db = (Inr ctx, db)"
    "create_session_access_token_str jc e 10 user secret ACCESS_TOKEN_MINUTES (session_claims u ctx)
       (ac_sessions_valid_from u) = Inr access"
    "store_session_refresh_token b e 30 user (hash_refresh_token sha (create_refresh_token e 20))
       (ae_now e 21 + REFRESH_TOKEN_DAYS * 86400 * 10 ^ 6) dv (generate_family_id e 22) issued db = (Inr tid, db2)"
    "db' = snd (update_last_login b e 40 user db2)"
    "as_access_token s = access" "as_workspace_id s = map_option (\<lambda>(w, _). wk_id w) ctx"
proof -
  have user: "ac_id u = user" using find_SomeD [OF assms(2)] by simp
  from assms(1) show thesis
    unfolding create_authenticated_session_def Let_def st_then_eq_Inr
    by (elim exE conjE) (rule that; use assms(2) user in \<open>auto simp: st_ignore_def dest: context_state\<close>)
qed

text \<open>The workspace a login found is found again by the requests after it.\<close>

lemma context_loads:
  assumes "get_user_workspace_context e n user db = (Inr ctx, db)" "workspaces db1 = workspaces db"
    "memberships db1 = memberships db" "ae_fault e' 2 = None" "ae_fault e' 3 = None"
  shows "\<exists>wc. load_context e' hosted user (map_option (\<lambda>(w, _). wk_id w) ctx) db1 = (Inr wc, db1)
    \<and> wc_workspace_id wc = map_option (\<lambda>(w, _). wk_id w) ctx"
proof (cases ctx)
  case None
  then show ?thesis by (simp add: load_context_def default_context_def st_simps)
next
  case (Some wm)
  obtain w m where wm: "wm = (w, m)" by (cases wm)
  from context_member [OF assms(1) [unfolded Some wm]] obtain w' m' where
      "find (\<lambda>x. wk_id x = wk_id w) (workspaces db) = Some w'"
      "find (\<lambda>m. mb_workspace m = wk_id w \<and> mb_user m = user \<and> mb_active m) (memberships db) = Some m'"
    by (metis (mono_tags, lifting) find_None_iff_ball not_None_eq)
  with assms Some wm show ?thesis
    by (simp add: load_context_def st_then_eq_Inr context_of_def)
qed

text \<open>A login writes a refresh token and the time of the login.\<close>

lemma login_keeps:
  assumes "store_session_refresh_token b e n user h x dv f issued db = (Inr t, db2)"
    "db1 = snd (update_last_login b e n' user db2)" "find (\<lambda>u. ac_id u = user) (accounts db) = Some u"
  shows "\<exists>u'. find (\<lambda>u. ac_id u = user) (accounts db1) = Some u' \<and> ac_id u' = user \<and> ac_active u' = ac_active u
    \<and> ac_sessions_valid_from u' = ac_sessions_valid_from u
    \<and> workspaces db1 = workspaces db \<and> memberships db1 = memberships db"
proof -
  have same: "accounts db2 = accounts db" "workspaces db2 = workspaces db" "memberships db2 = memberships db"
    using transaction_Inr [OF assms(1) [unfolded store_session_refresh_token_def]]
    by (auto simp: store_session_in_tx_def and_then_eq_Inr Let_def insert_refresh_def)
  define g where "g = (\<lambda>u :: account_row. u\<lparr>ac_last_login := Some (sql_now b (ae_db_now e n'))\<rparr>)"
  have "db1 = db2 \<or> db1 = db2\<lparr>accounts := update_where (\<lambda>u. ac_id u = user) g (accounts db2)\<rparr>"
    using assms(2) by (auto simp: update_last_login_def update_account_def statement_def g_def split: sum.splits)
  moreover have "find (\<lambda>u. ac_id u = user) (update_where (\<lambda>u. ac_id u = user) g (accounts db)) = Some (g u)"
    using assms(3) find_SomeD [OF assms(3)] by (simp add: find_update_where g_def)
  ultimately show ?thesis using assms(3) find_SomeD [OF assms(3)] same by (auto simp: g_def)
qed

text \<open>C32: A login works. Take a login of an active account that succeeded, and a request that carries its access
  token in the authorization header within fifteen minutes, to a server with the same secret whose database is as
  the login left it and does not fail. The request is authenticated as that user in the workspace the login
  reported, whatever cutoff earlier revocations left; the extractor refuses it only for a lapsed workspace.
  \<open>create_authenticated_session\<close> itself does not look whether the account is active; the requests of an
  inactive one are refused.\<close>

theorem login_works:
  assumes codec: "jwt_ok jc"
    and login: "create_authenticated_session jc sha b e (au_jwt_secret st) user dv db = (Inr s, db1)"
    and account: "find (\<lambda>u. ac_id u = user) (accounts db) = Some u" "ac_active u"
    and request: "rq_authorization rq = Some (Inr (''Bearer '' @ as_access_token s))" "\<not> au_is_personal st"
      "ae_now e' 0 \<le> ae_now e 11 + 15 * 60 * 10 ^ 6"
      "ae_fault e' 1 = None" "ae_fault e' 2 = None" "ae_fault e' 3 = None"
  shows "\<exists>au. load_auth_user jc e' st rq db1 = (Inr au, db1) \<and> us_user au = user
     \<and> wc_workspace_id (us_workspace au) = as_workspace_id s
     \<and> auth_user_extractor jc e' st rq db1 =
         (if wc_billing_lapsed (us_workspace au) then Inl (PaymentRequired ''This workspace's billing is past due.'') else Inr au, db1)"
proof -
  have user: "ac_id u = user" using find_SomeD [OF account(1)] by simp
  from login account(1) obtain ctx access issued tid db2 where run:
      "get_user_workspace_context e 1 user db = (Inr ctx, db)"
      "create_session_access_token_str jc e 10 user (au_jwt_secret st) ACCESS_TOKEN_MINUTES (session_claims u ctx)
         (ac_sessions_valid_from u) = Inr access"
      "store_session_refresh_token b e 30 user (hash_refresh_token sha (create_refresh_token e 20))
         (ae_now e 21 + REFRESH_TOKEN_DAYS * 86400 * 10 ^ 6) dv (generate_family_id e 22) issued db = (Inr tid, db2)"
      "db1 = snd (update_last_login b e 40 user db2)"
      "as_access_token s = access" "as_workspace_id s = map_option (\<lambda>(w, _). wk_id w) ctx"
    by (rule login_Inr)
  let ?c = "access_claims e 11 user ACCESS_TOKEN_MINUTES (session_claims u ctx) None (Some (session_issued e 10 (ac_sessions_valid_from u)))"
  note c = session_access_claims [of e 11 user ACCESS_TOKEN_MINUTES u ctx "session_issued e 10 (ac_sessions_valid_from u)"]
  have minted: "jw_encode jc (au_jwt_secret st) ?c = Inr access"
    using run(2) by (simp add: create_session_access_token_str_def minted_claims)
  have "plain_claims ?c" using session_claims_plain(1,2) [of u ctx] unfolding c plain_claims_def by auto
  moreover have "unix_seconds (ae_now e' 0) \<le> cl_exp ?c"
    using request(3) unfolding unix_seconds_def access_claims_simps ACCESS_TOKEN_MINUTES_def by (intro zdiv_mono1) simp_all
  ultimately have decoded: "validate_token jc e' 0 access (au_jwt_secret st) = Inr ?c"
    using codec minted by (simp add: jwt_ok_def validate_token_def)
  have token: "extract_token rq = Inr access"
    using request(1) run(5) by (simp add: extract_token_def strip_prefix_def)
  have who: "claimed_user ?c = user" unfolding claimed_user_def c by (simp add: session_claims_plain(3) user)
  have current: "require_current_session ?c (ac_sessions_valid_from u) = Inr ()"
    unfolding c require_current_session_def recovery_scope_def
    by (simp add: session_claims_plain(5) session_issued_def split: option.splits)
  note kept = login_keeps [OF run(3) run(4) account(1)]
  then obtain u' where u': "find (\<lambda>u. ac_id u = user) (accounts db1) = Some u'" "ac_id u' = user" "ac_active u' = ac_active u"
    "ac_sessions_valid_from u' = ac_sessions_valid_from u" "workspaces db1 = workspaces db" "memberships db1 = memberships db"
    by blast
  obtain wc where wc: "load_context e' (au_self_hosted st) user (map_option (\<lambda>(w, _). wk_id w) ctx) db1 = (Inr wc, db1)"
      "wc_workspace_id wc = map_option (\<lambda>(w, _). wk_id w) ctx"
    using context_loads [OF run(1) u'(5,6) request(5,6)] by blast
  have loaded: "load_auth_user jc e' st rq db1 = (Inr (auth_user_of u' wc (Some (cl_exp ?c)) (cl_jti ?c)), db1)"
    using request(2,4) token decoded who current u' account(2) wc(1)
    by (simp add: load_auth_user_def st_then_eq_Inr require_session_def ensure_def session_claims_plain(4) c)
  show ?thesis
  proof (intro exI conjI)
    show "load_auth_user jc e' st rq db1 = (Inr (auth_user_of u' wc (Some (cl_exp ?c)) (cl_jti ?c)), db1)" by (rule loaded)
  qed (use loaded u'(2) wc(2) run(6) in \<open>simp_all add: auth_user_of_def auth_user_extractor_def st_simps\<close>)
qed

subsection \<open>A sample deployment\<close>

definition sample_account :: account_row where
  "sample_account = \<lparr>ac_id = ''u'', ac_email = ''m'', ac_name = None, ac_active = True, ac_verified = True,
     ac_metadata = None, ac_sessions_valid_from = None, ac_last_workspace = Some ''w'', ac_last_login = None\<rparr>"

definition sample_space :: workspace_row where
  "sample_space = \<lparr>wk_id = ''w'', wk_name = None, wk_status = ActiveWs, wk_owner = ''u'', wk_tier = Cloud,
     wk_subscription = SubActive, wk_period_end = None, wk_trial_ends_at = None, wk_stripe_subscription = None,
     wk_user_limit = None, wk_settings = None\<rparr>"

definition sample_member :: membership_row where
  "sample_member = \<lparr>mb_workspace = ''w'', mb_user = ''u'', mb_role = WorkspaceAdmin, mb_active = True, mb_created_at = 0\<rparr>"

definition sample_device :: device_info where
  "sample_device = \<lparr>dv_user_agent = None, dv_ip = None, dv_country = None, dv_client = None\<rparr>"

definition sample_refresh :: refresh_row where
  "sample_refresh = new_refresh ''rt_1'' ''u'' ''hash'' (10 ^ 9) 0 sample_device None ''f''"

definition sample_auth_db :: auth_db where
  "sample_auth_db = \<lparr>accounts = [sample_account], memberships = [sample_member], workspaces = [sample_space],
     refresh_tokens = [sample_refresh]\<rparr>"

text \<open>An environment at one instant.\<close>

definition env_at :: "int \<Rightarrow> auth_env" where
  "env_at t = \<lparr>ae_db_now = \<lambda>_. t, ae_now = \<lambda>_. t, ae_random = \<lambda>_. ''x'', ae_fault = \<lambda>_. None, ae_applied = False\<rparr>"

definition sample_sha :: "string \<Rightarrow> string" where
  "sample_sha raw = (if raw = ''secret'' then ''hash'' else raw)"

text \<open>A library that knows one token.\<close>

definition one_token :: "claims \<Rightarrow> jwt_codec" where
  "one_token c = \<lparr>jw_encode = \<lambda>_ c'. if c' = c then Inr ''jwt'' else Inl ''other'',
     jw_decode = \<lambda>_ t now. if t = ''jwt'' \<and> now \<le> cl_exp c then Inr c else Inl InvalidSignature\<rparr>"

lemma one_token_ok: "jwt_ok (one_token c)"
  by (auto simp: jwt_ok_def one_token_def split: if_splits)

definition sample_login_claims :: claims where
  "sample_login_claims = access_claims (env_at 1) 11 ''u'' ACCESS_TOKEN_MINUTES
     (session_claims sample_account (Some (sample_space, sample_member))) None (Some 1)"

definition sample_state :: auth_state where
  "sample_state = \<lparr>au_jwt_secret = ''k'', au_is_personal = False, au_self_hosted = False\<rparr>"

definition sample_request :: request_parts where
  "sample_request = \<lparr>rq_authorization = Some (Inr ''Bearer jwt''), rq_cookie = None, rq_path = ''/''\<rparr>"

lemmas sample_defs = sample_account_def sample_space_def sample_member_def sample_device_def sample_refresh_def
  sample_auth_db_def env_at_def sample_sha_def new_refresh_def

theorem revocation_is_final_witness:
  "let db1 = snd (revoke_all_user_sessions Postgres (env_at 5) 0 ''u'' sample_auth_db);
       db2 = fold (token_step_effect Postgres) [(env_at 6, 0, RotateStep ''rt_1'' ''u'' ''f'' ''h'' 9 sample_device)] db1
   in \<forall>d. fst (verify_refresh_token sample_sha Postgres (env_at 7) 0 ''secret'' db2) \<notin> {Inr (Valid d), Inr (GracePeriod d)}
        \<or> ud_family d \<noteq> ''f''"
proof -
  let ?r = "revoke_all_user_sessions Postgres (env_at 5) 0 ''u'' sample_auth_db"
  have "?r = (Inr 1, snd ?r)" by code_simp
  moreover have "\<forall>r \<in> set (refresh_tokens sample_auth_db). rf_family r = ''f'' \<longrightarrow> rf_user r = ''u''"
    by (simp add: sample_defs)
  ultimately show ?thesis
    using revocation_is_final [of Postgres "env_at 5" 0 "''u''" sample_auth_db 1 "snd ?r" "''f''"
        "[(env_at 6, 0, RotateStep ''rt_1'' ''u'' ''f'' ''h'' 9 sample_device)]" _ "env_at 1" 0 _ sample_sha "env_at 7" 0 "''secret''"]
    unfolding Let_def by (simp add: env_at_def)
qed

theorem theft_kills_family_witness:
  "let db0 = sample_auth_db\<lparr>refresh_tokens := [sample_refresh\<lparr>rf_replaced_at := Some 1\<rparr>]\<rparr>;
       db1 = snd (verify_refresh_token sample_sha Postgres (env_at (10 ^ 8)) 0 ''secret'' db0)
   in \<forall>t. fst (rotate_refresh_token Postgres (env_at (10 ^ 8)) 0 ''rt_1'' ''u'' ''f'' ''h'' 9 sample_device db1) \<noteq> Inr t"
proof -
  let ?db0 = "sample_auth_db\<lparr>refresh_tokens := [sample_refresh\<lparr>rf_replaced_at := Some 1\<rparr>]\<rparr>"
  let ?r = "verify_refresh_token sample_sha Postgres (env_at (10 ^ 8)) 0 ''secret'' ?db0"
  have "?r = (Inr (TheftDetected ''f'' ''u''), snd ?r)" by code_simp
  from theft_kills_family [OF this, of "[]" "snd ?r" "env_at (10 ^ 8)" 0 "''x''" "''rt_1''" "''u''" "''h''" 9 sample_device]
  show ?thesis unfolding Let_def by simp
qed

theorem rotation_hands_over_witness:
  "let db1 = snd (rotate_refresh_token Postgres (env_at 5) 0 ''rt_1'' ''u'' ''f'' ''new'' (10 ^ 9) sample_device sample_auth_db)
   in \<exists>d. fst (verify_refresh_token sample_sha Postgres (env_at 7) 0 ''new'' db1) = Inr (Valid d)"
proof -
  let ?r = "rotate_refresh_token Postgres (env_at 5) 0 (rf_id sample_refresh) (rf_user sample_refresh) (rf_family sample_refresh)
     (sample_sha ''new'') (10 ^ 9) sample_device sample_auth_db"
  have ok: "?r = (Inr ''rt_x'', snd ?r)" by code_simp
  have "tokens_distinct sample_auth_db" "sample_refresh \<in> set (refresh_tokens sample_auth_db)"
    "rf_hash sample_refresh = sample_sha ''secret''" "sample_account \<in> set (accounts sample_auth_db)"
    "ac_id sample_account = rf_user sample_refresh" "ac_active sample_account"
    "sample_sha ''new'' \<notin> rf_hash ` set (refresh_tokens sample_auth_db)" "unexpired Postgres (10 ^ 9) (ae_db_now (env_at 7) 0)"
    by (simp_all add: sample_defs tokens_distinct_def unexpired_def)
  with rotation_hands_over [where b = Postgres and e = "env_at 5" and n = 0 and r = sample_refresh and sha = sample_sha
      and fresh = "''new''" and expires = "10 ^ 9" and dv = sample_device and db = sample_auth_db and t = "''rt_x''"
      and raw = "''secret''" and u = sample_account and e' = "env_at 7" and n' = 0 and e'' = "env_at 7" and n'' = 0, OF ok]
  have "\<exists>d. fst (verify_refresh_token sample_sha Postgres (env_at 7) 0 ''new'' (snd ?r)) = Inr (Valid d)"
    by (auto simp: env_at_def)
  moreover have "rf_id sample_refresh = ''rt_1''" "rf_user sample_refresh = ''u''" "rf_family sample_refresh = ''f''"
    "sample_sha ''new'' = ''new''" by (simp_all add: sample_defs)
  ultimately show ?thesis unfolding Let_def by simp
qed

theorem authenticated_request_witness:
  "\<exists>c u. jw_decode (one_token sample_login_claims) ''k'' ''jwt'' 0 = Inr c \<and> u \<in> set (accounts sample_auth_db)
     \<and> ac_id u = claimed_user c \<and> ac_active u"
proof -
  obtain au where au: "fst (auth_user_extractor (one_token sample_login_claims) (env_at 1) sample_state sample_request sample_auth_db) = Inr au"
    "extract_token sample_request = Inr ''jwt''" "unix_seconds (ae_now (env_at 1) 0) = 0" "au_jwt_secret sample_state = ''k''"
    "\<not> au_is_personal sample_state"
  proof
    show "fst (auth_user_extractor (one_token sample_login_claims) (env_at 1) sample_state sample_request sample_auth_db)
      = Inr (projr (fst (auth_user_extractor (one_token sample_login_claims) (env_at 1) sample_state sample_request sample_auth_db)))"
      by code_simp
  qed code_simp+
  with authenticated_request [of "one_token sample_login_claims" "env_at 1" sample_state sample_request sample_auth_db au]
  show ?thesis by auto
qed

theorem token_kinds_separate_witness:
  "\<exists>r \<in> set (refresh_tokens sample_auth_db). rf_hash r = sample_sha ''secret'' \<and> rf_active r \<and> rf_client r = None"
proof -
  let ?c = "access_claims (env_at 1) 22 ''u'' ACCESS_TOKEN_MINUTES
     (user_claims ''u'' ''m'' None [''user''] @ [(''workspace_id'', JString ''w''), (''workspace_roles'', JArray [JString ''workspace_admin''])])
     None (Some 1)"
  let ?run = "refresh_tokens_flow (one_token ?c) sample_sha Postgres (env_at 1) ''k'' ''secret'' sample_device sample_auth_db"
  have "fst ?run = Inr (projr (fst ?run))" by code_simp
  with token_kinds_separate [of "one_token ?c" sample_sha Postgres "env_at 1" "''k''" "''secret''" sample_device sample_auth_db "projr (fst ?run)"]
  show ?thesis by blast
qed

theorem login_works_witness:
  "\<exists>s db1 au. create_authenticated_session (one_token sample_login_claims) sample_sha Postgres (env_at 1) ''k'' ''u'' sample_device sample_auth_db
       = (Inr s, db1)
     \<and> load_auth_user (one_token sample_login_claims) (env_at 2) sample_state sample_request db1 = (Inr au, db1) \<and> us_user au = ''u''"
proof -
  let ?run = "create_authenticated_session (one_token sample_login_claims) sample_sha Postgres (env_at 1) (au_jwt_secret sample_state)
     ''u'' sample_device sample_auth_db"
  have ok: "?run = (Inr (projr (fst ?run)), snd ?run)" by code_simp
  have "as_access_token (projr (fst ?run)) = ''jwt''" by code_simp
  then have request: "rq_authorization sample_request = Some (Inr (''Bearer '' @ as_access_token (projr (fst ?run))))"
    by (simp add: sample_request_def)
  have "find (\<lambda>u. ac_id u = ''u'') (accounts sample_auth_db) = Some sample_account" "ac_active sample_account"
    "\<not> au_is_personal sample_state" "au_jwt_secret sample_state = ''k''"
    by (simp_all add: sample_defs sample_state_def)
  with login_works [OF one_token_ok ok _ _ request, of sample_account "env_at 2"] ok
  show ?thesis by (auto simp: env_at_def)
qed

end
