(* ===== verification/OAuth_Guarantees.thy ===== *)
theory OAuth_Guarantees
  imports OAuth_Server Session_Guarantees
begin

text \<open>
  What the authorization server promises: whatever requests reach it, in whatever order, each as one
  step, an API client gets tokens by a code only if the user, in the browser that was shown the
  consent page, allowed that client with that redirect address and code challenge; and each code
  works once.
\<close>

subsection \<open>What the endpoints do to a key\<close>

definition keeps_key :: "('s \<Rightarrow> string \<Rightarrow> string option) \<Rightarrow> string \<Rightarrow> ('s oauth_world \<Rightarrow> ('e + 'a) \<times> 's oauth_world) \<Rightarrow> bool" where
  "keeps_key held k m \<longleftrightarrow> (\<forall>w. kept (held (ow_kv w) k) (held (ow_kv (snd (m w))) k))"

named_theorems keeps_intros

lemma keeps_basic [keeps_intros]:
  "keeps_key held k (st_ok x)" "keeps_key held k (st_err e)" "keeps_key held k (st_lift r)" "keeps_key held k (on_db m')"
  "keeps_key held k (lookup_active_client env n cid)"
  by (auto simp: keeps_key_def st_simps on_db_def lookup_active_client_def split: prod.splits sum.splits)

lemma keeps_then [keeps_intros]:
  "keeps_key held k m \<Longrightarrow> (\<And>x. keeps_key held k (f x)) \<Longrightarrow> keeps_key held k (st_then m f)"
  unfolding keeps_key_def using kept_st_then [where h = "\<lambda>w. held (ow_kv w) k"] by blast

lemma keeps_map_err [keeps_intros]: "keeps_key held k m \<Longrightarrow> keeps_key held k (st_map_err g m)"
  unfolding keeps_key_def st_map_err_def by (auto split: prod.splits) (metis snd_conv)

lemma keeps_on_kv: "(\<And>s. kept (held s k) (held (snd (m s)) k)) \<Longrightarrow> keeps_key held k (on_kv m)"
  unfolding keeps_key_def on_kv_def by (auto split: prod.splits) (metis snd_conv)

lemma keeps_session [keeps_intros]: "keeps_key held k (required_session ol cfg e h)"
  unfolding required_session_def by (intro keeps_intros)

definition code_key :: "string \<Rightarrow> string" where "code_key code = oauth_key ''oauth_code'' code"
definition consent_key :: "string \<Rightarrow> string" where "consent_key txn = oauth_key ''oauth_consent'' txn"
definition pending_key :: "string \<Rightarrow> string" where "pending_key state = oauth_key ''oauth_pending'' state"

lemma plain_providers: "plain ''oauth_code''" "plain ''oauth_consent''" "plain ''oauth_pending''"
  by (simp_all add: plain_def)

lemma oauth_key_iff: "plain p \<Longrightarrow> plain p' \<Longrightarrow> oauth_key p s = oauth_key p' s' \<longleftrightarrow> p = p' \<and> s = s'"
  by (blast dest: oauth_key_inj)

lemma flow_keys_apart [simp]:
  "consent_key t \<noteq> oauth_key ''oauth_code'' c" "pending_key s \<noteq> oauth_key ''oauth_code'' c"
  "consent_key t \<noteq> oauth_key ''oauth_pending'' s" "pending_key s \<noteq> oauth_key ''oauth_consent'' t"
  "code_key c \<noteq> oauth_key ''oauth_pending'' s" "code_key c \<noteq> oauth_key ''oauth_consent'' t"
  unfolding consent_key_def pending_key_def code_key_def
  by (simp_all only: oauth_key_iff plain_providers) simp_all

lemma flow_keys_inj [simp]:
  "consent_key t = oauth_key ''oauth_consent'' t' \<longleftrightarrow> t = t'" "pending_key s = oauth_key ''oauth_pending'' s' \<longleftrightarrow> s = s'"
  unfolding consent_key_def pending_key_def by (simp_all only: oauth_key_iff plain_providers) simp_all

lemma code_key_inj: "code_key a = code_key b \<longleftrightarrow> a = b"
  using oauth_key_inj [OF plain_providers(1,1)] unfolding code_key_def by blast

text \<open>A store that, in addition, never holds under a key what was not written there.\<close>

locale kv_writes = kv_laws +
  assumes set_same: "kept (held s k) (held (snd (kv_set kv k v ttl s)) k) \<or> held (snd (kv_set kv k v ttl s)) k = Some v"
begin

lemma keeps_verify: "keeps_key held k (on_kv (verify_oauth_state jt kv p st))"
  by (rule keeps_on_kv) (simp add: verify_oauth_state_def consume_json_kept)

lemma keeps_store: "k \<noteq> oauth_key p st \<Longrightarrow> keeps_key held k (on_kv (store_oauth_state jt kv p st v))"
  by (rule keeps_on_kv) (simp add: store_oauth_state_def store_json_other)

lemma keeps_render: "(\<And>t. k \<noteq> oauth_key ''oauth_consent'' t) \<Longrightarrow> keeps_key held k (render_consent ol kv cfg e client p c)"
  unfolding render_consent_def Let_def by (intro keeps_intros keeps_store)

lemma keeps_login: "(\<And>t. k \<noteq> oauth_key ''oauth_pending'' t) \<Longrightarrow> keeps_key held k (login_first ol kv cfg e p)"
  unfolding login_first_def Let_def by (intro keeps_intros keeps_store)

lemma keeps_session_case:
  assumes "keeps_key held k a" "keeps_key held k b"
  shows "keeps_key held k (\<lambda>w. case on_db m w of (Inr _, w1) \<Rightarrow> a w1 | (Inl (AppUnauthorized _), w1) \<Rightarrow> b w1
     | (Inl err, w1) \<Rightarrow> (Inl (g err), w1))"
  unfolding keeps_key_def
proof
  fix w :: "'a oauth_world"
  obtain r w1 where run: "on_db m w = (r, w1)" by (cases "on_db m w")
  have "ow_kv w1 = ow_kv w" using run by (auto simp: on_db_def split: prod.splits)
  moreover have "kept (held (ow_kv w1) k) (held (ow_kv (snd (a w1))) k)" "kept (held (ow_kv w1) k) (held (ow_kv (snd (b w1))) k)"
    using assms by (auto simp: keeps_key_def)
  ultimately show "kept (held (ow_kv w) k) (held (ow_kv (snd (case on_db m w of (Inr _, w1) \<Rightarrow> a w1
      | (Inl (AppUnauthorized _), w1) \<Rightarrow> b w1 | (Inl err, w1) \<Rightarrow> (Inl (g err), w1)))) k)"
    unfolding run by (cases r; (cases "projl r")?) simp_all
qed

lemma keeps_authorize: "keeps_key held (code_key code) (oauth_authorize ol kv cfg e h p)"
  unfolding oauth_authorize_def
  by (intro keeps_intros) (auto intro!: keeps_login keeps_render keeps_session_case split: option.splits)

lemma keeps_continue:
  "(\<And>t. k \<noteq> oauth_key ''oauth_consent'' t) \<Longrightarrow> keeps_key held k (oauth_authorize_continue ol kv cfg e h st)"
  unfolding oauth_authorize_continue_def Let_def by (intro keeps_intros keeps_verify keeps_render)

lemma keeps_code_grant: "keeps_key held k (handle_authorization_code ol kv cfg e h rq)"
  unfolding handle_authorization_code_def Let_def by (intro keeps_intros keeps_verify)

lemma keeps_token: "keeps_key held k (oauth_token ol kv cfg e h rq)"
  unfolding oauth_token_def by (intro keeps_intros) (auto intro!: keeps_intros keeps_code_grant)

lemma keeps_register: "keeps_key held k (register_client ul cfg e rg)"
  unfolding register_client_def Let_def
  by (intro keeps_intros)
    (auto simp: keeps_key_def insert_client_def st_map_err_def split: sum.splits prod.splits)

lemma keeps_accept: "keeps_key held k (accept_consent ol kv cfg e h form)"
  unfolding accept_consent_def by (intro keeps_intros keeps_verify)

lemma keeps_decision:
  "(\<And>code. k \<noteq> oauth_key ''oauth_code'' code) \<Longrightarrow> keeps_key held k (oauth_consent_decision ol kv cfg e h form)"
  unfolding oauth_consent_decision_def
  by (intro keeps_intros keeps_accept) (auto intro!: keeps_intros keeps_store split: prod.splits)

text \<open>A value stored under an address is the one that is held there, if any is.\<close>

lemma store_key: "let w' = snd (on_kv (store_oauth_state jt kv p st data) w) in
    kept (held (ow_kv w) k) (held (ow_kv w') k)
    \<or> k = oauth_key p st \<and> (\<exists>text. jt_enc jt data = Inr text \<and> held (ow_kv w') k = Some text)"
proof (cases "k = oauth_key p st")
  case True
  then show ?thesis
    using set_same [of "ow_kv w" k]
    by (auto simp: on_kv_def store_oauth_state_def kv_store_json_def st_then_def st_simps
        split: sum.splits prod.splits) (metis snd_conv)
next
  case False
  then show ?thesis using keeps_store [of k p st jt data] by (simp add: keeps_key_def)
qed

end

subsection \<open>Consent\<close>

text \<open>The decision in the request \<open>(e, h, form)\<close> grants \<open>code\<close> for the session \<open>c\<close> and the stored \<open>consent\<close>: the user
  allowed it, in a current session, in the browser that holds the nonce of the page, for an active client and
  one of its addresses.\<close>

definition consented :: "oauth_libs \<Rightarrow> 's kv_ops \<Rightarrow> oauth_config \<Rightarrow> auth_env \<Rightarrow> headers \<Rightarrow> consent_decision
    \<Rightarrow> 's oauth_world \<Rightarrow> string \<Rightarrow> claims \<Rightarrow> json \<Rightarrow> bool" where
  "consented ol kv cfg e h form w code c consent \<longleftrightarrow>
     cd_decision form = ''allow'' \<and> code = ae_random e 9
   \<and> (\<exists>client. fst (required_session ol cfg e h w) = Inr c
        \<and> fst (verify_oauth_state (ol_json ol) kv ''oauth_consent'' (cd_transaction form) (ow_kv w)) = Inr (Some consent)
        \<and> consent_matches (ol_sha ol) h form c consent
        \<and> client \<in> set (ow_clients w) \<and> cw_active client \<and> cw_client_id client = text_at ''client_id'' consent
        \<and> validate_redirect_uri (ol_url ol) (cw_redirect_uris client) (text_at ''redirect_uri'' consent) = Inr ())"

lemma on_kv_Inr: "on_kv m w = (Inr x, w') \<longleftrightarrow> (\<exists>s. m (ow_kv w) = (Inr x, s) \<and> w' = w\<lparr>ow_kv := s\<rparr>)"
  by (auto simp: on_kv_def split: prod.splits)

lemma on_db_Inr: "on_db m w = (Inr x, w') \<longleftrightarrow> (\<exists>db. m (ow_db w) = (Inr x, db) \<and> w' = w\<lparr>ow_db := db\<rparr>)"
  by (auto simp: on_db_def split: prod.splits)

lemma required_session_frame: "required_session ol cfg e h w = (r, w') \<Longrightarrow> ow_kv w' = ow_kv w \<and> ow_clients w' = ow_clients w"
  by (auto simp: required_session_def st_then_def st_simps st_map_err_def on_db_def split: sum.splits prod.splits)

lemma lookup_client_Inr: "lookup_active_client e n cid w = (Inr c, w') \<Longrightarrow>
    w' = w \<and> c \<in> set (ow_clients w) \<and> cw_client_id c = cid \<and> cw_active c"
  by (auto simp: lookup_active_client_def dest!: find_SomeD split: sum.splits)

lemma accept_consent_Inr:
  assumes "accept_consent ol kv cfg e h form w = (Inr (c, consent, u), w')" "cd_decision form \<noteq> ''deny''"
  shows "consented ol kv cfg e h form w (ae_random e 9) c consent"
proof -
  from assms obtain w1 s client where run: "required_session ol cfg e h w = (Inr c, w1)" "cd_decision form = ''allow''"
      "verify_oauth_state (ol_json ol) kv ''oauth_consent'' (cd_transaction form) (ow_kv w1) = (Inr (Some consent), s)"
      "consent_matches (ol_sha ol) h form c consent"
      "lookup_active_client e 8 (text_at ''client_id'' consent) (w1\<lparr>ow_kv := s\<rparr>) = (Inr client, w')"
      "validate_redirect_uri (ol_url ol) (cw_redirect_uris client) (text_at ''redirect_uri'' consent) = Inr ()"
    unfolding accept_consent_def by (auto simp: st_then_eq_Inr on_kv_Inr dest: lookup_client_Inr)
  show ?thesis
    unfolding consented_def
    using run required_session_frame [OF run(1)] lookup_client_Inr [OF run(5)] by (intro conjI exI) auto
qed

context kv_writes begin

lemma store_code: "let w' = snd (on_kv (store_oauth_state jt kv ''oauth_code'' code' data) w) in
    kept (held (ow_kv w) (code_key code)) (held (ow_kv w') (code_key code))
    \<or> code = code' \<and> (\<exists>text. jt_enc jt data = Inr text \<and> held (ow_kv w') (code_key code) = Some text)"
  using store_key [of jt "''oauth_code''" code' data w "code_key code"] code_key_inj [of code code']
  by (auto simp: Let_def code_key_def)

lemma decision_key:
  "let w' = snd (oauth_consent_decision ol kv cfg e h form w) in
    kept (held (ow_kv w) (code_key code)) (held (ow_kv w') (code_key code))
    \<or> (\<exists>c consent text. consented ol kv cfg e h form w code c consent \<and> jt_enc (ol_json ol) (code_data c consent) = Inr text
         \<and> held (ow_kv w') (code_key code) = Some text)"
proof (cases "accept_consent ol kv cfg e h form w")
  case (Pair r w1)
  have before: "kept (held (ow_kv w) (code_key code)) (held (ow_kv w1) (code_key code))"
    using keeps_accept [of "code_key code" ol cfg e h form] Pair unfolding keeps_key_def by (metis snd_conv)
  show ?thesis
  proof (cases r)
    case (Inl err)
    with Pair before show ?thesis by (simp add: oauth_consent_decision_def st_then_def)
  next
    case (Inr v)
    obtain c consent u where v: "v = (c, consent, u)" by (cases v)
    show ?thesis
    proof (cases "cd_decision form = ''deny''")
      case True
      with Pair Inr v before show ?thesis by (simp add: oauth_consent_decision_def st_then_def st_simps)
    next
      case False
      let ?store = "on_kv (store_oauth_state (ol_json ol) kv ''oauth_code'' (ae_random e 9) (code_data c consent))"
      have "ow_kv (snd (oauth_consent_decision ol kv cfg e h form w)) = ow_kv (snd (?store w1))"
        using Pair Inr v False
        by (auto simp: oauth_consent_decision_def st_then_def st_simps st_map_err_def split: sum.splits prod.splits)
      moreover have "consented ol kv cfg e h form w (ae_random e 9) c consent"
        using accept_consent_Inr [of ol kv cfg e h form w c consent u w1] Pair Inr v False by simp
      ultimately show ?thesis
        using store_code [of "ol_json ol" "ae_random e 9" "code_data c consent" w1 code] before
        by (auto simp: Let_def intro: kept_trans)
    qed
  qed
qed

end

subsection \<open>The page\<close>

text \<open>What is relied on of \<open>serde_json\<close>: an object's text reads back with the same texts under its keys.\<close>

definition reads_back :: "json_text \<Rightarrow> bool" where
  "reads_back jt \<longleftrightarrow> (\<forall>ms text v. distinct (map fst ms) \<longrightarrow> jt_enc jt (JObject ms) = Inr text \<longrightarrow> jt_dec jt text = Inr v \<longrightarrow>
     (\<forall>k. str_at k v = str_at k (JObject ms)))"

text \<open>
  \<open>consent\<close> is the record of the page that answers the authorization request \<open>p\<close> of the user \<open>c\<close> under
  the transaction \<open>txn\<close>: it holds the client, the address, the challenge and the state of \<open>p\<close> and the
  user; and the page shows the registered client's name and the origin of that address, and carries
  the transaction, the CSRF value of the record, and the cookie whose nonce has the record's hash.
  (A server that fails to send the page answers 500; its nonce then reached nobody.)
\<close>

definition page_for :: "oauth_libs \<Rightarrow> oauth_config \<Rightarrow> client_row list \<Rightarrow> authorize_params \<Rightarrow> claims \<Rightarrow> string \<Rightarrow> json
    \<Rightarrow> route_error + oauth_response \<Rightarrow> bool" where
  "page_for ol cfg clients p c txn consent answer \<longleftrightarrow>
     str_at ''client_id'' consent = Some (az_client p) \<and> str_at ''redirect_uri'' consent = Some (az_redirect p)
   \<and> str_at ''code_challenge'' consent = az_challenge p \<and> str_at ''state'' consent = az_state p
   \<and> str_at ''user_id'' consent = Some (cl_sub c)
   \<and> (answer = Inl (500, ''Internal error'')
      \<or> (\<exists>page client u nonce. answer = Inr (Consent page)
          \<and> client \<in> set clients \<and> cw_client_id client = az_client p \<and> cp_client_name page = cw_name client
          \<and> ul_parse (ol_url ol) (az_redirect p) = Some u \<and> cp_callback_origin page = callback_origin u
          \<and> cp_transaction page = txn \<and> str_at ''csrf'' consent = Some (cp_csrf page)
          \<and> cp_cookie page = consent_cookie cfg txn nonce
          \<and> str_at ''browser_nonce_hash'' consent = Some (hash_refresh_token (ol_sha ol) nonce)))"

lemma page_for_same_texts:
  "page_for ol cfg clients p c txn v a \<Longrightarrow> (\<And>k. str_at k v' = str_at k v) \<Longrightarrow> page_for ol cfg clients p c txn v' a"
  unfolding page_for_def by presburger

text \<open>What a request that is sent to the login page leaves, and what its continuation reads.\<close>

definition pending_for :: "authorize_params \<Rightarrow> json \<Rightarrow> bool" where
  "pending_for p v \<longleftrightarrow>
     str_at ''client_id'' v = Some (az_client p) \<and> str_at ''redirect_uri'' v = Some (az_redirect p)
   \<and> str_at ''state'' v = az_state p \<and> str_at ''scope'' v = az_scope p
   \<and> str_at ''code_challenge'' v = az_challenge p \<and> str_at ''code_challenge_method'' v = az_method p"

definition pending_params :: "json \<Rightarrow> authorize_params" where
  "pending_params v =
     \<lparr>az_client = text_at ''client_id'' v, az_redirect = text_at ''redirect_uri'' v,
      az_response_type = ''code'', az_state = str_at ''state'' v, az_scope = str_at ''scope'' v,
      az_challenge = str_at ''code_challenge'' v, az_method = str_at ''code_challenge_method'' v\<rparr>"

lemma pending_params_of: "pending_for p v \<Longrightarrow> az_response_type p = ''code'' \<Longrightarrow> pending_params v = p"
  by (cases p) (simp add: pending_for_def pending_params_def text_at_def)

lemma as_str_opt_text [simp]: "as_str (opt_text x) = x"
  by (cases x) (simp_all add: opt_text_def)

context kv_writes begin

lemma render_page:
  assumes "render_consent ol kv cfg e client p c w = (r, w')"
    and "client \<in> set clients" "cw_client_id client = az_client p" "valid_registration_redirect (ol_url ol) (az_redirect p)"
  shows "kept (held (ow_kv w) (consent_key txn)) (held (ow_kv w') (consent_key txn))
    \<or> (\<exists>ms text. txn = ae_random e 0 \<and> distinct (map fst ms) \<and> jt_enc (ol_json ol) (JObject ms) = Inr text
         \<and> held (ow_kv w') (consent_key txn) = Some text \<and> page_for ol cfg clients p c txn (JObject ms) r)"
proof -
  let ?data = "json_object [(''client_id'', JString (az_client p)), (''redirect_uri'', JString (az_redirect p)),
     (''state'', opt_text (az_state p)), (''scope'', opt_text (az_scope p)), (''code_challenge'', opt_text (az_challenge p)),
     (''user_id'', JString (cl_sub c)), (''workspace_id'', opt_text (extra_str ''workspace_id'' (cl_extra c))),
     (''browser_nonce_hash'', JString (hash_refresh_token (ol_sha ol) (ae_random e 2))), (''csrf'', JString (ae_random e 1))]"
  let ?store = "on_kv (store_oauth_state (ol_json ol) kv ''oauth_consent'' (ae_random e 0) ?data) w"
  obtain u where u: "ul_parse (ol_url ol) (az_redirect p) = Some u"
    using assms(4) by (auto simp: valid_registration_redirect_def split: if_splits option.splits)
  have w': "ow_kv w' = ow_kv (snd ?store)"
    using assms(1) by (auto simp: render_consent_def Let_def st_then_def st_simps st_map_err_def split: sum.splits prod.splits if_splits)
  have texts: "str_at ''client_id'' ?data = Some (az_client p)" "str_at ''redirect_uri'' ?data = Some (az_redirect p)"
    "str_at ''code_challenge'' ?data = az_challenge p" "str_at ''state'' ?data = az_state p"
    "str_at ''user_id'' ?data = Some (cl_sub c)" "str_at ''csrf'' ?data = Some (ae_random e 1)"
    "str_at ''browser_nonce_hash'' ?data = Some (hash_refresh_token (ol_sha ol) (ae_random e 2))"
    by (simp_all add: str_at_def json_object_def)
  have "r = Inl (500, ''Internal error'') \<or> (\<exists>page. r = Inr (Consent page) \<and> cp_client_name page = cw_name client
      \<and> cp_callback_origin page = callback_origin u \<and> cp_transaction page = ae_random e 0 \<and> cp_csrf page = ae_random e 1
      \<and> cp_cookie page = consent_cookie cfg (ae_random e 0) (ae_random e 2))"
    using assms(1) u
    by (cases ?store; cases "fst ?store")
      (auto simp: render_consent_def Let_def st_simps st_then_def st_map_err_def internal_oauth_error_def ensure_def split: if_splits)
  then have "page_for ol cfg clients p c (ae_random e 0) ?data r"
    unfolding page_for_def texts using assms(2,3) u by fastforce
  moreover obtain ms where "?data = JObject ms" "distinct (map fst ms)" by (simp add: json_object_def)
  ultimately show ?thesis
    using store_key [of "ol_json ol" "''oauth_consent''" "ae_random e 0" ?data w "consent_key txn"] w'
    unfolding Let_def by auto
qed

lemma login_pending:
  assumes "login_first ol kv cfg e p w = (r, w')"
  shows "kept (held (ow_kv w) (pending_key st)) (held (ow_kv w') (pending_key st))
    \<or> (\<exists>ms text. st = ae_random e 0 \<and> distinct (map fst ms) \<and> jt_enc (ol_json ol) (JObject ms) = Inr text
         \<and> held (ow_kv w') (pending_key st) = Some text \<and> pending_for p (JObject ms))"
proof -
  let ?data = "json_object [(''client_id'', JString (az_client p)), (''redirect_uri'', JString (az_redirect p)),
     (''state'', opt_text (az_state p)), (''scope'', opt_text (az_scope p)),
     (''code_challenge'', opt_text (az_challenge p)), (''code_challenge_method'', opt_text (az_method p))]"
  have "ow_kv w' = ow_kv (snd (on_kv (store_oauth_state (ol_json ol) kv ''oauth_pending'' (ae_random e 0) ?data) w))"
    using assms by (auto simp: login_first_def Let_def st_then_def st_simps st_map_err_def split: sum.splits prod.splits if_splits)
  moreover have "pending_for p ?data" by (simp add: pending_for_def json_object_def str_at_def)
  moreover obtain ms where "?data = JObject ms" "distinct (map fst ms)" by (simp add: json_object_def)
  ultimately show ?thesis
    using store_key [of "ol_json ol" "''oauth_pending''" "ae_random e 0" ?data w "pending_key st"]
    unfolding Let_def by auto
qed

end

lemma validated_redirect: "validate_redirect_uri ul allowed uri = Inr () \<Longrightarrow> valid_registration_redirect ul uri"
  by (simp add: validate_redirect_uri_def)

text \<open>The checks both endpoints make before they answer.\<close>

lemma checked_client:
  assumes "st_then (st_lift v) (\<lambda>_. st_then (lookup_active_client e n cid) (\<lambda>client.
      st_then (st_lift (validate_redirect_uri ul (cw_redirect_uris client) uri)) (\<lambda>_. f client))) w = (r, w')"
  shows "w' = w \<or> v = Inr () \<and> (\<exists>client \<in> set (ow_clients w). cw_client_id client = cid
    \<and> valid_registration_redirect ul uri \<and> f client w = (r, w'))"
proof (cases "\<exists>client. v = Inr () \<and> fst (lookup_active_client e n cid w) = Inr client
    \<and> validate_redirect_uri ul (cw_redirect_uris client) uri = Inr ()")
  case True
  then obtain client where c: "v = Inr ()" "lookup_active_client e n cid w = (Inr client, w)"
      "validate_redirect_uri ul (cw_redirect_uris client) uri = Inr ()"
    by (metis fst_conv lookup_client_Inr prod.collapse)
  with assms lookup_client_Inr [OF c(2)] validated_redirect [OF c(3)] show ?thesis by auto
next
  case False
  have "snd (lookup_active_client e n cid w) = w" by (simp add: lookup_active_client_def split: sum.splits)
  then show ?thesis
    using assms False by (cases v; cases "lookup_active_client e n cid w") (auto simp: st_then_def st_simps split: sum.splits)
qed

lemma authorize_cases:
  assumes "oauth_authorize ol kv cfg e h p w = (r, w')"
  shows "ow_kv w' = ow_kv w
    \<or> az_response_type p = ''code'' \<and> (\<exists>client w1. ow_kv w1 = ow_kv w \<and> client \<in> set (ow_clients w)
        \<and> cw_client_id client = az_client p \<and> valid_registration_redirect (ol_url ol) (az_redirect p)
        \<and> ((\<exists>c. cookie_session ol cfg (env_from 1 e) h = Some c \<and> render_consent ol kv cfg (env_from 10 e) client p c w1 = (r, w'))
          \<or> login_first ol kv cfg (env_from 20 e) p w1 = (r, w')))"
  using checked_client [OF assms [unfolded oauth_authorize_def]]
proof (elim disjE conjE bexE)
  fix client
  let ?answer = "case cookie_session ol cfg (env_from 1 e) h of
       None \<Rightarrow> login_first ol kv cfg (env_from 20 e) p
     | Some c \<Rightarrow> (\<lambda>w. case on_db (require_current_browser_session (env_from 5 e) c) w of
           (Inr _, w1) \<Rightarrow> render_consent ol kv cfg (env_from 10 e) client p c w1
         | (Inl (AppUnauthorized _), w1) \<Rightarrow> login_first ol kv cfg (env_from 20 e) p w1
         | (Inl err, w1) \<Rightarrow> (Inl (internal_oauth_error err), w1))"
  assume valid: "validate_authorize_params p = Inr ()"
    and client: "client \<in> set (ow_clients w)" "cw_client_id client = az_client p" "valid_registration_redirect (ol_url ol) (az_redirect p)"
    and answer: "?answer w = (r, w')"
  have code: "az_response_type p = ''code''"
    using valid by (auto simp: validate_authorize_params_def and_then_eq_Inr)
  have frame: "ow_kv w1 = ow_kv w" if "on_db m w = (x, w1)" for m x w1
    using that by (auto simp: on_db_def split: prod.splits)
  show ?thesis
  proof (cases "cookie_session ol cfg (env_from 1 e) h")
    case None
    with answer code client show ?thesis by auto
  next
    case (Some cl)
    obtain x w1 where x: "on_db (require_current_browser_session (env_from 5 e) cl) w = (x, w1)" by fastforce
    consider "x = Inr ()" | m where "x = Inl (AppUnauthorized m)" | err where "x = Inl err" "\<forall>m. err \<noteq> AppUnauthorized m"
      by (cases x) auto
    then show ?thesis
    proof cases
      case 1
      with answer Some x have "render_consent ol kv cfg (env_from 10 e) client p cl w1 = (r, w')" by simp
      with code client Some frame [OF x] show ?thesis by blast
    next
      case 2
      with answer Some x have "login_first ol kv cfg (env_from 20 e) p w1 = (r, w')" by simp
      with code client frame [OF x] show ?thesis by blast
    next
      case 3
      with answer Some x frame [OF x] show ?thesis by (cases err) auto
    qed
  qed
qed simp

context kv_writes begin

lemma continue_cases:
  assumes "oauth_authorize_continue ol kv cfg e h st w = (r, w')"
  shows "kept (held (ow_kv w) k) (held (ow_kv w') k)
    \<or> (\<exists>c pending s client w1. fst (required_session ol cfg e h w) = Inr c
        \<and> verify_oauth_state (ol_json ol) kv ''oauth_pending'' st (ow_kv w) = (Inr (Some pending), s) \<and> ow_kv w1 = s
        \<and> client \<in> set (ow_clients w) \<and> cw_client_id client = az_client (pending_params pending)
        \<and> valid_registration_redirect (ol_url ol) (az_redirect (pending_params pending))
        \<and> render_consent ol kv cfg (env_from 10 e) client (pending_params pending) c w1 = (r, w'))"
proof -
  obtain x w1 where x: "required_session ol cfg e h w = (x, w1)" by fastforce
  note frame = required_session_frame [OF x]
  obtain y s where y: "verify_oauth_state (ol_json ol) kv ''oauth_pending'' st (ow_kv w) = (y, s)" by fastforce
  have kept: "kept (held (ow_kv w) k) (held s k)"
    using consume_json_kept [of "ow_kv w" k] y unfolding verify_oauth_state_def by (metis snd_conv)
  have found: "st_map_err g (on_kv (verify_oauth_state (ol_json ol) kv ''oauth_pending'' st)) w1 = (map_err g y, w1\<lparr>ow_kv := s\<rparr>)" for g
    using y frame by (simp add: on_kv_def st_map_err_def)
  show ?thesis
  proof (cases x)
    case (Inl err)
    with assms x frame show ?thesis by (simp add: oauth_authorize_continue_def)
  next
    case (Inr c)
    consider err where "y = Inl err" | "y = Inr None" | pending where "y = Inr (Some pending)" by (metis option.exhaust sum.exhaust)
    then show ?thesis
    proof cases
      case 3
      let ?p = "pending_params pending"
      have "st_then (st_lift (validate_authorize_params ?p)) (\<lambda>_. st_then (lookup_active_client e 8 (az_client ?p)) (\<lambda>client.
          st_then (st_lift (validate_redirect_uri (ol_url ol) (cw_redirect_uris client) (az_redirect ?p))) (\<lambda>_.
          render_consent ol kv cfg (env_from 10 e) client ?p c))) (w1\<lparr>ow_kv := s\<rparr>) = (r, w')"
        using assms x Inr found [of internal_oauth_error] 3
        by (simp add: oauth_authorize_continue_def pending_params_def Let_def)
      from checked_client [OF this] x y Inr 3 frame kept show ?thesis by force
    next
      case 1
      with assms x Inr found [of internal_oauth_error] have "w' = w1\<lparr>ow_kv := s\<rparr>"
        by (simp add: oauth_authorize_continue_def)
      with kept show ?thesis by simp
    next
      case 2
      with assms x Inr found [of internal_oauth_error] have "w' = w1\<lparr>ow_kv := s\<rparr>"
        by (simp add: oauth_authorize_continue_def st_simps)
      with kept show ?thesis by simp
    qed
  qed
qed

end

subsection \<open>Histories\<close>

text \<open>What reaches a server with the in-process store: requests to the endpoints, uses of other secrets and
  rate limits by other routes, and sweeps of the store.\<close>

datatype oauth_call =
    Authorize headers authorize_params
  | Continue headers string
  | Decide headers consent_decision
  | Token headers token_request
  | Register registration
  | Elsewhere store_event

definition oauth_effect :: "oauth_libs \<Rightarrow> oauth_config \<Rightarrow> rate_limit_constants \<Rightarrow> auth_env \<times> oauth_call
    \<Rightarrow> memory_kv oauth_world \<Rightarrow> memory_kv oauth_world" where
  "oauth_effect ol cfg limits c w = (case c of (e, call) \<Rightarrow> (case call of
       Authorize h p \<Rightarrow> snd (oauth_authorize ol memory_ops cfg e h p w)
     | Continue h st \<Rightarrow> snd (oauth_authorize_continue ol memory_ops cfg e h st w)
     | Decide h form \<Rightarrow> snd (oauth_consent_decision ol memory_ops cfg e h form w)
     | Token h rq \<Rightarrow> snd (oauth_token ol memory_ops cfg e h rq w)
     | Register rg \<Rightarrow> snd (register_client (ol_url ol) cfg e rg w)
     | Elsewhere ev \<Rightarrow> w\<lparr>ow_kv := store_event_effect (ol_json ol) limits ev (ow_kv w)\<rparr>))"

text \<open>Other routes do not store codes.\<close>

definition elsewhere_ok :: "auth_env \<times> oauth_call \<Rightarrow> bool" where
  "elsewhere_ok c = (case snd c of Elsewhere ev \<Rightarrow> \<forall>code. spares (OauthState ''oauth_code'' code) ev | _ \<Rightarrow> True)"

interpretation mem_writes: kv_writes memory_ops memory_held
  by unfold_locales (auto simp: memory_set_def entry_new_def memory_held_def split: option.splits)

lemma oauth_call_key:
  assumes "elsewhere_ok (e, call)"
  shows "kept (memory_held (ow_kv w) (code_key code)) (memory_held (ow_kv (oauth_effect ol cfg limits (e, call) w)) (code_key code))
    \<or> (\<exists>h form c consent text. call = Decide h form \<and> consented ol memory_ops cfg e h form w code c consent
         \<and> jt_enc (ol_json ol) (code_data c consent) = Inr text
         \<and> memory_held (ow_kv (oauth_effect ol cfg limits (e, call) w)) (code_key code) = Some text)"
proof (cases call)
  case (Authorize h p)
  then show ?thesis using mem_writes.keeps_authorize by (simp add: oauth_effect_def keeps_key_def)
next
  case (Continue h st)
  then show ?thesis using mem_writes.keeps_continue by (simp add: oauth_effect_def keeps_key_def)
next
  case (Decide h form)
  then show ?thesis using mem_writes.decision_key [of ol cfg e h form w code] by (simp add: oauth_effect_def Let_def)
next
  case (Token h rq)
  then show ?thesis using mem_writes.keeps_token by (simp add: oauth_effect_def keeps_key_def)
next
  case (Register rg)
  then show ?thesis using mem_writes.keeps_register by (simp add: oauth_effect_def keeps_key_def)
next
  case (Elsewhere ev)
  with assms have "spares (OauthState ''oauth_code'' code) ev" by (simp add: elsewhere_ok_def)
  then have "kept (memory_held (ow_kv w) (code_key code)) (memory_held (store_event_effect (ol_json ol) limits ev (ow_kv w)) (code_key code))"
    using mem.token_call_kept [of "OauthState ''oauth_code'' code"] sweep_kept plain_providers(1)
    by (cases ev) (simp_all add: store_event_effect_def spares_def code_key_def)
  with Elsewhere show ?thesis by (simp add: oauth_effect_def)
qed

definition oauth_run :: "oauth_libs \<Rightarrow> oauth_config \<Rightarrow> rate_limit_constants \<Rightarrow> (auth_env \<times> oauth_call) list
    \<Rightarrow> memory_kv oauth_world \<Rightarrow> memory_kv oauth_world" where
  "oauth_run ol cfg limits calls w = fold (oauth_effect ol cfg limits) calls w"

text \<open>Nor the records of consent pages or of requests that wait for a login.\<close>

definition flows_apart :: "auth_env \<times> oauth_call \<Rightarrow> bool" where
  "flows_apart c = (case snd c of
       Elsewhere ev \<Rightarrow> \<forall>t. spares (OauthState ''oauth_consent'' t) ev \<and> spares (OauthState ''oauth_pending'' t) ev
     | _ \<Rightarrow> True)"

lemma elsewhere_key:
  assumes "spares (OauthState pr t) ev" "plain pr"
  shows "kept (memory_held m (oauth_key pr t)) (memory_held (store_event_effect jt limits ev m) (oauth_key pr t))"
  using assms mem.token_call_kept [of "OauthState pr t"] sweep_kept
  by (cases ev) (simp_all add: store_event_effect_def spares_def)

text \<open>A record of a page is written by a request that renders it.\<close>

definition renders :: "oauth_libs \<Rightarrow> oauth_config \<Rightarrow> string \<Rightarrow> auth_env \<times> oauth_call \<Rightarrow> memory_kv oauth_world \<Rightarrow> string \<Rightarrow> bool" where
  "renders ol cfg txn ec w body \<longleftrightarrow> (\<exists>e ms p c. fst ec = e \<and> distinct (map fst ms) \<and> jt_enc (ol_json ol) (JObject ms) = Inr body
     \<and> ((\<exists>h. snd ec = Authorize h p \<and> cookie_session ol cfg (env_from 1 e) h = Some c
          \<and> page_for ol cfg (ow_clients w) p c txn (JObject ms) (fst (oauth_authorize ol memory_ops cfg e h p w)))
       \<or> (\<exists>h st pending s. snd ec = Continue h st \<and> fst (required_session ol cfg e h w) = Inr c
          \<and> verify_oauth_state (ol_json ol) memory_ops ''oauth_pending'' st (ow_kv w) = (Inr (Some pending), s)
          \<and> p = pending_params pending
          \<and> page_for ol cfg (ow_clients w) p c txn (JObject ms) (fst (oauth_authorize_continue ol memory_ops cfg e h st w)))))"

definition waits :: "oauth_libs \<Rightarrow> string \<Rightarrow> auth_env \<times> oauth_call \<Rightarrow> string \<Rightarrow> bool" where
  "waits ol st ec body \<longleftrightarrow> (\<exists>e h p ms. ec = (e, Authorize h p) \<and> az_response_type p = ''code'' \<and> st = ae_random e 20
     \<and> distinct (map fst ms) \<and> jt_enc (ol_json ol) (JObject ms) = Inr body \<and> pending_for p (JObject ms))"

lemma consent_call_key:
  assumes "flows_apart ec"
  shows "kept (memory_held (ow_kv w) (consent_key txn)) (memory_held (ow_kv (oauth_effect ol cfg limits ec w)) (consent_key txn))
    \<or> (\<exists>body. memory_held (ow_kv (oauth_effect ol cfg limits ec w)) (consent_key txn) = Some body \<and> renders ol cfg txn ec w body)"
proof -
  obtain e call where ec: "ec = (e, call)" by (cases ec)
  show ?thesis
  proof (cases call)
    case (Authorize h p)
    obtain r w' where run: "oauth_authorize ol memory_ops cfg e h p w = (r, w')" by fastforce
    have eff: "oauth_effect ol cfg limits ec w = w'" using ec Authorize run by (simp add: oauth_effect_def)
    from authorize_cases [OF run] show ?thesis
    proof (elim disjE conjE exE)
      fix client w1 c
      assume "ow_kv w1 = ow_kv w" "client \<in> set (ow_clients w)" "cw_client_id client = az_client p"
        "valid_registration_redirect (ol_url ol) (az_redirect p)" "cookie_session ol cfg (env_from 1 e) h = Some c"
        "render_consent ol memory_ops cfg (env_from 10 e) client p c w1 = (r, w')"
      with mem_writes.render_page [of ol cfg "env_from 10 e" client p c w1 r w' "ow_clients w" txn] run eff Authorize ec
      show ?thesis by (fastforce simp: renders_def)
    next
      fix client w1
      assume "ow_kv w1 = ow_kv w" "login_first ol memory_ops cfg (env_from 20 e) p w1 = (r, w')"
      with mem_writes.keeps_login [of "consent_key txn" ol cfg "env_from 20 e" p] eff
      have "kept (memory_held (ow_kv w) (consent_key txn)) (memory_held (ow_kv w') (consent_key txn))"
        by (simp add: keeps_key_def) (metis snd_conv)
      with eff show ?thesis by simp
    qed (simp add: eff)
  next
    case (Continue h st)
    obtain r w' where run: "oauth_authorize_continue ol memory_ops cfg e h st w = (r, w')" by fastforce
    have eff: "oauth_effect ol cfg limits ec w = w'" using ec Continue run by (simp add: oauth_effect_def)
    from mem_writes.continue_cases [OF run, of "consent_key txn"] show ?thesis
    proof (elim disjE conjE exE)
      fix c pending s client w1
      assume r: "fst (required_session ol cfg e h w) = Inr c"
        "verify_oauth_state (ol_json ol) memory_ops ''oauth_pending'' st (ow_kv w) = (Inr (Some pending), s)" "ow_kv w1 = s"
        "client \<in> set (ow_clients w)" "cw_client_id client = az_client (pending_params pending)"
        "valid_registration_redirect (ol_url ol) (az_redirect (pending_params pending))"
        "render_consent ol memory_ops cfg (env_from 10 e) client (pending_params pending) c w1 = (r, w')"
      have "kept (memory_held (ow_kv w) (consent_key txn)) (memory_held (ow_kv w1) (consent_key txn))"
        using mem.consume_json_kept [of "ow_kv w" "consent_key txn"] r(2,3) unfolding verify_oauth_state_def by (metis snd_conv)
      with mem_writes.render_page [OF r(7,4,5,6), of txn] run eff Continue ec r(1,2)
      show ?thesis by (fastforce simp: renders_def intro: kept_trans)
    qed (simp add: eff)
  next
    case (Decide h form)
    then show ?thesis using mem_writes.keeps_decision [of "consent_key txn"] ec by (simp add: oauth_effect_def keeps_key_def)
  next
    case (Token h rq)
    then show ?thesis using mem_writes.keeps_token ec by (simp add: oauth_effect_def keeps_key_def)
  next
    case (Register rg)
    then show ?thesis using mem_writes.keeps_register ec by (simp add: oauth_effect_def keeps_key_def)
  next
    case (Elsewhere ev)
    then show ?thesis
      using elsewhere_key [of "''oauth_consent''" txn ev] assms ec plain_providers(2)
      by (simp add: oauth_effect_def flows_apart_def consent_key_def)
  qed
qed

lemma pending_call_key:
  assumes "flows_apart ec"
  shows "kept (memory_held (ow_kv w) (pending_key st)) (memory_held (ow_kv (oauth_effect ol cfg limits ec w)) (pending_key st))
    \<or> (\<exists>body. memory_held (ow_kv (oauth_effect ol cfg limits ec w)) (pending_key st) = Some body \<and> waits ol st ec body)"
proof -
  obtain e call where ec: "ec = (e, call)" by (cases ec)
  show ?thesis
  proof (cases call)
    case (Authorize h p)
    obtain r w' where run: "oauth_authorize ol memory_ops cfg e h p w = (r, w')" by fastforce
    have eff: "oauth_effect ol cfg limits ec w = w'" using ec Authorize run by (simp add: oauth_effect_def)
    from authorize_cases [OF run] show ?thesis
    proof (elim disjE conjE exE)
      fix client w1 c
      assume "ow_kv w1 = ow_kv w" "render_consent ol memory_ops cfg (env_from 10 e) client p c w1 = (r, w')"
      with mem_writes.keeps_render [of "pending_key st" ol cfg "env_from 10 e" client p c] eff
      have "kept (memory_held (ow_kv w) (pending_key st)) (memory_held (ow_kv w') (pending_key st))"
        by (simp add: keeps_key_def) (metis snd_conv)
      with eff show ?thesis by simp
    next
      fix client w1
      assume "az_response_type p = ''code''" "ow_kv w1 = ow_kv w" "login_first ol memory_ops cfg (env_from 20 e) p w1 = (r, w')"
      with mem_writes.login_pending [of ol cfg "env_from 20 e" p w1 r w' st] eff Authorize ec
      show ?thesis by (fastforce simp: waits_def env_from_def)
    qed (simp add: eff)
  next
    case (Continue h s)
    then show ?thesis using mem_writes.keeps_continue [of "pending_key st"] ec by (simp add: oauth_effect_def keeps_key_def)
  next
    case (Decide h form)
    then show ?thesis using mem_writes.keeps_decision [of "pending_key st"] ec by (simp add: oauth_effect_def keeps_key_def)
  next
    case (Token h rq)
    then show ?thesis using mem_writes.keeps_token ec by (simp add: oauth_effect_def keeps_key_def)
  next
    case (Register rg)
    then show ?thesis using mem_writes.keeps_register ec by (simp add: oauth_effect_def keeps_key_def)
  next
    case (Elsewhere ev)
    then show ?thesis
      using elsewhere_key [of "''oauth_pending''" st ev] assms ec plain_providers(3)
      by (simp add: oauth_effect_def flows_apart_def pending_key_def)
  qed
qed

text \<open>What is held at the end of a history that began without it was written at some point of it.\<close>

lemma written_at:
  assumes step: "\<And>c w. ok c \<Longrightarrow> kept (memory_held (ow_kv w) k) (memory_held (ow_kv (oauth_effect ol cfg limits c w)) k)
      \<or> (\<exists>body. memory_held (ow_kv (oauth_effect ol cfg limits c w)) k = Some body \<and> written c w body)"
    and "list_all ok calls" "memory_held (ow_kv w0) k = None"
    and "memory_held (ow_kv (oauth_run ol cfg limits calls w0)) k = Some t"
  shows "\<exists>i < length calls. written (calls ! i) (oauth_run ol cfg limits (take i calls) w0) t"
  using assms(2,4)
proof (induction calls arbitrary: t rule: rev_induct)
  case Nil
  with assms(3) show ?case by (simp add: oauth_run_def)
next
  case (snoc c calls)
  let ?w = "oauth_run ol cfg limits calls w0"
  have run: "oauth_run ol cfg limits (calls @ [c]) w0 = oauth_effect ol cfg limits c ?w" by (simp add: oauth_run_def)
  have "ok c" using snoc.prems(1) by simp
  from step [OF this, of ?w] show ?case
  proof (elim disjE exE conjE)
    assume "kept (memory_held (ow_kv ?w) k) (memory_held (ow_kv (oauth_effect ol cfg limits c ?w)) k)"
    then have "memory_held (ow_kv ?w) k = Some t" using snoc.prems(2) run by (auto simp: kept_def)
    with snoc.IH snoc.prems(1) obtain i where "i < length calls" "written (calls ! i) (oauth_run ol cfg limits (take i calls) w0) t"
      by auto
    then show ?case by (intro exI [of _ i]) (simp add: nth_append)
  next
    fix body
    assume "memory_held (ow_kv (oauth_effect ol cfg limits c ?w)) k = Some body" "written c ?w body"
    with snoc.prems(2) run show ?case by (intro exI [of _ "length calls"]) simp
  qed
qed

text \<open>Every code in the store was granted.\<close>

lemma held_code_granted:
  assumes "list_all elsewhere_ok calls" "\<And>code. memory_held (ow_kv w0) (code_key code) = None"
    "memory_held (ow_kv (oauth_run ol cfg limits calls w0)) (code_key code) = Some t"
  shows "\<exists>i e h form c consent. i < length calls \<and> calls ! i = (e, Decide h form)
    \<and> consented ol memory_ops cfg e h form (oauth_run ol cfg limits (take i calls) w0) code c consent
    \<and> jt_enc (ol_json ol) (code_data c consent) = Inr t"
proof -
  let ?granted = "\<lambda>ec w t. \<exists>e h form c consent. ec = (e, Decide h form)
     \<and> consented ol memory_ops cfg e h form w code c consent \<and> jt_enc (ol_json ol) (code_data c consent) = Inr t"
  have "kept (memory_held (ow_kv w) (code_key code)) (memory_held (ow_kv (oauth_effect ol cfg limits ec w)) (code_key code))
      \<or> (\<exists>t. memory_held (ow_kv (oauth_effect ol cfg limits ec w)) (code_key code) = Some t \<and> ?granted ec w t)"
    if "elsewhere_ok ec" for ec w
    using oauth_call_key [of "fst ec" "snd ec" w code ol cfg limits] that by (cases ec) auto
  from written_at [of elsewhere_ok, OF this assms(1,2,3)] show ?thesis by fast
qed

subsection \<open>The code grant\<close>

lemma code_data_read:
  assumes "reads_back jt" "jt_enc jt (code_data c consent) = Inr text" "jt_dec jt text = Inr v"
  shows "str_at ''user_id'' v = Some (cl_sub c)" "str_at ''client_id'' v = Some (text_at ''client_id'' consent)"
    "str_at ''redirect_uri'' v = Some (text_at ''redirect_uri'' consent)"
    "str_at ''code_challenge'' v = str_at ''code_challenge'' consent"
proof -
  obtain ms where ms: "code_data c consent = JObject ms" "distinct (map fst ms)"
    by (simp add: code_data_def json_object_def)
  have "str_at k v = str_at k (code_data c consent)" for k
    using assms ms unfolding reads_back_def by metis
  then show "str_at ''user_id'' v = Some (cl_sub c)" "str_at ''client_id'' v = Some (text_at ''client_id'' consent)"
    "str_at ''redirect_uri'' v = Some (text_at ''redirect_uri'' consent)"
    "str_at ''code_challenge'' v = str_at ''code_challenge'' consent"
    by (simp_all add: code_data_def json_object_def str_at_def json_at_def split: option.splits)
qed

lemma user_by_id_Inr: "get_user_by_id e n uid db = (Inr (Some u), db') \<Longrightarrow> db' = db \<and> u \<in> set (accounts db) \<and> ac_id u = uid"
  by (auto simp: get_user_by_id_def statement_def dest!: find_SomeD split: sum.splits)

lemma code_grant_Inr:
  assumes "handle_authorization_code ol kv cfg e h rq w = (Inr tk, w')"
  obtains code data s verifier u access where "tr_code rq = Some code" "tr_verifier rq = Some verifier"
    "verify_oauth_state (ol_json ol) kv ''oauth_code'' code (ow_kv w) = (Inr (Some data), s)" "ow_kv w' = s"
    "str_at ''client_id'' data = Some (tr_client rq)" "str_at ''redirect_uri'' data = tr_redirect rq"
    "str_at ''code_challenge'' data = Some (pkce_s256 ol verifier)"
    "(u :: account_row) \<in> set (accounts (ow_db w))" "ac_id u = text_at ''user_id'' data" "ac_active u"
    "jw_encode (ol_jwt ol) (oc_secret cfg) access = Inr (tk_access_token tk)" "cl_purpose access = Some Mcp" "cl_sub access = ac_id u"
proof -
  from assms obtain code redirect verifier s data u db access where run: "tr_code rq = Some code" "tr_redirect rq = Some redirect"
    "tr_verifier rq = Some verifier" "verify_oauth_state (ol_json ol) kv ''oauth_code'' code (ow_kv w) = (Inr (Some data), s)"
    "str_at ''client_id'' data = Some (tr_client rq)" "str_at ''redirect_uri'' data = Some redirect"
    "str_at ''code_challenge'' data = Some (pkce_s256 ol verifier)"
    "get_user_by_id e 0 (text_at ''user_id'' data) (ow_db w) = (Inr (Some u), db)" "ac_active (u :: account_row)"
    "jw_encode (ol_jwt ol) (oc_secret cfg) access = Inr (tk_access_token tk)" "cl_purpose access = Some Mcp" "cl_sub access = ac_id u"
    "ow_kv w' = s"
    unfolding handle_authorization_code_def Let_def create_mcp_access_token_str_def minted_claims
    by (auto simp: st_then_eq_Inr on_kv_Inr on_db_Inr create_mcp_access_token_str_def minted_claims)
  show thesis
    by (rule that) (use run user_by_id_Inr [OF run(8)] in auto)
qed

lemma token_code_grant:
  "tr_grant_type rq = ''authorization_code'' \<Longrightarrow> oauth_token ol kv cfg e h rq w = (Inr tk, w') \<Longrightarrow>
    handle_authorization_code ol kv cfg (env_from 1 e) h rq w = (Inr tk, w')"
  by (auto simp: oauth_token_def st_then_eq_Inr dest: lookup_client_Inr)

lemma redeemed_code:
  assumes "verify_oauth_state jt memory_ops ''oauth_code'' code s = (Inr (Some data), s')"
  shows "\<exists>text. memory_held s (code_key code) = Some text \<and> jt_dec jt text = Inr data \<and> memory_held s' (code_key code) = None"
  using mem.consume_json_value [of jt "code_key code" s data s'] assms by (simp add: verify_oauth_state_def code_key_def)

text \<open>
  The page of the record \<open>consent\<close> was the answer of an earlier request in \<open>calls\<close>: of the authorization
  request \<open>p\<close> itself, sent by a browser with a session of \<open>c\<close>; or of its continuation after a login, by a
  browser whose current session is of \<open>c\<close>.
\<close>

definition page_shown :: "oauth_libs \<Rightarrow> oauth_config \<Rightarrow> rate_limit_constants \<Rightarrow> (auth_env \<times> oauth_call) list
    \<Rightarrow> memory_kv oauth_world \<Rightarrow> authorize_params \<Rightarrow> claims \<Rightarrow> string \<Rightarrow> json \<Rightarrow> bool" where
  "page_shown ol cfg limits calls w0 p c txn consent \<longleftrightarrow> (\<exists>j e h. j < length calls
     \<and> (let w = oauth_run ol cfg limits (take j calls) w0 in
          calls ! j = (e, Authorize h p) \<and> cookie_session ol cfg (env_from 1 e) h = Some c
        \<and> page_for ol cfg (ow_clients w) p c txn consent (fst (oauth_authorize ol memory_ops cfg e h p w))
      \<or> (\<exists>i d h'. i < j \<and> calls ! i = (d, Authorize h' p) \<and> calls ! j = (e, Continue h (ae_random d 20))
        \<and> fst (required_session ol cfg e h w) = Inr c
        \<and> page_for ol cfg (ow_clients w) p c txn consent
            (fst (oauth_authorize_continue ol memory_ops cfg e h (ae_random d 20) w)))))"

lemma read_value:
  assumes "fst (verify_oauth_state jt memory_ops pr st s) = Inr (Some v)"
  shows "\<exists>body. memory_held s (oauth_key pr st) = Some body \<and> jt_dec jt body = Inr v"
  using mem.consume_json_value [of jt "oauth_key pr st" s v "snd (verify_oauth_state jt memory_ops pr st s)"] assms
  unfolding verify_oauth_state_def by (metis prod.collapse)

lemma read_page_shown:
  assumes "reads_back (ol_json ol)" "list_all flows_apart calls"
    and "\<And>t. memory_held (ow_kv w0) (consent_key t) = None" "\<And>t. memory_held (ow_kv w0) (pending_key t) = None"
    and "fst (verify_oauth_state (ol_json ol) memory_ops ''oauth_consent'' txn (ow_kv (oauth_run ol cfg limits calls w0)))
      = Inr (Some consent)"
  shows "\<exists>p c. page_shown ol cfg limits calls w0 p c txn consent"
proof -
  from read_value [OF assms(5)] obtain body where body: "jt_dec (ol_json ol) body = Inr consent"
    "memory_held (ow_kv (oauth_run ol cfg limits calls w0)) (consent_key txn) = Some body"
    by (auto simp: consent_key_def)
  from written_at [of flows_apart, OF consent_call_key assms(2,3) body(2)] obtain j
    where j: "j < length calls" "renders ol cfg txn (calls ! j) (oauth_run ol cfg limits (take j calls) w0) body" by blast
  let ?w = "oauth_run ol cfg limits (take j calls) w0"
  obtain e call where ec: "calls ! j = (e, call)" by (cases "calls ! j")
  from j(2) obtain ms p c where ms: "distinct (map fst ms)" "jt_enc (ol_json ol) (JObject ms) = Inr body"
    and who: "(\<exists>h. call = Authorize h p \<and> cookie_session ol cfg (env_from 1 e) h = Some c
          \<and> page_for ol cfg (ow_clients ?w) p c txn (JObject ms) (fst (oauth_authorize ol memory_ops cfg e h p ?w)))
       \<or> (\<exists>h st pending s. call = Continue h st \<and> fst (required_session ol cfg e h ?w) = Inr c
          \<and> verify_oauth_state (ol_json ol) memory_ops ''oauth_pending'' st (ow_kv ?w) = (Inr (Some pending), s)
          \<and> p = pending_params pending
          \<and> page_for ol cfg (ow_clients ?w) p c txn (JObject ms) (fst (oauth_authorize_continue ol memory_ops cfg e h st ?w)))"
    unfolding renders_def ec by auto
  have same: "str_at k consent = str_at k (JObject ms)" for k
    using assms(1) ms body(1) unfolding reads_back_def by blast
  from who show ?thesis
  proof (elim disjE exE conjE)
    fix h
    assume "call = Authorize h p" "cookie_session ol cfg (env_from 1 e) h = Some c"
      "page_for ol cfg (ow_clients ?w) p c txn (JObject ms) (fst (oauth_authorize ol memory_ops cfg e h p ?w))"
    with j(1) ec page_for_same_texts [OF _ same] show ?thesis unfolding page_shown_def Let_def by blast
  next
    fix h st pending s
    assume c: "call = Continue h st" "fst (required_session ol cfg e h ?w) = Inr c"
      "verify_oauth_state (ol_json ol) memory_ops ''oauth_pending'' st (ow_kv ?w) = (Inr (Some pending), s)"
      "p = pending_params pending"
      "page_for ol cfg (ow_clients ?w) p c txn (JObject ms) (fst (oauth_authorize_continue ol memory_ops cfg e h st ?w))"
    then obtain waiting where waiting: "jt_dec (ol_json ol) waiting = Inr pending"
      "memory_held (ow_kv ?w) (pending_key st) = Some waiting"
      using read_value [of "ol_json ol" "''oauth_pending''" st "ow_kv ?w" pending] by (auto simp: pending_key_def)
    have "list_all flows_apart (take j calls)" using assms(2) by (auto simp: list_all_iff dest: in_set_takeD)
    from written_at [of flows_apart, OF pending_call_key this assms(4) waiting(2)] obtain i
      where i: "i < j" "waits ol st (calls ! i) waiting" by auto
    then obtain d h' p' ms' where d: "calls ! i = (d, Authorize h' p')" "az_response_type p' = ''code''" "st = ae_random d 20"
      "distinct (map fst ms')" "jt_enc (ol_json ol) (JObject ms') = Inr waiting" "pending_for p' (JObject ms')"
      unfolding waits_def by blast
    have "str_at k pending = str_at k (JObject ms')" for k
      using assms(1) d(4,5) waiting(1) unfolding reads_back_def by blast
    then have "pending_for p' pending" using d(6) by (simp add: pending_for_def)
    then have "p' = p" using pending_params_of [OF _ d(2)] c(4) by simp
    with j(1) ec i(1) d(1,3) c page_for_same_texts [OF c(5) same] show ?thesis unfolding page_shown_def Let_def by blast
  qed
qed

text \<open>C36: Whatever requests have reached the server, in any order and each as one step, and whatever the other
  routes kept in the store, an API client gets tokens for an authorization code only if an earlier
  decision granted that code: a user allowed it in a current session, with a record whose page
  answered a still earlier request (or was not sent, that request failing with status 500). That page was
  rendered for the authorization request \<open>p\<close> and the same user, its record holds the client, the address and
  the challenge of \<open>p\<close>, and the decision came with the CSRF value of the page and a cookie whose nonce has the
  hash of the nonce sent with it. The token request names the client and the address of \<open>p\<close>, and its verifier
  answers the challenge of \<open>p\<close>. The access token is one for the MCP endpoint and names the user who decided.\<close>

theorem code_grants_consented:
  assumes "reads_back (ol_json ol)" "list_all elsewhere_ok calls" "list_all flows_apart calls"
    and "\<And>provider t. provider \<in> {''oauth_code'', ''oauth_consent'', ''oauth_pending''}
      \<Longrightarrow> memory_held (ow_kv w0) (oauth_key provider t) = None"
    and "tr_grant_type rq = ''authorization_code''"
    and "oauth_token ol memory_ops cfg e h rq (oauth_run ol cfg limits calls w0) = (Inr tk, w')"
  shows "\<exists>i d hd form code c consent p c' verifier access. i < length calls \<and> calls ! i = (d, Decide hd form)
    \<and> consented ol memory_ops cfg d hd form (oauth_run ol cfg limits (take i calls) w0) code c consent
    \<and> page_shown ol cfg limits (take i calls) w0 p c' (cd_transaction form) consent \<and> cl_sub c' = cl_sub c
    \<and> tr_code rq = Some code \<and> tr_client rq = az_client p \<and> tr_redirect rq = Some (az_redirect p)
    \<and> tr_verifier rq = Some verifier \<and> az_challenge p = Some (pkce_s256 ol verifier)
    \<and> jw_encode (ol_jwt ol) (oc_secret cfg) access = Inr (tk_access_token tk)
    \<and> cl_purpose access = Some Mcp \<and> cl_sub access = cl_sub c"
proof -
  let ?w = "oauth_run ol cfg limits calls w0"
  obtain code data s verifier u access where grant: "tr_code rq = Some code" "tr_verifier rq = Some verifier"
    "verify_oauth_state (ol_json ol) memory_ops ''oauth_code'' code (ow_kv ?w) = (Inr (Some data), s)"
    "str_at ''client_id'' data = Some (tr_client rq)" "str_at ''redirect_uri'' data = tr_redirect rq"
    "str_at ''code_challenge'' data = Some (pkce_s256 ol verifier)" "ac_id (u :: account_row) = text_at ''user_id'' data"
    "jw_encode (ol_jwt ol) (oc_secret cfg) access = Inr (tk_access_token tk)" "cl_purpose access = Some Mcp" "cl_sub access = ac_id u"
    using code_grant_Inr [OF token_code_grant [OF assms(5,6)]] by metis
  from redeemed_code [OF grant(3)] obtain body where held: "memory_held (ow_kv ?w) (code_key code) = Some body"
    "jt_dec (ol_json ol) body = Inr data" by blast
  have empty: "memory_held (ow_kv w0) (code_key t) = None" "memory_held (ow_kv w0) (consent_key t) = None"
    "memory_held (ow_kv w0) (pending_key t) = None" for t
    unfolding code_key_def consent_key_def pending_key_def by (simp_all add: assms(4))
  from held_code_granted [OF assms(2) empty(1) held(1)] obtain i d hd form c consent where decided: "i < length calls"
    "calls ! i = (d, Decide hd form)"
    "consented ol memory_ops cfg d hd form (oauth_run ol cfg limits (take i calls) w0) code c consent"
    "jt_enc (ol_json ol) (code_data c consent) = Inr body" by blast
  have "list_all flows_apart (take i calls)" using assms(3) by (auto simp: list_all_iff dest: in_set_takeD)
  from read_page_shown [OF assms(1) this empty(2,3)] decided(3) obtain p c'
    where page: "page_shown ol cfg limits (take i calls) w0 p c' (cd_transaction form) consent"
    unfolding consented_def by blast
  then have texts: "str_at ''client_id'' consent = Some (az_client p)" "str_at ''redirect_uri'' consent = Some (az_redirect p)"
    "str_at ''code_challenge'' consent = az_challenge p" "str_at ''user_id'' consent = Some (cl_sub c')"
    unfolding page_shown_def page_for_def Let_def by auto
  have "cl_sub c' = cl_sub c" using decided(3) texts(4) by (auto simp: consented_def consent_matches_def)
  moreover note read = code_data_read [OF assms(1) decided(4) held(2)]
  have "tr_client rq = az_client p" "tr_redirect rq = Some (az_redirect p)"
    "az_challenge p = Some (pkce_s256 ol verifier)" "cl_sub access = cl_sub c"
    using read grant(4-7,10) texts by (simp_all add: text_at_def)
  ultimately show ?thesis using decided(1-3) page grant(1,2,8,9) by blast
qed

subsection \<open>A code works once\<close>

text \<open>The calls that may put a code into the store are the decisions that draw it.\<close>

definition draws_other :: "string \<Rightarrow> auth_env \<times> oauth_call \<Rightarrow> bool" where
  "draws_other code c \<longleftrightarrow> (case c of (e, Decide _ _) \<Rightarrow> ae_random e 9 \<noteq> code | _ \<Rightarrow> True)"

lemma spent_code_gone:
  assumes "list_all elsewhere_ok calls" "list_all (draws_other code) calls" "memory_held (ow_kv w) (code_key code) = None"
  shows "memory_held (ow_kv (oauth_run ol cfg limits calls w)) (code_key code) = None"
  using assms
proof (induction calls arbitrary: w)
  case Nil
  then show ?case by (simp add: oauth_run_def)
next
  case (Cons c calls)
  obtain e call where c: "c = (e, call)" by (cases c)
  have "memory_held (ow_kv (oauth_effect ol cfg limits c w)) (code_key code) = None"
    using oauth_call_key [of e call w code ol cfg limits] Cons.prems
    by (auto simp: c consented_def draws_other_def kept_def)
  with Cons show ?case by (simp add: oauth_run_def)
qed

text \<open>C37: A code works once: after a grant was made for it, no later request to the token endpoint succeeds with
  that code, whatever happens in between, unless a decision draws the same code again.\<close>

theorem code_redeemed_once:
  assumes "tr_grant_type rq = ''authorization_code''" "tr_code rq = Some code"
    and "oauth_token ol memory_ops cfg e h rq w = (Inr tk, w1)"
    and "list_all elsewhere_ok calls" "list_all (draws_other code) calls"
    and "tr_grant_type rq' = ''authorization_code''" "tr_code rq' = Some code"
  shows "fst (oauth_token ol memory_ops cfg' e' h' rq' (oauth_run ol cfg limits calls w1)) \<noteq> Inr tk'"
proof
  let ?w = "oauth_run ol cfg limits calls w1"
  assume "fst (oauth_token ol memory_ops cfg' e' h' rq' ?w) = Inr tk'"
  then have again: "oauth_token ol memory_ops cfg' e' h' rq' ?w = (Inr tk', snd (oauth_token ol memory_ops cfg' e' h' rq' ?w))"
    by (metis prod.collapse)
  from code_grant_Inr [OF token_code_grant [OF assms(1,3)]] assms(2) obtain data
    where "verify_oauth_state (ol_json ol) memory_ops ''oauth_code'' code (ow_kv w) = (Inr (Some data), ow_kv w1)"
    by (metis option.inject)
  then have "memory_held (ow_kv w1) (code_key code) = None" using redeemed_code by blast
  then have gone: "memory_held (ow_kv ?w) (code_key code) = None" using spent_code_gone assms(4,5) by blast
  from code_grant_Inr [OF token_code_grant [OF assms(6) again]] assms(7) obtain data' s'
    where "verify_oauth_state (ol_json ol) memory_ops ''oauth_code'' code (ow_kv ?w) = (Inr (Some data'), s')"
    by (metis option.inject)
  with gone redeemed_code show False by fastforce
qed

subsection \<open>A sample server\<close>

definition sample_draw :: "nat \<Rightarrow> string" where
  "sample_draw n = replicate 43 (if n = 9 then CHR ''c'' else if n = 10 then CHR ''t'' else if n = 11 then CHR ''f'' else CHR ''n'')"

definition oauth_env :: "int \<Rightarrow> auth_env" where
  "oauth_env t = \<lparr>ae_db_now = \<lambda>_. t, ae_now = \<lambda>_. t, ae_random = sample_draw, ae_fault = \<lambda>_. None, ae_applied = True\<rparr>"

definition browser_claims :: claims where
  "browser_claims = \<lparr>cl_sub = ''u'', cl_exp = 100, cl_iat = 0, cl_session_iat_us = Some 0, cl_jti = None, cl_purpose = None, cl_extra = []\<rparr>"

definition challenge_43 :: string where "challenge_43 = replicate 43 (CHR ''A'')"

definition sample_consent :: json where
  "sample_consent = json_object [(''client_id'', JString ''mcp-1''), (''redirect_uri'', JString ''https://c/''),
     (''state'', JString ''s''), (''scope'', JNull), (''code_challenge'', JString challenge_43),
     (''user_id'', JString ''u''), (''workspace_id'', JNull), (''browser_nonce_hash'', JString (sample_draw 12)), (''csrf'', JString (sample_draw 11))]"

text \<open>A text codec for the two values of the flow.\<close>

definition flow_json :: json_text where
  "flow_json = \<lparr>jt_enc = \<lambda>v. if v = sample_consent then Inr ''1'' else if v = code_data browser_claims sample_consent then Inr ''2''
       else Inl (Internal ''''),
     jt_dec = \<lambda>t. if t = ''1'' then Inr sample_consent else if t = ''2'' then Inr (code_data browser_claims sample_consent)
       else Inl (Internal '''')\<rparr>"

definition sample_url :: url where
  "sample_url = \<lparr>ur_scheme = ''https'', ur_username = [], ur_password = None, ur_host = Some ''c'', ur_port = None,
     ur_fragment = None, ur_text = ''https://c/''\<rparr>"

definition sample_oauth :: oauth_libs where
  "sample_oauth = \<lparr>ol_jwt = \<lparr>jw_encode = \<lambda>_ _. Inr ''mcp'',
       jw_decode = \<lambda>_ t now. if t = ''jwt'' then Inr browser_claims else Inl InvalidSignature\<rparr>,
     ol_sha = \<lambda>t. t, ol_base64 = \<lambda>_. challenge_43, ol_json = flow_json,
     ol_url = \<lparr>ul_parse = \<lambda>_. Some sample_url, ul_append = \<lambda>k v u. u\<lparr>ur_text := ur_text u @ ''?'' @ k @ ''='' @ v\<rparr>\<rparr>,
     ol_header_ok = \<lambda>_. True\<rparr>"

definition sample_oauth_config :: oauth_config where
  "sample_oauth_config = \<lparr>oc_secret = ''k'', oc_base_url = ''https://s'', oc_frontend_url = ''https://s'', oc_backend = Postgres\<rparr>"

definition sample_client :: client_row where
  "sample_client = \<lparr>cw_id = ''1'', cw_client_id = ''mcp-1'', cw_name = ''C'', cw_redirect_uris = JArray [JString ''https://c/''],
     cw_scopes = JArray [], cw_type = ''public'', cw_active = True\<rparr>"

definition sample_oauth_world :: "memory_kv oauth_world" where
  "sample_oauth_world = \<lparr>ow_kv = new_pool (\<lambda>_. 0), ow_db = sample_auth_db, ow_clients = [sample_client]\<rparr>"

definition browser_headers :: headers where
  "browser_headers name = (if name = ''cookie''
     then Some (Inr (''access_token=jwt; oauth_consent_'' @ sample_draw 10 @ ''='' @ sample_draw 12)) else None)"

definition sample_flow :: "(auth_env \<times> oauth_call) list" where
  "sample_flow =
    [(oauth_env 1, Authorize browser_headers \<lparr>az_client = ''mcp-1'', az_redirect = ''https://c/'', az_response_type = ''code'',
        az_state = Some ''s'', az_scope = None, az_challenge = Some challenge_43, az_method = Some ''S256''\<rparr>),
     (oauth_env 2, Decide browser_headers \<lparr>cd_transaction = sample_draw 10, cd_csrf = sample_draw 11, cd_decision = ''allow''\<rparr>)]"

definition sample_token_request :: token_request where
  "sample_token_request = \<lparr>tr_grant_type = ''authorization_code'', tr_code = Some (sample_draw 9), tr_refresh_token = None,
     tr_client = ''mcp-1'', tr_redirect = Some ''https://c/'', tr_verifier = Some challenge_43\<rparr>"

lemma sample_grant: "\<not> isl (fst (oauth_token sample_oauth memory_ops sample_oauth_config (oauth_env 3) (\<lambda>_. None) sample_token_request
    (oauth_run sample_oauth sample_oauth_config RATE_LIMITS sample_flow sample_oauth_world)))"
  by code_simp

lemma sample_run: "oauth_token sample_oauth memory_ops sample_oauth_config (oauth_env 3) (\<lambda>_. None) sample_token_request
    (oauth_run sample_oauth sample_oauth_config RATE_LIMITS sample_flow sample_oauth_world)
  = (Inr (projr (fst (oauth_token sample_oauth memory_ops sample_oauth_config (oauth_env 3) (\<lambda>_. None) sample_token_request
      (oauth_run sample_oauth sample_oauth_config RATE_LIMITS sample_flow sample_oauth_world)))),
    snd (oauth_token sample_oauth memory_ops sample_oauth_config (oauth_env 3) (\<lambda>_. None) sample_token_request
      (oauth_run sample_oauth sample_oauth_config RATE_LIMITS sample_flow sample_oauth_world)))"
  using sample_grant by (simp add: prod_eq_iff)

lemma flow_reads_back: "reads_back (ol_json sample_oauth)"
  by (auto simp: reads_back_def sample_oauth_def flow_json_def split: if_splits)

lemma sample_flow_ok: "list_all elsewhere_ok sample_flow" "tr_grant_type sample_token_request = ''authorization_code''"
  "memory_held (ow_kv sample_oauth_world) k = None" "list_all flows_apart sample_flow"
  by (simp_all add: sample_flow_def elsewhere_ok_def flows_apart_def sample_token_request_def sample_oauth_world_def
    memory_held_def new_pool_def)

theorem code_grants_consented_witness:
  "\<exists>i d hd form code c consent p c'. i < length sample_flow \<and> sample_flow ! i = (d, Decide hd form)
     \<and> consented sample_oauth memory_ops sample_oauth_config d hd form
         (oauth_run sample_oauth sample_oauth_config RATE_LIMITS (take i sample_flow) sample_oauth_world) code c consent
     \<and> page_shown sample_oauth sample_oauth_config RATE_LIMITS (take i sample_flow) sample_oauth_world p c'
         (cd_transaction form) consent
     \<and> tr_client sample_token_request = az_client p"
  using code_grants_consented [OF flow_reads_back sample_flow_ok(1,4,3,2) sample_run] by blast

theorem code_redeemed_once_witness:
  "\<forall>tk. let w1 = snd (oauth_token sample_oauth memory_ops sample_oauth_config (oauth_env 3) (\<lambda>_. None) sample_token_request
      (oauth_run sample_oauth sample_oauth_config RATE_LIMITS sample_flow sample_oauth_world))
   in fst (oauth_token sample_oauth memory_ops sample_oauth_config (oauth_env 5) (\<lambda>_. None) sample_token_request
      (oauth_run sample_oauth sample_oauth_config RATE_LIMITS [hd sample_flow] w1)) \<noteq> Inr tk"
proof -
  have "tr_code sample_token_request = Some (sample_draw 9)" by (simp add: sample_token_request_def)
  moreover have "list_all elsewhere_ok [hd sample_flow]" "list_all (draws_other (sample_draw 9)) [hd sample_flow]"
    by (simp_all add: sample_flow_def elsewhere_ok_def draws_other_def)
  ultimately show ?thesis
    unfolding Let_def using code_redeemed_once [OF sample_flow_ok(2) _ sample_run _ _ sample_flow_ok(2)] by blast
qed

end
