(* ===== verification/Chart_Blocks.thy ===== *)
theory Chart_Blocks
  imports Kyomi_Prelude
begin

text \<open>
  Chart blocks in an answer's markdown: the scanner and the stripping of \<open>crates/kyomi-core/src/chartml_validation.rs\<close>,
  by byte offsets as the code has them, and a reference that reads the text line by line. The two agree, and
  stripping leaves exactly the blocks that were not named.
\<close>

subsection \<open>The scanner\<close>

definition newline :: char where "newline = CHR 0x0A"

definition fence :: string where "fence = replicate 3 (CHR 0x60)"

text \<open>\<open>match_indices("```")\<close>: from the left, without overlaps.\<close>

fun match_fences :: "nat \<Rightarrow> string \<Rightarrow> nat list" where
  "match_fences i (a # b # c # s) =
     (if [a, b, c] = fence then i # match_fences (i + 3) s else match_fences (i + 1) (b # c # s))"
| "match_fences i _ = []"

definition at_line_start :: "string \<Rightarrow> nat \<Rightarrow> bool" where
  "at_line_start s i \<longleftrightarrow> i = 0 \<or> s ! (i - 1) = newline"

definition ends_fence :: "string \<Rightarrow> bool" where
  "ends_fence rest \<longleftrightarrow> rest = [] \<or> hd rest \<in> {newline, CHR 0x0D, CHR '' ''}"

definition closing_fence :: "string \<Rightarrow> nat option" where
  "closing_fence s = find (\<lambda>i. at_line_start s i \<and> ends_fence (drop (i + 3) s)) (match_fences 0 s)"

definition find_char :: "char \<Rightarrow> string \<Rightarrow> nat option" where
  "find_char c s = (if c \<in> set s then Some (length (takeWhile (\<lambda>x. x \<noteq> c) s)) else None)"

text \<open>\<open>trim()\<close>: the UTF-8 texts of the white space characters.\<close>

definition white_space :: "string list" where
  "white_space = map (\<lambda>c. [c]) [CHR 0x09, CHR 0x0A, CHR 0x0B, CHR 0x0C, CHR 0x0D, CHR 0x20]
     @ [[CHR 0xC2, CHR 0x85], [CHR 0xC2, CHR 0xA0], [CHR 0xE1, CHR 0x9A, CHR 0x80]]
     @ map (\<lambda>c. [CHR 0xE2, CHR 0x80, c]) [CHR 0x80, CHR 0x81, CHR 0x82, CHR 0x83, CHR 0x84, CHR 0x85, CHR 0x86,
         CHR 0x87, CHR 0x88, CHR 0x89, CHR 0x8A, CHR 0xA8, CHR 0xA9, CHR 0xAF]
     @ [[CHR 0xE2, CHR 0x81, CHR 0x9F], [CHR 0xE3, CHR 0x80, CHR 0x80]]"

fun strip_any :: "string list \<Rightarrow> nat \<Rightarrow> string \<Rightarrow> string" where
  "strip_any ps 0 s = s"
| "strip_any ps (Suc n) s =
     (case find (\<lambda>p. starts_with p s) ps of None \<Rightarrow> s | Some p \<Rightarrow> strip_any ps n (drop (length p) s))"

definition trim_unicode :: "string \<Rightarrow> string" where
  "trim_unicode s = (let t = strip_any white_space (length s) s in rev (strip_any (map rev white_space) (length t) (rev t)))"

text \<open>The first line that opens a block: where it starts, its language, and where the body starts.\<close>

definition opening_at :: "string \<Rightarrow> nat \<Rightarrow> (nat \<times> string \<times> nat) option" where
  "opening_at s i =
     (if \<not> at_line_start s i then None
      else let after = drop (i + 3) s;
               e = (case find_char newline after of Some j \<Rightarrow> j | None \<Rightarrow> length after);
               language = trim_unicode (take e after)
           in if language = [] \<and> (e = length after \<or> closing_fence (drop (e + 1) after) = None) then None
              else Some (i, language, i + 3 + e + (if e < length after then 1 else 0)))"

definition first_opening :: "string \<Rightarrow> (nat \<times> string \<times> nat) option" where
  "first_opening s = first_some (opening_at s) (match_fences 0 s)"

definition chartml :: string where "chartml = ''chartml''"

text \<open>The full spans and the body spans, \<open>offset\<close> bytes into the text.\<close>

function spans_from :: "nat \<Rightarrow> string \<Rightarrow> ((nat \<times> nat) \<times> (nat \<times> nat)) list" where
  "spans_from offset s =
     (if s = [] then []
      else case first_opening s of
        None \<Rightarrow> []
      | Some (start, language, body_start) \<Rightarrow>
          (let close = closing_fence (drop body_start s);
               body_end = (case close of Some i \<Rightarrow> body_start + i | None \<Rightarrow> length s);
               full_end = (case close of Some i \<Rightarrow> body_start + i + 3 | None \<Rightarrow> length s);
               step = (case close of
                   Some _ \<Rightarrow> (case find_char newline (drop full_end s) of Some j \<Rightarrow> full_end + j + 1 | None \<Rightarrow> length s)
                 | None \<Rightarrow> length s)
           in (if language = chartml
               then [((offset + start, offset + full_end), (offset + body_start, offset + body_end))] else [])
              @ spans_from (offset + step) (drop step s)))"
  by pat_completeness auto
termination
  by (relation "measure (\<lambda>(_, s). length s)") (auto split: option.splits)

declare spans_from.simps [simp del]

lemma spans_from_empty [simp]: "spans_from offset [] = []"
  by (subst spans_from.simps) simp

definition markdown_spans :: "string \<Rightarrow> ((nat \<times> nat) \<times> (nat \<times> nat)) list" where
  "markdown_spans content = spans_from 0 content"

definition slice :: "nat \<times> nat \<Rightarrow> string \<Rightarrow> string" where
  "slice r s = drop (fst r) (take (snd r) s)"

definition markdown_blocks :: "string \<Rightarrow> string list" where
  "markdown_blocks content = map (\<lambda>(_, body). slice body content) (markdown_spans content)"

fun strip_spans :: "string \<Rightarrow> nat set \<Rightarrow> string \<Rightarrow> nat \<Rightarrow> nat \<Rightarrow> (nat \<times> nat) list \<Rightarrow> string" where
  "strip_spans content indices replacement i e [] = drop e content"
| "strip_spans content indices replacement i e (span # spans) =
     (if i \<in> indices
      then slice (e, fst span) content @ replacement @ strip_spans content indices replacement (i + 1) (snd span) spans
      else strip_spans content indices replacement (i + 1) e spans)"

definition strip_markdown_blocks :: "string \<Rightarrow> nat set \<Rightarrow> string \<Rightarrow> string" where
  "strip_markdown_blocks content indices replacement =
     strip_spans content indices replacement 0 0 (map fst (markdown_spans content))"

subsection \<open>Line by line\<close>

definition fence_line :: "string \<Rightarrow> bool" where "fence_line l \<longleftrightarrow> starts_with fence l"

definition close_line :: "string \<Rightarrow> bool" where
  "close_line l \<longleftrightarrow> fence_line l \<and> ends_fence (drop 3 l)"

definition language_of :: "string \<Rightarrow> string" where
  "language_of l = trim_unicode (drop 3 l)"

definition opens_block :: "string \<Rightarrow> string list \<Rightarrow> bool" where
  "opens_block l ls \<longleftrightarrow> fence_line l \<and> (language_of l \<noteq> [] \<or> list_ex close_line ls)"

definition body_lines :: "string list \<Rightarrow> string list" where
  "body_lines ls = takeWhile (\<lambda>l. \<not> close_line l) ls"

definition after_close :: "string list \<Rightarrow> string list" where
  "after_close ls = tl (dropWhile (\<lambda>l. \<not> close_line l) ls)"

lemma length_after_close [simp]: "length (after_close ls) \<le> length ls"
  by (metis after_close_def diff_le_self dual_order.trans length_dropWhile_le length_tl)

text \<open>The bodies of the chart blocks.\<close>

function line_blocks :: "string list \<Rightarrow> string list" where
  "line_blocks [] = []"
| "line_blocks (l # ls) =
     (if opens_block l ls
      then (if language_of l = chartml
            then [if list_ex close_line ls then concat (map (\<lambda>l. l @ [newline]) (body_lines ls)) else join [newline] ls]
            else [])
           @ line_blocks (after_close ls)
      else line_blocks ls)"
  by pat_completeness auto
termination
  by (relation "measure length") (auto simp: le_imp_less_Suc)

text \<open>The lines without the blocks of the indices; the rest of a closing line stays, which no renderer reads.\<close>

function strip_lines :: "nat set \<Rightarrow> string \<Rightarrow> nat \<Rightarrow> string list \<Rightarrow> string list" where
  "strip_lines indices mark i [] = []"
| "strip_lines indices mark i (l # ls) =
     (if opens_block l ls
      then if language_of l = chartml
        then if i \<in> indices
          then (if list_ex close_line ls
                then (mark @ drop 3 (hd (dropWhile (\<lambda>l. \<not> close_line l) ls))) # strip_lines indices mark (i + 1) (after_close ls)
                else [mark])
          else l # take (length ls - length (after_close ls)) ls @ strip_lines indices mark (i + 1) (after_close ls)
        else l # take (length ls - length (after_close ls)) ls @ strip_lines indices mark i (after_close ls)
      else l # strip_lines indices mark i ls)"
  by pat_completeness auto
termination
  by (relation "measure (\<lambda>(_, _, _, ls). length ls)") (auto simp: le_imp_less_Suc)

subsection \<open>Lines and offsets\<close>

definition plain_lines :: "string list \<Rightarrow> bool" where
  "plain_lines ls \<longleftrightarrow> (\<forall>l \<in> set ls. newline \<notin> set l)"

definition unlines :: "string list \<Rightarrow> string" where "unlines ls = concat (map (\<lambda>l. l @ [newline]) ls)"

lemma plain_lines_simps [simp]:
  "plain_lines []" "plain_lines (l # ls) \<longleftrightarrow> newline \<notin> set l \<and> plain_lines ls"
  "plain_lines (ls @ ms) \<longleftrightarrow> plain_lines ls \<and> plain_lines ms"
  by (auto simp: plain_lines_def)

lemma unlines_simps [simp]: "unlines [] = []" "unlines (l # ls) = l @ newline # unlines ls"
  by (simp_all add: unlines_def)

lemma unlines_append [simp]: "unlines (ls @ ms) = unlines ls @ unlines ms"
  by (simp add: unlines_def)

lemma join_unlines: "join [newline] (pre @ x # rest) = unlines pre @ join [newline] (x # rest)"
proof (induction pre)
  case (Cons l pre)
  then show ?case by (cases pre) simp_all
qed simp

lemma join_line: "join [newline] (x # rest) = x @ (if rest = [] then [] else newline # join [newline] rest)"
  by (cases rest) simp_all

lemma match_line:
  "newline \<notin> set l \<Longrightarrow> match_fences i (l @ newline # t) = match_fences i l @ match_fences (i + length l + 1) t"
proof (induction i l rule: match_fences.induct, goal_cases)
  case (1 i a b c s)
  then show ?case by (auto simp: eval_nat_numeral)
next
  case (2 i)
  then show ?case by (cases t; cases "tl t") (auto simp: fence_def newline_def numeral_3_eq_3)
next
  case (3 i a)
  then show ?case by (cases t; cases "tl t") (auto simp: fence_def newline_def numeral_3_eq_3)
next
  case (4 i a b)
  then show ?case by (cases t; cases "tl t") (auto simp: fence_def newline_def numeral_3_eq_3)
qed

lemma match_range: "j \<in> set (match_fences i l) \<Longrightarrow> i \<le> j \<and> j + 3 \<le> i + length l"
  by (induction i l rule: match_fences.induct) (fastforce split: if_splits)+

lemma match_head: "filter (\<lambda>j. j = i) (match_fences i l) = (if starts_with fence l then [i] else [])"
proof (cases "(i, l)" rule: match_fences.cases)
  case (1 i' a b c s)
  have "filter (\<lambda>j. j = i) (match_fences (i + 3) s) = []" "filter (\<lambda>j. j = i) (match_fences (i + 1) (b # c # s)) = []"
    using match_range [of i "i + 3" s] match_range [of i "i + 1" "b # c # s"] by (auto simp: filter_empty_conv)
  with 1 show ?thesis by (auto simp: starts_with_def fence_def numeral_3_eq_3)
qed (auto simp: starts_with_def fence_def numeral_3_eq_3)

lemma line_start_filter:
  assumes "p = [] \<or> last p = newline" "newline \<notin> set l"
  shows "filter (at_line_start (p @ l @ u)) (match_fences (length p) l) = (if fence_line l then [length p] else [])"
proof -
  have "at_line_start (p @ l @ u) j \<longleftrightarrow> j = length p" if "j \<in> set (match_fences (length p) l)" for j
  proof -
    have range: "length p \<le> j" "j + 3 \<le> length p + length l" using match_range [OF that] by auto
    show ?thesis
    proof (cases "j = length p")
      case True
      with assms(1) show ?thesis by (cases "p = []") (simp_all add: at_line_start_def nth_append last_conv_nth)
    next
      case False
      with range have "(p @ l @ u) ! (j - 1) = l ! (j - 1 - length p)" "j - 1 - length p < length l"
        by (auto simp: nth_append)
      then have "(p @ l @ u) ! (j - 1) \<noteq> newline" using assms(2) nth_mem by metis
      with range False show ?thesis by (auto simp: at_line_start_def)
    qed
  qed
  then have "filter (at_line_start (p @ l @ u)) (match_fences (length p) l) = filter (\<lambda>j. j = length p) (match_fences (length p) l)"
    by (intro filter_cong) auto
  then show ?thesis by (simp add: match_head fence_line_def)
qed

fun fence_offsets :: "nat \<Rightarrow> string list \<Rightarrow> nat list" where
  "fence_offsets k [] = []"
| "fence_offsets k (l # ls) = (if fence_line l then [k] else []) @ fence_offsets (k + length l + 1) ls"

lemma line_fences:
  "ls \<noteq> [] \<Longrightarrow> plain_lines ls \<Longrightarrow> p = [] \<or> last p = newline \<Longrightarrow>
    filter (at_line_start (p @ join [newline] ls)) (match_fences (length p) (join [newline] ls)) = fence_offsets (length p) ls"
proof (induction ls arbitrary: p)
  case (Cons l ls)
  show ?case
  proof (cases "ls = []")
    case True
    then show ?thesis using line_start_filter [of p l "[]"] Cons.prems by simp
  next
    case False
    have "filter (at_line_start (p @ join [newline] (l # ls))) (match_fences (length p) l) = (if fence_line l then [length p] else [])"
      using line_start_filter [of p l "newline # join [newline] ls"] Cons.prems False by (simp add: join_line)
    moreover have "filter (at_line_start ((p @ l @ [newline]) @ join [newline] ls))
        (match_fences (length (p @ l @ [newline])) (join [newline] ls)) = fence_offsets (length (p @ l @ [newline])) ls"
      using Cons.IH [OF False, of "p @ l @ [newline]"] Cons.prems by simp
    ultimately show ?thesis using Cons.prems False by (simp add: join_line match_line)
  qed
qed simp

lemma find_filter: "find (\<lambda>x. P x \<and> Q x) xs = find Q (filter P xs)"
  by (induction xs) auto

lemma first_some_filter: "(\<And>x. \<not> P x \<Longrightarrow> f x = None) \<Longrightarrow> first_some f xs = first_some f (filter P xs)"
  by (induction xs) (auto split: option.splits)

lemma ends_fence_line:
  assumes "newline \<notin> set l" "fence_line l"
  shows "ends_fence (drop (length p + 3) (p @ join [newline] (l # ls))) \<longleftrightarrow> close_line l"
proof -
  have "3 \<le> length l" using assms(2) by (auto simp: fence_line_def starts_with_def fence_def take_eq_Nil dest: arg_cong [where f = length])
  then show ?thesis
    using assms by (cases "drop 3 l") (auto simp: close_line_def ends_fence_def join_line)
qed

lemma find_closing:
  "plain_lines ls \<Longrightarrow> find (\<lambda>i. ends_fence (drop (i + 3) (p @ join [newline] ls))) (fence_offsets (length p) ls)
    = (if list_ex close_line ls then Some (length p + length (unlines (body_lines ls))) else None)"
proof (induction ls arbitrary: p)
  case (Cons l ls)
  have rest: "find (\<lambda>i. ends_fence (drop (i + 3) (p @ join [newline] (l # ls)))) (fence_offsets (length p + length l + 1) ls)
      = (if list_ex close_line ls then Some (length p + length l + 1 + length (unlines (body_lines ls))) else None)"
  proof (cases "ls = []")
    case False
    then show ?thesis using Cons.IH [of "p @ l @ [newline]"] Cons.prems by (simp add: join_line)
  qed simp
  show ?case
  proof (cases "fence_line l")
    case True
    then show ?thesis using rest ends_fence_line [of l p ls] Cons.prems by (simp add: body_lines_def)
  next
    case False
    then have "\<not> close_line l" by (simp add: close_line_def)
    with False rest show ?thesis by (simp add: body_lines_def)
  qed
qed simp

lemma closing_lines:
  assumes "plain_lines ls"
  shows "closing_fence (join [newline] ls) = (if list_ex close_line ls then Some (length (unlines (body_lines ls))) else None)"
proof (cases "ls = []")
  case False
  then show ?thesis
    using line_fences [of ls "[]"] find_closing [of ls "[]"] assms by (simp add: closing_fence_def find_filter)
qed (simp add: closing_fence_def)

text \<open>The first line that opens a block, with the lines around it.\<close>

fun line_opening :: "string list \<Rightarrow> (string list \<times> string \<times> string list) option" where
  "line_opening [] = None"
| "line_opening (l # ls) =
     (if opens_block l ls then Some ([], l, ls) else map_option (\<lambda>(pre, x, rest). (l # pre, x, rest)) (line_opening ls))"

lemma line_opening_Some: "line_opening ls = Some (pre, x, rest) \<Longrightarrow> ls = pre @ x # rest \<and> opens_block x rest"
  by (induction ls arbitrary: pre) (auto split: if_splits)

lemma find_char_line: "c \<notin> set l \<Longrightarrow> find_char c (l @ c # t) = Some (length l)" "c \<notin> set l \<Longrightarrow> find_char c l = None"
proof -
  show "c \<notin> set l \<Longrightarrow> find_char c (l @ c # t) = Some (length l)" by (induction l) (auto simp: find_char_def)
qed (simp add: find_char_def)

lemma opening_at_line:
  assumes "plain_lines (l # ls)" "p = [] \<or> last p = newline" "fence_line l"
  shows "opening_at (p @ join [newline] (l # ls)) (length p)
    = (if opens_block l ls then Some (length p, language_of l, length p + length l + (if ls = [] then 0 else 1)) else None)"
proof -
  have long: "3 \<le> length l" using assms(3) by (auto simp: fence_line_def starts_with_def fence_def dest: arg_cong [where f = length])
  then have after: "drop (length p + 3) (p @ join [newline] (l # ls)) = drop 3 l @ (if ls = [] then [] else newline # join [newline] ls)"
    by (simp add: join_line)
  have "newline \<notin> set (drop 3 l)" using assms(1) in_set_dropD by fastforce
  then have e: "find_char newline (drop 3 l @ (if ls = [] then [] else newline # join [newline] ls)) = (if ls = [] then None else Some (length l - 3))"
    using find_char_line [of newline "drop 3 l"] by simp
  have start: "at_line_start (p @ join [newline] (l # ls)) (length p)"
    using assms(2) by (cases "p = []") (simp_all add: at_line_start_def nth_append last_conv_nth)
  show ?thesis
    unfolding opening_at_def Let_def after e
    using start long assms closing_lines [of ls] by (auto simp: opens_block_def language_of_def)
qed

lemma first_opening_lines:
  "plain_lines ls \<Longrightarrow> p = [] \<or> last p = newline \<Longrightarrow>
    first_some (opening_at (p @ join [newline] ls)) (fence_offsets (length p) ls)
    = (case line_opening ls of None \<Rightarrow> None
       | Some (pre, x, rest) \<Rightarrow> Some (length p + length (unlines pre), language_of x,
           length p + length (unlines pre) + length x + (if rest = [] then 0 else 1)))"
proof (induction ls arbitrary: p)
  case (Cons l ls)
  have rest: "first_some (opening_at (p @ join [newline] (l # ls))) (fence_offsets (length p + length l + 1) ls)
      = (case line_opening ls of None \<Rightarrow> None
         | Some (pre, x, rest) \<Rightarrow> Some (length p + length l + 1 + length (unlines pre), language_of x,
             length p + length l + 1 + length (unlines pre) + length x + (if rest = [] then 0 else 1)))"
  proof (cases "ls = []")
    case False
    then show ?thesis using Cons.IH [of "p @ l @ [newline]"] Cons.prems by (auto simp: join_line split: option.splits)
  qed simp
  show ?case
  proof (cases "fence_line l")
    case True
    then show ?thesis using opening_at_line [of l ls p] rest Cons.prems by (auto split: option.splits)
  next
    case False
    then show ?thesis using rest by (auto simp: opens_block_def split: option.splits)
  qed
qed simp

lemma opening_lines:
  assumes "plain_lines ls" "ls \<noteq> []"
  shows "first_opening (join [newline] ls) = (case line_opening ls of None \<Rightarrow> None
    | Some (pre, x, rest) \<Rightarrow> Some (length (unlines pre), language_of x,
        length (unlines pre) + length x + (if rest = [] then 0 else 1)))"
proof -
  have "first_opening (join [newline] ls) = first_some (opening_at (join [newline] ls))
      (filter (at_line_start (join [newline] ls)) (match_fences 0 (join [newline] ls)))"
    unfolding first_opening_def by (rule first_some_filter) (simp add: opening_at_def)
  then show ?thesis using line_fences [of ls "[]"] first_opening_lines [of ls "[]"] assms by (auto split: option.splits)
qed

subsection \<open>The scanner reads lines\<close>

lemma skipped_lines:
  "line_opening ls = None \<Longrightarrow> line_blocks ls = []"
  "line_opening ls = Some (pre, x, rest) \<Longrightarrow> line_blocks ls = line_blocks (x # rest)"
  by (induction ls arbitrary: pre) (auto split: if_splits)

lemma skipped_strip:
  "line_opening ls = None \<Longrightarrow> strip_lines indices mark i ls = ls"
  "line_opening ls = Some (pre, x, rest) \<Longrightarrow> strip_lines indices mark i ls = pre @ strip_lines indices mark i (x # rest)"
  by (induction ls arbitrary: pre) (auto split: if_splits)

lemma closed_lines:
  assumes "list_ex close_line ls"
  obtains cl where "ls = body_lines ls @ cl # after_close ls" "close_line cl" "cl = hd (dropWhile (\<lambda>l. \<not> close_line l) ls)"
proof -
  let ?d = "dropWhile (\<lambda>l. \<not> close_line l) ls"
  have "?d \<noteq> []" using assms by (auto simp: list_ex_iff)
  moreover from this have "close_line (hd ?d)" using hd_dropWhile by blast
  moreover have "ls = body_lines ls @ ?d" by (simp add: body_lines_def)
  ultimately show thesis using that [of "hd ?d"] by (simp add: after_close_def)
qed

lemma unclosed_lines:
  assumes "\<not> list_ex close_line ls"
  shows "after_close ls = []"
proof -
  have "dropWhile (\<lambda>l. \<not> close_line l) ls = []" using assms by (simp add: list_ex_iff dropWhile_eq_Nil_conv)
  then show ?thesis unfolding after_close_def by (rule ssubst) simp
qed

text \<open>What one turn of the loop sees.\<close>

lemma spans_None:
  assumes "plain_lines ls" "ls \<noteq> []" "line_opening ls = None"
  shows "spans_from offset (join [newline] ls) = []"
  using opening_lines [OF assms(1,2)] assms(3) by (subst spans_from.simps) simp

lemma spans_unclosed:
  assumes "plain_lines ls" "ls \<noteq> []" "line_opening ls = Some (pre, x, rest)" "\<not> list_ex close_line rest"
  defines "s \<equiv> join [newline] ls"
  shows "spans_from offset s = (if language_of x = chartml
    then [((offset + length (unlines pre), offset + length s),
           (offset + length (unlines pre) + length x + (if rest = [] then 0 else 1), offset + length s))] else [])"
proof -
  have ls: "ls = pre @ x # rest" "opens_block x rest" using line_opening_Some [OF assms(3)] by simp_all
  have s: "s = unlines pre @ x @ (if rest = [] then [] else newline # join [newline] rest)"
    unfolding s_def ls join_unlines by (simp add: join_line)
  have "x \<noteq> []" using ls(2) by (auto simp: opens_block_def fence_line_def starts_with_def fence_def)
  then have "s \<noteq> []" using s by simp
  have body: "drop (length (unlines pre) + length x + (if rest = [] then 0 else 1)) s = join [newline] rest"
    by (simp add: s)
  have "plain_lines rest" using assms(1) ls by simp
  from closing_lines [OF this] assms(4) body
  have "closing_fence (drop (length (unlines pre) + length x + (if rest = [] then 0 else 1)) s) = None" by simp
  with \<open>s \<noteq> []\<close> opening_lines [OF assms(1,2)] assms(3) show ?thesis
    by (subst spans_from.simps) (simp add: s_def [symmetric] Let_def add.assoc)
qed

lemma spans_closed:
  assumes "plain_lines ls" "ls \<noteq> []" "line_opening ls = Some (pre, x, b @ cl # a)"
    and "b = body_lines (b @ cl # a)" "close_line cl"
  defines "s \<equiv> join [newline] ls" and "bs \<equiv> length (unlines pre) + length x + 1"
  shows "spans_from offset s = (if language_of x = chartml
      then [((offset + length (unlines pre), offset + bs + length (unlines b) + 3), (offset + bs, offset + bs + length (unlines b)))]
      else []) @ (if a = [] then [] else spans_from (offset + bs + length (unlines b) + length cl + 1) (join [newline] a))"
    and "s = unlines pre @ x @ newline # unlines b @ cl @ (if a = [] then [] else newline # join [newline] a)"
proof -
  have ls: "ls = pre @ x # b @ cl # a" "opens_block x (b @ cl # a)" using line_opening_Some [OF assms(3)] by simp_all
  show s: "s = unlines pre @ x @ newline # unlines b @ cl @ (if a = [] then [] else newline # join [newline] a)"
    unfolding s_def ls join_unlines by (simp add: join_line join_unlines)
  then have "s \<noteq> []" by simp
  have body: "drop bs s = join [newline] (b @ cl # a)"
    by (simp add: s bs_def join_unlines join_line)
  have plain: "plain_lines (b @ cl # a)" using assms(1) ls by simp
  have close: "closing_fence (drop bs s) = Some (length (unlines b))"
    unfolding body closing_lines [OF plain] using assms(4,5) by simp
  have long: "3 \<le> length cl"
    using assms(5) by (auto simp: close_line_def fence_line_def starts_with_def fence_def dest: arg_cong [where f = length])
  have tail: "drop (bs + length (unlines b) + 3) s = drop 3 cl @ (if a = [] then [] else newline # join [newline] a)"
  proof -
    have "drop (length q + 3) (q @ t) = drop 3 t" for q t :: string by simp
    from this [of "unlines pre @ x @ newline # unlines b" "cl @ (if a = [] then [] else newline # join [newline] a)"] long
    show ?thesis by (simp add: s bs_def ac_simps)
  qed
  have "newline \<notin> set (drop 3 cl)" using plain in_set_dropD by fastforce
  then have line: "find_char newline (drop (bs + length (unlines b) + 3) s) = (if a = [] then None else Some (length cl - 3))"
    unfolding tail using find_char_line [of newline "drop 3 cl"] by simp
  have rest: "a \<noteq> [] \<Longrightarrow> drop (bs + length (unlines b) + length cl + 1) s = join [newline] a"
    by (simp add: s bs_def)
  have step: "a \<noteq> [] \<Longrightarrow> bs + length (unlines b) + 3 + (length cl - 3) + 1 = bs + length (unlines b) + length cl + 1"
    using long by simp
  have head: "first_opening s = Some (length (unlines pre), language_of x, bs)"
    using opening_lines [OF assms(1,2)] assms(3) by (simp add: s_def bs_def)
  show "spans_from offset s = (if language_of x = chartml
      then [((offset + length (unlines pre), offset + bs + length (unlines b) + 3), (offset + bs, offset + bs + length (unlines b)))]
      else []) @ (if a = [] then [] else spans_from (offset + bs + length (unlines b) + length cl + 1) (join [newline] a))"
  proof (cases "a = []")
    case True
    then show ?thesis
      using \<open>s \<noteq> []\<close> head close line by (subst spans_from.simps) (simp add: Let_def add.assoc)
  next
    case False
    then show ?thesis
      using \<open>s \<noteq> []\<close> head close line rest step by (subst spans_from.simps) (simp add: Let_def add.assoc)
  qed
qed

lemma line_blocks_open: "opens_block x rest \<Longrightarrow> line_blocks (x # rest) =
    (if language_of x = chartml then [if list_ex close_line rest then unlines (body_lines rest) else join [newline] rest] else [])
    @ line_blocks (after_close rest)"
  by (simp add: unlines_def)

lemma slice_append: "slice (length q + i, length q + j) (q @ s) = slice (i, j) s"
  by (simp add: slice_def)

lemma slice_part: "slice (length q, length q + length m) (q @ m @ t) = m"
  by (simp add: slice_def)

lemma blocks_of_lines:
  "plain_lines ls \<Longrightarrow> ls \<noteq> [] \<Longrightarrow>
    map (\<lambda>(_, body). slice body (q @ join [newline] ls)) (spans_from (length q) (join [newline] ls)) = line_blocks ls"
proof (induction ls arbitrary: q rule: measure_induct_rule [where f = length])
  case (less ls)
  let ?s = "join [newline] ls"
  show ?case
  proof (cases "line_opening ls")
    case None
    then show ?thesis using spans_None [OF less.prems] skipped_lines(1) by simp
  next
    case (Some t)
    obtain pre x rest where t: "t = (pre, x, rest)" by (cases t)
    with Some have opened: "line_opening ls = Some (pre, x, rest)" by simp
    then have ls: "ls = pre @ x # rest" "opens_block x rest" using line_opening_Some by auto
    note blocks = skipped_lines(2) [OF opened, unfolded line_blocks_open [OF ls(2)]]
    show ?thesis
    proof (cases "list_ex close_line rest")
      case False
      have s: "?s = unlines pre @ x @ (if rest = [] then [] else newline # join [newline] rest)"
        unfolding ls join_unlines by (simp add: join_line)
      have "slice (length q + length (unlines pre) + length x + (if rest = [] then 0 else 1), length q + length ?s) (q @ ?s)
          = join [newline] rest"
        by (simp add: slice_def s)
      then show ?thesis using spans_unclosed [OF less.prems opened False] blocks False unclosed_lines [OF False] by simp
    next
      case True
      then obtain cl where cl: "rest = body_lines rest @ cl # after_close rest" "close_line cl" by (rule closed_lines)
      define b a where "b = body_lines rest" and "a = after_close rest"
      have rest: "rest = b @ cl # a" "b = body_lines (b @ cl # a)" using cl(1) b_def a_def by simp_all
      note spans = spans_closed [OF less.prems opened [unfolded rest(1)] rest(2) cl(2)]
      have body: "slice (length q + (length (unlines pre) + length x + 1), length q + (length (unlines pre) + length x + 1) + length (unlines b)) (q @ ?s)
          = unlines b"
        using slice_part [of "q @ unlines pre @ x @ [newline]" "unlines b"] by (simp add: spans(2) ac_simps)
      have IH: "map (\<lambda>(_, body). slice body (q @ ?s)) (if a = [] then [] else
            spans_from (length q + (length (unlines pre) + length x + 1) + length (unlines b) + length cl + 1) (join [newline] a)) = line_blocks a"
      proof (cases "a = []")
        case False
        have "length a < length ls" using ls(1) rest(1) by simp
        moreover have "plain_lines a" using less.prems(1) ls(1) rest(1) by simp
        ultimately show ?thesis
          using less.IH [of a "q @ unlines pre @ x @ newline # unlines b @ cl @ [newline]"] False by (simp add: spans(2) ac_simps)
      qed simp
      show ?thesis
        using spans(1) [of "length q"] body IH blocks True
        by (simp add: b_def [symmetric] a_def [symmetric] ac_simps)
    qed
  qed
qed

text \<open>The code's scanner and the line scanner agree.\<close>

lemma markdown_blocks_lines: "markdown_blocks content = line_blocks (split_on newline content)"
proof -
  have "plain_lines (split_on newline content)" using split_on_parts [of _ newline content] by (auto simp: plain_lines_def)
  with blocks_of_lines [of "split_on newline content" "[]"] show ?thesis
    by (simp add: markdown_blocks_def markdown_spans_def join_split_on)
qed

subsection \<open>Stripping\<close>

lemma strip_lines_not_empty: "ls \<noteq> [] \<Longrightarrow> strip_lines indices mark i ls \<noteq> []"
  by (cases ls) auto

text \<open>Whether the block at an opening line is stripped, and the index of the next one.\<close>

definition stripped :: "nat set \<Rightarrow> nat \<Rightarrow> string \<Rightarrow> bool" where
  "stripped indices i x \<longleftrightarrow> language_of x = chartml \<and> i \<in> indices"

definition next_index :: "nat \<Rightarrow> string \<Rightarrow> nat" where
  "next_index i x = (if language_of x = chartml then i + 1 else i)"

lemma strip_closed:
  assumes "opens_block x (b @ cl # a)" "b = body_lines (b @ cl # a)" "close_line cl"
  shows "strip_lines indices mark i (x # b @ cl # a) =
    (if stripped indices i x then [mark @ drop 3 cl] else x # b @ [cl]) @ strip_lines indices mark (next_index i x) a"
proof -
  have "\<not> close_line l" if "l \<in> set b" for l
    using that assms(2) set_takeWhileD [of l "\<lambda>l. \<not> close_line l" "b @ cl # a"] by (simp add: body_lines_def)
  then have "dropWhile (\<lambda>l. \<not> close_line l) (b @ cl # a) = cl # a" using assms(3) by (simp add: dropWhile_append2)
  then show ?thesis using assms(1,3) by (simp add: after_close_def stripped_def next_index_def)
qed

lemma strip_unclosed:
  assumes "opens_block x rest" "\<not> list_ex close_line rest"
  shows "strip_lines indices mark i (x # rest) = (if stripped indices i x then [mark] else x # rest)"
  using assms unclosed_lines [OF assms(2)] by (simp add: stripped_def)

lemma join_prefix: "rest \<noteq> [] \<Longrightarrow> join [newline] (pre @ rest) = unlines pre @ join [newline] rest"
  by (cases rest) (simp_all add: join_unlines)

lemma strip_of_lines:
  "plain_lines ls \<Longrightarrow> ls \<noteq> [] \<Longrightarrow> e \<le> length q \<Longrightarrow>
    strip_spans (q @ join [newline] ls) indices mark i e (map fst (spans_from (length q) (join [newline] ls)))
    = drop e q @ join [newline] (strip_lines indices mark i ls)"
proof (induction ls arbitrary: q e i rule: measure_induct_rule [where f = length])
  case (less ls)
  let ?s = "join [newline] ls"
  show ?case
  proof (cases "line_opening ls")
    case None
    then show ?thesis using spans_None [OF less.prems(1,2)] skipped_strip(1) less.prems(3) by simp
  next
    case (Some t)
    obtain pre x rest where t: "t = (pre, x, rest)" by (cases t)
    with Some have opened: "line_opening ls = Some (pre, x, rest)" by simp
    then have ls: "ls = pre @ x # rest" "opens_block x rest" using line_opening_Some by auto
    note strip = skipped_strip(2) [OF opened, of indices mark i]
    have lead: "slice (e, length q + length (unlines pre)) (q @ ?s) = drop e q @ unlines pre"
      using less.prems(3) by (simp add: slice_def ls join_unlines)
    show ?thesis
    proof (cases "list_ex close_line rest")
      case False
      then show ?thesis
        using spans_unclosed [OF less.prems(1,2) opened False, of "length q"] strip strip_unclosed [OF ls(2) False, of indices mark i] lead less.prems(3)
        by (simp add: stripped_def join_prefix ls)
    next
      case True
      then obtain cl where cl: "rest = body_lines rest @ cl # after_close rest" "close_line cl" by (rule closed_lines)
      define b a where "b = body_lines rest" and "a = after_close rest"
      have rest: "rest = b @ cl # a" "b = body_lines (b @ cl # a)" using cl(1) b_def a_def by simp_all
      have long: "3 \<le> length cl"
        using cl(2) by (auto simp: close_line_def fence_line_def starts_with_def fence_def dest: arg_cong [where f = length])
      note spans = spans_closed [OF less.prems(1,2) opened [unfolded rest(1)] rest(2) cl(2)]
      note strip' = strip [unfolded rest(1) strip_closed [OF ls(2) [unfolded rest(1)] rest(2) cl(2)]]
      let ?q = "q @ unlines pre @ x @ newline # unlines b @ cl @ [newline]"
      have IH: "strip_spans (q @ ?s) indices mark j e' (map fst (if a = [] then [] else
            spans_from (length q + (length (unlines pre) + length x + 1) + length (unlines b) + length cl + 1) (join [newline] a)))
          = drop e' (q @ unlines pre @ x @ newline # unlines b @ cl) @ (if a = [] then [] else newline # join [newline] (strip_lines indices mark j a))"
        if "e' \<le> length q + (length (unlines pre) + length x + 1) + length (unlines b) + length cl" for j e'
      proof (cases "a = []")
        case False
        have "length a < length ls" using ls(1) rest(1) by simp
        moreover have "plain_lines a" using less.prems(1) ls(1) rest(1) by simp
        moreover have "drop k (newline # unlines b @ cl @ [newline]) = drop k (newline # unlines b @ cl) @ [newline]"
          if "k \<le> Suc (length (unlines b) + length cl)" for k
          using drop_append [of k "newline # unlines b @ cl" "[newline]"] that by simp
        moreover have "e' - (length q + (length x + length (unlines pre))) \<le> Suc (length (unlines b) + length cl)"
          using that by simp
        ultimately show ?thesis
          using less.IH [of a e' ?q j] that False by (simp add: spans(2) ac_simps)
      qed (simp add: spans(2))
      have after: "drop (length q + (length (unlines pre) + length x + 1) + length (unlines b) + 3) (q @ unlines pre @ x @ newline # unlines b @ cl)
          = drop 3 cl"
      proof -
        have "drop (length w + 3) (w @ t) = drop 3 t" for w t :: string by simp
        from this [of "q @ unlines pre @ x @ newline # unlines b" cl] show ?thesis by (simp add: ac_simps)
      qed
      have kept: "drop e (q @ unlines pre @ x @ newline # unlines b @ cl) = drop e q @ unlines pre @ x @ newline # unlines b @ cl"
        using less.prems(3) by simp
      show ?thesis
      proof (cases "stripped indices i x")
        case True
        then show ?thesis
          using spans(1) [of "length q"] IH [of "length q + (length (unlines pre) + length x + 1) + length (unlines b) + 3" "i + 1"]
            lead after strip' long strip_lines_not_empty [of a indices mark "i + 1"]
          by (simp add: stripped_def next_index_def join_prefix join_line ac_simps)
      next
        case False
        then show ?thesis
          using spans(1) [of "length q"] IH [of e "next_index i x"] kept strip' less.prems(3)
            strip_lines_not_empty [of a indices mark "next_index i x"]
          by (simp add: stripped_def next_index_def join_prefix join_line ac_simps split: if_splits)
      qed
    qed
  qed
qed

lemma strip_markdown_lines:
  "strip_markdown_blocks content indices mark = join [newline] (strip_lines indices mark 0 (split_on newline content))"
proof -
  have "plain_lines (split_on newline content)" using split_on_parts [of _ newline content] by (auto simp: plain_lines_def)
  with strip_of_lines [of "split_on newline content" 0 "[]" indices mark 0] show ?thesis
    by (simp add: strip_markdown_blocks_def markdown_spans_def join_split_on)
qed

lemma not_opening:
  "\<not> opens_block l ls \<Longrightarrow> strip_lines indices mark i (l # ls) = l # strip_lines indices mark i ls"
  "\<not> opens_block l ls \<Longrightarrow> line_blocks (l # ls) = line_blocks ls"
  by simp_all

declare strip_lines.simps(2) [simp del] line_blocks.simps(2) [simp del]

text \<open>A note that neither breaks the line nor begins like a fence.\<close>

definition inert :: "string \<Rightarrow> bool" where
  "inert mark \<longleftrightarrow> newline \<notin> set mark \<and> mark \<noteq> [] \<and> hd mark \<noteq> CHR 0x60"

lemma inert_line: "inert mark \<Longrightarrow> \<not> fence_line (mark @ t)"
  by (cases mark) (auto simp: inert_def fence_line_def starts_with_def fence_def numeral_3_eq_3)

lemma strip_lines_induct [case_names Nil Skip Closed Unclosed]:
  assumes "\<And>i. P i []"
    and "\<And>l ls i. \<not> opens_block l ls \<Longrightarrow> P i ls \<Longrightarrow> P i (l # ls)"
    and "\<And>x b cl a i. opens_block x (b @ cl # a) \<Longrightarrow> b = body_lines (b @ cl # a) \<Longrightarrow> close_line cl \<Longrightarrow>
      P (next_index i x) a \<Longrightarrow> P i (x # b @ cl # a)"
    and "\<And>x rest i. opens_block x rest \<Longrightarrow> \<not> list_ex close_line rest \<Longrightarrow> P i (x # rest)"
  shows "P i ls"
proof (induction ls arbitrary: i rule: measure_induct_rule [where f = length])
  case (less ls)
  show ?case
  proof (cases ls)
    case (Cons l ls')
    show ?thesis
    proof (cases "opens_block l ls'")
      case False
      with Cons less assms(2) show ?thesis by simp
    next
      case True
      show ?thesis
      proof (cases "list_ex close_line ls'")
        case False
        with True Cons assms(4) show ?thesis by simp
      next
        case closed: True
        then obtain cl where cl: "ls' = body_lines ls' @ cl # after_close ls'" "close_line cl" by (rule closed_lines)
        define b a where "b = body_lines ls'" and "a = after_close ls'"
        have ls': "ls' = b @ cl # a" "b = body_lines (b @ cl # a)" using cl(1) b_def a_def by simp_all
        have "length a < length ls" using Cons ls'(1) by simp
        then have "P (next_index i l) a" by (rule less)
        from assms(3) [OF True [unfolded ls'(1)] ls'(2) cl(2) this] show ?thesis by (simp add: Cons ls'(1))
      qed
    qed
  qed (simp add: assms(1))
qed

lemma blocks_closed:
  assumes "opens_block x (b @ cl # a)" "b = body_lines (b @ cl # a)" "close_line cl"
  shows "opens_block x (b @ cl # a')" "line_blocks (x # b @ cl # a') = (if language_of x = chartml then [unlines b] else []) @ line_blocks a'"
proof -
  show opens: "opens_block x (b @ cl # a')" using assms by (simp add: opens_block_def)
  have "\<not> close_line l" if "l \<in> set b" for l
    using that assms(2) set_takeWhileD [of l "\<lambda>l. \<not> close_line l" "b @ cl # a"] by (simp add: body_lines_def)
  then have "body_lines (b @ cl # a') = b" "after_close (b @ cl # a') = a'"
    using assms(3) by (simp_all add: body_lines_def after_close_def takeWhile_append2 dropWhile_append2)
  with line_blocks_open [OF opens] assms(3)
  show "line_blocks (x # b @ cl # a') = (if language_of x = chartml then [unlines b] else []) @ line_blocks a'" by simp
qed

lemma strip_keeps_unclosed:
  assumes "inert mark" "\<not> list_ex close_line ls"
  shows "\<not> list_ex close_line (strip_lines indices mark i ls)"
  using assms(2)
proof (induction i ls rule: strip_lines_induct)
  case (Unclosed x rest i)
  then show ?case using inert_line [OF assms(1), of "[]"] by (auto simp: strip_unclosed close_line_def)
next
  case (Closed x b cl a i)
  then show ?case by simp
qed (simp_all add: not_opening)

lemma strip_lines_plain:
  assumes "inert mark" "plain_lines ls"
  shows "plain_lines (strip_lines indices mark i ls)"
  using assms(2)
proof (induction i ls rule: strip_lines_induct)
  case (Closed x b cl a i)
  then show ?case using assms(1) in_set_dropD [of newline 3 cl] by (auto simp: strip_closed [OF Closed(1-3)] inert_def)
next
  case (Unclosed x rest i)
  then show ?case using assms(1) by (simp add: strip_unclosed inert_def)
qed (simp_all add: not_opening)

fun survivors :: "nat set \<Rightarrow> nat \<Rightarrow> 'a list \<Rightarrow> 'a list" where
  "survivors indices i [] = []"
| "survivors indices i (x # xs) = (if i \<in> indices then [] else [x]) @ survivors indices (i + 1) xs"

lemma strip_leaves_survivors:
  assumes "inert mark"
  shows "line_blocks (strip_lines indices mark i ls) = survivors indices i (line_blocks ls)"
proof (induction i ls rule: strip_lines_induct)
  case (Skip l ls i)
  then have "\<not> opens_block l (strip_lines indices mark i ls)"
    using strip_keeps_unclosed [OF assms] by (auto simp: opens_block_def)
  with Skip show ?case by (simp add: not_opening)
next
  case (Closed x b cl a i)
  have "\<not> opens_block (mark @ t) r" for t r using inert_line [OF assms] by (simp add: opens_block_def)
  then show ?case
    using Closed(4) blocks_closed(2) [OF Closed(1-3)] strip_closed [OF Closed(1-3), of indices mark i]
    by (cases "language_of x = chartml") (simp_all add: stripped_def next_index_def not_opening)
next
  case (Unclosed x rest i)
  have "\<not> opens_block mark r" for r using inert_line [OF assms, of "[]"] by (simp add: opens_block_def)
  then show ?case
    using strip_unclosed [OF Unclosed, of indices mark i] not_opening(2) [of mark "[]"] line_blocks_open [OF Unclosed(1)] Unclosed(2) unclosed_lines [OF Unclosed(2)]
    by (simp add: stripped_def)
qed simp_all

text \<open>C17: Stripping chart blocks is exact: whatever the text, what the scanner finds after the stripping is
  the blocks that were not named, unchanged and in order. The blocks themselves are those a renderer that
  reads the text line by line finds.\<close>

theorem strip_is_exact:
  assumes "inert mark"
  shows "markdown_blocks (strip_markdown_blocks content indices mark) = survivors indices 0 (markdown_blocks content)
    \<and> markdown_blocks content = line_blocks (split_on newline content)"
proof
  have "plain_lines (split_on newline content)" using split_on_parts [of _ newline content] by (auto simp: plain_lines_def)
  then have "plain_lines (strip_lines indices mark 0 (split_on newline content))" by (rule strip_lines_plain [OF assms])
  then have "split_on newline (strip_markdown_blocks content indices mark) = strip_lines indices mark 0 (split_on newline content)"
    unfolding strip_markdown_lines
    using strip_lines_not_empty by (intro split_on_join) (auto simp: plain_lines_def)
  then show "markdown_blocks (strip_markdown_blocks content indices mark) = survivors indices 0 (markdown_blocks content)"
    by (simp add: markdown_blocks_lines strip_leaves_survivors [OF assms])
qed (rule markdown_blocks_lines)

definition sample_markdown :: string where
  "sample_markdown = join [newline] [''Sales'', fence @ '' chartml '', ''a: 1'', fence, fence @ ''sql'', ''select'', fence, fence @ ''chartml'', ''b: 2'']"

theorem strip_is_exact_witness:
  "markdown_blocks (strip_markdown_blocks sample_markdown {0} ''no chart'') = [''b: 2'']
   \<and> markdown_blocks sample_markdown = [''a: 1'' @ [newline], ''b: 2'']"
proof -
  have "inert ''no chart''" by (simp add: inert_def newline_def)
  note strip_is_exact [OF this, of sample_markdown "{0}"]
  moreover have "markdown_blocks sample_markdown = [''a: 1'' @ [newline], ''b: 2'']" by code_simp
  ultimately show ?thesis by simp
qed

end
