(* ===== verification/Chart_Validation.thy ===== *)
theory Chart_Validation
  imports Chart_Blocks Core_Errors Kv_Store
begin

text \<open>
  Validation of the chart blocks of an answer, \<open>crates/kyomi-core/src/chartml_validation.rs\<close>: conversion of YAML,
  the schema, the parameter defaults, the SQL sources and their dry runs, named sources, and the loop that
  validates again what is left after a block failed.

  Parameters (\<open>chart_libs\<close>): the YAML parser, the JSON text, the compiled schema as the list of its errors, and
  the iteration order of a hash map; the dry run passes a world \<open>'w\<close>. A YAML number carries its JSON text, none
  when it is not finite.
\<close>

subsection \<open>YAML to JSON\<close>

datatype yaml =
    YNull
  | YBool bool
  | YNumber "string option"
  | YString string
  | YSequence "yaml list"
  | YMapping "(yaml \<times> yaml) list"
  | YTagged string yaml

text \<open>An error of the schema is a choice of which no branch matched, with the errors of each, or a failure at a path.\<close>

datatype schema_error = SchemaChoice "schema_error list list" | SchemaFailure string string

record chart_libs =
  cl_yaml :: "string \<Rightarrow> string + yaml"
  cl_show :: "json \<Rightarrow> string"
  cl_schema :: "string + (json \<Rightarrow> schema_error list)"
  cl_order :: "string list \<Rightarrow> string list"

record diagnostic =
  dg_block :: nat
  dg_component :: "nat option"
  dg_stage :: string
  dg_path :: string
  dg_message :: string

definition diagnostic_text :: "diagnostic \<Rightarrow> string" where
  "diagnostic_text d =
     ''Block '' @ show_nat (dg_block d) @ (case dg_component d of Some c \<Rightarrow> '', component '' @ show_nat c | None \<Rightarrow> '''')
     @ '' '' @ dg_stage d @ '' '' @ dg_path d @ '': '' @ dg_message d"

definition escape_pointer :: "string \<Rightarrow> string" where
  "escape_pointer s = concat (map (\<lambda>c. if c = CHR ''~'' then ''~0'' else if c = CHR ''/'' then ''~1'' else [c]) s)"

fun json_value :: "yaml \<Rightarrow> string \<Rightarrow> (string \<times> string) + json"
  and json_members :: "(yaml \<times> yaml) list \<Rightarrow> string \<Rightarrow> (string \<times> json) list \<Rightarrow> (string \<times> string) + (string \<times> json) list"
  and json_items :: "yaml list \<Rightarrow> string \<Rightarrow> nat \<Rightarrow> (string \<times> string) + json list" where
  "json_value YNull path = Inr JNull"
| "json_value (YBool b) path = Inr (JBool b)"
| "json_value (YNumber None) path = Inl (path, ''Non-finite YAML numbers are not JSON-compatible'')"
| "json_value (YNumber (Some n)) path = Inr (JNumber n)"
| "json_value (YString s) path = Inr (JString s)"
| "json_value (YTagged t v) path = Inl (path, ''YAML tags are not JSON-compatible'')"
| "json_value (YMapping ms) path = and_then (json_members ms path []) (\<lambda>ms. Inr (JObject ms))"
| "json_value (YSequence vs) path = and_then (json_items vs path 0) (\<lambda>vs. Inr (JArray vs))"
| "json_members [] path acc = Inr acc"
| "json_members ((k, v) # ms) path acc =
     (case k of
        YString key \<Rightarrow> and_then (json_value v (path @ ''/'' @ escape_pointer key)) (\<lambda>j.
          json_members ms path (members_insert key j acc))
      | _ \<Rightarrow> Inl (path, ''YAML mapping keys must be strings''))"
| "json_items [] path i = Inr []"
| "json_items (v # vs) path i =
     and_then (json_value v (path @ ''/'' @ show_nat i)) (\<lambda>j. and_then (json_items vs path (i + 1)) (\<lambda>js. Inr (j # js)))"

definition parse_usize :: "string \<Rightarrow> nat option" where
  "parse_usize s =
     (let t = (case s of c # t \<Rightarrow> if c = CHR ''+'' then t else s | [] \<Rightarrow> s)
      in if t \<noteq> [] \<and> list_all is_digit t \<and> digits_value t < 2 ^ 64 then Some (nat (digits_value t)) else None)"

text \<open>The component a path points into, of a list of components or of the only one.\<close>

definition path_component :: "bool \<Rightarrow> string \<Rightarrow> nat option" where
  "path_component array path =
     (if array then (case split_on (CHR ''/'') path of _ # s # _ \<Rightarrow> map_option Suc (parse_usize s) | _ \<Rightarrow> None) else Some 1)"

definition parse_block :: "chart_libs \<Rightarrow> string \<Rightarrow> nat \<Rightarrow> diagnostic list + json" where
  "parse_block cl body block =
     (case cl_yaml cl body of
        Inl e \<Rightarrow> Inl [\<lparr>dg_block = block, dg_component = None, dg_stage = ''yaml'', dg_path = '''', dg_message = e\<rparr>]
      | Inr y \<Rightarrow> map_err (\<lambda>(path, message).
          [\<lparr>dg_block = block, dg_component = path_component (case y of YSequence _ \<Rightarrow> True | _ \<Rightarrow> False) path,
            dg_stage = ''conversion'', dg_path = path, dg_message = message\<rparr>]) (json_value y ''''))"

subsection \<open>The schema\<close>

fun is_array :: "json \<Rightarrow> bool" where
  "is_array (JArray _) = True"
| "is_array _ = False"

fun collect_errors :: "json \<Rightarrow> nat \<Rightarrow> schema_error \<Rightarrow> diagnostic list"
  and collect_branches :: "json \<Rightarrow> nat \<Rightarrow> schema_error list list \<Rightarrow> diagnostic list"
  and collect_branch :: "json \<Rightarrow> nat \<Rightarrow> schema_error list \<Rightarrow> diagnostic list" where
  "collect_errors v block (SchemaChoice branches) = collect_branches v block branches"
| "collect_errors v block (SchemaFailure path message) =
     [\<lparr>dg_block = block, dg_component = path_component (is_array v) path, dg_stage = ''schema'', dg_path = path,
       dg_message = message\<rparr>]"
| "collect_branches v block [] = []"
| "collect_branches v block (b # bs) = collect_branch v block b @ collect_branches v block bs"
| "collect_branch v block [] = []"
| "collect_branch v block (e # es) = collect_errors v block e @ collect_branch v block es"

definition validate_block :: "chart_libs \<Rightarrow> string \<Rightarrow> nat \<Rightarrow> diagnostic list + json" where
  "validate_block cl body block =
     and_then (parse_block cl body block) (\<lambda>v.
     case cl_schema cl of
       Inl e \<Rightarrow> Inl [\<lparr>dg_block = block, dg_component = None, dg_stage = ''schema_initialization'', dg_path = '''', dg_message = e\<rparr>]
     | Inr schema \<Rightarrow> (let errors = collect_branch v block (schema v) in if errors = [] then Inr v else Inl errors))"

subsection \<open>Sources and defaults\<close>

record sql_source =
  ss_block :: nat
  ss_component :: nat
  ss_path :: string
  ss_datasource :: "string option"
  ss_name :: "string option"
  ss_sql :: string

record sql_failure =
  sf_stage :: string
  sf_message :: string

definition components_of :: "json \<Rightarrow> json list" where
  "components_of v = (case v of JArray vs \<Rightarrow> vs | _ \<Rightarrow> [v])"

definition named_data_map :: "json \<Rightarrow> (string \<times> json) list option" where
  "named_data_map v = (case v of
       JObject ms \<Rightarrow> if list_ex (\<lambda>k. map_of ms k \<noteq> None) [''datasource'', ''provider'', ''rows'', ''url''] then None else Some ms
     | _ \<Rightarrow> None)"

definition has_type :: "string \<Rightarrow> json \<Rightarrow> bool" where
  "has_type t c \<longleftrightarrow> json_at ''type'' c = JString t"

definition parameter_defaults :: "chart_libs \<Rightarrow> json \<Rightarrow> (string \<times> string) list \<Rightarrow> (string \<times> string) list" where
  "parameter_defaults cl c defaults =
     (case as_array (json_at ''params'' c) of
        None \<Rightarrow> defaults
      | Some ps \<Rightarrow> fold (\<lambda>p ds. case (str_at ''id'' p, json_get ''default'' p) of
            (Some i, Some d) \<Rightarrow> if map_of ds i = None
               then members_insert i (case d of JString s \<Rightarrow> s | _ \<Rightarrow> cl_show cl d) ds else ds
          | _ \<Rightarrow> ds) ps defaults)"

text \<open>\<open>str::replace\<close> of a text that is not empty.\<close>

fun replace_from :: "nat \<Rightarrow> string \<Rightarrow> string \<Rightarrow> string \<Rightarrow> string" where
  "replace_from k p r [] = []"
| "replace_from 0 p r (c # s) =
     (if starts_with p (c # s) then r @ replace_from (length p - 1) p r s else c # replace_from 0 p r s)"
| "replace_from (Suc k) p r (c # s) = replace_from k p r s"

definition replace_all :: "string \<Rightarrow> string \<Rightarrow> string \<Rightarrow> string" where
  "replace_all p r s = replace_from 0 p r s"

definition replace_curly_defaults :: "string \<Rightarrow> (string \<times> string) list \<Rightarrow> string" where
  "replace_curly_defaults body defaults = fold (\<lambda>(k, v) t. replace_all (''{{'' @ k @ ''}}'') v t) defaults body"

fun yaml_value :: "chart_libs \<Rightarrow> json \<Rightarrow> string"
  and yaml_values :: "chart_libs \<Rightarrow> json list \<Rightarrow> string list" where
  "yaml_value cl (JString s) = ''\"'' @ s @ ''\"''"
| "yaml_value cl (JArray vs) = ''['' @ join '', '' (yaml_values cl vs) @ '']''"
| "yaml_value cl v = cl_show cl v"
| "yaml_values cl [] = []"
| "yaml_values cl (v # vs) = yaml_value cl v # yaml_values cl vs"

definition inline_defaults :: "json \<Rightarrow> (string \<times> json) list" where
  "inline_defaults v =
     (case as_array (json_at ''params'' v) of
        None \<Rightarrow> []
      | Some ps \<Rightarrow> fold (\<lambda>p ds. case (str_at ''id'' p, json_get ''default'' p) of
            (Some i, Some d) \<Rightarrow> members_insert i d ds | _ \<Rightarrow> ds) ps [])"

text \<open>The stable sort takes longer names first.\<close>

definition resolve_quoted_inline_defaults :: "chart_libs \<Rightarrow> string \<Rightarrow> json \<Rightarrow> string" where
  "resolve_quoted_inline_defaults cl body v =
     (if as_object v = None then body
      else fold (\<lambda>(k, d) t. replace_all (''\"$'' @ k @ ''\"'') (yaml_value cl d) t)
        (sort_key (\<lambda>(k, _). - int (length k)) (inline_defaults v)) body)"

definition id_char :: "char \<Rightarrow> bool" where
  "id_char c = (let n = of_char c :: int in
     48 \<le> n \<and> n \<le> 57 \<or> 65 \<le> n \<and> n \<le> 90 \<or> 97 \<le> n \<and> n \<le> 122 \<or> c = CHR ''_'' \<or> c = CHR ''.'')"

definition unresolved :: "string \<Rightarrow> bool" where
  "unresolved s \<longleftrightarrow> contains ''{{'' s \<or> contains ''}}'' s
     \<or> (case strip_prefix ''$'' s of Some i \<Rightarrow> i \<noteq> [] \<and> list_all id_char i | None \<Rightarrow> False)"

definition check_sql_parameters :: "string \<Rightarrow> sql_failure + string" where
  "check_sql_parameters s =
     (if unresolved s
      then Inl \<lparr>sf_stage = ''sql_parameters'',
        sf_message = ''Unresolved parameter placeholder; provide an applicable default before SQL validation''\<rparr>
      else Inr s)"

definition candidates :: "json \<Rightarrow> (json \<times> string) list" where
  "candidates c =
     (if has_type ''source'' c then [(c, '''')]
      else case named_data_map (json_at ''data'' c) of
        Some ms \<Rightarrow> map (\<lambda>(name, s). (s, ''/data/'' @ escape_pointer name)) ms
      | None \<Rightarrow> [(json_at ''data'' c, ''/data'')])"

definition candidate_source :: "bool \<Rightarrow> nat \<Rightarrow> nat \<Rightarrow> json \<Rightarrow> json \<times> string \<Rightarrow> sql_source list" where
  "candidate_source array block i c s =
     (case str_at ''query'' (fst s) of
        None \<Rightarrow> []
      | Some sql \<Rightarrow> [\<lparr>ss_block = block, ss_component = i + 1,
          ss_path = (if array then ''/'' @ show_nat i else '''') @ snd s @ ''/query'',
          ss_datasource = str_at ''datasource'' (fst s),
          ss_name = (if has_type ''source'' c then str_at ''name'' c else None), ss_sql = sql\<rparr>])"

definition component_sources :: "bool \<Rightarrow> nat \<Rightarrow> nat \<Rightarrow> json \<Rightarrow> sql_source list" where
  "component_sources array block i c = concat (map (candidate_source array block i c) (candidates c))"

definition enumerated :: "'a list \<Rightarrow> (nat \<times> 'a) list" where
  "enumerated xs = zip [0..<length xs] xs"

definition sql_sources :: "json \<Rightarrow> nat \<Rightarrow> sql_source list" where
  "sql_sources v block = concat (map (\<lambda>(i, c). component_sources (is_array v) block i c) (enumerated (components_of v)))"

subsection \<open>One round\<close>

text \<open>A round looks at the retained blocks, each with its number: first it collects the defaults of every block
  that can be read.\<close>

definition block_defaults :: "chart_libs \<Rightarrow> nat \<Rightarrow> json \<Rightarrow> (string \<times> string) list \<Rightarrow> (string \<times> string) list" where
  "block_defaults cl block v defaults =
     fold (\<lambda>c ds. if has_type ''params'' c \<and> is_ok (validate_block cl (cl_show cl c) block) then parameter_defaults cl c ds else ds)
       (components_of v) defaults"

fun round_defaults :: "chart_libs \<Rightarrow> (nat \<times> string) list \<Rightarrow> (string \<times> string) list
    \<Rightarrow> diagnostic list \<times> (string \<times> string) list \<times> (nat \<times> string) list" where
  "round_defaults cl [] defaults = ([], defaults, [])"
| "round_defaults cl ((i, body) # bodies) defaults =
     (case parse_block cl body i of
        Inl es \<Rightarrow> (case round_defaults cl bodies defaults of (errors, ds, parsed) \<Rightarrow> (es @ errors, ds, parsed))
      | Inr v \<Rightarrow> (case round_defaults cl bodies (block_defaults cl i v defaults) of
          (errors, ds, parsed) \<Rightarrow> (errors, ds, (i, body) # parsed)))"

text \<open>A block with the defaults filled in, as it is validated.\<close>

definition resolved_block :: "chart_libs \<Rightarrow> (string \<times> string) list \<Rightarrow> nat \<times> string \<Rightarrow> diagnostic list + json" where
  "resolved_block cl defaults b = (case b of (i, body) \<Rightarrow>
     let curly = replace_curly_defaults body defaults in
     and_then (parse_block cl curly i) (\<lambda>v. validate_block cl (resolve_quoted_inline_defaults cl curly v) i))"

text \<open>Definitions of named sources and references to them: the block, the component, the path and the name.\<close>

definition component_name :: "nat \<Rightarrow> nat \<times> json \<Rightarrow> (string \<times> nat \<times> nat) list" where
  "component_name block c =
     (if has_type ''source'' (snd c)
      then (case str_at ''name'' (snd c) of Some name \<Rightarrow> [(name, block, fst c + 1)] | None \<Rightarrow> []) else [])"

definition block_names :: "nat \<Rightarrow> json \<Rightarrow> (string \<times> nat \<times> nat) list" where
  "block_names block v = concat (map (component_name block) (enumerated (components_of v)))"

definition component_references :: "bool \<Rightarrow> nat \<Rightarrow> nat \<Rightarrow> json \<Rightarrow> (nat \<times> nat \<times> string \<times> string) list" where
  "component_references array block i c =
     (if has_type ''source'' c \<or> \<not> has_type ''chart'' c then []
      else let path = (if array then ''/'' @ show_nat i @ ''/data'' else ''/data'');
               d = json_at ''data'' c
           in (case as_str d of Some name \<Rightarrow> [(block, i + 1, path, name)] | None \<Rightarrow> [])
              @ (case named_data_map d of
                   None \<Rightarrow> []
                 | Some ms \<Rightarrow> concat (map (\<lambda>(key, s). case as_str s of
                     Some name \<Rightarrow> [(block, i + 1, path @ ''/'' @ escape_pointer key, name)] | None \<Rightarrow> []) ms)))"

definition block_references :: "nat \<Rightarrow> json \<Rightarrow> (nat \<times> nat \<times> string \<times> string) list" where
  "block_references block v =
     concat (map (\<lambda>(i, c). component_references (is_array v) block i c) (enumerated (components_of v)))"

definition duplicates :: "chart_libs \<Rightarrow> (string \<times> nat \<times> nat) list \<Rightarrow> string list" where
  "duplicates cl names = filter (\<lambda>n. 1 < length (filter (\<lambda>d. fst d = n) names)) (cl_order cl (remdups (map fst names)))"

definition duplicate_errors :: "(string \<times> nat \<times> nat) list \<Rightarrow> string \<Rightarrow> diagnostic list" where
  "duplicate_errors names n =
     map (\<lambda>(_, block, c). \<lparr>dg_block = block, dg_component = Some c, dg_stage = ''source_resolution'', dg_path = ''/name'',
         dg_message = ''Named source '' @ [CHR 0x27] @ n @ [CHR 0x27] @ '' has duplicate definitions''\<rparr>)
       (filter (\<lambda>d. fst d = n) names)"

text \<open>A source is run only with its parameters resolved and a datasource selected.\<close>

definition check_source :: "(sql_source \<Rightarrow> 'w \<Rightarrow> (sql_failure + unit) \<times> 'w) \<Rightarrow> sql_source \<Rightarrow> 'w \<Rightarrow> (sql_failure + unit) \<times> 'w" where
  "check_source dry_run s =
     st_then (st_lift (check_sql_parameters (ss_sql s))) (\<lambda>_.
     case ss_datasource s of
       None \<Rightarrow> st_err \<lparr>sf_stage = ''sql_unavailable'', sf_message = ''SQL source has no selected datasource; dry-run unavailable''\<rparr>
     | Some ds \<Rightarrow> st_then (st_lift (check_sql_parameters ds)) (\<lambda>_. dry_run s))"

fun check_sources :: "(sql_source \<Rightarrow> 'w \<Rightarrow> (sql_failure + unit) \<times> 'w) \<Rightarrow> sql_source list
    \<Rightarrow> (string \<Rightarrow> (string \<times> string) option) \<Rightarrow> 'w \<Rightarrow> (diagnostic list \<times> (string \<Rightarrow> (string \<times> string) option)) \<times> 'w" where
  "check_sources dry_run [] failed w = (([], failed), w)"
| "check_sources dry_run (s # ss) failed w =
     (case check_source dry_run s w of
        (Inr _, w1) \<Rightarrow> check_sources dry_run ss failed w1
      | (Inl e, w1) \<Rightarrow>
          (case check_sources dry_run ss
             (case ss_name s of Some n \<Rightarrow> failed(n \<mapsto> (sf_stage e, sf_message e)) | None \<Rightarrow> failed) w1 of
             ((errors, failed'), w2) \<Rightarrow>
               ((\<lparr>dg_block = ss_block s, dg_component = Some (ss_component s), dg_stage = sf_stage e, dg_path = ss_path s,
                 dg_message = sf_message e\<rparr> # errors, failed'), w2)))"

definition reference_errors :: "(string \<Rightarrow> (string \<times> string) option) \<Rightarrow> (string \<times> nat \<times> nat) list
    \<Rightarrow> nat \<times> nat \<times> string \<times> string \<Rightarrow> diagnostic list" where
  "reference_errors failed names r = (case r of (block, c, path, name) \<Rightarrow>
     (case failed name of
        Some (stage, message) \<Rightarrow>
          [\<lparr>dg_block = block, dg_component = Some c, dg_stage = stage, dg_path = path,
            dg_message = ''Named source '' @ [CHR 0x27] @ name @ [CHR 0x27] @ '' failed validation: '' @ message\<rparr>]
      | None \<Rightarrow>
          if name \<in> fst ` set names then []
          else [\<lparr>dg_block = block, dg_component = Some c, dg_stage = ''source_resolution'', dg_path = path,
            dg_message = ''Named source '' @ [CHR 0x27] @ name @ [CHR 0x27] @ '' is unavailable in this validation document''\<rparr>]))"

text \<open>The blocks that pass the schema, with their values, and the errors of the others.\<close>

fun resolve_blocks :: "chart_libs \<Rightarrow> (string \<times> string) list \<Rightarrow> (nat \<times> string) list \<Rightarrow> diagnostic list \<times> (nat \<times> json) list" where
  "resolve_blocks cl defaults [] = ([], [])"
| "resolve_blocks cl defaults (b # bs) =
     (case resolve_blocks cl defaults bs of (errors, valid) \<Rightarrow>
        (case resolved_block cl defaults b of
           Inl es \<Rightarrow> (es @ errors, valid)
         | Inr v \<Rightarrow> (errors, (fst b, v) # valid)))"

definition validate_round :: "chart_libs \<Rightarrow> (sql_source \<Rightarrow> 'w \<Rightarrow> (sql_failure + unit) \<times> 'w) \<Rightarrow> (nat \<times> string) list
    \<Rightarrow> 'w \<Rightarrow> diagnostic list \<times> 'w" where
  "validate_round cl dry_run bodies w =
     (let (unread, defaults, parsed) = round_defaults cl bodies [];
          (invalid, valid) = resolve_blocks cl defaults parsed;
          names = concat (map (\<lambda>(i, v). block_names i v) valid);
          twice = duplicates cl names;
          failed = (\<lambda>n. if n \<in> set twice then Some (''source_resolution'', ''duplicate definitions'') else None);
          ((failures, failed'), w') = check_sources dry_run (concat (map (\<lambda>(i, v). sql_sources v i) valid)) failed w
      in (unread @ invalid @ concat (map (duplicate_errors names) twice) @ failures
          @ concat (map (\<lambda>r. reference_errors failed' names r) (concat (map (\<lambda>(i, v). block_references i v) valid))), w'))"

subsection \<open>The loop\<close>

text \<open>What has not failed, with its number from one.\<close>

definition retained :: "string list \<Rightarrow> nat set \<Rightarrow> (nat \<times> string) list" where
  "retained blocks failed = filter (\<lambda>(i, _). i \<notin> failed) (map (\<lambda>(i, b). (Suc i, b)) (enumerated blocks))"

lemma parse_errors: "parse_block cl body i = Inl es \<Longrightarrow> d \<in> set es \<Longrightarrow> dg_block d = i"
  by (auto simp: parse_block_def split: sum.splits)

lemma collected_block: "d \<in> set (collect_errors v i e) \<Longrightarrow> dg_block d = i" "d \<in> set (collect_branches v i bs) \<Longrightarrow> dg_block d = i"
  "d \<in> set (collect_branch v i es) \<Longrightarrow> dg_block d = i"
  by (induction v i e and v i bs and v i es rule: collect_errors_collect_branches_collect_branch.induct) auto

lemma validate_errors: "validate_block cl body i = Inl es \<Longrightarrow> d \<in> set es \<Longrightarrow> dg_block d = i"
  by (cases "parse_block cl body i"; cases "cl_schema cl")
    (auto simp: validate_block_def Let_def dest: parse_errors collected_block(3) split: if_splits)

lemma round_defaults_blocks:
  "round_defaults cl bodies ds = (errors, ds', parsed) \<Longrightarrow>
    set parsed \<subseteq> set bodies \<and> (\<forall>d \<in> set errors. dg_block d \<in> fst ` set bodies)"
proof (induction cl bodies ds arbitrary: errors ds' parsed rule: round_defaults.induct)
  case (2 cl i body bodies defaults)
  then show ?case
    by (cases "parse_block cl body i") (fastforce split: prod.splits dest: parse_errors)+
qed simp

lemma resolved_errors: "resolved_block cl defaults (i, body) = Inl es \<Longrightarrow> d \<in> set es \<Longrightarrow> dg_block d = i"
  by (auto simp: resolved_block_def Let_def and_then_eq_Inl dest: parse_errors validate_errors)

lemma resolve_blocks_blocks:
  "resolve_blocks cl defaults bs = (errors, valid) \<Longrightarrow>
    (\<forall>v \<in> set valid. fst v \<in> fst ` set bs) \<and> (\<forall>d \<in> set errors. dg_block d \<in> fst ` set bs)"
proof (induction bs arbitrary: errors valid)
  case (Cons b bs)
  obtain i body where b: "b = (i, body)" by (cases b)
  obtain es vs where rest: "resolve_blocks cl defaults bs = (es, vs)" by fastforce
  show ?case
  proof (cases "resolved_block cl defaults b")
    case (Inl l)
    then have "dg_block d = i" if "d \<in> set l" for d using that resolved_errors b by blast
    with Inl show ?thesis using Cons.prems Cons.IH [OF rest] rest b by auto
  next
    case (Inr v)
    then show ?thesis using Cons.prems Cons.IH [OF rest] rest b by auto
  qed
qed simp

lemma source_block: "s \<in> set (sql_sources v i) \<Longrightarrow> ss_block s = i"
  by (auto simp: sql_sources_def component_sources_def candidate_source_def split: option.splits)

lemma name_block: "(n, block, c) \<in> set (block_names i v) \<Longrightarrow> block = i"
  by (auto simp: block_names_def component_name_def split: option.splits if_splits)

lemma component_reference_block: "(block, r) \<in> set (component_references array i j c) \<Longrightarrow> block = i"
  unfolding component_references_def Let_def
  by (cases "as_str (json_at ''data'' c)"; cases "named_data_map (json_at ''data'' c)")
    (auto split: if_splits option.splits)

lemma reference_block: "(block, r) \<in> set (block_references i v) \<Longrightarrow> block = i"
  unfolding block_references_def using component_reference_block by fastforce

lemma check_sources_blocks:
  "check_sources dry_run ss failed w = ((errors, failed'), w') \<Longrightarrow> d \<in> set errors \<Longrightarrow> dg_block d \<in> ss_block ` set ss"
proof (induction ss arbitrary: failed w errors)
  case (Cons s ss)
  obtain r w1 where r: "check_source dry_run s w = (r, w1)" by fastforce
  show ?case
  proof (cases r)
    case (Inl e)
    let ?f = "case ss_name s of Some n \<Rightarrow> failed(n \<mapsto> (sf_stage e, sf_message e)) | None \<Rightarrow> failed"
    obtain es f w2 where rest: "check_sources dry_run ss ?f w1 = ((es, f), w2)" by (metis prod.collapse)
    with Cons.IH [of ?f w1 es] Cons.prems r Inl show ?thesis by auto
  next
    case (Inr u)
    with Cons.IH [of failed w1 errors] Cons.prems r show ?thesis by auto
  qed
qed simp

text \<open>A round names only blocks it looked at.\<close>

lemma round_blocks:
  assumes "validate_round cl dry_run bodies w = (errors, w')" "d \<in> set errors"
  shows "dg_block d \<in> fst ` set bodies"
proof -
  obtain unread ds parsed where rd: "round_defaults cl bodies [] = (unread, ds, parsed)" by (metis prod.collapse)
  obtain invalid valid where rs: "resolve_blocks cl ds parsed = (invalid, valid)" by fastforce
  define names where "names = concat (map (\<lambda>(i, v). block_names i v) valid)"
  define srcs where "srcs = concat (map (\<lambda>(i, v). sql_sources v i) valid)"
  define refs where "refs = concat (map (\<lambda>(i, v). block_references i v) valid)"
  let ?failed = "\<lambda>n. if n \<in> set (duplicates cl names) then Some (''source_resolution'', ''duplicate definitions'') else None"
  obtain failures failed' w2 where cs: "check_sources dry_run srcs ?failed w = ((failures, failed'), w2)" by (metis prod.collapse)
  have errors: "errors = unread @ invalid @ concat (map (duplicate_errors names) (duplicates cl names)) @ failures
      @ concat (map (reference_errors failed' names) refs)"
    using assms(1) rd rs cs by (simp add: validate_round_def Let_def names_def srcs_def refs_def)
  note read = round_defaults_blocks [OF rd] and resolved = resolve_blocks_blocks [OF rs]
  have valid: "i \<in> fst ` set bodies" if "(i, v) \<in> set valid" for i v
  proof -
    have "fst (i, v) \<in> fst ` set parsed" using bspec [OF conjunct1 [OF resolved] that] .
    with conjunct1 [OF read] show ?thesis by auto
  qed
  have names: "block \<in> fst ` set bodies" if "(n, block, c) \<in> set names" for n block c
  proof -
    from that obtain i v where "(i, v) \<in> set valid" "(n, block, c) \<in> set (block_names i v)" unfolding names_def by auto
    with valid [of i v] name_block show ?thesis by blast
  qed
  have refs: "block \<in> fst ` set bodies" if "(block, r) \<in> set refs" for block r
  proof -
    from that obtain i v where "(i, v) \<in> set valid" "(block, r) \<in> set (block_references i v)" unfolding refs_def by auto
    with valid [of i v] reference_block show ?thesis by blast
  qed
  have srcs: "ss_block s \<in> fst ` set bodies" if "s \<in> set srcs" for s
  proof -
    from that obtain i v where "(i, v) \<in> set valid" "s \<in> set (sql_sources v i)" unfolding srcs_def by auto
    with valid [of i v] source_block show ?thesis by blast
  qed
  from assms(2) consider "d \<in> set unread" | "d \<in> set invalid" | n where "d \<in> set (duplicate_errors names n)"
    | "d \<in> set failures" | r where "r \<in> set refs" "d \<in> set (reference_errors failed' names r)"
    unfolding errors by auto
  then show ?thesis
  proof cases
    case 1
    with conjunct2 [OF read] show ?thesis by blast
  next
    case 2
    with conjunct2 [OF resolved] have "dg_block d \<in> fst ` set parsed" by blast
    with conjunct1 [OF read] show ?thesis by auto
  next
    case 3
    with names show ?thesis by (auto simp: duplicate_errors_def)
  next
    case 4
    from check_sources_blocks [OF cs this] srcs show ?thesis by auto
  next
    case 5
    with refs show ?thesis by (cases r) (auto simp: reference_errors_def split: option.splits if_splits)
  qed
qed

lemma in_enumerated: "(i, x) \<in> set (enumerated xs) \<longleftrightarrow> i < length xs \<and> x = xs ! i"
  by (auto simp: enumerated_def in_set_zip intro!: exI [of _ i])

lemma retained_numbers: "(i, b) \<in> set (retained blocks failed) \<longleftrightarrow> 1 \<le> i \<and> i \<le> length blocks \<and> b = blocks ! (i - 1) \<and> i \<notin> failed"
proof (cases i)
  case (Suc j)
  have "(Suc j, b) \<in> (\<lambda>(i, b). (Suc i, b)) ` set (enumerated blocks) \<longleftrightarrow> (j, b) \<in> set (enumerated blocks)" by force
  with Suc show ?thesis by (auto simp: retained_def in_enumerated)
qed (auto simp: retained_def)

lemma retained_fewer:
  assumes "d \<in> set round" "\<forall>d \<in> set round. dg_block d \<in> fst ` set (retained blocks failed)"
  shows "length (retained blocks (failed \<union> dg_block ` set round)) < length (retained blocks failed)"
proof -
  let ?all = "map (\<lambda>(i, b). (Suc i, b)) (enumerated blocks)"
  have "retained blocks (failed \<union> dg_block ` set round) = filter (\<lambda>(i, _). i \<notin> dg_block ` set round) (retained blocks failed)"
    by (auto simp: retained_def intro!: filter_cong)
  moreover obtain b where "(dg_block d, b) \<in> set (retained blocks failed)" using assms by fastforce
  ultimately show ?thesis using assms(1) length_filter_less [of "(dg_block d, b)" "retained blocks failed"] by auto
qed

text \<open>\<open>validate_blocks\<close>: the errors of all rounds; it ends because a round that finds errors takes a block away.\<close>

function validate_loop :: "chart_libs \<Rightarrow> (sql_source \<Rightarrow> 'w \<Rightarrow> (sql_failure + unit) \<times> 'w) \<Rightarrow> string list \<Rightarrow> nat set
    \<Rightarrow> diagnostic list \<Rightarrow> 'w \<Rightarrow> diagnostic list \<times> 'w" where
  "validate_loop cl dry_run blocks failed errors w =
     (case validate_round cl dry_run (retained blocks failed) w of (round, w') \<Rightarrow>
        if round = [] then (errors, w')
        else validate_loop cl dry_run blocks (failed \<union> dg_block ` set round) (errors @ round) w')"
  by pat_completeness auto
termination
proof (relation "measure (\<lambda>(_, _, blocks, failed, _, _). length (retained blocks failed))", simp, clarsimp)
  fix cl :: chart_libs and dry_run :: "sql_source \<Rightarrow> 'w \<Rightarrow> (sql_failure + unit) \<times> 'w" and blocks failed w round w'
  assume run: "(round, w') = validate_round cl dry_run (retained blocks failed) w" and "round \<noteq> []"
  then obtain d where "d \<in> set round" by (cases round) auto
  then show "length (retained blocks (failed \<union> dg_block ` set round)) < length (retained blocks failed)"
    using round_blocks [OF run [symmetric]] by (intro retained_fewer) auto
qed

declare validate_loop.simps [simp del]

definition validate_blocks :: "chart_libs \<Rightarrow> (sql_source \<Rightarrow> 'w \<Rightarrow> (sql_failure + unit) \<times> 'w) \<Rightarrow> string list
    \<Rightarrow> 'w \<Rightarrow> diagnostic list \<times> 'w" where
  "validate_blocks cl dry_run blocks w = validate_loop cl dry_run blocks {} [] w"

subsection \<open>What passes\<close>

text \<open>A document of blocks that passes: every block can be read and, with the defaults of the document, fits the
  schema; named sources are defined once and every reference has a definition.\<close>

definition document_defaults :: "chart_libs \<Rightarrow> (nat \<times> string) list \<Rightarrow> (string \<times> string) list" where
  "document_defaults cl bodies = fst (snd (round_defaults cl bodies []))"

definition document_values :: "chart_libs \<Rightarrow> (nat \<times> string) list \<Rightarrow> (nat \<times> json) list" where
  "document_values cl bodies = map (\<lambda>b. (fst b, projr (resolved_block cl (document_defaults cl bodies) b))) bodies"

definition document_sources :: "chart_libs \<Rightarrow> (nat \<times> string) list \<Rightarrow> sql_source list" where
  "document_sources cl bodies = concat (map (\<lambda>(i, v). sql_sources v i) (document_values cl bodies))"

definition document_names :: "chart_libs \<Rightarrow> (nat \<times> string) list \<Rightarrow> (string \<times> nat \<times> nat) list" where
  "document_names cl bodies = concat (map (\<lambda>(i, v). block_names i v) (document_values cl bodies))"

definition document_references :: "chart_libs \<Rightarrow> (nat \<times> string) list \<Rightarrow> (nat \<times> nat \<times> string \<times> string) list" where
  "document_references cl bodies = concat (map (\<lambda>(i, v). block_references i v) (document_values cl bodies))"

definition document_ok :: "chart_libs \<Rightarrow> (nat \<times> string) list \<Rightarrow> bool" where
  "document_ok cl bodies \<longleftrightarrow>
     (\<forall>(i, body) \<in> set bodies. is_ok (parse_block cl body i) \<and> is_ok (resolved_block cl (document_defaults cl bodies) (i, body)))
   \<and> distinct (map fst (document_names cl bodies))
   \<and> (\<forall>(_, _, _, name) \<in> set (document_references cl bodies). name \<in> fst ` set (document_names cl bodies))"

text \<open>Every source has a datasource and no open parameter, and its dry run succeeds, one after the other from \<open>w\<close> to \<open>w'\<close>.\<close>

fun sources_run :: "(sql_source \<Rightarrow> 'w \<Rightarrow> (sql_failure + unit) \<times> 'w) \<Rightarrow> sql_source list \<Rightarrow> 'w \<Rightarrow> 'w \<Rightarrow> bool" where
  "sources_run dry_run [] w w' \<longleftrightarrow> w' = w"
| "sources_run dry_run (s # ss) w w' \<longleftrightarrow>
     \<not> unresolved (ss_sql s) \<and> (\<exists>ds. ss_datasource s = Some ds \<and> \<not> unresolved ds)
     \<and> (\<exists>w1. dry_run s w = (Inr (), w1) \<and> sources_run dry_run ss w1 w')"

definition order_ok :: "chart_libs \<Rightarrow> bool" where
  "order_ok cl \<longleftrightarrow> (\<forall>xs. set (cl_order cl xs) = set xs)"

lemma check_source_Inr:
  "check_source dry_run s w = (Inr (), w1) \<longleftrightarrow>
    \<not> unresolved (ss_sql s) \<and> (\<exists>ds. ss_datasource s = Some ds \<and> \<not> unresolved ds) \<and> dry_run s w = (Inr (), w1)"
  by (auto simp: check_source_def check_sql_parameters_def st_simps split: option.splits)

lemma check_sources_clean:
  "check_sources dry_run ss failed w = (([], failed'), w') \<longleftrightarrow> sources_run dry_run ss w w' \<and> failed' = failed"
proof (induction ss arbitrary: w)
  case (Cons s ss)
  obtain r w1 where r: "check_source dry_run s w = (r, w1)" by fastforce
  show ?case
  proof (cases r)
    case (Inl e)
    then have "\<not> sources_run dry_run (s # ss) w w'" using r check_source_Inr [of dry_run s w] by auto
    moreover have "check_sources dry_run (s # ss) failed w \<noteq> (([], failed'), w')" using r Inl by (auto split: prod.splits)
    ultimately show ?thesis by blast
  next
    case (Inr u)
    with Cons.IH [of w1] r check_source_Inr [of dry_run s w w1] show ?thesis by auto
  qed
qed auto

lemma no_empty_errors:
  "parse_block cl body i \<noteq> Inl []" "validate_block cl body i \<noteq> Inl []" "resolved_block cl defaults b \<noteq> Inl []"
proof -
  show parse: "parse_block cl body i \<noteq> Inl []" for body i by (auto simp: parse_block_def split: sum.splits prod.splits)
  show valid: "validate_block cl body i \<noteq> Inl []" for body i
    using parse [of body i] by (cases "parse_block cl body i"; cases "cl_schema cl") (auto simp: validate_block_def Let_def)
  show "resolved_block cl defaults b \<noteq> Inl []"
    using parse valid by (auto simp: resolved_block_def Let_def and_then_eq_Inl split: prod.splits)
qed

lemma round_defaults_clean:
  "round_defaults cl bodies ds = (es, ds', parsed) \<Longrightarrow>
    (es = [] \<longleftrightarrow> (\<forall>(i, body) \<in> set bodies. is_ok (parse_block cl body i))) \<and> (es = [] \<longrightarrow> parsed = bodies)"
proof (induction cl bodies ds arbitrary: es ds' parsed rule: round_defaults.induct)
  case (2 cl i body bodies defaults)
  show ?case
  proof (cases "parse_block cl body i")
    case (Inl l)
    with no_empty_errors(1) [of cl body i] "2.prems" show ?thesis by (auto split: prod.splits)
  next
    case (Inr v)
    obtain es1 d p where rest: "round_defaults cl bodies (block_defaults cl i v defaults) = (es1, d, p)" by (metis prod.collapse)
    with Inr "2.prems" have "es = es1" "parsed = (i, body) # p" by simp_all
    with "2.IH"(2) [OF Inr rest] Inr show ?thesis by simp
  qed
qed simp

lemma resolve_blocks_clean:
  "resolve_blocks cl defaults bs = (es, valid) \<Longrightarrow>
    (es = [] \<longleftrightarrow> (\<forall>b \<in> set bs. is_ok (resolved_block cl defaults b)))
    \<and> (es = [] \<longrightarrow> valid = map (\<lambda>b. (fst b, projr (resolved_block cl defaults b))) bs)"
proof (induction bs arbitrary: es valid)
  case (Cons b bs)
  obtain es1 vs where rest: "resolve_blocks cl defaults bs = (es1, vs)" by fastforce
  show ?case
  proof (cases "resolved_block cl defaults b")
    case (Inl l)
    with no_empty_errors(3) [of cl defaults b] Cons.prems rest show ?thesis by auto
  next
    case (Inr v)
    with Cons.prems rest have "es = es1" "valid = (fst b, v) # vs" by simp_all
    with Cons.IH [OF rest] Inr show ?thesis by simp
  qed
qed simp

lemma distinct_names:
  "(\<forall>n \<in> fst ` set xs. length (filter (\<lambda>d. fst d = n) xs) \<le> 1) \<longleftrightarrow> distinct (map fst xs)"
proof (induction xs)
  case (Cons x xs)
  have "filter (\<lambda>d. fst d = n) xs = [] \<longleftrightarrow> n \<notin> fst ` set xs" for n by (auto simp: filter_empty_conv)
  with Cons show ?case by (auto simp: image_iff)
qed simp

lemma no_duplicates:
  assumes "order_ok cl"
  shows "duplicates cl names = [] \<longleftrightarrow> distinct (map fst names)"
  unfolding distinct_names [symmetric] using assms by (auto simp: duplicates_def filter_empty_conv order_ok_def not_less)

lemma duplicate_errors_empty: "concat (map (duplicate_errors names) (duplicates cl names)) = [] \<longleftrightarrow> duplicates cl names = []"
proof -
  have "duplicate_errors names n \<noteq> []" if "n \<in> set (duplicates cl names)" for n
  proof -
    have "1 < length (filter (\<lambda>d. fst d = n) names)" using that by (auto simp: duplicates_def)
    then have "filter (\<lambda>d. fst d = n) names \<noteq> []" by force
    then show ?thesis by (simp add: duplicate_errors_def)
  qed
  then show ?thesis by (cases "duplicates cl names") auto
qed

text \<open>A round finds no error exactly in a document that passes and whose sources run.\<close>

lemma round_clean:
  assumes "order_ok cl"
  shows "validate_round cl dry_run bodies w = ([], w') \<longleftrightarrow>
    document_ok cl bodies \<and> sources_run dry_run (document_sources cl bodies) w w'"
proof -
  obtain unread ds parsed where rd: "round_defaults cl bodies [] = (unread, ds, parsed)" by (metis prod.collapse)
  then have ds: "document_defaults cl bodies = ds" by (simp add: document_defaults_def)
  obtain invalid valid where rs: "resolve_blocks cl ds parsed = (invalid, valid)" by fastforce
  define names where "names = concat (map (\<lambda>(i, v). block_names i v) valid)"
  define srcs where "srcs = concat (map (\<lambda>(i, v). sql_sources v i) valid)"
  define refs where "refs = concat (map (\<lambda>(i, v). block_references i v) valid)"
  let ?failed = "\<lambda>n. if n \<in> set (duplicates cl names) then Some (''source_resolution'', ''duplicate definitions'') else None"
  obtain failures failed' w2 where cs: "check_sources dry_run srcs ?failed w = ((failures, failed'), w2)" by (metis prod.collapse)
  have round: "validate_round cl dry_run bodies w = (unread @ invalid @ concat (map (duplicate_errors names) (duplicates cl names)) @ failures
      @ concat (map (reference_errors failed' names) refs), w2)"
    using rd rs cs by (simp add: validate_round_def Let_def names_def srcs_def refs_def)
  note read = round_defaults_clean [OF rd] and resolved = resolve_blocks_clean [OF rs]
  show ?thesis
  proof (cases "unread = [] \<and> invalid = []")
    case False
    then have "\<not> document_ok cl bodies" using read resolved unfolding document_ok_def ds by fastforce
    with False round show ?thesis by auto
  next
    case True
    with read resolved ds have valid: "valid = document_values cl bodies" by (simp add: document_values_def)
    then have doc: "names = document_names cl bodies" "srcs = document_sources cl bodies" "refs = document_references cl bodies"
      by (simp_all add: names_def srcs_def refs_def document_names_def document_sources_def document_references_def)
    have ok: "\<forall>(i, body) \<in> set bodies. is_ok (parse_block cl body i) \<and> is_ok (resolved_block cl (document_defaults cl bodies) (i, body))"
      using True read resolved ds by fastforce
    show ?thesis
    proof (cases "distinct (map fst names)")
      case False
      then have "duplicates cl names \<noteq> []" using no_duplicates [OF assms] by blast
      then have "concat (map (duplicate_errors names) (duplicates cl names)) \<noteq> []" using duplicate_errors_empty by blast
      with False round doc(1) show ?thesis by (auto simp: document_ok_def)
    next
      case distinct: True
      then have none: "duplicates cl names = []" using no_duplicates [OF assms] by blast
      then have "?failed = (\<lambda>_. None)" by auto
      with cs have cs': "check_sources dry_run srcs (\<lambda>_. None) w = ((failures, failed'), w2)" by simp
      have references: "concat (map (reference_errors (\<lambda>_. None) names) refs) = [] \<longleftrightarrow> (\<forall>(_, _, _, name) \<in> set refs. name \<in> fst ` set names)"
      proof -
        have "reference_errors (\<lambda>_. None) names r = [] \<longleftrightarrow> (case r of (_, _, _, name) \<Rightarrow> name \<in> fst ` set names)" for r
          by (cases r) (simp add: reference_errors_def)
        then show ?thesis by simp
      qed
      show ?thesis
      proof (cases "failures = []")
        case False
        with cs' have "\<not> sources_run dry_run srcs w w'" using check_sources_clean [of dry_run srcs "\<lambda>_. None" w "\<lambda>_. None" w'] by auto
        with False round doc(2) show ?thesis by auto
      next
        case clean: True
        with cs' have run: "sources_run dry_run srcs w w2" "failed' = (\<lambda>_. None)"
          using check_sources_clean [of dry_run srcs "\<lambda>_. None" w failed' w2] by auto
        have det: "sources_run dry_run srcs w w' \<longleftrightarrow> w' = w2"
          using check_sources_clean [of dry_run srcs "\<lambda>_. None" w failed' w'] cs' clean run by auto
        show ?thesis
          using round True none clean run(2) references ok distinct det doc by (auto simp: document_ok_def)
      qed
    qed
  qed
qed

lemma loop_ends_clean:
  "validate_loop cl dry_run blocks failed errors w = (errors', w') \<Longrightarrow> failed = dg_block ` set errors \<Longrightarrow>
    (\<exists>w0. validate_round cl dry_run (retained blocks (dg_block ` set errors')) w0 = ([], w')) \<and>
    (\<forall>d \<in> set errors'. d \<in> set errors \<or> dg_block d \<in> {1..length blocks})"
proof (induction cl dry_run blocks failed errors w rule: validate_loop.induct)
  case (1 cl dry_run blocks failed errors w)
  obtain round w1 where round: "validate_round cl dry_run (retained blocks failed) w = (round, w1)" by fastforce
  show ?case
  proof (cases "round = []")
    case True
    with 1(2,3) round show ?thesis by (subst (asm) validate_loop.simps) auto
  next
    case False
    have "validate_loop cl dry_run blocks (failed \<union> dg_block ` set round) (errors @ round) w1 = (errors', w')"
      using 1(2) round False by (subst (asm) validate_loop.simps) simp
    moreover have "failed \<union> dg_block ` set round = dg_block ` set (errors @ round)" using 1(3) by auto
    ultimately have IH: "(\<exists>w0. validate_round cl dry_run (retained blocks (dg_block ` set errors')) w0 = ([], w')) \<and>
        (\<forall>d \<in> set errors'. d \<in> set (errors @ round) \<or> dg_block d \<in> {1..length blocks})"
      using 1(1) [OF round [symmetric] False] by blast
    have "dg_block d \<in> {1..length blocks}" if "d \<in> set round" for d
      using round_blocks [OF round that] by (auto simp: retained_numbers)
    with IH show ?thesis by auto
  qed
qed

lemma loop_grows: "validate_loop cl dry_run blocks failed errors w = (errors', w') \<Longrightarrow> set errors \<subseteq> set errors'"
proof (induction cl dry_run blocks failed errors w rule: validate_loop.induct)
  case (1 cl dry_run blocks failed errors w)
  obtain round w1 where round: "validate_round cl dry_run (retained blocks failed) w = (round, w1)" by fastforce
  show ?case
  proof (cases "round = []")
    case True
    with 1(2) round show ?thesis by (subst (asm) validate_loop.simps) auto
  next
    case False
    have "validate_loop cl dry_run blocks (failed \<union> dg_block ` set round) (errors @ round) w1 = (errors', w')"
      using 1(2) round False by (subst (asm) validate_loop.simps) simp
    with 1(1) [OF round [symmetric] False] show ?thesis by auto
  qed
qed

lemma loop_keeps_errors:
  assumes "validate_loop cl dry_run blocks failed errors w = (errors', w')"
    and "validate_round cl dry_run (retained blocks failed) w = (round, w1)" "round \<noteq> []"
  shows "set round \<subseteq> set errors'"
proof -
  have "validate_loop cl dry_run blocks (failed \<union> dg_block ` set round) (errors @ round) w1 = (errors', w')"
    using assms by (subst (asm) validate_loop.simps) simp
  from loop_grows [OF this] show ?thesis by simp
qed

text \<open>C16: Validation is fail-closed and always ends. Whatever the library and the dry runs answer, the blocks that
  no diagnostic names pass as a document of their own: each fits the schema with the defaults of the
  remaining blocks alone, named sources are defined once and references resolve among them, and the last
  thing the validation did was to run every one of their SQL sources, with a datasource and no open
  parameter, without a failure. Diagnostics name only blocks of the answer, and there are none exactly when
  the whole answer passes at once.\<close>

theorem validation_fails_closed:
  assumes "order_ok cl" "validate_blocks cl dry_run blocks w = (errors, w')"
  defines "left \<equiv> retained blocks (dg_block ` set errors)"
  shows "document_ok cl left \<and> (\<exists>w0. sources_run dry_run (document_sources cl left) w0 w')
    \<and> dg_block ` set errors \<subseteq> {1..length blocks}
    \<and> (errors = [] \<longleftrightarrow> document_ok cl (retained blocks {})
         \<and> (\<exists>w1. sources_run dry_run (document_sources cl (retained blocks {})) w w1))"
proof -
  have run: "validate_loop cl dry_run blocks {} [] w = (errors, w')" using assms(2) by (simp add: validate_blocks_def)
  obtain w0 where last: "validate_round cl dry_run left w0 = ([], w')" and numbers: "\<forall>d \<in> set errors. dg_block d \<in> {1..length blocks}"
    using loop_ends_clean [OF run] unfolding left_def by auto
  obtain round w1 where first: "validate_round cl dry_run (retained blocks {}) w = (round, w1)" by fastforce
  have "errors = [] \<longleftrightarrow> round = []"
  proof (cases "round = []")
    case True
    with run first show ?thesis by (subst (asm) validate_loop.simps) auto
  next
    case False
    then obtain d where d: "d \<in> set round" by (cases round) auto
    have "errors \<noteq> []"
    proof
      assume "errors = []"
      with last have "validate_round cl dry_run (retained blocks {}) w0 = ([], w')" by (simp add: left_def)
      have "set round \<subseteq> set errors" using loop_keeps_errors [OF run first False] .
      with d \<open>errors = []\<close> show False by simp
    qed
    with False show ?thesis by simp
  qed
  then have "errors = [] \<longleftrightarrow> document_ok cl (retained blocks {})
      \<and> (\<exists>w1. sources_run dry_run (document_sources cl (retained blocks {})) w w1)"
    using round_clean [OF assms(1), of dry_run "retained blocks {}" w] first by auto
  moreover have "document_ok cl left \<and> sources_run dry_run (document_sources cl left) w0 w'"
    using last round_clean [OF assms(1), of dry_run left w0 w'] by blast
  moreover have "dg_block ` set errors \<subseteq> {1..length blocks}" using numbers by blast
  ultimately show ?thesis by blast
qed

definition sample_chart :: yaml where
  "sample_chart = YMapping [(YString ''type'', YString ''chart''),
     (YString ''data'', YMapping [(YString ''datasource'', YString ''db''), (YString ''query'', YString ''select 1'')])]"

definition sample_libs :: chart_libs where
  "sample_libs = \<lparr>cl_yaml = \<lambda>body. if body = ''chart'' then Inr sample_chart else Inl ''no YAML'', cl_show = \<lambda>_. ''{}'',
     cl_schema = Inr (\<lambda>_. []), cl_order = \<lambda>xs. xs\<rparr>"

definition sample_dry_run :: "sql_source \<Rightarrow> int \<Rightarrow> (sql_failure + unit) \<times> int" where
  "sample_dry_run s n = (Inr (), n + 1)"

theorem validation_fails_closed_witness:
  "document_ok sample_libs [(1, ''chart'')]
   \<and> fst (validate_blocks sample_libs sample_dry_run [''chart'', ''?''] 0) \<noteq> []
   \<and> document_sources sample_libs [(1, ''chart'')] \<noteq> []"
proof -
  let ?run = "validate_blocks sample_libs sample_dry_run [''chart'', ''?''] 0"
  have left: "retained [''chart'', ''?''] (dg_block ` set (fst ?run)) = [(1, ''chart'')]" by code_simp
  have "order_ok sample_libs" by (simp add: order_ok_def sample_libs_def)
  from validation_fails_closed [where dry_run = sample_dry_run and blocks = "[''chart'', ''?'']" and w = 0, OF this surjective_pairing] left
  have "document_ok sample_libs [(1, ''chart'')]" by simp
  moreover have "fst ?run \<noteq> []" "document_sources sample_libs [(1, ''chart'')] \<noteq> []" by code_simp+
  ultimately show ?thesis by blast
qed

subsection \<open>Numbers of blocks\<close>

text \<open>Whether a document passes does not depend on the numbers of its blocks, which only diagnostics show.\<close>

definition verdict :: "'e + 'a \<Rightarrow> unit + 'a" where "verdict r = map_err (\<lambda>_. ()) r"

lemma verdict_ok: "verdict r = verdict r' \<Longrightarrow> is_ok r = is_ok r' \<and> (is_ok r \<longrightarrow> projr r = projr r')"
  by (cases r; cases r') (auto simp: verdict_def map_err_def is_ok_def)

lemma verdict_then: "verdict r = verdict r' \<Longrightarrow> (\<And>x. verdict (f x) = verdict (g x)) \<Longrightarrow> verdict (and_then r f) = verdict (and_then r' g)"
  by (cases r; cases r') (auto simp: verdict_def map_err_def)

lemma parse_numbered: "verdict (parse_block cl body i) = verdict (parse_block cl body j)"
  by (auto simp: parse_block_def verdict_def map_err_def split: sum.splits)

lemma branches_numbered:
  "collect_errors v i e = [] \<longleftrightarrow> collect_errors v j e = []"
  "collect_branches v i bs = [] \<longleftrightarrow> collect_branches v j bs = []"
  "collect_branch v i es = [] \<longleftrightarrow> collect_branch v j es = []"
  by (induction v i e and v i bs and v i es rule: collect_errors_collect_branches_collect_branch.induct) auto

lemma validate_numbered: "verdict (validate_block cl body i) = verdict (validate_block cl body j)"
  unfolding validate_block_def Let_def
  using branches_numbered(3) [of _ i _ j]
  by (intro verdict_then parse_numbered) (auto simp: verdict_def map_err_def split: sum.splits)

lemma resolved_numbered: "verdict (resolved_block cl ds (i, body)) = verdict (resolved_block cl ds (j, body))"
  unfolding resolved_block_def Let_def prod.case by (intro verdict_then parse_numbered validate_numbered)

lemma defaults_numbered: "map snd bodies = map snd bodies' \<Longrightarrow>
  fst (snd (round_defaults cl bodies ds)) = fst (snd (round_defaults cl bodies' ds))"
proof (induction bodies arbitrary: bodies' ds)
  case (Cons b bodies)
  obtain i body where b: "b = (i, body)" by fastforce
  with Cons.prems obtain j rest where bodies': "bodies' = (j, body) # rest" "map snd bodies = map snd rest" by (cases bodies') auto
  have block: "block_defaults cl i v ds = block_defaults cl j v ds" for v
    using verdict_ok [OF validate_numbered [of cl _ i j]] by (simp add: block_defaults_def)
  show ?case using Cons.IH [OF bodies'(2)] verdict_ok [OF parse_numbered [of cl body i j]] unfolding b bodies'
    by (cases "parse_block cl body i"; cases "parse_block cl body j") (auto simp: block is_ok_def split: prod.splits, (metis fst_conv snd_conv)+)
qed simp

lemma names_numbered: "map fst (block_names i v) = map fst (block_names j v)"
proof -
  have "map fst (component_name i c) = map fst (component_name j c)" for c by (simp add: component_name_def split: option.splits)
  then show ?thesis by (simp add: block_names_def map_concat comp_def)
qed

lemma references_numbered: "map (snd \<circ> snd \<circ> snd) (block_references i v) = map (snd \<circ> snd \<circ> snd) (block_references j v)"
proof -
  have part: "map (snd \<circ> snd \<circ> snd) (component_references array i n c) = map (snd \<circ> snd \<circ> snd) (component_references array j n c)" for array n c
    unfolding component_references_def Let_def
    by (simp add: map_concat comp_def split_def option.case_distrib [where h = "map _"] cong: option.case_cong)
  then show ?thesis by (simp add: block_references_def map_concat comp_def split_def)
qed

definition unnumbered :: "sql_source \<Rightarrow> sql_source" where "unnumbered s = s\<lparr>ss_block := 0\<rparr>"

lemma sources_numbered: "map unnumbered (sql_sources v i) = map unnumbered (sql_sources v j)"
proof -
  have "map unnumbered (candidate_source array i n c s) = map unnumbered (candidate_source array j n c s)" for array n c s
    by (simp add: candidate_source_def unnumbered_def split: option.splits)
  then show ?thesis by (simp add: sql_sources_def component_sources_def map_concat comp_def split_def)
qed

lemma run_numbered:
  assumes "\<And>s t. dry_run (unnumbered s) t = dry_run s t"
  shows "map unnumbered ss = map unnumbered ss' \<Longrightarrow> sources_run dry_run ss t t' \<longleftrightarrow> sources_run dry_run ss' t t'"
proof (induction ss arbitrary: ss' t)
  case (Cons s ss)
  then obtain s' rest where ss': "ss' = s' # rest" "unnumbered s = unnumbered s'" "map unnumbered ss = map unnumbered rest" by (cases ss') auto
  have "ss_sql (unnumbered s) = ss_sql s" "ss_datasource (unnumbered s) = ss_datasource s" for s by (simp_all add: unnumbered_def)
  then have "ss_sql s = ss_sql s'" "ss_datasource s = ss_datasource s'" using ss'(2) by metis+
  moreover have "dry_run s t = dry_run s' t" for t using assms ss'(2) by metis
  ultimately show ?case using Cons.IH [OF ss'(3)] unfolding ss' by simp
qed simp

lemma gathered:
  assumes "\<And>i j v. map p (g i v) = map p (g j v)" "\<forall>b \<in> set xs. good b" "\<And>b. good b \<Longrightarrow> h b = h (0, snd b)"
  shows "map p (concat (map (\<lambda>b. g (fst b) (h b)) xs)) = concat (map (\<lambda>body. map p (g 0 (h (0, body)))) (map snd xs))"
  using assms(2) assms(3) by (induction xs) (auto intro: assms(1))

lemma document_numbered:
  assumes "map snd bodies = map snd bodies'"
  shows "document_ok cl bodies \<longleftrightarrow> document_ok cl bodies'"
    and "document_ok cl bodies \<Longrightarrow> map unnumbered (document_sources cl bodies) = map unnumbered (document_sources cl bodies')"
proof -
  let ?ds = "document_defaults cl bodies"
  have ds: "document_defaults cl bodies' = ?ds" using defaults_numbered [OF assms, of cl "[]"] by (simp add: document_defaults_def)
  let ?good = "\<lambda>b. is_ok (parse_block cl (snd b) (fst b)) \<and> is_ok (resolved_block cl ?ds b)"
  have same: "?good (i, body) = ?good (j, body) \<and> (?good (i, body) \<longrightarrow> projr (resolved_block cl ?ds (i, body)) = projr (resolved_block cl ?ds (j, body)))" for i j body
    using verdict_ok [OF parse_numbered [of cl body i j]] verdict_ok [OF resolved_numbered [of cl ?ds i body j]] by auto
  have good_body: "?good b = ?good (0, snd b)" "?good b \<Longrightarrow> projr (resolved_block cl ?ds b) = projr (resolved_block cl ?ds (0, snd b))" for b
    using same [of "fst b" "snd b" 0] by auto
  have "(\<forall>b \<in> set xs. ?good b) \<longleftrightarrow> (\<forall>body \<in> set (map snd xs). ?good (0, body))" for xs using good_body(1) by auto
  from this [of bodies] this [of bodies'] have good: "(\<forall>b \<in> set bodies. ?good b) \<longleftrightarrow> (\<forall>b \<in> set bodies'. ?good b)"
    unfolding assms by blast
  let ?val = "\<lambda>b. projr (resolved_block cl ?ds b)"
  note gathers = gathered [where p = fst and g = block_names and good = ?good and h = ?val, OF names_numbered _ good_body(2)]
    gathered [where p = "snd \<circ> snd \<circ> snd" and g = block_references and good = ?good and h = ?val, OF references_numbered _ good_body(2)]
    gathered [where p = unnumbered and g = "\<lambda>i v. sql_sources v i" and good = ?good and h = ?val, OF sources_numbered _ good_body(2)]
  have parts: "document_ok cl xs \<longleftrightarrow> (\<forall>b \<in> set xs. ?good b) \<and> distinct (map fst (document_names cl xs))
      \<and> set (map (snd \<circ> snd \<circ> snd) (document_references cl xs)) \<subseteq> set (map fst (document_names cl xs))"
    if "document_defaults cl xs = ?ds" for xs
    unfolding document_ok_def that by (auto simp: split_def)
  have lists: "document_names cl xs = concat (map (\<lambda>b. block_names (fst b) (?val b)) xs)"
      "document_references cl xs = concat (map (\<lambda>b. block_references (fst b) (?val b)) xs)"
      "document_sources cl xs = concat (map (\<lambda>b. sql_sources (?val b) (fst b)) xs)"
    if "document_defaults cl xs = ?ds" for xs
    using that by (simp_all add: document_names_def document_references_def document_sources_def document_values_def comp_def)
  have equal: "map fst (document_names cl bodies) = map fst (document_names cl bodies')"
      "map (snd \<circ> snd \<circ> snd) (document_references cl bodies) = map (snd \<circ> snd \<circ> snd) (document_references cl bodies')"
      "map unnumbered (document_sources cl bodies) = map unnumbered (document_sources cl bodies')"
    if "\<forall>b \<in> set bodies. ?good b"
    using gathers(1) [OF that] gathers(1) [OF that [unfolded good]] gathers(2) [OF that] gathers(2) [OF that [unfolded good]]
      gathers(3) [OF that] gathers(3) [OF that [unfolded good]]
    unfolding lists [OF refl] lists [OF ds] assms by metis+
  show "document_ok cl bodies \<longleftrightarrow> document_ok cl bodies'"
    unfolding parts [OF refl] parts [OF ds] using good equal by metis
  show "map unnumbered (document_sources cl bodies) = map unnumbered (document_sources cl bodies')" if "document_ok cl bodies"
    using that equal(3) unfolding parts [OF refl] by blast
qed

end
