(* ===== verification/Llm_Messages.thy ===== *)
theory Llm_Messages
  imports Tool_Execution Chart_Validation Column_Enums "HOL-Library.AList"
begin

text \<open>
  What the agent exchanges with a model: messages, tool calls and responses (\<open>crates/kyomi-agent/src/types.rs\<close>),
  the tools and their filter (\<open>tools/mod.rs\<close>) and the cleaning of thoughts (\<open>thinking.rs\<close>).

  A tool is its name, its flags and its execution, which takes the outside world \<open>'t\<close>. The registry is an
  association list, one entry per name; its order stands for the hash map's, which only \<open>tool_names\<close> shows.
\<close>

subsection \<open>Messages\<close>

datatype message_role = SystemRole | UserRole | AssistantRole | ToolRole

record tool_call =
  tc_id :: string
  tc_name :: string
  tc_arguments :: json
  tc_error :: "string option"

record message =
  ms_role :: message_role
  ms_content :: string
  ms_tool_calls :: "tool_call list option"
  ms_tool_call_id :: "string option"
  ms_name :: "string option"
  ms_user :: "string option"
  ms_timestamp :: "string option"
  ms_id :: "string option"

definition text_message :: "message_role \<Rightarrow> string \<Rightarrow> message" where
  "text_message r content =
     \<lparr>ms_role = r, ms_content = content, ms_tool_calls = None, ms_tool_call_id = None, ms_name = None, ms_user = None,
      ms_timestamp = None, ms_id = None\<rparr>"

definition system_message :: "string \<Rightarrow> message" where "system_message = text_message SystemRole"
definition user_message_of :: "string \<Rightarrow> message" where "user_message_of = text_message UserRole"
definition assistant_message :: "string \<Rightarrow> message" where "assistant_message = text_message AssistantRole"

definition user_with_id :: "string \<Rightarrow> string \<Rightarrow> message" where
  "user_with_id content user = (user_message_of content)\<lparr>ms_user := Some user\<rparr>"

definition assistant_with_tool_calls :: "string \<Rightarrow> tool_call list \<Rightarrow> message" where
  "assistant_with_tool_calls content calls = (assistant_message content)\<lparr>ms_tool_calls := Some calls\<rparr>"

definition tool_result :: "string \<Rightarrow> string \<Rightarrow> string \<Rightarrow> message" where
  "tool_result call name content = (text_message ToolRole content)\<lparr>ms_tool_call_id := Some call, ms_name := Some name\<rparr>"

record agent_token_usage =
  au_input :: "32 word"
  au_output :: "32 word"
  au_cache_creation :: "32 word"
  au_cache_read :: "32 word"
  au_reasoning :: "32 word"

record llm_response =
  lr_raw :: json
  lr_content :: string
  lr_finish_reason :: string
  lr_usage :: agent_token_usage
  lr_tool_calls :: "tool_call list option"
  lr_cost :: "64 word option"
  lr_thinking :: "string option"

subsection \<open>Tools\<close>

record 't agent_tool =
  at_name :: string
  at_description :: string
  at_schema :: json
  at_copilot_only :: bool
  at_mcp_only :: bool
  at_outcome :: "string \<Rightarrow> domain_outcome"
  at_failure_outcome :: domain_outcome
  at_execute :: "json \<Rightarrow> 't \<Rightarrow> (app_error + string) \<times> 't"

record tool_definition =
  td_name :: string
  td_description :: string
  td_parameters :: json

record tool_filter =
  fi_exclude_copilot_only :: bool
  fi_exclude_mcp_only :: bool
  fi_include_only :: "string list option"

type_synonym 't registry = "(string \<times> 't agent_tool) list"

definition register_tool :: "'t agent_tool \<Rightarrow> 't registry \<Rightarrow> 't registry" where
  "register_tool t r = AList.update (at_name t) t r"

definition get_tool :: "string \<Rightarrow> 't registry \<Rightarrow> 't agent_tool option" where
  "get_tool name r = map_of r name"

definition passes_filter :: "tool_filter \<Rightarrow> 't agent_tool \<Rightarrow> bool" where
  "passes_filter f t \<longleftrightarrow>
     \<not> (fi_exclude_copilot_only f \<and> at_copilot_only t) \<and> \<not> (fi_exclude_mcp_only f \<and> at_mcp_only t)
   \<and> (case fi_include_only f of Some names \<Rightarrow> at_name t \<in> set names | None \<Rightarrow> True)"

definition get_tools :: "tool_filter \<Rightarrow> 't registry \<Rightarrow> 't agent_tool list" where
  "get_tools f r = filter (passes_filter f) (map snd r)"

text \<open>\<open>sort_by\<close> on names compares bytes and is stable.\<close>

fun insert_by_name :: "tool_definition \<Rightarrow> tool_definition list \<Rightarrow> tool_definition list" where
  "insert_by_name d [] = [d]"
| "insert_by_name d (e # es) = (if bytes_less (td_name e) (td_name d) then e # insert_by_name d es else d # e # es)"

definition get_tool_definitions :: "tool_filter \<Rightarrow> 't registry \<Rightarrow> tool_definition list" where
  "get_tool_definitions f r =
     foldr insert_by_name (map (\<lambda>t. \<lparr>td_name = at_name t, td_description = at_description t, td_parameters = at_schema t\<rparr>)
       (get_tools f r)) []"

definition tool_names :: "'t registry \<Rightarrow> string list" where "tool_names r = map fst r"

text \<open>The default reading of a result: rejected if it says so.\<close>

definition result_domain_outcome :: "(string \<Rightarrow> json option) \<Rightarrow> string \<Rightarrow> domain_outcome" where
  "result_domain_outcome parse body =
     (case parse body of
        Some v \<Rightarrow>
          if list_ex (\<lambda>k. Option.bind (json_get k v) as_bool = Some False) [''valid'', ''success'', ''saved'']
             \<or> (case json_get ''error'' v of Some e \<Rightarrow> e \<noteq> JNull | None \<Rightarrow> False)
          then DomainRejected else DomainSucceeded
      | None \<Rightarrow> DomainSucceeded)"

subsection \<open>Thoughts\<close>

text \<open>The regular expression \<open>(?is)<memory>.*?</memory>\<close>: each opening tag up to the first closing one.\<close>

fun find_ci :: "string \<Rightarrow> string \<Rightarrow> nat option" where
  "find_ci p [] = (if p = [] then Some 0 else None)"
| "find_ci p (c # s) =
     (if map to_lower (take (length p) (c # s)) = p then Some 0 else map_option Suc (find_ci p s))"

lemma find_ci_range: "find_ci p s = Some i \<Longrightarrow> i + length p \<le> length s"
  by (induction p s arbitrary: i rule: find_ci.induct) (auto split: if_splits dest: arg_cong [where f = length])

function remove_memory :: "string \<Rightarrow> string" where
  "remove_memory s =
     (case find_ci ''<memory>'' s of
        None \<Rightarrow> s
      | Some i \<Rightarrow>
          (case find_ci ''</memory>'' (drop (i + 8) s) of
             None \<Rightarrow> s
           | Some j \<Rightarrow> take i s @ remove_memory (drop (i + 8 + j + 9) s)))"
  by pat_completeness auto

termination
  by (relation "measure length") (auto dest: find_ci_range)

record cleaned_thought =
  ct_display :: string
  ct_full_text :: "string option"

definition THOUGHT_PREFIXES :: "string list" where
  "THOUGHT_PREFIXES = [''Thought: '', ''I'' @ [CHR 0x27] @ ''ll first '', ''I need to '', ''Let me '', ''I should '', ''I will '',
     ''Now I'' @ [CHR 0x27] @ ''ll '', ''Next, I'' @ [CHR 0x27] @ ''ll '', ''Response: '']"

definition SKIP_PATTERNS :: "string list" where
  "SKIP_PATTERNS = [''Action:'', ''Observation:'', ''Final Answer:'', ''Let me think about this'', ''I understand you want'']"

text \<open>The text up to and with the last character that starts before byte 200.\<close>

fun cut_at :: "nat \<Rightarrow> string \<Rightarrow> string" where
  "cut_at n [] = []"
| "cut_at n (c # s) = (if n = 0 \<and> \<not> is_continuation c then [] else c # cut_at (n - 1) s)"

definition clean_thought :: "string \<Rightarrow> cleaned_thought option" where
  "clean_thought thought =
     (let c = trim_unicode (remove_memory thought);
          d = (case find (\<lambda>p. starts_with p c) THOUGHT_PREFIXES of Some p \<Rightarrow> drop (length p) c | None \<Rightarrow> c)
      in if list_ex (\<lambda>p. contains p d) SKIP_PATTERNS \<or> length (trim_unicode d) \<le> 10 then None
         else if 200 < length d then Some \<lparr>ct_display = cut_at 200 d @ ''...'', ct_full_text = Some d\<rparr>
         else Some \<lparr>ct_display = d, ct_full_text = None\<rparr>)"

definition thought_text :: "cleaned_thought \<Rightarrow> string" where
  "thought_text t = (case ct_full_text t of Some full \<Rightarrow> full | None \<Rightarrow> ct_display t)"

end
