(* ===== verification/Agent_Loop.thy ===== *)
theory Agent_Loop
  imports Llm_Messages
begin

text \<open>
  The agent loop of \<open>crates/kyomi-agent/src/agent.rs\<close>: calls of the model, execution of its tool calls, budgets,
  validation of charts with retries, and the forced last turn without tools.

  A world holds the conversation (\<open>agent_state\<close>), the variables of one \<open>chat\<close> (\<open>chat_vars\<close>), the state \<open>'s\<close> of the
  event sink and the outside \<open>'t\<close>, which the model provider, the tools, the dry runs, the clock, the
  cancellation token, logs and callbacks read and change. With a runtime the model's answers and the tool
  calls go through \<open>complete\<close> and \<open>tool\<close> of the durable runtime; every sink call has an environment of its
  own, named by the key of the operation. A model call that \<open>select!\<close> drops because of a cancellation is cut
  after some number of its steps (\<open>ag_cut\<close>); what a dropped request did to the outside is part of \<open>ag_cut\<close>. Times
  are nanoseconds. Sums of tokens and the iteration counter wrap, as in the release profile.
\<close>

subsection \<open>Configuration and state\<close>

record agent_config =
  ag_max_iterations :: "32 word"
  ag_max_duration :: "nat option"
  ag_max_total_tokens :: "64 word option"
  ag_tool_filter :: tool_filter

record agent_state =
  as_messages :: "message list"
  as_iteration :: "32 word"
  as_last_input :: "32 word"
  as_summary :: "string option"
  as_since :: nat

definition new_agent_state :: agent_state where
  "new_agent_state = \<lparr>as_messages = [], as_iteration = 0, as_last_input = 0, as_summary = None, as_since = 0\<rparr>"

record chat_vars =
  cv_retries :: "message list"
  cv_notice :: "message option"
  cv_fired :: nat
  cv_tokens :: "64 word"
  cv_start :: nat

datatype agent_progress =
    ProgressThinking string
  | ProgressUsage "32 word" "32 word" "64 word option"
  | ProgressToolStart string json
  | ProgressToolEnd string string bool
  | ProgressPreparing

record ('v, 's) agent_runtime =
  rt_context :: execution_context
  rt_digest :: digest
  rt_sink :: "('v, json, 's) event_sink"
  rt_env :: "string \<Rightarrow> nat \<Rightarrow> 'v"

record ('v, 's, 't) agent =
  ag_config :: agent_config
  ag_runtime :: "('v, 's) agent_runtime option"
  ag_registry :: "'t registry"
  ag_provider :: "message list \<Rightarrow> tool_definition list \<Rightarrow> 't \<Rightarrow> (app_error + llm_response) \<times> 't"
  ag_response_json :: "llm_response \<Rightarrow> json"
  ag_db_text :: "db_error \<Rightarrow> string"
  ag_charts :: chart_libs
  ag_dry_run :: "string \<Rightarrow> string \<Rightarrow> 't \<Rightarrow> (sql_failure + unit) \<times> 't"
  ag_cancelled :: "'t \<Rightarrow> bool \<times> 't"
  ag_cut :: "'t \<Rightarrow> nat option \<times> 't"
  ag_now :: "'t \<Rightarrow> nat \<times> 't"
  ag_progress :: "agent_progress \<Rightarrow> 't \<Rightarrow> 't"
  ag_callback :: "agent_progress \<Rightarrow> 't \<Rightarrow> 't"
  ag_boundary :: "message list \<Rightarrow> 't \<Rightarrow> 't"
  ag_log_failure :: "string \<Rightarrow> string \<Rightarrow> string \<Rightarrow> nat \<Rightarrow> string \<Rightarrow> 't \<Rightarrow> 't"
  ag_settle_log :: "bool \<Rightarrow> 't \<Rightarrow> 't"

record ('s, 't) agent_world =
  aw_state :: agent_state
  aw_vars :: chat_vars
  aw_sink :: 's
  aw_out :: 't

subsection \<open>Budget notices and stop conditions\<close>

definition BUDGET_NOTICE_PREFIX :: string where "BUDGET_NOTICE_PREFIX = ''<system-reminder>Iteration budget:''"

definition WRAP_UP_INSTRUCTION :: string where
  "WRAP_UP_INSTRUCTION = ''<system-reminder>The tool-use budget for this turn is exhausted and no tools ''
     @ ''are available for this request. Answer the user now, using only what has already been ''
     @ ''gathered in this conversation. Say plainly which parts could not be completed, but still ''
     @ ''give the best answer the collected information supports. This notice comes from the ''
     @ ''harness, not from the user; do not quote it or reply to it.</system-reminder>''"

definition WRAP_UP_FAILED_MESSAGE :: string where
  "WRAP_UP_FAILED_MESSAGE = ''the tool-use budget for this request was exhausted and the final summary could not be ''
     @ ''generated; try rephrasing the question or breaking it into smaller parts''"

definition BUDGET_NOTICE_TENTHS :: "64 word list" where "BUDGET_NOTICE_TENTHS = [7, 9]"

definition budget_notice_thresholds :: "32 word \<Rightarrow> 32 word list" where
  "budget_notice_thresholds m = map (\<lambda>t. ucast ((ucast m :: 64 word) * t div 10)) BUDGET_NOTICE_TENTHS"

definition budget_notice_text :: "32 word \<Rightarrow> 32 word \<Rightarrow> bool \<Rightarrow> string" where
  "budget_notice_text used m final =
     (let remaining = (if used \<le> m then m - used else 0);
          guidance = (if final
            then ''Stop gathering new information and produce the final answer now from what is already ''
              @ ''in context. If the budget runs out, one further request will be made with all tools ''
              @ ''withheld.''
            else ''Begin consolidating: prefer answering from what has already been gathered over opening ''
              @ ''new lines of investigation.'')
      in BUDGET_NOTICE_PREFIX @ '' '' @ show_nat (unat used) @ '' of '' @ show_nat (unat m)
         @ '' tool-use iterations for this turn have been used, '' @ show_nat (unat remaining) @ '' remaining. '' @ guidance
         @ '' This notice comes from the harness, not from the user; do not quote it or reply to it.</system-reminder>'')"

datatype stop_reason = StopIterations | StopDeadline | StopTokenBudget

fun stop_reason_text :: "stop_reason \<Rightarrow> string" where
  "stop_reason_text StopIterations = ''iterations''"
| "stop_reason_text StopDeadline = ''deadline''"
| "stop_reason_text StopTokenBudget = ''token_budget''"

definition check_stop_conditions :: "nat option \<Rightarrow> 64 word option \<Rightarrow> nat \<Rightarrow> 64 word \<Rightarrow> stop_reason option" where
  "check_stop_conditions max_duration max_tokens elapsed tokens =
     (if (case max_duration of Some limit \<Rightarrow> limit \<le> elapsed | None \<Rightarrow> False) then Some StopDeadline
      else if (case max_tokens of Some limit \<Rightarrow> limit \<le> tokens | None \<Rightarrow> False) then Some StopTokenBudget
      else None)"

subsection \<open>Texts\<close>

definition build_metadata_prefix :: "string option \<Rightarrow> string option \<Rightarrow> string" where
  "build_metadata_prefix time source =
     (let parts = (case source of Some s \<Rightarrow> [''source: '' @ s] | None \<Rightarrow> [])
            @ (case time of Some t \<Rightarrow> [''user_local_time: '' @ t] | None \<Rightarrow> [])
      in if parts = [] then '''' else ''['' @ join '', '' parts @ ''] '')"

definition final_response_text :: "llm_response \<Rightarrow> string" where
  "final_response_text r =
     (if lr_content r = [] \<and> lr_finish_reason r = ''end_turn''
      then (case lr_thinking r of Some t \<Rightarrow> t | None \<Rightarrow> '''') else lr_content r)"

definition dash :: string where "dash = [CHR 0xE2, CHR 0x80, CHR 0x94]"
definition quoted :: "string \<Rightarrow> string" where "quoted s = [CHR 0x27] @ s @ [CHR 0x27]"

definition truncated_arguments_message :: "tool_call \<Rightarrow> string \<Rightarrow> string" where
  "truncated_arguments_message call finish_reason =
     ''Tool call '' @ quoted (tc_name call) @ '' was not executed: its arguments were cut off before they ''
     @ ''finished streaming, so they could not be parsed (''
     @ (case tc_error call of Some e \<Rightarrow> e | None \<Rightarrow> ''no further detail available'')
     @ ''). This is NOT a missing parameter '' @ dash @ '' do not resend the identical call. Instead, send the call again ''
     @ ''with a smaller payload so the full arguments fit within the response length.''
     @ (if finish_reason = ''max_tokens''
        then '' The response was truncated because it exceeded the model'' @ [CHR 0x27] @ ''s max_tokens limit.'' else '''')"

definition has_chartml_blocks :: "string \<Rightarrow> bool" where
  "has_chartml_blocks s = contains (fence @ chartml) s"

definition CHARTML_STRIPPED_NOTE :: string where
  "CHARTML_STRIPPED_NOTE = ''A chart could not be generated for this answer.''"

definition strip_chartml_blocks :: "string \<Rightarrow> nat set \<Rightarrow> string" where
  "strip_chartml_blocks s failing = strip_markdown_blocks s failing CHARTML_STRIPPED_NOTE"

definition robot :: string where "robot = [CHR 0xF0, CHR 0x9F, CHR 0xA4, CHR 0x96]"

definition retry_instruction :: "string \<Rightarrow> string" where
  "retry_instruction errors =
     robot @ '' SYSTEM: Automatic ChartML validation failed. The user has NOT seen your response yet. ''
     @ ''Please fix the following errors and then repeat your FULL response:'' @ [newline, newline] @ errors"

definition classify_chartml_error :: "string \<Rightarrow> string" where
  "classify_chartml_error e =
     (if contains ''invalid YAML'' e \<or> contains '' yaml '' e then ''yaml_parse''
      else if contains ''missing required key'' e then ''missing_key''
      else if contains ''SQL error'' e \<or> contains ''sql error'' e \<or> contains '' sql '' e then ''sql_error''
      else if contains '' schema '' e \<or> contains '' conversion '' e \<or> contains '' schema_initialization '' e then ''schema_error''
      else ''unknown'')"

definition unknown_tool_message :: "'t registry \<Rightarrow> string \<Rightarrow> string" where
  "unknown_tool_message r name =
     ''Error: Unknown tool '' @ quoted name @ ''. Available tools: '' @ join '', '' (tool_names r)"

definition tool_failed_message :: "(db_error \<Rightarrow> string) \<Rightarrow> string \<Rightarrow> app_error \<Rightarrow> string" where
  "tool_failed_message d name e = ''Tool '' @ quoted name @ '' failed: '' @ app_error_display d e"

subsection \<open>The context of a call\<close>

definition build_llm_context :: "agent_state \<Rightarrow> message list" where
  "build_llm_context st =
     (case as_summary st of
        None \<Rightarrow> as_messages st
      | Some summary \<Rightarrow>
          (case as_messages st of m # _ \<Rightarrow> if ms_role m = SystemRole then [m] else [] | [] \<Rightarrow> [])
          @ [user_message_of (''## Prior Conversation Context'' @ [newline] @ summary @ [newline, newline] @ ''---'' @ [newline]
               @ ''The above summarizes our earlier conversation. Continue from here.''),
             assistant_message (''I understand the context from our previous conversation. ''
               @ ''I'' @ [CHR 0x27] @ ''ll continue from where we left off.'')]
          @ drop (as_since st) (as_messages st))"

subsection \<open>Actions on the world\<close>

type_synonym ('a, 's, 't) agent_action = "('s, 't) agent_world \<Rightarrow> (app_error + 'a) \<times> ('s, 't) agent_world"

definition runtime_error :: "execution_error \<Rightarrow> app_error" where
  "runtime_error e = ServiceUnavailable (execution_error_display e)"

definition cancelled :: app_error where "cancelled = Internal ''Request cancelled''"

definition outside :: "('t \<Rightarrow> (app_error + 'a) \<times> 't) \<Rightarrow> ('a, 's, 't) agent_action" where
  "outside f w = (case f (aw_out w) of (r, t) \<Rightarrow> (r, w\<lparr>aw_out := t\<rparr>))"

definition ask :: "('t \<Rightarrow> 'a \<times> 't) \<Rightarrow> ('a, 's, 't) agent_action" where
  "ask f = outside (\<lambda>t. case f t of (x, t') \<Rightarrow> (Inr x, t'))"

definition effect :: "('t \<Rightarrow> 't) \<Rightarrow> (unit, 's, 't) agent_action" where
  "effect f = outside (\<lambda>t. (Inr (), f t))"

definition with_sink :: "('s \<Rightarrow> (execution_error + 'a) \<times> 's) \<Rightarrow> ('a, 's, 't) agent_action" where
  "with_sink m w = (case m (aw_sink w) of (r, s) \<Rightarrow> (map_err runtime_error r, w\<lparr>aw_sink := s\<rparr>))"

definition change_state :: "(agent_state \<Rightarrow> agent_state) \<Rightarrow> (unit, 's, 't) agent_action" where
  "change_state f w = (Inr (), w\<lparr>aw_state := f (aw_state w)\<rparr>)"

definition change_vars :: "(chat_vars \<Rightarrow> chat_vars) \<Rightarrow> (unit, 's, 't) agent_action" where
  "change_vars f w = (Inr (), w\<lparr>aw_vars := f (aw_vars w)\<rparr>)"

definition gets :: "(('s, 't) agent_world \<Rightarrow> 'a) \<Rightarrow> ('a, 's, 't) agent_action" where
  "gets f w = (Inr (f w), w)"

definition push :: "message \<Rightarrow> (unit, 's, 't) agent_action" where
  "push m = change_state (\<lambda>s. s\<lparr>as_messages := as_messages s @ [m]\<rparr>)"

definition check_cancelled :: "('v, 's, 't) agent \<Rightarrow> (unit, 's, 't) agent_action" where
  "check_cancelled a = st_then (ask (ag_cancelled a)) (\<lambda>c. if c then st_err cancelled else st_ok ())"

definition only_bare :: "('v, 's, 't) agent \<Rightarrow> (unit, 's, 't) agent_action \<Rightarrow> (unit, 's, 't) agent_action" where
  "only_bare a m = (if ag_runtime a = None then m else st_ok ())"

definition only_durable :: "('v, 's, 't) agent \<Rightarrow> (unit, 's, 't) agent_action \<Rightarrow> (unit, 's, 't) agent_action" where
  "only_durable a m = (if ag_runtime a = None then st_ok () else m)"

definition boundary :: "('v, 's, 't) agent \<Rightarrow> (unit, 's, 't) agent_action" where
  "boundary a = st_then (gets (as_messages \<circ> aw_state)) (\<lambda>ms. effect (ag_boundary a ms))"

subsection \<open>Public progress\<close>

definition model_key :: "agent_state \<Rightarrow> string" where
  "model_key s = ''model-'' @ show_nat (unat (as_iteration s))"

definition publish :: "('v, 's) agent_runtime \<Rightarrow> string \<Rightarrow> nat \<Rightarrow> (text_ref \<Rightarrow> json public_payload) \<Rightarrow> string
    \<Rightarrow> (unit, 's, 't) agent_action" where
  "publish rt suffix limit payload body w =
     (let key = model_key (aw_state w) @ suffix;
          (t, d) = text_of (rt_digest rt) (rt_context rt) key body limit
      in st_then (with_sink (es_commit (rt_sink rt) (rt_env rt key 0)
           (command (rt_digest rt) (rt_context rt) key (Public (payload t)) d))) (\<lambda>_. st_ok ()) w)"

definition record_validation :: "('v, 's, 't) agent \<Rightarrow> bool \<Rightarrow> string \<Rightarrow> (unit, 's, 't) agent_action" where
  "record_validation a passed text =
     (case ag_runtime a of
        Some rt \<Rightarrow> publish rt '':validation'' 8000 (PValidation passed) text
      | None \<Rightarrow> st_ok ())"

definition preparing :: "('v, 's, 't) agent \<Rightarrow> (unit, 's, 't) agent_action" where
  "preparing a =
     (case ag_runtime a of
        Some rt \<Rightarrow> publish rt '':preparing'' 200 PPlanning ''Preparing response''
      | None \<Rightarrow> effect (ag_progress a ProgressPreparing))"

subsection \<open>A call of the model\<close>

definition planning_texts :: "llm_response \<Rightarrow> string list" where
  "planning_texts r =
     (case Option.bind (lr_thinking r) clean_thought of Some t \<Rightarrow> [thought_text t] | None \<Rightarrow> [])
     @ (if lr_tool_calls r \<noteq> None \<and> \<not> has_chartml_blocks (lr_content r)
        then (case clean_thought (lr_content r) of Some t \<Rightarrow> [thought_text t] | None \<Rightarrow> []) else [])"

definition record_of_response :: "('v, 's, 't) agent \<Rightarrow> llm_response \<Rightarrow> json response_record" where
  "record_of_response a r =
     (let raw = (if lr_raw r = JNull then ag_response_json a r else lr_raw r); u = lr_usage r in
      \<lparr>rr_raw = raw, rr_continuation = raw, rr_candidate = lr_content r, rr_planning = planning_texts r,
       rr_usage = \<lparr>input_tokens = ucast (au_input u) + ucast (au_cache_creation u) + ucast (au_cache_read u),
         output_tokens = ucast (au_output u)\<rparr>,
       rr_cost = lr_cost r\<rparr>)"

definition provider_complete :: "('v, 's, 't) agent \<Rightarrow> message list \<Rightarrow> tool_definition list \<Rightarrow> 't
    \<Rightarrow> (execution_error + llm_response \<times> json response_record) \<times> 't" where
  "provider_complete a messages tools t =
     (case ag_provider a messages tools t of
        (Inl e, t') \<Rightarrow> (Inl (Provider (app_error_display (ag_db_text a) e)), t')
      | (Inr r, t') \<Rightarrow> (Inr (r, record_of_response a r), t'))"

definition call_llm :: "('v, 's, 't) agent \<Rightarrow> message list \<Rightarrow> tool_definition list \<Rightarrow> (llm_response, 's, 't) agent_action" where
  "call_llm a messages tools =
     (case ag_runtime a of
        None \<Rightarrow> outside (ag_provider a messages tools)
      | Some rt \<Rightarrow>
          st_then (gets (model_key \<circ> aw_state)) (\<lambda>key.
          st_then (ask (provider_complete a messages tools)) (\<lambda>answer.
          with_sink (complete (rt_digest rt) (rt_sink rt) (rt_env rt key) (rt_context rt) key answer))))"

text \<open>The commits of a response in their order, with the number of their environment, and the first of them, as
  far as they succeed.\<close>

definition response_commands :: "digest \<Rightarrow> execution_context \<Rightarrow> model_call_id \<Rightarrow> json response_record
    \<Rightarrow> (nat \<times> json append_command) list" where
  "response_commands h x model r =
     [(0, command h x (model @ '':response'') (Restricted (RProviderResponse model (rr_raw r) (rr_continuation r))) None),
      (1, command h x (model @ '':candidate'') (Restricted (RCandidate model (rr_candidate r))) None),
      (2, command h x (model @ '':usage'') (Public (PUsage model (rr_usage r) (rr_cost r))) None)]
     @ map (\<lambda>(i, body). let key = model @ '':planning:'' @ show_nat i; (t, d) = text_of h x key body 200
         in (3 + i, command h x key (Public (PPlanning t)) d)) (enumerated (rr_planning r))"

fun commit_all :: "('v, json, 's) event_sink \<Rightarrow> (nat \<Rightarrow> 'v) \<Rightarrow> (nat \<times> json append_command) list \<Rightarrow> 's
    \<Rightarrow> (execution_error + unit) \<times> 's" where
  "commit_all k ev [] = st_ok ()"
| "commit_all k ev ((i, c) # cs) = st_then (es_commit k (ev i) c) (\<lambda>_. commit_all k ev cs)"

text \<open>A call dropped after \<open>n\<close> steps: the first is the request, the others the commits.\<close>

definition dropped_call :: "('v, 's, 't) agent \<Rightarrow> message list \<Rightarrow> tool_definition list \<Rightarrow> nat \<Rightarrow> (unit, 's, 't) agent_action" where
  "dropped_call a messages tools n =
     (case n of
        0 \<Rightarrow> st_ok ()
      | Suc m \<Rightarrow>
          st_then (ask (provider_complete a messages tools)) (\<lambda>answer.
          case (ag_runtime a, answer) of
            (Some rt, Inr (_, r)) \<Rightarrow>
              st_then (gets (model_key \<circ> aw_state)) (\<lambda>key w.
              case commit_all (rt_sink rt) (rt_env rt key) (take m (response_commands (rt_digest rt) (rt_context rt) key r)) (aw_sink w) of
                (_, s) \<Rightarrow> (Inr (), w\<lparr>aw_sink := s\<rparr>))
          | _ \<Rightarrow> st_ok ()))"

definition call_or_cancel :: "('v, 's, 't) agent \<Rightarrow> message list \<Rightarrow> tool_definition list
    \<Rightarrow> (app_error + llm_response, 's, 't) agent_action" where
  "call_or_cancel a messages tools =
     st_then (ask (ag_cut a)) (\<lambda>cut.
     case cut of
       Some n \<Rightarrow> st_then (dropped_call a messages tools n) (\<lambda>_. st_err cancelled)
     | None \<Rightarrow> (\<lambda>w. case call_llm a messages tools w of (r, w') \<Rightarrow> (Inr r, w')))"

subsection \<open>Tool calls\<close>

definition announce :: "('v, 's, 't) agent \<Rightarrow> agent_progress \<Rightarrow> 't \<Rightarrow> 't" where
  "announce a p t = ag_callback a p (ag_progress a p t)"

definition execute_tool :: "('v, 's, 't) agent \<Rightarrow> tool_call \<Rightarrow> 't \<Rightarrow> string \<times> 't" where
  "execute_tool a call t =
     (case get_tool (tc_name call) (ag_registry a) of
        None \<Rightarrow> (unknown_tool_message (ag_registry a) (tc_name call), t)
      | Some t0 \<Rightarrow>
          (case at_execute t0 (tc_arguments call) (announce a (ProgressToolStart (tc_name call) (tc_arguments call)) t) of
             (Inr text, t') \<Rightarrow>
               (text, announce a (ProgressToolEnd (tc_name call) text (at_outcome t0 text = DomainSucceeded)) t')
           | (Inl e, t') \<Rightarrow>
               (let text = tool_failed_message (ag_db_text a) (tc_name call) e
                in (text, announce a (ProgressToolEnd (tc_name call) text False) t'))))"

definition runtime_tool :: "('v, 's, 't) agent \<Rightarrow> tool_call \<Rightarrow> string \<Rightarrow> 't \<Rightarrow> tool_outcome \<times> 't" where
  "runtime_tool a call finish_reason t =
     (if tc_error call \<noteq> None
      then (\<lparr>to_transport = TransportFailed, to_domain = DomainRejected, to_text = truncated_arguments_message call finish_reason\<rparr>, t)
      else case get_tool (tc_name call) (ag_registry a) of
        None \<Rightarrow> (\<lparr>to_transport = TransportFailed, to_domain = DomainRejected,
            to_text = unknown_tool_message (ag_registry a) (tc_name call)\<rparr>, t)
      | Some t0 \<Rightarrow>
          (case at_execute t0 (tc_arguments call) t of
             (Inr text, t') \<Rightarrow> (\<lparr>to_transport = TransportCompleted, to_domain = at_outcome t0 text, to_text = text\<rparr>, t')
           | (Inl e, t') \<Rightarrow> (\<lparr>to_transport = TransportFailed, to_domain = at_failure_outcome t0,
               to_text = tool_failed_message (ag_db_text a) (tc_name call) e\<rparr>, t')))"

definition durable_tool :: "('v, 's, 't) agent \<Rightarrow> ('v, 's) agent_runtime \<Rightarrow> string \<Rightarrow> tool_call \<Rightarrow> (string, 's, 't) agent_action" where
  "durable_tool a rt finish_reason call w =
     (let i = identity (rt_digest rt) (rt_context rt) ''tool''
            (''call-'' @ show_nat (unat (as_iteration (aw_state w))) @ ''-'' @ tc_id call)
      in case tool (rt_digest rt) (rt_sink rt) (rt_env rt i) (rt_context rt) (runtime_tool a call finish_reason) i
           (tc_name call) (tc_arguments call) (aw_sink w, aw_out w) of
         (r, s, t) \<Rightarrow> (map_sum runtime_error to_text r, w\<lparr>aw_sink := s, aw_out := t\<rparr>))"

definition run_tool :: "('v, 's, 't) agent \<Rightarrow> string \<Rightarrow> tool_call \<Rightarrow> (string, 's, 't) agent_action" where
  "run_tool a finish_reason call =
     (case ag_runtime a of
        Some rt \<Rightarrow> durable_tool a rt finish_reason call
      | None \<Rightarrow>
          if tc_error call \<noteq> None then st_ok (truncated_arguments_message call finish_reason)
          else ask (execute_tool a call))"

fun run_tools :: "('v, 's, 't) agent \<Rightarrow> string \<Rightarrow> tool_call list \<Rightarrow> (unit, 's, 't) agent_action" where
  "run_tools a finish_reason [] = st_ok ()"
| "run_tools a finish_reason (call # calls) =
     st_then (check_cancelled a) (\<lambda>_.
     st_then (run_tool a finish_reason call) (\<lambda>text.
     st_then (push (tool_result (tc_id call) (tc_name call) text)) (\<lambda>_.
     st_then (only_durable a (boundary a)) (\<lambda>_.
     run_tools a finish_reason calls))))"

subsection \<open>Validation of charts\<close>

text \<open>A source without a datasource is never dry-run: \<open>check_source\<close> has refused it.\<close>

definition dry_run_source :: "('v, 's, 't) agent \<Rightarrow> sql_source \<Rightarrow> 't \<Rightarrow> (sql_failure + unit) \<times> 't" where
  "dry_run_source a s =
     (case ss_datasource s of Some d \<Rightarrow> ag_dry_run a d (ss_sql s) | None \<Rightarrow> st_err \<lparr>sf_stage = '''', sf_message = ''''\<rparr>)"

definition chartml_sql_block_errors :: "('v, 's, 't) agent \<Rightarrow> string \<Rightarrow> 't \<Rightarrow> (nat \<times> string) list \<times> 't" where
  "chartml_sql_block_errors a content t =
     (case validate_blocks (ag_charts a) (dry_run_source a) (markdown_blocks content) t of
        (errors, t') \<Rightarrow> (map (\<lambda>d. (dg_block d - 1, diagnostic_text d)) errors, t'))"

definition validate_chartml_blocks_detailed :: "('v, 's, 't) agent \<Rightarrow> string \<Rightarrow> ((nat list \<times> string) option, 's, 't) agent_action" where
  "validate_chartml_blocks_detailed a content =
     st_then (ask (chartml_sql_block_errors a content)) (\<lambda>errors.
     st_ok (if errors = [] then None else Some (map fst errors, join ''; '' (map snd errors))))"

definition SQL_PASSED :: string where "SQL_PASSED = ''Response schema and SQL validation passed''"

definition log_failure :: "('v, 's, 't) agent \<Rightarrow> string \<Rightarrow> string \<Rightarrow> nat \<Rightarrow> string \<Rightarrow> (unit, 's, 't) agent_action" where
  "log_failure a content err attempt part = effect (ag_log_failure a content err (classify_chartml_error err) attempt part)"

definition validation_failed :: "('v, 's, 't) agent \<Rightarrow> string \<Rightarrow> string \<Rightarrow> (nat \<Rightarrow> nat) \<Rightarrow> string \<Rightarrow> (unit, 's, 't) agent_action" where
  "validation_failed a content err attempt part =
     st_then (record_validation a False err) (\<lambda>_.
     st_then (gets (length \<circ> cv_retries \<circ> aw_vars)) (\<lambda>n. log_failure a content err (attempt n) part))"

definition retry_later :: "message list \<Rightarrow> (unit, 's, 't) agent_action" where
  "retry_later ms = change_vars (\<lambda>v. v\<lparr>cv_retries := cv_retries v @ ms\<rparr>)"

subsection \<open>A turn\<close>

datatype turn = Again | Answer string | OutOfBudget stop_reason

text \<open>A response without tool calls.\<close>

definition final_turn :: "('v, 's, 't) agent \<Rightarrow> llm_response \<Rightarrow> (turn, 's, 't) agent_action" where
  "final_turn a r =
     (let content = final_response_text r;
          accept = st_then (effect (ag_settle_log a True)) (\<lambda>_.
            st_then (push (assistant_message content)) (\<lambda>_. st_ok (Answer content)))
      in st_then (effect (ag_callback a ProgressPreparing)) (\<lambda>_.
         st_then (preparing a) (\<lambda>_.
         if \<not> has_chartml_blocks content then accept
         else st_then (validate_chartml_blocks_detailed a content) (\<lambda>v.
           case v of
             None \<Rightarrow> st_then (record_validation a True SQL_PASSED) (\<lambda>_. accept)
           | Some (_, err) \<Rightarrow>
               st_then (validation_failed a content err (\<lambda>n. n div 2) ''chat'') (\<lambda>_.
               st_then (retry_later [assistant_message content, user_message_of (retry_instruction err)]) (\<lambda>_. st_ok Again))))))"

text \<open>A response with tool calls, and the charts of its text.\<close>

definition tool_round :: "('v, 's, 't) agent \<Rightarrow> llm_response \<Rightarrow> tool_call list \<Rightarrow> (unit, 's, 't) agent_action" where
  "tool_round a r calls =
     (let content = lr_content r in
      st_then (change_vars (\<lambda>v. v\<lparr>cv_retries := []\<rparr>)) (\<lambda>_.
      st_then (if content = [] then st_ok () else effect (ag_callback a (ProgressThinking content))) (\<lambda>_.
      st_then (if content = [] then st_ok () else only_bare a (effect (ag_progress a (ProgressThinking content)))) (\<lambda>_.
      st_then (push (assistant_with_tool_calls
        (if ag_runtime a \<noteq> None \<and> has_chartml_blocks content then '''' else content) calls)) (\<lambda>_.
      st_then (only_durable a (boundary a)) (\<lambda>_.
      st_then (check_cancelled a) (\<lambda>_.
      st_then (run_tools a (lr_finish_reason r) calls) (\<lambda>_.
      st_then (check_cancelled a) (\<lambda>_.
      boundary a)))))))))"

definition tool_turn_charts :: "('v, 's, 't) agent \<Rightarrow> string \<Rightarrow> (turn, 's, 't) agent_action" where
  "tool_turn_charts a content =
     (if \<not> has_chartml_blocks content then st_ok Again
      else st_then (validate_chartml_blocks_detailed a content) (\<lambda>v.
        case v of
          Some (_, err) \<Rightarrow>
            st_then (validation_failed a content err (\<lambda>n. n) ''chat'') (\<lambda>_.
            st_then (retry_later ((if ag_runtime a \<noteq> None then [assistant_message content] else [])
              @ [user_message_of (retry_instruction err)])) (\<lambda>_. st_ok Again))
        | None \<Rightarrow>
            st_then (record_validation a True SQL_PASSED) (\<lambda>_.
            st_then (effect (ag_settle_log a True)) (\<lambda>_.
            st_then (effect (ag_callback a ProgressPreparing)) (\<lambda>_.
            st_then (preparing a) (\<lambda>_.
            st_then (push (assistant_message content)) (\<lambda>_. st_ok (Answer content))))))))"

definition tool_turn :: "('v, 's, 't) agent \<Rightarrow> llm_response \<Rightarrow> tool_call list \<Rightarrow> (turn, 's, 't) agent_action" where
  "tool_turn a r calls = st_then (tool_round a r calls) (\<lambda>_. tool_turn_charts a (lr_content r))"

text \<open>Tokens: all input is shown, cache reads are not billed.\<close>

definition total_input :: "agent_token_usage \<Rightarrow> 32 word" where
  "total_input u = au_input u + au_cache_creation u + au_cache_read u"

definition billable :: "agent_token_usage \<Rightarrow> 64 word" where
  "billable u = ucast (au_input u) + ucast (au_cache_creation u) + ucast (au_output u)"

definition account :: "('v, 's, 't) agent \<Rightarrow> llm_response \<Rightarrow> (unit, 's, 't) agent_action" where
  "account a r =
     (let u = lr_usage r; usage = ProgressUsage (total_input u) (au_output u) (lr_cost r) in
      st_then (change_state (\<lambda>s. s\<lparr>as_last_input := total_input u\<rparr>)) (\<lambda>_.
      st_then (only_bare a (effect (ag_progress a usage))) (\<lambda>_.
      st_then (effect (ag_callback a usage)) (\<lambda>_.
      st_then (change_vars (\<lambda>v. v\<lparr>cv_tokens := cv_tokens v + billable u\<rparr>)) (\<lambda>_.
      case lr_thinking r of
        None \<Rightarrow> st_ok ()
      | Some t \<Rightarrow>
          st_then (if t = [] then st_ok () else effect (ag_callback a (ProgressThinking t))) (\<lambda>_.
          only_bare a (effect (ag_progress a (ProgressThinking t)))))))))"

definition crossed :: "agent_config \<Rightarrow> 32 word \<Rightarrow> nat" where
  "crossed c i = length (filter (\<lambda>th. th \<le> i) (budget_notice_thresholds (ag_max_iterations c)))"

definition notice_budget :: "agent_config \<Rightarrow> 32 word \<Rightarrow> chat_vars \<Rightarrow> chat_vars" where
  "notice_budget c i v =
     (if cv_fired v < crossed c i
      then v\<lparr>cv_fired := crossed c i,
        cv_notice := Some (user_message_of (budget_notice_text i (ag_max_iterations c)
          (crossed c i = length (budget_notice_thresholds (ag_max_iterations c)))))\<rparr>
      else v)"

definition llm_messages :: "('s, 't) agent_world \<Rightarrow> message list" where
  "llm_messages w =
     build_llm_context (aw_state w) @ cv_retries (aw_vars w)
     @ (case cv_notice (aw_vars w) of Some m \<Rightarrow> [m] | None \<Rightarrow> [])"

definition next_iteration :: "(unit, 's, 't) agent_action" where
  "next_iteration = change_state (\<lambda>s. s\<lparr>as_iteration := as_iteration s + 1\<rparr>)"

definition stop_now :: "('v, 's, 't) agent \<Rightarrow> (stop_reason option, 's, 't) agent_action" where
  "stop_now a =
     st_then (ask (ag_now a)) (\<lambda>now.
     gets (\<lambda>w. check_stop_conditions (ag_max_duration (ag_config a)) (ag_max_total_tokens (ag_config a))
       (now - cv_start (aw_vars w)) (cv_tokens (aw_vars w))))"

definition turn_response :: "('v, 's, 't) agent \<Rightarrow> llm_response \<Rightarrow> (turn, 's, 't) agent_action" where
  "turn_response a r =
     st_then (check_cancelled a) (\<lambda>_.
     st_then (account a r) (\<lambda>_.
     case lr_tool_calls r of None \<Rightarrow> final_turn a r | Some calls \<Rightarrow> tool_turn a r calls))"

definition agent_turn :: "('v, 's, 't) agent \<Rightarrow> 32 word \<Rightarrow> (turn, 's, 't) agent_action" where
  "agent_turn a i =
     st_then (check_cancelled a) (\<lambda>_.
     st_then (stop_now a) (\<lambda>stop.
     case stop of
       Some reason \<Rightarrow> st_ok (OutOfBudget reason)
     | None \<Rightarrow>
         st_then next_iteration (\<lambda>_.
         st_then (change_vars (notice_budget (ag_config a) i)) (\<lambda>_.
         st_then (gets llm_messages) (\<lambda>messages.
         st_then (call_or_cancel a messages (get_tool_definitions (ag_tool_filter (ag_config a)) (ag_registry a))) (\<lambda>called.
         st_then (st_lift called) (turn_response a)))))))"

subsection \<open>The loop, the forced last turn and \<open>chat\<close>\<close>

fun agent_loop :: "('v, 's, 't) agent \<Rightarrow> nat \<Rightarrow> 32 word \<Rightarrow> (turn, 's, 't) agent_action" where
  "agent_loop a 0 i = st_ok (OutOfBudget StopIterations)"
| "agent_loop a (Suc n) i =
     st_then (agent_turn a i) (\<lambda>turn. case turn of Again \<Rightarrow> agent_loop a n (i + 1) | _ \<Rightarrow> st_ok turn)"

definition degrade :: "('v, 's, 't) agent \<Rightarrow> string \<Rightarrow> (string, 's, 't) agent_action" where
  "degrade a content =
     (if \<not> has_chartml_blocks content then st_ok content
      else st_then (validate_chartml_blocks_detailed a content) (\<lambda>v.
        case v of
          Some (failing, err) \<Rightarrow>
            st_then (validation_failed a content err (\<lambda>n. n) ''chat_wrap_up'') (\<lambda>_.
            st_ok (strip_chartml_blocks content (set failing)))
        | None \<Rightarrow> st_then (record_validation a True SQL_PASSED) (\<lambda>_. st_ok content)))"

definition wrap_up_messages :: "('s, 't) agent_world \<Rightarrow> message list" where
  "wrap_up_messages w =
     build_llm_context (aw_state w) @ cv_retries (aw_vars w) @ [user_message_of WRAP_UP_INSTRUCTION]"

definition wrap_up :: "('v, 's, 't) agent \<Rightarrow> (string, 's, 't) agent_action" where
  "wrap_up a =
     st_then (effect (ag_settle_log a False)) (\<lambda>_.
     st_then (check_cancelled a) (\<lambda>_.
     st_then (gets wrap_up_messages) (\<lambda>messages.
     st_then (effect (ag_callback a ProgressPreparing)) (\<lambda>_.
     st_then (preparing a) (\<lambda>_.
     st_then next_iteration (\<lambda>_.
     st_then (call_or_cancel a messages []) (\<lambda>called.
     case called of
       Inl _ \<Rightarrow> st_err (Internal WRAP_UP_FAILED_MESSAGE)
     | Inr r \<Rightarrow>
         st_then (degrade a (final_response_text r)) (\<lambda>content.
         st_then (push (assistant_message content)) (\<lambda>_. st_ok content)))))))))"

definition request_message :: "string option \<Rightarrow> string option \<Rightarrow> string option \<Rightarrow> string \<Rightarrow> message" where
  "request_message time source user text =
     (let full = build_metadata_prefix time source @ text in
      case user of Some u \<Rightarrow> user_with_id full u | None \<Rightarrow> user_message_of full)"

definition fresh_vars :: "nat \<Rightarrow> chat_vars" where
  "fresh_vars now = \<lparr>cv_retries = [], cv_notice = None, cv_fired = 0, cv_tokens = 0, cv_start = now\<rparr>"

definition chat :: "('v, 's, 't) agent \<Rightarrow> string \<Rightarrow> string option \<Rightarrow> string option \<Rightarrow> string option
    \<Rightarrow> (string, 's, 't) agent_action" where
  "chat a text time source user =
     st_then (push (request_message time source user text)) (\<lambda>_.
     st_then (ask (ag_now a)) (\<lambda>now.
     st_then (change_vars (\<lambda>_. fresh_vars now)) (\<lambda>_.
     st_then (agent_loop a (unat (ag_max_iterations (ag_config a))) 0) (\<lambda>turn.
     case turn of Answer content \<Rightarrow> st_ok content | _ \<Rightarrow> wrap_up a))))"

end

