(* ===== verification/Agent_Guarantees.thy ===== *)
theory Agent_Guarantees
  imports Agent_Loop
begin

text \<open>
  What one \<open>chat\<close> of the agent promises: the shape of the conversation it leaves, the calls of the model it can
  cost, the charts of its answer and the errors it can end with. An action of the loop is judged by the messages it
  appends (\<open>emits\<close>), what it costs (\<open>within\<close>), the state of the outside it leads to (\<open>leads\<close>) and the errors it
  raises (\<open>raises\<close>); the rules for \<open>st_then\<close> carry each judgement through the loop.
\<close>

subsection \<open>Messages appended\<close>

abbreviation messages_of :: "('s, 't) agent_world \<Rightarrow> message list" where "messages_of w \<equiv> as_messages (aw_state w)"

definition emits :: "('a, 's, 't) agent_action \<Rightarrow> (app_error + 'a \<Rightarrow> message list \<Rightarrow> bool) \<Rightarrow> bool" where
  "emits m P \<longleftrightarrow> (\<forall>w r w'. m w = (r, w') \<longrightarrow> (\<exists>ms. messages_of w' = messages_of w @ ms \<and> P r ms))"

abbreviation quiet :: "('a, 's, 't) agent_action \<Rightarrow> bool" where "quiet m \<equiv> emits m (\<lambda>_ ms. ms = [])"

lemma emitsI: "(\<And>w r w'. m w = (r, w') \<Longrightarrow> \<exists>ms. messages_of w' = messages_of w @ ms \<and> P r ms) \<Longrightarrow> emits m P"
  by (simp add: emits_def)

lemma emitsE: "emits m P \<Longrightarrow> m w = (r, w') \<Longrightarrow> \<exists>ms. messages_of w' = messages_of w @ ms \<and> P r ms"
  by (simp add: emits_def)

lemma emits_mono: "emits m P \<Longrightarrow> (\<And>r ms. P r ms \<Longrightarrow> Q r ms) \<Longrightarrow> emits m Q"
  unfolding emits_def by meson

lemma emits_then:
  assumes "emits m P" "\<And>x. emits (f x) (Q x)" "\<And>e ms. P (Inl e) ms \<Longrightarrow> R (Inl e) ms"
    and "\<And>x r ms ns. P (Inr x) ms \<Longrightarrow> Q x r ns \<Longrightarrow> R r (ms @ ns)"
  shows "emits (st_then m f) R"
proof (rule emitsI)
  fix w r w' assume run: "st_then m f w = (r, w')"
  obtain r1 w1 where m: "m w = (r1, w1)" by fastforce
  with emitsE [OF assms(1)] obtain ms where ms: "messages_of w1 = messages_of w @ ms" "P r1 ms" by blast
  show "\<exists>ms. messages_of w' = messages_of w @ ms \<and> R r ms"
  proof (cases r1)
    case (Inl e)
    with run m ms assms(3) show ?thesis by auto
  next
    case (Inr x)
    with run m have "f x w1 = (r, w')" by simp
    with emitsE [OF assms(2)] obtain ns where "messages_of w' = messages_of w1 @ ns" "Q x r ns" by blast
    with ms Inr assms(4) show ?thesis by (intro exI [of _ "ms @ ns"]) auto
  qed
qed

lemma quiet_then: "quiet m \<Longrightarrow> (\<And>x. emits (f x) P) \<Longrightarrow> (\<And>e. P (Inl e) []) \<Longrightarrow> emits (st_then m f) P"
  by (erule emits_then) auto

lemma quiet_pure [intro, simp]: "quiet (st_ok x)" "quiet (st_err e)" "quiet (st_lift r)"
  by (simp_all add: emits_def st_simps)

lemma quiet_basic [intro, simp]: "quiet (outside f)" "quiet (ask g)" "quiet (effect h)" "quiet (with_sink k)" "quiet (change_vars v)" "quiet (gets q)"
  by (auto simp: emits_def outside_def ask_def effect_def with_sink_def change_vars_def gets_def split: prod.splits)

lemma quiet_state: "(\<And>s. as_messages (f s) = as_messages s) \<Longrightarrow> quiet (change_state f)"
  by (auto simp: emits_def change_state_def)

lemma emits_push: "emits (push m) (\<lambda>r ms. r = Inr () \<and> ms = [m])"
  by (auto simp: emits_def push_def change_state_def)

lemma quiet_if [intro]: "quiet m \<Longrightarrow> quiet n \<Longrightarrow> quiet (if b then m else n)" by simp

lemma quiet_checks [intro, simp]:
  "quiet (check_cancelled a)" "quiet (boundary a)" "quiet next_iteration" "quiet (stop_now a)"
  by (auto simp: check_cancelled_def boundary_def next_iteration_def stop_now_def intro!: quiet_then quiet_state)

lemma quiet_only [intro]: "quiet m \<Longrightarrow> quiet (only_bare a m)" "quiet m \<Longrightarrow> quiet (only_durable a m)"
  by (auto simp: only_bare_def only_durable_def)

lemma quiet_publish [intro, simp]: "quiet (publish rt suffix limit payload body)"
  unfolding publish_def Let_def emits_def
  by (auto simp: st_then_def with_sink_def st_simps split: prod.splits sum.splits)

lemma quiet_reports [intro, simp]: "quiet (record_validation a passed text)" "quiet (preparing a)"
    "quiet (validate_chartml_blocks_detailed a content)" "quiet (validation_failed a content err attempt part)" "quiet (retry_later ms)"
  by (auto simp: record_validation_def preparing_def validate_chartml_blocks_detailed_def validation_failed_def log_failure_def
      retry_later_def intro!: quiet_then split: option.splits)

lemma quiet_call_llm: "quiet (call_llm a messages tools)"
  by (auto simp: call_llm_def intro!: quiet_then split: option.splits)

lemma quiet_dropped [intro, simp]: "quiet (dropped_call a messages tools n)"
proof -
  have "quiet (\<lambda>w. case commit_all k ev (take m (c key)) (aw_sink w) of (_, s) \<Rightarrow> (Inr (), w\<lparr>aw_sink := s\<rparr>))" for k ev m c and key :: string
    by (auto simp: emits_def split: prod.splits)
  then show ?thesis
    by (auto simp: dropped_call_def intro!: quiet_then split: nat.splits option.splits sum.splits prod.splits)
qed

lemma quiet_call [intro, simp]: "quiet (call_or_cancel a messages tools)"
proof -
  have "quiet (\<lambda>w. case call_llm a messages tools w of (r, w') \<Rightarrow> (Inr r, w'))"
    using quiet_call_llm [of a messages tools] by (auto simp: emits_def split: prod.splits)
  then show ?thesis by (auto simp: call_or_cancel_def intro!: quiet_then split: option.splits)
qed

lemma quiet_account [intro, simp]: "quiet (account a r)"
  by (auto simp: account_def Let_def intro!: quiet_then quiet_state quiet_only split: option.splits)

subsection \<open>The shape of a conversation\<close>

text \<open>The results of tool calls in their order, as far as there are texts; a sequence of complete rounds, and a round
  that an error may have cut short. A round keeps the text the model wrote beside its calls; with a runtime a
  text with a chart block is left out of it.\<close>

definition round_text :: "('v, 's, 't) agent \<Rightarrow> string \<Rightarrow> bool" where
  "round_text a content \<longleftrightarrow> (ag_runtime a \<noteq> None \<longrightarrow> \<not> has_chartml_blocks content)"

definition results_of :: "tool_call list \<Rightarrow> string list \<Rightarrow> message list" where
  "results_of calls texts = map (\<lambda>(c, t). tool_result (tc_id c) (tc_name c) t) (zip calls texts)"

inductive transcript :: "('v, 's, 't) agent \<Rightarrow> message list \<Rightarrow> bool" for a where
  no_round [simp]: "transcript a []"
| next_round: "transcript a ms \<Longrightarrow> round_text a content \<Longrightarrow> length texts = length calls \<Longrightarrow>
    transcript a (ms @ assistant_with_tool_calls content calls # results_of calls texts)"

definition unfinished :: "('v, 's, 't) agent \<Rightarrow> message list \<Rightarrow> bool" where
  "unfinished a ms \<longleftrightarrow> ms = [] \<or> (\<exists>content calls texts. round_text a content \<and> length texts \<le> length calls
     \<and> ms = assistant_with_tool_calls content calls # results_of calls texts)"

fun turn_shape :: "('v, 's, 't) agent \<Rightarrow> app_error + turn \<Rightarrow> message list \<Rightarrow> bool" where
  "turn_shape a (Inl e) ms \<longleftrightarrow> (\<exists>done part. transcript a done \<and> unfinished a part \<and> ms = done @ part)"
| "turn_shape a (Inr (Answer content)) ms \<longleftrightarrow> (\<exists>done. transcript a done \<and> ms = done @ [assistant_message content])"
| "turn_shape a (Inr _) ms \<longleftrightarrow> transcript a ms"

definition chat_shape :: "('v, 's, 't) agent \<Rightarrow> app_error + string \<Rightarrow> message list \<Rightarrow> bool" where
  "chat_shape a r = turn_shape a (map_sum id Answer r)"

lemma results_simps [simp]: "results_of calls [] = []" "results_of [] texts = []"
  "results_of (c # calls) (t # texts) = tool_result (tc_id c) (tc_name c) t # results_of calls texts"
  by (simp_all add: results_of_def)

lemma transcript_append: "transcript a ns \<Longrightarrow> transcript a ms \<Longrightarrow> transcript a (ms @ ns)"
  by (induction rule: transcript.induct) (auto simp flip: append_assoc intro: transcript.intros)

lemma one_round: "round_text a content \<Longrightarrow> length texts = length calls \<Longrightarrow> transcript a (assistant_with_tool_calls content calls # results_of calls texts)"
  using next_round [OF no_round] by fastforce

lemma unfinished_empty [simp]: "unfinished a []" by (simp add: unfinished_def)

lemma turn_shape_append:
  assumes "transcript a done" "turn_shape a r ms"
  shows "turn_shape a r (done @ ms)"
  using assms transcript_append by (cases "(a, r, ms)" rule: turn_shape.cases) (force simp flip: append_assoc)+

lemma shape_error_empty [simp]: "turn_shape a (Inl e) []" using no_round by fastforce

lemma emits_tools:
  "emits (run_tools a finish_reason calls)
    (\<lambda>r ms. \<exists>texts. ms = results_of calls texts \<and> (if is_ok r then length texts = length calls else length texts \<le> length calls))"
proof (induction calls)
  case (Cons call calls)
  have tool: "quiet (run_tool a finish_reason call)"
  proof (cases "ag_runtime a")
    case (Some rt)
    then show ?thesis by (auto simp: run_tool_def durable_tool_def emits_def Let_def split: prod.splits)
  qed (auto simp: run_tool_def)
  have durable: "quiet (only_durable a (boundary a))" by (intro quiet_only quiet_checks)
  have rest: "emits (st_then (only_durable a (boundary a)) (\<lambda>_. run_tools a finish_reason calls))
      (\<lambda>r ms. \<exists>texts. ms = results_of calls texts \<and> (if is_ok r then length texts = length calls else length texts \<le> length calls))"
    by (rule quiet_then [OF durable Cons.IH]) (auto simp: is_ok_def intro: exI [of _ "[]"])
  have pushed: "emits (st_then (push (tool_result (tc_id call) (tc_name call) t))
        (\<lambda>_. st_then (only_durable a (boundary a)) (\<lambda>_. run_tools a finish_reason calls)))
      (\<lambda>r ms. \<exists>texts. ms = results_of (call # calls) texts
        \<and> (if is_ok r then length texts = length (call # calls) else length texts \<le> length (call # calls)))" for t
  proof (rule emits_then [OF emits_push rest], goal_cases)
    case (2 x r ms ns)
    then obtain texts where "ns = results_of calls texts"
        "if is_ok r then length texts = length calls else length texts \<le> length calls" by blast
    with 2 show ?case by (intro exI [of _ "t # texts"]) (auto split: if_splits)
  qed simp
  show ?case unfolding run_tools.simps
    by (rule quiet_then [OF quiet_checks(1)], rule quiet_then [OF tool], rule pushed)
      (auto simp: is_ok_def intro!: exI [of _ "[]"])
qed (auto simp: emits_def st_simps is_ok_def)

lemma kept_text: "round_text a (if ag_runtime a \<noteq> None \<and> has_chartml_blocks content then '''' else content)"
proof -
  have "\<not> has_chartml_blocks ''''" by code_simp
  then show ?thesis by (simp add: round_text_def)
qed

lemma emits_round:
  "emits (tool_round a r calls) (\<lambda>r ms. if is_ok r then \<exists>content texts. round_text a content \<and> length texts = length calls
     \<and> ms = assistant_with_tool_calls content calls # results_of calls texts else unfinished a ms)"
proof -
  let ?P = "\<lambda>r ms. \<exists>texts. ms = results_of calls texts \<and> (if is_ok r then length texts = length calls else length texts \<le> length calls)"
  have none: "?P (Inl e) []" for e by (auto simp: is_ok_def intro!: exI [of _ "[]"])
  have after: "quiet (st_then (check_cancelled a) (\<lambda>_. boundary a))" by (rule quiet_then) auto
  have tools: "emits (st_then (run_tools a (lr_finish_reason r) calls) (\<lambda>_. st_then (check_cancelled a) (\<lambda>_. boundary a))) ?P"
    by (rule emits_then [OF emits_tools after]) (auto simp: is_ok_def split: sum.splits)
  have tools: "emits (st_then (only_durable a (boundary a)) (\<lambda>_. st_then (check_cancelled a) (\<lambda>_.
      st_then (run_tools a (lr_finish_reason r) calls) (\<lambda>_. st_then (check_cancelled a) (\<lambda>_. boundary a))))) ?P"
    by (rule quiet_then [OF quiet_only(2) [OF quiet_checks(2)]], rule quiet_then [OF quiet_checks(1) tools]) (rule none)+
  note said = quiet_if [OF quiet_pure(1) quiet_basic(3)] quiet_if [OF quiet_pure(1) quiet_only(1) [OF quiet_basic(3)]]
  show ?thesis unfolding tool_round_def Let_def
    by (rule quiet_then [OF quiet_basic(5)], rule quiet_then [OF said(1)], rule quiet_then [OF said(2)], rule emits_then [OF emits_push tools])
      (use kept_text [of a "lr_content r"] in \<open>auto simp: unfinished_def is_ok_def split del: if_split split: sum.splits\<close>)
qed

lemma emits_ok: "emits (st_ok x) (\<lambda>r ms. r = Inr x \<and> ms = [])"
  by (simp add: emits_def st_simps)

lemma emits_answer: "emits (st_then (push (assistant_message content)) (\<lambda>_. st_ok (Answer content))) (turn_shape a)"
  by (rule emits_then [OF emits_push emits_ok]) (auto intro: no_round)

lemma quiet_again: "quiet m \<Longrightarrow> emits (st_then m (\<lambda>_. st_ok Again)) (turn_shape a)"
  by (erule quiet_then) (auto simp: emits_def st_simps intro: no_round)

lemma emits_accept:
  "emits (st_then (effect f) (\<lambda>_. st_then (push (assistant_message content)) (\<lambda>_. st_ok (Answer content)))) (turn_shape a)"
  by (rule quiet_then [OF quiet_basic(3) emits_answer]) simp

lemma emits_final: "emits (final_turn a r) (turn_shape a)"
proof -
  have rejected: "emits (st_then m (\<lambda>_. st_then (retry_later ms) (\<lambda>_. st_ok Again))) (turn_shape a)" if "quiet m" for m :: "(unit, 's, 't) agent_action" and ms
    by (rule quiet_then [OF that quiet_again]) auto
  have passed: "emits (st_then m (\<lambda>_. st_then (effect f) (\<lambda>_. st_then (push (assistant_message content)) (\<lambda>_. st_ok (Answer content))))) (turn_shape a)"
    if "quiet m" for m :: "(unit, 's, 't) agent_action" and f content
    by (rule quiet_then [OF that emits_accept]) simp
  show ?thesis unfolding final_turn_def Let_def
    by (rule quiet_then [OF quiet_basic(3)], rule quiet_then [OF quiet_reports(2)])
      (auto simp: emits_accept intro!: quiet_then [OF quiet_reports(3)] passed rejected split: option.splits)
qed

lemma emits_charts: "emits (tool_turn_charts a content) (turn_shape a)"
proof -
  have rejected: "emits (st_then m (\<lambda>_. st_then (retry_later ms) (\<lambda>_. st_ok Again))) (turn_shape a)" if "quiet m" for m :: "(unit, 's, 't) agent_action" and ms
    by (rule quiet_then [OF that quiet_again]) auto
  have passed: "emits (st_then (record_validation a True t) (\<lambda>_. st_then (effect f) (\<lambda>_. st_then (effect g) (\<lambda>_. st_then (preparing a) (\<lambda>_.
      st_then (push (assistant_message content)) (\<lambda>_. st_ok (Answer content))))))) (turn_shape a)" for t f g
    by (rule quiet_then [OF quiet_reports(1)], rule quiet_then [OF quiet_basic(3)], rule quiet_then [OF quiet_basic(3)],
        rule quiet_then [OF quiet_reports(2) emits_answer]) simp_all
  have again: "emits (st_ok Again) (turn_shape a)" by (auto simp: emits_def st_simps intro: no_round)
  show ?thesis unfolding tool_turn_charts_def
    by (auto intro!: again quiet_then [OF quiet_reports(3)] passed rejected split: option.splits)
qed

lemma emits_tool_turn: "emits (tool_turn a r calls) (turn_shape a)"
  unfolding tool_turn_def
proof (rule emits_then [OF emits_round emits_charts], goal_cases)
  case (1 e ms)
  then have "unfinished a ms" by (simp add: is_ok_def)
  then show ?case unfolding turn_shape.simps by (intro exI [of _ "[]"] exI [of _ ms]) simp
next
  case (2 x r ms ns)
  then have "transcript a ms" using one_round by (fastforce simp: is_ok_def)
  with 2 show ?case by (auto intro: turn_shape_append)
qed

lemma emits_turn: "emits (agent_turn a i) (turn_shape a)"
proof -
  have response: "emits (turn_response a r) (turn_shape a)" for r
    unfolding turn_response_def
    by (rule quiet_then [OF quiet_checks(1)], rule quiet_then [OF quiet_account])
      (auto simp: emits_final emits_tool_turn split: option.splits)
  have stop: "emits (st_ok (OutOfBudget reason)) (turn_shape a)" for reason by (auto simp: emits_def st_simps intro: no_round)
  have call: "emits (st_then next_iteration (\<lambda>_. st_then (change_vars f) (\<lambda>_. st_then (gets llm_messages) (\<lambda>messages.
      st_then (call_or_cancel a messages tools) (\<lambda>called. st_then (st_lift called) (turn_response a)))))) (turn_shape a)" for f tools
    by (rule quiet_then [OF quiet_checks(3)], rule quiet_then [OF quiet_basic(5)], rule quiet_then [OF quiet_basic(6)],
        rule quiet_then [OF quiet_call], rule quiet_then [OF quiet_pure(3) response]) simp_all
  show ?thesis unfolding agent_turn_def
    by (rule quiet_then [OF quiet_checks(1)], rule quiet_then [OF quiet_checks(4)]) (auto simp: stop call split: option.splits)
qed

lemma emits_loop: "emits (agent_loop a n i) (turn_shape a)"
proof (induction n arbitrary: i)
  case (Suc n)
  let ?next = "\<lambda>turn. case turn of Again \<Rightarrow> agent_loop a n (i + 1) | _ \<Rightarrow> st_ok turn"
  have rest: "emits (?next turn) (\<lambda>r ms. if turn = Again then turn_shape a r ms else r = Inr turn \<and> ms = [])" for turn
    using Suc emits_ok by (cases turn) auto
  show ?case unfolding agent_loop.simps
  proof (rule emits_then [OF emits_turn rest], goal_cases)
    case (2 turn r ms ns)
    then show ?case by (cases turn) (auto intro: turn_shape_append)
  qed simp
qed (auto simp: emits_def st_simps intro: no_round)

lemma emits_wrap_up: "emits (wrap_up a) (chat_shape a)"
proof -
  have none: "chat_shape a (Inl e) []" for e by (simp add: chat_shape_def)
  have degrade: "quiet (degrade a content)" for content
    unfolding degrade_def by (auto intro!: quiet_then [OF quiet_reports(3)] quiet_then [OF quiet_reports(4)] quiet_then [OF quiet_reports(1)] split: option.splits)
  have answer: "emits (st_then (push (assistant_message content)) (\<lambda>_. st_ok content)) (chat_shape a)" for content
    by (rule emits_then [OF emits_push emits_ok]) (auto simp: chat_shape_def intro: no_round)
  have failed: "emits (st_err e) (chat_shape a)" for e using none by (simp add: emits_def st_simps)
  have end_turn: "emits (case called of Inl _ \<Rightarrow> st_err (Internal WRAP_UP_FAILED_MESSAGE)
      | Inr r \<Rightarrow> st_then (degrade a (final_response_text r)) (\<lambda>content. st_then (push (assistant_message content)) (\<lambda>_. st_ok content))) (chat_shape a)"
    for called :: "app_error + llm_response"
    by (cases called) (auto simp: failed none intro!: quiet_then [OF degrade answer])
  show ?thesis unfolding wrap_up_def
    by (rule quiet_then [OF quiet_basic(3)], rule quiet_then [OF quiet_checks(1)], rule quiet_then [OF quiet_basic(6)],
        rule quiet_then [OF quiet_basic(3)], rule quiet_then [OF quiet_reports(2)], rule quiet_then [OF quiet_checks(3)],
        rule quiet_then [OF quiet_call end_turn]) (rule none)+
qed


subsection \<open>Calls of the model\<close>

text \<open>A count \<open>f\<close> of the outside that a request raises by at most the cost of its tools, and nothing else raises.\<close>

definition counts :: "('t \<Rightarrow> nat) \<Rightarrow> (tool_definition list \<Rightarrow> nat) \<Rightarrow> ('v, 's, 't) agent \<Rightarrow> bool" where
  "counts f cost a \<longleftrightarrow>
     (\<forall>ms tools t. f (snd (ag_provider a ms tools t)) \<le> f t + cost tools)
   \<and> (\<forall>t. f (snd (ag_cancelled a t)) \<le> f t \<and> f (snd (ag_cut a t)) \<le> f t \<and> f (snd (ag_now a t)) \<le> f t)
   \<and> (\<forall>p t. f (ag_progress a p t) \<le> f t \<and> f (ag_callback a p t) \<le> f t)
   \<and> (\<forall>ms t. f (ag_boundary a ms t) \<le> f t)
   \<and> (\<forall>b c d n e t. f (ag_log_failure a b c d n e t) \<le> f t) \<and> (\<forall>b t. f (ag_settle_log a b t) \<le> f t)
   \<and> (\<forall>d q t. f (snd (ag_dry_run a d q t)) \<le> f t)
   \<and> (\<forall>name found j t. get_tool name (ag_registry a) = Some found \<longrightarrow> f (snd (at_execute found j t)) \<le> f t)"

text \<open>An action costs at most \<open>n\<close> and at most \<open>k\<close> iterations.\<close>

definition within :: "('t \<Rightarrow> nat) \<Rightarrow> nat \<Rightarrow> nat \<Rightarrow> ('a, 's, 't) agent_action \<Rightarrow> bool" where
  "within f n k m \<longleftrightarrow> (\<forall>w r w'. m w = (r, w') \<longrightarrow> f (aw_out w') \<le> f (aw_out w) + n
     \<and> (\<exists>j \<le> k. as_iteration (aw_state w') = as_iteration (aw_state w) + word_of_nat j))"

abbreviation still :: "('t \<Rightarrow> nat) \<Rightarrow> ('a, 's, 't) agent_action \<Rightarrow> bool" where "still f m \<equiv> within f 0 0 m"

lemma within_then:
  assumes "within f n k m" "\<And>x. within f n' k' (g x)"
  shows "within f (n + n') (k + k') (st_then m g)"
  unfolding within_def
proof (intro allI impI)
  fix w r w' assume run: "st_then m g w = (r, w')"
  obtain r1 w1 where m: "m w = (r1, w1)" by fastforce
  with assms(1) obtain j where j: "f (aw_out w1) \<le> f (aw_out w) + n" "j \<le> k"
      "as_iteration (aw_state w1) = as_iteration (aw_state w) + word_of_nat j"
    unfolding within_def by blast
  show "f (aw_out w') \<le> f (aw_out w) + (n + n')
      \<and> (\<exists>j \<le> k + k'. as_iteration (aw_state w') = as_iteration (aw_state w) + word_of_nat j)"
  proof (cases r1)
    case (Inl e)
    with run m j show ?thesis by (intro conjI exI [of _ j]) auto
  next
    case (Inr x)
    with run m have "g x w1 = (r, w')" by simp
    with assms(2) obtain i where "f (aw_out w') \<le> f (aw_out w1) + n'" "i \<le> k'"
        "as_iteration (aw_state w') = as_iteration (aw_state w1) + word_of_nat i"
      unfolding within_def by blast
    with j show ?thesis by (intro conjI exI [of _ "j + i"]) (auto simp: add.assoc)
  qed
qed

lemma within_mono: "within f n k m \<Longrightarrow> n \<le> n' \<Longrightarrow> k \<le> k' \<Longrightarrow> within f n' k' m"
  unfolding within_def by (meson add_left_mono le_trans)

lemma still_then: "still f m \<Longrightarrow> (\<And>x. within f n k (g x)) \<Longrightarrow> within f n k (st_then m g)"
  using within_then [of f 0 0 m n k g] by simp

lemma still_pure [intro, simp]: "still f (st_ok x)" "still f (st_err e)" "still f (st_lift r)"
    "still f (with_sink k)" "still f (change_vars v)" "still f (gets q)" "still f (push m)"
  by (auto simp: within_def st_simps with_sink_def change_vars_def gets_def push_def change_state_def split: prod.splits)

lemma still_state: "(\<And>s. as_iteration (g s) = as_iteration s) \<Longrightarrow> still f (change_state g)"
  by (auto simp: within_def change_state_def)

lemma within_outside: "(\<And>t. f (snd (g t)) \<le> f t + n) \<Longrightarrow> within f n 0 (outside g)"
  by (auto simp: within_def outside_def split: prod.splits) (metis snd_conv)+

lemma within_ask: "(\<And>t. f (snd (g t)) \<le> f t + n) \<Longrightarrow> within f n 0 (ask g)"
  unfolding ask_def by (rule within_outside) (simp split: prod.splits, metis snd_conv)

lemma still_ask: "(\<And>t. f (snd (g t)) \<le> f t) \<Longrightarrow> still f (ask g)" by (rule within_ask) simp
lemma still_effect: "(\<And>t. f (g t) \<le> f t) \<Longrightarrow> still f (effect g)" unfolding effect_def by (rule within_outside) simp

lemma still_if [intro]: "still f m \<Longrightarrow> still f n \<Longrightarrow> still f (if b then m else n)" by simp

text \<open>What leaves the outside to a dry run.\<close>

lemma check_source_counts: fixes f :: "'w \<Rightarrow> nat" shows "(\<And>t. f (snd (dry_run s t)) \<le> f t) \<Longrightarrow> f (snd (check_source dry_run s t)) \<le> f t"
  by (auto simp: check_source_def check_sql_parameters_def st_simps split: option.splits)

lemma check_sources_counts:
  fixes f :: "'w \<Rightarrow> nat"
  shows "(\<And>s t. f (snd (dry_run s t)) \<le> f t) \<Longrightarrow> f (snd (check_sources dry_run ss failed t)) \<le> f t"
proof (induction ss arbitrary: failed t)
  case (Cons s ss)
  obtain r t1 where r: "check_source dry_run s t = (r, t1)" by fastforce
  from check_source_counts [of f dry_run s t] Cons.prems r have t1: "f t1 \<le> f t" by simp
  have "f (snd (check_sources dry_run ss g t1)) \<le> f t" for g using Cons.IH [OF Cons.prems, of g t1] t1 by simp
  with r show ?case by (auto split: sum.splits prod.splits) (metis snd_conv)+
qed simp

lemma validate_round_counts:
  fixes f :: "'w \<Rightarrow> nat"
  assumes "\<And>s t. f (snd (dry_run s t)) \<le> f t"
  shows "f (snd (validate_round cl dry_run bodies t)) \<le> f t"
proof -
  have "f t' \<le> f t" if "check_sources dry_run ss failed t = (x, t')" for ss failed x t'
    using check_sources_counts [of f dry_run ss failed t, OF assms] that by simp
  then show ?thesis unfolding validate_round_def Let_def by (auto split: prod.splits)
qed

lemma validate_loop_counts:
  fixes f :: "'w \<Rightarrow> nat"
  shows "(\<And>s t. f (snd (dry_run s t)) \<le> f t) \<Longrightarrow> f (snd (validate_loop cl dry_run blocks failed errors t)) \<le> f t"
proof (induction cl dry_run blocks failed errors t rule: validate_loop.induct)
  case (1 cl dry_run blocks failed errors t)
  obtain round t1 where r: "validate_round cl dry_run (retained blocks failed) t = (round, t1)" by fastforce
  from validate_round_counts [of f dry_run, OF "1.prems"] r have "f t1 \<le> f t" by (metis snd_conv)
  with "1.IH" [OF r [symmetric] _ "1.prems"] r show ?case by (subst validate_loop.simps) (auto intro: le_trans)
qed

lemma tool_counts:
  fixes f :: "'t \<Rightarrow> nat"
  assumes "\<And>t. f (snd (execute t)) \<le> f t"
  shows "f (snd (snd (tool h k ev x execute i name args (s, t)))) \<le> f t"
proof -
  have "f t' \<le> f t1" if "execute t1 = (o', t')" for t1 o' t' using assms [of t1] that by simp
  then show ?thesis
    by (auto simp: tool_def st_then_def on_sink_def on_world_def st_simps split: sum.splits option.splits prod.splits)
qed

lemma runtime_tool_counts: "counts f cost a \<Longrightarrow> f (snd (runtime_tool a call finish_reason t)) \<le> f t"
  by (auto simp: runtime_tool_def counts_def split: option.splits sum.splits prod.splits) (metis snd_conv)+

lemma execute_tool_counts:
  assumes "counts f cost a"
  shows "f (snd (execute_tool a call t)) \<le> f t"
proof (cases "get_tool (tc_name call) (ag_registry a)")
  case (Some found)
  have announce: "f (announce a p t) \<le> f t" for p t using assms unfolding announce_def counts_def by (meson le_trans)
  let ?t = "announce a (ProgressToolStart (tc_name call) (tc_arguments call)) t"
  obtain r t1 where run: "at_execute found (tc_arguments call) ?t = (r, t1)" by fastforce
  have "f (snd (at_execute found (tc_arguments call) ?t)) \<le> f ?t" using assms Some unfolding counts_def by blast
  with run announce have "f t1 \<le> f t" by (metis le_trans snd_conv)
  with announce have "f (announce a p t1) \<le> f t" for p using le_trans by blast
  with Some run show ?thesis by (cases r) (simp_all add: execute_tool_def Let_def)
qed (simp add: execute_tool_def)

lemma still_checks:
  assumes "counts f cost a"
  shows "still f (check_cancelled a)" "still f (boundary a)" "still f (stop_now a)" "still f (preparing a)" "still f (record_validation a passed body)"
    "still f (effect (ag_callback a p))" "still f (effect (ag_progress a p))" "still f (effect (ag_settle_log a b))" "still f (log_failure a content err attempt part)"
proof -
  have publish: "still f (publish rt suffix limit payload body)" for rt suffix limit payload body
    unfolding publish_def Let_def within_def
    by (auto simp: st_then_def with_sink_def st_simps split: prod.splits sum.splits)
  show "still f (check_cancelled a)" "still f (boundary a)" "still f (stop_now a)" "still f (effect (ag_callback a p))"
      "still f (effect (ag_progress a p))" "still f (effect (ag_settle_log a b))" "still f (log_failure a content err attempt part)"
    using assms unfolding check_cancelled_def boundary_def stop_now_def log_failure_def
    by (auto simp: counts_def intro!: still_then still_ask still_effect)
  show "still f (preparing a)" "still f (record_validation a passed body)"
    using assms publish by (auto simp: preparing_def record_validation_def counts_def intro!: still_effect split: option.splits)
qed

lemma still_only: "still f m \<Longrightarrow> still f (only_bare a m)" "still f m \<Longrightarrow> still f (only_durable a m)"
  by (auto simp: only_bare_def only_durable_def)

lemma still_validate:
  assumes "counts f cost a"
  shows "still f (validate_chartml_blocks_detailed a content)"
proof -
  have "f (snd (dry_run_source a s t)) \<le> f t" for s t
    using assms by (auto simp: dry_run_source_def counts_def st_simps split: option.splits)
  from validate_loop_counts [of f "dry_run_source a", OF this]
  have "f (snd (chartml_sql_block_errors a content t)) \<le> f t" for t
    by (simp add: chartml_sql_block_errors_def validate_blocks_def split: prod.splits) (metis snd_conv)
  then show ?thesis unfolding validate_chartml_blocks_detailed_def by (intro still_then still_ask still_pure)
qed

lemma still_failed: "counts f cost a \<Longrightarrow> still f (validation_failed a content err attempt part)" "still f (retry_later ms)"
  unfolding validation_failed_def retry_later_def by (auto intro!: still_then still_checks)

lemma still_tool:
  assumes "counts f cost a"
  shows "still f (run_tool a finish_reason call)"
proof (cases "ag_runtime a")
  case None
  with assms show ?thesis by (auto simp: run_tool_def intro!: still_ask execute_tool_counts)
next
  case (Some rt)
  have "f t' \<le> f t" if "tool h k ev x (runtime_tool a call finish_reason) i name args (s, t) = (r, s', t')" for h k ev x i name args s t r s' t'
    using tool_counts [of f "runtime_tool a call finish_reason" h k ev x i name args s t, OF runtime_tool_counts [OF assms]] that by simp
  then have "still f (durable_tool a rt finish_reason call)"
    unfolding within_def durable_tool_def Let_def by (auto split: prod.splits)
  with Some show ?thesis by (simp add: run_tool_def)
qed

lemma still_tools: "counts f cost a \<Longrightarrow> still f (run_tools a finish_reason calls)"
  by (induction calls) (auto intro!: still_then still_checks still_tool still_only)

lemma still_account: "counts f cost a \<Longrightarrow> still f (account a r)"
  unfolding account_def Let_def by (auto intro!: still_then still_state still_only still_checks split: option.splits)

lemma still_round: "counts f cost a \<Longrightarrow> still f (tool_round a r calls)"
  unfolding tool_round_def Let_def by (auto intro!: still_then still_only still_checks still_tools)

lemma still_turn_response:
  assumes "counts f cost a"
  shows "still f (turn_response a r)"
proof -
  note parts = still_checks [OF assms] still_validate [OF assms] still_failed(1) [OF assms] still_failed(2)
    still_account [OF assms] still_round [OF assms]
  have "still f (final_turn a r)"
    unfolding final_turn_def Let_def by (auto intro!: still_then parts split: option.splits)
  moreover have "still f (tool_turn a r calls)" for calls
    unfolding tool_turn_def tool_turn_charts_def by (auto intro!: still_then parts split: option.splits)
  ultimately show ?thesis
    unfolding turn_response_def by (auto intro!: still_then parts split: option.splits)
qed

lemma within_call:
  fixes a :: "('v, 's, 't) agent" and f :: "'t \<Rightarrow> nat"
  assumes "counts f cost a"
  shows "within f (cost tools) 0 (call_or_cancel a messages tools)"
proof -
  have provider: "f (snd (ag_provider a messages tools t)) \<le> f t + cost tools" for t using assms by (simp add: counts_def)
  then have "f (snd (provider_complete a messages tools t)) \<le> f t + cost tools" for t
    by (auto simp: provider_complete_def split: prod.splits sum.splits) (metis snd_conv)+
  then have asked: "within f (cost tools) 0 (ask (provider_complete a messages tools))" by (rule within_ask)
  have after: "within f (cost tools) 0 (st_then (ask (provider_complete a messages tools)) g)" if "\<And>x. still f (g x)"
    for g :: "execution_error + llm_response \<times> json response_record \<Rightarrow> ('b, 's, 't) agent_action"
    using within_then [OF asked that] by simp
  have commits: "still f (\<lambda>w. case commit_all k ev (take m (c key)) (aw_sink w) of (_, s) \<Rightarrow> (Inr (), w\<lparr>aw_sink := s\<rparr>))" for k ev m c and key :: string
    by (auto simp: within_def split: prod.splits)
  have dropped: "within f (cost tools) 0 (dropped_call a messages tools n)" for n
    unfolding dropped_call_def
    by (cases n) (auto intro: within_mono [of f 0 0] intro!: after still_then commits split: option.splits sum.splits)
  have "within f (cost tools) 0 (call_llm a messages tools)"
    unfolding call_llm_def
    by (auto intro!: within_outside provider still_then after split: option.splits)
  then have "within f (cost tools) 0 (\<lambda>w. case call_llm a messages tools w of (r, w') \<Rightarrow> (Inr r, w'))"
    unfolding within_def by (auto split: prod.splits)
  moreover have "within f (cost tools) 0 (st_then (dropped_call a messages tools n) (\<lambda>_. st_err cancelled))" for n
    using within_then [OF dropped still_pure(2)] by simp
  moreover have "still f (ask (ag_cut a))" using assms by (intro still_ask) (simp add: counts_def)
  ultimately show ?thesis unfolding call_or_cancel_def by (intro still_then [of f "ask (ag_cut a)"]) (auto split: option.splits)
qed

lemma within_next: "within f 0 1 next_iteration"
  by (auto simp: within_def next_iteration_def change_state_def intro!: exI [of _ 1])

text \<open>The tools a request of the loop offers.\<close>

definition offered :: "('v, 's, 't) agent \<Rightarrow> tool_definition list" where
  "offered a = get_tool_definitions (ag_tool_filter (ag_config a)) (ag_registry a)"

lemma within_turn:
  assumes "counts f cost a"
  shows "within f (cost (offered a)) 1 (agent_turn a i)"
proof -
  have "within f (cost (offered a)) 0 (st_then (call_or_cancel a messages (offered a)) (\<lambda>called. st_then (st_lift called) (turn_response a)))" for messages
    using within_then [OF within_call [OF assms] still_then [OF still_pure(3) still_turn_response [OF assms]]] by simp
  then have "within f (cost (offered a)) 0 (st_then (change_vars v) (\<lambda>_. st_then (gets llm_messages) (\<lambda>messages.
      st_then (call_or_cancel a messages (offered a)) (\<lambda>called. st_then (st_lift called) (turn_response a)))))" for v
    by (intro still_then [OF still_pure(5)] still_then [OF still_pure(6)])
  from within_then [OF within_next this]
  have "within f (cost (offered a)) 1 (st_then next_iteration (\<lambda>_. st_then (change_vars v) (\<lambda>_. st_then (gets llm_messages) (\<lambda>messages.
      st_then (call_or_cancel a messages (offered a)) (\<lambda>called. st_then (st_lift called) (turn_response a))))))" for v by simp
  then show ?thesis unfolding agent_turn_def offered_def [symmetric]
    by (intro still_then still_checks [OF assms]) (auto intro: within_mono [of f 0 0] split: option.splits)
qed

lemma within_loop: "counts f cost a \<Longrightarrow> within f (n * cost (offered a)) n (agent_loop a n i)"
proof (induction n arbitrary: i)
  case (Suc n)
  have rest: "within f (n * cost (offered a)) n (case turn of Again \<Rightarrow> agent_loop a n (i + 1) | _ \<Rightarrow> st_ok turn)" for turn
    using Suc by (cases turn) (auto intro: within_mono [of f 0 0])
  from within_then [OF within_turn [OF Suc.prems] rest] show ?case by simp
qed simp

lemma within_wrap_up:
  assumes "counts f cost a"
  shows "within f (cost []) 1 (wrap_up a)"
proof -
  note parts = still_checks [OF assms] still_validate [OF assms] still_failed(1) [OF assms]
  have "still f (degrade a content)" for content
    unfolding degrade_def by (auto intro!: still_then parts split: option.splits)
  then have "still f (case called of Inl _ \<Rightarrow> st_err (Internal WRAP_UP_FAILED_MESSAGE)
      | Inr r \<Rightarrow> st_then (degrade a (final_response_text r)) (\<lambda>content. st_then (push (assistant_message content)) (\<lambda>_. st_ok content)))"
    for called :: "app_error + llm_response"
    by (cases called) (auto intro!: still_then)
  from within_then [OF within_next within_then [OF within_call [OF assms, of "[]"] this]]
  have "within f (cost []) 1 (st_then next_iteration (\<lambda>_. st_then (call_or_cancel a messages []) (\<lambda>called.
      case called of Inl _ \<Rightarrow> st_err (Internal WRAP_UP_FAILED_MESSAGE)
      | Inr r \<Rightarrow> st_then (degrade a (final_response_text r)) (\<lambda>content. st_then (push (assistant_message content)) (\<lambda>_. st_ok content)))))" for messages
    by simp
  then show ?thesis unfolding wrap_up_def
    by (intro still_then [OF parts(8)] still_then [OF parts(1)] still_then [OF still_pure(6)] still_then [OF parts(6)] still_then [OF parts(4)])
qed

text \<open>C14: A chat always returns, after at most \<open>max_iterations\<close> requests with the tools of the configuration and one
  without tools: whatever the model, the tools and the event sink answer, a count that every request with
  tools raises by at most \<open>cost\<close> of them and nothing else of the agent raises grows by at most that, and the
  iteration counter advances by at most one more than the ceiling.\<close>

theorem chat_is_bounded:
  assumes "counts f cost a" "chat a query time source user w = (r, w')"
  shows "f (aw_out w') \<le> f (aw_out w) + unat (ag_max_iterations (ag_config a)) * cost (offered a) + cost []
    \<and> (\<exists>k \<le> unat (ag_max_iterations (ag_config a)) + 1. as_iteration (aw_state w') = as_iteration (aw_state w) + word_of_nat k)"
proof -
  let ?n = "unat (ag_max_iterations (ag_config a))"
  have "still f (ask (ag_now a))" using assms(1) by (intro still_ask) (simp add: counts_def)
  moreover have "within f (cost []) 1 (case turn of Answer content \<Rightarrow> st_ok content | _ \<Rightarrow> wrap_up a)" for turn
    using within_wrap_up [OF assms(1)] by (cases turn) (auto intro: within_mono [of f 0 0])
  note within_then [OF within_loop [OF assms(1)] this]
  ultimately have "within f (?n * cost (offered a) + cost []) (?n + 1) (chat a query time source user)"
    unfolding chat_def
    by (intro still_then [OF still_pure(7)] still_then [of f "ask (ag_now a)"] still_then [OF still_pure(5)])
  with assms(2) show ?thesis unfolding within_def by (simp add: add.assoc)
qed

subsection \<open>The charts of an answer\<close>

text \<open>The calls of the agent that lead from one state of the outside to the next: those that only report
  (\<open>told\<close>), and all of them (\<open>called\<close>).\<close>

inductive told :: "('v, 's, 't) agent \<Rightarrow> 't \<Rightarrow> 't \<Rightarrow> bool" for a where
  "told a t (ag_progress a p t)"
| "told a t (ag_callback a p t)"
| "told a t (ag_log_failure a content err kind attempt part t)"
| "told a t (ag_settle_log a passed t)"

inductive called :: "('v, 's, 't) agent \<Rightarrow> 't \<Rightarrow> 't \<Rightarrow> bool" for a where
  "told a t t' \<Longrightarrow> called a t t'"
| "called a t (snd (ag_cancelled a t))"
| "called a t (snd (ag_cut a t))"
| "called a t (snd (ag_now a t))"
| "called a t (ag_boundary a ms t)"
| "called a t (snd (ag_provider a messages tools t))"
| "get_tool name (ag_registry a) = Some found \<Longrightarrow> called a t (snd (at_execute found arguments t))"
| "called a t (snd (ag_dry_run a datasource sql t))"

abbreviation reports :: "('v, 's, 't) agent \<Rightarrow> 't \<Rightarrow> 't \<Rightarrow> bool" where "reports a \<equiv> (told a)\<^sup>*\<^sup>*"
abbreviation reaches :: "('v, 's, 't) agent \<Rightarrow> 't \<Rightarrow> 't \<Rightarrow> bool" where "reaches a \<equiv> (called a)\<^sup>*\<^sup>*"

text \<open>A count that is 0 as long as the outside was reached: what costs nothing of it only makes the agent's calls.\<close>

definition unreached :: "('v, 's, 't) agent \<Rightarrow> 't \<Rightarrow> 't \<Rightarrow> nat" where
  "unreached a t0 t = (if reaches a t0 t then 0 else 1)"

lemma reaches_step: "reaches a t0 t \<Longrightarrow> called a t t' \<Longrightarrow> reaches a t0 t'" by (rule rtranclp.rtrancl_into_rtrancl)

lemma unreached_step: "called a t t' \<Longrightarrow> unreached a t0 t' \<le> unreached a t0 t"
  using reaches_step by (fastforce simp: unreached_def)

lemma counts_unreached: "counts (unreached a t0) (\<lambda>_. 0) a"
  by (simp add: counts_def unreached_step called.intros told.intros)

text \<open>An action that starts from a state of the outside with \<open>Q\<close> and returns a value leaves one with \<open>P\<close>.\<close>

definition leads :: "('t \<Rightarrow> bool) \<Rightarrow> ('a, 's, 't) agent_action \<Rightarrow> ('a \<Rightarrow> 't \<Rightarrow> bool) \<Rightarrow> bool" where
  "leads Q m P \<longleftrightarrow> (\<forall>w x w'. Q (aw_out w) \<longrightarrow> m w = (Inr x, w') \<longrightarrow> P x (aw_out w'))"

lemma leads_then: "leads Q m R \<Longrightarrow> (\<And>x. leads (R x) (g x) P) \<Longrightarrow> leads Q (st_then m g) P"
  unfolding leads_def st_then_eq_Inr by blast

lemma leads_ok: "(\<And>t. Q t \<Longrightarrow> P x t) \<Longrightarrow> leads Q (st_ok x) P"
  by (simp add: leads_def st_simps)

lemma leads_same [intro, simp]: "leads Q (st_err e) P" "leads Q (with_sink k) (\<lambda>_. Q)" "leads Q (change_vars v) (\<lambda>_. Q)"
    "leads Q (gets q) (\<lambda>_. Q)" "leads Q (push m) (\<lambda>_. Q)"
  by (auto simp: leads_def st_simps with_sink_def change_vars_def gets_def push_def change_state_def split: prod.splits)

lemma leads_and: "leads Q m P \<Longrightarrow> leads Q m R \<Longrightarrow> leads Q m (\<lambda>x t. P x t \<and> R x t)" by (auto simp: leads_def)

lemma leads_mono: "leads Q m P \<Longrightarrow> (\<And>x t. P x t \<Longrightarrow> R x t) \<Longrightarrow> leads Q m R" unfolding leads_def by blast

lemma leads_reached: "within (unreached a t0) 0 k m \<Longrightarrow> leads (reaches a t0) m (\<lambda>_. reaches a t0)"
  unfolding within_def leads_def unreached_def by (fastforce split: if_splits)

text \<open>What reports leave as it is.\<close>

definition kept :: "('v, 's, 't) agent \<Rightarrow> ('t \<Rightarrow> bool) \<Rightarrow> bool" where "kept a Q \<longleftrightarrow> (\<forall>t t'. Q t \<longrightarrow> told a t t' \<longrightarrow> Q t')"

lemma leads_effect: "kept a Q \<Longrightarrow> (\<And>t. told a t (g t)) \<Longrightarrow> leads Q (effect g) (\<lambda>_. Q)"
  by (auto simp: leads_def kept_def effect_def outside_def)

lemma leads_reports:
  assumes "kept a Q"
  shows "leads Q (effect (ag_callback a p)) (\<lambda>_. Q)" "leads Q (effect (ag_settle_log a b)) (\<lambda>_. Q)" "leads Q (preparing a) (\<lambda>_. Q)"
    "leads Q (record_validation a passed body) (\<lambda>_. Q)" "leads Q (validation_failed a content err attempt part) (\<lambda>_. Q)"
proof -
  have effects: "leads Q (effect (ag_progress a p)) (\<lambda>_. Q)" "leads Q (effect (ag_callback a p)) (\<lambda>_. Q)"
      "leads Q (effect (ag_settle_log a b)) (\<lambda>_. Q)" "leads Q (effect (ag_log_failure a c e k n part)) (\<lambda>_. Q)" for p b c e k n part
    by (rule leads_effect [OF assms], rule told.intros)+
  have publish: "leads Q (publish rt suffix limit payload body) (\<lambda>_. Q)" for rt suffix limit payload body
    unfolding publish_def Let_def leads_def
    by (auto simp: st_then_def with_sink_def st_simps split: prod.splits sum.splits)
  then show "leads Q (preparing a) (\<lambda>_. Q)" and recorded: "leads Q (record_validation a passed body) (\<lambda>_. Q)" for passed body
    using effects by (auto simp: preparing_def record_validation_def intro: leads_ok split: option.splits)
  show "leads Q (effect (ag_callback a p)) (\<lambda>_. Q)" "leads Q (effect (ag_settle_log a b)) (\<lambda>_. Q)" using effects by blast+
  show "leads Q (validation_failed a content err attempt part) (\<lambda>_. Q)"
    unfolding validation_failed_def log_failure_def by (rule leads_then leads_same recorded effects)+
qed

text \<open>The chart blocks of a text pass as a document, and all their SQL sources were run in a row without a failure: from
  a state of the outside that the agent's calls reach from \<open>t0\<close>, and the agent only reports between the last
  run and \<open>t1\<close>.\<close>

definition charts_checked :: "('v, 's, 't) agent \<Rightarrow> string \<Rightarrow> 't \<Rightarrow> 't \<Rightarrow> bool" where
  "charts_checked a content t0 t1 \<longleftrightarrow>
     (let document = retained (markdown_blocks content) {} in
      document_ok (ag_charts a) document
    \<and> (\<exists>t t'. reaches a t0 t \<and> sources_run (dry_run_source a) (document_sources (ag_charts a) document) t t' \<and> reports a t' t1))"

lemma kept_checked: "kept a (charts_checked a content t0)"
  unfolding kept_def charts_checked_def Let_def by (meson rtranclp.rtrancl_into_rtrancl)

lemma kept_reached: "kept a (reaches a t0)"
  unfolding kept_def using reaches_step called.intros(1) by meson

text \<open>The last round of a validation starts from a state that the rounds before it reached.\<close>

lemma dry_run_unreached: "unreached a t0 (snd (dry_run_source a s t)) \<le> unreached a t0 t"
  using counts_unreached [of a t0] by (auto simp: dry_run_source_def counts_def st_simps split: option.splits)

lemma round_reached: "reaches a t0 t \<Longrightarrow> validate_round cl (dry_run_source a) bodies t = (r, t') \<Longrightarrow> reaches a t0 t'"
  using validate_round_counts [of "unreached a t0" "dry_run_source a" cl bodies t, OF dry_run_unreached]
  by (simp add: unreached_def split: if_splits)

lemma last_round_reached:
  "validate_loop cl (dry_run_source a) blocks failed errors t = (errors', t') \<Longrightarrow> failed = dg_block ` set errors \<Longrightarrow> reaches a t0 t \<Longrightarrow>
    \<exists>t1. reaches a t0 t1 \<and> validate_round cl (dry_run_source a) (retained blocks (dg_block ` set errors')) t1 = ([], t')"
proof (induction cl "dry_run_source a" blocks failed errors t rule: validate_loop.induct)
  case (1 cl blocks failed errors t)
  obtain round t1 where round: "validate_round cl (dry_run_source a) (retained blocks failed) t = (round, t1)" by fastforce
  show ?case
  proof (cases "round = []")
    case True
    with 1(2-4) round show ?thesis by (subst (asm) validate_loop.simps) auto
  next
    case False
    have "validate_loop cl (dry_run_source a) blocks (failed \<union> dg_block ` set round) (errors @ round) t1 = (errors', t')"
      using 1(2) round False by (subst (asm) validate_loop.simps) simp
    moreover have "failed \<union> dg_block ` set round = dg_block ` set (errors @ round)" using 1(3) by auto
    ultimately show ?thesis using 1(1) [OF round [symmetric] False] round_reached [OF 1(4) round] by blast
  qed
qed

lemma survivors_retained: "survivors indices k blocks = map snd (filter (\<lambda>(i, _). i \<notin> indices) (zip [k..<k + length blocks] blocks))"
proof (induction blocks arbitrary: k)
  case (Cons b blocks)
  have "[k..<k + length (b # blocks)] = k # [Suc k..<Suc k + length blocks]" by (subst upt_conv_Cons) (simp_all del: upt_Suc)
  with Cons [of "Suc k"] show ?case by simp
qed simp

lemma retained_survivors:
  assumes "\<And>i. Suc i \<in> failed \<longleftrightarrow> i \<in> indices"
  shows "map snd (retained blocks failed) = survivors indices 0 blocks"
  using assms by (simp add: retained_def survivors_retained enumerated_def filter_map comp_def split_def)

lemma retained_all: "map snd (retained blocks {}) = blocks"
proof -
  have "survivors {} k blocks = blocks" for k by (induction blocks arbitrary: k) auto
  with retained_survivors [of "{}" "{}" blocks] show ?thesis by simp
qed

lemma note_inert: "inert CHARTML_STRIPPED_NOTE" by (simp add: inert_def CHARTML_STRIPPED_NOTE_def newline_def)

text \<open>What is left of a text after its failing blocks were replaced has been checked.\<close>

lemma checked_left:
  assumes "order_ok (ag_charts a)" "chartml_sql_block_errors a content t = (errors, t')" "reaches a t0 t"
    and left: "map snd (retained (markdown_blocks content) (Suc ` fst ` set errors)) = map snd (retained (markdown_blocks text') {})"
  shows "charts_checked a text' t0 t'"
proof -
  let ?blocks = "markdown_blocks content" and ?cl = "ag_charts a" and ?dry = "dry_run_source a"
  obtain ds where run: "validate_blocks ?cl ?dry ?blocks t = (ds, t')" and errors: "errors = map (\<lambda>d. (dg_block d - 1, diagnostic_text d)) ds"
    using assms(2) by (auto simp: chartml_sql_block_errors_def split: prod.splits)
  obtain t1 where t1: "reaches a t0 t1" "validate_round ?cl ?dry (retained ?blocks (dg_block ` set ds)) t1 = ([], t')"
    using last_round_reached [OF run [unfolded validate_blocks_def] _ assms(3)] by auto
  have numbers: "\<forall>d \<in> set ds. 1 \<le> dg_block d" using loop_ends_clean [OF run [unfolded validate_blocks_def]] by auto
  have "dg_block ` set ds = Suc ` fst ` set errors" unfolding errors using numbers by (force simp: image_iff)
  with t1 have last: "validate_round ?cl ?dry (retained ?blocks (Suc ` fst ` set errors)) t1 = ([], t')" by simp
  have clean: "document_ok ?cl (retained ?blocks (Suc ` fst ` set errors))"
      "sources_run ?dry (document_sources ?cl (retained ?blocks (Suc ` fst ` set errors))) t1 t'"
    using last round_clean [OF assms(1), of ?dry "retained ?blocks (Suc ` fst ` set errors)" t1 t'] by blast+
  have "?dry (unnumbered s) t = ?dry s t" for s t by (cases "ss_datasource s") (simp_all add: dry_run_source_def unnumbered_def)
  from run_numbered [of ?dry, OF this document_numbered(2) [OF left clean(1)]] document_numbered(1) [OF left, of ?cl] clean t1(1)
  show ?thesis unfolding charts_checked_def Let_def by blast
qed

lemma stripped_checked:
  assumes "order_ok (ag_charts a)" "chartml_sql_block_errors a content t = (errors, t')" "reaches a t0 t"
  shows "charts_checked a (strip_chartml_blocks content (fst ` set errors)) t0 t'"
proof (rule checked_left [OF assms])
  let ?failing = "fst ` set errors"
  have "map snd (retained (markdown_blocks content) (Suc ` ?failing)) = survivors ?failing 0 (markdown_blocks content)"
    by (rule retained_survivors) auto
  also have "\<dots> = markdown_blocks (strip_chartml_blocks content ?failing)"
  proof -
    have "plain_lines (split_on newline content)" using split_on_parts [of _ newline content] by (auto simp: plain_lines_def)
    then have "plain_lines (strip_lines ?failing CHARTML_STRIPPED_NOTE 0 (split_on newline content))" by (rule strip_lines_plain [OF note_inert])
    then have "split_on newline (strip_chartml_blocks content ?failing) = strip_lines ?failing CHARTML_STRIPPED_NOTE 0 (split_on newline content)"
      unfolding strip_chartml_blocks_def strip_markdown_lines
      using strip_lines_not_empty by (intro split_on_join) (auto simp: plain_lines_def)
    then show ?thesis by (simp add: markdown_blocks_lines strip_leaves_survivors [OF note_inert])
  qed
  finally show "map snd (retained (markdown_blocks content) (Suc ` ?failing))
      = map snd (retained (markdown_blocks (strip_chartml_blocks content ?failing)) {})"
    by (simp add: retained_all)
qed

lemma leads_validated:
  assumes "order_ok (ag_charts a)"
  shows "leads (reaches a t0) (validate_chartml_blocks_detailed a content) (\<lambda>v t. case v of
      None \<Rightarrow> charts_checked a content t0 t
    | Some (failing, _) \<Rightarrow> charts_checked a (strip_chartml_blocks content (set failing)) t0 t)"
  unfolding validate_chartml_blocks_detailed_def
proof (rule leads_then)
  show "leads (reaches a t0) (ask (chartml_sql_block_errors a content))
      (\<lambda>errors t. charts_checked a (strip_chartml_blocks content (fst ` set errors)) t0 t \<and> (errors = [] \<longrightarrow> charts_checked a content t0 t))"
    using checked_left [OF assms, of _ _ "[]" _ _ content] stripped_checked [OF assms]
    unfolding leads_def ask_def outside_def by (auto split: prod.splits)
qed (rule leads_ok, auto)

definition answer_checked :: "('v, 's, 't) agent \<Rightarrow> 't \<Rightarrow> string \<Rightarrow> 't \<Rightarrow> bool" where
  "answer_checked a t0 content t1 \<longleftrightarrow> (has_chartml_blocks content \<longrightarrow> charts_checked a content t0 t1)"

definition turn_checked :: "('v, 's, 't) agent \<Rightarrow> 't \<Rightarrow> turn \<Rightarrow> 't \<Rightarrow> bool" where
  "turn_checked a t0 turn t1 = (case turn of Answer content \<Rightarrow> answer_checked a t0 content t1 | _ \<Rightarrow> True)"

lemma leads_accepted:
  assumes "kept a Q" "\<And>t. Q t \<Longrightarrow> P (Answer content) t"
  shows "leads Q (st_then (effect (ag_settle_log a True)) (\<lambda>_. st_then (push (assistant_message content)) (\<lambda>_. st_ok (Answer content)))) P"
  by (rule leads_then leads_reports [OF assms(1)] leads_same leads_ok assms(2))+

lemma leads_again: "leads Q (st_then m (\<lambda>_. st_then (retry_later ms) (\<lambda>_. st_ok Again))) (turn_checked a t0)"
  by (auto simp: leads_def st_then_eq_Inr st_simps turn_checked_def)

lemma leads_final:
  assumes "order_ok (ag_charts a)"
  shows "leads (reaches a t0) (final_turn a r) (turn_checked a t0)"
proof -
  let ?content = "final_response_text r"
  note passed = leads_then [OF leads_reports(4) [OF kept_checked]] leads_accepted [OF kept_checked]
  have charts: "leads (reaches a t0) (st_then (validate_chartml_blocks_detailed a ?content) (\<lambda>v. case v of
      None \<Rightarrow> st_then (record_validation a True SQL_PASSED) (\<lambda>_. st_then (effect (ag_settle_log a True)) (\<lambda>_.
        st_then (push (assistant_message ?content)) (\<lambda>_. st_ok (Answer ?content))))
    | Some (_, err) \<Rightarrow> st_then (validation_failed a ?content err n part) (\<lambda>_. st_then (retry_later (ms err)) (\<lambda>_. st_ok Again))))
      (turn_checked a t0)" for n part ms
    by (rule leads_then [OF leads_validated [OF assms]])
      (auto simp: leads_again turn_checked_def answer_checked_def intro!: passed split: option.splits)
  have plain: "leads (reaches a t0) (st_then (effect (ag_settle_log a True)) (\<lambda>_.
      st_then (push (assistant_message ?content)) (\<lambda>_. st_ok (Answer ?content)))) (turn_checked a t0)" if "\<not> has_chartml_blocks ?content"
    using that by (intro leads_accepted kept_reached) (simp add: turn_checked_def answer_checked_def)
  show ?thesis unfolding final_turn_def Let_def
    by (rule leads_then [OF leads_reports(1) [OF kept_reached]], rule leads_then [OF leads_reports(3) [OF kept_reached]])
      (auto simp: charts plain)
qed

lemma leads_tool_turn:
  assumes "order_ok (ag_charts a)"
  shows "leads (reaches a t0) (tool_turn a r calls) (turn_checked a t0)"
  unfolding tool_turn_def
proof (rule leads_then [OF leads_reached [OF still_round [OF counts_unreached]]])
  show "leads (reaches a t0) (tool_turn_charts a (lr_content r)) (turn_checked a t0)"
    unfolding tool_turn_charts_def
    by (auto simp: leads_again turn_checked_def answer_checked_def intro!: leads_ok leads_then [OF leads_validated [OF assms]]
        leads_then [OF leads_reports(4) [OF kept_checked]] leads_then [OF leads_reports(2) [OF kept_checked]]
        leads_then [OF leads_reports(1) [OF kept_checked]] leads_then [OF leads_reports(3) [OF kept_checked]] leads_then [OF leads_same(5)]
        split: option.splits)
qed

lemma leads_turn:
  assumes "order_ok (ag_charts a)"
  shows "leads (reaches a t0) (agent_turn a i) (\<lambda>turn t. turn_checked a t0 turn t \<and> reaches a t0 t)"
proof (rule leads_and)
  note reached = leads_reached [of a t0] and counts = counts_unreached [of a t0]
  have out: "leads (reaches a t0) (st_ok (OutOfBudget reason)) (turn_checked a t0)" for reason by (simp add: leads_ok turn_checked_def)
  have response: "leads (reaches a t0) (turn_response a r) (turn_checked a t0)" for r
    unfolding turn_response_def
    by (rule leads_then [OF reached [OF still_checks(1) [OF counts]]], rule leads_then [OF reached [OF still_account [OF counts]]])
      (auto simp: leads_final leads_tool_turn assms split: option.splits)
  have call: "leads (reaches a t0) (st_then next_iteration (\<lambda>_. st_then (change_vars v) (\<lambda>_. st_then (gets llm_messages) (\<lambda>messages.
      st_then (call_or_cancel a messages tools) (\<lambda>called. st_then (st_lift called) (turn_response a)))))) (turn_checked a t0)" for v tools
    by (rule leads_then [OF reached [OF within_next]], rule leads_then [OF leads_same(3)], rule leads_then [OF leads_same(4)],
        rule leads_then [OF reached [OF within_call [OF counts]]], rule leads_then [OF reached [OF still_pure(3)] response])
  show "leads (reaches a t0) (agent_turn a i) (turn_checked a t0)" unfolding agent_turn_def
    by (rule leads_then [OF reached [OF still_checks(1) [OF counts]]], rule leads_then [OF reached [OF still_checks(3) [OF counts]]])
      (auto simp: out call split: option.splits)
  show "leads (reaches a t0) (agent_turn a i) (\<lambda>_. reaches a t0)" by (rule reached [OF within_turn [OF counts]])
qed

lemma leads_loop:
  assumes "order_ok (ag_charts a)"
  shows "leads (reaches a t0) (agent_loop a n i) (\<lambda>turn t. turn_checked a t0 turn t \<and> reaches a t0 t)"
proof (induction n arbitrary: i)
  case (Suc n)
  have rest: "leads (\<lambda>t. turn_checked a t0 turn t \<and> reaches a t0 t) (case turn of Again \<Rightarrow> agent_loop a n (i + 1) | _ \<Rightarrow> st_ok turn)
      (\<lambda>turn t. turn_checked a t0 turn t \<and> reaches a t0 t)" for turn
    using Suc by (cases turn) (auto simp: leads_def st_simps)
  show ?case unfolding agent_loop.simps by (rule leads_then [OF leads_turn [OF assms] rest])
qed (auto simp: turn_checked_def intro: leads_ok)

lemma leads_degraded:
  assumes "order_ok (ag_charts a)"
  shows "leads (reaches a t0) (degrade a content) (answer_checked a t0)"
proof (cases "has_chartml_blocks content")
  case True
  note checked = leads_then [OF leads_reports(4) [OF kept_checked]] leads_then [OF leads_reports(5) [OF kept_checked]]
  show ?thesis unfolding degrade_def
    using True by (auto simp: answer_checked_def intro!: leads_then [OF leads_validated [OF assms]] checked leads_ok split: option.splits)
qed (simp add: degrade_def answer_checked_def leads_ok)

lemma leads_wrap_up:
  assumes "order_ok (ag_charts a)"
  shows "leads (reaches a t0) (wrap_up a) (answer_checked a t0)"
proof -
  note reached = leads_reached [of a t0] and counts = counts_unreached [of a t0]
  have last: "leads (reaches a t0) (case called of Inl _ \<Rightarrow> st_err (Internal WRAP_UP_FAILED_MESSAGE)
      | Inr r \<Rightarrow> st_then (degrade a (final_response_text r)) (\<lambda>content. st_then (push (assistant_message content)) (\<lambda>_. st_ok content)))
      (answer_checked a t0)" for called :: "app_error + llm_response"
    by (cases called) (auto intro!: leads_then [OF leads_degraded [OF assms]] leads_then [OF leads_same(5)] leads_ok)
  show ?thesis unfolding wrap_up_def
    by (rule leads_then [OF reached [OF still_checks(8) [OF counts]]], rule leads_then [OF reached [OF still_checks(1) [OF counts]]],
        rule leads_then [OF leads_same(4)], rule leads_then [OF reached [OF still_checks(6) [OF counts]]],
        rule leads_then [OF reached [OF still_checks(4) [OF counts]]], rule leads_then [OF reached [OF within_next]],
        rule leads_then [OF reached [OF within_call [OF counts]] last])
qed

text \<open>C12: A chat checks the charts of the answer it returns. When the returned text holds a chart block (the opening
  fence followed at once by the language, which is what the agent looks for before it validates; a fence with a
  space before the language is not noticed), whether the model gave it at once, after rejected drafts, beside
  tool calls, or in the forced last turn with its failing blocks replaced, then all chart blocks of exactly that
  text can be read, fit the schema with the defaults of the text itself, define each named source once and
  refer to no other, and the SQL of every source of them, with a selected datasource and no open parameter, was
  dry-run in a row without a failure. Those dry runs belong to this chat: they start from a state of the outside that
  the calls of this agent reach from the one the chat began in, and after the last of them the agent only reports
  to the outside (progress, callbacks, logs) before the chat returns: no request of the model and no tool comes
  between.\<close>

theorem answers_are_checked:
  assumes "order_ok (ag_charts a)" "chat a query time source user w = (Inr content, w')" "has_chartml_blocks content"
  shows "charts_checked a content (aw_out w) (aw_out w')"
proof -
  let ?t0 = "aw_out w"
  have now: "within (unreached a ?t0) 0 0 (ask (ag_now a))"
    using counts_unreached [of a ?t0] by (intro still_ask) (simp add: counts_def)
  have last: "leads (\<lambda>t. turn_checked a ?t0 turn t \<and> reaches a ?t0 t) (case turn of Answer content \<Rightarrow> st_ok content | _ \<Rightarrow> wrap_up a)
      (answer_checked a ?t0)" for turn
    using leads_wrap_up [OF assms(1), of ?t0] by (cases turn) (auto simp: leads_def st_simps turn_checked_def)
  have "leads (reaches a ?t0) (chat a query time source user) (answer_checked a ?t0)"
    unfolding chat_def
    by (rule leads_then [OF leads_same(5)], rule leads_then [OF leads_reached [OF now]], rule leads_then [OF leads_same(3)],
        rule leads_then [OF leads_loop [OF assms(1)] last])
  with assms(2,3) show ?thesis by (auto simp: leads_def answer_checked_def)
qed

subsection \<open>Errors\<close>

definition raises :: "('a, 's, 't) agent_action \<Rightarrow> (app_error \<Rightarrow> bool) \<Rightarrow> bool" where
  "raises m E \<longleftrightarrow> (\<forall>w e w'. m w = (Inl e, w') \<longrightarrow> E e)"

text \<open>What ends a durable operation of the agent: the model provider failed; a commit of the journal or a look at a stored
  outcome failed; the outcome of a tool could not be committed after it ran; its stored outcome is unknown; its start
  was committed before; or a registered tool ran and calls its own result, or its failure, unknown.\<close>

inductive durable_failure :: "('v, 's, 't) agent \<Rightarrow> ('v, 's) agent_runtime \<Rightarrow> execution_error \<Rightarrow> bool"
  for a :: "('v, 's, 't) agent" and rt :: "('v, 's) agent_runtime" where
  model_failed: "ag_provider a messages tools t = (Inl e, t') \<Longrightarrow> durable_failure a rt (Provider (app_error_display (ag_db_text a) e))"
| commit_failed: "es_commit (rt_sink rt) v c s = (Inl x, s') \<Longrightarrow> durable_failure a rt x"
| lookup_failed: "es_outcome (rt_sink rt) v (rt_context rt) i s = Inl x \<Longrightarrow> durable_failure a rt x"
| outcome_not_committed: "es_commit (rt_sink rt) v (outcome_command (rt_digest rt) (rt_context rt) i o') s = (Inl x, s') \<Longrightarrow>
    durable_failure a rt (Uncertain (execution_error_display x))"
| stored_unknown: "es_outcome (rt_sink rt) v (rt_context rt) i s = Inr (Some o') \<Longrightarrow> outcome_unknown o' \<Longrightarrow>
    durable_failure a rt (Uncertain (to_text o'))"
| already_started: "es_commit (rt_sink rt) v (start_command (rt_digest rt) (rt_context rt) i) s = (Inr started, s') \<Longrightarrow>
    r_duplicate (sr_receipt started) \<Longrightarrow>
    durable_failure a rt (Uncertain ''tool start already committed; reconcile its receipt instead of rerunning'')"
| result_unknown: "get_tool (tc_name (call :: tool_call)) (ag_registry a) = Some found \<Longrightarrow> at_execute found (tc_arguments call) t = (Inr body, t') \<Longrightarrow>
    at_outcome found body = DomainUnknown \<Longrightarrow> durable_failure a rt (Uncertain body)"
| failure_unknown: "get_tool (tc_name (call :: tool_call)) (ag_registry a) = Some found \<Longrightarrow> at_execute found (tc_arguments call) t = (Inl e, t') \<Longrightarrow>
    at_failure_outcome found = DomainUnknown \<Longrightarrow>
    durable_failure a rt (Uncertain (tool_failed_message (ag_db_text a) (tc_name call) e))"

definition service_error :: "('v, 's, 't) agent \<Rightarrow> app_error \<Rightarrow> bool" where
  "service_error a e \<longleftrightarrow>
     (case ag_runtime a of
        None \<Rightarrow> \<exists>messages tools t. fst (ag_provider a messages tools t) = Inl e
      | Some rt \<Rightarrow> \<exists>x. durable_failure a rt x \<and> e = runtime_error x)"

definition cancellation_seen :: "('v, 's, 't) agent \<Rightarrow> bool" where
  "cancellation_seen a \<longleftrightarrow> (\<exists>t. fst (ag_cancelled a t)) \<or> (\<exists>t. fst (ag_cut a t) \<noteq> None)"

definition chat_error :: "('v, 's, 't) agent \<Rightarrow> app_error \<Rightarrow> bool" where
  "chat_error a e \<longleftrightarrow> (e = cancelled \<and> cancellation_seen a)
     \<or> (e = Internal WRAP_UP_FAILED_MESSAGE \<and> (\<exists>e'. service_error a e')) \<or> service_error a e"

lemma raises_then: "raises m E \<Longrightarrow> (\<And>x. raises (f x) E) \<Longrightarrow> raises (st_then m f) E"
  unfolding raises_def st_then_eq_Inl by blast

lemma raises_none [intro, simp]: "raises (st_ok x) E" "raises (ask f) E" "raises (effect g) E" "raises (change_vars v) E" "raises (change_state s) E"
    "raises (gets q) E" "raises (push m) E"
  by (auto simp: raises_def st_simps ask_def effect_def outside_def change_vars_def change_state_def gets_def push_def split: prod.splits)

lemma raises_if [intro]: "raises m E \<Longrightarrow> raises n E \<Longrightarrow> raises (if b then m else n) E" by simp

lemma raises_after: "raises m E \<Longrightarrow> (\<And>w x w'. m w = (Inr x, w') \<Longrightarrow> raises (f x) E) \<Longrightarrow> raises (st_then m f) E"
  unfolding raises_def st_then_eq_Inl by blast

lemma raises_sink:
  assumes "ag_runtime a = Some rt" "\<And>s x s'. k s = (Inl x, s') \<Longrightarrow> durable_failure a rt x"
  shows "raises (with_sink k) (service_error a)"
  using assms by (auto simp: raises_def with_sink_def service_error_def map_err_def split: prod.splits sum.splits)

lemma raises_weaken: "raises m (service_error a) \<Longrightarrow> raises m (chat_error a)"
  by (auto simp: raises_def chat_error_def)

lemma raises_cancelled: "cancellation_seen a \<Longrightarrow> raises (st_err cancelled) (chat_error a)"
  by (simp add: raises_def st_simps chat_error_def)

lemma raises_cancellation: "raises (check_cancelled a) (chat_error a)"
  unfolding check_cancelled_def
proof (rule raises_after)
  fix w c and w' :: "('a, 'b) agent_world" assume "ask (ag_cancelled a) w = (Inr c, w')"
  then have "c = fst (ag_cancelled a (aw_out w))" by (auto simp: ask_def outside_def split: prod.splits)
  then show "raises (if c then st_err cancelled else st_ok ()) (chat_error a)"
    using raises_cancelled [of a] by (auto simp: cancellation_seen_def)
qed simp

text \<open>The journal and the tools.\<close>

lemma ingest_planning_fails: "ingest_planning h k ev x prefix i bodies s = (Inl e, s') \<Longrightarrow> \<exists>v c s s'. es_commit k v c s = (Inl e, s')"
proof (induction bodies arbitrary: i s)
  case (Cons body bodies)
  then show ?case by (auto simp: Let_def st_then_eq_Inl split: prod.splits)
qed (simp add: st_simps)

lemma ingest_fails: "ingest h k ev x model r s = (Inl e, s') \<Longrightarrow> \<exists>v c s s'. es_commit k v c s = (Inl e, s')"
  unfolding ingest_def st_then_eq_Inl by (blast dest: ingest_planning_fails)

lemma complete_fails: "complete h k ev x model answer s = (Inl e, s') \<Longrightarrow> answer = Inl e \<or> (\<exists>v c s s'. es_commit k v c s = (Inl e, s'))"
  unfolding complete_def st_then_eq_Inl by (cases answer) (auto simp: st_simps st_then_eq_Inl dest: ingest_fails)

lemma unknown_result:
  assumes "runtime_tool a call finish_reason t = (o', t')" "outcome_unknown o'"
  shows "durable_failure a rt (Uncertain (to_text o'))"
  using assms unfolding runtime_tool_def
  by (auto simp: outcome_unknown_def split: if_splits option.splits sum.splits prod.splits)
    (blast intro: result_unknown failure_unknown)+

lemma tool_fails:
  assumes "tool (rt_digest rt) (rt_sink rt) ev (rt_context rt) (runtime_tool a call finish_reason) i name args (s, t) = (Inl e, s', t')"
  shows "durable_failure a rt e"
proof (cases "es_outcome (rt_sink rt) (ev 0) (rt_context rt) i s")
  case (Inl x)
  with assms show ?thesis by (auto simp: tool_def intro: lookup_failed)
next
  case (Inr found)
  show ?thesis
  proof (cases found)
    case (Some o')
    with Inr assms show ?thesis by (auto simp: tool_def intro: stored_unknown)
  next
    case None
    with Inr assms show ?thesis
      unfolding tool_def
      by (auto simp: st_then_eq_Inl on_sink_def on_world_def st_simps map_err_def split: prod.splits sum.splits if_splits
          intro: commit_failed already_started outcome_not_committed unknown_result)
  qed
qed

lemma raises_publish:
  assumes "ag_runtime a = Some rt"
  shows "raises (publish rt suffix limit payload body) (chat_error a)"
  unfolding raises_def publish_def Let_def
proof (intro allI impI, goal_cases)
  case (1 w e w')
  let ?key = "model_key (aw_state w) @ suffix"
  obtain t d where t: "text_of (rt_digest rt) (rt_context rt) ?key body limit = (t, d)" by fastforce
  have "raises (st_then (with_sink (es_commit (rt_sink rt) (rt_env rt ?key 0)
      (command (rt_digest rt) (rt_context rt) ?key (Public (payload t)) d))) (\<lambda>_. st_ok ())) (service_error a)"
    by (rule raises_then [OF raises_sink [OF assms]]) (auto intro: commit_failed)
  with raises_weaken [OF this] 1 t show ?case unfolding raises_def by auto
qed

lemma raises_reports: "raises (check_cancelled a) (chat_error a)" "raises (boundary a) E" "raises (stop_now a) E" "raises next_iteration E"
    "raises (record_validation a passed body) (chat_error a)" "raises (preparing a) (chat_error a)"
    "raises (validate_chartml_blocks_detailed a content) E" "raises (retry_later ms) E"
  unfolding boundary_def stop_now_def next_iteration_def record_validation_def preparing_def
    validate_chartml_blocks_detailed_def retry_later_def
  by (auto intro!: raises_then raises_publish raises_cancellation split: option.splits)

lemma raises_failed: "raises (validation_failed a content err attempt part) (chat_error a)"
  unfolding validation_failed_def log_failure_def by (auto intro!: raises_then raises_reports)

lemma raises_only: "raises m E \<Longrightarrow> raises (only_bare a m) E" "raises m E \<Longrightarrow> raises (only_durable a m) E"
  by (auto simp: only_bare_def only_durable_def)

lemma raises_tool: "raises (run_tool a finish_reason call) (chat_error a)"
proof (cases "ag_runtime a")
  case (Some rt)
  have "raises (durable_tool a rt finish_reason call) (service_error a)"
    unfolding raises_def durable_tool_def Let_def
  proof (intro allI impI, goal_cases)
    case (1 w e w')
    then obtain r s t where run: "tool (rt_digest rt) (rt_sink rt) (rt_env rt (identity (rt_digest rt) (rt_context rt) ''tool''
          (''call-'' @ show_nat (unat (as_iteration (aw_state w))) @ ''-'' @ tc_id call))) (rt_context rt) (runtime_tool a call finish_reason)
        (identity (rt_digest rt) (rt_context rt) ''tool'' (''call-'' @ show_nat (unat (as_iteration (aw_state w))) @ ''-'' @ tc_id call))
        (tc_name call) (tc_arguments call) (aw_sink w, aw_out w) = (r, s, t)" and e: "map_sum runtime_error to_text r = Inl e"
      by (auto split: prod.splits)
    from e obtain x where x: "r = Inl x" "e = runtime_error x" by (cases r) auto
    with tool_fails [OF run [unfolded x(1)]] Some show ?case unfolding service_error_def by auto
  qed
  with Some show ?thesis by (simp add: run_tool_def raises_weaken)
qed (auto simp: run_tool_def)

lemma raises_tools: "raises (run_tools a finish_reason calls) (chat_error a)"
  by (induction calls) (auto intro!: raises_then raises_only raises_reports raises_tool)

lemma raises_response: "raises (turn_response a r) (chat_error a)"
proof -
  note parts = raises_then raises_reports raises_failed raises_only raises_tools raises_none
  have "raises (account a r) (chat_error a)" unfolding account_def Let_def by (auto intro!: parts split: option.splits)
  moreover have "raises (final_turn a r) (chat_error a)" unfolding final_turn_def Let_def by (auto intro!: parts split: option.splits)
  moreover have "raises (tool_turn a r calls) (chat_error a)" for calls
    unfolding tool_turn_def tool_round_def tool_turn_charts_def Let_def by (auto intro!: parts split: option.splits)
  ultimately show ?thesis unfolding turn_response_def by (auto intro!: parts split: option.splits)
qed

lemma raises_llm:
  fixes a :: "('v, 's, 't) agent"
  shows "raises (call_llm a messages tools) (service_error a)"
proof (cases "ag_runtime a")
  case None
  then show ?thesis by (auto simp: raises_def call_llm_def outside_def service_error_def split: prod.splits) (metis fst_conv)
next
  case (Some rt)
  have "raises (st_then (ask (provider_complete a messages tools)) (\<lambda>answer.
      with_sink (complete (rt_digest rt) (rt_sink rt) (rt_env rt key) (rt_context rt) key answer))) (service_error a)" for key
  proof (rule raises_after)
    fix w answer and w' :: "('s, 't) agent_world" assume "ask (provider_complete a messages tools) w = (Inr answer, w')"
    then have answer: "answer = fst (provider_complete a messages tools (aw_out w))" by (auto simp: ask_def outside_def split: prod.splits)
    show "raises (with_sink (complete (rt_digest rt) (rt_sink rt) (rt_env rt key) (rt_context rt) key answer)) (service_error a)"
    proof (rule raises_sink [OF Some])
      fix s x s' assume "complete (rt_digest rt) (rt_sink rt) (rt_env rt key) (rt_context rt) key answer s = (Inl x, s')"
      from complete_fails [OF this] consider "answer = Inl x" | v c s s' where "es_commit (rt_sink rt) v c s = (Inl x, s')" by blast
      then show "durable_failure a rt x"
      proof cases
        case 1
        with answer show ?thesis by (auto simp: provider_complete_def intro: model_failed split: prod.splits sum.splits)
      qed (rule commit_failed)
    qed
  qed simp
  with Some show ?thesis by (auto simp: call_llm_def intro!: raises_then [OF raises_none(6)])
qed

lemma model_call:
  fixes a :: "('v, 's, 't) agent"
  shows raises_call: "raises (call_or_cancel a messages tools) (chat_error a)"
    and failed_call: "call_or_cancel a messages tools w = (Inr (Inl d), w') \<Longrightarrow> service_error a d"
proof -
  let ?live = "\<lambda>w. case call_llm a messages tools w of (r, w') \<Rightarrow> (Inr r, w')"
  let ?drop = "\<lambda>n. st_then (dropped_call a messages tools n) (\<lambda>_. st_err cancelled)"
  have dropped: "raises (dropped_call a messages tools n) E" for n E
  proof -
    have "raises (\<lambda>w. case commit_all k ev (take m (c key)) (aw_sink w) of (_, s) \<Rightarrow> (Inr (), w\<lparr>aw_sink := s\<rparr>)) E" for k ev m c and key :: string
      by (auto simp: raises_def split: prod.splits)
    then show ?thesis unfolding dropped_call_def by (auto intro!: raises_then split: nat.splits option.splits sum.splits prod.splits)
  qed
  show "raises (call_or_cancel a messages tools) (chat_error a)"
    unfolding call_or_cancel_def
  proof (rule raises_after)
    fix w cut and w' :: "('s, 't) agent_world" assume "ask (ag_cut a) w = (Inr cut, w')"
    then have cut: "cut = fst (ag_cut a (aw_out w))" by (auto simp: ask_def outside_def split: prod.splits)
    have "raises ?live (chat_error a)" by (auto simp: raises_def split: prod.splits)
    moreover have "raises (?drop n) (chat_error a)" if "cut = Some n" for n
      using that cut by (intro raises_then [OF dropped] raises_cancelled) (auto simp: cancellation_seen_def)
    ultimately show "raises (case cut of Some n \<Rightarrow> ?drop n | None \<Rightarrow> ?live) (chat_error a)" by (cases cut) auto
  qed simp
  show "service_error a d" if call: "call_or_cancel a messages tools w = (Inr (Inl d), w')"
  proof -
    obtain cut w1 where after: "(case cut of Some n \<Rightarrow> ?drop n | None \<Rightarrow> ?live) w1 = (Inr (Inl d), w')"
      using call unfolding call_or_cancel_def st_then_eq_Inr by blast
    then show ?thesis
    proof (cases cut)
      case None
      with after raises_llm [of a messages tools] show ?thesis by (auto simp: raises_def split: prod.splits)
    qed (auto simp: st_then_eq_Inr st_simps)
  qed
qed

lemma raises_wrap_up:
  fixes a :: "('v, 's, 't) agent"
  shows "raises (wrap_up a) (chat_error a)"
proof -
  note parts = raises_then raises_reports raises_failed raises_none
  have "raises (degrade a content) (chat_error a)" for content
    unfolding degrade_def by (auto intro!: parts split: option.splits)
  then have ending: "raises (case called of Inl _ \<Rightarrow> st_err (Internal WRAP_UP_FAILED_MESSAGE)
      | Inr r \<Rightarrow> st_then (degrade a (final_response_text r)) (\<lambda>content. st_then (push (assistant_message content)) (\<lambda>_. st_ok content))) (chat_error a)"
    if "\<And>d. called = Inl d \<Longrightarrow> service_error a d" for called :: "app_error + llm_response"
    using that by (cases called) (auto simp: raises_def [of "st_err _"] st_simps chat_error_def intro!: parts)
  have called: "raises (st_then (call_or_cancel a messages []) (\<lambda>called. case called of Inl _ \<Rightarrow> st_err (Internal WRAP_UP_FAILED_MESSAGE)
      | Inr r \<Rightarrow> st_then (degrade a (final_response_text r)) (\<lambda>content. st_then (push (assistant_message content)) (\<lambda>_. st_ok content)))) (chat_error a)" for messages
  proof (rule raises_after [OF raises_call ending])
    fix w called d and w' :: "('s, 't) agent_world"
    assume "call_or_cancel a messages [] w = (Inr called, w')" "called = Inl d"
    then show "service_error a d" using failed_call [of a messages "[]" w d w'] by simp
  qed
  show ?thesis unfolding wrap_up_def by (intro parts called)
qed


subsection \<open>Budget notices\<close>

lemma unat_threshold:
  "unat (ucast ((ucast m :: 64 word) * k div 10) :: 32 word) = unat m * unat k div 10" if "k \<in> {7, 9}" for m :: "32 word"
proof -
  have m: "unat m < 2 ^ 32" using unsigned_less [of m] by simp
  have k: "unat k = 7 \<or> unat k = 9" using that by auto
  have "unat (ucast m * k :: 64 word) = unat m * unat k"
    using m k by (subst unat_mult_lem [THEN iffD1]) (auto simp: unsigned_ucast_eq take_bit_nat_eq_self)
  then have "unat ((ucast m * k :: 64 word) div 10) = unat m * unat k div 10" by (simp add: unat_div)
  moreover have "unat m * unat k div 10 < 2 ^ 32" using m k by auto
  ultimately show ?thesis by (simp add: unsigned_ucast_eq take_bit_nat_eq_self)
qed

definition first_threshold :: "32 word \<Rightarrow> nat" where "first_threshold m = unat m * 7 div 10"
definition last_threshold :: "32 word \<Rightarrow> nat" where "last_threshold m = unat m * 9 div 10"

lemma crossed_thresholds:
  "crossed c i = (if first_threshold (ag_max_iterations c) \<le> unat i then 1 else 0) + (if last_threshold (ag_max_iterations c) \<le> unat i then 1 else 0)"
  using unat_threshold [of 7 "ag_max_iterations c"] unat_threshold [of 9 "ag_max_iterations c"] div_le_mono [of "unat (ag_max_iterations c) * 7" "unat (ag_max_iterations c) * 9" 10]
  by (simp add: crossed_def budget_notice_thresholds_def BUDGET_NOTICE_TENTHS_def word_le_nat_alt first_threshold_def last_threshold_def)

definition expected_notice :: "agent_config \<Rightarrow> nat \<Rightarrow> message option" where
  "expected_notice c n =
     (let m = ag_max_iterations c in
      if n < first_threshold m then None
      else if n < last_threshold m then Some (user_message_of (budget_notice_text (word_of_nat (first_threshold m)) m False))
      else Some (user_message_of (budget_notice_text (word_of_nat (last_threshold m)) m True)))"

text \<open>Which budget notice the request of an iteration carries: none in the first seven tenths of the budget, from
  there one that counts the iterations used when it was raised, replaced from nine tenths on by the last one;
  no threshold is skipped or raised twice, and where both fall on one iteration only the last is given.\<close>

theorem budget_notices:
  assumes "n < unat (ag_max_iterations c)"
  shows "cv_notice (fold (notice_budget c) (map word_of_nat [0..<Suc n]) (fresh_vars now)) = expected_notice c n"
proof -
  let ?m = "ag_max_iterations c" and ?v = "\<lambda>n. fold (notice_budget c) (map word_of_nat [0..<n]) (fresh_vars now)"
  have order: "first_threshold ?m \<le> last_threshold ?m" by (auto simp: first_threshold_def last_threshold_def intro!: div_le_mono)
  have two: "length (budget_notice_thresholds ?m) = 2" by (simp add: budget_notice_thresholds_def BUDGET_NOTICE_TENTHS_def)
  have "cv_notice (?v (Suc n)) = expected_notice c n \<and> cv_fired (?v (Suc n)) = crossed c (word_of_nat n)" if "n < unat ?m" for n
    using that
  proof (induction n)
    case 0
    show ?case using order by (auto simp: notice_budget_def fresh_vars_def crossed_thresholds expected_notice_def two Let_def)
  next
    case (Suc n)
    have small: "unat (word_of_nat k :: 32 word) = k" if "k \<le> Suc n" for k
    proof -
      have "unat ?m < 2 ^ 32" using unsigned_less [of ?m] by simp
      with that Suc.prems have "k < 2 ^ 32" by simp
      then show ?thesis by (simp add: unat_of_nat)
    qed
    define v where "v = ?v (Suc n)"
    have step: "?v (Suc (Suc n)) = notice_budget c (word_of_nat (Suc n)) v" by (simp add: v_def)
    from Suc have IH: "cv_notice v = expected_notice c n" "cv_fired v = crossed c (word_of_nat n)" by (auto simp: v_def)
    have fired: "crossed c (word_of_nat (Suc n)) = (if first_threshold ?m \<le> Suc n then 1 else 0) + (if last_threshold ?m \<le> Suc n then 1 else 0)"
        "crossed c (word_of_nat n) = (if first_threshold ?m \<le> n then 1 else 0) + (if last_threshold ?m \<le> n then 1 else 0)"
      unfolding crossed_thresholds using small [of n] small [of "Suc n"] by simp_all
    show ?case unfolding step
      using order fired by (auto simp: notice_budget_def IH two expected_notice_def Let_def le_Suc_eq)
  qed
  with assms show ?thesis by blast
qed

subsection \<open>A run\<close>

text \<open>An agent without a runtime whose model asks for a tool twice and then answers with a chart and a broken one; the
  outside counts the model's calls.\<close>

definition sample_usage :: agent_token_usage where
  "sample_usage = \<lparr>au_input = 10, au_output = 5, au_cache_creation = 0, au_cache_read = 100, au_reasoning = 0\<rparr>"

definition sample_response :: "string \<Rightarrow> tool_call list option \<Rightarrow> llm_response" where
  "sample_response content calls = \<lparr>lr_raw = JNull, lr_content = content, lr_finish_reason = ''end_turn'', lr_usage = sample_usage,
     lr_tool_calls = calls, lr_cost = None, lr_thinking = None\<rparr>"

definition sample_call :: "string \<Rightarrow> string \<Rightarrow> tool_call" where
  "sample_call i name = \<lparr>tc_id = i, tc_name = name, tc_arguments = JNull, tc_error = None\<rparr>"

definition chart_text :: "string \<Rightarrow> string" where
  "chart_text body = fence @ ''chartml'' @ [newline] @ body @ [newline] @ fence"

definition sample_answer :: string where "sample_answer = chart_text ''chart'' @ [newline] @ chart_text ''?''"

definition sample_provider :: "message list \<Rightarrow> tool_definition list \<Rightarrow> nat \<Rightarrow> (app_error + llm_response) \<times> nat" where
  "sample_provider messages tools n =
     (if tools = [] then (Inr (sample_response sample_answer None), n + 1)
      else if n = 7 then (Inl (TooManyRequests ''busy'' 5), n + 1)
      else (Inr (sample_response '''' (Some [sample_call ''1'' ''query'', sample_call ''2'' ''drop''])), n + 1))"

definition sample_query :: "nat agent_tool" where
  "sample_query = \<lparr>at_name = ''query'', at_description = '''', at_schema = JNull, at_copilot_only = False, at_mcp_only = False,
     at_outcome = \<lambda>_. DomainSucceeded, at_failure_outcome = DomainUnknown, at_execute = \<lambda>_ n. (Inr ''3 rows'', n)\<rparr>"

definition sample_chart_libs :: chart_libs where
  "sample_chart_libs = sample_libs\<lparr>cl_yaml := \<lambda>body. if body = ''chart'' @ [newline] then Inr sample_chart else Inl ''no YAML''\<rparr>"

definition sample_config :: agent_config where
  "sample_config = \<lparr>ag_max_iterations = 2, ag_max_duration = None, ag_max_total_tokens = Some 1000,
     ag_tool_filter = \<lparr>fi_exclude_copilot_only = True, fi_exclude_mcp_only = True, fi_include_only = None\<rparr>\<rparr>"

definition sample_agent :: "(unit, unit, nat) agent" where
  "sample_agent = \<lparr>ag_config = sample_config,
     ag_runtime = None, ag_registry = [(''query'', sample_query)], ag_provider = sample_provider, ag_response_json = \<lambda>_. JNull,
     ag_db_text = \<lambda>_. '''', ag_charts = sample_chart_libs, ag_dry_run = \<lambda>_ _ n. (Inr (), n), ag_cancelled = \<lambda>n. (False, n),
     ag_cut = \<lambda>n. (None, n), ag_now = \<lambda>n. (0, n), ag_progress = \<lambda>_ n. n, ag_callback = \<lambda>_ n. n, ag_boundary = \<lambda>_ n. n,
     ag_log_failure = \<lambda>_ _ _ _ _ n. n, ag_settle_log = \<lambda>_ n. n\<rparr>"

definition sample_agent_world :: "nat \<Rightarrow> (unit, nat) agent_world" where
  "sample_agent_world n = \<lparr>aw_state = new_agent_state, aw_vars = fresh_vars 0, aw_sink = (), aw_out = n\<rparr>"

definition sample_run :: "(app_error + string) \<times> (unit, nat) agent_world" where
  "sample_run = chat sample_agent ''sales'' None (Some ''web'') None (sample_agent_world 0)"

definition sample_left :: string where "sample_left = chart_text ''chart'' @ [newline] @ CHARTML_STRIPPED_NOTE"

text \<open>The run is evaluated from the outside in, one action at a time: the congruences leave what comes later alone.\<close>

lemma st_then_run: "st_then m f w = (case m w of (Inl e, w') \<Rightarrow> (Inl e, w') | (Inr x, w') \<Rightarrow> f x w')" by (simp add: st_then_def)

lemmas step_simps = st_then_run st_simps check_cancelled_def stop_now_def ask_def outside_def gets_def effect_def push_def change_state_def change_vars_def
  next_iteration_def call_or_cancel_def call_llm_def only_bare_def only_durable_def boundary_def Let_def agent_turn_def turn_response_def account_def
  tool_turn_def tool_round_def tool_turn_charts_def run_tool_def validate_chartml_blocks_detailed_def validation_failed_def log_failure_def
  record_validation_def preparing_def check_stop_conditions_def

lemmas weak_congs = if_weak_cong prod.case_cong_weak sum.case_cong_weak option.case_cong_weak turn.case_cong_weak

lemma sample_agent_simps:
  "ag_config sample_agent = sample_config" "ag_runtime sample_agent = None" "ag_registry sample_agent = [(''query'', sample_query)]"
  "ag_provider sample_agent = sample_provider" 
  "ag_cancelled sample_agent n = (False, n)" "ag_cut sample_agent n = (None, n)" "ag_now sample_agent n = (0, n)"
  "ag_progress sample_agent p n = n" "ag_callback sample_agent p n = n" "ag_boundary sample_agent ms n = n"
  "ag_log_failure sample_agent x1 x2 x3 x4 x5 n = n" "ag_settle_log sample_agent b n = n"
  by (simp_all add: sample_agent_def)

lemma sample_config_simps: "ag_max_iterations sample_config = 2" "ag_max_duration sample_config = None" "ag_max_total_tokens sample_config = Some 1000"
  by (simp_all add: sample_config_def)

lemma sample_crossed: "crossed sample_config 0 = 0" "crossed sample_config 1 = 2" by code_simp+

lemma sample_tools: "get_tool_definitions (ag_tool_filter sample_config) [(''query'', sample_query)] \<noteq> []" by code_simp

lemma sample_values: "has_chartml_blocks [] \<longleftrightarrow> False" "has_chartml_blocks sample_answer" "sample_answer \<noteq> []" "strip_chartml_blocks sample_answer {Suc 0} = sample_left"
  "map fst (fst (chartml_sql_block_errors sample_agent sample_answer 3)) = [1]" "snd (chartml_sql_block_errors sample_agent sample_answer 3) = 3"
  by code_simp+

lemma sample_validated: "\<exists>text. chartml_sql_block_errors sample_agent sample_answer 3 = ([(1, text)], 3)"
  using sample_values(5,6) by (cases "chartml_sql_block_errors sample_agent sample_answer 3") (auto simp: map_eq_Cons_conv)

lemma sample_execute: "execute_tool sample_agent (sample_call i ''query'') n = (''3 rows'', n)"
  "tc_error (sample_call i name) = None"
  "execute_tool sample_agent (sample_call i ''drop'') n = (unknown_tool_message [(''query'', sample_query)] ''drop'', n)"
  by (simp_all add: execute_tool_def sample_agent_simps sample_call_def get_tool_def announce_def sample_query_def)

lemmas sample_simps = sample_agent_simps sample_config_simps sample_crossed sample_tools sample_values(1-4) sample_execute notice_budget_def

lemma loop_twice: "agent_loop a 2 i = st_then (agent_turn a i) (\<lambda>turn. case turn of Again \<Rightarrow> agent_loop a 1 (i + 1) | _ \<Rightarrow> st_ok turn)"
  unfolding numeral_2_eq_2 One_nat_def by simp

lemma sample_run_answer: "fst sample_run = Inr sample_left" "aw_out (snd sample_run) = 3"
proof -
  obtain err where "chartml_sql_block_errors sample_agent sample_answer 3 = ([(1, err)], 3)" using sample_validated by blast
  then have checked: "chartml_sql_block_errors sample_agent sample_answer (Suc (Suc (Suc 0))) = ([(1, err)], Suc (Suc (Suc 0)))"
    by (simp add: eval_nat_numeral)
  have "fst sample_run = Inr sample_left \<and> aw_out (snd sample_run) = 3"
    unfolding sample_run_def chat_def sample_agent_world_def
    by (simp add: step_simps sample_simps sample_provider_def sample_response_def sample_usage_def fresh_vars_def total_input_def billable_def
        loop_twice wrap_up_def degrade_def final_response_text_def checked cong: weak_congs)
  then show "fst sample_run = Inr sample_left" "aw_out (snd sample_run) = 3" by auto
qed

lemma sample_counts: "counts (\<lambda>n. n) (\<lambda>_. 1) sample_agent"
  by (simp add: counts_def sample_agent_def sample_provider_def get_tool_def sample_query_def)

theorem chat_is_bounded_witness:
  "aw_out (snd sample_run) = 3 \<and> unat (ag_max_iterations (ag_config sample_agent)) = 2
   \<and> (\<exists>k \<le> 3. as_iteration (aw_state (snd sample_run)) = word_of_nat k)"
proof -
  have two: "ag_max_iterations (ag_config sample_agent) = 2" by (simp add: sample_simps)
  have "chat sample_agent ''sales'' None (Some ''web'') None (sample_agent_world 0) = (fst sample_run, snd sample_run)"
    by (simp add: sample_run_def)
  from chat_is_bounded [OF sample_counts this] show ?thesis
    using sample_run_answer(2) by (simp add: two sample_run_def sample_agent_world_def new_agent_state_def)
qed

theorem answers_are_checked_witness:
  "charts_checked sample_agent sample_left 0 3 \<and> markdown_blocks sample_left = [''chart'' @ [newline]]"
proof -
  have order: "order_ok (ag_charts sample_agent)" by (simp add: order_ok_def sample_agent_def sample_chart_libs_def sample_libs_def)
  have run: "chat sample_agent ''sales'' None (Some ''web'') None (sample_agent_world 0) = (Inr sample_left, snd sample_run)"
    using sample_run_answer(1) by (metis prod.collapse sample_run_def)
  have "has_chartml_blocks sample_left" "markdown_blocks sample_left = [''chart'' @ [newline]]" by code_simp+
  with answers_are_checked [OF order run] show ?thesis using sample_run_answer(2) by (simp add: sample_agent_world_def)
qed


theorem budget_notices_witness:
  "cv_notice (fold (notice_budget (ag_config sample_agent)) [0, 1] (fresh_vars 0))
     = Some (user_message_of (budget_notice_text 1 2 True))"
proof -
  let ?c = "ag_config sample_agent"
  have two: "ag_max_iterations ?c = 2" by (simp add: sample_simps)
  have "map word_of_nat [0..<Suc 1] = [0, 1 :: 32 word]" by simp
  moreover have "expected_notice ?c 1 = Some (user_message_of (budget_notice_text 1 2 True))"
    unfolding expected_notice_def two by (simp add: first_threshold_def last_threshold_def)
  ultimately show ?thesis using budget_notices [of 1 ?c 0] two by simp
qed

subsection \<open>Two gaps\<close>

text \<open>\<open>has_chartml_blocks\<close> looks for the opening fence literally, the scanner trims the language: a chart whose fence has
  a space before the language is a block, and is returned without a check.\<close>

lemma spaced_fence_is_not_checked:
  "markdown_blocks (fence @ '' chartml'' @ [newline] @ ''?'' @ [newline] @ fence) = [''?'' @ [newline]]"
  "\<not> has_chartml_blocks (fence @ '' chartml'' @ [newline] @ ''?'' @ [newline] @ fence)"
  by code_simp+

text \<open>The filter only selects the definitions a request offers: a call of any registered tool runs.\<close>

lemma filter_is_not_enforced:
  "execute_tool (a\<lparr>ag_config := c\<rparr>) call t = execute_tool a call t"
  "runtime_tool (a\<lparr>ag_config := c\<rparr>) call finish_reason t = runtime_tool a call finish_reason t"
proof -
  have "announce (a\<lparr>ag_config := c\<rparr>) = announce a" by (simp add: announce_def fun_eq_iff)
  then show "execute_tool (a\<lparr>ag_config := c\<rparr>) call t = execute_tool a call t"
    by (auto simp: execute_tool_def Let_def split: option.splits sum.splits prod.splits)
  show "runtime_tool (a\<lparr>ag_config := c\<rparr>) call finish_reason t = runtime_tool a call finish_reason t"
    by (auto simp: runtime_tool_def split: option.splits sum.splits prod.splits)
qed

end
