(* ===== verification/Retry_Cancel.thy ===== *)
theory Retry_Cancel
  imports Core_Errors Complex_Main
begin

text \<open>
  Two helpers of \<open>crates/kyomi-core\<close>: the retry loop with backoff (\<open>retry.rs\<close>) and the registry of
  cancellation tokens (\<open>cancel_registry.rs\<close>).

  The retried operation is a parameter, a function of the world that may not return; the loop is a
  \<open>partial_function\<close>, so that it returns is a theorem. Each call's jitter is drawn from the parameter
  \<open>jitter\<close>; delays are seconds as rationals, without the rounding of their one product in \<open>f64\<close>. A
  cancellation token of the runtime is a number; the world keeps the set of cancelled ones.
\<close>

subsection \<open>Backoff\<close>

definition MAX_RETRIES :: "32 word" where "MAX_RETRIES = 10"
definition INITIAL_INTERVAL_SECS :: rat where "INITIAL_INTERVAL_SECS = 1"
definition MAX_INTERVAL :: rat where "MAX_INTERVAL = 30"
definition MULTIPLIER :: rat where "MULTIPLIER = 2"

definition backoff_delay :: "(nat \<Rightarrow> rat) \<Rightarrow> 32 word \<Rightarrow> rat" where
  "backoff_delay jitter i =
     (let base = INITIAL_INTERVAL_SECS * MULTIPLIER ^ unat i;
          capped = min base MAX_INTERVAL
      in min (capped * jitter (unat i)) MAX_INTERVAL)"

definition jitter_ok :: "(nat \<Rightarrow> rat) \<Rightarrow> bool" where
  "jitter_ok jitter \<longleftrightarrow> (\<forall>i. 1 / 2 \<le> jitter i \<and> jitter i \<le> 3 / 2)"

subsection \<open>The loop\<close>

text \<open>The result, the delays slept, and the world.\<close>

partial_function (option) retry_loop ::
  "('s \<Rightarrow> (('e + 'a) \<times> 's) option) \<Rightarrow> ('e \<Rightarrow> bool) \<Rightarrow> (nat \<Rightarrow> rat) \<Rightarrow> 32 word \<Rightarrow> rat list \<Rightarrow> 's
   \<Rightarrow> (('e + 'a) \<times> rat list \<times> 's) option" where
  "retry_loop operation transient jitter attempt slept s =
     (let attempt = attempt + 1 in
      case operation s of
        None \<Rightarrow> None
      | Some (Inr v, s') \<Rightarrow> Some (Inr v, slept, s')
      | Some (Inl e, s') \<Rightarrow>
          if \<not> transient e then Some (Inl e, slept, s')
          else if attempt - 1 \<ge> MAX_RETRIES then Some (Inl e, slept, s')
          else retry_loop operation transient jitter attempt (slept @ [backoff_delay jitter (attempt - 1)]) s')"

declare retry_loop.simps [code]

definition retry_with_backoff_classified where
  "retry_with_backoff_classified operation transient jitter s = retry_loop operation transient jitter 0 [] s"

definition retry_with_backoff ::
  "('s \<Rightarrow> ((app_error + 'a) \<times> 's) option) \<Rightarrow> (nat \<Rightarrow> rat) \<Rightarrow> 's \<Rightarrow> ((app_error + 'a) \<times> rat list \<times> 's) option" where
  "retry_with_backoff operation jitter s = retry_with_backoff_classified operation is_transient jitter s"

definition is_transient_http_status :: "16 word \<Rightarrow> bool" where
  "is_transient_http_status status \<longleftrightarrow> status \<in> {429, 502, 503, 504}"

subsection \<open>What the loop computes\<close>

text \<open>A reference: the outcomes of successive calls, and the first that ends the loop.\<close>

primrec world_after :: "('s \<Rightarrow> (('e + 'a) \<times> 's) option) \<Rightarrow> nat \<Rightarrow> 's \<Rightarrow> 's" where
  "world_after operation 0 s = s"
| "world_after operation (Suc n) s = snd (the (operation (world_after operation n s)))"

definition outcome :: "('s \<Rightarrow> (('e + 'a) \<times> 's) option) \<Rightarrow> nat \<Rightarrow> 's \<Rightarrow> 'e + 'a" where
  "outcome operation n s = fst (the (operation (world_after operation n s)))"

definition again :: "('e \<Rightarrow> bool) \<Rightarrow> 'e + 'a \<Rightarrow> bool" where
  "again transient r = (case r of Inl e \<Rightarrow> transient e | Inr _ \<Rightarrow> False)"

definition calls_made :: "('s \<Rightarrow> (('e + 'a) \<times> 's) option) \<Rightarrow> ('e \<Rightarrow> bool) \<Rightarrow> 's \<Rightarrow> nat" where
  "calls_made operation transient s =
     length (takeWhile (\<lambda>n. again transient (outcome operation n s)) [0..<10]) + 1"

lemma retry_loop_from:
  assumes "\<And>s. operation s \<noteq> None" "n \<le> 10"
    "\<forall>i < n. again transient (outcome operation i s)"
  shows "retry_loop operation transient jitter (word_of_nat n) (map (\<lambda>i. backoff_delay jitter (word_of_nat i)) [0..<n])
      (world_after operation n s)
    = (let k = calls_made operation transient s in
       Some (outcome operation (k - 1) s, map (\<lambda>i. backoff_delay jitter (word_of_nat i)) [0..<k - 1], world_after operation k s))"
  using assms(2,3)
proof (induction "10 - n" arbitrary: n)
  case (0 n)
  then have n: "n = 10" by simp
  have all: "takeWhile (\<lambda>n. again transient (outcome operation n s)) [0..<10] = [0..<10]"
    using 0 n by (simp add: takeWhile_eq_all_conv)
  have k: "calls_made operation transient s = 11" unfolding calls_made_def all by simp
  obtain r s' where step: "operation (world_after operation 10 s) = Some (r, s')" using assms(1) by (metis not_None_eq surj_pair)
  have "outcome operation 10 s = r" "world_after operation 11 s = s'"
    using step by (simp_all add: outcome_def eval_nat_numeral)
  then show ?case unfolding k n
    by (subst retry_loop.simps) (simp add: step MAX_RETRIES_def split: sum.split)
next
  case (Suc m n)
  then have n: "n < 10" by simp
  obtain r s' where step: "operation (world_after operation n s) = Some (r, s')" using assms(1) by (metis not_None_eq surj_pair)
  have r: "outcome operation n s = r" "world_after operation (Suc n) s = s'" using step by (simp_all add: outcome_def)
  have small: "\<not> MAX_RETRIES \<le> (word_of_nat n :: 32 word)"
    using n by (simp add: MAX_RETRIES_def word_le_nat_alt unat_of_nat)
  show ?case
  proof (cases "again transient r")
    case True
    then obtain e where e: "r = Inl e" "transient e" by (auto simp: again_def split: sum.splits)
    have next_word: "(word_of_nat n :: 32 word) + 1 = word_of_nat (Suc n)" by simp
    have "retry_loop operation transient jitter (word_of_nat n) (map (\<lambda>i. backoff_delay jitter (word_of_nat i)) [0..<n]) (world_after operation n s)
      = retry_loop operation transient jitter (word_of_nat (Suc n)) (map (\<lambda>i. backoff_delay jitter (word_of_nat i)) [0..<Suc n])
         (world_after operation (Suc n) s)"
      by (subst retry_loop.simps) (simp add: step e small r(2) [symmetric] add.commute del: world_after.simps)
    also have "\<dots> = (let k = calls_made operation transient s in
       Some (outcome operation (k - 1) s, map (\<lambda>i. backoff_delay jitter (word_of_nat i)) [0..<k - 1], world_after operation k s))"
      using Suc.hyps(2) n Suc.prems(2) r(1) True by (intro Suc.hyps(1)) (auto simp: less_Suc_eq)
    finally show ?thesis .
  next
    case False
    have "takeWhile (\<lambda>n. again transient (outcome operation n s)) ([0..<n] @ n # [Suc n..<10]) = [0..<n]"
      using Suc.prems(2) False r(1) by (subst takeWhile_append2) auto
    moreover have "[0..<10] = [0..<n] @ n # [Suc n..<10]" using n by (metis upt_add_eq_append upt_conv_Cons zero_le le_add_diff_inverse less_imp_le)
    ultimately have k: "calls_made operation transient s = Suc n" by (simp add: calls_made_def)
    show ?thesis unfolding k
      by (subst retry_loop.simps) (use False in \<open>simp add: step r again_def Let_def split: sum.splits\<close>)
  qed
qed

lemma calls_made_bound: "1 \<le> calls_made operation transient s \<and> calls_made operation transient s \<le> 11"
  using length_takeWhile_le [of "\<lambda>n. again transient (outcome operation n s)" "[0..<10]"] by (simp add: calls_made_def)

lemma calls_made_first:
  "(\<forall>i < calls_made operation transient s - 1. again transient (outcome operation i s))
   \<and> (again transient (outcome operation (calls_made operation transient s - 1) s) \<longrightarrow> calls_made operation transient s = 11)"
proof -
  let ?p = "\<lambda>n. again transient (outcome operation n s)"
  have "?p ([0..<10] ! i)" if "i < length (takeWhile ?p [0..<10])" for i
    using that takeWhile_nth [OF that] set_takeWhileD nth_mem by metis
  then have "?p i" if "i < length (takeWhile ?p [0..<10])" for i
    using that length_takeWhile_le [of ?p "[0..<10]"] by force
  moreover have "\<not> ?p (length (takeWhile ?p [0..<10]))" if "length (takeWhile ?p [0..<10]) < 10"
    using nth_length_takeWhile [of ?p "[0..<10]"] that by simp
  moreover have "length (takeWhile ?p [0..<10]) \<le> 10" using length_takeWhile_le [of ?p "[0..<10]"] by simp
  ultimately show ?thesis
    by (cases "length (takeWhile ?p [0..<10]) < 10") (simp_all add: calls_made_def)
qed

text \<open>The delays.\<close>

lemma delay_bounds:
  assumes "jitter_ok jitter"
  shows "0 < backoff_delay jitter i \<and> backoff_delay jitter i \<le> 30 \<and> backoff_delay jitter i \<le> 3 / 2 * 2 ^ unat i"
proof -
  have j: "1 / 2 \<le> jitter (unat i)" "jitter (unat i) \<le> 3 / 2" using assms by (simp_all add: jitter_ok_def)
  have "min (2 ^ unat i) 30 * jitter (unat i) \<le> 2 ^ unat i * (3 / 2)" 
    using j by (intro mult_mono) auto
  moreover have "0 < min (2 ^ unat i) 30 * jitter (unat i)" using j by (intro mult_pos_pos) auto
  ultimately show ?thesis
    by (simp add: backoff_delay_def INITIAL_INTERVAL_SECS_def MULTIPLIER_def MAX_INTERVAL_def min_le_iff_disj mult.commute)
qed

lemma delays_total:
  assumes "jitter_ok jitter" "k \<le> 10"
  shows "sum_list (map (\<lambda>i. backoff_delay jitter (word_of_nat i)) [0..<k]) \<le> 393 / 2"
proof -
  define d where "d = (\<lambda>i. backoff_delay jitter (word_of_nat i))"
  define b :: "nat \<Rightarrow> rat" where "b = (\<lambda>i. min 30 (3 / 2 * 2 ^ i))"
  have "d i \<le> b i" if "i < 10" for i
    using delay_bounds [OF assms(1), of "word_of_nat i"] that by (simp add: d_def b_def unat_of_nat)
  moreover have "0 \<le> b i" for i by (simp add: b_def)
  ultimately have "sum_list (map d [0..<k]) \<le> sum_list (map b [0..<k])"
    using assms(2) by (intro sum_list_mono) auto
  also have "\<dots> \<le> sum_list (map b [0..<k]) + sum_list (map b [k..<10])"
    using \<open>\<And>i. 0 \<le> b i\<close> by (auto intro!: sum_list_nonneg)
  also have "\<dots> = sum_list (map b [0..<10])"
    using assms(2) by (metis le_add_diff_inverse map_append sum_list_append upt_add_eq_append zero_le)
  also have "\<dots> = 393 / 2" by (simp add: b_def upt_rec)
  finally show ?thesis unfolding d_def .
qed

text \<open>C39: The retry loop ends. If the operation always returns, the loop returns after between one and
  eleven calls, and what it returns is exactly the outcome of the first call that succeeded or failed
  for good, or of the eleventh if there was none; between two calls it sleeps once, never for more than
  thirty seconds, and over the whole loop for at most 196.5 seconds.\<close>

theorem retry_ends:
  assumes "\<forall>s. operation s \<noteq> None" "jitter_ok jitter"
  shows "\<exists>k delays. retry_with_backoff_classified operation transient jitter s
       = Some (outcome operation (k - 1) s, delays, world_after operation k s)
     \<and> 1 \<le> k \<and> k \<le> 11 \<and> (\<forall>i < k - 1. again transient (outcome operation i s))
     \<and> (again transient (outcome operation (k - 1) s) \<longrightarrow> k = 11)
     \<and> length delays = k - 1 \<and> (\<forall>d \<in> set delays. 0 < d \<and> d \<le> 30) \<and> sum_list delays \<le> 393 / 2"
proof -
  let ?k = "calls_made operation transient s"
  let ?d = "map (\<lambda>i. backoff_delay jitter (word_of_nat i)) [0..<?k - 1]"
  have "retry_with_backoff_classified operation transient jitter s = Some (outcome operation (?k - 1) s, ?d, world_after operation ?k s)"
    using retry_loop_from [of operation 0 transient s jitter] assms(1)
    by (simp add: retry_with_backoff_classified_def Let_def)
  moreover have "\<forall>d \<in> set ?d. 0 < d \<and> d \<le> 30" using delay_bounds [OF assms(2)] by auto
  moreover have "sum_list ?d \<le> 393 / 2"
    by (rule delays_total [OF assms(2)]) (use calls_made_bound [of operation transient s] in linarith)
  ultimately show ?thesis
    using calls_made_bound [of operation transient s] calls_made_first [of operation transient s]
    by (intro exI [of _ ?k] exI [of _ ?d]) simp
qed

theorem retry_ends_witness:
  "\<exists>k delays. retry_with_backoff_classified (\<lambda>n :: nat. Some (if n < 2 then Inl ''busy'' else Inr n, n + 1)) (\<lambda>_. True) (\<lambda>_. 1) 0
       = Some (outcome (\<lambda>n. Some (if n < 2 then Inl ''busy'' else Inr n, n + 1)) (k - 1) 0, delays,
               world_after (\<lambda>n. Some (if n < 2 then Inl ''busy'' else Inr n :: string + nat, n + 1)) k 0)
     \<and> k \<le> 11"
  using retry_ends [of "\<lambda>n :: nat. Some (if n < 2 then Inl ''busy'' else Inr n :: string + nat, n + 1)" "\<lambda>_. 1" "\<lambda>_. True" 0]
  by (force simp: jitter_ok_def)

subsection \<open>The cancellation registry\<close>

record cancel_world =
  cr_tokens :: "(string \<times> string) \<rightharpoonup> nat"
  cr_cancelled :: "nat set"

definition register :: "string \<Rightarrow> string \<Rightarrow> nat \<Rightarrow> cancel_world \<Rightarrow> cancel_world" where
  "register user session token w = w\<lparr>cr_tokens := (cr_tokens w)((user, session) \<mapsto> token)\<rparr>"

definition cancel :: "string \<Rightarrow> string \<Rightarrow> cancel_world \<Rightarrow> bool \<times> cancel_world" where
  "cancel user session w =
     (case cr_tokens w (user, session) of
        Some token \<Rightarrow> (True, w\<lparr>cr_tokens := (cr_tokens w)((user, session) := None), cr_cancelled := insert token (cr_cancelled w)\<rparr>)
      | None \<Rightarrow> (False, w))"

definition unregister :: "string \<Rightarrow> string \<Rightarrow> cancel_world \<Rightarrow> cancel_world" where
  "unregister user session w = w\<lparr>cr_tokens := (cr_tokens w)((user, session) := None)\<rparr>"

text \<open>A registered task is cancelled, and no other.\<close>

lemma cancel_registered:
  "cancel user session (register user session token w) = (True, w') \<Longrightarrow>
   cr_cancelled w' = insert token (cr_cancelled w) \<and> cr_tokens w' = (cr_tokens w)((user, session) := None)"
  by (auto simp: cancel_def register_def)

text \<open>The removal at the end of a task does not look at the token: if a second task of the session was
  registered meanwhile, the end of the first one takes away the second one's token, and a cancel
  request for the second finds nothing.\<close>

lemma finished_task_drops_successor:
  "cancel user session (unregister user session (register user session second (register user session first w)))
   = (False, unregister user session w)"
  by (simp add: cancel_def unregister_def register_def)

end
