(* ===== verification/Stripe_Service.thy ===== *)
theory Stripe_Service
  imports Retry_Cancel Billing_Gate
begin

text \<open>
  The Stripe service of \<open>crates/kyomi-auth/src/stripe_service.rs\<close> and the price table of
  \<open>stripe_config.rs\<close>.

  Stripe is outside: what it answers is the parameter \<open>stripe_api\<close>, one function for each kind of answer,
  of the whole list of requests sent so far, the last of which is the one to answer. So the answers may
  change from call to call in any way, and the state of the service is the list of requests. Objects of
  the Stripe library are records of the fields the code reads; an object of which only the identifier is
  read is that identifier. The texts of errors and statuses and \<open>DateTime::from_timestamp\<close> are
  parameters as well. Metadata is a map. The tier and the status of a subscription, texts in the code,
  are the values of the columns they are written to.
\<close>

subsection \<open>Objects of the Stripe library\<close>

datatype 'a expandable = ExpandId string | ExpandObject 'a

datatype payment_intent_status = PiRequiresAction | PiRequiresConfirmation | PiOther string

record api_errors =
  ae_message :: "string option"
  ae_payment_intent :: "payment_intent_status option"

datatype stripe_error =
    StripeApi api_errors "16 word"
  | StripeTimeout
  | StripeClientError string
  | StripeJson string
  | StripeConfig string

datatype stripe_status =
    StActive | StTrialing | StPastDue | StIncomplete | StCanceled | StUnpaid | StPaused | StIncompleteExpired
  | StUnknown string

record stripe_item =
  it_id :: string
  it_quantity :: "64 word option"
  it_period_start :: int
  it_period_end :: int

record stripe_subscription =
  sb_id :: string
  sb_status :: stripe_status
  sb_cancel_at_period_end :: bool
  sb_metadata :: "string \<Rightarrow> string option"
  sb_items :: "stripe_item list"
  sb_customer :: "string expandable"

datatype invoice_status = InvDraft | InvOpen | InvPaid | InvUncollectible | InvVoid | InvUnknown string

record stripe_invoice =
  iv_id :: "string option"
  iv_status :: "invoice_status option"
  iv_hosted_url :: "string option"
  iv_pdf :: "string option"
  iv_amount_paid :: int
  iv_currency :: string
  iv_created :: int
  iv_subscription :: "string expandable option"

datatype setup_intent_status = SiSucceeded | SiOther string

record setup_intent =
  si_status :: setup_intent_status
  si_payment_method :: "string expandable option"

datatype checkout_mode = ModePayment | ModeSetup | ModeSubscription | ModeUnknown string

datatype checkout_status = CsOpen | CsComplete | CsExpired | CsUnknown string

record checkout_session =
  cs_id :: string
  cs_mode :: checkout_mode
  cs_status :: "checkout_status option"
  cs_payment_status :: string
  cs_metadata :: "(string \<Rightarrow> string option) option"
  cs_customer :: "string expandable option"
  cs_setup_intent :: "setup_intent expandable option"
  cs_subscription :: "stripe_subscription expandable option"
  cs_url :: "string option"
  cs_client_secret :: "string option"

fun expanded_id :: "string expandable \<Rightarrow> string" where
  "expanded_id (ExpandId i) = i"
| "expanded_id (ExpandObject i) = i"

subsection \<open>Requests\<close>

text \<open>A \<open>CreateCheckoutSession\<close>; every one of the code allows cards only. An embedded session never redirects.\<close>

record checkout_request =
  cq_customer :: string
  cq_mode :: checkout_mode
  cq_embedded :: bool
  cq_urls :: "(string \<times> string) option"
  cq_line :: "(string \<times> 64 word) option"
  cq_metadata :: "string \<Rightarrow> string option"
  cq_subscription_metadata :: "(string \<Rightarrow> string option) option"
  cq_trial_days :: "32 word option"
  cq_setup_metadata :: "(string \<Rightarrow> string option) option"
  cq_submit_text :: "string option"
  cq_automatic_tax :: bool
  cq_tax_id :: bool
  cq_update_name :: bool
  cq_update_address :: bool

datatype stripe_request =
    CreateCustomer string string "string \<Rightarrow> string option"
  | CreateSubscription string string "64 word" "32 word" "string \<Rightarrow> string option"
  | CreateCheckoutSession checkout_request
  | RetrieveCheckoutSession string "string list"
  | RetrieveSubscription string
  | UpdateSubscriptionPrice string string string "string \<Rightarrow> string option"
  | SetCancelAtPeriodEnd string bool
  | CancelSubscription string
  | SetCustomerPaymentMethod string string
  | SetSubscriptionPaymentMethod string string
  | CreateItem string string "64 word"
  | DeleteItem string
  | UpdateItemQuantity string "64 word" bool
  | ListInvoices string int
  | ListOpenInvoices string
  | PayInvoice string string
  | RetrieveInvoice string
  | CreatePortalSession string string

record stripe_api =
  sa_customer :: "stripe_request list \<Rightarrow> stripe_error + string"
  sa_subscription :: "stripe_request list \<Rightarrow> stripe_error + stripe_subscription"
  sa_session :: "stripe_request list \<Rightarrow> stripe_error + checkout_session"
  sa_item :: "stripe_request list \<Rightarrow> stripe_error + string"
  sa_invoice :: "stripe_request list \<Rightarrow> stripe_error + stripe_invoice"
  sa_invoices :: "stripe_request list \<Rightarrow> stripe_error + stripe_invoice list"
  sa_portal :: "stripe_request list \<Rightarrow> stripe_error + string \<times> string"
  sa_done :: "stripe_request list \<Rightarrow> stripe_error + unit"
  sa_error_text :: "stripe_error \<Rightarrow> string"
  sa_invoice_status_text :: "invoice_status \<Rightarrow> string"
  sa_checkout_status_text :: "checkout_status \<Rightarrow> string"
  sa_timestamp :: "int \<Rightarrow> int option"
  sa_jitter :: "nat \<Rightarrow> rat"

type_synonym 'a stripe_op = "stripe_request list \<Rightarrow> (stripe_error + 'a) \<times> stripe_request list"

definition send :: "(stripe_request list \<Rightarrow> stripe_error + 'a) \<Rightarrow> stripe_request \<Rightarrow> 'a stripe_op" where
  "send answer req sent = (answer (sent @ [req]), sent @ [req])"

fun is_stripe_transient :: "stripe_error \<Rightarrow> bool" where
  "is_stripe_transient StripeTimeout = True"
| "is_stripe_transient (StripeClientError _) = True"
| "is_stripe_transient (StripeApi _ status) = is_transient_http_status status"
| "is_stripe_transient (StripeJson _) = False"
| "is_stripe_transient (StripeConfig _) = False"

text \<open>The loop of \<open>Retry_Cancel\<close> on an operation that returns; it returns as well (\<open>retried_send\<close>).\<close>

definition retried :: "stripe_api \<Rightarrow> 'a stripe_op \<Rightarrow> 'a stripe_op" where
  "retried api op sent =
     (let (r, _, sent') = the (retry_with_backoff_classified (\<lambda>s. Some (op s)) is_stripe_transient (sa_jitter api) sent)
      in (r, sent'))"

subsection \<open>Subscription data\<close>

record subscription_data =
  sd_tier :: subscription_tier
  sd_status :: subscription_status
  sd_cycle :: "string option"
  sd_user_limit :: int
  sd_period_start :: "int option"
  sd_period_end :: "int option"
  sd_subscription :: string
  sd_customer :: string

fun map_stripe_status :: "stripe_status \<Rightarrow> subscription_status" where
  "map_stripe_status StActive = SubActive"
| "map_stripe_status StTrialing = Trialing"
| "map_stripe_status StPastDue = PastDue"
| "map_stripe_status StIncomplete = PastDue"
| "map_stripe_status StCanceled = SubCancelled"
| "map_stripe_status StUnpaid = SubCancelled"
| "map_stripe_status StPaused = SubCancelled"
| "map_stripe_status StIncompleteExpired = SubCancelled"
| "map_stripe_status (StUnknown _) = SubCancelled"

definition parse_subscription_data :: "stripe_api \<Rightarrow> stripe_subscription \<Rightarrow> subscription_data" where
  "parse_subscription_data api s = \<lparr>
     sd_tier = Cloud,
     sd_status = (if sb_cancel_at_period_end s then SubCancelled else map_stripe_status (sb_status s)),
     sd_cycle = sb_metadata s ''billing_cycle'',
     sd_user_limit = UNLIMITED_USER_LIMIT,
     sd_period_start = (case sb_items s of [] \<Rightarrow> None | i # _ \<Rightarrow> sa_timestamp api (it_period_start i)),
     sd_period_end = (case sb_items s of [] \<Rightarrow> None | i # _ \<Rightarrow> sa_timestamp api (it_period_end i)),
     sd_subscription = sb_id s,
     sd_customer = expanded_id (sb_customer s)\<rparr>"

subsection \<open>Customers and new subscriptions\<close>

definition create_customer :: "stripe_api \<Rightarrow> string \<Rightarrow> string \<Rightarrow> string \<Rightarrow> string stripe_op" where
  "create_customer api email ws name =
     send (sa_customer api) (CreateCustomer email (''Kyomi Workspace: '' @ name)
       [''workspace_id'' \<mapsto> ws, ''workspace_name'' \<mapsto> name, ''app'' \<mapsto> ''kyomi''])"

definition kyomi_metadata :: "string \<Rightarrow> string \<Rightarrow> string option" where
  "kyomi_metadata ws = [''workspace_id'' \<mapsto> ws, ''brand'' \<mapsto> ''kyomi'', ''app'' \<mapsto> ''kyomi'']"

definition create_subscription :: "stripe_api \<Rightarrow> string \<Rightarrow> string \<Rightarrow> 64 word \<Rightarrow> 32 word \<Rightarrow> string \<Rightarrow> subscription_data stripe_op" where
  "create_subscription api customer price quantity trial ws =
     st_then (send (sa_subscription api) (CreateSubscription customer price quantity trial (kyomi_metadata ws)))
       (\<lambda>s. st_ok (parse_subscription_data api s))"

subsection \<open>Checkout sessions\<close>

definition subscription_checkout :: "string \<Rightarrow> string \<Rightarrow> string \<Rightarrow> 64 word \<Rightarrow> 32 word \<Rightarrow> checkout_request" where
  "subscription_checkout customer price ws quantity trial = \<lparr>
     cq_customer = customer, cq_mode = ModeSubscription, cq_embedded = False, cq_urls = None,
     cq_line = Some (price, quantity), cq_metadata = [''workspace_id'' \<mapsto> ws, ''brand'' \<mapsto> ''kyomi''],
     cq_subscription_metadata = Some (kyomi_metadata ws), cq_trial_days = (if trial > 0 then Some trial else None),
     cq_setup_metadata = None, cq_submit_text = Some ''Subscribe to Kyomi Cloud'', cq_automatic_tax = True,
     cq_tax_id = True, cq_update_name = True, cq_update_address = True\<rparr>"

definition payment_checkout :: "string \<Rightarrow> string \<Rightarrow> string \<Rightarrow> string \<Rightarrow> 64 word \<Rightarrow> checkout_request" where
  "payment_checkout customer price ws purchase quantity = \<lparr>
     cq_customer = customer, cq_mode = ModePayment, cq_embedded = False, cq_urls = None,
     cq_line = Some (price, quantity),
     cq_metadata = [''workspace_id'' \<mapsto> ws, ''brand'' \<mapsto> ''kyomi'', ''purchase_type'' \<mapsto> purchase,
       ''bundle_quantity'' \<mapsto> show_nat (unat quantity)],
     cq_subscription_metadata = None, cq_trial_days = None, cq_setup_metadata = None, cq_submit_text = None,
     cq_automatic_tax = True, cq_tax_id = False, cq_update_name = False, cq_update_address = True\<rparr>"

definition hosted_session :: "stripe_api \<Rightarrow> checkout_request \<Rightarrow> (string \<times> string) stripe_op" where
  "hosted_session api req =
     st_then (send (sa_session api) (CreateCheckoutSession req)) (\<lambda>s.
     case cs_url s of
       None \<Rightarrow> st_err (StripeClientError ''Checkout session created but no URL returned'')
     | Some url \<Rightarrow> st_ok (url, cs_id s))"

definition create_checkout_session :: "stripe_api \<Rightarrow> string \<Rightarrow> string \<Rightarrow> string \<Rightarrow> string \<Rightarrow> string \<Rightarrow> 64 word \<Rightarrow> 32 word
    \<Rightarrow> (string \<times> string) stripe_op" where
  "create_checkout_session api customer price success back ws quantity trial =
     hosted_session api ((subscription_checkout customer price ws quantity trial)\<lparr>cq_urls := Some (success, back)\<rparr>)"

definition create_payment_checkout_session :: "stripe_api \<Rightarrow> string \<Rightarrow> string \<Rightarrow> string \<Rightarrow> string \<Rightarrow> string \<Rightarrow> string \<Rightarrow> 64 word
    \<Rightarrow> (string \<times> string) stripe_op" where
  "create_payment_checkout_session api customer price success back ws purchase quantity =
     hosted_session api ((payment_checkout customer price ws purchase quantity)\<lparr>cq_urls := Some (success, back)\<rparr>)"

text \<open>The client's secret and the identifier of an embedded session.\<close>

definition embedded_session :: "stripe_api \<Rightarrow> string \<Rightarrow> checkout_request \<Rightarrow> (string \<times> string) stripe_op" where
  "embedded_session api missing req =
     st_then (send (sa_session api) (CreateCheckoutSession (req\<lparr>cq_embedded := True\<rparr>))) (\<lambda>s.
     case cs_client_secret s of
       None \<Rightarrow> st_err (StripeClientError missing)
     | Some secret \<Rightarrow> st_ok (secret, cs_id s))"

definition create_embedded_checkout_session :: "stripe_api \<Rightarrow> string \<Rightarrow> string \<Rightarrow> string \<Rightarrow> 64 word \<Rightarrow> 32 word
    \<Rightarrow> (string \<times> string) stripe_op" where
  "create_embedded_checkout_session api customer price ws quantity trial =
     embedded_session api ''Embedded checkout session created but no client_secret returned''
       (subscription_checkout customer price ws quantity trial)"

definition create_embedded_payment_checkout_session :: "stripe_api \<Rightarrow> string \<Rightarrow> string \<Rightarrow> string \<Rightarrow> string \<Rightarrow> 64 word
    \<Rightarrow> (string \<times> string) stripe_op" where
  "create_embedded_payment_checkout_session api customer price ws purchase quantity =
     embedded_session api ''Embedded checkout session created but no client_secret returned''
       (payment_checkout customer price ws purchase quantity)"

definition RECOVERY_PURPOSE_MARKER :: string where "RECOVERY_PURPOSE_MARKER = ''recover_past_due''"

definition recovery_metadata :: "string \<Rightarrow> string \<Rightarrow> string option" where
  "recovery_metadata ws = [''workspace_id'' \<mapsto> ws, ''app'' \<mapsto> ''kyomi'', ''brand'' \<mapsto> ''kyomi'', ''purpose'' \<mapsto> RECOVERY_PURPOSE_MARKER]"

definition create_recovery_setup_session :: "stripe_api \<Rightarrow> string \<Rightarrow> string \<Rightarrow> (string \<times> string) stripe_op" where
  "create_recovery_setup_session api customer ws =
     embedded_session api ''Recovery setup session created but no client_secret returned''
       \<lparr>cq_customer = customer, cq_mode = ModeSetup, cq_embedded = False, cq_urls = None, cq_line = None,
        cq_metadata = recovery_metadata ws, cq_subscription_metadata = None, cq_trial_days = None,
        cq_setup_metadata = Some (recovery_metadata ws), cq_submit_text = None, cq_automatic_tax = False,
        cq_tax_id = False, cq_update_name = False, cq_update_address = False\<rparr>"

definition retrieve_checkout_session_with_setup_intent :: "stripe_api \<Rightarrow> string \<Rightarrow> checkout_session stripe_op" where
  "retrieve_checkout_session_with_setup_intent api i = send (sa_session api) (RetrieveCheckoutSession i [''setup_intent''])"

definition retrieve_checkout_session_with_subscription :: "stripe_api \<Rightarrow> string \<Rightarrow> checkout_session stripe_op" where
  "retrieve_checkout_session_with_subscription api i = send (sa_session api) (RetrieveCheckoutSession i [''subscription''])"

text \<open>The texts of the session's status and of its payment's status.\<close>

definition retrieve_checkout_session_status :: "stripe_api \<Rightarrow> string \<Rightarrow> (string \<times> string) stripe_op" where
  "retrieve_checkout_session_status api i =
     st_then (send (sa_session api) (RetrieveCheckoutSession i [])) (\<lambda>s.
     st_ok ((case cs_status s of None \<Rightarrow> ''unknown'' | Some t \<Rightarrow> sa_checkout_status_text api t), cs_payment_status s))"

subsection \<open>Existing subscriptions\<close>

definition retrieve_subscription :: "stripe_api \<Rightarrow> string \<Rightarrow> stripe_subscription stripe_op" where
  "retrieve_subscription api i = retried api (send (sa_subscription api) (RetrieveSubscription i))"

definition first_item :: "stripe_subscription \<Rightarrow> stripe_item stripe_op" where
  "first_item s = (case sb_items s of [] \<Rightarrow> st_err (StripeClientError ''Subscription has no items'') | i # _ \<Rightarrow> st_ok i)"

definition update_subscription :: "stripe_api \<Rightarrow> string \<Rightarrow> string \<Rightarrow> string \<Rightarrow> string \<Rightarrow> subscription_data stripe_op" where
  "update_subscription api i price tier cycle =
     st_then (retrieve_subscription api i) (\<lambda>s.
     st_then (first_item s) (\<lambda>item.
     st_then (retried api (send (sa_subscription api) (UpdateSubscriptionPrice i (it_id item) price
       ((sb_metadata s)(''tier'' \<mapsto> tier, ''billing_cycle'' \<mapsto> cycle))))) (\<lambda>updated.
     st_ok (parse_subscription_data api updated))))"

definition add_subscription_item :: "stripe_api \<Rightarrow> string \<Rightarrow> string \<Rightarrow> 64 word \<Rightarrow> string stripe_op" where
  "add_subscription_item api i price quantity = retried api (send (sa_item api) (CreateItem i price quantity))"

definition update_subscription_quantity :: "stripe_api \<Rightarrow> string \<Rightarrow> int \<Rightarrow> unit stripe_op" where
  "update_subscription_quantity api item quantity =
     (if quantity = 0 then retried api (send (sa_done api) (DeleteItem item))
      else retried api (send (sa_done api) (UpdateItemQuantity item (of_int quantity) False)))"

definition get_subscription_quantity :: "stripe_api \<Rightarrow> string \<Rightarrow> 64 word stripe_op" where
  "get_subscription_quantity api i =
     st_then (retrieve_subscription api i) (\<lambda>s.
     st_then (first_item s) (\<lambda>item.
     st_ok (case it_quantity item of None \<Rightarrow> 1 | Some n \<Rightarrow> n)))"

definition update_seat_count :: "stripe_api \<Rightarrow> string \<Rightarrow> 64 word \<Rightarrow> unit stripe_op" where
  "update_seat_count api i users =
     st_then (retrieve_subscription api i) (\<lambda>s.
     st_then (first_item s) (\<lambda>item.
     retried api (send (sa_done api) (UpdateItemQuantity (it_id item) users True))))"

definition cancel_stripe_subscription :: "stripe_api \<Rightarrow> string \<Rightarrow> bool \<Rightarrow> unit stripe_op" where
  "cancel_stripe_subscription api i at_period_end =
     (if at_period_end then send (sa_done api) (SetCancelAtPeriodEnd i True)
      else send (sa_done api) (CancelSubscription i))"

definition reactivate_stripe_subscription :: "stripe_api \<Rightarrow> string \<Rightarrow> unit stripe_op" where
  "reactivate_stripe_subscription api i = send (sa_done api) (SetCancelAtPeriodEnd i False)"

subsection \<open>Invoices and payment\<close>

definition set_default_payment_method :: "stripe_api \<Rightarrow> string \<Rightarrow> string \<Rightarrow> string \<Rightarrow> unit stripe_op" where
  "set_default_payment_method api customer sub pm =
     st_then (send (sa_done api) (SetCustomerPaymentMethod customer pm)) (\<lambda>_.
     send (sa_done api) (SetSubscriptionPaymentMethod sub pm))"

record invoice_data =
  id_invoice :: string
  id_amount_paid :: int
  id_currency :: string
  id_status :: "string option"
  id_hosted_url :: "string option"
  id_pdf :: "string option"
  id_created :: "int option"

definition list_invoices :: "stripe_api \<Rightarrow> string \<Rightarrow> 64 word \<Rightarrow> invoice_data list stripe_op" where
  "list_invoices api customer limit =
     st_then (send (sa_invoices api) (ListInvoices customer (sint limit))) (\<lambda>invs.
     st_ok (map (\<lambda>v. \<lparr>id_invoice = (case iv_id v of None \<Rightarrow> '''' | Some i \<Rightarrow> i), id_amount_paid = iv_amount_paid v,
        id_currency = iv_currency v, id_status = map_option (sa_invoice_status_text api) (iv_status v),
        id_hosted_url = iv_hosted_url v, id_pdf = iv_pdf v, id_created = Some (iv_created v)\<rparr>) invs))"

definition list_open_invoices :: "stripe_api \<Rightarrow> string \<Rightarrow> stripe_invoice list stripe_op" where
  "list_open_invoices api sub = send (sa_invoices api) (ListOpenInvoices sub)"

definition pay_invoice :: "stripe_api \<Rightarrow> string \<Rightarrow> string \<Rightarrow> stripe_invoice stripe_op" where
  "pay_invoice api i pm = send (sa_invoice api) (PayInvoice i pm)"

definition retrieve_invoice :: "stripe_api \<Rightarrow> string \<Rightarrow> stripe_invoice stripe_op" where
  "retrieve_invoice api i = send (sa_invoice api) (RetrieveInvoice i)"

definition create_stripe_portal :: "stripe_api \<Rightarrow> string \<Rightarrow> string \<Rightarrow> (string \<times> string) stripe_op" where
  "create_stripe_portal api customer return_url = send (sa_portal api) (CreatePortalSession customer return_url)"

subsection \<open>Prices\<close>

text \<open>The environment's texts; an empty one counts as absent.\<close>

record stripe_prices =
  pr_cloud_monthly :: "string option"
  pr_ai_bundle :: "string option"
  pr_analytics_bundle :: "string option"

definition env_opt :: "(string \<Rightarrow> string option) \<Rightarrow> string \<Rightarrow> string option" where
  "env_opt vars key = (case vars key of Some v \<Rightarrow> if v = [] then None else Some v | None \<Rightarrow> None)"

definition stripe_prices_of :: "(string \<Rightarrow> string option) \<Rightarrow> stripe_prices" where
  "stripe_prices_of vars = \<lparr>pr_cloud_monthly = env_opt vars ''STRIPE_CLOUD_MONTHLY'',
     pr_ai_bundle = env_opt vars ''STRIPE_AI_BUNDLE'', pr_analytics_bundle = env_opt vars ''STRIPE_ANALYTICS_BUNDLE''\<rparr>"

subsection \<open>What a retried request sends\<close>

lemma sent_after: "world_after (\<lambda>s. Some (send answer req s)) n sent = sent @ replicate n req"
  by (induction n) (simp_all add: send_def replicate_append_same)

lemma answer_outcome: "outcome (\<lambda>s. Some (send answer req s)) n sent = answer (sent @ replicate (Suc n) req)"
  by (simp add: outcome_def sent_after) (simp add: send_def replicate_append_same)

text \<open>The same request up to eleven times; the last answer is the result, and all earlier ones were
  transient failures.\<close>

lemma retried_send:
  obtains k where "1 \<le> k" "k \<le> 11" "retried api (send answer req) sent = (answer (sent @ replicate k req), sent @ replicate k req)"
    "\<forall>j. 1 \<le> j \<and> j < k \<longrightarrow> again is_stripe_transient (answer (sent @ replicate j req))"
    "again is_stripe_transient (answer (sent @ replicate k req)) \<Longrightarrow> k = 11"
proof -
  let ?op = "\<lambda>s. Some (send answer req s)"
  define k where "k = calls_made ?op is_stripe_transient sent"
  have k: "1 \<le> k" "k \<le> 11" using calls_made_bound [of ?op is_stripe_transient sent] by (simp_all add: k_def)
  then have last: "outcome ?op (k - 1) sent = answer (sent @ replicate k req)" by (simp add: answer_outcome)
  have "retried api (send answer req) sent = (answer (sent @ replicate k req), sent @ replicate k req)"
    using retry_loop_from [of ?op 0 is_stripe_transient sent "sa_jitter api"] last
    by (simp add: retried_def retry_with_backoff_classified_def Let_def k_def [symmetric] sent_after)
  moreover have "again is_stripe_transient (answer (sent @ replicate j req))" if "1 \<le> j \<and> j < k" for j
  proof -
    have "j - 1 < k - 1" using that by linarith
    then have "again is_stripe_transient (outcome ?op (j - 1) sent)"
      using calls_made_first [of ?op is_stripe_transient sent] by (simp add: k_def [symmetric])
    then show ?thesis using answer_outcome [of answer req "j - 1" sent] that by simp
  qed
  moreover have "k = 11" if "again is_stripe_transient (answer (sent @ replicate k req))"
    using calls_made_first [of ?op is_stripe_transient sent] that last by (simp add: k_def [symmetric])
  ultimately show thesis using that k by blast
qed

text \<open>An answer that is not a failure is the first and the last.\<close>

lemma retried_once: "answer (sent @ [req]) = Inr x \<Longrightarrow> retried api (send answer req) sent = (Inr x, sent @ [req])"
proof -
  assume ok: "answer (sent @ [req]) = Inr x"
  obtain k where k: "1 \<le> k" "retried api (send answer req) sent = (answer (sent @ replicate k req), sent @ replicate k req)"
    "\<forall>j. 1 \<le> j \<and> j < k \<longrightarrow> again is_stripe_transient (answer (sent @ replicate j req))"
    by (rule retried_send [of api answer req sent]) blast
  have "k = 1"
  proof (rule ccontr)
    assume "k \<noteq> 1"
    then have "again is_stripe_transient (answer (sent @ replicate 1 req))" using k(1,3) by (metis le_neq_implies_less order_refl)
    then show False by (simp add: ok again_def)
  qed
  then show ?thesis using k(2) ok by simp
qed

end
