(* ===== verification/Mcp_Sessions.thy ===== *)
theory Mcp_Sessions
  imports Kv_Store "HOL-Library.List_Lexorder" "HOL-Library.Char_ord"
begin

text \<open>
  Sessions of MCP clients: \<open>crates/kyomi-auth/src/mcp_session_manager.rs\<close>.

  Session data lives in the key-value store that all replicas share; the sender of a client's event
  stream lives in a map of the replica that serves it. A channel is a number: the world says whether its
  receiver is still there and records what was sent. An entry of the map is visited in the map's order.
  What serde derives for \<open>SessionData\<close> is the parameter \<open>mcp_codec\<close>, UUIDs are arguments, and \<open>order\<close> is
  the order in which the store lists the members of a set. Awaiting room in a full channel is not
  modelled.

  Each operation of the manager is one step of the model: its several requests to the store follow one
  another without another task in between. The one place where the code admits such an interleaving,
  the flag of \<open>set_supports_mcp_apps\<close>, is split into its two requests, and
  \<open>raced_flag_revives_session\<close> shows what comes of it.
\<close>

subsection \<open>Data\<close>

definition SESSION_TTL_SECS :: "64 word" where "SESSION_TTL_SECS = 86400"

definition session_key :: "string \<Rightarrow> string" where "session_key sid = ''mcp:session:'' @ sid"

definition workspace_sessions_key :: "string \<Rightarrow> string" where "workspace_sessions_key ws = ''mcp:ws_sessions:'' @ ws"

record mcp_session_data =
  ms_workspace :: string
  ms_supports_apps :: bool

record mcp_codec =
  mc_enc :: "mcp_session_data \<Rightarrow> string"
  mc_dec :: "string \<Rightarrow> mcp_session_data option"

record 's mcp_world =
  mw_kv :: 's
  mw_senders :: "(string \<times> nat) list"
  mw_open :: "nat \<Rightarrow> bool"
  mw_sent :: "(nat \<times> string) list"

definition kv_call :: "('s \<Rightarrow> (app_error + 'a) \<times> 's) \<Rightarrow> 's mcp_world \<Rightarrow> (app_error + 'a) \<times> 's mcp_world" where
  "kv_call f w = (let (r, s) = f (mw_kv w) in (r, w\<lparr>mw_kv := s\<rparr>))"

definition remove_sender :: "string \<Rightarrow> 's mcp_world \<Rightarrow> 's mcp_world" where
  "remove_sender sid w = w\<lparr>mw_senders := filter (\<lambda>(k, _). k \<noteq> sid) (mw_senders w)\<rparr>"

subsection \<open>Creating, reading and removing sessions\<close>

text \<open>Failures of the store are logged and passed over.\<close>

definition create_session :: "mcp_codec \<Rightarrow> 's kv_ops \<Rightarrow> string \<Rightarrow> string \<Rightarrow> 's mcp_world \<Rightarrow> string \<times> 's mcp_world" where
  "create_session c kv sid ws w =
     (let text = mc_enc c \<lparr>ms_workspace = ws, ms_supports_apps = False\<rparr>;
          w1 = snd (kv_call (kv_set kv (session_key sid) text (Some SESSION_TTL_SECS)) w);
          w2 = snd (kv_call (kv_sadd kv (workspace_sessions_key ws) sid) w1);
          w3 = snd (kv_call (kv_expire kv (workspace_sessions_key ws) (SESSION_TTL_SECS * 2)) w2)
      in (sid, w3))"

definition read_session :: "mcp_codec \<Rightarrow> 's kv_ops \<Rightarrow> string \<Rightarrow> 's mcp_world \<Rightarrow> mcp_session_data option \<times> 's mcp_world" where
  "read_session c kv sid w =
     (let (r, w1) = kv_call (kv_get kv (session_key sid)) w
      in ((case r of Inl _ \<Rightarrow> None | Inr value \<Rightarrow> Option.bind value (mc_dec c)), w1))"

definition validate_session :: "mcp_codec \<Rightarrow> 's kv_ops \<Rightarrow> string \<Rightarrow> 's mcp_world \<Rightarrow> string option \<times> 's mcp_world" where
  "validate_session c kv sid w =
     (let (d, w1) = read_session c kv sid w in (map_option ms_workspace d, w1))"

definition remove_session :: "mcp_codec \<Rightarrow> 's kv_ops \<Rightarrow> string \<Rightarrow> 's mcp_world \<Rightarrow> 's mcp_world" where
  "remove_session c kv sid w =
     (let (d, w1) = read_session c kv sid w;
          w2 = snd (kv_call (kv_del kv (session_key sid)) w1);
          w3 = (case d of None \<Rightarrow> w2
                | Some data \<Rightarrow> snd (kv_call (kv_srem kv (workspace_sessions_key (ms_workspace data)) sid) w2))
      in remove_sender sid w3)"

definition set_sse_sender :: "string \<Rightarrow> nat \<Rightarrow> 's mcp_world \<Rightarrow> 's mcp_world" where
  "set_sse_sender sid ch w =
     (let w1 = remove_sender sid w in w1\<lparr>mw_senders := mw_senders w1 @ [(sid, ch)]\<rparr>)"

text \<open>The flag is written in two requests: the data are read, and then written back with the flag.\<close>

definition write_supports :: "mcp_codec \<Rightarrow> 's kv_ops \<Rightarrow> string \<Rightarrow> bool \<Rightarrow> mcp_session_data \<Rightarrow> 's mcp_world \<Rightarrow> 's mcp_world" where
  "write_supports c kv sid supports data w =
     snd (kv_call (kv_set kv (session_key sid) (mc_enc c (data\<lparr>ms_supports_apps := supports\<rparr>)) (Some SESSION_TTL_SECS)) w)"

definition set_supports_mcp_apps :: "mcp_codec \<Rightarrow> 's kv_ops \<Rightarrow> string \<Rightarrow> bool \<Rightarrow> 's mcp_world \<Rightarrow> 's mcp_world" where
  "set_supports_mcp_apps c kv sid supports w =
     (let (d, w1) = read_session c kv sid w
      in case d of None \<Rightarrow> w1 | Some data \<Rightarrow> write_supports c kv sid supports data w1)"

definition supports_mcp_apps :: "mcp_codec \<Rightarrow> 's kv_ops \<Rightarrow> string \<Rightarrow> 's mcp_world \<Rightarrow> bool \<times> 's mcp_world" where
  "supports_mcp_apps c kv sid w =
     (let (d, w1) = read_session c kv sid w
      in ((case d of None \<Rightarrow> False | Some data \<Rightarrow> ms_supports_apps data), w1))"

subsection \<open>Notices and invalidation\<close>

definition TOOLS_CHANGED :: string where
  "TOOLS_CHANGED =
     ''{'' @ [CHR 0x22] @ ''jsonrpc'' @ [CHR 0x22] @ '':'' @ [CHR 0x22] @ ''2.0'' @ [CHR 0x22] @ '','' @ [CHR 0x22] @ ''method''
     @ [CHR 0x22] @ '':'' @ [CHR 0x22] @ ''notifications/tools/list_changed'' @ [CHR 0x22] @ ''}''"

text \<open>The senders whose session belongs to the workspace.\<close>

fun workspace_senders :: "mcp_codec \<Rightarrow> 's kv_ops \<Rightarrow> string \<Rightarrow> (string \<times> nat) list \<Rightarrow> 's mcp_world
    \<Rightarrow> (string \<times> nat) list \<times> 's mcp_world" where
  "workspace_senders c kv ws [] w = ([], w)"
| "workspace_senders c kv ws ((sid, ch) # rest) w =
     (let (found, w1) = validate_session c kv sid w;
          (others, w2) = workspace_senders c kv ws rest w1
      in (if found = Some ws then (sid, ch) # others else others, w2))"

fun send_notices :: "string \<Rightarrow> (string \<times> nat) list \<Rightarrow> 's mcp_world \<Rightarrow> string list \<times> 's mcp_world" where
  "send_notices notice [] w = ([], w)"
| "send_notices notice ((sid, ch) # rest) w =
     (if mw_open w ch then send_notices notice rest (w\<lparr>mw_sent := mw_sent w @ [(ch, notice)]\<rparr>)
      else let (dead, w1) = send_notices notice rest w in (sid # dead, w1))"

definition notify_tools_changed :: "mcp_codec \<Rightarrow> 's kv_ops \<Rightarrow> string \<Rightarrow> 's mcp_world \<Rightarrow> 's mcp_world" where
  "notify_tools_changed c kv ws w =
     (let (senders, w1) = workspace_senders c kv ws (mw_senders w) w
      in if senders = [] then w1
         else let (dead, w2) = send_notices TOOLS_CHANGED senders w1 in fold remove_sender dead w2)"

definition invalidate_workspace_sessions :: "(string set \<Rightarrow> string list) \<Rightarrow> 's kv_ops \<Rightarrow> string \<Rightarrow> 's mcp_world \<Rightarrow> 's mcp_world" where
  "invalidate_workspace_sessions order kv ws w =
     (case kv_call (kv_smembers kv (workspace_sessions_key ws)) w of
        (Inl _, w1) \<Rightarrow> w1
      | (Inr members, w1) \<Rightarrow>
          if members = {} then w1
          else let ids = order members;
                   w2 = fold (\<lambda>sid v. snd (kv_call (kv_del kv (session_key sid)) v)) ids w1;
                   w3 = snd (kv_call (kv_sdel kv (workspace_sessions_key ws)) w2)
               in fold remove_sender ids w3)"

subsection \<open>The manager on the in-process store\<close>

datatype mcp_call =
    CreateSession string string
  | ValidateSession string
  | RemoveSession string
  | SetSender string nat
  | SetSupportsApps string bool
  | SupportsApps string
  | NotifyToolsChanged string
  | InvalidateWorkspace string
  | SweepStore "string list"

fun mcp_effect :: "mcp_codec \<Rightarrow> (string set \<Rightarrow> string list) \<Rightarrow> mcp_call \<Rightarrow> memory_kv mcp_world \<Rightarrow> memory_kv mcp_world" where
  "mcp_effect c order (CreateSession sid ws) w = snd (create_session c memory_ops sid ws w)"
| "mcp_effect c order (ValidateSession sid) w = snd (validate_session c memory_ops sid w)"
| "mcp_effect c order (RemoveSession sid) w = remove_session c memory_ops sid w"
| "mcp_effect c order (SetSender sid ch) w = set_sse_sender sid ch w"
| "mcp_effect c order (SetSupportsApps sid b) w = set_supports_mcp_apps c memory_ops sid b w"
| "mcp_effect c order (SupportsApps sid) w = snd (supports_mcp_apps c memory_ops sid w)"
| "mcp_effect c order (NotifyToolsChanged ws) w = notify_tools_changed c memory_ops ws w"
| "mcp_effect c order (InvalidateWorkspace ws) w = invalidate_workspace_sessions order memory_ops ws w"
| "mcp_effect c order (SweepStore keys) w = w\<lparr>mw_kv := sweep_expired keys (mw_kv w)\<rparr>"

definition mcp_run :: "mcp_codec \<Rightarrow> (string set \<Rightarrow> string list) \<Rightarrow> mcp_call list \<Rightarrow> memory_kv mcp_world \<Rightarrow> memory_kv mcp_world" where
  "mcp_run c order calls w = fold (mcp_effect c order) calls w"

definition mcp_codec_ok :: "mcp_codec \<Rightarrow> bool" where
  "mcp_codec_ok c \<longleftrightarrow> (\<forall>d. mc_dec c (mc_enc c d) = Some d)"

definition lists_members :: "(string set \<Rightarrow> string list) \<Rightarrow> bool" where
  "lists_members order \<longleftrightarrow> (\<forall>S. finite S \<longrightarrow> set (order S) = S)"

text \<open>The data a session key stores, expired or not, and the members of a workspace's set.\<close>

definition session_at :: "mcp_codec \<Rightarrow> memory_kv mcp_world \<Rightarrow> string \<Rightarrow> mcp_session_data option" where
  "session_at c w sid = Option.bind (mk_data (mw_kv w) (session_key sid)) (\<lambda>e. mc_dec c (en_value e))"

definition members_of :: "memory_kv mcp_world \<Rightarrow> string \<Rightarrow> string set" where
  "members_of w ws = (case mk_sets (mw_kv w) (workspace_sessions_key ws) of None \<Rightarrow> {} | Some s \<Rightarrow> s)"

text \<open>Every stored session is in the set of its workspace, where the invalidation finds it.\<close>

definition mcp_inv :: "mcp_codec \<Rightarrow> memory_kv mcp_world \<Rightarrow> bool" where
  "mcp_inv c w \<longleftrightarrow> (\<forall>sid d. session_at c w sid = Some d \<longrightarrow> sid \<in> members_of w (ms_workspace d))
     \<and> (\<forall>ws. finite (members_of w ws))"

lemma session_key_simps [simp]:
  "session_key a = session_key b \<longleftrightarrow> a = b" "workspace_sessions_key a = workspace_sessions_key b \<longleftrightarrow> a = b"
  "workspace_sessions_key a \<noteq> session_key b" "session_key b \<noteq> workspace_sessions_key a"
  by (simp_all add: session_key_def workspace_sessions_key_def)

text \<open>Calls that write no session leave the stored data and the sets alone.\<close>

definition same_sessions :: "memory_kv mcp_world \<Rightarrow> memory_kv mcp_world \<Rightarrow> bool" where
  "same_sessions w w' \<longleftrightarrow> mk_data (mw_kv w') = mk_data (mw_kv w) \<and> mk_sets (mw_kv w') = mk_sets (mw_kv w)"

lemma same_sessions_views: "same_sessions w w' \<Longrightarrow> session_at c w' = session_at c w \<and> members_of w' = members_of w"
  by (simp add: same_sessions_def session_at_def members_of_def fun_eq_iff)

lemma same_sessions_refl [simp]: "same_sessions w w" by (simp add: same_sessions_def)

lemma same_sessions_trans: "same_sessions w v \<Longrightarrow> same_sessions v u \<Longrightarrow> same_sessions w u"
  by (simp add: same_sessions_def)

lemma remove_sender_kv [simp]: "mw_kv (remove_sender sid w) = mw_kv w"
  by (simp add: remove_sender_def)

lemma remove_senders_same [simp]: "mw_kv (fold remove_sender ids w) = mw_kv w"
  by (induction ids arbitrary: w) simp_all

lemma read_session_same: "same_sessions w (snd (read_session c memory_ops sid w))"
  by (auto simp: read_session_def kv_call_def same_sessions_def memory_get_def is_expired_eq Let_def split: option.splits prod.splits)

lemma read_session_Some: "fst (read_session c memory_ops sid w) = Some d \<Longrightarrow> session_at c w sid = Some d"
  by (auto simp: read_session_def kv_call_def session_at_def memory_get_def is_expired_eq Let_def bind_eq_Some_conv
      split: option.splits prod.splits if_splits)

lemma validate_session_same: "same_sessions w (snd (validate_session c memory_ops sid w))"
  using read_session_same [of w c sid] by (simp add: validate_session_def split_def Let_def)

lemma workspace_senders_same: "same_sessions w (snd (workspace_senders c memory_ops ws es w))"
proof (induction es arbitrary: w)
  case (Cons e es)
  obtain sid ch where e: "e = (sid, ch)" by fastforce
  show ?case
    using Cons.IH [of "snd (validate_session c memory_ops sid w)"] validate_session_same [of w c sid]
    by (auto simp: e split_def Let_def intro: same_sessions_trans)
qed simp

lemma send_notices_same: "same_sessions w (snd (send_notices notice es w))"
  by (induction notice es w rule: send_notices.induct) (auto simp: same_sessions_def split_def Let_def)

lemma notify_same: "same_sessions w (notify_tools_changed c memory_ops ws w)"
proof -
  obtain ss w1 where s: "workspace_senders c memory_ops ws (mw_senders w) w = (ss, w1)" by fastforce
  obtain dead w2 where n: "send_notices TOOLS_CHANGED ss w1 = (dead, w2)" by fastforce
  have "same_sessions w w2" using workspace_senders_same [of w c ws "mw_senders w"] send_notices_same [of w1 TOOLS_CHANGED ss]
    by (auto simp: s n intro: same_sessions_trans)
  moreover have "same_sessions w w1" using workspace_senders_same [of w c ws "mw_senders w"] by (simp add: s)
  ultimately show ?thesis by (simp add: notify_tools_changed_def s n same_sessions_def)
qed

text \<open>What the writing calls leave.\<close>

lemma created_session:
  assumes "mcp_codec_ok c"
  shows "session_at c (snd (create_session c memory_ops sid ws w)) = (session_at c w)(sid \<mapsto> \<lparr>ms_workspace = ws, ms_supports_apps = False\<rparr>)
    \<and> members_of (snd (create_session c memory_ops sid ws w)) = (members_of w)(ws := insert sid (members_of w ws))"
  using assms
  by (auto simp: create_session_def kv_call_def Let_def split_def memory_set_def entry_new_def memory_sadd_def memory_expire_def
      is_expired_eq session_at_def members_of_def mcp_codec_ok_def fun_eq_iff split: option.splits)

lemma supports_session:
  assumes "mcp_codec_ok c"
  shows "members_of (set_supports_mcp_apps c memory_ops sid b w) = members_of w
    \<and> (session_at c (set_supports_mcp_apps c memory_ops sid b w) = session_at c w
       \<or> (\<exists>d. session_at c w sid = Some d
            \<and> session_at c (set_supports_mcp_apps c memory_ops sid b w) = (session_at c w)(sid \<mapsto> d\<lparr>ms_supports_apps := b\<rparr>)))"
proof -
  obtain d w1 where r: "read_session c memory_ops sid w = (d, w1)" by fastforce
  have same: "same_sessions w w1" using read_session_same [of w c sid] by (simp add: r)
  have found: "d = Some x \<Longrightarrow> session_at c w sid = Some x" for x using read_session_Some [of c sid w x] by (simp add: r)
  show ?thesis
    using same found assms
    by (cases d) (auto simp: set_supports_mcp_apps_def write_supports_def r kv_call_def Let_def split_def memory_set_def entry_new_def
        same_sessions_def session_at_def members_of_def mcp_codec_ok_def fun_eq_iff)
qed

lemma removed_session:
  "session_at c (remove_session c memory_ops sid w) = (session_at c w)(sid := None)"
  "members_of w ws - {sid} \<subseteq> members_of (remove_session c memory_ops sid w) ws"
  "members_of (remove_session c memory_ops sid w) ws \<subseteq> members_of w ws"
proof -
  obtain d w1 where r: "read_session c memory_ops sid w = (d, w1)" by fastforce
  have same: "same_sessions w w1" using read_session_same [of w c sid] by (simp add: r)
  then show "session_at c (remove_session c memory_ops sid w) = (session_at c w)(sid := None)"
    "members_of w ws - {sid} \<subseteq> members_of (remove_session c memory_ops sid w) ws"
    "members_of (remove_session c memory_ops sid w) ws \<subseteq> members_of w ws"
    by (auto simp: remove_session_def r kv_call_def Let_def split_def memory_del_def memory_srem_def
        same_sessions_def session_at_def members_of_def fun_eq_iff split: option.splits if_splits)
qed

lemma deleted_keys:
  "mk_data (mw_kv (fold (\<lambda>sid v. snd (kv_call (memory_del (session_key sid)) v)) ids w)) (session_key sid)
     = (if sid \<in> set ids then None else mk_data (mw_kv w) (session_key sid))
   \<and> mk_sets (mw_kv (fold (\<lambda>sid v. snd (kv_call (memory_del (session_key sid)) v)) ids w)) = mk_sets (mw_kv w)
   \<and> reading (mw_kv (fold (\<lambda>sid v. snd (kv_call (memory_del (session_key sid)) v)) ids w)) = reading (mw_kv w)"
  by (induction ids arbitrary: w) (auto simp: kv_call_def memory_del_def reading_def)

lemma invalidated_entries:
  assumes "lists_members order" "mcp_inv c w"
  shows "mk_data (mw_kv (invalidate_workspace_sessions order memory_ops ws w)) (session_key sid)
      = (if sid \<in> members_of w ws then None else mk_data (mw_kv w) (session_key sid))
    \<and> members_of (invalidate_workspace_sessions order memory_ops ws w) = (members_of w)(ws := {})
    \<and> reading (mw_kv (invalidate_workspace_sessions order memory_ops ws w)) = reading (mw_kv w)"
proof (cases "members_of w ws = {}")
  case True
  then show ?thesis
    by (auto simp: invalidate_workspace_sessions_def kv_call_def memory_smembers_def members_of_def [of w] fun_eq_iff)
next
  case False
  have listed: "set (order (members_of w ws)) = members_of w ws" using assms by (simp add: lists_members_def mcp_inv_def)
  have found: "kv_call (memory_smembers (workspace_sessions_key ws)) w = (Inr (members_of w ws), w)"
    by (simp add: kv_call_def memory_smembers_def members_of_def)
  define v where "v = fold (\<lambda>sid v. snd (kv_call (memory_del (session_key sid)) v)) (order (members_of w ws)) w"
  have v: "mk_data (mw_kv v) (session_key sid) = (if sid \<in> members_of w ws then None else mk_data (mw_kv w) (session_key sid))"
    "mk_sets (mw_kv v) = mk_sets (mw_kv w)" "reading (mw_kv v) = reading (mw_kv w)"
    using deleted_keys [of "order (members_of w ws)" w sid] by (simp_all add: listed v_def)
  have run: "mw_kv (invalidate_workspace_sessions order memory_ops ws w) = snd (memory_sdel (workspace_sessions_key ws) (mw_kv v))"
    using False by (simp add: invalidate_workspace_sessions_def found Let_def v_def kv_call_def [of "memory_sdel _"] split_def)
  have "members_of (invalidate_workspace_sessions order memory_ops ws w) = (members_of w)(ws := {})"
    by (rule ext) (simp add: members_of_def run memory_sdel_def v(2))
  then show ?thesis using v(1,3) by (simp add: run memory_sdel_def reading_def)
qed

lemma invalidated_sessions:
  assumes "lists_members order" "mcp_inv c w"
  shows "session_at c (invalidate_workspace_sessions order memory_ops ws w) = (session_at c w) |` (- members_of w ws)"
  by (rule ext) (simp add: session_at_def invalidated_entries [OF assms] restrict_map_def)

lemma swept_sessions: "session_at c (w\<lparr>mw_kv := sweep_expired keys (mw_kv w)\<rparr>) \<subseteq>\<^sub>m session_at c w
    \<and> members_of (w\<lparr>mw_kv := sweep_expired keys (mw_kv w)\<rparr>) = members_of w"
proof -
  have "mk_data (sweep_expired keys m) \<subseteq>\<^sub>m mk_data m \<and> mk_sets (sweep_expired keys m) = mk_sets m" for m
    unfolding sweep_expired_def
  proof (induction keys arbitrary: m)
    case (Cons k keys)
    have "mk_data (sweep_key k m) \<subseteq>\<^sub>m mk_data m \<and> mk_sets (sweep_key k m) = mk_sets m"
      by (auto simp: sweep_key_def is_expired_eq map_le_def split: option.splits)
    with Cons [of "sweep_key k m"] show ?case by (auto intro: map_le_trans)
  qed simp
  from this [of "mw_kv w"] have le: "mk_data (sweep_expired keys (mw_kv w)) \<subseteq>\<^sub>m mk_data (mw_kv w)"
    and eq: "mk_sets (sweep_expired keys (mw_kv w)) = mk_sets (mw_kv w)" by simp_all
  have "mk_data (sweep_expired keys (mw_kv w)) k = Some e \<Longrightarrow> mk_data (mw_kv w) k = Some e" for k e
    using le by (metis domI map_le_def)
  then show ?thesis by (auto simp: session_at_def members_of_def map_le_def eq bind_eq_Some_conv fun_eq_iff)
qed

subsection \<open>The invariant\<close>

text \<open>What every call leaves: no session of a workspace appears, and none is listed, except by its creation.\<close>

definition sessions_of :: "mcp_codec \<Rightarrow> memory_kv mcp_world \<Rightarrow> string \<Rightarrow> string set" where
  "sessions_of c w ws = {sid. \<exists>d. session_at c w sid = Some d \<and> ms_workspace d = ws}"

definition adds_only :: "mcp_codec \<Rightarrow> string set \<Rightarrow> string \<Rightarrow> memory_kv mcp_world \<Rightarrow> memory_kv mcp_world \<Rightarrow> bool" where
  "adds_only c new ws w w' \<longleftrightarrow> sessions_of c w' ws \<subseteq> sessions_of c w ws \<union> new \<and> members_of w' ws \<subseteq> members_of w ws \<union> new"

lemma same_inv: "same_sessions w w' \<Longrightarrow> mcp_inv c w \<Longrightarrow> mcp_inv c w' \<and> adds_only c new ws w w'"
  using same_sessions_views [of w w' c] by (auto simp: mcp_inv_def adds_only_def sessions_of_def)

lemma mcp_effect_inv:
  assumes "mcp_codec_ok c" "lists_members order" "mcp_inv c w"
  shows "mcp_inv c (mcp_effect c order call w) \<and> adds_only c {sid. call = CreateSession sid ws} ws w (mcp_effect c order call w)"
proof (cases call)
  case (CreateSession sid ws')
  with created_session [OF assms(1), of sid ws' w] assms(3) show ?thesis
    by (auto simp: mcp_inv_def sessions_of_def adds_only_def)
next
  case (RemoveSession sid)
  have "sid' \<in> members_of w ws \<Longrightarrow> sid' \<noteq> sid \<Longrightarrow> sid' \<in> members_of (remove_session c memory_ops sid w) ws" for sid' ws
    using removed_session(2) [of w ws sid c] by auto
  moreover have "finite (members_of (remove_session c memory_ops sid w) ws)" for ws
    using removed_session(3) [of c sid w ws] assms(3) by (auto simp: mcp_inv_def intro: finite_subset)
  ultimately show ?thesis using RemoveSession assms(3) removed_session(3) [of c sid w ws]
    by (auto simp: mcp_inv_def sessions_of_def adds_only_def removed_session(1))
next
  case (SetSupportsApps sid b)
  define w' where "w' = set_supports_mcp_apps c memory_ops sid b w"
  have members: "members_of w' = members_of w" using supports_session [OF assms(1)] by (simp add: w'_def)
  have "\<exists>d. session_at c w sid' = Some d \<and> ms_workspace d = ms_workspace d'" if "session_at c w' sid' = Some d'" for sid' d'
    using supports_session [OF assms(1), of sid b w] that by (auto simp: w'_def split: if_splits)
  then show ?thesis using assms(3) unfolding SetSupportsApps mcp_effect.simps w'_def [symmetric]
    by (fastforce simp: mcp_inv_def sessions_of_def adds_only_def members)
next
  case (InvalidateWorkspace ws')
  with invalidated_sessions [OF assms(2,3), of ws'] invalidated_entries [OF assms(2,3), of ws'] assms(3) show ?thesis
    by (auto simp: mcp_inv_def sessions_of_def adds_only_def restrict_map_def split: if_splits)
next
  case (SweepStore keys)
  define w' where "w' = w\<lparr>mw_kv := sweep_expired keys (mw_kv w)\<rparr>"
  have "members_of w' = members_of w" "session_at c w' sid = Some d \<Longrightarrow> session_at c w sid = Some d" for sid d
    using swept_sessions [of c keys w] by (auto simp: w'_def map_le_def dom_def)
  then show ?thesis using assms(3) unfolding SweepStore mcp_effect.simps w'_def [symmetric]
    by (fastforce simp: mcp_inv_def sessions_of_def adds_only_def)
next
  case (SetSender sid ch)
  have "same_sessions w (set_sse_sender sid ch w)" by (simp add: set_sse_sender_def same_sessions_def Let_def)
  with same_inv [OF this assms(3)] SetSender show ?thesis by simp
next
  case (SupportsApps sid)
  then show ?thesis
    using same_inv [OF read_session_same assms(3)] by (simp add: supports_mcp_apps_def split_def Let_def)
qed (use same_inv [OF validate_session_same assms(3)] same_inv [OF notify_same assms(3)] in simp_all)

lemma mcp_run_inv:
  assumes "mcp_codec_ok c" "lists_members order" "mcp_inv c w"
  shows "mcp_inv c (mcp_run c order calls w) \<and> adds_only c {sid. CreateSession sid ws \<in> set calls} ws w (mcp_run c order calls w)"
  unfolding mcp_run_def using assms(3)
proof (induction calls arbitrary: w)
  case (Cons call calls)
  from mcp_effect_inv [OF assms(1,2) Cons.prems, of call ws] Cons.IH [of "mcp_effect c order call w"]
  show ?case unfolding adds_only_def by fastforce
qed (simp add: adds_only_def)

definition fresh_mcp :: "(nat \<Rightarrow> int) \<Rightarrow> (nat \<Rightarrow> bool) \<Rightarrow> memory_kv mcp_world" where
  "fresh_mcp clock live = \<lparr>mw_kv = new_pool clock, mw_senders = [], mw_open = live, mw_sent = []\<rparr>"

lemma fresh_mcp_empty: "mcp_inv c (fresh_mcp clock live) \<and> sessions_of c (fresh_mcp clock live) ws = {} \<and> members_of (fresh_mcp clock live) ws = {}"
  by (simp add: mcp_inv_def fresh_mcp_def session_at_def members_of_def new_pool_def sessions_of_def)

lemma validated_session: "fst (validate_session c memory_ops sid w) = Some ws \<Longrightarrow> sid \<in> sessions_of c w ws"
  by (auto simp: validate_session_def split_def Let_def sessions_of_def dest: read_session_Some)

lemma validate_eq:
  "fst (validate_session c memory_ops sid w) = map_option ms_workspace
     (case mk_data (mw_kv w) (session_key sid) of None \<Rightarrow> None
      | Some e \<Rightarrow> if expired_at (reading (mw_kv w)) e then None else mc_dec c (en_value e))"
  by (auto simp: validate_session_def read_session_def kv_call_def memory_get_def is_expired_eq split_def Let_def split: option.splits)

text \<open>A session identifier, a UUID, is drawn for one workspace only.\<close>

definition drawn_once :: "mcp_call list \<Rightarrow> bool" where
  "drawn_once calls \<longleftrightarrow> (\<forall>sid ws ws'. CreateSession sid ws \<in> set calls \<longrightarrow> CreateSession sid ws' \<in> set calls \<longrightarrow> ws = ws')"

text \<open>
  When the invalidation of a workspace falls between the two requests of \<open>set_supports_mcp_apps\<close>, the
  second one brings the session back, and leaves it out of the workspace's set, where the next
  invalidation would look for it.
\<close>

lemma raced_flag_revives_session:
  assumes "mcp_codec_ok c" "lists_members order" "mcp_inv c w"
    and "read_session c memory_ops sid w = (Some d, w1)"
    and "v = write_supports c memory_ops sid b d (invalidate_workspace_sessions order memory_ops (ms_workspace d) w1)"
  shows "session_at c v sid = Some (d\<lparr>ms_supports_apps := b\<rparr>) \<and> sid \<notin> members_of v (ms_workspace d)"
proof -
  have same: "same_sessions w w1" using read_session_same [of w c sid] assms(4) by simp
  then have inv: "mcp_inv c w1" using same_inv assms(3) by blast
  show ?thesis
    using assms(1) invalidated_entries [OF assms(2) inv, of "ms_workspace d" sid]
    by (auto simp: assms(5) write_supports_def kv_call_def Let_def split_def memory_set_def entry_new_def session_at_def
        members_of_def mcp_codec_ok_def fun_eq_iff split: option.splits)
qed

text \<open>C23: Invalidation reaches every MCP session of the workspace and no other. On the in-process store, from
  empty, after any calls of the manager made one after another, each as one step: once a workspace's
  sessions are invalidated, no session validates for it until one is created anew, whatever else is
  called afterwards, and a session of another workspace validates exactly as it did before. (A call that
  overlaps the invalidation is not covered: see \<open>raced_flag_revives_session\<close>.)\<close>

theorem invalidation_is_complete:
  assumes "mcp_codec_ok c" "lists_members order" "drawn_once earlier"
    and "w = mcp_run c order earlier (fresh_mcp clock live)"
    and "\<forall>sid. CreateSession sid ws \<notin> set later"
  shows "fst (validate_session c memory_ops sid (mcp_run c order later (mcp_effect c order (InvalidateWorkspace ws) w))) \<noteq> Some ws
    \<and> fst (validate_session c memory_ops sid (mcp_effect c order (InvalidateWorkspace ws) w))
      = (let v = fst (validate_session c memory_ops sid w) in if v = Some ws then None else v)"
proof -
  have inv: "mcp_inv c w" and created: "sessions_of c w ws \<union> members_of w ws \<subseteq> {sid. CreateSession sid ws \<in> set earlier}" for ws
    using mcp_run_inv [OF assms(1,2), of "fresh_mcp clock live" earlier ws] assms(4) fresh_mcp_empty [of c clock live]
    by (auto simp: adds_only_def)
  define v where "v = invalidate_workspace_sessions order memory_ops ws w"
  have v: "mk_data (mw_kv v) (session_key sid) = (if sid \<in> members_of w ws then None else mk_data (mw_kv w) (session_key sid))"
    "reading (mw_kv v) = reading (mw_kv w)"
    using invalidated_entries [OF assms(2) inv, of ws] by (simp_all add: v_def)
  have "sessions_of c v ws = {}"
    using inv by (auto simp: sessions_of_def v_def invalidated_sessions [OF assms(2) inv] restrict_map_def mcp_inv_def split: if_splits)
  moreover have "mcp_inv c v" using mcp_effect_inv [OF assms(1,2) inv, of "InvalidateWorkspace ws"] by (simp add: v_def)
  ultimately have "sessions_of c (mcp_run c order later v) ws = {}"
    using mcp_run_inv [OF assms(1,2), of v later ws] assms(5) by (auto simp: adds_only_def)
  moreover have "fst (validate_session c memory_ops sid v)
      = (let a = fst (validate_session c memory_ops sid w) in if a = Some ws then None else a)"
  proof (cases "sid \<in> members_of w ws")
    case True
    then have "sid \<notin> sessions_of c w ws'" if "ws' \<noteq> ws" for ws'
      using created [of ws] created [of ws'] that assms(3) unfolding drawn_once_def by blast
    then have "fst (validate_session c memory_ops sid w) \<in> {None, Some ws}"
      using validated_session [of c sid w] by (cases "fst (validate_session c memory_ops sid w)") auto
    then show ?thesis using True by (auto simp: validate_eq [of c sid v] v Let_def)
  next
    case False
    then have "fst (validate_session c memory_ops sid w) \<noteq> Some ws"
      using inv validated_session [of c sid w ws] by (auto simp: mcp_inv_def sessions_of_def)
    moreover have "fst (validate_session c memory_ops sid v) = fst (validate_session c memory_ops sid w)"
      unfolding validate_eq v using False by simp
    ultimately show ?thesis by (simp add: Let_def)
  qed
  ultimately show ?thesis using validated_session [of c sid _ ws] unfolding mcp_effect.simps v_def [symmetric] by blast
qed

text \<open>A codec that writes the flag before the workspace's identifier.\<close>

definition plain_mcp_codec :: mcp_codec where
  "plain_mcp_codec = \<lparr>mc_enc = \<lambda>d. (if ms_supports_apps d then CHR ''1'' else CHR ''0'') # ms_workspace d,
     mc_dec = \<lambda>s. if s = [] then None else Some \<lparr>ms_workspace = tl s, ms_supports_apps = (hd s = CHR ''1'')\<rparr>\<rparr>"

lemma plain_mcp_codec_ok: "mcp_codec_ok plain_mcp_codec"
  by (simp add: mcp_codec_ok_def plain_mcp_codec_def)

theorem invalidation_is_complete_witness:
  "let order = sorted_list_of_set; w = mcp_run plain_mcp_codec order [CreateSession ''s1'' ''a'', CreateSession ''s2'' ''b''] (fresh_mcp (\<lambda>n. 0) (\<lambda>_. True));
       v = mcp_effect plain_mcp_codec order (InvalidateWorkspace ''a'') w
     in fst (validate_session plain_mcp_codec memory_ops ''s1'' w) = Some ''a''
      \<and> fst (validate_session plain_mcp_codec memory_ops ''s1'' v) = None
      \<and> fst (validate_session plain_mcp_codec memory_ops ''s2'' v) = Some ''b''"
proof -
  let ?order = "sorted_list_of_set :: string set \<Rightarrow> string list"
  have order: "lists_members ?order" by (simp add: lists_members_def)
  let ?calls = "[CreateSession ''s1'' ''a'', CreateSession ''s2'' ''b'']"
  define w where "w = mcp_run plain_mcp_codec ?order ?calls (fresh_mcp (\<lambda>n. 0) (\<lambda>_. True))"
  have valid: "fst (validate_session plain_mcp_codec memory_ops ''s1'' w) = Some ''a''"
    "fst (validate_session plain_mcp_codec memory_ops ''s2'' w) = Some ''b''"
    unfolding w_def
    by (simp_all add: mcp_run_def create_session_def kv_call_def Let_def split_def memory_set_def entry_new_def memory_sadd_def
        memory_expire_def fresh_mcp_def new_pool_def session_key_def workspace_sessions_key_def validate_eq expired_at_def
        reading_def from_secs_def SESSION_TTL_SECS_def plain_mcp_codec_def)
  have "drawn_once ?calls" by (auto simp: drawn_once_def)
  note gone = invalidation_is_complete [OF plain_mcp_codec_ok order this w_def, of "''a''" "[]", simplified, THEN conjunct2, unfolded Let_def]
  from gone [of "''s1''"] gone [of "''s2''"] valid show ?thesis
    unfolding Let_def w_def [symmetric] by simp
qed

end
