(* ===== verification/Subscription_Writes.thy ===== *)
theory Subscription_Writes
  imports Stripe_Service Mcp_Sessions Browser_Sessions
begin

text \<open>
  The writers of a workspace's billing state and the modification of a subscription:
  \<open>crates/kyomi-auth/src/subscription_service.rs\<close>.

  A row of \<open>workspaces\<close> is the row of \<open>Billing_Gate\<close> with the billing columns added; floating-point
  amounts are bit patterns. The world holds the table, the memberships, the requests sent to Stripe, the
  MCP sessions and the \<open>billing_status_changed\<close> events broadcast, each named by its workspace. Every
  \<open>UPDATE\<close> is one statement that may fail (\<open>auth_env\<close>, numbered by its place in the call) and then
  changes nothing.
\<close>

subsection \<open>The world of billing\<close>

record billing_row = workspace_row +
  bl_customer :: "string option"
  bl_cycle :: "string option"
  bl_period_start :: "int option"
  bl_credits_used :: "64 word"
  bl_bundle_usd :: "64 word"
  bl_bundle_events :: int

record 's billing_world =
  bw_rows :: "billing_row list"
  bw_members :: "membership_row list"
  bw_sent :: "stripe_request list"
  bw_mcp :: "'s mcp_world"
  bw_broadcasts :: "string list"

text \<open>\<open>bi_cents\<close> divides an amount by a hundred in floating point, \<open>bi_upper\<close> is \<open>str::to_uppercase\<close>.\<close>

record 's billing_libs =
  bi_stripe :: stripe_api
  bi_prices :: stripe_prices
  bi_codec :: mcp_codec
  bi_kv :: "'s kv_ops"
  bi_order :: "string set \<Rightarrow> string list"
  bi_cents :: "int \<Rightarrow> 64 word"
  bi_upper :: "string \<Rightarrow> string"

definition bill_sql :: "auth_env \<Rightarrow> nat \<Rightarrow> ('s billing_world \<Rightarrow> 'a \<times> 's billing_world) \<Rightarrow> 's billing_world
    \<Rightarrow> (app_error + 'a) \<times> 's billing_world" where
  "bill_sql e n f w = (case sql e n of Inl err \<Rightarrow> (Inl err, w) | Inr _ \<Rightarrow> let (v, w') = f w in (Inr v, w'))"

definition on_stripe :: "(stripe_error \<Rightarrow> app_error) \<Rightarrow> 'a stripe_op \<Rightarrow> 's billing_world \<Rightarrow> (app_error + 'a) \<times> 's billing_world" where
  "on_stripe err op w = (let (r, sent) = op (bw_sent w) in (map_err err r, w\<lparr>bw_sent := sent\<rparr>))"

definition stripe_failed :: "'s billing_libs \<Rightarrow> string \<Rightarrow> stripe_error \<Rightarrow> app_error" where
  "stripe_failed libs what e = Internal (what @ sa_error_text (bi_stripe libs) e)"

definition broadcast_billing_status_changed :: "string \<Rightarrow> 's billing_world \<Rightarrow> 's billing_world" where
  "broadcast_billing_status_changed ws w = w\<lparr>bw_broadcasts := bw_broadcasts w @ [ws]\<rparr>"

text \<open>\<open>notify_tools_changed\<close>, then \<open>invalidate_workspace_sessions\<close>.\<close>

definition tools_changed :: "'s billing_libs \<Rightarrow> string \<Rightarrow> 's billing_world \<Rightarrow> 's billing_world" where
  "tools_changed libs ws w =
     w\<lparr>bw_mcp := invalidate_workspace_sessions (bi_order libs) (bi_kv libs) ws
        (notify_tools_changed (bi_codec libs) (bi_kv libs) ws (bw_mcp w))\<rparr>"

subsection \<open>Which checkout\<close>

datatype checkout_path = ModifyExisting | NewSubscription | RecoverPastDue

definition checkout_path_of :: "string \<Rightarrow> string option \<Rightarrow> checkout_path" where
  "checkout_path_of status subscription =
     (case subscription of
        None \<Rightarrow> NewSubscription
      | Some _ \<Rightarrow> if status = ''past_due'' then RecoverPastDue else ModifyExisting)"

subsection \<open>Writers\<close>

datatype subscription_write_mode = WriteCreated | WriteUpdated

text \<open>\<open>x IS DISTINCT FROM 0.0\<close>: both zeros are equal to it.\<close>

definition f64_is_zero :: "64 word \<Rightarrow> bool" where
  "f64_is_zero x \<longleftrightarrow> x = 0 \<or> x = 0x8000000000000000"

definition data_differs :: "subscription_data \<Rightarrow> billing_row \<Rightarrow> bool" where
  "data_differs d r \<longleftrightarrow> wk_tier r \<noteq> sd_tier d \<or> wk_subscription r \<noteq> sd_status d \<or> bl_cycle r \<noteq> sd_cycle d
     \<or> bl_period_start r \<noteq> sd_period_start d \<or> wk_period_end r \<noteq> sd_period_end d \<or> wk_user_limit r \<noteq> Some (sd_user_limit d)"

definition data_written :: "subscription_data \<Rightarrow> billing_row \<Rightarrow> billing_row" where
  "data_written d r = r\<lparr>wk_tier := sd_tier d, wk_subscription := sd_status d, bl_cycle := sd_cycle d,
     bl_period_start := sd_period_start d, wk_period_end := sd_period_end d, wk_user_limit := Some (sd_user_limit d)\<rparr>"

fun subscription_differs :: "subscription_write_mode \<Rightarrow> subscription_data \<Rightarrow> billing_row \<Rightarrow> bool" where
  "subscription_differs WriteCreated d r \<longleftrightarrow> data_differs d r \<or> wk_stripe_subscription r \<noteq> Some (sd_subscription d)
     \<or> bl_customer r \<noteq> Some (sd_customer d) \<or> \<not> f64_is_zero (bl_credits_used r)"
| "subscription_differs WriteUpdated d r \<longleftrightarrow> data_differs d r"

fun subscription_written :: "subscription_write_mode \<Rightarrow> subscription_data \<Rightarrow> billing_row \<Rightarrow> billing_row" where
  "subscription_written WriteCreated d r = (data_written d r)\<lparr>wk_stripe_subscription := Some (sd_subscription d),
     bl_customer := Some (sd_customer d), bl_credits_used := F64_ZERO\<rparr>"
| "subscription_written WriteUpdated d r = data_written d r"

text \<open>The shape the writers share: \<open>UPDATE ... WHERE workspace_id = $1 AND (...)\<close>, an event when a row was
  affected, and whether one was.\<close>

definition announced_update :: "auth_env \<Rightarrow> nat \<Rightarrow> string \<Rightarrow> (billing_row \<Rightarrow> bool) \<Rightarrow> (billing_row \<Rightarrow> billing_row)
    \<Rightarrow> 's billing_world \<Rightarrow> (app_error + bool) \<times> 's billing_world" where
  "announced_update e n ws differs written =
     st_then (bill_sql e n (\<lambda>w.
        let hit = (\<lambda>r. wk_id r = ws \<and> differs r)
        in (count_where hit (bw_rows w), w\<lparr>bw_rows := update_where hit written (bw_rows w)\<rparr>))) (\<lambda>affected w.
     if affected > 0 then (Inr True, broadcast_billing_status_changed ws w) else (Inr False, w))"

definition write_subscription_to_workspace :: "auth_env \<Rightarrow> nat \<Rightarrow> string \<Rightarrow> subscription_data \<Rightarrow> subscription_write_mode
    \<Rightarrow> 's billing_world \<Rightarrow> (app_error + bool) \<times> 's billing_world" where
  "write_subscription_to_workspace e n ws d mode =
     announced_update e n ws (subscription_differs mode d) (subscription_written mode d)"

definition revert_subscription_to_free :: "auth_env \<Rightarrow> nat \<Rightarrow> string \<Rightarrow> 's billing_world \<Rightarrow> (app_error + bool) \<times> 's billing_world" where
  "revert_subscription_to_free e n ws =
     announced_update e n ws
       (\<lambda>r. wk_tier r \<noteq> Free \<or> wk_subscription r \<noteq> SubCancelled \<or> bl_cycle r \<noteq> None \<or> bl_period_start r \<noteq> None
          \<or> wk_period_end r \<noteq> None \<or> wk_stripe_subscription r \<noteq> None \<or> wk_user_limit r \<noteq> Some UNLIMITED_USER_LIMIT
          \<or> \<not> f64_is_zero (bl_credits_used r))
       (\<lambda>r. r\<lparr>wk_tier := Free, wk_subscription := SubCancelled, bl_cycle := None, bl_period_start := None,
          wk_period_end := None, wk_stripe_subscription := None, wk_user_limit := Some UNLIMITED_USER_LIMIT,
          bl_credits_used := F64_ZERO\<rparr>)"

definition set_subscription_status :: "auth_env \<Rightarrow> nat \<Rightarrow> string \<Rightarrow> subscription_status \<Rightarrow> 's billing_world
    \<Rightarrow> (app_error + bool) \<times> 's billing_world" where
  "set_subscription_status e n ws status =
     announced_update e n ws (\<lambda>r. wk_subscription r \<noteq> status) (\<lambda>r. r\<lparr>wk_subscription := status\<rparr>)"

definition reset_ai_credits_for_new_period :: "auth_env \<Rightarrow> nat \<Rightarrow> string \<Rightarrow> 's billing_world \<Rightarrow> (app_error + bool) \<times> 's billing_world" where
  "reset_ai_credits_for_new_period e n ws =
     announced_update e n ws (\<lambda>r. \<not> f64_is_zero (bl_credits_used r)) (\<lambda>r. r\<lparr>bl_credits_used := F64_ZERO\<rparr>)"

subsection \<open>Modifying a subscription\<close>

record modify_result =
  mr_tier :: subscription_tier
  mr_status :: subscription_status
  mr_cycle :: "string option"
  mr_user_limit :: int

definition modify_existing_subscription :: "'s billing_libs \<Rightarrow> auth_env \<Rightarrow> string \<Rightarrow> string \<Rightarrow> 's billing_world
    \<Rightarrow> (app_error + modify_result) \<times> 's billing_world" where
  "modify_existing_subscription libs e ws sub =
     st_then (st_lift (ok_or (pr_cloud_monthly (bi_prices libs)) (BadRequest ''STRIPE_CLOUD_MONTHLY not configured''))) (\<lambda>price.
     st_then (on_stripe (stripe_failed libs ''Failed to modify subscription: '')
       (update_subscription (bi_stripe libs) sub price ''cloud'' ''monthly'')) (\<lambda>d.
     st_then (write_subscription_to_workspace e 20 ws d WriteUpdated) (\<lambda>_ w.
     (Inr \<lparr>mr_tier = sd_tier d, mr_status = sd_status d, mr_cycle = sd_cycle d, mr_user_limit = sd_user_limit d\<rparr>,
      tools_changed libs ws w))))"

end
