(* ===== verification/Payment_Recovery.thy ===== *)
theory Payment_Recovery
  imports Subscription_Writes
begin

text \<open>
  Recovery of a past-due payment and the synchronization of a new subscription:
  \<open>crates/kyomi-auth/src/payment_recovery.rs\<close>, on the Stripe service and the writers of the billing state.
\<close>

subsection \<open>Outcomes and the facts of a session\<close>

datatype recovery_outcome = Recovered | NeedsAction "string option" | Declined string

record recovery_facts =
  rc_mode :: checkout_mode
  rc_status :: "checkout_status option"
  rc_purpose :: "string option"
  rc_workspace :: "string option"
  rc_customer :: "string option"
  rc_setup_status :: "setup_intent_status option"
  rc_payment_method :: "string option"

definition metadata_at :: "checkout_session \<Rightarrow> string \<Rightarrow> string option" where
  "metadata_at s k = Option.bind (cs_metadata s) (\<lambda>m. m k)"

definition extract_recovery_session_facts :: "checkout_session \<Rightarrow> recovery_facts" where
  "extract_recovery_session_facts s =
     (let (status, pm) = (case cs_setup_intent s of
            Some (ExpandObject si) \<Rightarrow> (Some (si_status si), map_option expanded_id (si_payment_method si))
          | Some (ExpandId _) \<Rightarrow> (None, None)
          | None \<Rightarrow> (None, None))
      in \<lparr>rc_mode = cs_mode s, rc_status = cs_status s, rc_purpose = metadata_at s ''purpose'',
          rc_workspace = metadata_at s ''workspace_id'', rc_customer = map_option expanded_id (cs_customer s),
          rc_setup_status = status, rc_payment_method = pm\<rparr>)"

datatype recovery_validation_error =
    NotSetupMode | NotComplete | PurposeMismatch | WorkspaceMismatch | CustomerMismatch | SetupIntentMissing
  | SetupIntentNotSucceeded string | PaymentMethodMissing

fun recovery_validation_text :: "recovery_validation_error \<Rightarrow> string" where
  "recovery_validation_text NotSetupMode = ''checkout session is not a setup-mode session''"
| "recovery_validation_text NotComplete = ''checkout session is not complete''"
| "recovery_validation_text PurposeMismatch = ''checkout session is not a payment-recovery session''"
| "recovery_validation_text WorkspaceMismatch = ''checkout session does not belong to this workspace''"
| "recovery_validation_text CustomerMismatch =
     ''checkout session'' @ [CHR 0x27] @ ''s customer does not match this workspace'' @ [CHR 0x27] @ ''s billing customer''"
| "recovery_validation_text SetupIntentMissing = ''checkout session has no completed setup intent''"
| "recovery_validation_text (SetupIntentNotSucceeded s) = ''setup intent has not succeeded (status: '' @ s @ '')''"
| "recovery_validation_text PaymentMethodMissing = ''setup intent captured no payment method''"

definition validate_recovery_session_facts :: "recovery_facts \<Rightarrow> string \<Rightarrow> string \<Rightarrow> recovery_validation_error + string" where
  "validate_recovery_session_facts f ws customer =
     and_then (ensure (rc_mode f = ModeSetup) NotSetupMode) (\<lambda>_.
     and_then (ensure (rc_status f = Some CsComplete) NotComplete) (\<lambda>_.
     and_then (ensure (rc_purpose f = Some RECOVERY_PURPOSE_MARKER) PurposeMismatch) (\<lambda>_.
     and_then (ensure (rc_workspace f = Some ws) WorkspaceMismatch) (\<lambda>_.
     and_then (ensure (rc_customer f = Some customer) CustomerMismatch) (\<lambda>_.
     and_then (case rc_setup_status f of
         Some SiSucceeded \<Rightarrow> Inr ()
       | Some (SiOther t) \<Rightarrow> Inl (SetupIntentNotSucceeded t)
       | None \<Rightarrow> Inl SetupIntentMissing) (\<lambda>_.
     ok_or (rc_payment_method f) PaymentMethodMissing))))))"

subsection \<open>The outcome of paying an invoice\<close>

definition classify_invoice_facts :: "invoice_status option \<Rightarrow> string option \<Rightarrow> recovery_outcome" where
  "classify_invoice_facts status url =
     (case status of
        Some InvPaid \<Rightarrow> Recovered
      | Some InvOpen \<Rightarrow> NeedsAction url
      | _ \<Rightarrow> Declined ''invoice could not be confirmed as paid'')"

fun extract_pay_invoice_error_facts :: "stripe_error \<Rightarrow> (string option \<times> payment_intent_status option) option" where
  "extract_pay_invoice_error_facts (StripeApi errs _) = Some (ae_message errs, ae_payment_intent errs)"
| "extract_pay_invoice_error_facts StripeTimeout = None"
| "extract_pay_invoice_error_facts (StripeClientError _) = None"
| "extract_pay_invoice_error_facts (StripeJson _) = None"
| "extract_pay_invoice_error_facts (StripeConfig _) = None"

definition classify_pay_invoice_error_facts :: "string option \<Rightarrow> payment_intent_status option \<Rightarrow> string option \<Rightarrow> recovery_outcome" where
  "classify_pay_invoice_error_facts message intent url =
     (if intent \<in> {Some PiRequiresAction, Some PiRequiresConfirmation} then NeedsAction url
      else Declined (case message of Some m \<Rightarrow> m | None \<Rightarrow> ''Payment failed''))"

subsection \<open>The session of a webhook\<close>

datatype checkout_session_kind = BundleSession | PaymentRecoverySession | IgnoredSession

definition classify_webhook_checkout_session :: "checkout_mode \<Rightarrow> (string \<Rightarrow> string option) option \<Rightarrow> checkout_session_kind" where
  "classify_webhook_checkout_session mode metadata =
     (case mode of
        ModePayment \<Rightarrow> BundleSession
      | ModeSetup \<Rightarrow>
          if Option.bind metadata (\<lambda>m. m ''purpose'') = Some RECOVERY_PURPOSE_MARKER then PaymentRecoverySession else IgnoredSession
      | ModeSubscription \<Rightarrow> IgnoredSession
      | ModeUnknown _ \<Rightarrow> IgnoredSession)"

subsection \<open>A new subscription\<close>

datatype new_subscription_error = NotSubscriptionMode | NewWorkspaceMismatch | NewCustomerMismatch | NoSubscription

fun new_subscription_error_text :: "new_subscription_error \<Rightarrow> string" where
  "new_subscription_error_text NotSubscriptionMode = ''checkout session is not a subscription-mode session''"
| "new_subscription_error_text NewWorkspaceMismatch = ''checkout session does not belong to this workspace''"
| "new_subscription_error_text NewCustomerMismatch =
     ''checkout session'' @ [CHR 0x27] @ ''s customer does not match this workspace'' @ [CHR 0x27] @ ''s billing customer''"
| "new_subscription_error_text NoSubscription = ''checkout session has no subscription''"

record new_subscription_facts =
  nf_mode :: checkout_mode
  nf_workspace :: "string option"
  nf_customer :: "string option"
  nf_has_subscription :: bool

definition extract_new_subscription_session_facts :: "checkout_session \<Rightarrow> new_subscription_facts" where
  "extract_new_subscription_session_facts s = \<lparr>nf_mode = cs_mode s, nf_workspace = metadata_at s ''workspace_id'',
     nf_customer = map_option expanded_id (cs_customer s), nf_has_subscription = (cs_subscription s \<noteq> None)\<rparr>"

definition validate_new_subscription_session_facts :: "new_subscription_facts \<Rightarrow> string \<Rightarrow> string \<Rightarrow> new_subscription_error + unit" where
  "validate_new_subscription_session_facts f ws customer =
     and_then (ensure (nf_mode f = ModeSubscription) NotSubscriptionMode) (\<lambda>_.
     and_then (ensure (nf_workspace f = Some ws) NewWorkspaceMismatch) (\<lambda>_.
     and_then (ensure (nf_customer f = Some customer) NewCustomerMismatch) (\<lambda>_.
     ensure (nf_has_subscription f) NoSubscription)))"

definition sync_new_subscription_checkout :: "'s billing_libs \<Rightarrow> auth_env \<Rightarrow> string \<Rightarrow> string \<Rightarrow> string \<Rightarrow> 's billing_world
    \<Rightarrow> (app_error + unit) \<times> 's billing_world" where
  "sync_new_subscription_checkout libs e ws customer session =
     st_then (on_stripe (stripe_failed libs ''failed to retrieve checkout session: '')
       (retrieve_checkout_session_with_subscription (bi_stripe libs) session)) (\<lambda>s.
     st_then (st_lift (map_err (\<lambda>v. BadRequest (''invalid new-subscription checkout session: '' @ new_subscription_error_text v))
       (validate_new_subscription_session_facts (extract_new_subscription_session_facts s) ws customer))) (\<lambda>_.
     case cs_subscription s of
       Some (ExpandObject sub) \<Rightarrow>
         st_then (write_subscription_to_workspace e 20 ws (parse_subscription_data (bi_stripe libs) sub) WriteCreated) (\<lambda>_ w.
         (Inr (), tools_changed libs ws w))
     | _ \<Rightarrow> st_err (Internal ''checkout session has no expanded subscription'')))"

subsection \<open>Paying the open invoices\<close>

definition attempt_pay_invoice :: "'s billing_libs \<Rightarrow> stripe_invoice \<Rightarrow> string \<Rightarrow> 's billing_world
    \<Rightarrow> (app_error + recovery_outcome) \<times> 's billing_world" where
  "attempt_pay_invoice libs invoice pm w =
     (case iv_id invoice of
        None \<Rightarrow> (Inl (Internal ''open invoice has no id''), w)
      | Some i \<Rightarrow>
          (case pay_invoice (bi_stripe libs) i pm (bw_sent w) of
             (Inr paid, sent) \<Rightarrow> (Inr (classify_invoice_facts (iv_status paid) (iv_hosted_url paid)), w\<lparr>bw_sent := sent\<rparr>)
           | (Inl err, sent) \<Rightarrow>
               (let (current, sent') = retrieve_invoice (bi_stripe libs) i sent; w' = w\<lparr>bw_sent := sent'\<rparr>
                in if (case current of Inr v \<Rightarrow> iv_status v = Some InvPaid | Inl _ \<Rightarrow> False) then (Inr Recovered, w')
                   else (case extract_pay_invoice_error_facts err of
                       Some (message, intent) \<Rightarrow> (Inr (classify_pay_invoice_error_facts message intent (iv_hosted_url invoice)), w')
                     | None \<Rightarrow> (Inl (Internal (''Payment recovery could not confirm the outcome of paying invoice '' @ i
                         @ '': '' @ sa_error_text (bi_stripe libs) err)), w')))))"

text \<open>The loop over the open invoices stops at the first one that was not paid.\<close>

fun pay_open_invoices :: "'s billing_libs \<Rightarrow> string \<Rightarrow> stripe_invoice list \<Rightarrow> 's billing_world
    \<Rightarrow> (app_error + recovery_outcome) \<times> 's billing_world" where
  "pay_open_invoices libs pm [] w = (Inr Recovered, w)"
| "pay_open_invoices libs pm (invoice # invs) w =
     (case attempt_pay_invoice libs invoice pm w of
        (Inl err, w') \<Rightarrow> (Inl err, w')
      | (Inr result, w') \<Rightarrow> if result = Recovered then pay_open_invoices libs pm invs w' else (Inr result, w'))"

record recovery_ids =
  ri_workspace :: string
  ri_customer :: string
  ri_subscription :: string
  ri_session :: string

definition refresh_recovered :: "'s billing_libs \<Rightarrow> auth_env \<Rightarrow> recovery_ids \<Rightarrow> 's billing_world
    \<Rightarrow> (app_error + recovery_outcome) \<times> 's billing_world" where
  "refresh_recovered libs e ids =
     st_then (on_stripe (stripe_failed libs ''failed to retrieve subscription after recovery: '')
       (retrieve_subscription (bi_stripe libs) (ri_subscription ids))) (\<lambda>sub.
     st_then (write_subscription_to_workspace e 20 (ri_workspace ids) (parse_subscription_data (bi_stripe libs) sub) WriteUpdated) (\<lambda>_ w.
     (Inr Recovered, tools_changed libs (ri_workspace ids) w)))"

definition recover_past_due_payment :: "'s billing_libs \<Rightarrow> auth_env \<Rightarrow> recovery_ids \<Rightarrow> 's billing_world
    \<Rightarrow> (app_error + recovery_outcome) \<times> 's billing_world" where
  "recover_past_due_payment libs e ids =
     st_then (on_stripe (stripe_failed libs ''failed to retrieve checkout session: '')
       (retrieve_checkout_session_with_setup_intent (bi_stripe libs) (ri_session ids))) (\<lambda>s.
     st_then (st_lift (map_err (\<lambda>v. BadRequest (''invalid payment recovery session: '' @ recovery_validation_text v))
       (validate_recovery_session_facts (extract_recovery_session_facts s) (ri_workspace ids) (ri_customer ids)))) (\<lambda>pm.
     st_then (on_stripe (stripe_failed libs ''failed to set default payment method: '')
       (set_default_payment_method (bi_stripe libs) (ri_customer ids) (ri_subscription ids) pm)) (\<lambda>_.
     st_then (on_stripe (stripe_failed libs ''failed to list open invoices: '')
       (list_open_invoices (bi_stripe libs) (ri_subscription ids))) (\<lambda>invs.
     st_then (pay_open_invoices libs pm invs) (\<lambda>result.
     if result = Recovered then refresh_recovered libs e ids else st_ok result)))))"

end
