(* ===== verification/Billing_Webhook.thy ===== *)
theory Billing_Webhook
  imports Payment_Recovery
begin

text \<open>
  The Stripe webhook: \<open>crates/kyomi-auth/src/billing_webhook.rs\<close> and the route of
  \<open>apps/server/src/routes/billing.rs\<close>.

  Verification of the signature and parsing of the event are the parameter \<open>verify\<close>. Arithmetic on
  floating-point amounts, in the server and in the database, is the parameter \<open>float_ops\<close> on bit
  patterns; amounts of events are \<open>i64\<close>, whose product wraps in a release build and whose sum the
  database (PostgreSQL) refuses beyond the range. Logging is left out.
\<close>

subsection \<open>Subscription events\<close>

record event_facts =
  ef_app :: "string option"
  ef_workspace :: "string option"

definition extract_subscription_event_facts :: "stripe_subscription \<Rightarrow> event_facts" where
  "extract_subscription_event_facts s = \<lparr>ef_app = sb_metadata s ''app'', ef_workspace = sb_metadata s ''workspace_id''\<rparr>"

datatype event_guard = NotKyomiApp | MissingWorkspaceId

definition resolve_subscription_event_workspace :: "event_facts \<Rightarrow> event_guard + string" where
  "resolve_subscription_event_workspace f =
     (if ef_app f \<noteq> Some ''kyomi'' then Inl NotKyomiApp
      else case ef_workspace f of
        Some i \<Rightarrow> if i \<noteq> [] then Inr i else Inl MissingWorkspaceId
      | None \<Rightarrow> Inl MissingWorkspaceId)"

datatype subscription_webhook_outcome = SkippedEvent event_guard | AppliedEvent string subscription_tier bool

definition apply_subscription_webhook_event :: "'s billing_libs \<Rightarrow> auth_env \<Rightarrow> stripe_subscription \<Rightarrow> subscription_write_mode
    \<Rightarrow> 's billing_world \<Rightarrow> (app_error + subscription_webhook_outcome) \<times> 's billing_world" where
  "apply_subscription_webhook_event libs e s mode =
     (case resolve_subscription_event_workspace (extract_subscription_event_facts s) of
        Inl g \<Rightarrow> st_ok (SkippedEvent g)
      | Inr ws \<Rightarrow>
          let d = parse_subscription_data (bi_stripe libs) s in
          st_then (write_subscription_to_workspace e 20 ws d mode) (\<lambda>changed w.
          (Inr (AppliedEvent ws (sd_tier d) changed), tools_changed libs ws w)))"

datatype subscription_deleted_outcome = SkippedDeletion event_guard | AppliedDeletion string bool

definition apply_subscription_deleted_event_facts :: "'s billing_libs \<Rightarrow> auth_env \<Rightarrow> event_facts \<Rightarrow> 's billing_world
    \<Rightarrow> (app_error + subscription_deleted_outcome) \<times> 's billing_world" where
  "apply_subscription_deleted_event_facts libs e f =
     (case resolve_subscription_event_workspace f of
        Inl g \<Rightarrow> st_ok (SkippedDeletion g)
      | Inr ws \<Rightarrow>
          st_then (revert_subscription_to_free e 20 ws) (\<lambda>changed w.
          (Inr (AppliedDeletion ws changed), tools_changed libs ws w)))"

definition apply_subscription_deleted_webhook_event :: "'s billing_libs \<Rightarrow> auth_env \<Rightarrow> stripe_subscription \<Rightarrow> 's billing_world
    \<Rightarrow> (app_error + subscription_deleted_outcome) \<times> 's billing_world" where
  "apply_subscription_deleted_webhook_event libs e s =
     apply_subscription_deleted_event_facts libs e (extract_subscription_event_facts s)"

subsection \<open>Invoice events\<close>

datatype invoice_webhook_outcome = NoSubscriptionId | WorkspaceNotFound string | AppliedInvoice string bool

definition invoice_subscription_id :: "stripe_invoice \<Rightarrow> string option" where
  "invoice_subscription_id v = map_option expanded_id (iv_subscription v)"

definition workspace_id_by_subscription :: "auth_env \<Rightarrow> nat \<Rightarrow> string \<Rightarrow> 's billing_world \<Rightarrow> (app_error + string option) \<times> 's billing_world" where
  "workspace_id_by_subscription e n sub =
     bill_sql e n (\<lambda>w. (map_option wk_id (find (\<lambda>r. wk_stripe_subscription r = Some sub) (bw_rows w)), w))"

text \<open>Both events: find the workspace, then write.\<close>

definition invoice_event :: "auth_env \<Rightarrow> stripe_invoice \<Rightarrow> (string \<Rightarrow> 's billing_world \<Rightarrow> (app_error + bool) \<times> 's billing_world)
    \<Rightarrow> 's billing_world \<Rightarrow> (app_error + invoice_webhook_outcome) \<times> 's billing_world" where
  "invoice_event e v write =
     (case invoice_subscription_id v of
        None \<Rightarrow> st_ok NoSubscriptionId
      | Some sub \<Rightarrow>
          st_then (workspace_id_by_subscription e 10 sub) (\<lambda>found.
          case found of
            None \<Rightarrow> st_ok (WorkspaceNotFound sub)
          | Some ws \<Rightarrow> st_then (write ws) (\<lambda>changed. st_ok (AppliedInvoice ws changed))))"

definition apply_invoice_payment_failed_webhook_event :: "auth_env \<Rightarrow> stripe_invoice \<Rightarrow> 's billing_world
    \<Rightarrow> (app_error + invoice_webhook_outcome) \<times> 's billing_world" where
  "apply_invoice_payment_failed_webhook_event e v =
     invoice_event e v (\<lambda>ws. set_subscription_status e 20 ws PastDue)"

definition apply_invoice_payment_succeeded_webhook_event :: "auth_env \<Rightarrow> stripe_invoice \<Rightarrow> 's billing_world
    \<Rightarrow> (app_error + invoice_webhook_outcome) \<times> 's billing_world" where
  "apply_invoice_payment_succeeded_webhook_event e v =
     invoice_event e v (\<lambda>ws. reset_ai_credits_for_new_period e 20 ws)"

subsection \<open>Bundles\<close>

record float_ops =
  fl_parse :: "string \<Rightarrow> 64 word option"
  fl_of_u64 :: "64 word \<Rightarrow> 64 word"
  fl_mul :: "64 word \<Rightarrow> 64 word \<Rightarrow> 64 word"
  fl_add :: "64 word \<Rightarrow> 64 word \<Rightarrow> 64 word"

definition F64_TEN :: "64 word" where "F64_TEN = 0x4024000000000000"

text \<open>\<open>str::parse::<u64>\<close>.\<close>

definition parse_u64 :: "string \<Rightarrow> 64 word option" where
  "parse_u64 s =
     (let ds = (if s \<noteq> [] \<and> hd s = CHR ''+'' then tl s else s)
      in if ds \<noteq> [] \<and> list_all is_digit ds \<and> digits_value ds < 2 ^ 64 then Some (of_int (digits_value ds)) else None)"

definition bundle_quantity :: "(string \<Rightarrow> string option) \<Rightarrow> 64 word" where
  "bundle_quantity metadata =
     max 1 (case Option.bind (metadata ''bundle_quantity'') parse_u64 of Some n \<Rightarrow> n | None \<Rightarrow> 1)"

definition quantity_i64 :: "64 word \<Rightarrow> int" where "quantity_i64 q = sint q"

definition total_events :: "(string \<Rightarrow> string option) \<Rightarrow> 64 word \<Rightarrow> int" where
  "total_events vars q =
     wrap_i64 ((case Option.bind (vars ''ANALYTICS_BUNDLE_CREDIT_EVENTS'') parse_i64 of Some n \<Rightarrow> n | None \<Rightarrow> 1000000)
       * quantity_i64 q)"

definition total_credit :: "float_ops \<Rightarrow> (string \<Rightarrow> string option) \<Rightarrow> 64 word \<Rightarrow> 64 word" where
  "total_credit fl vars q =
     fl_mul fl (case Option.bind (vars ''AI_BUNDLE_CREDIT_USD'') (fl_parse fl) of Some x \<Rightarrow> x | None \<Rightarrow> F64_TEN) (fl_of_u64 fl q)"

definition credit_ai_bundle :: "auth_env \<Rightarrow> string \<Rightarrow> float_ops \<Rightarrow> 64 word \<Rightarrow> 's billing_world \<Rightarrow> 's billing_world" where
  "credit_ai_bundle e ws fl amount w =
     snd (bill_sql e 20 (\<lambda>w. ((), w\<lparr>bw_rows := update_where (\<lambda>r. wk_id r = ws)
       (\<lambda>r. r\<lparr>bl_bundle_usd := fl_add fl (bl_bundle_usd r) amount\<rparr>) (bw_rows w)\<rparr>)) w)"

definition credit_analytics_bundle :: "auth_env \<Rightarrow> string \<Rightarrow> int \<Rightarrow> 's billing_world \<Rightarrow> 's billing_world" where
  "credit_analytics_bundle e ws n w =
     (if \<exists>r \<in> set (bw_rows w). wk_id r = ws \<and> \<not> in_i64 (bl_bundle_events r + n) then w
      else snd (bill_sql e 20 (\<lambda>w. ((), w\<lparr>bw_rows := update_where (\<lambda>r. wk_id r = ws)
        (\<lambda>r. r\<lparr>bl_bundle_events := bl_bundle_events r + n\<rparr>) (bw_rows w)\<rparr>)) w))"

definition handle_bundle_checkout_completed :: "float_ops \<Rightarrow> (string \<Rightarrow> string option) \<Rightarrow> auth_env \<Rightarrow> string
    \<Rightarrow> (string \<Rightarrow> string option) \<Rightarrow> 's billing_world \<Rightarrow> 's billing_world" where
  "handle_bundle_checkout_completed fl vars e ws metadata w =
     (case metadata ''purchase_type'' of
        None \<Rightarrow> w
      | Some kind \<Rightarrow>
          let q = bundle_quantity metadata in
          if kind = ''ai_bundle'' then credit_ai_bundle e ws fl (total_credit fl vars q) w
          else if kind = ''analytics_bundle'' then credit_analytics_bundle e ws (total_events vars q) w
          else w)"

subsection \<open>The route\<close>

datatype webhook_event =
    SubscriptionCreated stripe_subscription
  | SubscriptionUpdated stripe_subscription
  | SubscriptionDeleted stripe_subscription
  | InvoicePaymentSucceeded stripe_invoice
  | InvoicePaymentFailed stripe_invoice
  | CheckoutSessionCompleted checkout_session
  | OtherEvent string

record webhook_env =
  we_configured :: bool
  we_verify :: "string \<Rightarrow> string \<Rightarrow> webhook_event option"
  we_float :: float_ops
  we_vars :: "string \<Rightarrow> string option"

text \<open>The signature header when it is readable, the body when it is UTF-8.\<close>

record webhook_request =
  wq_signature :: "string option"
  wq_body :: "string option"

definition load_recovery_workspace_row :: "auth_env \<Rightarrow> nat \<Rightarrow> string \<Rightarrow> 's billing_world
    \<Rightarrow> (app_error + (string option \<times> string option) option) \<times> 's billing_world" where
  "load_recovery_workspace_row e n ws =
     bill_sql e n (\<lambda>w. (map_option (\<lambda>r. (bl_customer r, wk_stripe_subscription r)) (find (\<lambda>r. wk_id r = ws) (bw_rows w)), w))"

definition handle_payment_recovery_checkout_completed :: "'s billing_libs \<Rightarrow> auth_env \<Rightarrow> string \<Rightarrow> checkout_session
    \<Rightarrow> 's billing_world \<Rightarrow> 's billing_world" where
  "handle_payment_recovery_checkout_completed libs e ws s w =
     (case load_recovery_workspace_row e 10 ws w of
        (Inr (Some (Some customer, Some sub)), w1) \<Rightarrow>
          snd (recover_past_due_payment libs e
            \<lparr>ri_workspace = ws, ri_customer = customer, ri_subscription = sub, ri_session = cs_id s\<rparr> w1)
      | (_, w1) \<Rightarrow> w1)"

definition handle_checkout_completed :: "'s billing_libs \<Rightarrow> webhook_env \<Rightarrow> auth_env \<Rightarrow> checkout_session
    \<Rightarrow> 's billing_world \<Rightarrow> 's billing_world" where
  "handle_checkout_completed libs we e s w =
     (case cs_metadata s of
        None \<Rightarrow> w
      | Some metadata \<Rightarrow>
          (case metadata ''workspace_id'' of
             None \<Rightarrow> w
           | Some ws \<Rightarrow>
               if ws = [] then w
               else (case classify_webhook_checkout_session (cs_mode s) (Some metadata) of
                   BundleSession \<Rightarrow> handle_bundle_checkout_completed (we_float we) (we_vars we) e ws metadata w
                 | PaymentRecoverySession \<Rightarrow> handle_payment_recovery_checkout_completed libs e ws s w
                 | IgnoredSession \<Rightarrow> w)))"

fun handle_event :: "'s billing_libs \<Rightarrow> webhook_env \<Rightarrow> auth_env \<Rightarrow> webhook_event \<Rightarrow> 's billing_world \<Rightarrow> 's billing_world" where
  "handle_event libs we e (SubscriptionCreated s) w = snd (apply_subscription_webhook_event libs e s WriteCreated w)"
| "handle_event libs we e (SubscriptionUpdated s) w = snd (apply_subscription_webhook_event libs e s WriteUpdated w)"
| "handle_event libs we e (SubscriptionDeleted s) w = snd (apply_subscription_deleted_webhook_event libs e s w)"
| "handle_event libs we e (InvoicePaymentSucceeded v) w = snd (apply_invoice_payment_succeeded_webhook_event e v w)"
| "handle_event libs we e (InvoicePaymentFailed v) w = snd (apply_invoice_payment_failed_webhook_event e v w)"
| "handle_event libs we e (CheckoutSessionCompleted s) w = handle_checkout_completed libs we e s w"
| "handle_event libs we e (OtherEvent _) w = w"

definition stripe_webhook :: "'s billing_libs \<Rightarrow> webhook_env \<Rightarrow> auth_env \<Rightarrow> webhook_request \<Rightarrow> 's billing_world
    \<Rightarrow> (app_error + json) \<times> 's billing_world" where
  "stripe_webhook libs we e req =
     st_then (st_lift (ensure (we_configured we) (BadRequest ''Billing features are not available''))) (\<lambda>_.
     st_then (st_lift (ok_or (wq_signature req) (BadRequest ''Missing Stripe signature''))) (\<lambda>signature.
     st_then (st_lift (ok_or (wq_body req) (BadRequest ''Invalid UTF-8 in webhook payload''))) (\<lambda>payload.
     st_then (st_lift (ok_or (we_verify we payload signature) (BadRequest ''Invalid signature''))) (\<lambda>event w.
     (Inr (JObject []), handle_event libs we e event w)))))"

end
