(* ===== verification/Billing_Checkout.thy ===== *)
theory Billing_Checkout
  imports Billing_Webhook
begin

text \<open>
  The owner's billing operations, the server functions of
  \<open>crates/kyomi-ui/src/server_fns/billing.rs\<close>, and the permissions of \<open>kyomi-auth/src/permissions.rs\<close>.

  A call starts from the outcome of the extractor it uses (\<open>extract\<close>, refused while billing is lapsed, or
  \<open>extract_allow_lapsed\<close>), here the fields of \<open>billing_caller\<close>; \<open>bc_signed_in\<close> is the one without a workspace
  (\<open>extract_auth_allow_lapsed\<close>), with whether Stripe is configured. An error is the text of a
  \<open>ServerFnError\<close>, with the HTTP status the code sets beside it, or the application error whose user text
  is shown (the redaction of \<open>sanitize_error\<close> comes after that). The pages that only read
  (\<open>get_subscription_info\<close>, \<open>get_billing_paywall\<close>, the publishable key) are not modelled.
\<close>

subsection \<open>Permissions\<close>

datatype permission =
    ManageDatasources | RefreshCatalog | ManageWorkspaceSettings | ManageTeam | ManageAiConfig | ManageAnalytics
  | ManageConnect | SetWorkspaceDefaults | ManageIntegrations | ManageBilling | TransferOwnership

definition permissions_for :: "auth_user \<Rightarrow> permission set" where
  "permissions_for u =
     (let owner = wc_is_owner (us_workspace u); admin = WorkspaceAdmin \<in> set (wc_roles (us_workspace u)) \<or> owner
      in (if admin then {ManageDatasources, RefreshCatalog, ManageWorkspaceSettings, ManageTeam, ManageAiConfig,
            ManageAnalytics, ManageConnect, SetWorkspaceDefaults, ManageIntegrations} else {})
         \<union> (if owner then {ManageBilling, TransferOwnership} else {}))"

subsection \<open>The caller\<close>

datatype sfn_error = SfnText string | SfnStatus nat string | SfnCore app_error

record billing_ctx =
  cx_auth :: auth_user
  cx_ws :: string
  cx_self_hosted :: bool
  cx_stripe :: bool
  cx_ws_manager :: bool
  cx_mcp_sessions :: bool
  cx_frontend_url :: string

record billing_caller =
  bc_extract :: "sfn_error + billing_ctx"
  bc_allow_lapsed :: "sfn_error + billing_ctx"
  bc_signed_in :: "sfn_error + bool"

definition require_workspace_owner :: "billing_ctx \<Rightarrow> sfn_error + unit" where
  "require_workspace_owner c =
     ensure (ManageBilling \<in> permissions_for (cx_auth c)) (SfnStatus 403 ''Workspace owner access required'')"

definition require_stripe :: "billing_ctx \<Rightarrow> sfn_error + unit" where
  "require_stripe c = ensure (cx_stripe c) (SfnText ''Billing features are not available'')"

definition require_ws_manager :: "billing_ctx \<Rightarrow> sfn_error + unit" where
  "require_ws_manager c = ensure (cx_ws_manager c) (SfnText ''WebSocket manager not configured'')"

definition require_mcp_sessions :: "billing_ctx \<Rightarrow> sfn_error + unit" where
  "require_mcp_sessions c = ensure (cx_mcp_sessions c) (SfnText ''MCP session manager unavailable'')"

definition core :: "('s \<Rightarrow> (app_error + 'a) \<times> 's) \<Rightarrow> 's \<Rightarrow> (sfn_error + 'a) \<times> 's" where
  "core m = st_map_err SfnCore m"

definition load_workspace :: "auth_env \<Rightarrow> string \<Rightarrow> 's billing_world \<Rightarrow> (sfn_error + billing_row) \<times> 's billing_world" where
  "load_workspace e ws =
     st_then (core (bill_sql e 10 (\<lambda>w. (find (\<lambda>r. wk_id r = ws) (bw_rows w), w)))) (\<lambda>found.
     st_lift (ok_or found (SfnText ''Workspace not found'')))"

definition stripe_call :: "'s billing_libs \<Rightarrow> string \<Rightarrow> 'a stripe_op \<Rightarrow> 's billing_world \<Rightarrow> (sfn_error + 'a) \<times> 's billing_world" where
  "stripe_call libs what op w =
     (let (r, sent) = op (bw_sent w)
      in (map_err (\<lambda>err. SfnText (what @ sa_error_text (bi_stripe libs) err)) r, w\<lparr>bw_sent := sent\<rparr>))"

definition some_text :: "string option \<Rightarrow> string \<Rightarrow> sfn_error + string" where
  "some_text x m = ok_or x (SfnText m)"

subsection \<open>Checkout\<close>

datatype checkout_outcome = Embedded string string | Modified string

definition PAST_DUE_REFUSAL :: string where
  "PAST_DUE_REFUSAL = ''This subscription is past due. Add a payment method via payment recovery to pay the open invoice ''
     @ ''and reactivate it '' @ [CHR 0xE2, CHR 0x80, CHR 0x94] @ '' starting a new subscription here would create a second, duplicate one.''"

definition ensure_customer :: "'s billing_libs \<Rightarrow> auth_env \<Rightarrow> billing_ctx \<Rightarrow> billing_row \<Rightarrow> 's billing_world
    \<Rightarrow> (sfn_error + string) \<times> 's billing_world" where
  "ensure_customer libs e c r =
     (case bl_customer r of
        Some (i # is) \<Rightarrow> st_ok (i # is)
      | _ \<Rightarrow>
          st_then (stripe_call libs ''Failed to create Stripe customer: ''
            (create_customer (bi_stripe libs) (us_mail (cx_auth c)) (cx_ws c)
              (case wk_name r of Some n \<Rightarrow> n | None \<Rightarrow> ''Unnamed''))) (\<lambda>customer.
          st_then (core (bill_sql e 30 (\<lambda>w. ((), w\<lparr>bw_rows := update_where (\<lambda>r. wk_id r = cx_ws c)
            (\<lambda>r. r\<lparr>bl_customer := Some customer\<rparr>) (bw_rows w)\<rparr>)))) (\<lambda>_.
          st_ok customer)))"

text \<open>The rest of \<open>create_checkout\<close> once the row is loaded.\<close>

definition checkout_for :: "'s billing_libs \<Rightarrow> auth_env \<Rightarrow> billing_ctx \<Rightarrow> 64 word \<Rightarrow> billing_row \<Rightarrow> 's billing_world
    \<Rightarrow> (sfn_error + checkout_outcome) \<times> 's billing_world" where
  "checkout_for libs e c quantity r =
     (let path = checkout_path_of (subscription_status_str (wk_subscription r)) (wk_stripe_subscription r) in
      if path = RecoverPastDue then st_err (SfnStatus 409 PAST_DUE_REFUSAL)
      else
        st_then (st_lift (require_ws_manager c)) (\<lambda>_.
        st_then (st_lift (require_stripe c)) (\<lambda>_.
        if path = ModifyExisting then
          st_then (st_lift (some_text (wk_stripe_subscription r)
            (''Workspace subscription state is inconsistent '' @ [CHR 0xE2, CHR 0x80, CHR 0x94] @ '' missing subscription id''))) (\<lambda>sub.
          st_then (st_lift (require_mcp_sessions c)) (\<lambda>_.
          st_then (core (modify_existing_subscription libs e (cx_ws c) sub)) (\<lambda>_.
          st_ok (Modified ''Subscription reactivated successfully''))))
        else
          st_then (st_lift (some_text (pr_cloud_monthly (bi_prices libs)) ''STRIPE_CLOUD_MONTHLY not configured'')) (\<lambda>price.
          st_then (ensure_customer libs e c r) (\<lambda>customer.
          st_then (stripe_call libs ''Failed to create checkout session: ''
            (create_embedded_checkout_session (bi_stripe libs) customer price (cx_ws c) quantity 30)) (\<lambda>(secret, i).
          st_ok (Embedded secret i)))))))"

definition create_checkout :: "'s billing_libs \<Rightarrow> auth_env \<Rightarrow> billing_caller \<Rightarrow> 64 word \<Rightarrow> 's billing_world
    \<Rightarrow> (sfn_error + checkout_outcome) \<times> 's billing_world" where
  "create_checkout libs e who quantity =
     st_then (st_lift (bc_allow_lapsed who)) (\<lambda>c.
     st_then (st_lift (require_workspace_owner c)) (\<lambda>_.
     st_then (load_workspace e (cx_ws c)) (\<lambda>r.
     checkout_for libs e c quantity r)))"

definition start_payment_recovery :: "'s billing_libs \<Rightarrow> auth_env \<Rightarrow> billing_caller \<Rightarrow> 's billing_world
    \<Rightarrow> (sfn_error + string \<times> string) \<times> 's billing_world" where
  "start_payment_recovery libs e who =
     st_then (st_lift (bc_allow_lapsed who)) (\<lambda>c.
     st_then (st_lift (require_workspace_owner c)) (\<lambda>_.
     st_then (load_workspace e (cx_ws c)) (\<lambda>r.
     st_then (st_lift (ensure (checkout_path_of (subscription_status_str (wk_subscription r)) (wk_stripe_subscription r) = RecoverPastDue)
       (SfnText (''Payment recovery is only available for a past-due subscription with an existing Stripe subscription on file ''
          @ [CHR 0xE2, CHR 0x80, CHR 0x94] @ '' use Subscribe instead'')))) (\<lambda>_.
     st_then (st_lift (some_text (bl_customer r) ''No Stripe customer on file for this workspace'')) (\<lambda>customer.
     st_then (st_lift (require_stripe c)) (\<lambda>_.
     stripe_call libs ''Failed to create payment recovery session: ''
       (create_recovery_setup_session (bi_stripe libs) customer (cx_ws c))))))))"

definition complete_payment_recovery :: "'s billing_libs \<Rightarrow> auth_env \<Rightarrow> billing_caller \<Rightarrow> string \<Rightarrow> 's billing_world
    \<Rightarrow> (sfn_error + recovery_outcome) \<times> 's billing_world" where
  "complete_payment_recovery libs e who session =
     st_then (st_lift (bc_allow_lapsed who)) (\<lambda>c.
     st_then (st_lift (require_workspace_owner c)) (\<lambda>_.
     st_then (load_workspace e (cx_ws c)) (\<lambda>r.
     st_then (st_lift (some_text (wk_stripe_subscription r) ''No subscription on file to recover'')) (\<lambda>sub.
     st_then (st_lift (some_text (bl_customer r) ''No Stripe customer on file for this workspace'')) (\<lambda>customer.
     st_then (st_lift (require_mcp_sessions c)) (\<lambda>_.
     st_then (st_lift (require_ws_manager c)) (\<lambda>_.
     st_then (st_lift (require_stripe c)) (\<lambda>_.
     core (recover_past_due_payment libs e
       \<lparr>ri_workspace = cx_ws c, ri_customer = customer, ri_subscription = sub, ri_session = session\<rparr>)))))))))"

definition sync_checkout_subscription :: "'s billing_libs \<Rightarrow> auth_env \<Rightarrow> billing_caller \<Rightarrow> string \<Rightarrow> 's billing_world
    \<Rightarrow> (sfn_error + unit) \<times> 's billing_world" where
  "sync_checkout_subscription libs e who session =
     st_then (st_lift (bc_allow_lapsed who)) (\<lambda>c.
     st_then (st_lift (require_workspace_owner c)) (\<lambda>_.
     st_then (load_workspace e (cx_ws c)) (\<lambda>r.
     st_then (st_lift (some_text (bl_customer r) ''No Stripe customer on file for this workspace'')) (\<lambda>customer.
     st_then (st_lift (require_mcp_sessions c)) (\<lambda>_.
     st_then (st_lift (require_ws_manager c)) (\<lambda>_.
     st_then (st_lift (require_stripe c)) (\<lambda>_.
     core (sync_new_subscription_checkout libs e (cx_ws c) customer session))))))))"

subsection \<open>Cancelling, reactivating, seats\<close>

definition cancel_subscription :: "'s billing_libs \<Rightarrow> auth_env \<Rightarrow> billing_caller \<Rightarrow> 's billing_world
    \<Rightarrow> (sfn_error + string) \<times> 's billing_world" where
  "cancel_subscription libs e who =
     st_then (st_lift (bc_extract who)) (\<lambda>c.
     st_then (st_lift (require_workspace_owner c)) (\<lambda>_.
     st_then (st_lift (require_ws_manager c)) (\<lambda>_.
     st_then (st_lift (require_stripe c)) (\<lambda>_.
     st_then (load_workspace e (cx_ws c)) (\<lambda>r.
     st_then (st_lift (some_text (wk_stripe_subscription r) ''No active subscription'')) (\<lambda>sub.
     st_then (stripe_call libs ''Failed to cancel subscription: '' (cancel_stripe_subscription (bi_stripe libs) sub True)) (\<lambda>_.
     st_then (core (set_subscription_status e 20 (cx_ws c) SubCancelled)) (\<lambda>_.
     st_ok ''Subscription will be cancelled at the end of your billing period''))))))))"

definition reactivate_subscription :: "'s billing_libs \<Rightarrow> auth_env \<Rightarrow> billing_caller \<Rightarrow> 's billing_world
    \<Rightarrow> (sfn_error + string) \<times> 's billing_world" where
  "reactivate_subscription libs e who =
     st_then (st_lift (bc_extract who)) (\<lambda>c.
     st_then (st_lift (require_workspace_owner c)) (\<lambda>_.
     st_then (st_lift (require_ws_manager c)) (\<lambda>_.
     st_then (st_lift (require_stripe c)) (\<lambda>_.
     st_then (load_workspace e (cx_ws c)) (\<lambda>r.
     st_then (st_lift (some_text (wk_stripe_subscription r) ''No subscription to reactivate'')) (\<lambda>sub.
     st_then (st_lift (ensure (wk_subscription r = SubCancelled) (SfnText ''Subscription is not cancelled''))) (\<lambda>_.
     st_then (stripe_call libs ''Failed to reactivate subscription: '' (reactivate_stripe_subscription (bi_stripe libs) sub)) (\<lambda>_.
     st_then (core (set_subscription_status e 20 (cx_ws c) SubActive)) (\<lambda>_.
     st_ok ''Subscription has been reactivated'')))))))))"

definition active_members :: "auth_env \<Rightarrow> string \<Rightarrow> 's billing_world \<Rightarrow> (sfn_error + int) \<times> 's billing_world" where
  "active_members e ws =
     core (bill_sql e 11 (\<lambda>w. (int (count_where (\<lambda>m. mb_workspace m = ws \<and> mb_active m) (bw_members w)), w)))"

definition update_user_limit :: "auth_env \<Rightarrow> billing_caller \<Rightarrow> int \<Rightarrow> 's billing_world \<Rightarrow> (sfn_error + int) \<times> 's billing_world" where
  "update_user_limit e who limit =
     st_then (st_lift (bc_extract who)) (\<lambda>c.
     st_then (st_lift (require_workspace_owner c)) (\<lambda>_.
     st_then (st_lift (ensure (limit \<ge> 1) (SfnText ''Seat cap must be at least 1''))) (\<lambda>_.
     st_then (active_members e (cx_ws c)) (\<lambda>active.
     st_then (st_lift (ensure (limit \<ge> active)
       (SfnText (''Cannot set seat cap below current active members ('' @ show_int active @ ''). Remove users first.'')))) (\<lambda>_.
     st_then (core (bill_sql e 20 (\<lambda>w. ((), w\<lparr>bw_rows := update_where (\<lambda>r. wk_id r = cx_ws c)
       (\<lambda>r. r\<lparr>wk_user_limit := Some limit\<rparr>) (bw_rows w)\<rparr>)))) (\<lambda>_.
     st_ok limit))))))"

subsection \<open>Invoices, the portal and bundles\<close>

record invoice_record =
  ir_invoice :: string
  ir_amount_paid :: "64 word"
  ir_currency :: string
  ir_status :: "string option"
  ir_hosted_url :: "string option"
  ir_pdf :: "string option"
  ir_created :: "int option"
  ir_description :: "string option"

definition invoice_record_of :: "'s billing_libs \<Rightarrow> invoice_data \<Rightarrow> invoice_record" where
  "invoice_record_of libs v = \<lparr>ir_invoice = id_invoice v, ir_amount_paid = bi_cents libs (id_amount_paid v),
     ir_currency = bi_upper libs (id_currency v), ir_status = id_status v, ir_hosted_url = id_hosted_url v, ir_pdf = id_pdf v,
     ir_created = id_created v, ir_description = None\<rparr>"

definition get_invoices :: "'s billing_libs \<Rightarrow> auth_env \<Rightarrow> billing_caller \<Rightarrow> 's billing_world
    \<Rightarrow> (sfn_error + invoice_record list) \<times> 's billing_world" where
  "get_invoices libs e who =
     st_then (st_lift (bc_allow_lapsed who)) (\<lambda>c.
     if \<not> cx_stripe c then st_ok []
     else
       st_then (st_lift (require_workspace_owner c)) (\<lambda>_.
       st_then (load_workspace e (cx_ws c)) (\<lambda>r.
       case bl_customer r of
         Some (i # is) \<Rightarrow>
           st_then (stripe_call libs ''Failed to fetch invoices: '' (list_invoices (bi_stripe libs) (i # is) 10)) (\<lambda>invs.
           st_ok (map (invoice_record_of libs) invs))
       | _ \<Rightarrow> st_ok [])))"

definition NO_CUSTOMER :: string where "NO_CUSTOMER = ''No Stripe customer found. Please subscribe to a plan first.''"

definition create_portal_session :: "'s billing_libs \<Rightarrow> auth_env \<Rightarrow> billing_caller \<Rightarrow> 's billing_world
    \<Rightarrow> (sfn_error + string) \<times> 's billing_world" where
  "create_portal_session libs e who =
     st_then (st_lift (bc_allow_lapsed who)) (\<lambda>c.
     st_then (st_lift (require_workspace_owner c)) (\<lambda>_.
     st_then (st_lift (require_stripe c)) (\<lambda>_.
     st_then (load_workspace e (cx_ws c)) (\<lambda>r.
     st_then (st_lift (some_text (bl_customer r) NO_CUSTOMER)) (\<lambda>customer.
     st_then (stripe_call libs ''Failed to create portal session: ''
       (create_stripe_portal (bi_stripe libs) customer (cx_frontend_url c @ ''/billing/return''))) (\<lambda>(url, _).
     st_ok url))))))"

text \<open>The two purchases share their steps after the checks of the first lines.\<close>

definition purchase_bundle :: "'s billing_libs \<Rightarrow> auth_env \<Rightarrow> billing_ctx \<Rightarrow> string option \<Rightarrow> string \<Rightarrow> string \<Rightarrow> string \<Rightarrow> 32 word
    \<Rightarrow> 's billing_world \<Rightarrow> (sfn_error + string \<times> string) \<times> 's billing_world" where
  "purchase_bundle libs e c price missing kind failed quantity =
     st_then (st_lift (require_workspace_owner c)) (\<lambda>_.
     st_then (st_lift (require_stripe c)) (\<lambda>_.
     st_then (load_workspace e (cx_ws c)) (\<lambda>r.
     st_then (st_lift (some_text (bl_customer r) NO_CUSTOMER)) (\<lambda>customer.
     st_then (st_lift (some_text price missing)) (\<lambda>p.
     stripe_call libs failed
       (create_embedded_payment_checkout_session (bi_stripe libs) customer p (cx_ws c) kind (ucast quantity)))))))"

definition purchase_ai_bundle :: "'s billing_libs \<Rightarrow> auth_env \<Rightarrow> billing_caller \<Rightarrow> 32 word \<Rightarrow> 's billing_world
    \<Rightarrow> (sfn_error + string \<times> string) \<times> 's billing_world" where
  "purchase_ai_bundle libs e who quantity =
     st_then (st_lift (ensure (1 \<le> quantity) (SfnText ''Quantity must be at least 1''))) (\<lambda>_.
     st_then (st_lift (bc_extract who)) (\<lambda>c.
     st_then (st_lift (ensure (cx_self_hosted c)
       (SfnText ''AI bundle purchases are not available. AI is included in your plan.''))) (\<lambda>_.
     purchase_bundle libs e c (pr_ai_bundle (bi_prices libs)) ''STRIPE_AI_BUNDLE not configured'' ''ai_bundle''
       ''Failed to create AI bundle checkout: '' quantity)))"

definition purchase_analytics_bundle :: "'s billing_libs \<Rightarrow> auth_env \<Rightarrow> billing_caller \<Rightarrow> 32 word \<Rightarrow> 's billing_world
    \<Rightarrow> (sfn_error + string \<times> string) \<times> 's billing_world" where
  "purchase_analytics_bundle libs e who quantity =
     st_then (st_lift (ensure (1 \<le> quantity) (SfnText ''Quantity must be at least 1''))) (\<lambda>_.
     st_then (st_lift (bc_extract who)) (\<lambda>c.
     purchase_bundle libs e c (pr_analytics_bundle (bi_prices libs)) ''STRIPE_ANALYTICS_BUNDLE not configured''
       ''analytics_bundle'' ''Failed to create analytics bundle checkout: '' quantity))"

definition get_checkout_session_status :: "'s billing_libs \<Rightarrow> billing_caller \<Rightarrow> string \<Rightarrow> 's billing_world
    \<Rightarrow> (sfn_error + string \<times> string) \<times> 's billing_world" where
  "get_checkout_session_status libs who session =
     st_then (st_lift (bc_signed_in who)) (\<lambda>configured.
     st_then (st_lift (ensure configured (SfnText ''Billing features are not available''))) (\<lambda>_.
     stripe_call libs ''Failed to retrieve session status: '' (retrieve_checkout_session_status (bi_stripe libs) session)))"

end
