(* ===== verification/Sample_Billing.thy ===== *)
theory Sample_Billing
  imports Billing_Checkout
begin

text \<open>
  A past-due workspace with another one beside it, its owner, and a Stripe that answers every request, for
  the witnesses of the billing theories.
\<close>

definition sample_billing_row :: "string \<Rightarrow> billing_row" where
  "sample_billing_row ws = \<lparr>wk_id = ws, wk_name = None, wk_status = ActiveWs, wk_owner = ''u'', wk_tier = Cloud,
     wk_subscription = PastDue, wk_period_end = Some 10, wk_trial_ends_at = None, wk_stripe_subscription = Some (''sub_'' @ ws),
     wk_user_limit = Some 5, wk_settings = None, bl_customer = Some (''cus_'' @ ws), bl_cycle = None, bl_period_start = None,
     bl_credits_used = F64_TEN, bl_bundle_usd = F64_ZERO, bl_bundle_events = 7\<rparr>"

definition sample_stripe_subscription :: stripe_subscription where
  "sample_stripe_subscription = \<lparr>sb_id = ''sub_a'', sb_status = StActive, sb_cancel_at_period_end = False,
     sb_metadata = [''app'' \<mapsto> ''kyomi'', ''workspace_id'' \<mapsto> ''a''],
     sb_items = [\<lparr>it_id = ''it'', it_quantity = Some 1, it_period_start = 10, it_period_end = 20\<rparr>], sb_customer = ExpandId ''cus_a''\<rparr>"

definition sample_invoice :: "invoice_status \<Rightarrow> stripe_invoice" where
  "sample_invoice status = \<lparr>iv_id = Some ''in'', iv_status = Some status, iv_hosted_url = None, iv_pdf = None, iv_amount_paid = 0,
     iv_currency = ''usd'', iv_created = 1, iv_subscription = Some (ExpandId ''sub_a'')\<rparr>"

definition sample_recovery_session :: checkout_session where
  "sample_recovery_session = \<lparr>cs_id = ''cs'', cs_mode = ModeSetup, cs_status = Some CsComplete, cs_payment_status = ''paid'',
     cs_metadata = Some (recovery_metadata ''a''), cs_customer = Some (ExpandId ''cus_a''),
     cs_setup_intent = Some (ExpandObject \<lparr>si_status = SiSucceeded, si_payment_method = Some (ExpandId ''pm'')\<rparr>),
     cs_subscription = None, cs_url = None, cs_client_secret = Some ''secret''\<rparr>"

definition sample_stripe :: stripe_api where
  "sample_stripe = \<lparr>sa_customer = (\<lambda>_. Inr ''cus''), sa_subscription = (\<lambda>_. Inr sample_stripe_subscription),
     sa_session = (\<lambda>_. Inr sample_recovery_session), sa_item = (\<lambda>_. Inr ''it''), sa_invoice = (\<lambda>_. Inr (sample_invoice InvPaid)),
     sa_invoices = (\<lambda>_. Inr [sample_invoice InvOpen]), sa_portal = (\<lambda>_. Inr (''url'', ''id'')), sa_done = (\<lambda>_. Inr ()),
     sa_error_text = (\<lambda>_. ''error''), sa_invoice_status_text = (\<lambda>_. ''status''), sa_checkout_status_text = (\<lambda>_. ''complete''),
     sa_timestamp = Some, sa_jitter = (\<lambda>_. 0)\<rparr>"

definition sample_billing_libs :: "memory_kv billing_libs" where
  "sample_billing_libs = \<lparr>bi_stripe = sample_stripe,
     bi_prices = \<lparr>pr_cloud_monthly = Some ''price'', pr_ai_bundle = None, pr_analytics_bundle = None\<rparr>,
     bi_codec = plain_mcp_codec, bi_kv = memory_ops, bi_order = sorted_list_of_set, bi_cents = of_int, bi_upper = id\<rparr>"

definition sample_billing_world :: "memory_kv billing_world" where
  "sample_billing_world = \<lparr>bw_rows = [sample_billing_row ''a'', sample_billing_row ''b''], bw_members = [], bw_sent = [],
     bw_mcp = fresh_mcp (\<lambda>n. 0) (\<lambda>_. True), bw_broadcasts = []\<rparr>"

definition sample_billing_env :: auth_env where
  "sample_billing_env = \<lparr>ae_db_now = (\<lambda>_. 0), ae_now = (\<lambda>_. 0), ae_random = (\<lambda>_. ''''), ae_fault = (\<lambda>_. None), ae_applied = True\<rparr>"

definition sample_caller :: "bool \<Rightarrow> billing_caller" where
  "sample_caller owner =
     (let user = \<lparr>us_user = ''u'', us_mail = ''u@x'', us_display_name = None, us_roles = [], us_is_active = True, us_verified = True,
            us_workspace = default_context\<lparr>wc_workspace_id := Some ''a'', wc_is_owner := owner\<rparr>, us_token_exp = None, us_token_jti = None\<rparr>;
          ctx = \<lparr>cx_auth = user, cx_ws = ''a'', cx_self_hosted = False, cx_stripe = True, cx_ws_manager = True, cx_mcp_sessions = True,
            cx_frontend_url = ''https://x''\<rparr>
      in \<lparr>bc_extract = Inl (SfnText ''lapsed''), bc_allow_lapsed = Inr ctx, bc_signed_in = Inr True\<rparr>)"

lemmas sample_billing = sample_billing_row_def sample_stripe_subscription_def sample_invoice_def sample_recovery_session_def
  sample_stripe_def sample_billing_libs_def sample_billing_world_def sample_billing_env_def sample_caller_def

definition sample_recovery_ids :: recovery_ids where
  "sample_recovery_ids = \<lparr>ri_workspace = ''a'', ri_customer = ''cus_a'', ri_subscription = ''sub_a'', ri_session = ''cs''\<rparr>"

lemma sample_stripe_answers [simp]:
  "sa_session sample_stripe sent = Inr sample_recovery_session" "sa_done sample_stripe sent = Inr ()"
  "sa_invoices sample_stripe sent = Inr [sample_invoice InvOpen]" "sa_invoice sample_stripe sent = Inr (sample_invoice InvPaid)"
  "sa_subscription sample_stripe sent = Inr sample_stripe_subscription" "bi_stripe sample_billing_libs = sample_stripe"
  "sa_timestamp sample_stripe t = Some t"
  by (simp_all add: sample_stripe_def sample_billing_libs_def)

definition sample_webhook :: "webhook_event \<Rightarrow> webhook_env" where
  "sample_webhook event = \<lparr>we_configured = True, we_verify = (\<lambda>payload signature. if signature = ''good'' then Some event else None),
     we_float = \<lparr>fl_parse = (\<lambda>_. None), fl_of_u64 = id, fl_mul = (*), fl_add = (+)\<rparr>, we_vars = (\<lambda>_. None)\<rparr>"

lemmas sample_write = write_subscription_to_workspace_def announced_update_def st_then_def bill_sql_def sql_def Let_def count_where_def
  data_differs_def data_written_def broadcast_billing_status_changed_def parse_subscription_data_def set_subscription_status_def
  sample_billing_row_def sample_stripe_subscription_def sample_billing_world_def sample_billing_env_def

end
