(* ===== verification/Billing_Guarantees.thy ===== *)
theory Billing_Guarantees
  imports Sample_Billing
begin

text \<open>
  What the writers of a workspace's billing state guarantee, and what a call asks of Stripe: the rules by
  which the next theories follow the requests of a call, on the world of \<open>Subscription_Writes\<close>.
\<close>

subsection \<open>The writers\<close>

datatype billing_write =
    WriteSubscription subscription_data subscription_write_mode
  | RevertToFree
  | SetStatus subscription_status
  | ResetCredits

fun run_write :: "auth_env \<Rightarrow> nat \<Rightarrow> string \<Rightarrow> billing_write \<Rightarrow> 's billing_world \<Rightarrow> (app_error + bool) \<times> 's billing_world" where
  "run_write e n ws (WriteSubscription d mode) = write_subscription_to_workspace e n ws d mode"
| "run_write e n ws RevertToFree = revert_subscription_to_free e n ws"
| "run_write e n ws (SetStatus s) = set_subscription_status e n ws s"
| "run_write e n ws ResetCredits = reset_ai_credits_for_new_period e n ws"

text \<open>What a write promises of the row.\<close>

fun meets :: "billing_write \<Rightarrow> billing_row \<Rightarrow> bool" where
  "meets (WriteSubscription d WriteCreated) r \<longleftrightarrow> \<not> data_differs d r \<and> wk_stripe_subscription r = Some (sd_subscription d)
     \<and> bl_customer r = Some (sd_customer d) \<and> f64_is_zero (bl_credits_used r)"
| "meets (WriteSubscription d WriteUpdated) r \<longleftrightarrow> \<not> data_differs d r"
| "meets RevertToFree r \<longleftrightarrow> wk_tier r = Free \<and> wk_subscription r = SubCancelled \<and> wk_stripe_subscription r = None
     \<and> bl_cycle r = None \<and> bl_period_start r = None \<and> wk_period_end r = None
     \<and> wk_user_limit r = Some UNLIMITED_USER_LIMIT \<and> f64_is_zero (bl_credits_used r)"
| "meets (SetStatus s) r \<longleftrightarrow> wk_subscription r = s"
| "meets ResetCredits r \<longleftrightarrow> f64_is_zero (bl_credits_used r)"

lemma f64_zero [simp]: "f64_is_zero F64_ZERO"
  by (simp add: f64_is_zero_def F64_ZERO_def)

text \<open>The contract of the shared statement: it differs exactly from the rows that do not meet the goal, and
  what it writes meets it.\<close>

locale announced_write =
  fixes differs :: "billing_row \<Rightarrow> bool" and written :: "billing_row \<Rightarrow> billing_row" and goal :: "billing_row \<Rightarrow> bool"
  assumes differs_iff: "differs r \<longleftrightarrow> \<not> goal r"
    and written_goal: "goal (written r)"
    and written_id: "wk_id (written r) = wk_id r"
begin

definition settled :: "string \<Rightarrow> billing_row \<Rightarrow> billing_row" where
  "settled ws r = (if wk_id r = ws \<and> differs r then written r else r)"

lemma settled_simps:
  "wk_id (settled ws r) = wk_id r" "wk_id r = ws \<Longrightarrow> goal (settled ws r)" "wk_id r \<noteq> ws \<Longrightarrow> settled ws r = r"
  "settled ws r \<noteq> r \<longleftrightarrow> wk_id r = ws \<and> \<not> goal r" "settled ws (settled ws r) = settled ws r"
  using written_goal [of r] by (auto simp: settled_def written_id differs_iff)

lemma settled_goal: "row \<in> set (map (settled ws) rows) \<Longrightarrow> wk_id row = ws \<Longrightarrow> goal row"
proof -
  assume "row \<in> set (map (settled ws) rows)" "wk_id row = ws"
  then obtain r where "row = settled ws r" by auto
  with \<open>wk_id row = ws\<close> settled_simps(1) [of ws r] settled_simps(2) [of r ws] show "goal row" by simp
qed

lemma settled_ids: "map wk_id (map (settled ws) rows) = map wk_id rows"
  by (simp add: settled_simps)

lemma settled_others: "filter (\<lambda>row. wk_id row \<noteq> ws) (map (settled ws) rows) = filter (\<lambda>row. wk_id row \<noteq> ws) rows"
  by (induction rows) (simp_all add: settled_simps)

lemma update_settles: "update_where (\<lambda>r. wk_id r = ws \<and> differs r) written rows = map (settled ws) rows"
  by (induction rows) (simp_all add: settled_def)

lemma changed_iff: "map (settled ws) rows \<noteq> rows \<longleftrightarrow> count_where (\<lambda>r. wk_id r = ws \<and> differs r) rows > 0"
  using settled_simps(4) by (induction rows) (auto simp: differs_iff count_where_def)

lemma announced:
  assumes "announced_update e n ws differs written w = (r, w')"
  shows "(\<exists>err. ae_fault e n = Some err \<and> r = Inl (Sqlx err) \<and> w' = w)
    \<or> ae_fault e n = None \<and> r = Inr (map (settled ws) (bw_rows w) \<noteq> bw_rows w)
      \<and> w' = w\<lparr>bw_rows := map (settled ws) (bw_rows w),
           bw_broadcasts := bw_broadcasts w @ (if map (settled ws) (bw_rows w) \<noteq> bw_rows w then [ws] else [])\<rparr>"
proof (cases "ae_fault e n")
  case None
  with assms show ?thesis unfolding changed_iff
    by (auto simp: announced_update_def st_then_def bill_sql_def sql_def Let_def update_settles
        broadcast_billing_status_changed_def split: if_splits)
next
  case (Some err)
  with assms show ?thesis by (simp add: announced_update_def st_then_def bill_sql_def sql_def)
qed

lemma announced_again:
  assumes "announced_update e n ws differs written w = (Inr b, w')" "ae_fault e' n' = None"
  shows "announced_update e' n' ws differs written w' = (Inr False, w')"
proof -
  have "map (settled ws) (bw_rows w') = bw_rows w'" using announced [OF assms(1)] by (auto simp: settled_simps(5))
  moreover obtain r v where run: "announced_update e' n' ws differs written w' = (r, v)" by fastforce
  ultimately show ?thesis using announced [OF run] assms(2) by simp
qed

end

fun differs_of :: "billing_write \<Rightarrow> billing_row \<Rightarrow> bool" where
  "differs_of (WriteSubscription d mode) = subscription_differs mode d"
| "differs_of RevertToFree = (\<lambda>r. wk_tier r \<noteq> Free \<or> wk_subscription r \<noteq> SubCancelled \<or> bl_cycle r \<noteq> None
     \<or> bl_period_start r \<noteq> None \<or> wk_period_end r \<noteq> None \<or> wk_stripe_subscription r \<noteq> None
     \<or> wk_user_limit r \<noteq> Some UNLIMITED_USER_LIMIT \<or> \<not> f64_is_zero (bl_credits_used r))"
| "differs_of (SetStatus s) = (\<lambda>r. wk_subscription r \<noteq> s)"
| "differs_of ResetCredits = (\<lambda>r. \<not> f64_is_zero (bl_credits_used r))"

fun written_of :: "billing_write \<Rightarrow> billing_row \<Rightarrow> billing_row" where
  "written_of (WriteSubscription d mode) = subscription_written mode d"
| "written_of RevertToFree = (\<lambda>r. r\<lparr>wk_tier := Free, wk_subscription := SubCancelled, bl_cycle := None,
     bl_period_start := None, wk_period_end := None, wk_stripe_subscription := None,
     wk_user_limit := Some UNLIMITED_USER_LIMIT, bl_credits_used := F64_ZERO\<rparr>)"
| "written_of (SetStatus s) = (\<lambda>r. r\<lparr>wk_subscription := s\<rparr>)"
| "written_of ResetCredits = (\<lambda>r. r\<lparr>bl_credits_used := F64_ZERO\<rparr>)"

interpretation bw: announced_write "differs_of wr" "written_of wr" "meets wr" for wr
proof
  fix r
  consider d where "wr = WriteSubscription d WriteCreated" | d where "wr = WriteSubscription d WriteUpdated"
    | "wr = RevertToFree" | s where "wr = SetStatus s" | "wr = ResetCredits"
    by (metis billing_write.exhaust subscription_write_mode.exhaust)
  then show "differs_of wr r \<longleftrightarrow> \<not> meets wr r" "meets wr (written_of wr r)" "wk_id (written_of wr r) = wk_id r"
    by (cases; auto simp: data_differs_def data_written_def)+
qed

lemma run_write_eq: "run_write e n ws wr = announced_update e n ws (differs_of wr) (written_of wr)"
  by (cases wr) (simp_all add: write_subscription_to_workspace_def revert_subscription_to_free_def
      set_subscription_status_def reset_ai_credits_for_new_period_def)

lemmas run_write_cases = bw.announced [of e n ws wr w r w' for e n ws wr w r w', folded run_write_eq]
  and run_write_again = bw.announced_again [of e n ws wr w b w' e' n' for e n ws wr w b w' e' n', folded run_write_eq]

text \<open>C24: Each of the four writers of \<open>subscription_service.rs\<close> (a subscription's data, the reversion to the free
  tier, a status, the reset of a period's credits) announces exactly the changes it makes: it returns true and
  broadcasts one event for the workspace when a stored row changed and otherwise neither, a failing
  statement changes and announces nothing, the workspace's row then meets what the write promises, no
  other workspace's row, no request and no session is touched, and writing the same again changes and
  announces nothing. The credits of bundles, the customer's identifier and the user limit are written
  elsewhere, without an announcement.\<close>

theorem writers_announce_changes:
  assumes "run_write e n ws wr w = (r, w')"
  shows "(is_ok r \<longleftrightarrow> ae_fault e n = None)
    \<and> (\<not> is_ok r \<longrightarrow> w' = w)
    \<and> (is_ok r \<longrightarrow> r = Inr (bw_rows w' \<noteq> bw_rows w)
        \<and> (\<forall>row \<in> set (bw_rows w'). wk_id row = ws \<longrightarrow> meets wr row)
        \<and> (ae_fault e2 k = None \<longrightarrow> run_write e2 k ws wr w' = (Inr False, w')))
    \<and> bw_broadcasts w' = bw_broadcasts w @ (if bw_rows w' \<noteq> bw_rows w then [ws] else [])
    \<and> map wk_id (bw_rows w') = map wk_id (bw_rows w)
    \<and> filter (\<lambda>row. wk_id row \<noteq> ws) (bw_rows w') = filter (\<lambda>row. wk_id row \<noteq> ws) (bw_rows w)
    \<and> bw_sent w' = bw_sent w \<and> bw_mcp w' = bw_mcp w \<and> bw_members w' = bw_members w"
proof -
  have settled_row: "wk_id row = ws \<Longrightarrow> row \<in> set (map (bw.settled wr ws) rows) \<Longrightarrow> meets wr row" for row rows
    by (rule bw.settled_goal)
  from run_write_cases [OF assms] show ?thesis
  proof (elim disjE exE conjE)
    fix err assume "ae_fault e n = Some err" "r = Inl (Sqlx err)" "w' = w"
    then show ?thesis by simp
  next
    assume ok: "ae_fault e n = None" and r: "r = Inr (map (bw.settled wr ws) (bw_rows w) \<noteq> bw_rows w)"
      and w': "w' = w\<lparr>bw_rows := map (bw.settled wr ws) (bw_rows w),
           bw_broadcasts := bw_broadcasts w @ (if map (bw.settled wr ws) (bw_rows w) \<noteq> bw_rows w then [ws] else [])\<rparr>"
    have "ae_fault e2 k = None \<longrightarrow> run_write e2 k ws wr w' = (Inr False, w')" using run_write_again assms r by blast
    then show ?thesis using ok r settled_row [of _ "bw_rows w"] bw.settled_ids [of wr ws "bw_rows w"]
        bw.settled_others [of ws wr "bw_rows w"] by (simp add: w' del: map_map)
  qed
qed

theorem writers_announce_changes_witness:
  "let m = run_write sample_billing_env 20 ''a'' (SetStatus SubActive); (r, w') = m sample_billing_world
   in r = Inr True \<and> bw_broadcasts w' = [''a''] \<and> map wk_subscription (bw_rows w') = [SubActive, PastDue] \<and> m w' = (Inr False, w')"
proof -
  let ?m = "run_write sample_billing_env 20 ''a'' (SetStatus SubActive) :: memory_kv billing_world \<Rightarrow> _"
  have r: "fst (?m sample_billing_world) = Inr True" and rows: "map wk_subscription (bw_rows (snd (?m sample_billing_world))) = [SubActive, PastDue]"
    and b: "bw_broadcasts (snd (?m sample_billing_world)) = [''a'']"
    by (simp_all add: set_subscription_status_def announced_update_def st_then_def bill_sql_def sql_def Let_def count_where_def
        broadcast_billing_status_changed_def sample_billing)
  have "?m (snd (?m sample_billing_world)) = (Inr False, snd (?m sample_billing_world))"
    using writers_announce_changes [of sample_billing_env 20 "''a''" "SetStatus SubActive" sample_billing_world
        "fst (?m sample_billing_world)" "snd (?m sample_billing_world)" sample_billing_env 20] r
    by (simp add: sample_billing_env_def is_ok_def del: run_write.simps)
  with r rows b show ?thesis by (simp only: Let_def split_def simp_thms)
qed

subsection \<open>What a call asks of Stripe\<close>

text \<open>A call that sends only such requests, whatever else it does, and one that does nothing else.\<close>

definition sends :: "(stripe_request \<Rightarrow> bool) \<Rightarrow> ('s billing_world \<Rightarrow> 'r \<times> 's billing_world) \<Rightarrow> bool" where
  "sends P m \<longleftrightarrow> (\<forall>w. \<exists>new. bw_sent (snd (m w)) = bw_sent w @ new \<and> (\<forall>q \<in> set new. P q))"

definition only_sends :: "(stripe_request \<Rightarrow> bool) \<Rightarrow> ('s billing_world \<Rightarrow> 'r \<times> 's billing_world) \<Rightarrow> bool" where
  "only_sends P m \<longleftrightarrow> (\<forall>w. \<exists>new. snd (m w) = w\<lparr>bw_sent := bw_sent w @ new\<rparr> \<and> (\<forall>q \<in> set new. P q))"

named_theorems sends_rules \<open>what calls send to Stripe\<close>

lemma sendsI: "(\<And>w. \<exists>new. bw_sent (snd (m w)) = bw_sent w @ new \<and> (\<forall>q \<in> set new. P q)) \<Longrightarrow> sends P m"
  by (simp add: sends_def)

lemma sendsE: "sends P m \<Longrightarrow> m w = (r, w') \<Longrightarrow> \<exists>new. bw_sent w' = bw_sent w @ new \<and> (\<forall>q \<in> set new. P q)"
  unfolding sends_def by (metis snd_conv)

lemma sendsD: "sends P m \<Longrightarrow> \<exists>new. bw_sent (snd (m w)) = bw_sent w @ new \<and> (\<forall>q \<in> set new. P q)"
  by (simp add: sends_def)

lemma only_sendsI: "(\<And>w. \<exists>new. snd (m w) = w\<lparr>bw_sent := bw_sent w @ new\<rparr> \<and> (\<forall>q \<in> set new. P q)) \<Longrightarrow> only_sends P m"
  by (simp add: only_sends_def)

lemma only_sendsE: "only_sends P m \<Longrightarrow> m w = (r, w') \<Longrightarrow> \<exists>new. w' = w\<lparr>bw_sent := bw_sent w @ new\<rparr> \<and> (\<forall>q \<in> set new. P q)"
  unfolding only_sends_def by (metis snd_conv)

lemma only_sends_sends: "only_sends P m \<Longrightarrow> sends P m"
  unfolding only_sends_def sends_def by (metis billing_world.select_convs(3) billing_world.surjective billing_world.update_convs(3))

lemma sends_then [sends_rules]:
  assumes "sends P m" "\<And>x. sends P (f x)"
  shows "sends P (st_then m f)"
proof (rule sendsI)
  fix w
  obtain r w' where m: "m w = (r, w')" by fastforce
  then obtain new where new: "bw_sent w' = bw_sent w @ new" "\<forall>q \<in> set new. P q" using sendsE [OF assms(1)] by blast
  show "\<exists>new. bw_sent (snd (st_then m f w)) = bw_sent w @ new \<and> (\<forall>q \<in> set new. P q)"
  proof (cases r)
    case (Inr x)
    obtain r' w2 where f: "f x w' = (r', w2)" by fastforce
    then obtain new' where "bw_sent w2 = bw_sent w' @ new'" "\<forall>q \<in> set new'. P q" using sendsE [OF assms(2)] by blast
    with new show ?thesis by (intro exI [of _ "new @ new'"]) (auto simp: st_then_def m Inr f)
  qed (use new m in \<open>auto simp: st_then_def\<close>)
qed

lemma only_sends_then [sends_rules]:
  assumes "only_sends P m" "\<And>x. only_sends P (f x)"
  shows "only_sends P (st_then m f)"
proof (rule only_sendsI)
  fix w
  obtain r w' where m: "m w = (r, w')" by fastforce
  then obtain new where new: "w' = w\<lparr>bw_sent := bw_sent w @ new\<rparr>" "\<forall>q \<in> set new. P q" using only_sendsE [OF assms(1)] by blast
  show "\<exists>new. snd (st_then m f w) = w\<lparr>bw_sent := bw_sent w @ new\<rparr> \<and> (\<forall>q \<in> set new. P q)"
  proof (cases r)
    case (Inr x)
    obtain r' w2 where f: "f x w' = (r', w2)" by fastforce
    then obtain new' where new': "w2 = w'\<lparr>bw_sent := bw_sent w' @ new'\<rparr>" "\<forall>q \<in> set new'. P q" using only_sendsE [OF assms(2)] by blast
    have "snd (st_then m f w) = w2" by (simp add: st_then_def m Inr f)
    with new new' show ?thesis by (intro exI [of _ "new @ new'"]) auto
  qed (use new m in \<open>auto simp: st_then_def\<close>)
qed

lemma only_sends_pure [sends_rules]: "only_sends P (st_ok x)" "only_sends P (st_err err)" "only_sends P (st_lift res)"
  by (auto intro!: only_sendsI exI [of _ "[]"] simp: st_simps)

lemmas sends_pure [sends_rules] = only_sends_pure [THEN only_sends_sends]

text \<open>The requests of a Stripe operation.\<close>

definition asks :: "(stripe_request \<Rightarrow> bool) \<Rightarrow> 'a stripe_op \<Rightarrow> bool" where
  "asks P op \<longleftrightarrow> (\<forall>sent. \<exists>new. snd (op sent) = sent @ new \<and> (\<forall>q \<in> set new. P q))"

lemma asksI: "(\<And>sent. \<exists>new. snd (op sent) = sent @ new \<and> (\<forall>q \<in> set new. P q)) \<Longrightarrow> asks P op"
  by (simp add: asks_def)

lemma asks_send [sends_rules]: "P q \<Longrightarrow> asks P (send answer q)"
  by (auto intro!: asksI simp: send_def)

lemma asks_retried [sends_rules]: "P q \<Longrightarrow> asks P (retried api (send answer q))"
proof (rule asksI)
  fix sent assume "P q"
  then show "\<exists>new. snd (retried api (send answer q) sent) = sent @ new \<and> (\<forall>q \<in> set new. P q)"
    by (rule_tac retried_send [of api answer q sent]) auto
qed

lemma asks_pure [sends_rules]: "asks P (st_ok x)" "asks P (st_err err)" "asks P (st_lift res)"
  by (auto intro!: asksI simp: st_simps)

lemma asks_then [sends_rules]:
  assumes "asks P m" "\<And>x. asks P (f x)"
  shows "asks P (st_then m f)"
proof (rule asksI)
  fix sent
  obtain r sent' where m: "m sent = (r, sent')" by fastforce
  then obtain new where new: "sent' = sent @ new" "\<forall>q \<in> set new. P q" using assms(1) unfolding asks_def by (metis snd_conv)
  show "\<exists>new. snd (st_then m f sent) = sent @ new \<and> (\<forall>q \<in> set new. P q)"
  proof (cases r)
    case (Inr x)
    obtain new' where "snd (f x sent') = sent' @ new'" "\<forall>q \<in> set new'. P q" using assms(2) unfolding asks_def by blast
    with new show ?thesis by (intro exI [of _ "new @ new'"]) (auto simp: st_then_def m Inr)
  qed (use new m in \<open>auto simp: st_then_def\<close>)
qed

lemma only_sends_stripe [sends_rules]:
  "asks P op \<Longrightarrow> only_sends P (on_stripe err op)" "asks P op \<Longrightarrow> only_sends P (stripe_call libs what op)"
  unfolding asks_def on_stripe_def stripe_call_def by (auto intro!: only_sendsI simp: split_def Let_def, metis+)

lemmas sends_stripe [sends_rules] = only_sends_stripe [THEN only_sends_sends]

lemma sends_sql [sends_rules]: "(\<And>w. bw_sent (snd (f w)) = bw_sent w) \<Longrightarrow> sends P (bill_sql e n f)"
  by (auto intro!: sendsI simp: bill_sql_def split_def Let_def split: sum.splits)

lemma sends_core [sends_rules]: "sends P m \<Longrightarrow> sends P (core m)"
  by (auto simp: sends_def core_def st_map_err_def split_def)

lemma sends_announced [sends_rules]: "sends P (announced_update e n ws differs written)"
  unfolding announced_update_def
  by (intro sends_rules) (auto intro!: sendsI simp: Let_def broadcast_billing_status_changed_def)

lemma sends_tools [sends_rules]: "sends P (\<lambda>w. (r, tools_changed libs ws w))"
  by (auto intro!: sendsI simp: tools_changed_def)

lemma sends_writers [sends_rules]:
  "sends P (write_subscription_to_workspace e n ws d mode)" "sends P (set_subscription_status e n ws s)"
  "sends P (revert_subscription_to_free e n ws)" "sends P (reset_ai_credits_for_new_period e n ws)"
  by (simp_all add: write_subscription_to_workspace_def set_subscription_status_def revert_subscription_to_free_def
      reset_ai_credits_for_new_period_def sends_announced)

lemma sends_branches [sends_rules]:
  "(b \<Longrightarrow> sends P m) \<Longrightarrow> (\<not> b \<Longrightarrow> sends P m') \<Longrightarrow> sends P (if b then m else m')"
  "(x = None \<Longrightarrow> sends P m) \<Longrightarrow> (\<And>y. x = Some y \<Longrightarrow> sends P (f y)) \<Longrightarrow> sends P (case x of None \<Rightarrow> m | Some y \<Rightarrow> f y)"
  "(\<And>a c. p = (a, c) \<Longrightarrow> sends P (g a c)) \<Longrightarrow> sends P (case p of (a, c) \<Rightarrow> g a c)"
  by (auto split: option.splits prod.splits)

lemma asks_branches [sends_rules]:
  "(b \<Longrightarrow> asks P m) \<Longrightarrow> (\<not> b \<Longrightarrow> asks P m') \<Longrightarrow> asks P (if b then m else m')"
  "(x = None \<Longrightarrow> asks P m) \<Longrightarrow> (\<And>y. x = Some y \<Longrightarrow> asks P (f y)) \<Longrightarrow> asks P (case x of None \<Rightarrow> m | Some y \<Rightarrow> f y)"
  by (auto split: option.splits)

lemma asks_first_item [sends_rules]: "asks P (first_item s)"
  by (auto simp: first_item_def asks_pure split: list.splits)

text \<open>Paying an invoice and the loop over the invoices.\<close>

lemma attempt_sends [sends_rules]:
  assumes "\<And>i. iv_id v = Some i \<Longrightarrow> P (PayInvoice i pm) \<and> P (RetrieveInvoice i)"
  shows "only_sends P (attempt_pay_invoice libs v pm)"
proof (rule only_sendsI)
  fix w
  show "\<exists>new. snd (attempt_pay_invoice libs v pm w) = w\<lparr>bw_sent := bw_sent w @ new\<rparr> \<and> (\<forall>q \<in> set new. P q)"
  proof (cases "iv_id v")
    case None
    then show ?thesis by (intro exI [of _ "[]"]) (simp add: attempt_pay_invoice_def)
  next
    case (Some i)
    let ?new = "if is_ok (sa_invoice (bi_stripe libs) (bw_sent w @ [PayInvoice i pm])) then [PayInvoice i pm]
      else [PayInvoice i pm, RetrieveInvoice i]"
    have "snd (attempt_pay_invoice libs v pm w) = w\<lparr>bw_sent := bw_sent w @ ?new\<rparr>"
      by (auto simp: attempt_pay_invoice_def Some pay_invoice_def retrieve_invoice_def send_def Let_def
          split: sum.splits option.splits)
    with assms [OF Some] show ?thesis by (intro exI [of _ ?new]) auto
  qed
qed

lemma pay_open_sends:
  assumes "\<And>v i. v \<in> set invs \<Longrightarrow> iv_id v = Some i \<Longrightarrow> P (PayInvoice i pm) \<and> P (RetrieveInvoice i)"
  shows "only_sends P (pay_open_invoices libs pm invs)"
  using assms
proof (induction invs)
  case Nil
  then show ?case by (auto intro!: only_sendsI exI [of _ "[]"])
next
  case (Cons v invs)
  show ?case
  proof (rule only_sendsI)
    fix w
    obtain r w' where a: "attempt_pay_invoice libs v pm w = (r, w')" by fastforce
    have "only_sends P (attempt_pay_invoice libs v pm)" by (rule attempt_sends) (rule Cons.prems [of v], simp_all)
    from only_sendsE [OF this a] obtain new where new: "w' = w\<lparr>bw_sent := bw_sent w @ new\<rparr>" "\<forall>q \<in> set new. P q" by blast
    show "\<exists>new. snd (pay_open_invoices libs pm (v # invs) w) = w\<lparr>bw_sent := bw_sent w @ new\<rparr> \<and> (\<forall>q \<in> set new. P q)"
    proof (cases "r = Inr Recovered")
      case True
      obtain r2 w2 where rest: "pay_open_invoices libs pm invs w' = (r2, w2)" by fastforce
      have "only_sends P (pay_open_invoices libs pm invs)" by (rule Cons.IH) (rule Cons.prems, simp_all)
      from only_sendsE [OF this rest] obtain new' where new': "w2 = w'\<lparr>bw_sent := bw_sent w' @ new'\<rparr>" "\<forall>q \<in> set new'. P q" by blast
      have "snd (pay_open_invoices libs pm (v # invs) w) = w2" by (simp add: a True rest)
      with new new' show ?thesis by (intro exI [of _ "new @ new'"]) auto
    next
      case False
      then have "snd (pay_open_invoices libs pm (v # invs) w) = w'" by (auto simp: a split: sum.splits)
      with new show ?thesis by blast
    qed
  qed
qed

lemma pay_open_sends_any [sends_rules]:
  "(\<And>v i. v \<in> set invs \<Longrightarrow> iv_id v = Some i \<Longrightarrow> P (PayInvoice i pm) \<and> P (RetrieveInvoice i))
    \<Longrightarrow> sends P (pay_open_invoices libs pm invs)"
  by (intro only_sends_sends pay_open_sends)

lemmas stripe_op_defs = create_customer_def create_subscription_def hosted_session_def embedded_session_def
  create_embedded_checkout_session_def create_embedded_payment_checkout_session_def create_recovery_setup_session_def
  retrieve_checkout_session_with_setup_intent_def retrieve_checkout_session_with_subscription_def
  retrieve_checkout_session_status_def retrieve_subscription_def update_subscription_def cancel_stripe_subscription_def
  reactivate_stripe_subscription_def set_default_payment_method_def list_invoices_def list_open_invoices_def
  create_stripe_portal_def

end
