(* ===== verification/Checkout_Guarantees.thy ===== *)
theory Checkout_Guarantees
  imports Billing_Guarantees
begin

text \<open>
  What the owner's billing operations guarantee: who may call them, and which requests to Stripe can start a
  subscription.
\<close>

subsection \<open>The calls\<close>

datatype billing_call =
    CreateCheckoutCall "64 word"
  | StartRecoveryCall
  | CompleteRecoveryCall string
  | SyncCheckoutCall string
  | CancelCall
  | ReactivateCall
  | UserLimitCall int
  | InvoicesCall
  | PortalCall
  | AiBundleCall "32 word"
  | AnalyticsBundleCall "32 word"
  | SessionStatusCall string

definition void :: "('s \<Rightarrow> ('e + 'a) \<times> 's) \<Rightarrow> 's \<Rightarrow> ('e + unit) \<times> 's" where
  "void m = st_then m (\<lambda>_. st_ok ())"

fun billing_call_run :: "'s billing_libs \<Rightarrow> auth_env \<Rightarrow> billing_caller \<Rightarrow> billing_call \<Rightarrow> 's billing_world
    \<Rightarrow> (sfn_error + unit) \<times> 's billing_world" where
  "billing_call_run libs e who (CreateCheckoutCall n) = void (create_checkout libs e who n)"
| "billing_call_run libs e who StartRecoveryCall = void (start_payment_recovery libs e who)"
| "billing_call_run libs e who (CompleteRecoveryCall i) = void (complete_payment_recovery libs e who i)"
| "billing_call_run libs e who (SyncCheckoutCall i) = void (sync_checkout_subscription libs e who i)"
| "billing_call_run libs e who CancelCall = void (cancel_subscription libs e who)"
| "billing_call_run libs e who ReactivateCall = void (reactivate_subscription libs e who)"
| "billing_call_run libs e who (UserLimitCall n) = void (update_user_limit e who n)"
| "billing_call_run libs e who InvoicesCall = void (get_invoices libs e who)"
| "billing_call_run libs e who PortalCall = void (create_portal_session libs e who)"
| "billing_call_run libs e who (AiBundleCall n) = void (purchase_ai_bundle libs e who n)"
| "billing_call_run libs e who (AnalyticsBundleCall n) = void (purchase_analytics_bundle libs e who n)"
| "billing_call_run libs e who (SessionStatusCall i) = void (get_checkout_session_status libs who i)"

subsection \<open>Which requests start a subscription\<close>

fun creates_subscription :: "stripe_request \<Rightarrow> bool" where
  "creates_subscription (CreateSubscription _ _ _ _ _) = True"
| "creates_subscription (CreateCheckoutSession req) \<longleftrightarrow> cq_mode req = ModeSubscription"
| "creates_subscription _ = False"

lemma modify_sends [sends_rules]: "sends (\<lambda>q. \<not> creates_subscription q) (modify_existing_subscription libs e ws sub)"
  unfolding modify_existing_subscription_def stripe_op_defs by (intro sends_rules) simp_all

lemma recover_sends [sends_rules]: "sends (\<lambda>q. \<not> creates_subscription q) (recover_past_due_payment libs e ids)"
  unfolding recover_past_due_payment_def refresh_recovered_def stripe_op_defs by (intro sends_rules) simp_all

lemma sends_expandable [sends_rules]:
  "(\<And>i. x = ExpandId i \<Longrightarrow> sends P (f i)) \<Longrightarrow> (\<And>s. x = ExpandObject s \<Longrightarrow> sends P (g s))
    \<Longrightarrow> sends P (case x of ExpandId i \<Rightarrow> f i | ExpandObject s \<Rightarrow> g s)"
  by (cases x) simp_all

lemma sync_sends [sends_rules]: "sends (\<lambda>q. \<not> creates_subscription q) (sync_new_subscription_checkout libs e ws customer i)"
  unfolding sync_new_subscription_checkout_def stripe_op_defs by (intro sends_rules) simp_all

lemma load_sends [sends_rules]: "sends P (load_workspace e ws)"
  unfolding load_workspace_def by (intro sends_rules) simp

lemma no_creation:
  assumes "\<forall>n. call \<noteq> CreateCheckoutCall n"
  shows "sends (\<lambda>q. \<not> creates_subscription q) (billing_call_run libs e who call)"
proof -
  let ?P = "\<lambda>q. \<not> creates_subscription q"
  have purchase: "sends ?P (purchase_bundle libs e c price missing kind failed n)" for c price missing kind failed n
    unfolding purchase_bundle_def stripe_op_defs
    by (intro sends_rules) (auto simp: payment_checkout_def intro: sends_rules split: option.splits)
  show ?thesis
  proof (cases call)
    case (CreateCheckoutCall n)
    then show ?thesis using assms by blast
  qed (simp_all only: billing_call_run.simps void_def start_payment_recovery_def complete_payment_recovery_def
      sync_checkout_subscription_def cancel_subscription_def reactivate_subscription_def update_user_limit_def active_members_def
      get_invoices_def create_portal_session_def purchase_ai_bundle_def purchase_analytics_bundle_def
      get_checkout_session_status_def stripe_op_defs, (intro sends_rules purchase; auto intro: sends_rules split: option.splits list.splits)+)
qed


lemma sends_mono: "sends P m \<Longrightarrow> (\<And>q. P q \<Longrightarrow> Q q) \<Longrightarrow> sends Q m"
  unfolding sends_def by blast

lemma load_workspace_result:
  assumes "load_workspace e ws w = (r, w')"
  shows "w' = w \<and> (\<forall>row. r = Inr row \<longrightarrow> find (\<lambda>r. wk_id r = ws) (bw_rows w) = Some row)
    \<and> (ae_fault e 10 = None \<longrightarrow> r = ok_or (find (\<lambda>r. wk_id r = ws) (bw_rows w)) (SfnText ''Workspace not found''))"
  using assms by (auto simp: load_workspace_def core_def st_map_err_def bill_sql_def sql_def st_then_def st_simps ok_or_def
      split: option.splits)

lemma checkout_for_sends: "sends (\<lambda>q. creates_subscription q \<longrightarrow> wk_stripe_subscription row = None) (checkout_for libs e c n row)"
proof -
  have customer: "sends (\<lambda>_. True) (ensure_customer libs e c row)"
    unfolding ensure_customer_def stripe_op_defs by (auto intro!: sends_rules split: option.splits list.splits)
  have new: "wk_stripe_subscription row = None \<Longrightarrow> sends (\<lambda>_. True) (checkout_for libs e c n row)"
    unfolding checkout_for_def stripe_op_defs Let_def
    by (intro sends_rules customer) (auto simp: checkout_path_of_def intro: sends_rules split: option.splits)
  have existing: "wk_stripe_subscription row \<noteq> None \<Longrightarrow> sends (\<lambda>q. \<not> creates_subscription q) (checkout_for libs e c n row)"
    unfolding checkout_for_def Let_def checkout_path_of_def by (auto intro!: sends_rules split: option.splits)
  show ?thesis
  proof (cases "wk_stripe_subscription row")
    case None
    then show ?thesis by (auto intro: sends_mono [OF new])
  next
    case (Some sub)
    then show ?thesis by (auto intro: sends_mono [OF existing])
  qed
qed

lemma owner_iff: "require_workspace_owner c = Inr u \<longleftrightarrow> wc_is_owner (us_workspace (cx_auth c))"
  by (auto simp: require_workspace_owner_def permissions_for_def Let_def ensure_def)

lemma void_state: "snd (void m w) = snd (m w)"
  by (auto simp: void_def st_then_def st_simps split: prod.splits sum.splits)

subsection \<open>Which requests the webhook sends\<close>

lemma invoice_sends: "(\<And>ws. sends P (put ws)) \<Longrightarrow> sends P (invoice_event e v put)"
  unfolding invoice_event_def workspace_id_by_subscription_def by (intro sends_rules) simp_all

lemma invoice_events_send:
  "sends P (apply_invoice_payment_succeeded_webhook_event e v)" "sends P (apply_invoice_payment_failed_webhook_event e v)"
  unfolding apply_invoice_payment_succeeded_webhook_event_def apply_invoice_payment_failed_webhook_event_def
  by (intro invoice_sends sends_rules)+

lemma subscription_events_send:
  "sends P (apply_subscription_webhook_event libs e s mode)" "sends P (apply_subscription_deleted_webhook_event libs e s)"
  unfolding apply_subscription_webhook_event_def apply_subscription_deleted_webhook_event_def
    apply_subscription_deleted_event_facts_def Let_def
  by (auto intro!: sends_rules split: sum.splits)

lemma bundle_sends: "bw_sent (handle_bundle_checkout_completed fl vars e ws m w) = bw_sent w"
  by (auto simp: handle_bundle_checkout_completed_def credit_ai_bundle_def credit_analytics_bundle_def bill_sql_def Let_def
      split: option.splits sum.splits)

lemma recovery_row_loaded: "load_recovery_workspace_row e 10 ws w = (r, w1) \<Longrightarrow> w1 = w"
  by (auto simp: load_recovery_workspace_row_def bill_sql_def split: sum.splits)

lemma recovery_checkout_cases:
  "handle_payment_recovery_checkout_completed libs e ws s w = w
   \<or> (\<exists>customer sub. handle_payment_recovery_checkout_completed libs e ws s w
        = snd (recover_past_due_payment libs e \<lparr>ri_workspace = ws, ri_customer = customer, ri_subscription = sub, ri_session = cs_id s\<rparr> w))"
proof -
  obtain r w1 where load: "load_recovery_workspace_row e 10 ws w = (r, w1)" by fastforce
  with recovery_row_loaded [OF load] show ?thesis
    by (auto simp: handle_payment_recovery_checkout_completed_def split: sum.splits option.splits)
qed

lemma checkout_completed_cases:
  assumes "P w" "\<And>ws m. cs_metadata s = Some m \<Longrightarrow> m ''workspace_id'' = Some ws \<Longrightarrow> ws \<noteq> []
      \<Longrightarrow> P (handle_bundle_checkout_completed (we_float we) (we_vars we) e ws m w)
        \<and> P (handle_payment_recovery_checkout_completed libs e ws s w)"
  shows "P (handle_checkout_completed libs we e s w)"
  using assms by (auto simp: handle_checkout_completed_def split: option.splits checkout_session_kind.splits)

lemma handle_event_sends:
  "\<exists>new. bw_sent (handle_event libs we e event w) = bw_sent w @ new \<and> (\<forall>q \<in> set new. \<not> creates_subscription q)"
proof (cases event)
  case (CheckoutSessionCompleted s)
  have recovery: "\<exists>new. bw_sent (handle_payment_recovery_checkout_completed libs e ws s w) = bw_sent w @ new
      \<and> (\<forall>q \<in> set new. \<not> creates_subscription q)" for ws
    using recovery_checkout_cases [of libs e ws s w] sendsD [OF recover_sends] by auto
  show ?thesis unfolding CheckoutSessionCompleted handle_event.simps
    by (rule checkout_completed_cases) (simp_all add: bundle_sends recovery)
qed (simp_all add: sendsD invoice_events_send subscription_events_send)

lemma stripe_webhook_cases:
  "(\<exists>payload signature event. we_configured we \<and> wq_signature req = Some signature \<and> wq_body req = Some payload
      \<and> we_verify we payload signature = Some event
      \<and> stripe_webhook libs we e req w = (Inr (JObject []), handle_event libs we e event w))
   \<or> (\<exists>m. stripe_webhook libs we e req w = (Inl (BadRequest m), w)
      \<and> \<not> (we_configured we \<and> (\<exists>payload signature. wq_signature req = Some signature \<and> wq_body req = Some payload
           \<and> we_verify we payload signature \<noteq> None)))"
  by (auto simp: stripe_webhook_def st_then_def st_simps ensure_def ok_or_def split: option.splits)


subsection \<open>One subscription per workspace\<close>

lemma create_checkout_sends:
  "\<exists>new. bw_sent (snd (create_checkout libs e who n w)) = bw_sent w @ new
     \<and> (\<forall>q \<in> set new. creates_subscription q \<longrightarrow> (\<exists>c row. bc_allow_lapsed who = Inr c \<and> wc_is_owner (us_workspace (cx_auth c))
          \<and> find (\<lambda>r. wk_id r = cx_ws c) (bw_rows w) = Some row \<and> wk_stripe_subscription row = None))"
proof (cases "\<exists>c u row w1. bc_allow_lapsed who = Inr c \<and> require_workspace_owner c = Inr u \<and> load_workspace e (cx_ws c) w = (Inr row, w1)")
  case True
  then obtain c u row w1 where c: "bc_allow_lapsed who = Inr c" "require_workspace_owner c = Inr u"
    and load: "load_workspace e (cx_ws c) w = (Inr row, w1)" by blast
  have row: "w1 = w" "find (\<lambda>r. wk_id r = cx_ws c) (bw_rows w) = Some row" using load_workspace_result [OF load] by simp_all
  have "create_checkout libs e who n w = checkout_for libs e c n row w"
    using c load row by (simp add: create_checkout_def st_then_def st_simps)
  moreover obtain new where "bw_sent (snd (checkout_for libs e c n row w)) = bw_sent w @ new"
    "\<forall>q \<in> set new. creates_subscription q \<longrightarrow> wk_stripe_subscription row = None"
    using sendsD [OF checkout_for_sends] by blast
  moreover have "wc_is_owner (us_workspace (cx_auth c))" using c(2) by (simp add: owner_iff)
  ultimately show ?thesis using c(1) row(2) by (intro exI [of _ new]) auto
next
  case False
  have "snd (create_checkout libs e who n w) = w"
  proof (cases "bc_allow_lapsed who")
    case (Inr c)
    obtain r w1 where load: "load_workspace e (cx_ws c) w = (r, w1)" by fastforce
    with load_workspace_result [OF load] False Inr show ?thesis
      by (auto simp: create_checkout_def st_then_def st_simps split: sum.splits)
  qed (simp add: create_checkout_def st_then_def st_simps)
  then show ?thesis by (intro exI [of _ "[]"]) simp
qed

lemma past_due_refused:
  assumes "bc_allow_lapsed who = Inr c" "wc_is_owner (us_workspace (cx_auth c))" "ae_fault e 10 = None"
    and "find (\<lambda>r. wk_id r = cx_ws c) (bw_rows w) = Some row" "wk_subscription row = PastDue" "wk_stripe_subscription row = Some sub"
  shows "create_checkout libs e who n w = (Inl (SfnStatus 409 PAST_DUE_REFUSAL), w)"
proof -
  obtain r w1 where load: "load_workspace e (cx_ws c) w = (r, w1)" by fastforce
  have "w1 = w" "r = ok_or (find (\<lambda>r. wk_id r = cx_ws c) (bw_rows w)) (SfnText ''Workspace not found'')"
    using load_workspace_result [OF load] assms(3) by blast+
  with load assms(4) have row: "load_workspace e (cx_ws c) w = (Inr row, w)" by (simp add: ok_or_def)
  have path: "checkout_path_of (subscription_status_str (wk_subscription row)) (wk_stripe_subscription row) = RecoverPastDue"
    using assms by (simp add: checkout_path_of_def)
  have "require_workspace_owner c = Inr ()" using assms by (simp add: owner_iff)
  then show ?thesis using assms row path by (simp add: create_checkout_def checkout_for_def st_then_def st_simps)
qed

lemma webhook_sends:
  "\<exists>new. bw_sent (snd (stripe_webhook libs we e req w)) = bw_sent w @ new \<and> (\<forall>q \<in> set new. \<not> creates_subscription q)"
  using stripe_webhook_cases [of we req libs e w]
proof (elim disjE exE conjE)
  fix event assume "stripe_webhook libs we e req w = (Inr (JObject []), handle_event libs we e event w)"
  then have "snd (stripe_webhook libs we e req w) = handle_event libs we e event w" by simp
  then show ?thesis using handle_event_sends [of libs we e event w] by simp
qed simp

text \<open>C20: Billing never starts a second subscription. Of the owner's calls only \<open>create_checkout\<close> sends Stripe a
  request that can create a subscription, only for the owner of a workspace whose stored row has none; with
  a past-due subscription on file it answers 409 without a request or a change; and no webhook event ever
  makes the service send such a request.\<close>

theorem one_subscription_per_workspace:
  "(\<exists>new. bw_sent (snd (billing_call_run libs e who call w)) = bw_sent w @ new
      \<and> (\<forall>q \<in> set new. creates_subscription q \<longrightarrow>
          (\<exists>n c row. call = CreateCheckoutCall n \<and> bc_allow_lapsed who = Inr c \<and> wc_is_owner (us_workspace (cx_auth c))
             \<and> find (\<lambda>r. wk_id r = cx_ws c) (bw_rows w) = Some row \<and> wk_stripe_subscription row = None)))
   \<and> (\<forall>c row. bc_allow_lapsed who = Inr c \<and> wc_is_owner (us_workspace (cx_auth c)) \<and> ae_fault e 10 = None
        \<and> find (\<lambda>r. wk_id r = cx_ws c) (bw_rows w) = Some row \<and> wk_subscription row = PastDue \<and> wk_stripe_subscription row \<noteq> None
        \<longrightarrow> create_checkout libs e who n w = (Inl (SfnStatus 409 PAST_DUE_REFUSAL), w))
   \<and> (\<exists>new. bw_sent (snd (stripe_webhook libs we e req w)) = bw_sent w @ new \<and> (\<forall>q \<in> set new. \<not> creates_subscription q))"
proof (intro conjI allI impI)
  show "\<exists>new. bw_sent (snd (billing_call_run libs e who call w)) = bw_sent w @ new
      \<and> (\<forall>q \<in> set new. creates_subscription q \<longrightarrow>
          (\<exists>n c row. call = CreateCheckoutCall n \<and> bc_allow_lapsed who = Inr c \<and> wc_is_owner (us_workspace (cx_auth c))
             \<and> find (\<lambda>r. wk_id r = cx_ws c) (bw_rows w) = Some row \<and> wk_stripe_subscription row = None))"
  proof (cases "\<exists>n. call = CreateCheckoutCall n")
    case True
    then obtain n where call: "call = CreateCheckoutCall n" by blast
    from create_checkout_sends [of libs e who n w] show ?thesis by (simp add: call void_state)
  next
    case False
    then have "sends (\<lambda>q. \<not> creates_subscription q) (billing_call_run libs e who call)" by (intro no_creation) simp
    then show ?thesis using sendsD by blast
  qed
next
  fix c row
  assume c: "bc_allow_lapsed who = Inr c \<and> wc_is_owner (us_workspace (cx_auth c)) \<and> ae_fault e 10 = None
      \<and> find (\<lambda>r. wk_id r = cx_ws c) (bw_rows w) = Some row \<and> wk_subscription row = PastDue \<and> wk_stripe_subscription row \<noteq> None"
  then show "create_checkout libs e who n w = (Inl (SfnStatus 409 PAST_DUE_REFUSAL), w)"
    by (auto intro: past_due_refused)
next
  show "\<exists>new. bw_sent (snd (stripe_webhook libs we e req w)) = bw_sent w @ new \<and> (\<forall>q \<in> set new. \<not> creates_subscription q)"
    by (rule webhook_sends)
qed

subsection \<open>Only the owner\<close>

lemma not_owner: "\<not> wc_is_owner (us_workspace (cx_auth c)) \<Longrightarrow> require_workspace_owner c = Inl (SfnStatus 403 ''Workspace owner access required'')"
  by (simp add: require_workspace_owner_def permissions_for_def Let_def ensure_def)

lemma void_run: "void m w = (map_sum id (\<lambda>_. ()) (fst (m w)), snd (m w))"
  by (auto simp: void_def st_then_def st_simps split: prod.splits sum.splits)

text \<open>The calls a lapsed workspace may still make.\<close>

fun open_while_lapsed :: "billing_call \<Rightarrow> bool" where
  "open_while_lapsed CancelCall = False"
| "open_while_lapsed ReactivateCall = False"
| "open_while_lapsed (UserLimitCall _) = False"
| "open_while_lapsed (AiBundleCall _) = False"
| "open_while_lapsed (AnalyticsBundleCall _) = False"
| "open_while_lapsed _ = True"

lemma refused_bundle: "\<not> wc_is_owner (us_workspace (cx_auth c)) \<Longrightarrow>
    purchase_bundle libs e c price missing kind failed n w = (Inl (SfnStatus 403 ''Workspace owner access required''), w)"
  by (simp add: purchase_bundle_def st_then_def st_simps not_owner)

text \<open>Billing is the owner's alone: a caller the extractor refuses (not signed in, no workspace, or lapsed where
  the call does not allow it), or who is not the workspace's owner, changes nothing and sends Stripe
  nothing, and gets an error from every call but the list of invoices, which is empty where Stripe is not
  configured.\<close>

theorem billing_is_owner_only:
  assumes "case (if open_while_lapsed call then bc_allow_lapsed who else bc_extract who) of
      Inl _ \<Rightarrow> True | Inr c \<Rightarrow> \<not> wc_is_owner (us_workspace (cx_auth c))"
    and "\<forall>i. call \<noteq> SessionStatusCall i"
  shows "snd (billing_call_run libs e who call w) = w \<and> (is_ok (fst (billing_call_run libs e who call w)) \<longrightarrow> call = InvoicesCall)"
  using assms
  by (cases call) (auto simp: void_run create_checkout_def start_payment_recovery_def complete_payment_recovery_def
      sync_checkout_subscription_def cancel_subscription_def reactivate_subscription_def update_user_limit_def
      get_invoices_def create_portal_session_def purchase_ai_bundle_def purchase_analytics_bundle_def
      st_then_def st_simps not_owner refused_bundle ensure_def split: sum.splits if_splits)

theorem one_subscription_per_workspace_witness:
  "create_checkout sample_billing_libs sample_billing_env (sample_caller True) 1 sample_billing_world
    = (Inl (SfnStatus 409 PAST_DUE_REFUSAL), sample_billing_world)"
proof -
  obtain c where c: "bc_allow_lapsed (sample_caller True) = Inr c" "wc_is_owner (us_workspace (cx_auth c))" "cx_ws c = ''a''"
    by (simp add: sample_caller_def Let_def)
  have "find (\<lambda>r. wk_id r = cx_ws c) (bw_rows sample_billing_world) = Some (sample_billing_row ''a'')"
    by (simp add: c sample_billing_world_def sample_billing_row_def)
  then show ?thesis
    using one_subscription_per_workspace [THEN conjunct2, THEN conjunct1, rule_format, of "sample_caller True" c sample_billing_env
        sample_billing_world "sample_billing_row ''a''"] c
    by (simp add: sample_billing_row_def sample_billing_env_def)
qed

theorem billing_is_owner_only_witness:
  "snd (billing_call_run sample_billing_libs sample_billing_env (sample_caller False) (CompleteRecoveryCall ''cs'') sample_billing_world)
     = sample_billing_world
   \<and> \<not> is_ok (fst (billing_call_run sample_billing_libs sample_billing_env (sample_caller False) (CompleteRecoveryCall ''cs'') sample_billing_world))"
  using billing_is_owner_only [of "CompleteRecoveryCall ''cs''" "sample_caller False" sample_billing_libs sample_billing_env sample_billing_world]
  by (simp add: sample_caller_def Let_def del: billing_call_run.simps)

end
