(* ===== verification/Recovery_Guarantees.thy ===== *)
theory Recovery_Guarantees
  imports Billing_Guarantees
begin

text \<open>
  What the recovery of a past-due payment guarantees: whose session it accepts, what it asks of Stripe, and
  what Stripe has answered when it reports the subscription recovered or the payment declined.
\<close>

subsection \<open>The session and the answers\<close>

text \<open>A completed setup session made to recover this workspace's subscription, and the payment method it captured.\<close>

definition valid_recovery_session :: "recovery_ids \<Rightarrow> checkout_session \<Rightarrow> string \<Rightarrow> bool" where
  "valid_recovery_session ids s pm \<longleftrightarrow> cs_mode s = ModeSetup \<and> cs_status s = Some CsComplete
     \<and> metadata_at s ''purpose'' = Some RECOVERY_PURPOSE_MARKER \<and> metadata_at s ''workspace_id'' = Some (ri_workspace ids)
     \<and> map_option expanded_id (cs_customer s) = Some (ri_customer ids)
     \<and> (\<exists>si p. cs_setup_intent s = Some (ExpandObject si) \<and> si_status si = SiSucceeded
          \<and> si_payment_method si = Some p \<and> expanded_id p = pm)"

text \<open>The requests after the session is accepted.\<close>

definition recovery_request :: "recovery_ids \<Rightarrow> string \<Rightarrow> stripe_request \<Rightarrow> bool" where
  "recovery_request ids pm q \<longleftrightarrow> q = SetCustomerPaymentMethod (ri_customer ids) pm
     \<or> q = SetSubscriptionPaymentMethod (ri_subscription ids) pm \<or> q = ListOpenInvoices (ri_subscription ids)
     \<or> (\<exists>i. q = PayInvoice i pm) \<or> (\<exists>i. q = RetrieveInvoice i) \<or> q = RetrieveSubscription (ri_subscription ids)"

text \<open>What Stripe has answered by now: the invoice is paid; a payment was refused; every invoice of the list
  of open ones is paid.\<close>

definition invoice_paid :: "stripe_api \<Rightarrow> stripe_request list \<Rightarrow> string \<Rightarrow> bool" where
  "invoice_paid api sent i \<longleftrightarrow> (\<exists>xs q ys v. sent = xs @ q # ys \<and> (q = RetrieveInvoice i \<or> (\<exists>pm. q = PayInvoice i pm))
     \<and> sa_invoice api (xs @ [q]) = Inr v \<and> iv_status v = Some InvPaid)"

fun refusal :: "stripe_error + stripe_invoice \<Rightarrow> bool" where
  "refusal (Inl (StripeApi errs _)) \<longleftrightarrow> ae_payment_intent errs \<notin> {Some PiRequiresAction, Some PiRequiresConfirmation}"
| "refusal (Inl _) = False"
| "refusal (Inr v) \<longleftrightarrow> iv_status v \<notin> {Some InvPaid, Some InvOpen}"

definition payment_refused :: "stripe_api \<Rightarrow> stripe_request list \<Rightarrow> string \<Rightarrow> bool" where
  "payment_refused api sent i \<longleftrightarrow> (\<exists>xs pm ys. sent = xs @ PayInvoice i pm # ys \<and> refusal (sa_invoice api (xs @ [PayInvoice i pm])))"

definition open_invoices_paid :: "stripe_api \<Rightarrow> recovery_ids \<Rightarrow> stripe_request list \<Rightarrow> bool" where
  "open_invoices_paid api ids sent \<longleftrightarrow> (\<exists>xs ys invs. sent = xs @ ListOpenInvoices (ri_subscription ids) # ys
     \<and> sa_invoices api (xs @ [ListOpenInvoices (ri_subscription ids)]) = Inr invs
     \<and> (\<forall>v \<in> set invs. \<exists>i. iv_id v = Some i \<and> invoice_paid api sent i))"

lemma validated_iff:
  "validate_recovery_session_facts (extract_recovery_session_facts s) (ri_workspace ids) (ri_customer ids) = Inr pm
    \<longleftrightarrow> valid_recovery_session ids s pm"
  by (auto simp: validate_recovery_session_facts_def extract_recovery_session_facts_def valid_recovery_session_def
      and_then_def ensure_def ok_or_def split: option.splits expandable.splits setup_intent_status.splits if_splits)

lemma later_answers:
  "invoice_paid api sent i \<Longrightarrow> invoice_paid api (sent @ new) i"
  "payment_refused api sent i \<Longrightarrow> payment_refused api (sent @ new) i"
  "open_invoices_paid api ids sent \<Longrightarrow> open_invoices_paid api ids (sent @ new)"
proof -
  show paid: "invoice_paid api (sent @ new) i" if "invoice_paid api sent i" for i
    using that unfolding invoice_paid_def by (metis append.assoc append_Cons)
  show "payment_refused api sent i \<Longrightarrow> payment_refused api (sent @ new) i"
    unfolding payment_refused_def by (metis append.assoc append_Cons)
  show "open_invoices_paid api ids (sent @ new)" if "open_invoices_paid api ids sent"
    using that paid unfolding open_invoices_paid_def by (metis append.assoc append_Cons)
qed

subsection \<open>Paying\<close>

lemma attempt_answers:
  assumes "attempt_pay_invoice libs v pm w = (r, w')"
  shows "(r = Inr Recovered \<longrightarrow> (\<exists>i. iv_id v = Some i \<and> invoice_paid (bi_stripe libs) (bw_sent w') i))
    \<and> (\<forall>m. r = Inr (Declined m) \<longrightarrow> (\<exists>i. iv_id v = Some i \<and> payment_refused (bi_stripe libs) (bw_sent w') i))"
proof (cases "iv_id v")
  case None
  then show ?thesis using assms by (auto simp: attempt_pay_invoice_def)
next
  case (Some i)
  let ?pay = "bw_sent w @ [PayInvoice i pm]"
  let ?look = "?pay @ [RetrieveInvoice i]"
  have paid: "sa_invoice (bi_stripe libs) ?pay = Inr v \<Longrightarrow> iv_status v = Some InvPaid \<Longrightarrow> invoice_paid (bi_stripe libs) ?pay i" for v
    unfolding invoice_paid_def by blast
  have now_paid: "sa_invoice (bi_stripe libs) ?look = Inr v \<Longrightarrow> iv_status v = Some InvPaid \<Longrightarrow> invoice_paid (bi_stripe libs) ?look i" for v
    unfolding invoice_paid_def by blast
  have refused: "refusal (sa_invoice (bi_stripe libs) ?pay) \<Longrightarrow> payment_refused (bi_stripe libs) (?pay @ ys) i" for ys
    unfolding payment_refused_def by auto
  show ?thesis
  proof (cases "sa_invoice (bi_stripe libs) ?pay")
    case (Inr v')
    then have r: "r = Inr (classify_invoice_facts (iv_status v') (iv_hosted_url v'))" "bw_sent w' = ?pay"
      using assms by (auto simp: attempt_pay_invoice_def Some pay_invoice_def send_def)
    show ?thesis using paid [OF Inr] refused [of "[]"] Inr
      by (auto simp: r Some classify_invoice_facts_def split: option.splits invoice_status.splits)
  next
    case (Inl err)
    then have sent: "bw_sent w' = ?look"
      using assms by (auto simp: attempt_pay_invoice_def Some pay_invoice_def retrieve_invoice_def send_def Let_def
          split: sum.splits option.splits if_splits)
    show ?thesis
    proof (cases "\<exists>v'. sa_invoice (bi_stripe libs) ?look = Inr v' \<and> iv_status v' = Some InvPaid")
      case True
      then have "r = Inr Recovered"
        using assms Inl by (auto simp: attempt_pay_invoice_def Some pay_invoice_def retrieve_invoice_def send_def Let_def)
      then show ?thesis using True now_paid by (auto simp: sent Some)
    next
      case False
      have "r = (case extract_pay_invoice_error_facts err of
          None \<Rightarrow> Inl (Internal (''Payment recovery could not confirm the outcome of paying invoice '' @ i @ '': '' @ sa_error_text (bi_stripe libs) err))
        | Some (message, intent) \<Rightarrow> Inr (classify_pay_invoice_error_facts message intent (iv_hosted_url v)))"
        using assms Inl False by (auto simp: attempt_pay_invoice_def Some pay_invoice_def retrieve_invoice_def send_def Let_def
            split: sum.splits option.splits if_splits)
      then show ?thesis using refused [of "[RetrieveInvoice i]"] Inl
        by (cases err) (auto simp: sent Some classify_pay_invoice_error_facts_def split: if_splits)
    qed
  qed
qed

lemma pay_loop_answers:
  assumes "pay_open_invoices libs pm invs w = (r, w')"
  shows "(r = Inr Recovered \<longrightarrow> (\<forall>v \<in> set invs. \<exists>i. iv_id v = Some i \<and> invoice_paid (bi_stripe libs) (bw_sent w') i))
    \<and> (\<forall>m. r = Inr (Declined m) \<longrightarrow> (\<exists>i. payment_refused (bi_stripe libs) (bw_sent w') i))"
  using assms
proof (induction invs arbitrary: w)
  case (Cons v invs)
  obtain r1 w1 where a: "attempt_pay_invoice libs v pm w = (r1, w1)" by fastforce
  note answers = attempt_answers [OF a]
  show ?case
  proof (cases "r1 = Inr Recovered")
    case True
    then have rest: "pay_open_invoices libs pm invs w1 = (r, w')" using Cons.prems a by simp
    have "only_sends (\<lambda>_. True) (pay_open_invoices libs pm invs)" by (rule pay_open_sends) simp
    from only_sendsE [OF this rest] obtain new where "w' = w1\<lparr>bw_sent := bw_sent w1 @ new\<rparr>" by blast
    then have "\<exists>i. iv_id v = Some i \<and> invoice_paid (bi_stripe libs) (bw_sent w') i" using answers True later_answers(1) by auto
    then show ?thesis using Cons.IH [OF rest] by simp
  next
    case False
    then have "r = r1" "w' = w1" using Cons.prems a by (auto split: sum.splits)
    then show ?thesis using answers False by blast
  qed
qed auto

text \<open>The steps between the accepted session and the refreshed row.\<close>

definition collect :: "'s billing_libs \<Rightarrow> recovery_ids \<Rightarrow> string \<Rightarrow> 's billing_world \<Rightarrow> (app_error + recovery_outcome) \<times> 's billing_world" where
  "collect libs ids pm =
     st_then (on_stripe (stripe_failed libs ''failed to set default payment method: '')
       (set_default_payment_method (bi_stripe libs) (ri_customer ids) (ri_subscription ids) pm)) (\<lambda>_.
     st_then (on_stripe (stripe_failed libs ''failed to list open invoices: '')
       (list_open_invoices (bi_stripe libs) (ri_subscription ids))) (\<lambda>invs.
     pay_open_invoices libs pm invs))"

lemma st_then_assoc: "st_then (st_then m f) g = st_then m (\<lambda>x. st_then (f x) g)"
  by (auto simp: st_then_def fun_eq_iff split: prod.splits sum.splits)

lemma recover_parts:
  "recover_past_due_payment libs e ids =
     st_then (on_stripe (stripe_failed libs ''failed to retrieve checkout session: '')
       (retrieve_checkout_session_with_setup_intent (bi_stripe libs) (ri_session ids))) (\<lambda>s.
     st_then (st_lift (map_err (\<lambda>v. BadRequest (''invalid payment recovery session: '' @ recovery_validation_text v))
       (validate_recovery_session_facts (extract_recovery_session_facts s) (ri_workspace ids) (ri_customer ids)))) (\<lambda>pm.
     st_then (collect libs ids pm) (\<lambda>result.
     if result = Recovered then refresh_recovered libs e ids else st_ok result)))"
  by (simp add: recover_past_due_payment_def collect_def st_then_assoc)

lemma on_send: "on_stripe err (send answer q) w = (map_err err (answer (bw_sent w @ [q])), w\<lparr>bw_sent := bw_sent w @ [q]\<rparr>)"
  by (simp add: on_stripe_def send_def)

lemma collect_sends: "only_sends (recovery_request ids pm) (collect libs ids pm)"
proof -
  have pay: "only_sends (recovery_request ids pm) (pay_open_invoices libs pm invs)" for invs
    by (rule pay_open_sends) (simp add: recovery_request_def)
  show ?thesis unfolding collect_def set_default_payment_method_def list_open_invoices_def
    by (intro sends_rules pay) (simp_all add: recovery_request_def)
qed

lemma collect_answers:
  assumes "collect libs ids pm w = (r, w')"
  shows "(r = Inr Recovered \<longrightarrow> open_invoices_paid (bi_stripe libs) ids (bw_sent w'))
    \<and> (\<forall>m. r = Inr (Declined m) \<longrightarrow> (\<exists>i. payment_refused (bi_stripe libs) (bw_sent w') i))"
proof -
  let ?list = "ListOpenInvoices (ri_subscription ids)"
  obtain r1 w1 where set: "on_stripe (stripe_failed libs ''failed to set default payment method: '')
      (set_default_payment_method (bi_stripe libs) (ri_customer ids) (ri_subscription ids) pm) w = (r1, w1)" by fastforce
  show ?thesis
  proof (cases "is_ok r1 \<and> is_ok (sa_invoices (bi_stripe libs) (bw_sent w1 @ [?list]))")
    case True
    then obtain u invs where ok: "r1 = Inr u" "sa_invoices (bi_stripe libs) (bw_sent w1 @ [?list]) = Inr invs"
      by (auto simp: is_ok_def split: sum.splits)
    then have run: "pay_open_invoices libs pm invs (w1\<lparr>bw_sent := bw_sent w1 @ [?list]\<rparr>) = (r, w')"
      using assms set by (simp add: collect_def st_then_def list_open_invoices_def on_send)
    have "only_sends (\<lambda>_. True) (pay_open_invoices libs pm invs)" by (rule pay_open_sends) simp
    from only_sendsE [OF this run] obtain new where "bw_sent w' = bw_sent w1 @ ?list # new" by auto
    then show ?thesis using pay_loop_answers [OF run] ok(2) unfolding open_invoices_paid_def by blast
  next
    case False
    have "\<exists>err. r = Inl err"
      using assms False set by (auto simp: collect_def st_then_def list_open_invoices_def on_send split: sum.splits)
    then show ?thesis by auto
  qed
qed

subsection \<open>The refreshed row\<close>

lemma refresh_facts:
  assumes "refresh_recovered libs e ids w = (r, w')"
  shows "(\<exists>new. bw_sent w' = bw_sent w @ new \<and> (\<forall>q \<in> set new. q = RetrieveSubscription (ri_subscription ids)))
    \<and> (r = Inr Recovered \<or> (\<exists>err. r = Inl err) \<and> (bw_rows w', bw_broadcasts w', bw_mcp w') = (bw_rows w, bw_broadcasts w, bw_mcp w))
    \<and> filter (\<lambda>row. wk_id row \<noteq> ri_workspace ids) (bw_rows w') = filter (\<lambda>row. wk_id row \<noteq> ri_workspace ids) (bw_rows w)
    \<and> (r = Inr Recovered \<longrightarrow> (\<exists>sub. sa_subscription (bi_stripe libs) (bw_sent w') = Inr sub
        \<and> (\<forall>row \<in> set (bw_rows w'). wk_id row = ri_workspace ids
            \<longrightarrow> meets (WriteSubscription (parse_subscription_data (bi_stripe libs) sub) WriteUpdated) row)))"
proof -
  let ?q = "RetrieveSubscription (ri_subscription ids)" and ?api = "bi_stripe libs" and ?ws = "ri_workspace ids"
  obtain k where "retried ?api (send (sa_subscription ?api) ?q) (bw_sent w)
      = (sa_subscription ?api (bw_sent w @ replicate k ?q), bw_sent w @ replicate k ?q)"
    by (rule retried_send [of ?api "sa_subscription ?api" ?q "bw_sent w"]) blast
  define w1 where "w1 = w\<lparr>bw_sent := bw_sent w @ replicate k ?q\<rparr>"
  have got: "on_stripe err (retrieve_subscription ?api (ri_subscription ids)) w = (map_err err (sa_subscription ?api (bw_sent w1)), w1)" for err
    by (simp add: on_stripe_def retrieve_subscription_def w1_def \<open>retried _ _ _ = _\<close>)
  show ?thesis
  proof (cases "sa_subscription ?api (bw_sent w1)")
    case (Inl err)
    then have "w' = w1" "\<exists>err. r = Inl err" using assms by (auto simp: refresh_recovered_def st_then_def got map_err_def)
    then show ?thesis by (auto simp: w1_def)
  next
    case (Inr sub)
    define wr where "wr = WriteSubscription (parse_subscription_data ?api sub) WriteUpdated"
    have run: "write_subscription_to_workspace e 20 ws1 (parse_subscription_data ?api sub) WriteUpdated v1 = run_write e 20 ws1 wr v1" for ws1 v1
      by (simp add: wr_def)
    obtain r2 w2 where wrote: "run_write e 20 ?ws wr w1 = (r2, w2)" by fastforce
    have r: "(r, w') = (case r2 of Inl err \<Rightarrow> (Inl err, w2) | Inr x \<Rightarrow> (Inr Recovered, tools_changed libs ?ws w2))"
      using assms Inr wrote by (simp add: refresh_recovered_def st_then_def got map_err_def run split: sum.splits)
    from run_write_cases [OF wrote] show ?thesis
    proof (elim disjE exE conjE)
      fix err assume "r2 = Inl (Sqlx err)" "w2 = w1"
      then show ?thesis using r by (auto simp: w1_def)
    next
      assume r2: "r2 = Inr (map (bw.settled wr ?ws) (bw_rows w1) \<noteq> bw_rows w1)"
        and w2: "w2 = w1\<lparr>bw_rows := map (bw.settled wr ?ws) (bw_rows w1),
           bw_broadcasts := bw_broadcasts w1 @ (if map (bw.settled wr ?ws) (bw_rows w1) \<noteq> bw_rows w1 then [?ws] else [])\<rparr>"
      have rows: "bw_rows w' = map (bw.settled wr ?ws) (bw_rows w)" and sent: "bw_sent w' = bw_sent w1" and done_r: "r = Inr Recovered"
        using r r2 w2 by (simp_all add: w1_def tools_changed_def)
      have "\<forall>row \<in> set (bw_rows w'). wk_id row = ?ws \<longrightarrow> meets wr row"
        unfolding rows using bw.settled_goal by blast
      moreover have "filter (\<lambda>row. wk_id row \<noteq> ?ws) (bw_rows w') = filter (\<lambda>row. wk_id row \<noteq> ?ws) (bw_rows w)"
        unfolding rows by (rule bw.settled_others)
      ultimately show ?thesis using Inr done_r sent by (auto simp: w1_def wr_def simp del: meets.simps)
    qed
  qed
qed

text \<open>C18: Recovery pays before it unblocks. It accepts only a completed setup session that was made to recover this
  very workspace and customer, and asks nothing else of Stripe before; then it asks only to use the
  captured payment method, for this subscription's open invoices, and for the subscription. The billing row
  changes only on the answer that the subscription is recovered: then Stripe has reported every invoice of
  its list of open ones paid, and the row carries the subscription Stripe last sent. A payment is reported
  declined only where Stripe refused it. No other workspace's row changes.\<close>

theorem recovery_pays_before_unblocking:
  fixes libs :: "'s billing_libs"
  assumes "recover_past_due_payment libs e ids w = (r, w')" and "api = bi_stripe libs"
    and "ask = RetrieveCheckoutSession (ri_session ids) [''setup_intent'']"
  shows "\<exists>new. bw_sent w' = bw_sent w @ ask # new
    \<and> (new \<noteq> [] \<or> is_ok r \<longrightarrow> (\<exists>s pm. sa_session api (bw_sent w @ [ask]) = Inr s \<and> valid_recovery_session ids s pm
         \<and> (\<forall>q \<in> set new. recovery_request ids pm q)))
    \<and> (r \<noteq> Inr Recovered \<longrightarrow> (bw_rows w', bw_broadcasts w', bw_mcp w') = (bw_rows w, bw_broadcasts w, bw_mcp w))
    \<and> (r = Inr Recovered \<longrightarrow> open_invoices_paid api ids (bw_sent w')
         \<and> (\<exists>sub. sa_subscription api (bw_sent w') = Inr sub
              \<and> (\<forall>row \<in> set (bw_rows w'). wk_id row = ri_workspace ids
                   \<longrightarrow> meets (WriteSubscription (parse_subscription_data api sub) WriteUpdated) row)))
    \<and> (\<forall>m. r = Inr (Declined m) \<longrightarrow> (\<exists>i. payment_refused api (bw_sent w') i))
    \<and> filter (\<lambda>row. wk_id row \<noteq> ri_workspace ids) (bw_rows w') = filter (\<lambda>row. wk_id row \<noteq> ri_workspace ids) (bw_rows w)"
proof -
  define w1 where "w1 = w\<lparr>bw_sent := bw_sent w @ [ask]\<rparr>"
  have got: "on_stripe err (retrieve_checkout_session_with_setup_intent (bi_stripe libs) (ri_session ids)) w
      = (map_err err (sa_session api (bw_sent w @ [ask])), w1)" for err
    by (simp add: retrieve_checkout_session_with_setup_intent_def on_send w1_def assms(2,3))
  show ?thesis
  proof (cases "\<exists>s pm. sa_session api (bw_sent w @ [ask]) = Inr s \<and> valid_recovery_session ids s pm")
    case False
    then have "w' = w1" "\<exists>err. r = Inl err"
      using assms(1) unfolding validated_iff [symmetric]
      by (auto simp: recover_parts st_then_def st_simps got map_err_def split: sum.splits)
    then show ?thesis by (intro exI [of _ "[]"]) (auto simp: w1_def)
  next
    case True
    then obtain s pm where s: "sa_session api (bw_sent w @ [ask]) = Inr s" "valid_recovery_session ids s pm" by blast
    obtain r2 w2 where paid: "collect libs ids pm w1 = (r2, w2)" by fastforce
    obtain new where new: "w2 = w1\<lparr>bw_sent := bw_sent w1 @ new\<rparr>" "\<forall>q \<in> set new. recovery_request ids pm q"
      using only_sendsE [OF collect_sends paid] by blast
    have run: "(r, w') = (case r2 of Inl err \<Rightarrow> (Inl err, w2)
        | Inr result \<Rightarrow> if result = Recovered then refresh_recovered libs e ids w2 else (Inr result, w2))"
      using assms(1) s validated_iff [THEN iffD2, OF s(2)] by (auto simp: recover_parts st_then_def st_simps got paid split: sum.splits)
    show ?thesis
    proof (cases "r2 = Inr Recovered")
      case True
      then have refresh: "refresh_recovered libs e ids w2 = (r, w')" using run by simp
      obtain new' where new': "bw_sent w' = bw_sent w2 @ new'" "\<forall>q \<in> set new'. q = RetrieveSubscription (ri_subscription ids)"
        using refresh_facts [OF refresh] by blast
      have "open_invoices_paid api ids (bw_sent w')"
        using collect_answers [OF paid] True new'(1) later_answers(3) [of api ids "bw_sent w2"] by (simp add: assms(2))
      moreover have "\<forall>q \<in> set (new @ new'). recovery_request ids pm q" using new(2) new'(2) by (auto simp: recovery_request_def)
      moreover have "bw_sent w' = bw_sent w @ ask # new @ new'" using new(1) new'(1) by (simp add: w1_def)
      ultimately show ?thesis
        using refresh_facts [OF refresh] s new(1)
        by (intro exI [of _ "new @ new'"]) (auto simp: w1_def assms(2) simp del: meets.simps)
    next
      case False
      then have "r = r2" "w' = w2" using run by (auto split: sum.splits if_splits)
      then show ?thesis using False collect_answers [OF paid] new s by (intro exI [of _ new]) (auto simp: w1_def assms(2))
    qed
  qed
qed

subsection \<open>A recovery\<close>

lemma sample_collected:
  "collect sample_billing_libs sample_recovery_ids ''pm'' w = (Inr Recovered, w\<lparr>bw_sent := bw_sent w @
     [SetCustomerPaymentMethod ''cus_a'' ''pm'', SetSubscriptionPaymentMethod ''sub_a'' ''pm'', ListOpenInvoices ''sub_a'', PayInvoice ''in'' ''pm'']\<rparr>)"
  by (simp add: collect_def st_then_def on_stripe_def send_def set_default_payment_method_def list_open_invoices_def map_err_def
      attempt_pay_invoice_def pay_invoice_def classify_invoice_facts_def sample_invoice_def sample_recovery_ids_def)

lemma sample_refreshed:
  "fst (refresh_recovered sample_billing_libs sample_billing_env sample_recovery_ids w) = Inr Recovered"
  "bw_rows w = bw_rows sample_billing_world \<Longrightarrow>
     map wk_subscription (bw_rows (snd (refresh_recovered sample_billing_libs sample_billing_env sample_recovery_ids w))) = [SubActive, PastDue]"
  by (simp_all add: refresh_recovered_def st_then_def on_stripe_def retrieve_subscription_def retried_once map_err_def
      write_subscription_to_workspace_def announced_update_def bill_sql_def sql_def Let_def count_where_def data_differs_def data_written_def
      broadcast_billing_status_changed_def tools_changed_def parse_subscription_data_def
      sample_billing_row_def sample_stripe_subscription_def sample_billing_world_def sample_billing_env_def sample_recovery_ids_def)

lemma sample_session_valid: "valid_recovery_session sample_recovery_ids sample_recovery_session ''pm''"
  by (simp add: valid_recovery_session_def sample_recovery_session_def sample_recovery_ids_def metadata_at_def recovery_metadata_def)

theorem recovery_pays_before_unblocking_witness:
  "let (r, w') = recover_past_due_payment sample_billing_libs sample_billing_env sample_recovery_ids sample_billing_world
   in r = Inr Recovered \<and> open_invoices_paid sample_stripe sample_recovery_ids (bw_sent w')
      \<and> map wk_subscription (bw_rows w') = [SubActive, PastDue]"
proof -
  let ?ask = "RetrieveCheckoutSession (ri_session sample_recovery_ids) [''setup_intent'']"
  let ?w = "sample_billing_world\<lparr>bw_sent := [?ask, SetCustomerPaymentMethod ''cus_a'' ''pm'', SetSubscriptionPaymentMethod ''sub_a'' ''pm'',
      ListOpenInvoices ''sub_a'', PayInvoice ''in'' ''pm'']\<rparr>"
  obtain r w' where run: "recover_past_due_payment sample_billing_libs sample_billing_env sample_recovery_ids sample_billing_world = (r, w')"
    by fastforce
  have "recover_past_due_payment sample_billing_libs sample_billing_env sample_recovery_ids sample_billing_world
      = refresh_recovered sample_billing_libs sample_billing_env sample_recovery_ids ?w"
    using validated_iff [THEN iffD2, OF sample_session_valid]
    by (simp add: recover_parts st_then_def st_simps retrieve_checkout_session_with_setup_intent_def on_send sample_collected map_err_def)
      (simp add: sample_billing_world_def)
  then have "r = Inr Recovered" "map wk_subscription (bw_rows w') = [SubActive, PastDue]"
    using sample_refreshed [of ?w] run by (auto simp: prod_eq_iff)
  moreover have "open_invoices_paid sample_stripe sample_recovery_ids (bw_sent w')"
    using recovery_pays_before_unblocking [OF run refl refl] \<open>r = Inr Recovered\<close> by auto
  ultimately show ?thesis by (simp add: run)
qed

end
