(* ===== verification/Webhook_Guarantees.thy ===== *)
theory Webhook_Guarantees
  imports Checkout_Guarantees Recovery_Guarantees
begin

text \<open>
  What the Stripe webhook guarantees: which workspace an event can change. The witness of the
  theorem stands with the other sample events in \<open>Webhook_Effects\<close>.
\<close>

subsection \<open>Whose state a call changes\<close>

text \<open>Only the workspace's row changes, and only for it are events broadcast.\<close>

definition only_touches :: "string \<Rightarrow> 's billing_world \<Rightarrow> 's billing_world \<Rightarrow> bool" where
  "only_touches ws w w' \<longleftrightarrow> filter (\<lambda>row. wk_id row \<noteq> ws) (bw_rows w') = filter (\<lambda>row. wk_id row \<noteq> ws) (bw_rows w)
     \<and> map wk_id (bw_rows w') = map wk_id (bw_rows w) \<and> bw_members w' = bw_members w
     \<and> (\<exists>k. bw_broadcasts w' = bw_broadcasts w @ replicate k ws)"

definition touches :: "string \<Rightarrow> ('s billing_world \<Rightarrow> 'r \<times> 's billing_world) \<Rightarrow> bool" where
  "touches ws m \<longleftrightarrow> (\<forall>w. only_touches ws w (snd (m w)))"

named_theorems touches_rules \<open>whose billing state calls change\<close>

lemma only_touchesI:
  assumes "filter (\<lambda>row. wk_id row \<noteq> ws) (bw_rows w') = filter (\<lambda>row. wk_id row \<noteq> ws) (bw_rows w)"
    and "map wk_id (bw_rows w') = map wk_id (bw_rows w)" "bw_members w' = bw_members w"
    and "bw_broadcasts w' = bw_broadcasts w @ replicate k ws"
  shows "only_touches ws w w'"
  using assms unfolding only_touches_def by blast

lemma only_touches_refl [simp]: "only_touches ws w w"
  by (rule only_touchesI [where k = 0]) simp_all

lemma only_touches_trans:
  assumes "only_touches ws w v" "only_touches ws v u"
  shows "only_touches ws w u"
proof -
  obtain k j where "bw_broadcasts v = bw_broadcasts w @ replicate k ws" "bw_broadcasts u = bw_broadcasts v @ replicate j ws"
    using assms unfolding only_touches_def by blast
  then show ?thesis using assms by (intro only_touchesI [where k = "k + j"]) (simp_all add: only_touches_def replicate_add)
qed

lemma touches_then [touches_rules]:
  assumes "touches ws m" "\<And>x. touches ws (f x)"
  shows "touches ws (st_then m f)"
  unfolding touches_def
proof
  fix w
  obtain r v where m: "m w = (r, v)" by fastforce
  have first: "only_touches ws w v" using assms(1) m unfolding touches_def by (metis snd_conv)
  show "only_touches ws w (snd (st_then m f w))"
  proof (cases r)
    case (Inr x)
    have "only_touches ws v (snd (f x v))" using assms(2) by (simp add: touches_def)
    with first show ?thesis by (simp add: st_then_def m Inr only_touches_trans)
  qed (simp add: st_then_def m first)
qed

lemma touches_pure [touches_rules]: "touches ws (st_ok x)" "touches ws (st_err err)" "touches ws (st_lift res)"
  by (simp_all add: touches_def st_simps)

lemma touches_sends:
  assumes "only_sends P m"
  shows "touches ws m"
  unfolding touches_def
proof
  fix w
  obtain new where "snd (m w) = w\<lparr>bw_sent := bw_sent w @ new\<rparr>" using assms unfolding only_sends_def by blast
  then show "only_touches ws w (snd (m w))" by (intro only_touchesI [where k = 0]) simp_all
qed

lemma touches_write [touches_rules]: "touches ws (run_write e n ws wr)"
  unfolding touches_def
proof
  fix w
  obtain r w' where run: "run_write e n ws wr w = (r, w')" by fastforce
  from run_write_cases [OF run] show "only_touches ws w (snd (run_write e n ws wr w))"
  proof (elim disjE exE conjE)
    assume "w' = w"
    then show ?thesis by (simp add: run)
  next
    let ?rows = "map (bw.settled wr ws) (bw_rows w)"
    assume w': "w' = w\<lparr>bw_rows := ?rows, bw_broadcasts := bw_broadcasts w @ (if ?rows \<noteq> bw_rows w then [ws] else [])\<rparr>"
    show ?thesis
      by (rule only_touchesI [where k = "if ?rows \<noteq> bw_rows w then 1 else 0"])
        (simp_all add: run w' bw.settled_others bw.settled_ids del: map_map)
  qed
qed

lemmas touches_writers [touches_rules] =
  touches_write [of ws e n "WriteSubscription d mode" for ws e n d mode, simplified]
  touches_write [of ws e n RevertToFree for ws e n, simplified]
  touches_write [of ws e n "SetStatus s" for ws e n s, simplified]
  touches_write [of ws e n ResetCredits for ws e n, simplified]

lemma touches_tools [touches_rules]: "touches ws (\<lambda>w. (r, tools_changed libs ws' w))"
  by (auto simp: touches_def tools_changed_def intro!: only_touchesI [where k = 0])

lemma touches_recovery: "touches (ri_workspace ids) (recover_past_due_payment libs e ids)"
proof -
  have "touches (ri_workspace ids) (refresh_recovered libs e ids)"
    unfolding refresh_recovered_def retrieve_subscription_def
    by (intro touches_rules touches_sends [where P = "\<lambda>_. True"] only_sends_stripe asks_retried) simp
  moreover have "touches (ri_workspace ids) (on_stripe err (retrieve_checkout_session_with_setup_intent api i))" for err api i
    unfolding retrieve_checkout_session_with_setup_intent_def
    by (intro touches_sends [where P = "\<lambda>_. True"] only_sends_stripe asks_send) simp
  ultimately show ?thesis
    unfolding recover_parts by (intro touches_rules touches_sends [OF collect_sends]) (auto intro: touches_rules)
qed

subsection \<open>The workspace of an event\<close>

definition named_workspace :: "stripe_subscription \<Rightarrow> string option" where
  "named_workspace s =
     (if sb_metadata s ''app'' = Some ''kyomi'' \<and> sb_metadata s ''workspace_id'' \<noteq> Some [] then sb_metadata s ''workspace_id'' else None)"

definition invoice_workspace :: "stripe_invoice \<Rightarrow> 's billing_world \<Rightarrow> string option" where
  "invoice_workspace v w =
     Option.bind (invoice_subscription_id v) (\<lambda>sub. map_option wk_id (find (\<lambda>r. wk_stripe_subscription r = Some sub) (bw_rows w)))"

definition session_workspace :: "checkout_session \<Rightarrow> string option" where
  "session_workspace s = (if metadata_at s ''workspace_id'' = Some [] then None else metadata_at s ''workspace_id'')"

fun event_workspace :: "webhook_event \<Rightarrow> 's billing_world \<Rightarrow> string option" where
  "event_workspace (SubscriptionCreated s) w = named_workspace s"
| "event_workspace (SubscriptionUpdated s) w = named_workspace s"
| "event_workspace (SubscriptionDeleted s) w = named_workspace s"
| "event_workspace (InvoicePaymentSucceeded v) w = invoice_workspace v w"
| "event_workspace (InvoicePaymentFailed v) w = invoice_workspace v w"
| "event_workspace (CheckoutSessionCompleted s) w = session_workspace s"
| "event_workspace (OtherEvent _) w = None"

definition affects :: "string option \<Rightarrow> 's billing_world \<Rightarrow> 's billing_world \<Rightarrow> bool" where
  "affects target w w' \<longleftrightarrow> (case target of None \<Rightarrow> w' = w | Some ws \<Rightarrow> only_touches ws w w')"

lemma affects_refl [simp]: "affects target w w"
  by (simp add: affects_def split: option.splits)

lemma resolved_workspace:
  "resolve_subscription_event_workspace (extract_subscription_event_facts s) =
     (case named_workspace s of Some ws \<Rightarrow> Inr ws
      | None \<Rightarrow> Inl (if sb_metadata s ''app'' = Some ''kyomi'' then MissingWorkspaceId else NotKyomiApp))"
  by (auto simp: resolve_subscription_event_workspace_def extract_subscription_event_facts_def named_workspace_def split: option.splits)

lemma subscription_event_affects: "affects (named_workspace s) w (snd (apply_subscription_webhook_event libs e s mode w))"
proof (cases "named_workspace s")
  case (Some ws)
  have "touches ws (apply_subscription_webhook_event libs e s mode)"
    unfolding apply_subscription_webhook_event_def resolved_workspace Some Let_def by simp (intro touches_rules)
  then show ?thesis by (simp add: affects_def Some touches_def)
qed (simp add: affects_def apply_subscription_webhook_event_def resolved_workspace st_simps)

lemma deletion_affects: "affects (named_workspace s) w (snd (apply_subscription_deleted_webhook_event libs e s w))"
proof (cases "named_workspace s")
  case (Some ws)
  have "touches ws (apply_subscription_deleted_webhook_event libs e s)"
    unfolding apply_subscription_deleted_webhook_event_def apply_subscription_deleted_event_facts_def resolved_workspace Some
    by simp (intro touches_rules)
  then show ?thesis by (simp add: affects_def Some touches_def)
qed (simp add: affects_def apply_subscription_deleted_webhook_event_def apply_subscription_deleted_event_facts_def
      resolved_workspace st_simps)

lemma invoice_event_affects:
  assumes "\<And>ws. touches ws (put ws)"
  shows "affects (invoice_workspace v w) w (snd (invoice_event e v put w))"
proof (cases "invoice_workspace v w")
  case None
  then show ?thesis
    by (auto simp: affects_def invoice_event_def workspace_id_by_subscription_def bill_sql_def st_then_def st_simps
        invoice_workspace_def bind_eq_None_conv split: option.splits sum.splits)
next
  case (Some ws)
  then obtain sub row where sub: "invoice_subscription_id v = Some sub"
    "find (\<lambda>r. wk_stripe_subscription r = Some sub) (bw_rows w) = Some row" "ws = wk_id row"
    by (auto simp: invoice_workspace_def bind_eq_Some_conv)
  have "snd (invoice_event e v put w) = w \<or> snd (invoice_event e v put w) = snd (put ws w)"
    by (auto simp: invoice_event_def workspace_id_by_subscription_def bill_sql_def st_then_def st_simps sub split: sum.splits prod.splits)
  then show ?thesis using assms [of ws] by (auto simp: affects_def Some touches_def)
qed

lemma updated_row_touches:
  assumes "\<And>r. wk_id (f r) = wk_id r"
  shows "only_touches ws w (w\<lparr>bw_rows := update_where (\<lambda>r. wk_id r = ws) f (bw_rows w)\<rparr>)"
proof -
  have "filter (\<lambda>row. wk_id row \<noteq> ws) (update_where (\<lambda>r. wk_id r = ws) f rows) = filter (\<lambda>row. wk_id row \<noteq> ws) rows"
    "map wk_id (update_where (\<lambda>r. wk_id r = ws) f rows) = map wk_id rows" for rows
    by (induction rows) (simp_all add: assms)
  then show ?thesis by (intro only_touchesI [where k = 0]) simp_all
qed

lemma bundle_touches: "only_touches ws w (handle_bundle_checkout_completed fl vars e ws m w)"
  by (auto simp: handle_bundle_checkout_completed_def credit_ai_bundle_def credit_analytics_bundle_def bill_sql_def Let_def
      updated_row_touches split: option.splits sum.splits)

lemma checkout_affects: "affects (session_workspace s) w (handle_checkout_completed libs we e s w)"
proof (rule checkout_completed_cases)
  fix ws m assume m: "cs_metadata s = Some m" "m ''workspace_id'' = Some ws" "ws \<noteq> []"
  then have "session_workspace s = Some ws" by (simp add: session_workspace_def metadata_at_def)
  moreover have "only_touches ws w (handle_payment_recovery_checkout_completed libs e ws s w)"
    using recovery_checkout_cases [of libs e ws s w]
      touches_recovery [of "\<lparr>ri_workspace = ws, ri_customer = c, ri_subscription = sub, ri_session = cs_id s\<rparr>" libs e for c sub]
    by (auto simp: touches_def)
  ultimately show "affects (session_workspace s) w (handle_bundle_checkout_completed (we_float we) (we_vars we) e ws m w)
      \<and> affects (session_workspace s) w (handle_payment_recovery_checkout_completed libs e ws s w)"
    by (simp add: affects_def bundle_touches)
qed simp

lemma event_affects: "affects (event_workspace event w) w (handle_event libs we e event w)"
  by (cases event) (simp_all add: subscription_event_affects deletion_affects checkout_affects
      apply_invoice_payment_succeeded_webhook_event_def apply_invoice_payment_failed_webhook_event_def
      invoice_event_affects touches_writers)

text \<open>C21: The webhook answers every request and keeps to the event's workspace. A request that is not signed by
  Stripe, or cannot be verified, is refused with a bad request and changes nothing; any verified event is
  acknowledged, whatever then fails. An event that names no workspace changes nothing at all: a subscription's
  whose metadata do not carry this application's mark or no workspace, an invoice's whose subscription is
  on no row, a checkout's without a workspace in its metadata. Any other event changes only the row of its
  own workspace (the one its metadata name, or that has the invoice's subscription), and broadcasts only
  for it. A completed checkout is not asked for the application's mark.\<close>

theorem webhook_keeps_to_its_workspace:
  assumes "stripe_webhook libs we e req w = (r, w')"
  shows "(\<exists>payload signature event. we_configured we \<and> wq_signature req = Some signature \<and> wq_body req = Some payload
        \<and> we_verify we payload signature = Some event \<and> r = Inr (JObject [])
        \<and> (case event_workspace event w of
             None \<Rightarrow> w' = w
           | Some ws \<Rightarrow> filter (\<lambda>row. wk_id row \<noteq> ws) (bw_rows w') = filter (\<lambda>row. wk_id row \<noteq> ws) (bw_rows w)
               \<and> map wk_id (bw_rows w') = map wk_id (bw_rows w) \<and> bw_members w' = bw_members w
               \<and> (\<exists>k. bw_broadcasts w' = bw_broadcasts w @ replicate k ws)))
    \<or> \<not> (we_configured we \<and> (\<exists>payload signature. wq_signature req = Some signature \<and> wq_body req = Some payload
           \<and> we_verify we payload signature \<noteq> None)) \<and> (\<exists>m. r = Inl (BadRequest m)) \<and> w' = w"
  using stripe_webhook_cases [of we req libs e w]
proof (elim disjE exE conjE)
  fix payload signature event
  assume ok: "we_configured we" "wq_signature req = Some signature" "wq_body req = Some payload"
    "we_verify we payload signature = Some event" and "stripe_webhook libs we e req w = (Inr (JObject []), handle_event libs we e event w)"
  then have r: "r = Inr (JObject [])" "w' = handle_event libs we e event w" using assms by simp_all
  have "affects (event_workspace event w) w w'" unfolding r by (rule event_affects)
  then have "case event_workspace event w of None \<Rightarrow> w' = w
      | Some ws \<Rightarrow> filter (\<lambda>row. wk_id row \<noteq> ws) (bw_rows w') = filter (\<lambda>row. wk_id row \<noteq> ws) (bw_rows w)
          \<and> map wk_id (bw_rows w') = map wk_id (bw_rows w) \<and> bw_members w' = bw_members w
          \<and> (\<exists>k. bw_broadcasts w' = bw_broadcasts w @ replicate k ws)"
    unfolding affects_def only_touches_def .
  with ok r(1) show ?thesis by blast
next
  fix m assume refused: "\<not> (we_configured we \<and> (\<exists>payload signature. wq_signature req = Some signature \<and> wq_body req = Some payload
      \<and> we_verify we payload signature \<noteq> None))" and "stripe_webhook libs we e req w = (Inl (BadRequest m), w)"
  then have "r = Inl (BadRequest m)" "w' = w" using assms by simp_all
  with refused show ?thesis by blast
qed

end
