(* ===== verification/Webhook_Effects.thy ===== *)
theory Webhook_Effects
  imports Webhook_Guarantees
begin

text \<open>
  What a webhook event does to the billing gate, and what happens when Stripe delivers an event twice.
\<close>

subsection \<open>The rows after an event\<close>

lemma written_rows:
  assumes "ae_fault e n = None"
  shows "bw_rows (snd (run_write e n ws wr w)) = map (bw.settled wr ws) (bw_rows w)"
    "\<forall>row \<in> set (bw_rows (snd (run_write e n ws wr w))). wk_id row = ws \<longrightarrow> meets wr row"
proof -
  obtain r w' where run: "run_write e n ws wr w = (r, w')" by fastforce
  have rows: "bw_rows w' = map (bw.settled wr ws) (bw_rows w)" using run_write_cases [OF run] assms by auto
  then show "bw_rows (snd (run_write e n ws wr w)) = map (bw.settled wr ws) (bw_rows w)" by (simp add: run)
  show "\<forall>row \<in> set (bw_rows (snd (run_write e n ws wr w))). wk_id row = ws \<longrightarrow> meets wr row"
    unfolding run snd_conv rows using bw.settled_goal by blast
qed

text \<open>The part of the world that is the workspaces' billing state, and the events announced.\<close>

definition billing_state :: "'s billing_world \<Rightarrow> billing_row list \<times> string list" where
  "billing_state w = (bw_rows w, bw_broadcasts w)"

lemma tools_state [simp]: "billing_state (tools_changed libs ws w) = billing_state w"
  by (simp add: billing_state_def tools_changed_def)

lemma then_tools:
  "billing_state (snd (st_then m (\<lambda>x w. (f x, tools_changed libs ws w)) w)) = billing_state (snd (m w))"
  by (auto simp: st_then_def split: prod.splits sum.splits)

lemma subscription_event_state:
  assumes "named_workspace s = Some ws"
  shows "billing_state (snd (apply_subscription_webhook_event libs e s mode w))
      = billing_state (snd (run_write e 20 ws (WriteSubscription (parse_subscription_data (bi_stripe libs) s) mode) w))"
    "billing_state (snd (apply_subscription_deleted_webhook_event libs e s w)) = billing_state (snd (run_write e 20 ws RevertToFree w))"
  by (simp_all add: apply_subscription_webhook_event_def apply_subscription_deleted_webhook_event_def
      apply_subscription_deleted_event_facts_def resolved_workspace assms Let_def then_tools)

lemma st_then_ok_state: "snd (st_then m (\<lambda>x. st_ok (f x)) w) = snd (m w)"
  by (auto simp: st_then_def st_simps split: prod.splits sum.splits)

lemma invoice_event_state:
  assumes "invoice_workspace v w = Some ws" "ae_fault e 10 = None"
  shows "snd (invoice_event e v put w) = snd (put ws w)"
proof -
  obtain sub row where sub: "invoice_subscription_id v = Some sub"
    "find (\<lambda>r. wk_stripe_subscription r = Some sub) (bw_rows w) = Some row" "ws = wk_id row"
    using assms(1) by (auto simp: invoice_workspace_def bind_eq_Some_conv)
  then have "workspace_id_by_subscription e 10 sub w = (Inr (Some ws), w)"
    by (simp add: workspace_id_by_subscription_def bill_sql_def sql_def assms(2))
  then show ?thesis
    unfolding invoice_event_def using sub(1) by (simp add: st_then_def st_simps split: prod.splits sum.splits)
qed

subsection \<open>The gate after an event\<close>

text \<open>The period of the subscription's first item is running.\<close>

definition period_runs :: "stripe_api \<Rightarrow> stripe_subscription \<Rightarrow> int \<Rightarrow> bool" where
  "period_runs api s now \<longleftrightarrow> (case sb_items s of [] \<Rightarrow> False
     | i # _ \<Rightarrow> (case sa_timestamp api (it_period_end i) of None \<Rightarrow> False | Some t \<Rightarrow> now < t))"

definition stripe_grants :: "stripe_api \<Rightarrow> stripe_subscription \<Rightarrow> int \<Rightarrow> bool" where
  "stripe_grants api s now \<longleftrightarrow>
     (if \<not> sb_cancel_at_period_end s \<and> sb_status s \<in> {StActive, StTrialing} then True
      else if \<not> sb_cancel_at_period_end s \<and> sb_status s \<in> {StPastDue, StIncomplete} then False
      else period_runs api s now)"

lemma parsed_status: "sd_status (parse_subscription_data api s) =
    (if sb_cancel_at_period_end s then SubCancelled else map_stripe_status (sb_status s))"
  by (simp add: parse_subscription_data_def)

lemma parsed_period: "(\<exists>t. sd_period_end (parse_subscription_data api s) = Some t \<and> now < t) \<longleftrightarrow> period_runs api s now"
  by (auto simp: parse_subscription_data_def period_runs_def split: list.splits option.splits)

lemma truncated [simp]:
  "wk_subscription (workspace_row.truncate r) = wk_subscription r" "wk_stripe_subscription (workspace_row.truncate r) = wk_stripe_subscription r"
  "wk_period_end (workspace_row.truncate r) = wk_period_end r" "wk_trial_ends_at (workspace_row.truncate r) = wk_trial_ends_at r"
  by (simp_all add: workspace_row.truncate_def)

lemma granted:
  assumes "\<not> data_differs (parse_subscription_data api s) row" "wk_stripe_subscription row \<noteq> None"
  shows "paid_up (workspace_row.truncate row) now \<longleftrightarrow> stripe_grants api s now"
proof -
  have "wk_subscription row = sd_status (parse_subscription_data api s)" "wk_period_end row = sd_period_end (parse_subscription_data api s)"
    using assms(1) by (simp_all add: data_differs_def)
  then show ?thesis
    using assms(2) parsed_period [of api s now]
    by (cases "sb_status s") (auto simp: paid_up_def stripe_grants_def parsed_status)
qed

text \<open>The gate after the event of a new subscription, for every status Stripe may report.\<close>

lemma created_gate:
  assumes "ae_fault e 20 = None" "row \<in> set (bw_rows (handle_event libs we e (SubscriptionCreated s) w))"
    "named_workspace s = Some (wk_id row)"
  shows "billing_gate_blocks (workspace_row.truncate row) False now \<longleftrightarrow> \<not> stripe_grants (bi_stripe libs) s now"
proof -
  have "meets (WriteSubscription (parse_subscription_data (bi_stripe libs) s) WriteCreated) row"
    using subscription_event_state(1) [OF assms(3), of libs e WriteCreated w] written_rows(2) [OF assms(1)] assms(2)
    by (simp only: billing_state_def handle_event.simps prod.inject) blast
  then show ?thesis by (simp add: gate_blocks_iff granted)
qed

text \<open>A subscription that Stripe reports unpaid, paused or in a status this version does not know keeps its
  workspace open until the end of the period, where the code's log says that its billing is treated as lapsed.\<close>

lemma unpaid_subscription_grants:
  assumes "ae_fault e 20 = None" "row \<in> set (bw_rows (handle_event libs we e (SubscriptionCreated s) w))"
    "named_workspace s = Some (wk_id row)"
    and "sb_status s \<in> {StUnpaid, StPaused, StIncompleteExpired, StUnknown t}" "period_runs (bi_stripe libs) s now"
  shows "\<not> billing_gate_blocks (workspace_row.truncate row) False now"
  using created_gate [OF assms(1-3)] assms(4,5) by (auto simp: stripe_grants_def)

text \<open>
  What the documentation of the status mapping and of the gate promises of a subscription: active and
  on trial it opens the workspace, with a scheduled cancellation until the end of the period; past due
  or incomplete it blocks it. Of every other status no more is asked than that the workspace is
  blocked when the period is over.
\<close>

definition gate_promised :: "stripe_api \<Rightarrow> stripe_subscription \<Rightarrow> int \<Rightarrow> bool \<Rightarrow> bool" where
  "gate_promised api s now blocked \<longleftrightarrow>
     (if sb_status s \<in> {StActive, StTrialing}
      then blocked \<longleftrightarrow> sb_cancel_at_period_end s \<and> \<not> period_runs api s now
      else if sb_status s \<in> {StPastDue, StIncomplete} \<and> \<not> sb_cancel_at_period_end s then blocked
      else \<not> period_runs api s now \<longrightarrow> blocked)"


subsection \<open>An event delivered twice\<close>

fun without_checkout :: "webhook_event \<Rightarrow> bool" where
  "without_checkout (CheckoutSessionCompleted _) = False"
| "without_checkout _ = True"

lemma run_write_twice:
  assumes "ae_fault e n = None"
  shows "snd (run_write e' k ws wr (snd (run_write e n ws wr w))) = snd (run_write e n ws wr w)"
proof -
  obtain r w' where run: "run_write e n ws wr w = (r, w')" by fastforce
  then obtain b where "r = Inr b" using run_write_cases [OF run] assms by auto
  show ?thesis
  proof (cases "ae_fault e' k")
    case None
    then show ?thesis using run_write_again [OF run [unfolded \<open>r = Inr b\<close>]] run by simp
  next
    case (Some err)
    obtain r2 w2 where run2: "run_write e' k ws wr w' = (r2, w2)" by fastforce
    then show ?thesis using run_write_cases [OF run2] Some run by simp
  qed
qed

lemma write_state:
  assumes "billing_state v = billing_state w"
  shows "billing_state (snd (run_write e n ws wr v)) = billing_state (snd (run_write e n ws wr w))"
proof -
  obtain r v' r2 w' where run: "run_write e n ws wr v = (r, v')" "run_write e n ws wr w = (r2, w')" by fastforce
  show ?thesis using run_write_cases [OF run(1)] run_write_cases [OF run(2)] assms
    by (cases "ae_fault e n") (simp_all add: run billing_state_def)
qed

lemma write_state_twice:
  assumes "ae_fault e n = None" "billing_state v = billing_state (snd (run_write e n ws wr w))"
  shows "billing_state (snd (run_write e' k ws wr v)) = billing_state v"
  using write_state [OF assms(2), of e' k ws wr] by (simp add: run_write_twice [OF assms(1)] assms(2))

lemma state_twice:
  assumes "ae_fault e 20 = None" "\<And>f u. billing_state (h f u) = billing_state (snd (run_write f 20 ws wr u))"
  shows "billing_state (h e' (h e w)) = billing_state (h e w)"
  unfolding assms(2) [of e' "h e w"] by (rule write_state_twice [OF assms(1,2)])

lemma find_map_same: "(\<And>x. P (f x) = P x) \<Longrightarrow> find P (map f xs) = map_option f (find P xs)"
  by (induction xs) simp_all

lemma invoice_workspace_after:
  assumes "ae_fault e n = None" "\<And>r. wk_stripe_subscription (written_of wr r) = wk_stripe_subscription r"
  shows "invoice_workspace v (snd (run_write e n ws wr w)) = invoice_workspace v w"
proof -
  have "wk_stripe_subscription (bw.settled wr ws r) = wk_stripe_subscription r" for r
    using assms(2) [of r] by (simp add: bw.settled_def)
  then show ?thesis
    by (simp add: invoice_workspace_def written_rows(1) [OF assms(1)] find_map_same option.map_comp comp_def bw.settled_simps(1))
qed

lemma invoice_twice:
  assumes "ae_fault e 10 = None" "ae_fault e 20 = None" "\<And>r. wk_stripe_subscription (written_of wr r) = wk_stripe_subscription r"
    and "w' = snd (invoice_event e v (\<lambda>ws. run_write e 20 ws wr) w)"
  shows "snd (invoice_event e' v (\<lambda>ws. run_write e' 20 ws wr) w') = w'"
proof (cases "invoice_workspace v w")
  case None
  have same: "snd (invoice_event f v (\<lambda>ws. run_write f 20 ws wr) w) = w" for f
    using invoice_event_affects [of "\<lambda>ws. run_write f 20 ws wr" v w f] by (simp add: None affects_def touches_write)
  show ?thesis unfolding assms(4) same ..
next
  case (Some ws)
  have w': "w' = snd (run_write e 20 ws wr w)" unfolding assms(4) by (rule invoice_event_state [OF Some assms(1)])
  have found: "invoice_workspace v w' = Some ws" unfolding w' using Some by (simp add: invoice_workspace_after assms(2,3))
  show ?thesis
  proof (cases "ae_fault e' 10")
    case None
    then show ?thesis using invoice_event_state [OF found, of e'] by (simp add: w' run_write_twice [OF assms(2)])
  next
    case (Some err)
    obtain sub where "invoice_subscription_id v = Some sub" using found by (auto simp: invoice_workspace_def bind_eq_Some_conv)
    then show ?thesis
      by (simp add: invoice_event_def workspace_id_by_subscription_def bill_sql_def sql_def st_then_def Some)
  qed
qed

text \<open>C22: Stripe may deliver an event again. Once an event of a subscription or an invoice has been processed without a
  database fault, processing it again, faults or not, changes no workspace's billing state and broadcasts
  nothing.\<close>

theorem redelivery_changes_nothing:
  assumes "without_checkout event" "ae_fault e 10 = None" "ae_fault e 20 = None" and "w' = handle_event libs we e event w"
  shows "bw_rows (handle_event libs we e' event w') = bw_rows w' \<and> bw_broadcasts (handle_event libs we e' event w') = bw_broadcasts w'"
proof -
  have unnamed: "handle_event libs we f ev u = u" if "event_workspace ev u = None" for f ev u
    using event_affects [of ev u libs we f] that by (simp add: affects_def)
  have "billing_state (handle_event libs we e' event w') = billing_state w'"
  proof (cases event)
    case (SubscriptionCreated s)
    show ?thesis
    proof (cases "named_workspace s")
      case (Some ws)
      show ?thesis unfolding assms(4) SubscriptionCreated handle_event.simps
        by (rule state_twice [of e "\<lambda>f u. snd (apply_subscription_webhook_event libs f s WriteCreated u)", OF assms(3) subscription_event_state(1) [OF Some]])
    qed (simp add: unnamed assms(4) SubscriptionCreated del: handle_event.simps)
  next
    case (SubscriptionUpdated s)
    show ?thesis
    proof (cases "named_workspace s")
      case (Some ws)
      show ?thesis unfolding assms(4) SubscriptionUpdated handle_event.simps
        by (rule state_twice [of e "\<lambda>f u. snd (apply_subscription_webhook_event libs f s WriteUpdated u)", OF assms(3) subscription_event_state(1) [OF Some]])
    qed (simp add: unnamed assms(4) SubscriptionUpdated del: handle_event.simps)
  next
    case (SubscriptionDeleted s)
    show ?thesis
    proof (cases "named_workspace s")
      case (Some ws)
      show ?thesis unfolding assms(4) SubscriptionDeleted handle_event.simps
        by (rule state_twice [of e "\<lambda>f u. snd (apply_subscription_deleted_webhook_event libs f s u)", OF assms(3) subscription_event_state(2) [OF Some]])
    qed (simp add: unnamed assms(4) SubscriptionDeleted del: handle_event.simps)
  next
    case (InvoicePaymentSucceeded v)
    show ?thesis
      using invoice_twice [OF assms(2,3), of ResetCredits w' v w e'] assms(4)
      by (simp add: InvoicePaymentSucceeded apply_invoice_payment_succeeded_webhook_event_def)
  next
    case (InvoicePaymentFailed v)
    show ?thesis
      using invoice_twice [OF assms(2,3), of "SetStatus PastDue" w' v w e'] assms(4)
      by (simp add: InvoicePaymentFailed apply_invoice_payment_failed_webhook_event_def)
  qed (use assms(1,4) in simp_all)
  then show ?thesis by (simp add: billing_state_def)
qed

text \<open>A bundle is credited once for every delivery of its event.\<close>

lemma redelivered_bundle_credits_again:
  assumes "ae_fault e 20 = None" "bw_rows w = [row]" "wk_id row = ws" "m ''purchase_type'' = Some ''analytics_bundle''"
    and "n = total_events vars (bundle_quantity m)" "in_i64 (bl_bundle_events row + n)" "in_i64 (bl_bundle_events row + n + n)"
  shows "map bl_bundle_events (bw_rows (handle_bundle_checkout_completed fl vars e ws m (handle_bundle_checkout_completed fl vars e ws m w)))
    = [bl_bundle_events row + n + n]"
  using assms by (simp add: handle_bundle_checkout_completed_def credit_analytics_bundle_def bill_sql_def sql_def Let_def)

subsection \<open>Sample events\<close>

theorem webhook_keeps_to_its_workspace_witness:
  "let (r, w') = stripe_webhook sample_billing_libs (sample_webhook (SubscriptionCreated sample_stripe_subscription)) sample_billing_env
        \<lparr>wq_signature = Some ''good'', wq_body = Some ''{}''\<rparr> sample_billing_world
   in r = Inr (JObject []) \<and> map wk_subscription (bw_rows w') = [SubActive, PastDue]
      \<and> filter (\<lambda>row. wk_id row \<noteq> ''a'') (bw_rows w') = [sample_billing_row ''b'']"
proof -
  let ?we = "sample_webhook (SubscriptionCreated sample_stripe_subscription)"
  let ?req = "\<lparr>wq_signature = Some ''good'', wq_body = Some ''{}''\<rparr>"
  obtain r w' where run: "stripe_webhook sample_billing_libs ?we sample_billing_env ?req sample_billing_world = (r, w')" by fastforce
  have ws: "event_workspace (SubscriptionCreated sample_stripe_subscription) sample_billing_world = Some ''a''"
    by (simp add: named_workspace_def sample_stripe_subscription_def)
  have r: "r = Inr (JObject [])" "w' = handle_event sample_billing_libs ?we sample_billing_env (SubscriptionCreated sample_stripe_subscription) sample_billing_world"
    using run by (auto simp: stripe_webhook_def sample_webhook_def st_then_def st_simps ensure_def ok_or_def)
  have "billing_state w' = billing_state (snd (run_write sample_billing_env 20 ''a''
      (WriteSubscription (parse_subscription_data sample_stripe sample_stripe_subscription) WriteCreated) sample_billing_world))"
    unfolding r(2) handle_event.simps using ws by (simp add: subscription_event_state(1))
  moreover have "map wk_subscription (bw_rows (snd (run_write sample_billing_env 20 ''a''
      (WriteSubscription (parse_subscription_data sample_stripe sample_stripe_subscription) WriteCreated) sample_billing_world))) = [SubActive, PastDue]"
    by (simp add: sample_write)
  ultimately have "map wk_subscription (bw_rows w') = [SubActive, PastDue]" by (simp add: billing_state_def)
  moreover have "filter (\<lambda>row. wk_id row \<noteq> ''a'') (bw_rows w') = filter (\<lambda>row. wk_id row \<noteq> ''a'') (bw_rows sample_billing_world)"
    using webhook_keeps_to_its_workspace [OF run] r(1) by (auto simp: sample_webhook_def ws simp del: event_workspace.simps split: if_splits)
  ultimately show ?thesis by (simp add: run r(1)) (simp add: sample_billing_world_def sample_billing_row_def)
qed


theorem redelivery_changes_nothing_witness:
  "let we = sample_webhook (OtherEvent ''x''); event = SubscriptionUpdated sample_stripe_subscription;
       w1 = handle_event sample_billing_libs we sample_billing_env event sample_billing_world;
       w2 = handle_event sample_billing_libs we sample_billing_env event w1
   in bw_broadcasts w1 = [''a''] \<and> bw_broadcasts w2 = [''a'']"
proof -
  let ?we = "sample_webhook (OtherEvent ''x'')" and ?event = "SubscriptionUpdated sample_stripe_subscription"
  let ?w = "handle_event sample_billing_libs ?we sample_billing_env ?event sample_billing_world"
  have ws: "named_workspace sample_stripe_subscription = Some ''a''" by (simp add: named_workspace_def sample_stripe_subscription_def)
  have env: "ae_fault sample_billing_env n = None" for n by (simp add: sample_billing_env_def)
  have "billing_state ?w = billing_state (snd (run_write sample_billing_env 20 ''a''
      (WriteSubscription (parse_subscription_data sample_stripe sample_stripe_subscription) WriteUpdated) sample_billing_world))"
    unfolding handle_event.simps by (simp add: subscription_event_state(1) [OF ws])
  moreover have "bw_broadcasts (snd (run_write sample_billing_env 20 ''a''
      (WriteSubscription (parse_subscription_data sample_stripe sample_stripe_subscription) WriteUpdated) sample_billing_world)) = [''a'']"
    by (simp add: sample_write)
  ultimately have "bw_broadcasts ?w = [''a'']" by (simp add: billing_state_def)
  then show ?thesis
    using redelivery_changes_nothing [of ?event sample_billing_env ?w sample_billing_libs ?we sample_billing_world sample_billing_env]
    by (simp add: env Let_def del: handle_event.simps)
qed

end
