(* ===== verification/Spec2Isabelle.thy ===== *)
theory Spec2Isabelle
  imports Shared_Sink Store_Runs OAuth_Guarantees Agent_Guarantees Webhook_Effects
begin

text \<open>
  A model of the core of kyomi: the durable conversation runtime (the journal, runs and tools of a chat that
  survive crashes, retries and concurrent workers), the agent that answers in it, the logins and API
  authorization that guard it, and the billing that decides who may use it.

  \<^bold>\<open>Parts and how they interact.\<close>

  \<^item> Runtime. A client submits a message; the store writes the submission and a queued run in one
    transaction. A worker discovers the run, claims it (lease and fencing number), heartbeats while it works,
    and commits every step of the agent (model responses, tool starts and outcomes, planning texts) through an
    event sink whose writes are fenced by the lease. A run ends by finish, cancellation or expiry, each of
    which writes one terminal answer. Readers follow the journal with cursors.
  \<^item> Agent. One \<open>chat\<close> asks a model again and again, executes the tools it calls through the runtime, keeps
    the conversation, watches budgets and the cancellation token, and checks the chart blocks it notices in
    the answer: what is returned has passed, or has been stripped of the blocks that failed.
  \<^item> Sessions. A login yields a short-lived access token and a refresh token that rotates; requests are
    authenticated by the access token and the user's row; secrets of the login flows live once in a key-value
    store, whose counters also limit rates. API clients get tokens by authorization codes that a user
    consented to.
  \<^item> Billing. Stripe's webhook and the owner's operations write a workspace's billing columns through shared
    writers that announce each change; the gate reads the columns and lets requests, schedulers and sockets
    through or not; a change of the tier drops the workspace's MCP sessions.

  \<^bold>\<open>Theories.\<close> The prelude, then the runtime:

  \<^item> \<open>Kyomi_Prelude\<close>: results as sums (\<open>and_then\<close>, \<open>ensure\<close>, \<open>ok_or\<close>), state-passing operations
    (\<open>st_then\<close>), decimal texts, UTF-8 character counting, 64-bit ranges and tables as lists of rows.
  \<^item> \<open>Agent_Runtime\<close> (\<open>crates/agent-runtime/src/lib.rs\<close>): protocol types, validation, the transition
    planner, \<open>append_and_notify\<close>; the locale \<open>durable_journal\<close> states what an atomic persistence promises.
  \<^item> \<open>Run_Lifecycle\<close> (\<open>agent-runtime/src/lifecycle.rs\<close>): the lease policy as pure plans, and a step
    relation over them. \<open>Replay_Cursor\<close> (\<open>replay.rs\<close>): pages under a byte budget and the staged client cursor.
    \<open>Tool_Execution\<close> (\<open>execution.rs\<close>): ingest of a response and execution of a tool; the locale
    \<open>durable_sink\<close> states what an event sink promises, and the interleavings of workers.
  \<^item> \<open>Core_Errors\<close> (\<open>kyomi-core/src/error.rs\<close>) and \<open>Encryption\<close> (\<open>kyomi-auth/src/encryption.rs\<close>).
  \<^item> \<open>Journal_Tables\<close>, \<open>Journal_Store\<close>, \<open>Journal_Read\<close>, \<open>Journal_Lifecycle\<close>, \<open>Fenced_Writes\<close>
    (\<open>kyomi-auth/src/conversation_events.rs\<close> and its submodules): the rows and their constraints,
    transactions, authorization, append, reads, the run lifecycle and the writes of a lease holder.
    \<open>Journal_Store\<close> interprets \<open>durable_journal\<close> on the store.
  \<^item> \<open>Journal_Effects\<close>: what every call of the store keeps of the journal. \<open>Sample_Runs\<close> and \<open>Store_Runs\<close>: a
    concrete codec, database and claim for the witnesses, and what every call of the store may do to the row of
    a run (phases only advance, fences only grow, one claim per fence).
  \<^item> \<open>Runtime_Sink\<close> (\<open>kyomi-agent/src/runtime_adapter.rs\<close>) and \<open>Shared_Sink\<close>: the agent's sink, and the
    sinks of all processes on one database as an interpretation of \<open>durable_sink\<close>.

  The agent:

  \<^item> \<open>Llm_Messages\<close> (\<open>kyomi-agent/src/types.rs\<close>, \<open>tools/mod.rs\<close>, \<open>thinking.rs\<close>): messages, responses, the
    registry of tools with its filter.
  \<^item> \<open>Chart_Blocks\<close> and \<open>Chart_Validation\<close> (\<open>kyomi-core/src/chartml_validation.rs\<close>): the scanner of fenced
    chart blocks and their removal, and the validation of what they hold.
  \<^item> \<open>Agent_Loop\<close> (\<open>kyomi-agent/src/agent.rs\<close>): \<open>chat\<close> with its loop, and \<open>Agent_Guarantees\<close>: what it leaves in
    the conversation, how much it can cost, which errors it returns and what is behind each, and that the charts of an answer
    were dry-run in that chat, with nothing but reports after them.

  Sessions and authorization:

  \<^item> \<open>Kv_Store\<close> (\<open>kyomi-core/src/kv_store.rs\<close>, \<open>kv_store_memory.rs\<close>): the trait as a record of operations, the
    in-process store, and the locale \<open>kv_laws\<close> interpreted on it. \<open>Rate_Limiter\<close> (\<open>rate_limiter.rs\<close>) and
    \<open>One_Time_Tokens\<close> (\<open>redis_ops.rs\<close>) are its clients.
  \<^item> \<open>Column_Enums\<close> (\<open>kyomi-core/src/enums.rs\<close>): the enumerations of text columns.
  \<^item> \<open>Session_Tokens\<close> (\<open>token_service.rs\<close>): refresh tokens; \<open>Browser_Sessions\<close> (\<open>jwt.rs\<close>, \<open>session.rs\<close>,
    \<open>token_refresh.rs\<close>, \<open>middleware.rs\<close>): access tokens, login and the authentication of requests;
    \<open>Session_Guarantees\<close>: revocation, theft, and that a login works. \<open>Request_Meta\<close> (\<open>cookies.rs\<close>,
    \<open>request_meta.rs\<close>): cookies and client addresses.
  \<^item> \<open>OAuth_Server\<close> (\<open>apps/server/src/routes/oauth.rs\<close>) and \<open>OAuth_Guarantees\<close>: codes are granted by the
    consent given on a page that was shown, and each is redeemed once, in any sequence of requests, each of
    which is one step.

  Billing:

  \<^item> \<open>Billing_Gate\<close> (\<open>kyomi-core/src/capability.rs\<close>, \<open>billing_gate.rs\<close>): tiers, lapse and the gate.
  \<^item> \<open>Retry_Cancel\<close> (\<open>kyomi-core/src/retry.rs\<close>, \<open>cancel_registry.rs\<close>): the retry loop of the calls to Stripe,
    and the registry of cancellation tokens of the chats.
  \<^item> \<open>Mcp_Sessions\<close> (\<open>mcp_session_manager.rs\<close>): the sessions of MCP clients, and that invalidation is complete
    where each call of the manager is one step; the one race the code admits is split and shown.
  \<^item> \<open>Stripe_Service\<close> (\<open>stripe_service.rs\<close>, \<open>stripe_config.rs\<close>): the requests to Stripe.
  \<^item> \<open>Subscription_Writes\<close> (\<open>subscription_service.rs\<close>), \<open>Payment_Recovery\<close> (\<open>payment_recovery.rs\<close>),
    \<open>Billing_Webhook\<close> (\<open>billing_webhook.rs\<close>, \<open>apps/server/src/routes/billing.rs\<close>) and \<open>Billing_Checkout\<close>
    (\<open>kyomi-ui/src/server_fns/billing.rs\<close>, \<open>permissions.rs\<close>): the writers of the billing state and what calls
    them.
  \<^item> \<open>Billing_Guarantees\<close> (the contract \<open>announced_write\<close> of the writers, interpreted on all of them, and rules for
    the requests a call sends), \<open>Checkout_Guarantees\<close>, \<open>Recovery_Guarantees\<close>, \<open>Webhook_Guarantees\<close> and
    \<open>Webhook_Effects\<close>: one subscription per workspace, payment before access, events keep to their workspace,
    the gate follows Stripe, redelivery. \<open>Sample_Billing\<close> holds the example of the witnesses.

  \<^bold>\<open>Correspondence.\<close> A struct is a record, an enum a datatype with the same constructors, \<open>Result\<close> a
  sum with the error on the left, a table a list of rows in insertion order, a transaction a function
  from the database to an error or a result with the new database (\<open>transact\<close> adds rollback, lost
  acknowledgements and faults of the connection). Rust strings are their UTF-8 bytes; \<open>i64\<close> values are
  integers with explicit range checks; \<open>u64\<close>, \<open>u32\<close> and \<open>f64\<close> values are words (sums wrap as in a release
  build; arithmetic on floats is a parameter). What is not in the repository is a parameter: serde, AES-GCM,
  SHA-256, UUIDs, RFC 3339 (records \<open>codec\<close>, \<open>aead\<close>, \<open>wire\<close>, \<open>digest\<close>), JWT, URLs and base64 (\<open>jwt_codec\<close>,
  \<open>url_lib\<close>, \<open>oauth_libs\<close>), YAML and the chart schema (\<open>chart_libs\<close>), models and tools (\<open>agent\<close>), Stripe
  (\<open>stripe_api\<close>: its answers are functions of all requests sent so far), and what a call draws from outside
  (\<open>env\<close>, \<open>auth_env\<close>: clocks, nonces, UUIDs, and the fault of each statement, numbered by its place in the
  call). What is relied on is stated by predicates: \<open>codec_ok\<close> (decoding inverts encoding), \<open>aead_ok\<close> (decryption
  inverts encryption; the text of a JSON value is UTF-8), \<open>reads_back\<close> (one given value is read back from its
  text, which floats need not be) and \<open>wire_sizes\<close> (a page is as long as its parts). Clocks are in microseconds, in nanoseconds where the code uses \<open>Instant\<close>.

  \<^bold>\<open>Bounds.\<close> No definition uses fuel. The loops are structural recursions over rows, events, bodies or the
  iterations left to an agent; the sink's retry loop has the measure of its remaining attempts (at most
  three); the validation loop of charts has the measure of the blocks left. \<open>retry_loop\<close>, whose counter is a
  32-bit word, is a partial function and is proved to return after at most eleven calls of an operation that
  returns (\<open>Retry_Cancel\<close>), so the retried requests to Stripe return as well.

  \<^bold>\<open>Not modelled.\<close> Foreign keys (rows they protect are written in the same transaction), the PostgreSQL
  advisory lock and row locks (transactions and statements are atomic steps, and outside the runtime so are whole
  calls of a service, such as a request to the authorization server, a call of the MCP session manager or a check
  of a rate limit), timing of sleeps, tracing, the
  display of pages. Whole components are left out because they are clients of systems outside (model
  providers, datasource drivers, catalog indexers, e-mail, Slack, exports), user interface, or services that
  are mostly SQL text (chat history, watches, dashboards, collections, workspaces, users, the sums of usage);
  passwords, TOTP and passkeys are left out of the logins. The manifest lists them one by one.
\<close>

end
